(* ===== verification/Prelude.thy ===== *)
theory Prelude
  imports Main "HOL-Library.Char_ord" "HOL-Library.List_Lexorder"
    "HOL-Library.Product_Lexorder" "HOL-Library.Option_ord"
begin

text \<open>
  The vocabulary every component theory shares.

  \<^item> Rust's \<open>&str\<close> and \<open>String\<close> are \<^typ>\<open>string\<close>: the list of the UTF-8 bytes, one
    HOL character per byte, so lengths, slices and offsets are byte counts as in the code,
    and the lexicographic order of \<open>List_Lexorder\<close> is the order of \<open>Ord for str\<close>.
  \<^item> \<open>usize\<close> and \<open>u64\<close> values are \<^typ>\<open>nat\<close>; where the code saturates or truncates a
    value the model calls \<open>sat_add64\<close> or \<open>as_u32\<close> at the same place.
  \<^item> \<open>Result<T, E>\<close> is \<open>'e + 'a\<close> with the error on the left, and a panic is \<^const>\<open>None\<close>
    of an option wherever a component can panic.
\<close>

section \<open>Machine integers\<close>

definition u64_max :: nat where
  "u64_max = 2 ^ 64 - 1"

text \<open>\<open>u64::saturating_add\<close>.\<close>

definition sat_add64 :: "nat \<Rightarrow> nat \<Rightarrow> nat" where
  "sat_add64 a b = min (a + b) u64_max"

text \<open>The cast \<open>as u32\<close>, which keeps the low 32 bits.\<close>

definition as_u32 :: "nat \<Rightarrow> nat" where
  "as_u32 n = n mod 2 ^ 32"

named_theorems machine_simps \<open>definitions of the machine-integer helpers\<close>

lemmas [machine_simps] = u64_max_def sat_add64_def as_u32_def

lemma sat_add64_exact: "a + b \<le> u64_max \<Longrightarrow> sat_add64 a b = a + b"
  by (simp add: sat_add64_def)

lemma sat_add64_le_max: "sat_add64 a b \<le> u64_max"
  by (simp add: sat_add64_def)

lemma sat_add64_mono: "a \<le> u64_max \<Longrightarrow> a \<le> sat_add64 a b"
  by (simp add: sat_add64_def)

lemma as_u32_small: "n < 2 ^ 32 \<Longrightarrow> as_u32 n = n"
  by (simp add: as_u32_def)

section \<open>Service errors\<close>

text \<open>\<open>error.rs\<close>: the error taxonomy of the service core, constructor for constructor.\<close>

datatype service_error =
    DocumentNotFound string
  | WorkspaceUnavailable string
  | InvalidRequest string
  | Unsupported string
  | Unresolved string

text \<open>\<open>impl Display for ServiceError\<close>.\<close>

fun service_error_display :: "service_error \<Rightarrow> string" where
  "service_error_display (DocumentNotFound uri) = ''document not found: '' @ uri"
| "service_error_display (WorkspaceUnavailable path) = ''workspace unavailable: '' @ path"
| "service_error_display (InvalidRequest reason) = ''invalid request: '' @ reason"
| "service_error_display (Unsupported reason) = ''unsupported: '' @ reason"
| "service_error_display (Unresolved reason) = ''unresolved: '' @ reason"

section \<open>Results\<close>

definition bind_result :: "'e + 'a \<Rightarrow> ('a \<Rightarrow> 'e + 'b) \<Rightarrow> 'e + 'b" where
  "bind_result r f = (case r of Inl e \<Rightarrow> Inl e | Inr x \<Rightarrow> f x)"

lemma bind_result_simps [simp]:
  "bind_result (Inl e) f = Inl e"
  "bind_result (Inr x) f = f x"
  by (simp_all add: bind_result_def)

lemma bind_result_eq_Inr: "bind_result r f = Inr y \<longleftrightarrow> (\<exists>x. r = Inr x \<and> f x = Inr y)"
  by (cases r) simp_all

text \<open>\<open>Result::ok\<close>.\<close>

fun ok_of :: "'e + 'a \<Rightarrow> 'a option" where
  "ok_of (Inl e) = None"
| "ok_of (Inr x) = Some x"

lemma ok_of_eq_Some [simp]: "ok_of r = Some x \<longleftrightarrow> r = Inr x"
  by (cases r) simp_all

text \<open>Collecting an iterator of results: the first error wins.\<close>

fun collect_results :: "('a \<Rightarrow> 'e + 'b) \<Rightarrow> 'a list \<Rightarrow> 'e + 'b list" where
  "collect_results f [] = Inr []"
| "collect_results f (x # xs) =
     (case f x of Inl e \<Rightarrow> Inl e
      | Inr y \<Rightarrow> (case collect_results f xs of Inl e \<Rightarrow> Inl e | Inr ys \<Rightarrow> Inr (y # ys)))"

lemma collect_results_Inr:
  "collect_results f xs = Inr ys \<longleftrightarrow> list_all2 (\<lambda>x y. f x = Inr y) xs ys"
proof (induction xs arbitrary: ys)
  case (Cons x xs)
  show ?case
  proof (cases "f x")
    case (Inr y)
    then show ?thesis
      by (cases "collect_results f xs"; cases ys) (use Cons in \<open>fastforce+\<close>)
  qed (cases ys, simp_all)
qed auto

section \<open>Lists\<close>

text \<open>\<open>Vec::dedup\<close>: drops an element equal to the one kept before it.\<close>

fun dedup :: "'a list \<Rightarrow> 'a list" where
  "dedup [] = []"
| "dedup [x] = [x]"
| "dedup (x # y # ys) = (if x = y then dedup (y # ys) else x # dedup (y # ys))"

lemma set_dedup [simp]: "set (dedup xs) = set xs"
  by (induction xs rule: dedup.induct) auto

lemma sorted_dedup: "sorted xs \<Longrightarrow> sorted (dedup xs)"
  by (induction xs rule: dedup.induct) auto

lemma sorted_wrt_dedup: "sorted xs \<Longrightarrow> sorted_wrt (<) (dedup xs)" for xs :: "'a::linorder list"
  by (induction xs rule: dedup.induct) (auto simp: order.strict_iff_order)

lemma distinct_dedup: "sorted xs \<Longrightarrow> distinct (dedup xs)" for xs :: "'a::linorder list"
  using sorted_wrt_dedup strict_sorted_iff by blast

text \<open>\<open>iter().position\<close> and \<open>partition_point\<close> on a slice.\<close>

fun position :: "('a \<Rightarrow> bool) \<Rightarrow> 'a list \<Rightarrow> nat option" where
  "position p [] = None"
| "position p (x # xs) = (if p x then Some 0 else map_option Suc (position p xs))"

definition partition_point :: "('a \<Rightarrow> bool) \<Rightarrow> 'a list \<Rightarrow> nat" where
  "partition_point p xs = length (takeWhile p xs)"

lemma partition_point_le: "partition_point p xs \<le> length xs"
  by (simp add: partition_point_def length_takeWhile_le)

lemma partition_point_less: "i < partition_point p xs \<Longrightarrow> p (xs ! i)"
  unfolding partition_point_def
  by (metis nth_mem set_takeWhileD takeWhile_nth)

lemma partition_point_stop: "partition_point p xs < length xs \<Longrightarrow> \<not> p (xs ! partition_point p xs)"
  unfolding partition_point_def by (rule nth_length_takeWhile)

lemma position_Some: "position p xs = Some i \<Longrightarrow> i < length xs \<and> p (xs ! i)"
  by (induction xs arbitrary: i) (auto split: if_splits)

text \<open>\<open>slice.get(i)\<close>.\<close>

definition nth_opt :: "'a list \<Rightarrow> nat \<Rightarrow> 'a option" where
  "nth_opt xs i = (if i < length xs then Some (xs ! i) else None)"

lemma nth_opt_Some: "nth_opt xs i = Some x \<longleftrightarrow> i < length xs \<and> xs ! i = x"
  by (auto simp: nth_opt_def)

end
