(* ===== verification/Ordered_Map.thy ===== *)
theory Ordered_Map
  imports Prelude
begin

text \<open>
  Rust's \<open>BTreeMap\<close> and \<open>BTreeSet\<close>. A map is a list of entries with strictly increasing
  keys, which is what the code can observe of it: lookups, and iteration in key order.
  The representation is unique, so two maps with the same lookups are equal. The locale
  \<open>btree_laws\<close> is the contract the components rely on, and the model discharges it.
\<close>

section \<open>Sorted entry lists\<close>

fun al_insert :: "'k::linorder \<Rightarrow> 'v \<Rightarrow> ('k \<times> 'v) list \<Rightarrow> ('k \<times> 'v) list" where
  "al_insert k v [] = [(k, v)]"
| "al_insert k v ((k', v') # xs) =
     (if k < k' then (k, v) # (k', v') # xs
      else if k = k' then (k, v) # xs
      else (k', v') # al_insert k v xs)"

fun al_delete :: "'k \<Rightarrow> ('k \<times> 'v) list \<Rightarrow> ('k \<times> 'v) list" where
  "al_delete k [] = []"
| "al_delete k ((k', v') # xs) = (if k = k' then xs else (k', v') # al_delete k xs)"

definition al_sorted :: "('k::linorder \<times> 'v) list \<Rightarrow> bool" where
  "al_sorted xs \<longleftrightarrow> sorted_wrt (<) (map fst xs)"

lemma al_sorted_simps [simp]:
  "al_sorted []"
  "al_sorted (x # xs) \<longleftrightarrow> (\<forall>y \<in> set xs. fst x < fst y) \<and> al_sorted xs"
  by (auto simp: al_sorted_def)

lemma set_keys_al_insert: "fst ` set (al_insert k v xs) = insert k (fst ` set xs)"
  by (induction k v xs rule: al_insert.induct) auto

lemma al_sorted_insert: "al_sorted xs \<Longrightarrow> al_sorted (al_insert k v xs)"
proof (induction k v xs rule: al_insert.induct)
  case (2 k v k' v' xs)
  have "\<forall>y \<in> set (al_insert k v xs). k' < fst y" if "\<not> k < k'" "k \<noteq> k'"
  proof -
    have "\<forall>x \<in> fst ` set (al_insert k v xs). k' < x"
      using 2(2) that by (auto simp: set_keys_al_insert)
    then show ?thesis by simp
  qed
  with 2 show ?case by force
qed simp

lemma set_al_delete_subset: "set (al_delete k xs) \<subseteq> set xs"
  by (induction xs) (auto split: if_splits)

lemma al_sorted_delete: "al_sorted xs \<Longrightarrow> al_sorted (al_delete k xs)"
proof (induction xs)
  case (Cons x xs)
  then show ?case using set_al_delete_subset [of k xs] by (cases x) auto
qed simp

lemma map_of_al_insert: "al_sorted xs \<Longrightarrow> map_of (al_insert k v xs) = (map_of xs)(k \<mapsto> v)"
proof (induction k v xs rule: al_insert.induct)
  case (2 k v k' v' xs)
  then show ?case by (auto simp: fun_eq_iff)
qed (simp add: fun_eq_iff)

lemma al_sorted_map_of_None: "\<forall>y \<in> set xs. k < fst y \<Longrightarrow> map_of xs k = None" for k :: "'k::linorder"
  by (induction xs) auto

lemma map_of_al_delete: "al_sorted xs \<Longrightarrow> map_of (al_delete k xs) = (map_of xs)(k := None)"
proof (induction xs)
  case (Cons x xs)
  obtain k' v' where [simp]: "x = (k', v')" by (cases x)
  have "map_of xs k' = None" using Cons.prems by (simp add: al_sorted_map_of_None)
  then show ?case using Cons by (auto simp: fun_eq_iff)
qed (simp add: fun_eq_iff)

lemma al_sorted_distinct: "al_sorted xs \<Longrightarrow> distinct (map fst xs)"
  by (auto simp: al_sorted_def strict_sorted_iff)

lemma al_sorted_ext:
  assumes "al_sorted xs" "al_sorted ys" "map_of xs = map_of ys"
  shows "xs = ys"
proof (rule map_sorted_distinct_set_unique [where f = fst])
  have "(k, v) \<in> set xs \<longleftrightarrow> (k, v) \<in> set ys" for k v
    using map_of_eq_Some_iff [OF al_sorted_distinct [OF assms(1)]]
      map_of_eq_Some_iff [OF al_sorted_distinct [OF assms(2)]] assms(3) by simp
  then have sets: "set xs = set ys" by auto
  show "inj_on fst (set xs \<union> set ys)"
    using al_sorted_distinct [OF assms(1)] sets by (simp add: distinct_map)
  show "set xs = set ys" by (rule sets)
qed (use assms in \<open>auto simp: al_sorted_def strict_sorted_iff distinct_map
      dest: al_sorted_distinct\<close>)

section \<open>The map type\<close>

typedef (overloaded) ('k, 'v) btree = "{xs :: ('k::linorder \<times> 'v) list. al_sorted xs}"
  morphisms bt_entries Abs_btree
  by (rule exI [of _ "[]"]) simp

setup_lifting type_definition_btree

lift_definition bt_empty :: "('k::linorder, 'v) btree" is "[]"
  by simp

lift_definition bt_insert :: "'k::linorder \<Rightarrow> 'v \<Rightarrow> ('k, 'v) btree \<Rightarrow> ('k, 'v) btree"
  is al_insert by (rule al_sorted_insert)

lift_definition bt_delete :: "'k::linorder \<Rightarrow> ('k, 'v) btree \<Rightarrow> ('k, 'v) btree"
  is al_delete by (rule al_sorted_delete)

text \<open>Equality of maps compares the entries; keys are equal when each is below the other.\<close>

instantiation btree :: (linorder, equal) equal
begin

definition equal_btree :: "('a, 'b) btree \<Rightarrow> ('a, 'b) btree \<Rightarrow> bool" where
  "equal_btree m n \<longleftrightarrow>
     list_all2 (\<lambda>(k, v) (k', v'). k \<le> k' \<and> k' \<le> k \<and> HOL.equal v v') (bt_entries m) (bt_entries n)"

instance
proof
  fix m n :: "('a, 'b) btree"
  have "(\<lambda>(k, v) (k', v'). k \<le> k' \<and> k' \<le> k \<and> HOL.equal v v') = ((=) :: 'a \<times> 'b \<Rightarrow> 'a \<times> 'b \<Rightarrow> bool)"
    by (auto simp: fun_eq_iff equal_eq)
  then show "HOL.equal m n \<longleftrightarrow> m = n" by (simp add: equal_btree_def list.rel_eq bt_entries_inject)
qed

end

definition bt_lookup :: "('k::linorder, 'v) btree \<Rightarrow> 'k \<Rightarrow> 'v option" where
  "bt_lookup m = map_of (bt_entries m)"

definition bt_keys :: "('k::linorder, 'v) btree \<Rightarrow> 'k list" where
  "bt_keys m = map fst (bt_entries m)"

lemma bt_entries_simps [simp]:
  "bt_entries bt_empty = []"
  "bt_entries (bt_insert k v m) = al_insert k v (bt_entries m)"
  "bt_entries (bt_delete k m) = al_delete k (bt_entries m)"
  by (simp_all add: bt_empty.rep_eq bt_insert.rep_eq bt_delete.rep_eq)

lemma bt_sorted: "al_sorted (bt_entries m)"
  using bt_entries by auto

lemma bt_lookup_empty [simp]: "bt_lookup bt_empty k = None"
  by (simp add: bt_lookup_def)

lemma bt_lookup_insert [simp]: "bt_lookup (bt_insert k v m) k' = (if k' = k then Some v else bt_lookup m k')"
  by (simp add: bt_lookup_def map_of_al_insert bt_sorted)

lemma bt_lookup_delete [simp]: "bt_lookup (bt_delete k m) k' = (if k' = k then None else bt_lookup m k')"
  by (simp add: bt_lookup_def map_of_al_delete bt_sorted)

lemma btree_eqI: "(\<And>k. bt_lookup m k = bt_lookup n k) \<Longrightarrow> m = n"
  by (metis al_sorted_ext bt_entries_inject bt_lookup_def bt_sorted ext)

lemma bt_lookup_eq_Some: "bt_lookup m k = Some v \<longleftrightarrow> (k, v) \<in> set (bt_entries m)"
  by (simp add: bt_lookup_def map_of_eq_Some_iff al_sorted_distinct bt_sorted)

lemma bt_keys_sorted: "sorted_wrt (<) (bt_keys m)"
  using bt_sorted by (simp add: bt_keys_def al_sorted_def)

lemma bt_keys_distinct: "distinct (bt_keys m)"
  using bt_keys_sorted strict_sorted_iff by blast

lemma set_bt_keys: "set (bt_keys m) = dom (bt_lookup m)"
  by (simp add: bt_keys_def bt_lookup_def dom_map_of_conv_image_fst)

lemma bt_keys_insert_set: "set (bt_keys (bt_insert k v m)) = insert k (set (bt_keys m))"
  by (auto simp: set_bt_keys split: if_splits)

text \<open>\<open>entry(k).or_default()\<close> and a mutation of the slot.\<close>

definition bt_update_default :: "'v \<Rightarrow> 'k::linorder \<Rightarrow> ('v \<Rightarrow> 'v) \<Rightarrow> ('k, 'v) btree \<Rightarrow> ('k, 'v) btree" where
  "bt_update_default d k f m =
     bt_insert k (f (case bt_lookup m k of None \<Rightarrow> d | Some v \<Rightarrow> v)) m"

lemma bt_lookup_update_default [simp]:
  "bt_lookup (bt_update_default d k f m) k' =
     (if k' = k then Some (f (case bt_lookup m k of None \<Rightarrow> d | Some v \<Rightarrow> v)) else bt_lookup m k')"
  by (simp add: bt_update_default_def)

text \<open>\<open>entry(k).or_insert(v)\<close>: keeps the first value.\<close>

definition bt_or_insert :: "'k::linorder \<Rightarrow> 'v \<Rightarrow> ('k, 'v) btree \<Rightarrow> ('k, 'v) btree" where
  "bt_or_insert k v m = (case bt_lookup m k of None \<Rightarrow> bt_insert k v m | Some _ \<Rightarrow> m)"

lemma bt_lookup_or_insert [simp]:
  "bt_lookup (bt_or_insert k v m) k' =
     (if k' = k \<and> bt_lookup m k = None then Some v else bt_lookup m k')"
  by (auto simp: bt_or_insert_def split: option.splits)

text \<open>Collecting an iterator of pairs: a later pair overwrites an earlier one.\<close>

definition bt_of_list :: "('k::linorder \<times> 'v) list \<Rightarrow> ('k, 'v) btree" where
  "bt_of_list kvs = fold (\<lambda>(k, v) m. bt_insert k v m) kvs bt_empty"

lemma bt_lookup_fold_insert:
  "bt_lookup (fold (\<lambda>(k, v) m. bt_insert k v m) kvs m) k =
     (case map_of (rev kvs) k of None \<Rightarrow> bt_lookup m k | Some v \<Rightarrow> Some v)"
proof (induction kvs arbitrary: m)
  case (Cons x kvs)
  obtain a b where [simp]: "x = (a, b)" by (cases x)
  show ?case unfolding fold_simps comp_def
    by (simp add: Cons map_add_def split: option.splits)
qed simp

lemma bt_lookup_of_list: "bt_lookup (bt_of_list kvs) k = map_of (rev kvs) k"
  by (simp add: bt_of_list_def bt_lookup_fold_insert split: option.splits)

section \<open>The set type\<close>

text \<open>\<open>BTreeSet<T>\<close> is \<open>BTreeMap<T, ()>\<close>, as in the standard library.\<close>

type_synonym 'a bset = "('a, unit) btree"

definition bs_insert :: "'a::linorder \<Rightarrow> 'a bset \<Rightarrow> 'a bset" where
  "bs_insert x s = bt_insert x () s"

definition bs_remove :: "'a::linorder \<Rightarrow> 'a bset \<Rightarrow> 'a bset" where
  "bs_remove x s = bt_delete x s"

definition bs_member :: "'a::linorder \<Rightarrow> 'a bset \<Rightarrow> bool" where
  "bs_member x s \<longleftrightarrow> bt_lookup s x \<noteq> None"

definition bs_is_empty :: "'a::linorder bset \<Rightarrow> bool" where
  "bs_is_empty s \<longleftrightarrow> bt_entries s = []"

abbreviation bs_empty :: "'a::linorder bset" where
  "bs_empty \<equiv> bt_empty"

definition bs_first :: "'a::linorder bset \<Rightarrow> 'a option" where
  "bs_first s = (case bt_keys s of [] \<Rightarrow> None | x # _ \<Rightarrow> Some x)"

definition bs_of_list :: "'a::linorder list \<Rightarrow> 'a bset" where
  "bs_of_list xs = fold bs_insert xs bs_empty"

lemma bs_member_empty [simp]: "\<not> bs_member x bs_empty"
  by (simp add: bs_member_def)

lemma bs_member_insert [simp]: "bs_member y (bs_insert x s) \<longleftrightarrow> y = x \<or> bs_member y s"
  by (simp add: bs_member_def bs_insert_def)

lemma bs_member_remove [simp]: "bs_member y (bs_remove x s) \<longleftrightarrow> y \<noteq> x \<and> bs_member y s"
  by (simp add: bs_member_def bs_remove_def)

lemma set_keys_bset: "set (bt_keys s) = {x. bs_member x s}"
  by (auto simp: set_bt_keys bs_member_def)

lemma bset_eqI: "(\<And>x. bs_member x s = bs_member x t) \<Longrightarrow> s = t"
proof (rule btree_eqI)
  fix k
  assume "\<And>x. bs_member x s = bs_member x t"
  then have "(bt_lookup s k \<noteq> None) = (bt_lookup t k \<noteq> None)" by (simp add: bs_member_def)
  then show "bt_lookup s k = bt_lookup t k"
    by (cases "bt_lookup s k"; cases "bt_lookup t k") simp_all
qed

lemma bs_is_empty_iff: "bs_is_empty s \<longleftrightarrow> (\<forall>x. \<not> bs_member x s)"
proof -
  have "bs_is_empty s \<longleftrightarrow> bt_keys s = []"
    unfolding bs_is_empty_def bt_keys_def by (rule map_is_Nil_conv [symmetric])
  also have "\<dots> \<longleftrightarrow> {x. bs_member x s} = {}"
    unfolding set_keys_bset [symmetric] by (rule set_empty [symmetric])
  finally show ?thesis by blast
qed

lemma bs_is_empty_simps [simp]: "bs_is_empty bs_empty" "\<not> bs_is_empty (bs_insert x s)"
  by (auto simp: bs_is_empty_iff)

lemma bs_first_Some: "bs_first s = Some x \<Longrightarrow> bs_member x s \<and> (\<forall>y. bs_member y s \<longrightarrow> x \<le> y)"
proof -
  assume a: "bs_first s = Some x"
  then obtain xs where ks: "bt_keys s = x # xs" by (auto simp: bs_first_def split: list.splits)
  have "sorted_wrt (<) (x # xs)" using bt_keys_sorted [of s] ks by simp
  moreover have "{x. bs_member x s} = set (x # xs)" using set_keys_bset [of s] ks by simp
  ultimately show ?thesis by (auto intro: less_imp_le)
qed

lemma bs_first_None: "bs_first s = None \<longleftrightarrow> (\<forall>x. \<not> bs_member x s)"
proof -
  have "bs_first s = None \<longleftrightarrow> set (bt_keys s) = {}"
    by (auto simp: bs_first_def split: list.splits)
  then show ?thesis by (simp add: set_keys_bset)
qed

lemma bs_member_of_list [simp]: "bs_member x (bs_of_list xs) \<longleftrightarrow> x \<in> set xs"
proof -
  have "bs_member x (fold bs_insert xs s) \<longleftrightarrow> x \<in> set xs \<or> bs_member x s" for s
    by (induction xs arbitrary: s) auto
  then show ?thesis by (simp add: bs_of_list_def)
qed

section \<open>Buckets\<close>

text \<open>
  The indexes of the service are maps from a key to a set of claimants. Adding inserts into
  the bucket, removing drops a bucket that becomes empty, so no empty bucket stays behind.
\<close>

type_synonym ('k, 'a) buckets = "('k, 'a bset) btree"

definition bucket_add :: "'k::linorder \<Rightarrow> 'a::linorder \<Rightarrow> ('k, 'a) buckets \<Rightarrow> ('k, 'a) buckets" where
  "bucket_add k x m = bt_update_default bs_empty k (bs_insert x) m"

definition bucket_members :: "('k::linorder, 'a::linorder) buckets \<Rightarrow> 'k \<Rightarrow> 'a set" where
  "bucket_members m k = (case bt_lookup m k of None \<Rightarrow> {} | Some s \<Rightarrow> {x. bs_member x s})"

definition no_empty_bucket :: "('k::linorder, 'a::linorder) buckets \<Rightarrow> bool" where
  "no_empty_bucket m \<longleftrightarrow> (\<forall>k s. bt_lookup m k = Some s \<longrightarrow> \<not> bs_is_empty s)"

lemma bucket_members_empty [simp]: "bucket_members bt_empty k = {}"
  by (simp add: bucket_members_def)

lemma bucket_members_add [simp]:
  "bucket_members (bucket_add k x m) k' =
     (if k' = k then insert x (bucket_members m k) else bucket_members m k')"
  by (auto simp: bucket_members_def bucket_add_def split: option.splits)

lemma no_empty_bucket_add: "no_empty_bucket m \<Longrightarrow> no_empty_bucket (bucket_add k x m)"
  by (auto simp: no_empty_bucket_def bucket_add_def split: if_splits)

lemma no_empty_bucket_empty [simp]: "no_empty_bucket bt_empty"
  by (simp add: no_empty_bucket_def)

text \<open>Removal, as \<open>get_mut(k)\<close>, \<open>remove(x)\<close> and \<open>remove(k)\<close> of the bucket that became empty.\<close>

definition bucket_remove :: "'k::linorder \<Rightarrow> 'a::linorder \<Rightarrow> ('k, 'a) buckets \<Rightarrow> ('k, 'a) buckets" where
  "bucket_remove k x m =
     (case bt_lookup m k of
        None \<Rightarrow> m
      | Some s \<Rightarrow> let s' = bs_remove x s
                  in if bs_is_empty s' then bt_delete k m else bt_insert k s' m)"

lemma bucket_members_remove [simp]:
  "bucket_members (bucket_remove k x m) k' =
     (if k' = k then bucket_members m k - {x} else bucket_members m k')"
proof (cases "bt_lookup m k")
  case None
  then show ?thesis by (auto simp: bucket_remove_def bucket_members_def)
next
  case (Some s)
  show ?thesis
  proof (cases "bs_is_empty (bs_remove x s)")
    case True
    then have "\<forall>y. bs_member y s \<longrightarrow> y = x" by (auto simp: bs_is_empty_iff)
    then show ?thesis using True Some by (auto simp: bucket_remove_def bucket_members_def Let_def)
  next
    case False
    then show ?thesis using Some by (auto simp: bucket_remove_def bucket_members_def Let_def)
  qed
qed

lemma no_empty_bucket_remove: "no_empty_bucket m \<Longrightarrow> no_empty_bucket (bucket_remove k x m)"
  by (auto simp: no_empty_bucket_def bucket_remove_def Let_def split: option.splits if_splits)

definition bucket_first :: "('k::linorder, 'a::linorder) buckets \<Rightarrow> 'k \<Rightarrow> 'a option" where
  "bucket_first m k = (case bt_lookup m k of None \<Rightarrow> None | Some s \<Rightarrow> bs_first s)"

lemma bucket_first_Some:
  "bucket_first m k = Some x \<Longrightarrow> x \<in> bucket_members m k \<and> (\<forall>y \<in> bucket_members m k. x \<le> y)"
  by (auto simp: bucket_first_def bucket_members_def dest: bs_first_Some split: option.splits)

lemma bucket_first_None: "bucket_first m k = None \<longleftrightarrow> bucket_members m k = {}"
  by (auto simp: bucket_first_def bucket_members_def bs_first_None split: option.splits)

lemma buckets_eqI:
  assumes "no_empty_bucket m" "no_empty_bucket n"
    and "\<And>k. bucket_members m k = bucket_members n k"
  shows "m = n"
proof (rule btree_eqI)
  fix k
  have eq: "bucket_members m k = bucket_members n k" by (rule assms(3))
  show "bt_lookup m k = bt_lookup n k"
  proof (cases "bt_lookup m k"; cases "bt_lookup n k")
    fix s t
    assume "bt_lookup m k = Some s" "bt_lookup n k = Some t"
    with eq have "s = t" by (auto simp: bucket_members_def set_eq_iff intro: bset_eqI)
    with \<open>bt_lookup m k = Some s\<close> \<open>bt_lookup n k = Some t\<close> show ?thesis by simp
  qed (use assms(1,2) eq in \<open>fastforce simp: no_empty_bucket_def bucket_members_def bs_is_empty_iff\<close>)+
qed

section \<open>The contract\<close>

locale btree_laws =
  fixes empty :: "'m"
    and insert_at :: "'k::linorder \<Rightarrow> 'v \<Rightarrow> 'm \<Rightarrow> 'm"
    and delete_at :: "'k \<Rightarrow> 'm \<Rightarrow> 'm"
    and get :: "'m \<Rightarrow> 'k \<Rightarrow> 'v option"
    and keys :: "'m \<Rightarrow> 'k list"
  assumes get_empty: "get empty k = None"
    and get_insert: "get (insert_at k v m) k' = (if k' = k then Some v else get m k')"
    and get_delete: "get (delete_at k m) k' = (if k' = k then None else get m k')"
    and keys_dom: "set (keys m) = {k. get m k \<noteq> None}"
    and keys_strict: "sorted_wrt (<) (keys m)"
    and map_ext: "(\<And>k. get m k = get n k) \<Longrightarrow> m = n"
begin

lemma delete_absent: "get m k = None \<Longrightarrow> delete_at k m = m"
  by (rule map_ext) (simp add: get_delete)

lemma insert_delete: "get m k = None \<Longrightarrow> delete_at k (insert_at k v m) = m"
  by (rule map_ext) (simp add: get_delete get_insert)

lemma keys_canonical: "keys m = sorted_list_of_set {k. get m k \<noteq> None}"
  using keys_dom [of m] keys_strict [of m]
  by (metis sorted_list_of_set.idem_if_sorted_distinct strict_sorted_iff)

end

interpretation bt: btree_laws bt_empty bt_insert bt_delete bt_lookup bt_keys
  by unfold_locales
    (auto simp: set_bt_keys dom_def bt_keys_sorted intro: btree_eqI)

end
