(* ===== verification/Rust_Str.thy ===== *)
theory Rust_Str
  imports Prelude
begin

text \<open>
  The operations of Rust's standard library on \<open>str\<close> that the service uses, on UTF-8 byte
  strings. Slicing off a character boundary panics in Rust; here it is \<^const>\<open>None\<close>.
  Whitespace is the Unicode property \<open>White_Space\<close>, given by the UTF-8 encodings of its
  25 members.
\<close>

section \<open>Bytes and character boundaries\<close>

definition byte_of :: "char \<Rightarrow> nat" where
  "byte_of c = of_char c"

definition is_ascii :: "char \<Rightarrow> bool" where
  "is_ascii c \<longleftrightarrow> byte_of c < 128"

definition is_continuation :: "char \<Rightarrow> bool" where
  "is_continuation c \<longleftrightarrow> 128 \<le> byte_of c \<and> byte_of c < 192"

definition is_char_boundary :: "string \<Rightarrow> nat \<Rightarrow> bool" where
  "is_char_boundary s i \<longleftrightarrow>
     i = 0 \<or> i = length s \<or> (i < length s \<and> \<not> is_continuation (s ! i))"

text \<open>\<open>&s[a..]\<close> and \<open>&s[a..b]\<close>.\<close>

definition slice_from :: "string \<Rightarrow> nat \<Rightarrow> string option" where
  "slice_from s a = (if is_char_boundary s a then Some (drop a s) else None)"

definition slice :: "string \<Rightarrow> nat \<Rightarrow> nat \<Rightarrow> string option" where
  "slice s a b =
     (if a \<le> b \<and> is_char_boundary s a \<and> is_char_boundary s b
      then Some (take (b - a) (drop a s)) else None)"

lemma ascii_not_continuation: "is_ascii c \<Longrightarrow> \<not> is_continuation c"
  by (simp add: is_ascii_def is_continuation_def)

lemma ascii_boundary: "list_all is_ascii s \<Longrightarrow> i \<le> length s \<Longrightarrow> is_char_boundary s i"
  by (auto simp: is_char_boundary_def list_all_length ascii_not_continuation le_less)

lemma slice_from_ascii: "list_all is_ascii s \<Longrightarrow> i \<le> length s \<Longrightarrow> slice_from s i = Some (drop i s)"
  by (simp add: slice_from_def ascii_boundary)

lemma slice_SomeD: "slice s a b = Some t \<Longrightarrow> t = take (b - a) (drop a s) \<and> a \<le> b \<and> b \<le> length s"
  by (auto simp: slice_def is_char_boundary_def split: if_splits)

section \<open>Prefixes, suffixes, patterns\<close>

fun starts_with :: "string \<Rightarrow> string \<Rightarrow> bool" where
  "starts_with s [] = True"
| "starts_with [] (p # ps) = False"
| "starts_with (c # cs) (p # ps) = (c = p \<and> starts_with cs ps)"

definition ends_with :: "string \<Rightarrow> string \<Rightarrow> bool" where
  "ends_with s p \<longleftrightarrow> starts_with (rev s) (rev p)"

definition strip_prefix :: "string \<Rightarrow> string \<Rightarrow> string option" where
  "strip_prefix s p = (if starts_with s p then Some (drop (length p) s) else None)"

definition strip_suffix :: "string \<Rightarrow> string \<Rightarrow> string option" where
  "strip_suffix s p = (if ends_with s p then Some (take (length s - length p) s) else None)"

lemma starts_with_iff: "starts_with s p \<longleftrightarrow> (\<exists>t. s = p @ t)"
  by (induction s p rule: starts_with.induct) auto

lemma starts_with_take: "starts_with s p \<longleftrightarrow> take (length p) s = p"
  by (induction s p rule: starts_with.induct) auto

lemma starts_with_length: "starts_with s p \<Longrightarrow> length p \<le> length s"
  by (auto simp: starts_with_iff)

lemma ends_with_iff: "ends_with s p \<longleftrightarrow> (\<exists>t. s = t @ p)"
  unfolding ends_with_def starts_with_iff by (metis rev_append rev_rev_ident)

lemma strip_prefix_Some: "strip_prefix s p = Some t \<longleftrightarrow> s = p @ t"
  by (auto simp: strip_prefix_def starts_with_iff)

lemma strip_suffix_Some: "strip_suffix s p = Some t \<longleftrightarrow> s = t @ p"
  by (auto simp: strip_suffix_def ends_with_iff)

fun contains_str :: "string \<Rightarrow> string \<Rightarrow> bool" where
  "contains_str [] p = (p = [])"
| "contains_str (c # cs) p = (starts_with (c # cs) p \<or> contains_str cs p)"

lemma contains_str_iff: "contains_str s p \<longleftrightarrow> (\<exists>a b. s = a @ p @ b)"
proof (induction s)
  case (Cons c cs)
  note IH = Cons.IH
  show ?case
  proof
    assume "contains_str (c # cs) p"
    then consider t where "c # cs = p @ t" | a b where "cs = a @ p @ b"
      using IH by (auto simp: starts_with_iff)
    then show "\<exists>a b. c # cs = a @ p @ b"
    proof cases
      case 1
      then show ?thesis by (metis append_Nil)
    next
      case 2
      then show ?thesis by (metis append_Cons)
    qed
  next
    assume "\<exists>a b. c # cs = a @ p @ b"
    then obtain a b where ab: "c # cs = a @ p @ b" by blast
    show "contains_str (c # cs) p"
    proof (cases a)
      case Nil
      with ab have "starts_with (c # cs) p" by (simp add: starts_with_iff)
      then show ?thesis by simp
    next
      case (Cons a' as)
      with ab have "cs = as @ p @ b" by simp
      with IH have "contains_str cs p" by blast
      then show ?thesis by simp
    qed
  qed
qed auto

text \<open>\<open>s.replace(p, r)\<close> for a non-empty pattern: leftmost, non-overlapping.\<close>

function replace_str :: "string \<Rightarrow> string \<Rightarrow> string \<Rightarrow> string" where
  "replace_str p r s =
     (case s of [] \<Rightarrow> []
      | c # cs \<Rightarrow> if p \<noteq> [] \<and> starts_with s p then r @ replace_str p r (drop (length p) s)
                 else c # replace_str p r cs)"
  by pat_completeness auto
termination
  by (relation "measure (\<lambda>(p, r, s). length s)") (auto dest: starts_with_length)

declare replace_str.simps [simp del]

lemma replace_str_Nil [simp]: "replace_str p r [] = []"
  by (simp add: replace_str.simps)

lemma replace_str_absent: "\<not> contains_str s p \<Longrightarrow> replace_str p r s = s"
proof (induction s)
  case (Cons c cs)
  then show ?case by (subst replace_str.simps) auto
qed simp

text \<open>A one-byte pattern replaces every occurrence of the byte.\<close>

lemma replace_str_byte: "replace_str [b] r s = concat (map (\<lambda>c. if c = b then r else [c]) s)"
proof (induction s)
  case (Cons c cs)
  then show ?case by (subst replace_str.simps) auto
qed simp

section \<open>Splitting and joining\<close>

text \<open>\<open>s.split(c)\<close>: always at least one piece.\<close>

fun split_char :: "char \<Rightarrow> string \<Rightarrow> string list" where
  "split_char d [] = [[]]"
| "split_char d (c # cs) =
     (if c = d then [] # split_char d cs
      else (case split_char d cs of [] \<Rightarrow> [[c]] | x # xs \<Rightarrow> (c # x) # xs))"

text \<open>\<open>pieces.join(sep)\<close>.\<close>

fun join_str :: "string \<Rightarrow> string list \<Rightarrow> string" where
  "join_str sep [] = []"
| "join_str sep [x] = x"
| "join_str sep (x # y # xs) = x @ sep @ join_str sep (y # xs)"

lemma split_char_nonempty [simp]: "split_char d s \<noteq> []"
  by (induction s) (auto split: list.splits)

lemma split_char_no_sep: "d \<notin> set s \<Longrightarrow> split_char d s = [s]"
  by (induction s) auto

lemma join_str_Cons: "xs \<noteq> [] \<Longrightarrow> join_str sep (x # xs) = x @ sep @ join_str sep xs"
  by (cases xs) auto

lemma join_split_char: "join_str [d] (split_char d s) = s"
proof (induction s)
  case (Cons c cs)
  obtain x xs where sp: "split_char d cs = x # xs" by (cases "split_char d cs") auto
  have "join_str [d] ((c # x) # xs) = c # join_str [d] (x # xs)" by (cases xs) auto
  then show ?case using Cons sp by (auto simp: join_str_Cons)
qed simp

lemma split_char_pieces: "x \<in> set (split_char d s) \<Longrightarrow> d \<notin> set x"
  by (induction s arbitrary: x) (auto split: if_splits list.splits)

lemma split_char_append:
  "d \<notin> set x \<Longrightarrow> split_char d (x @ d # s) = x # split_char d s"
  by (induction x) auto

lemma split_join:
  "xs \<noteq> [] \<Longrightarrow> \<forall>x \<in> set xs. d \<notin> set x \<Longrightarrow> split_char d (join_str [d] xs) = xs"
proof (induction xs)
  case (Cons x xs)
  show ?case
  proof (cases "xs = []")
    case True
    with Cons.prems show ?thesis by (simp add: split_char_no_sep)
  next
    case False
    with Cons show ?thesis by (simp add: join_str_Cons split_char_append)
  qed
qed simp

lemma set_split_char: "x \<in> set (split_char d s) \<Longrightarrow> set x \<subseteq> set s"
proof (induction s arbitrary: x)
  case (Cons c cs)
  obtain y ys where y: "split_char d cs = y # ys" by (cases "split_char d cs") auto
  consider "x = []" | "x \<in> set (split_char d cs)" | "x = c # y"
    using Cons.prems y by (auto split: if_splits)
  then show ?case
  proof cases
    case 2
    then show ?thesis using Cons.IH by auto
  next
    case 3
    moreover have "set y \<subseteq> set cs" using Cons.IH y by auto
    ultimately show ?thesis by auto
  qed simp
qed simp

text \<open>
  \<open>s.lines()\<close>: a line ends at a line feed, a carriage return before it is dropped, and a
  text that ends with a line feed has no empty last line.
\<close>

definition strip_cr :: "string \<Rightarrow> string" where
  "strip_cr l = (if l \<noteq> [] \<and> last l = CHR 0x0D then butlast l else l)"

definition lines :: "string \<Rightarrow> string list" where
  "lines s =
     (let ps = split_char (CHR 0x0A) s
      in map strip_cr (butlast ps) @ (if last ps = [] then [] else [last ps]))"

section \<open>Whitespace\<close>

definition ascii_ws :: "char \<Rightarrow> bool" where
  "ascii_ws c \<longleftrightarrow> c \<in> {CHR 0x09, CHR 0x0A, CHR 0x0B, CHR 0x0C, CHR 0x0D, CHR 0x20}"

definition wide_ws :: "string list" where
  "wide_ws =
     [[CHR 0xC2, CHR 0x85], [CHR 0xC2, CHR 0xA0], [CHR 0xE1, CHR 0x9A, CHR 0x80],
      [CHR 0xE2, CHR 0x80, CHR 0x80], [CHR 0xE2, CHR 0x80, CHR 0x81],
      [CHR 0xE2, CHR 0x80, CHR 0x82], [CHR 0xE2, CHR 0x80, CHR 0x83],
      [CHR 0xE2, CHR 0x80, CHR 0x84], [CHR 0xE2, CHR 0x80, CHR 0x85],
      [CHR 0xE2, CHR 0x80, CHR 0x86], [CHR 0xE2, CHR 0x80, CHR 0x87],
      [CHR 0xE2, CHR 0x80, CHR 0x88], [CHR 0xE2, CHR 0x80, CHR 0x89],
      [CHR 0xE2, CHR 0x80, CHR 0x8A], [CHR 0xE2, CHR 0x80, CHR 0xA8],
      [CHR 0xE2, CHR 0x80, CHR 0xA9], [CHR 0xE2, CHR 0x80, CHR 0xAF],
      [CHR 0xE2, CHR 0x81, CHR 0x9F], [CHR 0xE3, CHR 0x80, CHR 0x80]]"

text \<open>Bytes of the whitespace character at the front (at the back) of a string; 0 if none.\<close>

definition ws_len :: "string \<Rightarrow> nat" where
  "ws_len s =
     (if s = [] then 0 else if ascii_ws (hd s) then 1
      else (case find (starts_with s) wide_ws of None \<Rightarrow> 0 | Some e \<Rightarrow> length e))"

definition ws_len_back :: "string \<Rightarrow> nat" where
  "ws_len_back s =
     (if s = [] then 0 else if ascii_ws (last s) then 1
      else (case find (ends_with s) wide_ws of None \<Rightarrow> 0 | Some e \<Rightarrow> length e))"

lemma ws_len_le: "ws_len s \<le> length s"
  by (auto simp: ws_len_def find_Some_iff Suc_le_eq dest: starts_with_length split: option.splits)

lemma ws_len_back_le: "ws_len_back s \<le> length s"
  by (auto simp: ws_len_back_def find_Some_iff ends_with_iff Suc_le_eq split: option.splits)

lemma wide_ws_head: "\<forall>e \<in> set wide_ws. e \<noteq> [] \<and> \<not> is_ascii (hd e)"
  by (simp add: wide_ws_def is_ascii_def byte_of_def)

lemma find_wide_ws_ascii:
  assumes "is_ascii c"
  shows "find (starts_with (c # cs)) wide_ws = None"
proof -
  have "\<not> starts_with (c # cs) e" if "e \<in> set wide_ws" for e
    using wide_ws_head that assms by (cases e) auto
  then show ?thesis by (simp add: find_None_iff)
qed

lemma ws_len_Nil [simp]: "ws_len [] = 0"
  using ws_len_le [of "[]"] by simp

function trim_start :: "string \<Rightarrow> string" where
  "trim_start s = (if ws_len s = 0 then s else trim_start (drop (ws_len s) s))"
  by pat_completeness auto
termination
proof (relation "measure length")
  show "(drop (ws_len s) s, s) \<in> measure length" if "ws_len s \<noteq> 0" for s
    using that ws_len_le [of s] by (simp; arith)
qed simp

function trim_end :: "string \<Rightarrow> string" where
  "trim_end s = (if ws_len_back s = 0 then s else trim_end (take (length s - ws_len_back s) s))"
  by pat_completeness auto
termination
proof (relation "measure length")
  show "(take (length s - ws_len_back s) s, s) \<in> measure length" if "ws_len_back s \<noteq> 0" for s
    using that ws_len_back_le [of s] by (simp; arith)
qed simp

declare trim_start.simps [simp del] trim_end.simps [simp del]

definition trim :: "string \<Rightarrow> string" where
  "trim s = trim_end (trim_start s)"

text \<open>The first item of \<open>s.split_whitespace()\<close>, the empty string if there is none.\<close>

function until_ws :: "string \<Rightarrow> string" where
  "until_ws s = (if s = [] \<or> ws_len s \<noteq> 0 then [] else hd s # until_ws (tl s))"
  by pat_completeness auto
termination
  by (relation "measure length") auto

declare until_ws.simps [simp del]

definition first_word :: "string \<Rightarrow> string" where
  "first_word s = until_ws (trim_start s)"

text \<open>\<open>s.trim_end_matches(set)\<close> for a set of ASCII characters.\<close>

definition trim_end_chars :: "char set \<Rightarrow> string \<Rightarrow> string" where
  "trim_end_chars C s = rev (dropWhile (\<lambda>c. c \<in> C) (rev s))"

lemma ws_len_ascii: "is_ascii c \<Longrightarrow> ws_len (c # cs) = (if ascii_ws c then 1 else 0)"
  by (simp add: ws_len_def find_wide_ws_ascii)

lemma trim_start_suffix: "\<exists>p. s = p @ trim_start s"
proof (induction s rule: trim_start.induct)
  case (1 s)
  show ?case
  proof (cases "ws_len s = 0")
    case False
    with 1 obtain p where "drop (ws_len s) s = p @ trim_start (drop (ws_len s) s)" by blast
    then have "s = (take (ws_len s) s @ p) @ trim_start s"
      using False by (simp add: trim_start.simps [of s] flip: append_assoc) (metis append_assoc append_take_drop_id)
    then show ?thesis by blast
  qed (simp add: trim_start.simps)
qed

lemma trim_start_idem: "trim_start (trim_start s) = trim_start s"
proof (induction s rule: trim_start.induct)
  case (1 s)
  show ?case
  proof (cases "ws_len s = 0")
    case True
    then show ?thesis by (simp add: trim_start.simps)
  next
    case False
    then have "trim_start s = trim_start (drop (ws_len s) s)" by (simp add: trim_start.simps [of s])
    with 1 False show ?thesis by simp
  qed
qed

lemma trim_start_ascii: "list_all is_ascii s \<Longrightarrow> trim_start s = dropWhile ascii_ws s"
proof (induction s)
  case Nil
  show ?case by (simp add: trim_start.simps)
next
  case (Cons c cs)
  then show ?case
    by (subst trim_start.simps) (auto simp: ws_len_ascii)
qed

section \<open>Numbers in messages\<close>

text \<open>\<open>Display\<close> of an unsigned integer.\<close>

fun show_nat :: "nat \<Rightarrow> string" where
  "show_nat n =
     (if n < 10 then [char_of (48 + n)] else show_nat (n div 10) @ [char_of (48 + n mod 10)])"

declare show_nat.simps [simp del]

end
