(* ===== verification/Compiler_View.thy ===== *)
theory Compiler_View
  imports Ordered_Map Rust_Str
begin

text \<open>
  The artifacts of the \<open>mncs-language\<close> front end that the service reads. The compiler is not
  part of this repository, so only the shape of its results appears here, field by field as
  \<open>analysis.rs\<close>, \<open>indexes.rs\<close>, \<open>events.rs\<close> and \<open>queries.rs\<close> access them; the front end
  itself is an argument of the definitions that call it.
\<close>

datatype source_span = SourceSpan
  (sp_start: nat) (sp_end: nat) (sp_line: nat) (sp_column: nat)

record ast_name =
  an_text :: string
  an_span :: source_span

datatype ast_stmt =
    StLet (st_name: ast_name) (st_type: string) (st_span: source_span)
  | StBoundedIteration (st_name: ast_name) (st_type: string) (st_span: source_span)
  | StIf (st_then: "ast_stmt list") (st_else: "ast_stmt list") (st_span: source_span)
  | StFail (st_span: source_span)
  | StReturn (st_span: source_span)

record ast_field =
  af_name :: ast_name
  af_span :: source_span
  af_type :: string

record ast_members =
  am_name :: ast_name
  am_span :: source_span
  am_fields :: "ast_field list"

record ast_enum =
  ae_name :: ast_name
  ae_span :: source_span
  ae_variants :: "ast_name list"

record ast_function =
  fn_name :: ast_name
  fn_span :: source_span
  fn_generics :: "ast_name list"
  fn_inputs :: "ast_field list"
  fn_outputs :: "ast_field list"
  fn_body :: "ast_stmt list"

record ast =
  ast_module :: ast_name
  ast_uses :: "ast_name list"
  ast_finite_types :: "ast_enum list"
  ast_record_types :: "ast_members list"
  ast_functions :: "ast_function list"

datatype obligation_status = ObPass | ObFail | ObUnknown

datatype contract_kind =
  CkRequires | CkEnsures | CkInvariant | CkPreserves | CkBudget | CkProperty | CkMetamorphic

datatype evidence_status = EsClaimed | EsTested | EsAnalyzed | EsVerified | EsExternallyVerified

record model_finite =
  mf_name :: string
  mf_identity :: string
  mf_variants :: "(string \<times> string) list"

record model_record =
  mk_name :: string
  mk_identity :: string
  mk_fields :: "(string \<times> string) list"

record model_effect =
  me_kind :: string
  me_capability :: string

record model_contract =
  mc_id :: string
  mc_kind :: contract_kind
  mc_expression :: string

record model_evidence =
  mv_property :: string
  mv_verifier :: string
  mv_status :: evidence_status

text \<open>A body is a list of blocks of operations; only calls are read.\<close>

datatype body_operation = OpCall string | OpOther

record model_function =
  mo_name :: string
  mo_capabilities :: "string list"
  mo_effects :: "model_effect list"
  mo_contracts :: "model_contract list"
  mo_evidence :: "model_evidence list"
  mo_body :: "body_operation list list option"

text \<open>\<open>ob_freshness\<close> is the \<open>Debug\<close> text of the freshness.\<close>

record model_obligation =
  ob_identity :: string
  ob_subject :: string
  ob_requirement :: string
  ob_status :: obligation_status
  ob_method :: string
  ob_freshness :: string
  ob_fallback :: "string option"
  ob_dependencies :: "string list"

text \<open>\<open>pr_obligations\<close> is what \<open>generate_obligations\<close> returns for the program.\<close>

record program =
  pr_module :: string
  pr_finite_types :: "model_finite list"
  pr_record_types :: "model_record list"
  pr_functions :: "model_function list"
  pr_identities :: "(string \<times> string) list"
  pr_obligations :: "model_obligation list"

datatype resolved_kind =
    RkFunction | RkParameter | RkBinding | RkIterationState
  | RkFiniteType | RkFiniteVariant | RkRecordType | RkRecordField

record name_resolution =
  nr_occurrence :: source_span
  nr_declaration :: source_span
  nr_kind :: resolved_kind

record module_resolution =
  mr_requested :: string
  mr_identity :: string

text \<open>Diagnostics; the stage, the severity and the token kinds are \<open>Debug\<close> texts.\<close>

record leaf_diagnostic =
  lf_code :: string
  lf_message :: string
  lf_span :: source_span

record source_diagnostic =
  dg_code :: string
  dg_stage :: string
  dg_severity :: string
  dg_message :: string
  dg_span :: source_span
  dg_expected :: "string list"
  dg_found :: "string option"
  dg_related :: "leaf_diagnostic list"

text \<open>
  The lexical tokens and the concrete syntax tree. The token kinds are the constructors the exhaustive
  match of \<open>expected_scope\<close> in \<open>scopes.rs\<close> names, which the compiler checks against the lexer's own type.
\<close>

datatype token_kind =
    Whitespace | LineComment | BlockComment | MncsKeyword | ModuleKeyword | FunctionKeyword
    | TestKeyword | ReturnKeyword | LetKeyword | IfKeyword | ElseKeyword | FailKeyword | RequiresKeyword
    | EnsuresKeyword | AssumesKeyword | PropertyKeyword | InvariantKeyword | MetamorphicKeyword
    | EffectKeyword | CapabilityKeyword | AuthorizedKeyword | EnumKeyword | UseKeyword | RecordKeyword
    | MatchKeyword | IterateKeyword | UpToKeyword | CarryingKeyword | NextKeyword | OverKeyword
    | AsKeyword | WhileKeyword | TrueKeyword | FalseKeyword | Identifier | Version | IntegerLiteral
    | Plus | Minus | Star | Slash | Percent | PlusPercent | MinusPercent | StarPercent | PlusPipe
    | MinusPipe | StarPipe | Ampersand | Pipe | Caret | Shl | Shr | Not | EqEq | NotEq | Lt | Gt | Le
    | Ge | AndAnd | OrOr | Equal | Arrow | FatArrow | Dot | DotDot | Colon | Semicolon | Comma
    | LeftParen | RightParen | LeftBrace | RightBrace | LeftBracket | RightBracket | Unknown

record source_token =
  tk_kind :: token_kind
  tk_span :: source_span
  tk_text :: string
  tk_trivia :: bool

datatype cst_kind =
    FunctionDeclaration | FiniteTypeDeclaration | RecordTypeDeclaration | BlockNode
  | BoundedIterationNode | OtherNode string

datatype cst_node = CstNode (cn_kind: cst_kind) (cn_span: source_span) (cn_children: "cst_node list")

text \<open>The test inventory and the execution source map.\<close>

record test_entry =
  te_name :: string
  te_function :: string
  te_declaration :: string
  te_case :: string
  te_span :: source_span

record mapped_operation =
  op_identity :: string
  op_function :: string
  op_span :: "source_span option"

record mapped_function =
  mp_identity :: string
  mp_name :: string
  mp_span :: source_span

record source_map =
  sm_operations :: "mapped_operation list"
  sm_functions :: "mapped_function list"

record front_end =
  fe_text :: string
  fe_identity :: string
  fe_language_version :: string
  fe_ast :: "ast option"
  fe_program :: "program option"
  fe_tokens :: "source_token list"
  fe_cst :: cst_node
  fe_tests :: "test_entry list option"
  fe_source_map :: "source_map option"
  fe_diagnostics :: "source_diagnostic list"
  fe_resolutions :: "name_resolution list"
  fe_module_resolutions :: "module_resolution list"

text \<open>The results of \<open>semantic_diff\<close> and \<open>impact_neighborhood\<close>.\<close>

record semantic_diff =
  sd_added :: "(string \<times> string) list"
  sd_removed :: "(string \<times> string) list"
  sd_changed :: "(string \<times> string \<times> string) list"

record impact =
  im_graph_identity :: string
  im_complete :: bool

text \<open>
  The operations of \<open>mncs_model\<close> the event projection calls. \<open>api_impact\<close> is
  \<open>semantic_graph\<close> followed by \<open>impact_neighborhood(roots, 2, 512)\<close>, \<^const>\<open>None\<close> when no
  graph can be produced; \<open>api_function_id\<close> is \<open>function_id(module, name)\<close>.
\<close>

record model_api =
  api_diff :: "program \<Rightarrow> program \<Rightarrow> semantic_diff"
  api_impact :: "program \<Rightarrow> string list \<Rightarrow> impact option"
  api_function_id :: "string \<Rightarrow> string \<Rightarrow> string"
  api_contract_id :: "string \<Rightarrow> string \<Rightarrow> string \<Rightarrow> string"
  api_module_id :: "string \<Rightarrow> string"

end
