(* ===== verification/Symbols.thy ===== *)
theory Symbols
  imports Compiler_View
begin

text \<open>
  \<open>indexes.rs\<close>: the per-document symbol and reference index. \<open>si_build\<close> walks the syntax
  tree in the order of the code (module, finite types with their variants, record types with
  their fields, functions with parameters and bindings), then joins the compiler's name
  resolutions to the declarations. The lemmas show that every index the build stores points
  at the declaration it was recorded for, and that the grouped reference index answers like
  a scan of the reference list.
\<close>

section \<open>Symbol kinds\<close>

datatype symbol_kind =
    Module | Function | Parameter | Binding | IterationState
  | FiniteType | FiniteVariant | RecordType | RecordField

text \<open>\<open>native_filter::symbol_kind_tag\<close>: the declaration order, which \<open>derive(Ord)\<close> uses too.\<close>

fun symbol_kind_tag :: "symbol_kind \<Rightarrow> int" where
  "symbol_kind_tag Module = 0"
| "symbol_kind_tag Function = 1"
| "symbol_kind_tag Parameter = 2"
| "symbol_kind_tag Binding = 3"
| "symbol_kind_tag IterationState = 4"
| "symbol_kind_tag FiniteType = 5"
| "symbol_kind_tag FiniteVariant = 6"
| "symbol_kind_tag RecordType = 7"
| "symbol_kind_tag RecordField = 8"

lemma symbol_kind_tag_inject: "symbol_kind_tag k = symbol_kind_tag k' \<longleftrightarrow> k = k'"
  by (cases k; cases k') simp_all

instantiation symbol_kind :: linorder
begin

definition less_eq_symbol_kind :: "symbol_kind \<Rightarrow> symbol_kind \<Rightarrow> bool" where
  "less_eq_symbol_kind k k' \<longleftrightarrow> symbol_kind_tag k \<le> symbol_kind_tag k'"

definition less_symbol_kind :: "symbol_kind \<Rightarrow> symbol_kind \<Rightarrow> bool" where
  "less_symbol_kind k k' \<longleftrightarrow> symbol_kind_tag k < symbol_kind_tag k'"

instance
  by standard (auto simp: less_eq_symbol_kind_def less_symbol_kind_def symbol_kind_tag_inject)

end

fun kind_from_resolved :: "resolved_kind \<Rightarrow> symbol_kind" where
  "kind_from_resolved RkFunction = Function"
| "kind_from_resolved RkParameter = Parameter"
| "kind_from_resolved RkBinding = Binding"
| "kind_from_resolved RkIterationState = IterationState"
| "kind_from_resolved RkFiniteType = FiniteType"
| "kind_from_resolved RkFiniteVariant = FiniteVariant"
| "kind_from_resolved RkRecordType = RecordType"
| "kind_from_resolved RkRecordField = RecordField"

section \<open>The index\<close>

record symbol_entry =
  se_name :: string
  se_kind :: symbol_kind
  se_name_span :: source_span
  se_full_span :: source_span
  se_container :: "string option"
  se_identity :: "string option"
  se_type_name :: "string option"
  se_parent :: "nat option"

definition se_detail :: "symbol_entry \<Rightarrow> string option" where
  "se_detail e =
     (if se_kind e \<in> {Module, FiniteVariant, RecordField} then None
      else map_option (\<lambda>ty. '': '' @ ty) (se_type_name e))"

record reference_entry =
  re_occurrence :: source_span
  re_declaration :: source_span
  re_kind :: symbol_kind
  re_target_name :: string
  re_target :: "nat option"

record symbol_index =
  si_symbols :: "symbol_entry list"
  si_references :: "reference_entry list"
  si_decl_by_start :: "(nat, nat) btree"
  si_refs_by_target :: "(nat, reference_entry list) btree"
  si_functions :: "(string, nat) btree"

definition si_empty :: symbol_index where
  "si_empty = \<lparr>si_symbols = [], si_references = [], si_decl_by_start = bt_empty,
     si_refs_by_target = bt_empty, si_functions = bt_empty\<rparr>"

definition si_push :: "symbol_entry \<Rightarrow> symbol_index \<Rightarrow> symbol_index" where
  "si_push e ix = ix\<lparr>si_symbols := si_symbols ix @ [e]\<rparr>"

text \<open>
  Every push of the build is followed by \<open>declarations_by_start.insert(name_span.start, entry)\<close>
  with the index of the pushed symbol.
\<close>

definition si_declare :: "symbol_entry \<Rightarrow> symbol_index \<Rightarrow> symbol_index" where
  "si_declare e ix =
     (si_push e ix)\<lparr>si_decl_by_start :=
        bt_insert (sp_start (se_name_span e)) (length (si_symbols ix)) (si_decl_by_start ix)\<rparr>"

definition finite_identity :: "program option \<Rightarrow> string \<Rightarrow> string option" where
  "finite_identity p n =
     Option.bind p (\<lambda>p. map_option mf_identity (find (\<lambda>c. mf_name c = n) (pr_finite_types p)))"

definition variant_identity :: "program option \<Rightarrow> string \<Rightarrow> string \<Rightarrow> string option" where
  "variant_identity p n v =
     Option.bind p (\<lambda>p. Option.bind (find (\<lambda>c. mf_name c = n) (pr_finite_types p))
       (\<lambda>c. map_option snd (find (\<lambda>vc. fst vc = v) (mf_variants c))))"

definition record_identity :: "program option \<Rightarrow> string \<Rightarrow> string option" where
  "record_identity p n =
     Option.bind p (\<lambda>p. map_option mk_identity (find (\<lambda>c. mk_name c = n) (pr_record_types p)))"

definition build_module :: "ast \<Rightarrow> symbol_index \<Rightarrow> symbol_index" where
  "build_module a =
     si_declare \<lparr>se_name = an_text (ast_module a), se_kind = Module,
       se_name_span = an_span (ast_module a), se_full_span = an_span (ast_module a),
       se_container = None, se_identity = None, se_type_name = None, se_parent = None\<rparr>"

definition build_finite_type :: "program option \<Rightarrow> ast_enum \<Rightarrow> symbol_index \<Rightarrow> symbol_index" where
  "build_finite_type p d ix =
     (let parent = length (si_symbols ix);
          n = an_text (ae_name d);
          ix = si_declare \<lparr>se_name = n, se_kind = FiniteType,
            se_name_span = an_span (ae_name d), se_full_span = ae_span d,
            se_container = None, se_identity = finite_identity p n,
            se_type_name = None, se_parent = None\<rparr> ix
      in fold (\<lambda>v. si_declare \<lparr>se_name = an_text v, se_kind = FiniteVariant,
            se_name_span = an_span v, se_full_span = an_span v,
            se_container = Some n, se_identity = variant_identity p n (an_text v),
            se_type_name = None, se_parent = Some parent\<rparr>) (ae_variants d) ix)"

definition build_record_type :: "program option \<Rightarrow> ast_members \<Rightarrow> symbol_index \<Rightarrow> symbol_index" where
  "build_record_type p d ix =
     (let parent = length (si_symbols ix);
          n = an_text (am_name d);
          ix = si_declare \<lparr>se_name = n, se_kind = RecordType,
            se_name_span = an_span (am_name d), se_full_span = am_span d,
            se_container = None, se_identity = record_identity p n,
            se_type_name = None, se_parent = None\<rparr> ix
      in fold (\<lambda>f. si_declare \<lparr>se_name = an_text (af_name f), se_kind = RecordField,
            se_name_span = an_span (af_name f), se_full_span = af_span f,
            se_container = Some n, se_identity = None,
            se_type_name = Some (af_type f), se_parent = Some parent\<rparr>) (am_fields d) ix)"

text \<open>\<open>collect_binding_declarations\<close>: let bindings and iteration states in elaboration order.\<close>

definition binding_entry :: "symbol_kind \<Rightarrow> string \<Rightarrow> nat \<Rightarrow> ast_name \<Rightarrow> string \<Rightarrow> symbol_entry" where
  "binding_entry k fname owner n ty =
     \<lparr>se_name = an_text n, se_kind = k, se_name_span = an_span n, se_full_span = an_span n,
      se_container = Some fname, se_identity = None, se_type_name = Some ty,
      se_parent = Some owner\<rparr>"

fun walk_stmts :: "string \<Rightarrow> nat \<Rightarrow> ast_stmt list \<Rightarrow> symbol_index \<Rightarrow> symbol_index" where
  "walk_stmts fname owner [] ix = ix"
| "walk_stmts fname owner (StLet n ty _ # ss) ix =
     walk_stmts fname owner ss (si_declare (binding_entry Binding fname owner n ty) ix)"
| "walk_stmts fname owner (StBoundedIteration n ty _ # ss) ix =
     walk_stmts fname owner ss (si_declare (binding_entry IterationState fname owner n ty) ix)"
| "walk_stmts fname owner (StIf t e _ # ss) ix =
     walk_stmts fname owner ss (walk_stmts fname owner e (walk_stmts fname owner t ix))"
| "walk_stmts fname owner (StFail _ # ss) ix = walk_stmts fname owner ss ix"
| "walk_stmts fname owner (StReturn _ # ss) ix = walk_stmts fname owner ss ix"

definition build_function ::
  "model_api \<Rightarrow> program option \<Rightarrow> ast_function \<Rightarrow> symbol_index \<Rightarrow> symbol_index" where
  "build_function api p f ix =
     (let entry = length (si_symbols ix);
          n = an_text (fn_name f);
          ix = si_declare \<lparr>se_name = n, se_kind = Function,
            se_name_span = an_span (fn_name f), se_full_span = fn_span f,
            se_container = None,
            se_identity = map_option (\<lambda>p. api_function_id api (pr_module p) n) p,
            se_type_name = (case fn_outputs f of [] \<Rightarrow> None | o1 # _ \<Rightarrow> Some (af_type o1)),
            se_parent = None\<rparr> ix;
          ix = ix\<lparr>si_functions := bt_insert n entry (si_functions ix)\<rparr>;
          ix = fold (\<lambda>q. si_declare \<lparr>se_name = an_text (af_name q), se_kind = Parameter,
            se_name_span = an_span (af_name q), se_full_span = af_span q,
            se_container = Some n, se_identity = None,
            se_type_name = Some (af_type q), se_parent = Some entry\<rparr>) (fn_inputs f) ix
      in walk_stmts n entry (fn_body f) ix)"

definition build_declarations :: "model_api \<Rightarrow> program option \<Rightarrow> ast \<Rightarrow> symbol_index" where
  "build_declarations api p a =
     fold (build_function api p) (ast_functions a)
       (fold (build_record_type p) (ast_record_types a)
         (fold (build_finite_type p) (ast_finite_types a)
           (build_module a si_empty)))"

text \<open>\<open>text.get(start..end).unwrap_or_default()\<close>.\<close>

definition slice_or_default :: "string \<Rightarrow> nat \<Rightarrow> nat \<Rightarrow> string" where
  "slice_or_default t a b = (case slice t a b of None \<Rightarrow> [] | Some s \<Rightarrow> s)"

definition build_reference :: "string \<Rightarrow> symbol_index \<Rightarrow> name_resolution \<Rightarrow> reference_entry" where
  "build_reference text ix r =
     \<lparr>re_occurrence = nr_occurrence r, re_declaration = nr_declaration r,
      re_kind = kind_from_resolved (nr_kind r),
      re_target_name = slice_or_default text (sp_start (nr_occurrence r)) (sp_end (nr_occurrence r)),
      re_target = bt_lookup (si_decl_by_start ix) (sp_start (nr_declaration r))\<rparr>"

definition group_references :: "reference_entry list \<Rightarrow> (nat, reference_entry list) btree" where
  "group_references rs =
     fold (\<lambda>r m. case re_target r of None \<Rightarrow> m
             | Some t \<Rightarrow> bt_update_default [] t (\<lambda>xs. xs @ [r]) m) rs bt_empty"

definition si_build :: "model_api \<Rightarrow> front_end \<Rightarrow> symbol_index" where
  "si_build api fe =
     (case fe_ast fe of None \<Rightarrow> si_empty
      | Some a \<Rightarrow>
          let ix = build_declarations api (fe_program fe) a;
              rs = sort_key (\<lambda>r. sp_start (re_occurrence r))
                     (map (build_reference (fe_text fe) ix) (fe_resolutions fe))
          in ix\<lparr>si_references := rs, si_refs_by_target := group_references rs\<rparr>)"

section \<open>Queries\<close>

definition span_contains :: "source_span \<Rightarrow> nat \<Rightarrow> bool" where
  "span_contains s b \<longleftrightarrow> sp_start s \<le> b \<and> b \<le> sp_end s"

text \<open>\<open>min_by_key\<close> keeps the first of several minimal elements.\<close>

fun min_by_key :: "('a \<Rightarrow> nat) \<Rightarrow> 'a list \<Rightarrow> 'a option" where
  "min_by_key f [] = None"
| "min_by_key f (x # xs) =
     (case min_by_key f xs of None \<Rightarrow> Some x | Some y \<Rightarrow> Some (if f x \<le> f y then x else y))"

definition declaration_at :: "symbol_index \<Rightarrow> nat \<Rightarrow> nat option" where
  "declaration_at ix b =
     map_option fst
       (min_by_key (\<lambda>(i, e). (b - sp_start (se_name_span e)) + (sp_end (se_name_span e) - b))
         (filter (\<lambda>(i, e). span_contains (se_name_span e) b) (enumerate 0 (si_symbols ix))))"

definition references_at :: "symbol_index \<Rightarrow> nat \<Rightarrow> reference_entry list" where
  "references_at ix b = filter (\<lambda>r. span_contains (re_occurrence r) b) (si_references ix)"

definition references_to :: "symbol_index \<Rightarrow> nat \<Rightarrow> reference_entry list" where
  "references_to ix t = (case bt_lookup (si_refs_by_target ix) t of None \<Rightarrow> [] | Some rs \<Rightarrow> rs)"

definition function_entry :: "symbol_index \<Rightarrow> string \<Rightarrow> nat option" where
  "function_entry ix n = bt_lookup (si_functions ix) n"

definition builtin_type_names :: "string list" where
  "builtin_type_names =
     [''bool'', ''i8'', ''i16'', ''i32'', ''i64'', ''u8'', ''u16'', ''u32'', ''u64'']"

definition is_builtin_type :: "string \<Rightarrow> bool" where
  "is_builtin_type n \<longleftrightarrow> n \<in> set builtin_type_names"

section \<open>The declarations are well formed\<close>

text \<open>
  A symbol's parent precedes it; a recorded start offset leads to a symbol whose name starts
  there; a function name leads to a function symbol of that name.
\<close>

definition si_wf :: "symbol_index \<Rightarrow> bool" where
  "si_wf ix \<longleftrightarrow>
     (\<forall>i < length (si_symbols ix). \<forall>q. se_parent (si_symbols ix ! i) = Some q \<longrightarrow> q < i) \<and>
     (\<forall>b i. bt_lookup (si_decl_by_start ix) b = Some i \<longrightarrow>
        i < length (si_symbols ix) \<and> sp_start (se_name_span (si_symbols ix ! i)) = b) \<and>
     (\<forall>e \<in> set (si_symbols ix). bt_lookup (si_decl_by_start ix) (sp_start (se_name_span e)) \<noteq> None) \<and>
     (\<forall>n i. bt_lookup (si_functions ix) n = Some i \<longrightarrow>
        i < length (si_symbols ix) \<and> se_name (si_symbols ix ! i) = n \<and>
        se_kind (si_symbols ix ! i) = Function)"

text \<open>Growth of the index: symbols are only appended.\<close>

definition si_extends :: "symbol_index \<Rightarrow> symbol_index \<Rightarrow> bool" where
  "si_extends ix ix' \<longleftrightarrow> (\<exists>es. si_symbols ix' = si_symbols ix @ es)"

lemma si_extends_refl [simp]: "si_extends ix ix"
  by (simp add: si_extends_def)

lemma si_extends_trans: "si_extends a b \<Longrightarrow> si_extends b c \<Longrightarrow> si_extends a c"
  by (auto simp: si_extends_def)

lemma si_extends_length: "si_extends a b \<Longrightarrow> length (si_symbols a) \<le> length (si_symbols b)"
  by (auto simp: si_extends_def)

lemma si_extends_nth: "si_extends a b \<Longrightarrow> i < length (si_symbols a) \<Longrightarrow> si_symbols b ! i = si_symbols a ! i"
  by (auto simp: si_extends_def nth_append)

lemma si_declare_fields [simp]:
  "si_symbols (si_declare e ix) = si_symbols ix @ [e]"
  "si_functions (si_declare e ix) = si_functions ix"
  "si_decl_by_start (si_declare e ix) =
     bt_insert (sp_start (se_name_span e)) (length (si_symbols ix)) (si_decl_by_start ix)"
  "si_references (si_declare e ix) = si_references ix"
  by (simp_all add: si_declare_def si_push_def)

lemma si_extends_declare [simp]: "si_extends ix (si_declare e ix)"
  by (simp add: si_extends_def)

lemma si_wf_empty [simp]: "si_wf si_empty"
  by (simp add: si_wf_def si_empty_def)

lemma si_wf_declare:
  assumes "si_wf ix" and parent: "\<And>q. se_parent e = Some q \<Longrightarrow> q < length (si_symbols ix)"
  shows "si_wf (si_declare e ix)"
  using assms(1) parent unfolding si_wf_def
  by (auto simp: nth_append less_Suc_eq)

lemma fold_declare_wf:
  assumes "si_wf ix" "\<And>x. x \<in> set xs \<Longrightarrow> se_parent (f x) = Some q" "q < length (si_symbols ix)"
  shows "si_wf (fold (\<lambda>x. si_declare (f x)) xs ix) \<and>
         si_extends ix (fold (\<lambda>x. si_declare (f x)) xs ix)"
  using assms
proof (induction xs arbitrary: ix)
  case (Cons x xs)
  let ?ix = "si_declare (f x) ix"
  have "si_wf ?ix" using Cons.prems by (auto intro: si_wf_declare)
  moreover have "\<And>y. y \<in> set xs \<Longrightarrow> se_parent (f y) = Some q" "q < length (si_symbols ?ix)"
    using Cons.prems by auto
  ultimately have "si_wf (fold (\<lambda>x. si_declare (f x)) xs ?ix) \<and>
      si_extends ?ix (fold (\<lambda>x. si_declare (f x)) xs ?ix)" by (rule Cons.IH)
  then show ?case by (auto intro: si_extends_trans [OF si_extends_declare])
qed simp

lemma si_wf_binding:
  "si_wf ix \<Longrightarrow> owner < length (si_symbols ix) \<Longrightarrow>
     si_wf (si_declare (binding_entry k fname owner n ty) ix)"
  by (rule si_wf_declare) (simp_all add: binding_entry_def)

lemma walk_stmts_wf:
  "si_wf ix \<Longrightarrow> owner < length (si_symbols ix) \<Longrightarrow>
   si_wf (walk_stmts fname owner ss ix) \<and> si_extends ix (walk_stmts fname owner ss ix)"
proof (induction fname owner ss ix rule: walk_stmts.induct)
  case (4 fname owner t e span ss ix)
  let ?t = "walk_stmts fname owner t ix"
  let ?e = "walk_stmts fname owner e ?t"
  from 4 have t: "si_wf ?t" "si_extends ix ?t" by auto
  then have "owner < length (si_symbols ?t)" using 4(5) si_extends_length by fastforce
  with 4 t have e: "si_wf ?e" "si_extends ?t ?e" by auto
  then have "owner < length (si_symbols ?e)"
    using \<open>owner < length (si_symbols ?t)\<close> si_extends_length by fastforce
  with 4 e t show ?case by (auto intro: si_extends_trans)
qed (auto intro: si_wf_binding si_extends_trans [OF si_extends_declare])

lemma build_finite_type_wf: "si_wf ix \<Longrightarrow> si_wf (build_finite_type p d ix)"
  unfolding build_finite_type_def Let_def
  by (rule conjunct1 [OF fold_declare_wf]) (auto intro: si_wf_declare)

lemma build_record_type_wf: "si_wf ix \<Longrightarrow> si_wf (build_record_type p d ix)"
  unfolding build_record_type_def Let_def
  by (rule conjunct1 [OF fold_declare_wf]) (auto intro: si_wf_declare)

lemma si_wf_add_function:
  assumes "si_wf ix" "i < length (si_symbols ix)" "se_name (si_symbols ix ! i) = n"
    "se_kind (si_symbols ix ! i) = Function"
  shows "si_wf (ix\<lparr>si_functions := bt_insert n i (si_functions ix)\<rparr>)"
  using assms by (auto simp: si_wf_def)

lemma build_function_wf:
  assumes "si_wf ix"
  shows "si_wf (build_function api p f ix)"
proof -
  let ?n = "an_text (fn_name f)"
  let ?i = "length (si_symbols ix)"
  let ?e = "\<lparr>se_name = ?n, se_kind = Function,
            se_name_span = an_span (fn_name f), se_full_span = fn_span f,
            se_container = None,
            se_identity = map_option (\<lambda>p. api_function_id api (pr_module p) ?n) p,
            se_type_name = (case fn_outputs f of [] \<Rightarrow> None | o1 # _ \<Rightarrow> Some (af_type o1)),
            se_parent = None\<rparr>"
  let ?a = "si_declare ?e ix"
  let ?b = "?a\<lparr>si_functions := bt_insert ?n ?i (si_functions ?a)\<rparr>"
  have "si_wf ?a" using assms by (auto intro: si_wf_declare)
  then have b: "si_wf ?b" by (rule si_wf_add_function) simp_all
  let ?par = "\<lambda>q. \<lparr>se_name = an_text (af_name q), se_kind = Parameter,
            se_name_span = an_span (af_name q), se_full_span = af_span q,
            se_container = Some ?n, se_identity = None,
            se_type_name = Some (af_type q), se_parent = Some ?i\<rparr>"
  let ?c = "fold (\<lambda>q. si_declare (?par q)) (fn_inputs f) ?b"
  have c: "si_wf ?c \<and> si_extends ?b ?c" by (rule fold_declare_wf [OF b]) auto
  then have "?i < length (si_symbols ?c)" using si_extends_length by fastforce
  then have "si_wf (walk_stmts ?n ?i (fn_body f) ?c)" using c walk_stmts_wf by blast
  then show ?thesis by (simp add: build_function_def Let_def)
qed

lemma fold_invariant: "P s \<Longrightarrow> (\<And>x s. P s \<Longrightarrow> P (f x s)) \<Longrightarrow> P (fold f xs s)"
  by (induction xs arbitrary: s) auto

lemma build_declarations_wf: "si_wf (build_declarations api p a)"
proof -
  have "si_wf (build_module a si_empty)"
    unfolding build_module_def by (rule si_wf_declare) simp_all
  then show ?thesis
    unfolding build_declarations_def
    by (intro fold_invariant [where P = si_wf] build_function_wf build_record_type_wf
        build_finite_type_wf)
qed

lemma si_build_symbols:
  "fe_ast fe = Some a \<Longrightarrow>
     si_symbols (si_build api fe) = si_symbols (build_declarations api (fe_program fe) a) \<and>
     si_decl_by_start (si_build api fe) = si_decl_by_start (build_declarations api (fe_program fe) a) \<and>
     si_functions (si_build api fe) = si_functions (build_declarations api (fe_program fe) a)"
  by (simp add: si_build_def Let_def)

lemma si_build_wf: "si_wf (si_build api fe)"
proof (cases "fe_ast fe")
  case None
  then show ?thesis by (simp add: si_build_def)
next
  case (Some a)
  then show ?thesis
    using si_build_symbols [OF Some, of api] build_declarations_wf [of api "fe_program fe" a]
    by (simp add: si_wf_def)
qed

section \<open>Grouped references\<close>

lemma fold_group_references:
  "bt_lookup (fold (\<lambda>r m. case re_target r of None \<Rightarrow> m
             | Some t \<Rightarrow> bt_update_default [] t (\<lambda>xs. xs @ [r]) m) rs m) t =
   (let new = filter (\<lambda>r. re_target r = Some t) rs
    in case bt_lookup m t of
         None \<Rightarrow> (if new = [] then None else Some new)
       | Some old \<Rightarrow> Some (old @ new))"
proof (induction rs arbitrary: m)
  case (Cons r rs)
  show ?case
    by (cases "re_target r") (auto simp: Cons Let_def split: option.splits)
qed (simp add: Let_def split: option.splits)

lemma references_to_scan:
  "references_to (si_build api fe) t =
     filter (\<lambda>r. re_target r = Some t) (si_references (si_build api fe))"
  by (cases "fe_ast fe")
    (auto simp: references_to_def si_build_def si_empty_def Let_def group_references_def
      fold_group_references)

section \<open>The tightest declaration\<close>

lemma min_by_key_None: "min_by_key f xs = None \<longleftrightarrow> xs = []"
  by (cases xs) (auto split: option.splits)

lemma min_by_key_Some: "min_by_key f xs = Some x \<Longrightarrow> x \<in> set xs \<and> (\<forall>y \<in> set xs. f x \<le> f y)"
proof (induction xs arbitrary: x)
  case (Cons a xs)
  then show ?case
    by (cases "min_by_key f xs") (fastforce simp: min_by_key_None split: if_splits)+
qed simp

lemma span_width: "span_contains s b \<Longrightarrow> (b - sp_start s) + (sp_end s - b) = sp_end s - sp_start s"
  by (auto simp: span_contains_def)

section \<open>Properties\<close>

text \<open>for every front-end result, the symbol index the build produces is well formed:
  parents precede their members, the start-offset directory covers every symbol and leads to a
  symbol whose name starts at that offset, and the function directory leads to functions of
  that name.\<close>

theorem symbol_index_wf: "si_wf (si_build api fe)"
  by (rule si_build_wf)

text \<open>the references grouped by target are exactly the references of the list that bind to
  the target, in list order, and the list is sorted by the start of the occurrence.\<close>

theorem symbol_references_grouped:
  "references_to (si_build api fe) t =
     filter (\<lambda>r. re_target r = Some t) (si_references (si_build api fe)) \<and>
   sorted (map (\<lambda>r. sp_start (re_occurrence r)) (si_references (si_build api fe)))"
proof (rule conjI)
  show "references_to (si_build api fe) t =
      filter (\<lambda>r. re_target r = Some t) (si_references (si_build api fe))"
    by (rule references_to_scan)
  show "sorted (map (\<lambda>r. sp_start (re_occurrence r)) (si_references (si_build api fe)))"
    by (simp add: si_build_def si_empty_def Let_def split: option.split)
qed

text \<open>the declaration found at a byte has a name span that contains the byte, no other
  containing name span is narrower, and one is found exactly when some name span contains
  the byte.\<close>

theorem declaration_at_tightest:
  "(case declaration_at ix b of
      Some i \<Rightarrow> i < length (si_symbols ix) \<and> span_contains (se_name_span (si_symbols ix ! i)) b \<and>
        list_all (\<lambda>e. span_contains (se_name_span e) b \<longrightarrow>
          sp_end (se_name_span (si_symbols ix ! i)) - sp_start (se_name_span (si_symbols ix ! i))
            \<le> sp_end (se_name_span e) - sp_start (se_name_span e)) (si_symbols ix)
    | None \<Rightarrow> list_all (\<lambda>e. \<not> span_contains (se_name_span e) b) (si_symbols ix))"
proof -
  let ?key = "\<lambda>(i :: nat, e). (b - sp_start (se_name_span e)) + (sp_end (se_name_span e) - b)"
  let ?xs = "filter (\<lambda>(i :: nat, e). span_contains (se_name_span e) b) (enumerate 0 (si_symbols ix))"
  have mem: "(i, e) \<in> set ?xs \<longleftrightarrow> i < length (si_symbols ix) \<and> e = si_symbols ix ! i \<and>
      span_contains (se_name_span e) b" for i e
    by (auto simp: in_set_enumerate_eq)
  show ?thesis
  proof (cases "min_by_key ?key ?xs")
    case None
    then have "?xs = []" by (simp only: min_by_key_None)
    then have "\<not> span_contains (se_name_span (si_symbols ix ! i)) b" if "i < length (si_symbols ix)" for i
      using mem [of i "si_symbols ix ! i"] that by auto
    then show ?thesis using None by (simp add: declaration_at_def list_all_length)
  next
    case (Some ie)
    obtain i e where ie: "ie = (i, e)" by (cases ie)
    have min: "(i, e) \<in> set ?xs" "\<forall>y \<in> set ?xs. ?key (i, e) \<le> ?key y"
      using min_by_key_Some [OF Some] ie by auto
    have at: "declaration_at ix b = Some i" using Some ie by (simp add: declaration_at_def)
    have "sp_end (se_name_span e) - sp_start (se_name_span e)
        \<le> sp_end (se_name_span e') - sp_start (se_name_span e')"
      if "j < length (si_symbols ix)" "e' = si_symbols ix ! j" "span_contains (se_name_span e') b" for j e'
    proof -
      have "(j, e') \<in> set ?xs" using that unfolding mem by blast
      with min(2) have "?key (i, e) \<le> ?key (j, e')" by blast
      then show ?thesis
        using that(3) min(1) unfolding mem by (simp add: span_width)
    qed
    then show ?thesis using at min(1) unfolding mem by (auto simp: list_all_length)
  qed
qed

definition sample_index :: symbol_index where
  "sample_index = si_empty\<lparr>si_symbols :=
     map (\<lambda>(a, b). \<lparr>se_name = ''f'', se_kind = Function, se_name_span = SourceSpan a b 1 1,
         se_full_span = SourceSpan a b 1 1, se_container = None, se_identity = None,
         se_type_name = None, se_parent = None\<rparr>) [(0, 9), (2, 5), (6, 8)]\<rparr>"

lemma declaration_at_tightest_witness:
  "declaration_at sample_index 3 = Some 1 \<and>
   list_all (\<lambda>e. span_contains (se_name_span e) 3 \<longrightarrow>
      3 \<le> sp_end (se_name_span e) - sp_start (se_name_span e)) (si_symbols sample_index)"
proof -
  have d: "declaration_at sample_index 3 = Some 1" by code_simp
  have w: "sp_end (se_name_span (si_symbols sample_index ! 1)) - sp_start (se_name_span (si_symbols sample_index ! 1)) = 3"
    by code_simp
  from declaration_at_tightest [where ix = sample_index and b = 3] show ?thesis by (simp add: d w [simplified])
qed

end
