(* ===== verification/Native.thy ===== *)
theory Native
  imports Ordered_Map Rust_Str
begin

text \<open>
  The boundary to the MNCS kernels: the values a kernel takes and returns, the decoding of
  results in \<open>native_coords.rs\<close>, \<open>native_relation.rs\<close> and \<open>native_filter.rs\<close>, and the calls
  of the coordinate kernel. The backend that runs a compiled kernel is a crate outside this
  repository: it is the argument \<open>backend\<close>, and nothing is assumed about it here. Errors are
  the constructors of \<open>native_error\<close>, one per message of the code.
\<close>

section \<open>Values, kernels, executions\<close>

datatype exec_value =
    EvInteger (ev_value: int) (ev_bits: nat) (ev_signed: bool)
  | EvBoolean bool
  | EvByte int
  | EvSequence "exec_value list"
  | EvFinite string string nat
  | EvRecord (ev_identity: string) (ev_name: string) (ev_fields: "(string \<times> exec_value) list")

record record_type =
  rt_name :: string
  rt_identity :: string
  rt_fields :: "string list"

text \<open>The variants of a finite type: name, identity and discriminant.\<close>

record finite_type =
  ft_name :: string
  ft_identity :: string
  ft_variants :: "(string \<times> string \<times> nat) list"

record kernel =
  k_source_identity :: string
  k_dependencies :: "(string, string) btree"
  k_record_types :: "record_type list"
  k_finite_types :: "finite_type list"
  k_backend_name :: string
  k_artifact_identity :: string

record execution =
  ex_returned_ok :: bool
  ex_returned :: "exec_value list"
  ex_failure :: "string option"

type_synonym backend = "kernel \<Rightarrow> string \<Rightarrow> string \<Rightarrow> exec_value list \<Rightarrow> nat \<Rightarrow> execution"

datatype native_error =
    KernelUnavailable string
  | UnknownFunction string
  | InputTooLarge
  | ExecutionRefused string
  | NotARecord
  | UnknownRecord
  | WrongShape
  | MissingField string
  | NotAnInteger string
  | WrongIntegerType string
  | OutOfRange string
  | NotASequence string
  | WrongLength string
  | NotABoolean string
  | KernelRejected
  | EnvelopeExceeded
  | BoundExceeded
  | PaddingCollision
  | LostDependency
  | InvalidResult
  | StaleKernel
  | Inconsistent

definition u64_in_range :: "int \<Rightarrow> bool" where
  "u64_in_range v \<longleftrightarrow> 0 \<le> v \<and> v \<le> int u64_max"

section \<open>Field decoding\<close>

definition integer_field :: "exec_value \<Rightarrow> string \<Rightarrow> nat \<Rightarrow> native_error + nat" where
  "integer_field value name bits =
     (case value of
        EvInteger v b s \<Rightarrow>
          if \<not> (b = bits \<and> \<not> s) then Inl (WrongIntegerType name)
          else if u64_in_range v then Inr (nat v) else Inl (OutOfRange name)
      | _ \<Rightarrow> Inl (NotAnInteger name))"

text \<open>\<open>sequence_field\<close>: every entry must also fit the element type, \<open>width\<close> bits here.\<close>

definition sequence_field :: "exec_value \<Rightarrow> string \<Rightarrow> nat \<Rightarrow> native_error + nat list" where
  "sequence_field value name bits =
     (case value of
        EvSequence values \<Rightarrow>
          collect_results
            (\<lambda>entry. bind_result (integer_field entry name bits)
               (\<lambda>v. if v < 2 ^ bits then Inr v else Inl (OutOfRange name))) values
      | _ \<Rightarrow> Inl (NotASequence name))"

definition record_field :: "(string \<times> exec_value) list \<Rightarrow> string \<Rightarrow> native_error + exec_value" where
  "record_field fds name =
     (case find (\<lambda>f. fst f = name) fds of
        None \<Rightarrow> Inl (MissingField name) | Some f \<Rightarrow> Inr (snd f))"

definition boolean_field :: "exec_value \<Rightarrow> string \<Rightarrow> native_error + bool" where
  "boolean_field value name =
     (case value of EvBoolean b \<Rightarrow> Inr b | _ \<Rightarrow> Inl (NotABoolean name))"

definition boolean_sequence_field :: "exec_value \<Rightarrow> string \<Rightarrow> nat \<Rightarrow> native_error + bool list" where
  "boolean_sequence_field value name len =
     (case value of
        EvSequence values \<Rightarrow>
          if length values \<noteq> len then Inl (WrongLength name)
          else collect_results (\<lambda>v. boolean_field v name) values
      | _ \<Rightarrow> Inl (NotASequence name))"

definition integer_sequence_field :: "exec_value \<Rightarrow> string \<Rightarrow> nat \<Rightarrow> native_error + nat list" where
  "integer_sequence_field value name len =
     (case value of
        EvSequence values \<Rightarrow>
          if length values \<noteq> len then Inl (WrongLength name)
          else collect_results (\<lambda>v. integer_field v name 64) values
      | _ \<Rightarrow> Inl (NotASequence name))"

text \<open>\<open>record_fields\<close>: the record must be one the kernel's program declares, of that shape.\<close>

definition record_fields ::
  "kernel \<Rightarrow> exec_value \<Rightarrow> string \<Rightarrow> native_error + (string \<times> exec_value) list" where
  "record_fields k value expected =
     (case value of
        EvRecord ident name fds \<Rightarrow>
          (case find (\<lambda>r. rt_identity r = ident \<and> rt_name r = expected) (k_record_types k) of
             None \<Rightarrow> Inl UnknownRecord
           | Some r \<Rightarrow> if rt_fields r = map fst fds then Inr fds else Inl WrongShape)
      | _ \<Rightarrow> Inl NotARecord)"

text \<open>The single returned value of an execution, or its refusal.\<close>

definition single_result :: "execution \<Rightarrow> native_error + exec_value" where
  "single_result ex =
     (if \<not> ex_returned_ok ex \<or> length (ex_returned ex) \<noteq> 1
      then Inl (ExecutionRefused (case ex_failure ex of None \<Rightarrow> [] | Some r \<Rightarrow> r))
      else Inr (hd (ex_returned ex)))"

lemma boolean_sequence_length:
  "boolean_sequence_field v name len = Inr bs \<Longrightarrow> length bs = len"
  by (auto simp: boolean_sequence_field_def collect_results_Inr
      split: exec_value.splits if_splits dest: list_all2_lengthD)

lemma integer_sequence_length:
  "integer_sequence_field v name len = Inr ns \<Longrightarrow> length ns = len"
  by (auto simp: integer_sequence_field_def collect_results_Inr
      split: exec_value.splits if_splits dest: list_all2_lengthD)

lemma sequence_field_bound:
  "sequence_field v name bits = Inr ns \<Longrightarrow> n \<in> set ns \<Longrightarrow> n < 2 ^ bits"
  by (auto simp: sequence_field_def collect_results_Inr bind_result_eq_Inr list_all2_conv_all_nth
      in_set_conv_nth split: exec_value.splits if_splits)

section \<open>The coordinate kernel\<close>

definition chunk_bytes :: nat where "chunk_bytes = 1020"
definition checkpoint_bytes :: nat where "checkpoint_bytes = 64"
definition lookahead_bytes :: nat where "lookahead_bytes = 3"
definition position_input_capacity :: nat where
  "position_input_capacity = chunk_bytes + lookahead_bytes"
definition window_input_capacity :: nat where
  "window_input_capacity = checkpoint_bytes + lookahead_bytes * 2"

definition div_ceil :: "nat \<Rightarrow> nat \<Rightarrow> nat" where
  "div_ceil a b = (if a mod b = 0 then a div b else a div b + 1)"

definition map_capacity :: nat where
  "map_capacity = div_ceil chunk_bytes checkpoint_bytes + 1"
definition window_map_capacity :: nat where
  "window_map_capacity = window_input_capacity + 1"

named_theorems coord_consts \<open>the capacities of the coordinate kernel\<close>

lemmas [coord_consts] = chunk_bytes_def checkpoint_bytes_def lookahead_bytes_def
  position_input_capacity_def window_input_capacity_def div_ceil_def map_capacity_def
  window_map_capacity_def

record coordinate_chunk =
  cc_bytes :: nat
  cc_units :: nat
  cc_map :: "nat list"
  cc_map_length :: nat

record coordinate_window =
  cw_map :: "nat list"
  cw_map_length :: nat

definition coordinate_module :: string where
  "coordinate_module = ''mncs.language_service.coordinate_map.v1''"

definition coordinate_step_budget :: nat where
  "coordinate_step_budget = 500000"

definition u64_argument :: "nat \<Rightarrow> exec_value" where
  "u64_argument v = EvInteger (int v) 64 False"

definition byte_argument :: "char \<Rightarrow> exec_value" where
  "byte_argument c = EvByte (int (byte_of c))"

definition coordinate_execute ::
  "backend \<Rightarrow> native_error + kernel \<Rightarrow> string \<Rightarrow> string \<Rightarrow> string \<Rightarrow> nat list
     \<Rightarrow> native_error + (string \<times> exec_value) list" where
  "coordinate_execute backend kern function record_name bytes numeric =
     (let limit = (if function = ''position_chunk'' then Some position_input_capacity
                   else if function = ''coordinate_window'' then Some window_input_capacity
                   else None)
      in case limit of None \<Rightarrow> Inl (UnknownFunction function)
         | Some limit \<Rightarrow>
           if length bytes > limit then Inl InputTooLarge
           else bind_result kern (\<lambda>k.
             let arguments = EvSequence (map byte_argument bytes)
                   # map u64_argument (length bytes # numeric)
             in bind_result
                  (single_result (backend k coordinate_module function arguments coordinate_step_budget))
                  (\<lambda>value. case value of
                     EvRecord ident name fds \<Rightarrow>
                       (case find (\<lambda>r. rt_name r = record_name) (k_record_types k) of
                          None \<Rightarrow> Inl UnknownRecord
                        | Some r \<Rightarrow>
                            if ident \<noteq> rt_identity r \<or> name \<noteq> record_name then Inl UnknownRecord
                            else Inr fds)
                   | _ \<Rightarrow> Inl NotARecord)))"

definition is_true :: "exec_value \<Rightarrow> bool" where
  "is_true v \<longleftrightarrow> v = EvBoolean True"

definition position_chunk ::
  "backend \<Rightarrow> native_error + kernel \<Rightarrow> string \<Rightarrow> nat \<Rightarrow> native_error + coordinate_chunk" where
  "position_chunk backend kern bytes target =
     (if target > chunk_bytes then Inl BoundExceeded
      else
        bind_result (coordinate_execute backend kern ''position_chunk'' ''CoordinateChunk'' bytes [target]) (\<lambda>fds.
        bind_result (bind_result (record_field fds ''bytes'') (\<lambda>v. integer_field v ''bytes'' 64)) (\<lambda>consumed.
        bind_result (bind_result (record_field fds ''units'') (\<lambda>v. integer_field v ''units'' 64)) (\<lambda>units.
        bind_result (map_sum id is_true (record_field fds ''valid'')) (\<lambda>valid.
        bind_result (bind_result (record_field fds ''map_length'') (\<lambda>v. integer_field v ''map_length'' 64)) (\<lambda>map_length.
        bind_result (bind_result (record_field fds ''map'') (\<lambda>v. sequence_field v ''map'' 32)) (\<lambda>cmap.
          if \<not> valid then Inl KernelRejected
          else if consumed > target \<or> consumed > length bytes \<or> units > length bytes
                \<or> length cmap \<noteq> map_capacity
                \<or> map_length \<noteq> div_ceil (length bytes) checkpoint_bytes + 1
               then Inl EnvelopeExceeded
          else Inr \<lparr>cc_bytes = consumed, cc_units = units, cc_map = cmap,
                 cc_map_length = map_length\<rparr>)))))))"

definition coordinate_window_call ::
  "backend \<Rightarrow> native_error + kernel \<Rightarrow> string \<Rightarrow> native_error + coordinate_window" where
  "coordinate_window_call backend kern bytes =
     (bind_result (coordinate_execute backend kern ''coordinate_window'' ''CoordinateWindow'' bytes []) (\<lambda>fds.
      bind_result (map_sum id is_true (record_field fds ''valid'')) (\<lambda>valid.
      bind_result (bind_result (record_field fds ''map_length'') (\<lambda>v. integer_field v ''map_length'' 64)) (\<lambda>map_length.
      bind_result (bind_result (record_field fds ''map'') (\<lambda>v. sequence_field v ''map'' 16)) (\<lambda>cmap.
        if \<not> valid then Inl KernelRejected
        else if length cmap \<noteq> window_map_capacity \<or> map_length \<noteq> length bytes + 1
             then Inl EnvelopeExceeded
        else Inr \<lparr>cw_map = cmap, cw_map_length = map_length\<rparr>)))))"

text \<open>What an accepted answer is bounded by, whatever the backend returned.\<close>

lemma position_chunk_Inr:
  assumes "position_chunk backend kern bytes target = Inr c"
  shows "cc_bytes c \<le> target \<and> cc_bytes c \<le> length bytes \<and> cc_units c \<le> length bytes \<and>
    length (cc_map c) = map_capacity \<and>
    cc_map_length c = div_ceil (length bytes) checkpoint_bytes + 1 \<and> target \<le> chunk_bytes"
  using assms
  by (auto simp: position_chunk_def bind_result_eq_Inr split: if_splits)

lemma coordinate_window_Inr:
  assumes "coordinate_window_call backend kern bytes = Inr w"
  shows "length (cw_map w) = window_map_capacity \<and> cw_map_length w = length bytes + 1"
  using assms
  by (auto simp: coordinate_window_call_def bind_result_eq_Inr split: if_splits)

end
