(* ===== verification/Coords.thy ===== *)
theory Coords
  imports Native Compiler_View
begin

text \<open>
  \<open>coords.rs\<close>: the translation between byte offsets and line / UTF-16 column pairs. A line
  is indexed in chunks of checkpoints, and a query materialises a short window at one
  checkpoint. ASCII chunks and windows are computed here, others come from the coordinate
  kernel, whose two calls are the arguments \<open>pc\<close> and \<open>cw\<close> (\<open>position_chunk\<close> and
  \<open>coordinate_window_call\<close> of \<open>Native\<close>). The per-line and per-window caches of the code only
  memoise these computations over an immutable text, so the model recomputes them.
  A panic of the code is the left side of the result.
\<close>

datatype panic = KernelPanic native_error | NoProgress | WindowMiss | IndexPanic

record range_info =
  ri_start_line :: nat
  ri_start_character :: nat
  ri_end_line :: nat
  ri_end_character :: nat
  ri_start_byte :: nat
  ri_end_byte :: nat

record position_info =
  pi_line :: nat
  pi_character :: nat
  pi_byte :: nat

record position_map =
  pm_text_len :: nat
  pm_line_starts :: "nat list"

record chunk_summary =
  cs_byte_start :: nat
  cs_units_before :: nat
  cs_map :: "nat list"
  cs_map_length :: nat

record line_index =
  li_chunks :: "chunk_summary list"
  li_units :: nat

record window_index =
  wi_byte_start :: nat
  wi_units_before :: nat
  wi_map :: "nat list"
  wi_map_length :: nat

definition unpack_coordinate :: "nat \<Rightarrow> nat \<times> nat" where
  "unpack_coordinate packed = (packed mod 2048, packed div 2048)"

definition unpack_window_coordinate :: "nat \<Rightarrow> nat \<times> nat" where
  "unpack_window_coordinate packed = (packed mod 128, packed div 128)"

section \<open>Lines\<close>

definition line_starts_of :: "string \<Rightarrow> nat list" where
  "line_starts_of text =
     0 # map (\<lambda>(i, c). i + 1) (filter (\<lambda>(i, c). c = CHR 0x0A) (enumerate 0 text))"

definition pm_new :: "string \<Rightarrow> position_map" where
  "pm_new text = \<lparr>pm_text_len = length text, pm_line_starts = line_starts_of text\<rparr>"

definition line_count :: "position_map \<Rightarrow> nat" where
  "line_count pm = as_u32 (length (pm_line_starts pm))"

definition line_start :: "position_map \<Rightarrow> nat \<Rightarrow> nat option" where
  "line_start pm line = nth_opt (pm_line_starts pm) line"

text \<open>
  \<open>binary_search\<close> on the strictly increasing line starts: the index found, or the insertion
  point minus one, is the last start at or before the offset.
\<close>

definition line_of :: "position_map \<Rightarrow> nat \<Rightarrow> nat" where
  "line_of pm b = as_u32 (partition_point (\<lambda>s. s \<le> b) (pm_line_starts pm) - 1)"

definition line_end_exclusive :: "position_map \<Rightarrow> string \<Rightarrow> nat \<Rightarrow> nat" where
  "line_end_exclusive pm text line =
     (case line_start pm (line + 1) of
        None \<Rightarrow> pm_text_len pm
      | Some next \<Rightarrow>
          if next \<ge> 1 \<and> text ! (next - 1) = CHR 0x0A
          then (let e = next - 1
                in if e \<ge> 1 \<and> text ! (e - 1) = CHR 0x0D then e - 1 else e)
          else next)"

text \<open>\<open>text.as_bytes()[line_start..line_end]\<close>.\<close>

definition line_bytes :: "position_map \<Rightarrow> string \<Rightarrow> nat \<Rightarrow> string" where
  "line_bytes pm text line =
     (let st = pm_line_starts pm ! line
      in take (line_end_exclusive pm text line - st) (drop st text))"

section \<open>Chunks\<close>

definition ascii_chunk_map :: "nat \<Rightarrow> nat list" where
  "ascii_chunk_map target =
     map (\<lambda>k. as_u32 (checkpoint_bytes * k * 2048 + checkpoint_bytes * k))
       [0 ..< div_ceil target checkpoint_bytes] @ [as_u32 (target * 2048 + target)]"

function build_chunks ::
  "(string \<Rightarrow> nat \<Rightarrow> native_error + coordinate_chunk) \<Rightarrow> string \<Rightarrow> nat \<Rightarrow> nat
     \<Rightarrow> panic + (chunk_summary list \<times> nat)" where
  "build_chunks pc bs byte_start units_before =
     (if byte_start < length bs then
        let target = min (length bs - byte_start) chunk_bytes
        in if list_all is_ascii (take target (drop byte_start bs)) then
             (case build_chunks pc bs (byte_start + target) (units_before + target) of
                Inl e \<Rightarrow> Inl e
              | Inr (chunks, units) \<Rightarrow>
                  Inr (\<lparr>cs_byte_start = byte_start, cs_units_before = units_before,
                        cs_map = ascii_chunk_map target,
                        cs_map_length = length (ascii_chunk_map target)\<rparr> # chunks, units))
           else
             let view_end = min (byte_start + target + 3) (length bs)
             in (case pc (take (view_end - byte_start) (drop byte_start bs)) target of
                   Inl e \<Rightarrow> Inl (KernelPanic e)
                 | Inr r \<Rightarrow>
                     if cc_bytes r = 0 then Inl NoProgress
                     else (case build_chunks pc bs (byte_start + cc_bytes r) (units_before + cc_units r) of
                             Inl e \<Rightarrow> Inl e
                           | Inr (chunks, units) \<Rightarrow>
                               Inr (\<lparr>cs_byte_start = byte_start, cs_units_before = units_before,
                                     cs_map = take (cc_map_length r) (cc_map r),
                                     cs_map_length = cc_map_length r\<rparr> # chunks, units)))
      else Inr ([], units_before))"
  by pat_completeness auto
termination
  by (relation "measure (\<lambda>(pc, bs, st, un). length bs - st)") (auto simp: chunk_bytes_def)

declare build_chunks.simps [simp del]

definition build_line_index ::
  "(string \<Rightarrow> nat \<Rightarrow> native_error + coordinate_chunk) \<Rightarrow> position_map \<Rightarrow> string \<Rightarrow> nat
     \<Rightarrow> panic + line_index" where
  "build_line_index pc pm text line =
     bind_result (build_chunks pc (line_bytes pm text line) 0 0)
       (\<lambda>(chunks, units). Inr \<lparr>li_chunks = chunks, li_units = units\<rparr>)"

text \<open>\<open>chunk_for_byte\<close> and \<open>chunk_for_column\<close>: the last chunk that starts at or before.\<close>

definition chunk_for_byte :: "line_index \<Rightarrow> nat \<Rightarrow> (nat \<times> chunk_summary \<times> nat) option" where
  "chunk_for_byte index local =
     (let at = partition_point (\<lambda>c. cs_byte_start c \<le> local) (li_chunks index)
      in if at = 0 then None
         else map_option (\<lambda>c. (at - 1, c, local - cs_byte_start c)) (nth_opt (li_chunks index) (at - 1)))"

definition chunk_for_column :: "line_index \<Rightarrow> nat \<Rightarrow> (nat \<times> chunk_summary) option" where
  "chunk_for_column index column =
     (let at = partition_point (\<lambda>c. cs_units_before c \<le> column) (li_chunks index)
      in if at = 0 then None
         else map_option (\<lambda>c. (at - 1, c)) (nth_opt (li_chunks index) (at - 1)))"

section \<open>Windows\<close>

definition ascii_window_map :: "nat \<Rightarrow> nat list" where
  "ascii_window_map n = map (\<lambda>i. (i * 128 + i) mod 2 ^ 16) [0 ..< n + 1]"

definition build_window ::
  "(string \<Rightarrow> native_error + coordinate_window) \<Rightarrow> string \<Rightarrow> chunk_summary \<Rightarrow> nat
     \<Rightarrow> panic + window_index" where
  "build_window cw bs chunk cp =
     (case nth_opt (cs_map chunk) cp of
        None \<Rightarrow> Inl IndexPanic
      | Some packed \<Rightarrow>
          let (checkpoint_byte, checkpoint_units) = unpack_coordinate packed;
              byte_start = cs_byte_start chunk + checkpoint_byte;
              window_end = min (byte_start + window_input_capacity) (length bs);
              source = take (window_end - byte_start) (drop byte_start bs)
          in bind_result
               (if list_all is_ascii source
                then Inr \<lparr>cw_map = ascii_window_map (length source),
                       cw_map_length = length (ascii_window_map (length source))\<rparr>
                else (case cw source of Inl e \<Rightarrow> Inl (KernelPanic e) | Inr w \<Rightarrow> Inr w))
               (\<lambda>w. Inr \<lparr>wi_byte_start = byte_start,
                     wi_units_before = cs_units_before chunk + checkpoint_units,
                     wi_map = take (cw_map_length w) (cw_map w),
                     wi_map_length = cw_map_length w\<rparr>))"

definition window_index ::
  "(string \<Rightarrow> native_error + coordinate_window) \<Rightarrow> string \<Rightarrow> line_index \<Rightarrow> nat \<Rightarrow> nat
     \<Rightarrow> panic + window_index" where
  "window_index cw bs index chunk_index cp =
     (case nth_opt (li_chunks index) chunk_index of
        None \<Rightarrow> Inl IndexPanic | Some chunk \<Rightarrow> build_window cw bs chunk cp)"

section \<open>The two translations\<close>

definition position_of ::
  "(string \<Rightarrow> nat \<Rightarrow> native_error + coordinate_chunk) \<Rightarrow> (string \<Rightarrow> native_error + coordinate_window)
     \<Rightarrow> position_map \<Rightarrow> string \<Rightarrow> nat \<Rightarrow> panic + position_info" where
  "position_of pc cw pm text byte =
     (let requested = min byte (pm_text_len pm);
          line = line_of pm requested;
          lstart = pm_line_starts pm ! line;
          content_end = line_end_exclusive pm text line
      in bind_result (build_line_index pc pm text line) (\<lambda>index.
           if requested > content_end then
             Inr \<lparr>pi_line = line,
                  pi_character = as_u32 (li_units index + (requested - content_end)),
                  pi_byte = requested\<rparr>
           else
             let local = requested - lstart
             in (case chunk_for_byte index local of
                   None \<Rightarrow> Inr \<lparr>pi_line = line, pi_character = 0, pi_byte = requested\<rparr>
                 | Some (ci, chunk, relative) \<Rightarrow>
                     let cp = min (relative div checkpoint_bytes) (cs_map_length chunk - 1)
                     in bind_result (window_index cw (line_bytes pm text line) index ci cp) (\<lambda>window.
                          if local < wi_byte_start window then Inl IndexPanic
                          else
                            let rel = local - wi_byte_start window
                            in (case nth_opt (wi_map window) rel of
                                  None \<Rightarrow> Inl WindowMiss
                                | Some packed \<Rightarrow>
                                    if rel < wi_map_length window then
                                      let (snapped, units) = unpack_window_coordinate packed
                                      in Inr \<lparr>pi_line = line,
                                           pi_character = as_u32 (wi_units_before window + units),
                                           pi_byte = lstart + wi_byte_start window + snapped\<rparr>
                                    else Inl WindowMiss)))))"

definition offset_of ::
  "(string \<Rightarrow> nat \<Rightarrow> native_error + coordinate_chunk) \<Rightarrow> (string \<Rightarrow> native_error + coordinate_window)
     \<Rightarrow> position_map \<Rightarrow> string \<Rightarrow> nat \<Rightarrow> nat \<Rightarrow> panic + nat" where
  "offset_of pc cw pm text line character =
     (let line = min line (line_count pm - 1);
          lstart = pm_line_starts pm ! line;
          lend = line_end_exclusive pm text line
      in bind_result (build_line_index pc pm text line) (\<lambda>index.
           if character \<ge> li_units index then Inr lend
           else
             (case chunk_for_column index character of
                None \<Rightarrow> Inr (min lstart lend)
              | Some (ci, chunk) \<Rightarrow>
                  let relative_column = character - cs_units_before chunk;
                      cp = partition_point (\<lambda>p. snd (unpack_coordinate p) \<le> relative_column)
                             (take (cs_map_length chunk) (cs_map chunk)) - 1
                  in bind_result (window_index cw (line_bytes pm text line) index ci cp) (\<lambda>window.
                       let remaining = character - wi_units_before window;
                           relative = partition_point (\<lambda>p. snd (unpack_window_coordinate p) < remaining)
                             (take (wi_map_length window) (wi_map window))
                       in (case nth_opt (wi_map window) (min relative (wi_map_length window - 1)) of
                             None \<Rightarrow> Inl IndexPanic
                           | Some packed \<Rightarrow>
                               Inr (min (min (lstart + wi_byte_start window
                                              + fst (unpack_window_coordinate packed)) lend)
                                        (pm_text_len pm)))))))"

definition range_of ::
  "(string \<Rightarrow> nat \<Rightarrow> native_error + coordinate_chunk) \<Rightarrow> (string \<Rightarrow> native_error + coordinate_window)
     \<Rightarrow> position_map \<Rightarrow> string \<Rightarrow> source_span \<Rightarrow> panic + range_info" where
  "range_of pc cw pm text span =
     bind_result (position_of pc cw pm text (sp_start span)) (\<lambda>s.
     bind_result (position_of pc cw pm text (max (sp_end span) (sp_start span))) (\<lambda>e.
       Inr \<lparr>ri_start_line = pi_line s, ri_start_character = pi_character s,
            ri_end_line = pi_line e, ri_end_character = pi_character e,
            ri_start_byte = pi_byte s, ri_end_byte = pi_byte e\<rparr>))"

end
