(* ===== verification/Coords_Spec.thy ===== *)
theory Coords_Spec
  imports Coords
begin

text \<open>
  What \<open>coords.rs\<close> promises: \<open>ref_position\<close> and \<open>ref_offset\<close> are the translation by a plain
  scan of the text, and the lemmas show that the chunked index computes them, on every line
  whose kernel answers (if it needs any) are the checkpoints and windows their contract
  describes. ASCII lines need none.
\<close>

section \<open>Boundaries and UTF-16 units\<close>

fun u16_len :: "char \<Rightarrow> nat" where
  "u16_len c = (if is_continuation c then 0 else if byte_of c \<ge> 240 then 2 else 1)"

definition u16 :: "string \<Rightarrow> nat \<Rightarrow> nat" where
  "u16 s i = sum_list (map u16_len (take i s))"

fun snap :: "string \<Rightarrow> nat \<Rightarrow> nat" where
  "snap s 0 = 0"
| "snap s (Suc i) = (if is_char_boundary s (Suc i) then Suc i else snap s i)"

definition char_width :: "char \<Rightarrow> nat" where
  "char_width c =
     (let b = byte_of c in
      if b < 128 then 1 else if b < 192 then 0 else if b < 224 then 2
      else if b < 240 then 3 else if b < 248 then 4 else 0)"

text \<open>The shape of UTF-8: each lead byte is followed by as many continuation bytes as it announces.\<close>

function utf8_shape :: "string \<Rightarrow> bool" where
  "utf8_shape [] = True"
| "utf8_shape (c # cs) =
     (char_width c \<noteq> 0 \<and> char_width c - 1 \<le> length cs \<and>
      list_all is_continuation (take (char_width c - 1) cs) \<and>
      utf8_shape (drop (char_width c - 1) cs))"
  by pat_completeness auto
termination
  by (relation "measure length") auto

lemma snap_le: "snap s i \<le> i"
  by (induction i) auto

lemma snap_boundary: "is_char_boundary s (snap s i)"
  by (induction i) (auto simp: is_char_boundary_def)

lemma snap_id: "is_char_boundary s i \<Longrightarrow> snap s i = i"
  by (cases i) auto

lemma snap_mono: "i \<le> j \<Longrightarrow> snap s i \<le> snap s j"
proof (induction j)
  case (Suc j)
  show ?case
  proof (cases "i = Suc j")
    case False
    with Suc have "snap s i \<le> snap s j" "snap s i \<le> j" using snap_le [of s i] by auto
    then show ?thesis by auto
  qed simp
qed simp

lemma snap_greatest: "is_char_boundary s j \<Longrightarrow> j \<le> i \<Longrightarrow> j \<le> snap s i"
  using snap_mono [of j i s] by (simp add: snap_id)

lemma u16_0 [simp]: "u16 s 0 = 0"
  by (simp add: u16_def)

lemma u16_Suc: "i < length s \<Longrightarrow> u16 s (Suc i) = u16 s i + u16_len (s ! i)"
  by (simp add: u16_def take_Suc_conv_app_nth)

lemma u16_mono: "i \<le> j \<Longrightarrow> u16 s i \<le> u16 s j"
proof -
  assume "i \<le> j"
  then have "take j s = take i s @ drop i (take j s)"
    by (metis append_take_drop_id min.absorb2 take_take min.commute)
  then show ?thesis unfolding u16_def by (metis le_add1 map_append sum_list_append)
qed

lemma u16_take: "i \<le> n \<Longrightarrow> u16 (take n s) i = u16 s i"
  by (simp add: u16_def min.absorb1)

lemma u16_drop: "u16 (drop a s) i = u16 s (a + i) - u16 s a"
  by (simp add: u16_def take_add)

lemma ascii_u16: "list_all is_ascii s \<Longrightarrow> i \<le> length s \<Longrightarrow> u16 s i = i"
proof (induction i)
  case (Suc i)
  then have "is_ascii (s ! i)" by (simp add: list_all_length)
  then have "u16_len (s ! i) = 1" by (simp add: ascii_not_continuation is_ascii_def)
  with Suc show ?case by (simp add: u16_Suc)
qed simp

lemma ascii_snap: "list_all is_ascii s \<Longrightarrow> i \<le> length s \<Longrightarrow> snap s i = i"
  by (simp add: snap_id ascii_boundary)

text \<open>Two boundaries: the later one is preceded by at least one more UTF-16 unit.\<close>

lemma u16_lead: "i < length s \<Longrightarrow> \<not> is_continuation (s ! i) \<Longrightarrow> u16 s i < u16 s (Suc i)"
  by (simp add: u16_Suc)

lemma u16_strict:
  assumes "is_char_boundary s i" "i < j" "j \<le> length s" "\<not> is_continuation (s ! 0)"
  shows "u16 s i < u16 s j"
proof -
  have lead: "\<not> is_continuation (s ! i)" using assms by (cases i) (auto simp: is_char_boundary_def)
  have "u16 s i < u16 s (Suc i)" using assms lead by (auto intro: u16_lead)
  also have "\<dots> \<le> u16 s j" using assms by (auto intro: u16_mono)
  finally show ?thesis .
qed

text \<open>Between a boundary and the next there is no unit: all bytes there are continuations.\<close>

lemma u16_snap_step: "i < length s \<Longrightarrow> u16 s (snap s (Suc i)) = u16 s (snap s i) \<or> is_char_boundary s (Suc i)"
  by simp

section \<open>Shapes have short characters\<close>

lemma utf8_shape_hd: "utf8_shape s \<Longrightarrow> s \<noteq> [] \<Longrightarrow> \<not> is_continuation (s ! 0)"
  by (cases s) (auto simp: char_width_def is_continuation_def Let_def split: if_splits)

lemma continuation_width: "is_continuation c \<Longrightarrow> char_width c = 0"
  by (simp add: char_width_def is_continuation_def Let_def)

lemma char_width_le: "char_width c \<le> 4"
  by (simp add: char_width_def Let_def)

text \<open>Any four consecutive positions of a shape contain a boundary.\<close>

lemma utf8_shape_gap:
  "utf8_shape s \<Longrightarrow> i \<le> length s \<Longrightarrow> \<exists>j \<le> i. i \<le> j + 3 \<and> is_char_boundary s j"
proof (induction s arbitrary: i rule: utf8_shape.induct)
  case (2 c cs)
  let ?w = "char_width c"
  show ?case
  proof (cases "i < ?w")
    case True
    then show ?thesis using char_width_le [of c] by (intro exI [of _ 0]) (auto simp: is_char_boundary_def)
  next
    case False
    have w: "?w \<noteq> 0" "?w - 1 \<le> length cs" "utf8_shape (drop (?w - 1) cs)"
      using 2(2) by auto
    have "i - ?w \<le> length (drop (?w - 1) cs)" using False 2(3) w by auto
    with 2(1) w obtain j where j: "j \<le> i - ?w" "i - ?w \<le> j + 3"
      "is_char_boundary (drop (?w - 1) cs) j" by blast
    have "is_char_boundary (c # cs) (?w + j)"
    proof (cases "j = 0")
      case True
      show ?thesis
      proof (cases "drop (?w - 1) cs = []")
        case True
        then show ?thesis using \<open>j = 0\<close> w by (auto simp: is_char_boundary_def)
      next
        case False
        then have "\<not> is_continuation (drop (?w - 1) cs ! 0)" using w utf8_shape_hd by blast
        then show ?thesis using \<open>j = 0\<close> w False
          by (auto simp: is_char_boundary_def nth_Cons' not_le)
      qed
    next
      case False
      then show ?thesis using j(3) w
        by (auto simp: is_char_boundary_def nth_Cons' add.commute add.left_commute)
    qed
    then show ?thesis using j False by (intro exI [of _ "?w + j"]) auto
  qed
qed (auto simp: is_char_boundary_def)

lemma snap_near: "utf8_shape s \<Longrightarrow> i \<le> length s \<Longrightarrow> i \<le> snap s i + 3"
  by (meson add_mono le_refl le_trans snap_greatest utf8_shape_gap)

lemma ascii_then_boundary:
  "utf8_shape s \<Longrightarrow> i < length s \<Longrightarrow> is_ascii (s ! i) \<Longrightarrow> is_char_boundary s (Suc i)"
proof (induction s arbitrary: i rule: utf8_shape.induct)
  case (2 c cs)
  let ?w = "char_width c"
  have w: "?w \<noteq> 0" "?w - 1 \<le> length cs" "utf8_shape (drop (?w - 1) cs)"
    "list_all is_continuation (take (?w - 1) cs)" using 2(2) by auto
  consider "Suc i < ?w" | "Suc i = ?w" | "?w \<le> i" by linarith
  then show ?case
  proof cases
    case 1
    show ?thesis
    proof (cases i)
      case 0
      with 1 2(4) have "char_width c = 1" by (simp add: char_width_def is_ascii_def)
      with 1 show ?thesis by simp
    next
      case (Suc i')
      with 1 w have "is_continuation (cs ! i')" by (simp add: list_all_length)
      with 2(4) Suc show ?thesis using ascii_not_continuation by auto
    qed
  next
    case 2
    show ?thesis
    proof (cases "drop (?w - 1) cs = []")
      case True
      then show ?thesis using 2 w by (auto simp: is_char_boundary_def)
    next
      case False
      then have "\<not> is_continuation (drop (?w - 1) cs ! 0)" using w utf8_shape_hd by blast
      then show ?thesis using 2 w False by (auto simp: is_char_boundary_def nth_Cons' not_le)
    qed
  next
    case 3
    have "i - ?w < length (drop (?w - 1) cs)" "drop (?w - 1) cs ! (i - ?w) = (c # cs) ! i"
      using 3 2(3) w by (auto simp: nth_Cons')
    then have "is_char_boundary (drop (?w - 1) cs) (Suc (i - ?w))"
      using 2(1) 2(4) w by auto
    moreover have "Suc (i - ?w) + (?w - 1) = i" using 3 w by simp
    ultimately show ?thesis using 3 w
      by (auto simp: is_char_boundary_def nth_Cons' Suc_diff_le)
  qed
qed auto

section \<open>What a chunk and a window must say about a line\<close>

definition checkpoint_at :: "string \<Rightarrow> nat \<Rightarrow> nat \<Rightarrow> nat" where
  "checkpoint_at bs st p = (u16 bs (snap bs p) - u16 bs st) * 2048 + (snap bs p - st)"

definition window_entry :: "string \<Rightarrow> nat \<Rightarrow> nat \<Rightarrow> nat" where
  "window_entry bs ws j = (u16 bs (snap bs (ws + j)) - u16 bs ws) * 128 + (snap bs (ws + j) - ws)"

text \<open>The kernel's answer for the view of \<open>n\<close> bytes at \<open>st\<close> with progress limit \<open>t\<close>.\<close>

definition chunk_answer :: "string \<Rightarrow> nat \<Rightarrow> nat \<Rightarrow> nat \<Rightarrow> coordinate_chunk \<Rightarrow> bool" where
  "chunk_answer bs st n t c \<longleftrightarrow>
     cc_bytes c = snap bs (st + t) - st \<and>
     cc_units c = u16 bs (st + cc_bytes c) - u16 bs st \<and>
     cc_map_length c = div_ceil n checkpoint_bytes + 1 \<and>
     cc_map_length c \<le> length (cc_map c) \<and>
     (\<forall>k < cc_map_length c. cc_map c ! k = checkpoint_at bs st (st + min (checkpoint_bytes * k) n))"

definition window_answer :: "string \<Rightarrow> nat \<Rightarrow> nat \<Rightarrow> coordinate_window \<Rightarrow> bool" where
  "window_answer bs ws n w \<longleftrightarrow>
     cw_map_length w = n + 1 \<and> n + 1 \<le> length (cw_map w) \<and>
     (\<forall>j \<le> n. cw_map w ! j = window_entry bs ws j)"

definition view :: "string \<Rightarrow> nat \<Rightarrow> nat \<Rightarrow> string" where
  "view bs a b = take (b - a) (drop a bs)"

text \<open>
  The kernel serves a line when every view the index can ask it for, at a boundary of the line
  and not ASCII only, is answered as above.
\<close>

definition chunk_target :: "string \<Rightarrow> nat \<Rightarrow> nat" where
  "chunk_target bs st = min (length bs - st) chunk_bytes"

definition chunk_view_end :: "string \<Rightarrow> nat \<Rightarrow> nat" where
  "chunk_view_end bs st = min (st + chunk_target bs st + 3) (length bs)"

definition window_end :: "string \<Rightarrow> nat \<Rightarrow> nat" where
  "window_end bs ws = min (ws + window_input_capacity) (length bs)"

definition chunks_served ::
  "(string \<Rightarrow> nat \<Rightarrow> native_error + coordinate_chunk) \<Rightarrow> string \<Rightarrow> bool" where
  "chunks_served pc bs \<longleftrightarrow>
     (\<forall>st < length bs. is_char_boundary bs st \<longrightarrow>
        \<not> list_all is_ascii (take (chunk_target bs st) (drop st bs)) \<longrightarrow>
        is_char_boundary bs (chunk_view_end bs st) \<and>
        (\<exists>c. pc (view bs st (chunk_view_end bs st)) (chunk_target bs st) = Inr c \<and>
             chunk_answer bs st (chunk_view_end bs st - st) (chunk_target bs st) c))"

definition windows_served ::
  "(string \<Rightarrow> native_error + coordinate_window) \<Rightarrow> string \<Rightarrow> bool" where
  "windows_served cw bs \<longleftrightarrow>
     (\<forall>ws \<le> length bs. is_char_boundary bs ws \<longrightarrow>
        \<not> list_all is_ascii (view bs ws (window_end bs ws)) \<longrightarrow>
        (\<exists>w. cw (view bs ws (window_end bs ws)) = Inr w \<and>
             window_answer bs ws (window_end bs ws - ws) w))"

definition line_served ::
  "(string \<Rightarrow> nat \<Rightarrow> native_error + coordinate_chunk) \<Rightarrow> (string \<Rightarrow> native_error + coordinate_window)
     \<Rightarrow> string \<Rightarrow> bool" where
  "line_served pc cw bs \<longleftrightarrow> utf8_shape bs \<and> chunks_served pc bs \<and> windows_served cw bs"

lemma ascii_utf8_shape: "list_all is_ascii s \<Longrightarrow> utf8_shape s"
  by (induction s) (auto simp: char_width_def is_ascii_def)

lemma ascii_line_served: "list_all is_ascii bs \<Longrightarrow> line_served pc cw bs"
proof -
  assume asc: "list_all is_ascii bs"
  have "list_all is_ascii (take n (drop m bs))" for n m
    using asc by (auto simp: list_all_iff dest!: in_set_takeD in_set_dropD)
  then show ?thesis
    using ascii_utf8_shape [OF asc]
    by (simp add: line_served_def chunks_served_def windows_served_def view_def)
qed

section \<open>The chunks of a line\<close>

definition chunk_good :: "string \<Rightarrow> chunk_summary \<Rightarrow> nat \<Rightarrow> bool" where
  "chunk_good bs c n \<longleftrightarrow>
     (let st = cs_byte_start c in
      is_char_boundary bs st \<and> st < length bs \<and> cs_units_before c = u16 bs st \<and>
      n \<le> chunk_bytes + 3 \<and> st + n \<le> length bs \<and> is_char_boundary bs (st + n) \<and>
      cs_map_length c = div_ceil n checkpoint_bytes + 1 \<and> length (cs_map c) = cs_map_length c \<and>
      (\<forall>k < cs_map_length c. cs_map c ! k = checkpoint_at bs st (st + min (checkpoint_bytes * k) n)))"

fun chain :: "string \<Rightarrow> nat \<Rightarrow> chunk_summary list \<Rightarrow> bool" where
  "chain bs st [] \<longleftrightarrow> st = length bs"
| "chain bs st (c # cs) \<longleftrightarrow>
     cs_byte_start c = st \<and>
     (\<exists>n st'. chunk_good bs c n \<and> st < st' \<and> st' \<le> st + n \<and> chain bs st' cs)"

lemma div_ceil_64: "n \<le> 64 * div_ceil n 64 \<and> 64 * div_ceil n 64 < n + 64"
proof -
  obtain q r where qr: "n div 64 = q" "n mod 64 = r" "n = 64 * q + r" "r < 64"
    using that [of "n div 64" "n mod 64"] by simp
  show ?thesis unfolding div_ceil_def qr(1,2) using qr(3,4) by auto
qed

lemma ascii_region:
  assumes "utf8_shape bs" "st + t \<le> length bs" "list_all is_ascii (take t (drop st bs))"
    "is_char_boundary bs st" "i \<le> t"
  shows "snap bs (st + i) = st + i" "u16 bs (st + i) = u16 bs st + i"
proof -
  have asc: "is_ascii (bs ! (st + j))" if "j < t" for j
    using assms(2,3) that by (simp add: list_all_length)
  have "is_char_boundary bs (st + i)"
  proof (cases i)
    case 0
    then show ?thesis using assms(4) by simp
  next
    case (Suc j)
    then show ?thesis
      using ascii_then_boundary [OF assms(1), of "st + j"] asc [of j] assms(2,5) by simp
  qed
  then show "snap bs (st + i) = st + i" by (rule snap_id)
  show "u16 bs (st + i) = u16 bs st + i"
    using assms(5)
  proof (induction i)
    case (Suc i)
    then have "u16_len (bs ! (st + i)) = 1"
      using asc [of i] ascii_not_continuation by (auto simp: is_ascii_def)
    then show ?case using Suc assms(2) by (simp add: u16_Suc)
  qed simp
qed

lemma ascii_chunk_map_nth:
  assumes "t \<le> chunk_bytes" "k < div_ceil t checkpoint_bytes + 1"
  shows "ascii_chunk_map t ! k = min (checkpoint_bytes * k) t * 2048 + min (checkpoint_bytes * k) t"
proof -
  have t: "t \<le> 1020" using assms(1) by (simp add: chunk_bytes_def)
  have k: "k < div_ceil t 64 + 1" using assms(2) by (simp add: checkpoint_bytes_def)
  note dc = div_ceil_64 [of t]
  show ?thesis
  proof (cases "k < div_ceil t 64")
    case True
    then have "64 * k \<le> t" using dc by linarith
    with True t show ?thesis
      by (simp add: ascii_chunk_map_def checkpoint_bytes_def nth_append as_u32_def)
  next
    case False
    with k have k: "k = div_ceil t 64" by simp
    with dc t show ?thesis
      by (simp add: ascii_chunk_map_def checkpoint_bytes_def nth_append as_u32_def min_def)
  qed
qed

lemma build_chunks_chain:
  assumes "utf8_shape bs" "chunks_served pc bs" "is_char_boundary bs st" "st \<le> length bs"
  shows "\<exists>cs. build_chunks pc bs st (u16 bs st) = Inr (cs, u16 bs (length bs)) \<and> chain bs st cs"
  using assms(3,4)
proof (induction "length bs - st" arbitrary: st rule: less_induct)
  case less
  show ?case
  proof (cases "st < length bs")
    case False
    with less.prems show ?thesis by (simp add: build_chunks.simps)
  next
    case True
    let ?t = "chunk_target bs st"
    have t: "?t = min (length bs - st) chunk_bytes" "0 < ?t" "st + ?t \<le> length bs" "?t \<le> chunk_bytes"
      using True by (auto simp: chunk_target_def chunk_bytes_def)
    show ?thesis
    proof (cases "list_all is_ascii (take ?t (drop st bs))")
      case asc: True
      note reg = ascii_region [OF assms(1) t(3) asc less.prems(1)]
      have bd: "is_char_boundary bs (st + ?t)" using reg(1) [of ?t] snap_boundary [of bs "st + ?t"] by simp
      have "length bs - (st + ?t) < length bs - st" using t True by linarith
      from less.hyps [OF this bd t(3)] reg(2) [of ?t]
      obtain cs where cs: "build_chunks pc bs (st + ?t) (u16 bs st + ?t) = Inr (cs, u16 bs (length bs))"
        "chain bs (st + ?t) cs" by auto
      let ?c = "\<lparr>cs_byte_start = st, cs_units_before = u16 bs st, cs_map = ascii_chunk_map ?t,
                 cs_map_length = length (ascii_chunk_map ?t)\<rparr>"
      have entry: "ascii_chunk_map ?t ! k = checkpoint_at bs st (st + min (checkpoint_bytes * k) ?t)"
        if "k < div_ceil ?t checkpoint_bytes + 1" for k
        using that t(4) reg(1,2) by (simp add: ascii_chunk_map_nth checkpoint_at_def)
      have "chunk_good bs ?c ?t"
        using less.prems True t bd entry by (simp add: chunk_good_def ascii_chunk_map_def)
      then have "\<exists>n st'. chunk_good bs ?c n \<and> st < st' \<and> st' \<le> st + n \<and> chain bs st' cs"
        using cs(2) t(2) by (intro exI [of _ ?t] exI [of _ "st + ?t"]) simp
      then have "chain bs st (?c # cs)" by simp
      moreover have "build_chunks pc bs st (u16 bs st) = Inr (?c # cs, u16 bs (length bs))"
        using True asc cs(1) t(1) by (subst build_chunks.simps) (simp add: Let_def)
      ultimately show ?thesis by blast
    next
      case asc: False
      let ?e = "chunk_view_end bs st"
      from assms(2) True less.prems(1) asc obtain c where
        e: "is_char_boundary bs ?e" and
        pc: "pc (view bs st ?e) ?t = Inr c" and ans: "chunk_answer bs st (?e - st) ?t c"
        unfolding chunks_served_def by blast
      have e_le: "st \<le> ?e" "?e \<le> length bs" "st + ?t \<le> ?e" "?e - st \<le> chunk_bytes + 3"
        using True t by (auto simp: chunk_view_end_def)
      let ?n = "snap bs (st + ?t)"
      have n: "st < ?n" "?n \<le> st + ?t" "is_char_boundary bs ?n"
      proof -
        show "?n \<le> st + ?t" by (rule snap_le)
        show "is_char_boundary bs ?n" by (rule snap_boundary)
        show "st < ?n"
        proof (cases "st + ?t = length bs")
          case True
          then have "is_char_boundary bs (st + ?t)" by (simp add: is_char_boundary_def)
          then show ?thesis using t(2) by (simp add: snap_id)
        next
          case False
          then have "?t = chunk_bytes" using t(1) True by linarith
          then show ?thesis
            using snap_near [OF assms(1) t(3)] by (simp add: chunk_bytes_def)
        qed
      qed
      have cb: "st + cc_bytes c = ?n" "cc_bytes c \<noteq> 0" "u16 bs st + cc_units c = u16 bs ?n"
        using ans n u16_mono [of st ?n bs] by (auto simp: chunk_answer_def)
      have "length bs - ?n < length bs - st" using n True by linarith
      from less.hyps [OF this n(3)] n(2) t(3) obtain cs where
        cs: "build_chunks pc bs ?n (u16 bs ?n) = Inr (cs, u16 bs (length bs))" "chain bs ?n cs" by auto
      let ?c = "\<lparr>cs_byte_start = st, cs_units_before = u16 bs st,
                 cs_map = take (cc_map_length c) (cc_map c), cs_map_length = cc_map_length c\<rparr>"
      have "chunk_good bs ?c (?e - st)"
        using less.prems True e e_le ans by (simp add: chunk_good_def chunk_answer_def)
      then have "\<exists>m st'. chunk_good bs ?c m \<and> st < st' \<and> st' \<le> st + m \<and> chain bs st' cs"
        using cs(2) n e_le by (intro exI [of _ "?e - st"] exI [of _ ?n]) simp
      then have "chain bs st (?c # cs)" by simp
      moreover have "build_chunks pc bs st (u16 bs st) = Inr (?c # cs, u16 bs (length bs))"
        unfolding build_chunks.simps [of pc bs st]
        using True asc cs(1) pc cb by (simp add: Let_def t(1) [symmetric] view_def chunk_view_end_def)
      ultimately show ?thesis by blast
    qed
  qed
qed

lemma build_line_index_ok:
  assumes "line_served pc cw (line_bytes pm text line)"
  shows "\<exists>cs. build_line_index pc pm text line =
      Inr \<lparr>li_chunks = cs, li_units = u16 (line_bytes pm text line) (length (line_bytes pm text line))\<rparr> \<and>
      chain (line_bytes pm text line) 0 cs"
  using build_chunks_chain [of "line_bytes pm text line" pc 0] assms
  by (auto simp: line_served_def build_line_index_def is_char_boundary_def)

text \<open>The chunk a lookup finds: it starts at or before, and its view reaches the target.\<close>

lemma chain_nth:
  "chain bs st cs \<Longrightarrow> i < length cs \<Longrightarrow>
     \<exists>n st'. chunk_good bs (cs ! i) n \<and> cs_byte_start (cs ! i) < st' \<and> st' \<le> cs_byte_start (cs ! i) + n \<and>
       (if Suc i < length cs then cs_byte_start (cs ! Suc i) = st' else st' = length bs)"
proof (induction cs arbitrary: st i)
  case (Cons c cs)
  from Cons.prems obtain n st' where
    c: "cs_byte_start c = st" "chunk_good bs c n" "st < st'" "st' \<le> st + n" "chain bs st' cs" by auto
  show ?case
  proof (cases i)
    case 0
    have "if cs = [] then st' = length bs else cs_byte_start (cs ! 0) = st'"
      using c(5) by (cases cs) auto
    with c 0 show ?thesis by (intro exI [of _ n] exI [of _ st']) auto
  next
    case (Suc j)
    with Cons.IH [OF c(5), of j] Cons.prems(2) obtain n st' where
      "chunk_good bs (cs ! j) n \<and> cs_byte_start (cs ! j) < st' \<and> st' \<le> cs_byte_start (cs ! j) + n \<and>
       (if Suc j < length cs then cs_byte_start (cs ! Suc j) = st' else st' = length bs)" by auto
    with Suc show ?thesis by (intro exI [of _ n] exI [of _ st']) simp
  qed
qed simp

lemma chain_first: "chain bs 0 cs \<Longrightarrow> bs \<noteq> [] \<Longrightarrow> cs \<noteq> [] \<and> cs_byte_start (cs ! 0) = 0"
  by (cases cs) auto


section \<open>Windows\<close>

lemma unpack_packed:
  "b < 2048 \<Longrightarrow> unpack_coordinate (u * 2048 + b) = (b, u)"
  "b < 128 \<Longrightarrow> unpack_window_coordinate (u * 128 + b) = (b, u)"
  by (simp_all add: unpack_coordinate_def unpack_window_coordinate_def)

lemma unpack_checkpoint_at:
  "st \<le> p \<Longrightarrow> p \<le> st + chunk_bytes + 3 \<Longrightarrow>
   unpack_coordinate (checkpoint_at bs st p) = (snap bs p - st, u16 bs (snap bs p) - u16 bs st)"
  using snap_le [of bs p] by (simp add: checkpoint_at_def unpack_packed chunk_bytes_def)

lemma unpack_window_entry:
  "j \<le> window_input_capacity \<Longrightarrow>
   unpack_window_coordinate (window_entry bs ws j) =
     (snap bs (ws + j) - ws, u16 bs (snap bs (ws + j)) - u16 bs ws)"
  using snap_le [of bs "ws + j"] by (simp add: window_entry_def unpack_packed coord_consts)

definition window_good :: "string \<Rightarrow> nat \<Rightarrow> window_index \<Rightarrow> bool" where
  "window_good bs ws w \<longleftrightarrow>
     wi_byte_start w = ws \<and> wi_units_before w = u16 bs ws \<and>
     wi_map_length w = window_end bs ws - ws + 1 \<and> length (wi_map w) = wi_map_length w \<and>
     (\<forall>j < wi_map_length w. wi_map w ! j = window_entry bs ws j)"

lemma ascii_window_map_nth: "j \<le> n \<Longrightarrow> j \<le> 70 \<Longrightarrow> ascii_window_map n ! j = j * 128 + j"
  unfolding ascii_window_map_def by (subst nth_map) (simp_all del: upt_Suc)

lemma build_window_ok:
  assumes "line_served pc cw bs" "chunk_good bs c n" "cp < cs_map_length c"
  shows "\<exists>w. build_window cw bs c cp = Inr w \<and>
    window_good bs (snap bs (cs_byte_start c + min (checkpoint_bytes * cp) n)) w"
proof -
  let ?st = "cs_byte_start c"
  let ?p = "?st + min (checkpoint_bytes * cp) n"
  let ?ws = "snap bs ?p"
  let ?v = "view bs ?ws (window_end bs ?ws)"
  have c: "is_char_boundary bs ?st" "cs_units_before c = u16 bs ?st" "n \<le> chunk_bytes + 3"
    "?st + n \<le> length bs" "length (cs_map c) = cs_map_length c"
    "cs_map c ! cp = checkpoint_at bs ?st ?p"
    using assms(2,3) by (auto simp: chunk_good_def Let_def)
  have ws: "?st \<le> ?ws" "?ws \<le> length bs" "is_char_boundary bs ?ws"
    using snap_greatest [OF c(1), of ?p] snap_le [of bs ?p] c(4) snap_boundary by (auto simp: min_def split: if_splits)
  have unp: "unpack_coordinate (cs_map c ! cp) = (?ws - ?st, u16 bs ?ws - u16 bs ?st)"
    using c(3) by (simp add: c(6) unpack_checkpoint_at)
  have len: "length ?v = window_end bs ?ws - ?ws" "?ws \<le> window_end bs ?ws"
    using ws by (auto simp: view_def window_end_def)
  have un: "u16 bs ?st + (u16 bs ?ws - u16 bs ?st) = u16 bs ?ws"
    using u16_mono [OF ws(1)] by simp
  have src: "take (min (?ws + window_input_capacity) (length bs) - ?ws) (drop ?ws bs) = ?v"
    by (simp add: view_def window_end_def)
  obtain w where w: "(if list_all is_ascii ?v
         then Inr \<lparr>cw_map = ascii_window_map (length ?v), cw_map_length = length (ascii_window_map (length ?v))\<rparr>
         else (case cw ?v of Inl e \<Rightarrow> Inl (KernelPanic e) | Inr w \<Rightarrow> Inr w)) = Inr w"
    "window_answer bs ?ws (window_end bs ?ws - ?ws) w"
  proof (cases "list_all is_ascii ?v")
    case True
    have t: "?ws + length ?v \<le> length bs" "list_all is_ascii (take (length ?v) (drop ?ws bs))"
      using True len by (auto simp: view_def window_end_def)
    have shape: "utf8_shape bs" using assms(1) by (simp add: line_served_def)
    note reg = ascii_region [OF shape t ws(3)]
    have "ascii_window_map (length ?v) ! j = window_entry bs ?ws j" if "j \<le> length ?v" for j
    proof -
      have "window_end bs ?ws \<le> ?ws + 70" by (simp add: window_end_def coord_consts)
      then have "j \<le> 70" using that len by linarith
      then show ?thesis using that reg [of j] by (simp add: ascii_window_map_nth window_entry_def)
    qed
    then have "window_answer bs ?ws (window_end bs ?ws - ?ws)
        \<lparr>cw_map = ascii_window_map (length ?v), cw_map_length = length (ascii_window_map (length ?v))\<rparr>"
      unfolding window_answer_def len(1) [symmetric] by (simp add: ascii_window_map_def del: upt_Suc)
    then show ?thesis using that True by simp
  next
    case False
    then show ?thesis using assms(1) ws that
      unfolding line_served_def windows_served_def by (metis old.sum.simps(6))
  qed
  let ?w = "\<lparr>wi_byte_start = ?ws, wi_units_before = u16 bs ?ws,
             wi_map = take (cw_map_length w) (cw_map w), wi_map_length = cw_map_length w\<rparr>"
  have "window_good bs ?ws ?w"
    using w(2) by (auto simp: window_good_def window_answer_def)
  moreover have "build_window cw bs c cp =
      bind_result (if list_all is_ascii ?v
         then Inr \<lparr>cw_map = ascii_window_map (length ?v), cw_map_length = length (ascii_window_map (length ?v))\<rparr>
         else (case cw ?v of Inl e \<Rightarrow> Inl (KernelPanic e) | Inr w \<Rightarrow> Inr w))
        (\<lambda>w. Inr \<lparr>wi_byte_start = ?ws, wi_units_before = u16 bs ?ws,
             wi_map = take (cw_map_length w) (cw_map w), wi_map_length = cw_map_length w\<rparr>)"
    unfolding build_window_def nth_opt_def Let_def using assms(3)
    by (simp only: c(2,5) unp prod.case if_True option.case le_add_diff_inverse [OF ws(1)] src un)
  ultimately have "build_window cw bs c cp = Inr ?w" "window_good bs ?ws ?w"
    by (simp_all only: w(1) bind_result_simps)
  then show ?thesis by blast
qed

section \<open>Lines by a plain scan\<close>

definition newlines :: "string \<Rightarrow> nat list" where
  "newlines s = filter (\<lambda>i. s ! i = CHR 0x0A) [0 ..< length s]"

lemma line_starts_newlines: "line_starts_of text = 0 # map Suc (newlines text)"
proof -
  have "filter (\<lambda>(i, c). c = CHR 0x0A) (enumerate n s) =
      map (\<lambda>i. (i + n, CHR 0x0A)) (filter (\<lambda>i. s ! i = CHR 0x0A) [0 ..< length s])" for n s
  proof (induction s arbitrary: n)
    case (Cons c s)
    have "[0 ..< length (c # s)] = 0 # map Suc [0 ..< length s]"
      by (simp add: map_Suc_upt upt_conv_Cons del: upt_Suc)
    with Cons [of "Suc n"] show ?case by (simp add: filter_map comp_def)
  qed simp
  then show ?thesis by (simp add: line_starts_of_def newlines_def)
qed

lemma newlines_split:
  assumes "r \<le> length text"
  shows "newlines text = newlines (take r text) @ map (\<lambda>i. r + i) (newlines (drop r text))"
proof -
  have "[0 ..< length text] = [0 ..< r] @ map (\<lambda>i. r + i) [0 ..< length text - r]"
    using assms upt_add_eq_append [of 0 r "length text - r"] map_add_upt [of r "length text - r"]
    by (simp add: add.commute [of r])
  moreover have "filter (\<lambda>i. text ! i = CHR 0x0A) [0 ..< r] = newlines (take r text)"
    using assms by (auto simp: newlines_def intro!: filter_cong)
  moreover have "filter (\<lambda>i. text ! i = CHR 0x0A) (map (\<lambda>i. r + i) [0 ..< length text - r]) =
      map (\<lambda>i. r + i) (newlines (drop r text))"
    using assms by (auto simp: newlines_def filter_map comp_def intro!: filter_cong)
  ultimately show ?thesis by (simp add: newlines_def)
qed

lemma newlines_bound: "i \<in> set (newlines s) \<Longrightarrow> i < length s \<and> s ! i = CHR 0x0A"
  by (auto simp: newlines_def)

definition ref_line_start :: "string \<Rightarrow> nat \<Rightarrow> nat" where
  "ref_line_start text r =
     (if newlines (take r text) = [] then 0 else Suc (last (newlines (take r text))))"

definition ref_line_end :: "string \<Rightarrow> nat \<Rightarrow> nat" where
  "ref_line_end text r =
     (case newlines (drop r text) of
        [] \<Rightarrow> length text
      | p # _ \<Rightarrow> if 0 < r + p \<and> text ! (r + p - 1) = CHR 0x0D then r + p - 1 else r + p)"



lemma line_start_newlines:
  assumes "r \<le> length text"
  shows "line_starts_of text ! length (newlines (take r text)) = ref_line_start text r"
  using newlines_split [OF assms]
  by (auto simp: line_starts_newlines ref_line_start_def nth_Cons' nth_append last_conv_nth)

lemma line_end_newlines:
  assumes "r \<le> length text"
  shows "line_end_exclusive (pm_new text) text (length (newlines (take r text))) = ref_line_end text r"
proof (cases "newlines (drop r text)")
  case Nil
  then show ?thesis
    using newlines_split [OF assms]
    by (simp add: line_end_exclusive_def line_start_def pm_new_def nth_opt_def line_starts_newlines
        ref_line_end_def)
next
  case (Cons p ps)
  have "p < length text - r" "text ! (r + p) = CHR 0x0A"
    using newlines_bound [of p "drop r text"] Cons assms by auto
  moreover have "line_start (pm_new text) (length (newlines (take r text)) + 1) = Some (Suc (r + p))"
    using newlines_split [OF assms] Cons
    by (simp add: line_start_def pm_new_def nth_opt_def line_starts_newlines nth_append)
  ultimately show ?thesis
    using Cons by (simp add: line_end_exclusive_def ref_line_end_def Let_def)
qed

lemma ref_line_start_le: "r \<le> length text \<Longrightarrow> ref_line_start text r \<le> r"
  using newlines_bound [of "last (newlines (take r text))" "take r text"]
  by (auto simp: ref_line_start_def)

lemma ref_line_bounds:
  assumes "r \<le> length text"
  shows "ref_line_start text r \<le> ref_line_end text r" "ref_line_end text r \<le> length text"
proof -
  note st = ref_line_start_le [OF assms]
  show "ref_line_end text r \<le> length text"
    using newlines_bound [of _ "drop r text"] assms
    by (fastforce simp: ref_line_end_def split: list.splits)
  show "ref_line_start text r \<le> ref_line_end text r"
  proof (cases "newlines (drop r text)")
    case Nil
    then show ?thesis using st assms by (simp add: ref_line_end_def)
  next
    case (Cons p ps)
    show ?thesis
    proof (cases "r + p = ref_line_start text r")
      case True
      show ?thesis
      proof (cases "newlines (take r text) = []")
        case False
        then have "text ! (last (newlines (take r text))) = CHR 0x0A"
          using newlines_bound [OF last_in_set [OF False]] by auto
        then show ?thesis using Cons False True by (auto simp: ref_line_end_def ref_line_start_def)
      qed (simp add: ref_line_start_def)
    qed (use Cons st in \<open>auto simp: ref_line_end_def\<close>)
  qed
qed

definition ref_line :: "string \<Rightarrow> nat \<Rightarrow> string" where
  "ref_line text r = view text (ref_line_start text r) (ref_line_end text r)"

lemma line_bytes_newlines:
  "r \<le> length text \<Longrightarrow>
   line_bytes (pm_new text) text (length (newlines (take r text))) = ref_line text r"
  by (simp add: line_bytes_def line_end_newlines Let_def ref_line_def view_def)
    (simp add: pm_new_def line_start_newlines)




lemma newlines_take: "r \<le> length text \<Longrightarrow> newlines (take r text) = filter (\<lambda>i. i < r) (newlines text)"
proof -
  assume r: "r \<le> length text"
  have "\<forall>i \<in> set (newlines (take r text)). i < r" using newlines_bound by fastforce
  then show ?thesis by (simp add: newlines_split [OF r])
qed

lemma newlines_sorted: "sorted_wrt (<) (newlines s)"
  by (simp add: newlines_def sorted_wrt_filter)

definition ref_start_of_line :: "string \<Rightarrow> nat \<Rightarrow> nat" where
  "ref_start_of_line text k = (if k = 0 then 0 else Suc (newlines text ! (k - 1)))"

lemma filter_less_nth:
  fixes xs :: "nat list"
  assumes "sorted_wrt (<) xs" "k < length xs"
  shows "filter (\<lambda>i. i < Suc (xs ! k)) xs = take (Suc k) xs"
proof -
  have "x < Suc (xs ! k)" if "x \<in> set (take (Suc k) xs)" for x
    using that assms by (auto simp: in_set_conv_nth sorted_wrt_iff_nth_less less_Suc_eq_le le_less)
  moreover have "\<not> x < Suc (xs ! k)" if x: "x \<in> set (drop (Suc k) xs)" for x
  proof -
    from x obtain i where i: "i < length xs - Suc k" "x = xs ! (Suc k + i)"
      by (auto simp: in_set_conv_nth)
    then have "xs ! k < xs ! (Suc k + i)"
      using assms(1) unfolding sorted_wrt_iff_nth_less by simp
    with i show ?thesis by simp
  qed
  ultimately have "filter (\<lambda>i. i < Suc (xs ! k)) (take (Suc k) xs @ drop (Suc k) xs) = take (Suc k) xs"
    unfolding filter_append by (subst filter_True, blast) (subst filter_False, blast, simp)
  then show ?thesis by simp
qed

lemma start_of_line:
  assumes "k \<le> length (newlines text)"
  shows "ref_start_of_line text k \<le> length text"
    "length (newlines (take (ref_start_of_line text k) text)) = k"
    "ref_line_start text (ref_start_of_line text k) = ref_start_of_line text k"
proof -
  let ?r = "ref_start_of_line text k"
  show le: "?r \<le> length text"
    using assms newlines_bound [of "newlines text ! (k - 1)" "text"]
    by (auto simp: ref_start_of_line_def Suc_le_eq)
  have eq: "newlines (take ?r text) = take k (newlines text)"
  proof (cases k)
    case (Suc j)
    then show ?thesis
      using newlines_take [OF le] filter_less_nth [OF newlines_sorted, of j "text"] assms
      by (simp add: ref_start_of_line_def)
  qed (simp add: ref_start_of_line_def newlines_def)
  then show "length (newlines (take ?r text)) = k" using assms by simp
  show "ref_line_start text ?r = ?r"
  proof (cases k)
    case (Suc j)
    then have "take k (newlines text) = take j (newlines text) @ [newlines text ! j]"
      using assms by (simp add: take_Suc_conv_app_nth)
    then show ?thesis using Suc unfolding ref_line_start_def eq by (simp add: ref_start_of_line_def)
  qed (simp add: ref_line_start_def ref_start_of_line_def newlines_def)
qed

definition ref_column :: "string \<Rightarrow> nat \<Rightarrow> nat" where
  "ref_column bs col =
     (case find (\<lambda>i. is_char_boundary bs i \<and> col \<le> u16 bs i) [0 ..< length bs + 1] of
        None \<Rightarrow> length bs | Some i \<Rightarrow> i)"

text \<open>The offset of a line and column by a plain scan: the first boundary at or after the column.\<close>

definition ref_offset :: "string \<Rightarrow> nat \<Rightarrow> nat \<Rightarrow> nat" where
  "ref_offset text line col =
     (let st = ref_start_of_line text (min line (length (newlines text)))
      in st + ref_column (ref_line text st) col)"

lemma find_upt:
  assumes "i < n" "P i" "\<And>j. j < i \<Longrightarrow> \<not> P j"
  shows "find P [0 ..< n] = Some i"
  unfolding find_Some_iff using assms by (intro exI [of _ i]) auto

lemma ref_column_eq:
  assumes "i \<le> length bs" "is_char_boundary bs i" "col \<le> u16 bs i"
    "\<And>j. is_char_boundary bs j \<Longrightarrow> j < i \<Longrightarrow> u16 bs j < col"
  shows "ref_column bs col = i"
  using assms by (simp add: ref_column_def find_upt [of i] not_le del: upt_Suc)

lemma ref_column_end:
  assumes "utf8_shape bs" "u16 bs (length bs) \<le> col"
  shows "ref_column bs col = length bs"
proof (cases "u16 bs (length bs) = col")
  case True
  show ?thesis
  proof (rule ref_column_eq)
    fix j assume "is_char_boundary bs j" "j < length bs"
    then show "u16 bs j < col"
      using u16_strict [of bs j "length bs"] utf8_shape_hd [OF assms(1)] True by force
  qed (use True in \<open>auto simp: is_char_boundary_def\<close>)
next
  case False
  then have "\<not> col \<le> u16 bs i" if "i \<le> length bs" for i
    using u16_mono [OF that, of bs] assms(2) by linarith
  then have "find (\<lambda>i. is_char_boundary bs i \<and> col \<le> u16 bs i) [0 ..< length bs + 1] = None"
    by (auto simp: find_None_iff)
  then show ?thesis by (simp add: ref_column_def)
qed

lemma partition_point_upper: "i < length xs \<Longrightarrow> \<not> p (xs ! i) \<Longrightarrow> partition_point p xs \<le> i"
  using partition_point_less [of i p xs] by fastforce

lemma within_window:
  "rel \<le> nx - ws \<Longrightarrow> ws \<le> nx \<Longrightarrow> nx \<le> e \<Longrightarrow> len = e - ws + 1 \<Longrightarrow> rel < len" for rel :: nat
  by linarith

lemma le_by_diff: "\<not> a - w < c - w \<Longrightarrow> w \<le> a \<Longrightarrow> w \<le> c \<Longrightarrow> c \<le> a" for a :: nat
  by linarith

text \<open>The checkpoint the column search stops at is at most the column, and the next one past it.\<close>

lemma column_checkpoint:
  assumes served: "utf8_shape bs" and good: "chunk_good bs c n"
    and col: "cs_units_before c \<le> col" "col < u16 bs (cs_byte_start c + n)"
    and cp: "cp = partition_point (\<lambda>p. snd (unpack_coordinate p) \<le> col - cs_units_before c) (cs_map c) - 1"
  shows "\<exists>nx. cp < cs_map_length c \<and>
    u16 bs (snap bs (cs_byte_start c + min (checkpoint_bytes * cp) n)) \<le> col \<and> col < u16 bs nx \<and>
    snap bs (cs_byte_start c + min (checkpoint_bytes * cp) n) \<le> nx \<and>
    nx \<le> snap bs (cs_byte_start c + min (checkpoint_bytes * cp) n) + 67 \<and> nx \<le> length bs \<and>
    is_char_boundary bs nx"
proof -
  define st where "st = cs_byte_start c"
  define p where "p k = st + min (checkpoint_bytes * k) n" for k
  let ?P = "\<lambda>p. snd (unpack_coordinate p) \<le> col - cs_units_before c"
  define k0 where atd: "k0 = partition_point ?P (cs_map c)"
  have c: "is_char_boundary bs st" "cs_units_before c = u16 bs st" "n \<le> chunk_bytes + 3"
    "st + n \<le> length bs" "is_char_boundary bs (st + n)" "length (cs_map c) = cs_map_length c"
    "cs_map_length c = div_ceil n checkpoint_bytes + 1"
    "\<And>k. k < cs_map_length c \<Longrightarrow> cs_map c ! k = checkpoint_at bs st (p k)"
    using good by (auto simp: chunk_good_def Let_def st_def p_def)
  have unp: "snd (unpack_coordinate (cs_map c ! k)) = u16 bs (snap bs (p k)) - u16 bs st"
    if "k < cs_map_length c" for k
    using c(3) by (simp add: c(8) [OF that] unpack_checkpoint_at p_def)
  have ge: "st \<le> snap bs (p k)" for k using snap_greatest [OF c(1), of "p k"] by (simp add: p_def)
  have len0: "0 < cs_map_length c" using c(7) by simp
  have at0: "0 < k0"
  proof (rule ccontr)
    assume "\<not> 0 < k0"
    then have "\<not> ?P (cs_map c ! 0)"
      using partition_point_stop [of ?P "cs_map c"] c(6) len0 by (simp add: atd)
    then show False using unp [OF len0] c(1) by (simp add: snap_id p_def)
  qed
  have at_le: "k0 \<le> cs_map_length c" using partition_point_le [of ?P "cs_map c"] c(6) by (simp add: atd)
  have cp1: "cp = k0 - 1" by (simp add: cp atd)
  then have cp2: "cp < k0" "cp < cs_map_length c" using at0 at_le by linarith+
  have "?P (cs_map c ! cp)" using cp2(1) unfolding atd by (rule partition_point_less [where p = ?P])
  then have ws_col: "u16 bs (snap bs (p cp)) \<le> col"
    using unp [OF cp2(2)] u16_mono [OF ge [of cp], of bs] col(1) c(2) by linarith
  have at_len: "k0 < cs_map_length c"
  proof (rule ccontr)
    assume "\<not> k0 < cs_map_length c"
    then have "cp = div_ceil n checkpoint_bytes" using cp1 cp2(2) c(7) by linarith
    then have "p cp = st + n" using div_ceil_64 [of n] by (simp add: checkpoint_bytes_def p_def)
    then show False using ws_col col(2) c(5) by (simp add: snap_id st_def)
  qed
  have "\<not> ?P (cs_map c ! k0)"
    using partition_point_stop [of ?P "cs_map c"] at_len c(6) by (simp add: atd)
  then have nx_col: "col < u16 bs (snap bs (p k0))"
    using unp [OF at_len] u16_mono [OF ge [of k0], of bs] col(1) c(2) by linarith
  have p_step: "p cp \<le> p k0" "p k0 \<le> p cp + 64" "p k0 \<le> length bs" "p cp \<le> length bs"
    using cp1 at0 c(4) by (auto simp: checkpoint_bytes_def p_def)
  have nx: "snap bs (p cp) \<le> snap bs (p k0)" "snap bs (p k0) \<le> snap bs (p cp) + 67" "snap bs (p k0) \<le> length bs"
    using snap_mono [OF p_step(1), of bs] snap_le [of bs "p k0"] snap_near [OF served p_step(4)] p_step(2,3)
    by linarith+
  show ?thesis
    using cp2(2) ws_col nx_col nx snap_boundary [of bs "p k0"] unfolding p_def st_def
    by blast
qed

lemma column_in_window:
  assumes shape: "utf8_shape bs" "bs \<noteq> []" and w: "window_good bs ws w"
    and ws: "is_char_boundary bs ws" "u16 bs ws \<le> col"
    and nx: "ws \<le> nx" "nx \<le> ws + 67" "nx \<le> length bs" "is_char_boundary bs nx" "col < u16 bs nx"
  shows "let rel = partition_point (\<lambda>p. snd (unpack_window_coordinate p) < col - wi_units_before w) (wi_map w)
     in rel < wi_map_length w \<and> rel < length (wi_map w) \<and>
        wi_byte_start w + fst (unpack_window_coordinate (wi_map w ! rel)) = ref_column bs col"
proof -
  have wi: "wi_byte_start w = ws" "wi_units_before w = u16 bs ws"
    "length (wi_map w) = wi_map_length w" "wi_map_length w = window_end bs ws - ws + 1"
    "\<And>j. j < wi_map_length w \<Longrightarrow> wi_map w ! j = window_entry bs ws j"
    using w by (auto simp: window_good_def)
  have wend: "window_end bs ws \<le> ws + window_input_capacity" "nx \<le> window_end bs ws"
    using nx by (auto simp: window_end_def coord_consts)
  let ?Q = "\<lambda>p. snd (unpack_window_coordinate p) < col - u16 bs ws"
  define rel where "rel = partition_point ?Q (wi_map w)"
  have unw: "unpack_window_coordinate (wi_map w ! j) =
      (snap bs (ws + j) - ws, u16 bs (snap bs (ws + j)) - u16 bs ws)" if "j < wi_map_length w" for j
  proof -
    have "j \<le> window_input_capacity" using that wi(4) wend(1) by linarith
    then show ?thesis by (simp add: wi(5) [OF that] unpack_window_entry)
  qed
  have nx_len: "nx - ws < wi_map_length w" by (rule within_window [OF order_refl nx(1) wend(2) wi(4)])
  have "\<not> ?Q (wi_map w ! (nx - ws))"
    using unw [OF nx_len] nx(1,4) diff_le_mono [OF less_imp_le [OF nx(5)], of "u16 bs ws"]
    by (simp add: snap_id not_less)
  then have rel_le: "rel \<le> nx - ws"
    unfolding rel_def using nx_len wi(3) by (intro partition_point_upper) auto
  have rel: "rel < wi_map_length w" by (rule within_window [OF rel_le nx(1) wend(2) wi(4)])
  define t where "t = snap bs (ws + rel)"
  have t_ge: "ws \<le> t" using snap_greatest [OF ws(1), of "ws + rel"] by (simp add: t_def)
  have t_le: "t \<le> ws + rel" using snap_le by (simp add: t_def)
  have "\<not> ?Q (wi_map w ! rel)"
    using rel unfolding rel_def wi(3) [symmetric] by (rule partition_point_stop [where p = ?Q])
  then have "\<not> u16 bs t - u16 bs ws < col - u16 bs ws" by (simp only: unw [OF rel] snd_conv t_def) simp
  then have t_col: "col \<le> u16 bs t" by (rule le_by_diff [OF _ u16_mono [OF t_ge] ws(2)])
  have "ref_column bs col = t"
  proof (rule ref_column_eq)
    show "t \<le> length bs" using t_le rel_le nx by linarith
    fix j assume j: "is_char_boundary bs j" "j < t"
    show "u16 bs j < col"
    proof (cases "j < ws")
      case True
      have "ws \<le> length bs" using nx by linarith
      from u16_strict [OF j(1) True this utf8_shape_hd [OF shape]] ws(2) show ?thesis by linarith
    next
      case False
      have lt: "j - ws < rel" using False j(2) t_le by linarith
      then have "?Q (wi_map w ! (j - ws))"
        unfolding rel_def by (rule partition_point_less [where p = ?Q])
      moreover have "j - ws < wi_map_length w" using lt rel by linarith
      ultimately have "u16 bs j - u16 bs ws < col - u16 bs ws"
        using unw [of "j - ws"] False j(1) by (simp add: snap_id)
      then show ?thesis by linarith
    qed
  qed (use t_col in \<open>simp_all add: t_def snap_boundary\<close>)
  moreover have "ws + fst (unpack_window_coordinate (wi_map w ! rel)) = t"
    using unw [OF rel] t_ge by (simp add: t_def)
  ultimately show ?thesis
    using rel wi(3) unfolding Let_def wi(1,2) rel_def [symmetric] by simp
qed

lemma offset_window:
  assumes served: "line_served pc cw bs" and good: "chunk_good bs c n"
    and col: "cs_units_before c \<le> col" "col < u16 bs (cs_byte_start c + n)"
  defines "cp \<equiv> partition_point (\<lambda>p. snd (unpack_coordinate p) \<le> col - cs_units_before c) (cs_map c) - 1"
  shows "\<exists>w. build_window cw bs c cp = Inr w \<and>
    (let rel = partition_point (\<lambda>p. snd (unpack_window_coordinate p) < col - wi_units_before w) (wi_map w)
     in rel < wi_map_length w \<and> rel < length (wi_map w) \<and>
        wi_byte_start w + fst (unpack_window_coordinate (wi_map w ! rel)) = ref_column bs col)"
proof -
  have shape: "utf8_shape bs" using served by (simp add: line_served_def)
  have ne: "bs \<noteq> []" using good by (auto simp: chunk_good_def Let_def)
  obtain nx where nx: "cp < cs_map_length c"
    "u16 bs (snap bs (cs_byte_start c + min (checkpoint_bytes * cp) n)) \<le> col" "col < u16 bs nx"
    "snap bs (cs_byte_start c + min (checkpoint_bytes * cp) n) \<le> nx"
    "nx \<le> snap bs (cs_byte_start c + min (checkpoint_bytes * cp) n) + 67" "nx \<le> length bs"
    "is_char_boundary bs nx"
    using column_checkpoint [OF shape good col cp_def [THEN meta_eq_to_obj_eq]] by blast
  obtain w where w: "build_window cw bs c cp = Inr w"
    "window_good bs (snap bs (cs_byte_start c + min (checkpoint_bytes * cp) n)) w"
    using build_window_ok [OF served good nx(1)] by blast
  show ?thesis
    by (rule exI [of _ w], rule conjI, rule w(1),
        rule column_in_window [OF shape ne w(2) snap_boundary nx(2,4,5,6,7,3)])
qed

lemma chunk_for_column_ok:
  assumes "utf8_shape bs" "chain bs 0 (li_chunks index)" "col < u16 bs (length bs)"
  shows "\<exists>i c n. chunk_for_column index col = Some (i, c) \<and> i < length (li_chunks index) \<and>
    c = li_chunks index ! i \<and> chunk_good bs c n \<and> cs_units_before c \<le> col \<and>
    col < u16 bs (cs_byte_start c + n)"
proof -
  let ?cs = "li_chunks index"
  let ?P = "\<lambda>c. cs_units_before c \<le> col"
  let ?at = "partition_point ?P ?cs"
  have ne: "bs \<noteq> []" using assms(3) by auto
  have first: "?cs \<noteq> []" "cs_byte_start (?cs ! 0) = 0" using chain_first [OF assms(2) ne] by auto
  obtain n0 st0 where "chunk_good bs (?cs ! 0) n0" using chain_nth [OF assms(2), of 0] first by auto
  then have "?P (?cs ! 0)" using first by (simp add: chunk_good_def Let_def)
  then have at: "0 < ?at" using first by (cases ?cs) (auto simp: partition_point_def)
  let ?i = "?at - 1"
  have i: "?i < length ?cs" using at partition_point_le [of ?P ?cs] by linarith
  have P: "?P (?cs ! ?i)" using at by (intro partition_point_less [where p = ?P]) simp
  obtain n st' where n: "chunk_good bs (?cs ! ?i) n" "st' \<le> cs_byte_start (?cs ! ?i) + n"
    "if Suc ?i < length ?cs then cs_byte_start (?cs ! Suc ?i) = st' else st' = length bs"
    using chain_nth [OF assms(2) i] by blast
  have "col < u16 bs st'"
  proof (cases "?at < length ?cs")
    case True
    then have "\<not> ?P (?cs ! ?at)" by (rule partition_point_stop)
    moreover obtain m where "chunk_good bs (?cs ! ?at) m" using chain_nth [OF assms(2) True] by blast
    ultimately show ?thesis using n(3) at True by (simp add: chunk_good_def Let_def)
  qed (use n(3) assms(3) at in simp)
  then have "col < u16 bs (cs_byte_start (?cs ! ?i) + n)"
    using u16_mono [OF n(2), of bs] by linarith
  then show ?thesis using at i P n(1)
    by (intro exI [of _ ?i] exI [of _ "?cs ! ?i"] exI [of _ n])
      (simp add: chunk_for_column_def Let_def nth_opt_def)
qed

lemma newlines_length: "length (newlines s) \<le> length s"
  unfolding newlines_def by (rule le_trans [OF length_filter_le]) simp

lemma offset_of_ref:
  assumes len: "length text < 2 ^ 32 - 1"
    and served: "line_served pc cw
      (ref_line text (ref_start_of_line text (min line (length (newlines text)))))"
  shows "offset_of pc cw (pm_new text) text line col = Inr (ref_offset text line col)"
proof -
  let ?k = "min line (length (newlines text))"
  let ?r = "ref_start_of_line text ?k"
  let ?en = "ref_line_end text ?r"
  let ?bs = "ref_line text ?r"
  note st = start_of_line [of ?k "text", simplified min.cobounded2, OF TrueI]
  have k: "min line (line_count (pm_new text) - 1) = ?k"
    using len newlines_length [of "text"] by (simp add: line_count_def pm_new_def line_starts_newlines as_u32_def)
  have pm: "pm_text_len (pm_new text) = length text" "pm_line_starts (pm_new text) ! ?k = ?r"
    using line_start_newlines [OF st(1)] unfolding st(2,3) by (simp_all add: pm_new_def)
  have en: "line_end_exclusive (pm_new text) text ?k = ?en"
    "line_bytes (pm_new text) text ?k = ?bs"
    using line_end_newlines [OF st(1)] line_bytes_newlines [OF st(1)] unfolding st(2) by simp_all
  note bnd = ref_line_bounds [OF st(1), unfolded st(3)]
  have bs_len: "length ?bs = ?en - ?r" using bnd by (simp add: ref_line_def view_def st(3))
  obtain cs where cs: "build_line_index pc (pm_new text) text ?k =
      Inr \<lparr>li_chunks = cs, li_units = u16 ?bs (length ?bs)\<rparr>" "chain ?bs 0 cs"
    using build_line_index_ok [of pc cw "pm_new text" "text" ?k] served en(2) by auto
  let ?index = "\<lparr>li_chunks = cs, li_units = u16 ?bs (length ?bs)\<rparr>"
  have shape: "utf8_shape ?bs" using served by (simp add: line_served_def)
  show ?thesis
  proof (cases "u16 ?bs (length ?bs) \<le> col")
    case True
    then have "ref_offset text line col = ?en"
      using ref_column_end [OF shape True] bs_len bnd by (simp add: ref_offset_def Let_def)
    then show ?thesis using True
      unfolding offset_of_def Let_def k pm en(1) cs(1) by simp
  next
    case False
    then have lt: "col < u16 ?bs (length ?bs)" by simp
    from chunk_for_column_ok [OF shape _ lt, of ?index] cs(2) obtain i c n where
      c: "chunk_for_column ?index col = Some (i, c)" "i < length cs" "c = cs ! i"
        "chunk_good ?bs c n" "cs_units_before c \<le> col" "col < u16 ?bs (cs_byte_start c + n)"
      by auto
    have map_len: "take (cs_map_length c) (cs_map c) = cs_map c"
      using c(4) by (simp add: chunk_good_def Let_def)
    let ?cp = "partition_point (\<lambda>p. snd (unpack_coordinate p) \<le> col - cs_units_before c) (cs_map c) - 1"
    obtain w rel where w: "build_window cw ?bs c ?cp = Inr w"
      and rel: "rel = partition_point (\<lambda>p. snd (unpack_window_coordinate p) < col - wi_units_before w) (wi_map w)"
      "rel < wi_map_length w" "rel < length (wi_map w)"
      "wi_byte_start w + fst (unpack_window_coordinate (wi_map w ! rel)) = ref_column ?bs col"
      and full: "take (wi_map_length w) (wi_map w) = wi_map w"
    proof -
      from offset_window [OF served c(4,5,6)] obtain w where
        w: "build_window cw ?bs c ?cp = Inr w" "let rel = partition_point (\<lambda>p. snd (unpack_window_coordinate p) < col - wi_units_before w) (wi_map w)
     in rel < wi_map_length w \<and> rel < length (wi_map w) \<and>
        wi_byte_start w + fst (unpack_window_coordinate (wi_map w ! rel)) = ref_column ?bs col" by blast
      have "take (wi_map_length w) (wi_map w) = wi_map w"
        using w(1) by (auto simp: build_window_def Let_def bind_result_eq_Inr split: option.splits prod.splits)
      with w show ?thesis by (intro that) (auto simp: Let_def)
    qed
    have min_rel: "min rel (wi_map_length w - 1) = rel" using rel(2) by simp
    have nth: "nth_opt (wi_map w) rel = Some (wi_map w ! rel)" using rel(3) by (simp add: nth_opt_def)
    have win: "window_index cw ?bs ?index i ?cp = Inr w"
      using c(2,3) w by (simp add: window_index_def nth_opt_def)
    have "ref_column ?bs col \<le> length ?bs"
    proof -
      have "i \<le> length ?bs" if "find P [0 ..< length ?bs + 1] = Some i" for P i
        using that by (auto simp: find_Some_iff simp del: upt_Suc)
      then show ?thesis unfolding ref_column_def by (simp split: option.splits del: upt_Suc)
    qed
    then have t: "min (min (?r + ref_column ?bs col) ?en) (length text) = ?r + ref_column ?bs col"
      using bs_len bnd by linarith
    show ?thesis
      unfolding offset_of_def Let_def k pm en cs(1) ref_offset_def
      by (simp only: bind_result_simps line_index.simps if_not_P [OF False] c(1) option.case prod.case
          map_len win full rel(1) [symmetric] min_rel nth add.assoc rel(4) t)
  qed
qed

section \<open>A kernel that serves every short line\<close>

definition scan_chunk :: "string \<Rightarrow> nat \<Rightarrow> native_error + coordinate_chunk" where
  "scan_chunk v t =
     Inr \<lparr>cc_bytes = snap v t, cc_units = u16 v (snap v t),
          cc_map = map (\<lambda>k. checkpoint_at v 0 (min (checkpoint_bytes * k) (length v)))
                     [0 ..< div_ceil (length v) checkpoint_bytes + 1],
          cc_map_length = div_ceil (length v) checkpoint_bytes + 1\<rparr>"

definition scan_window :: "string \<Rightarrow> native_error + coordinate_window" where
  "scan_window v =
     Inr \<lparr>cw_map = map (window_entry v 0) [0 ..< length v + 1], cw_map_length = length v + 1\<rparr>"

lemma boundary_drop:
  "is_char_boundary s a \<Longrightarrow> a \<le> length s \<Longrightarrow> is_char_boundary (drop a s) i \<longleftrightarrow> i = 0 \<or> is_char_boundary s (a + i)"
  by (auto simp: is_char_boundary_def)

lemma snap_drop:
  "is_char_boundary s a \<Longrightarrow> a \<le> length s \<Longrightarrow> a + snap (drop a s) i = snap s (a + i)"
proof (induction i)
  case (Suc i)
  then show ?case by (auto simp: boundary_drop)
qed (simp add: snap_id)

lemma scan_kernel_serves:
  assumes "utf8_shape bs" "length bs \<le> window_input_capacity"
  shows "line_served scan_chunk scan_window bs"
proof -
  have view_end: "chunk_view_end bs st = length bs" "chunk_target bs st = length bs - st"
    if "st < length bs" for st
    using that assms(2) by (auto simp: chunk_view_end_def chunk_target_def coord_consts)
  have win_end: "window_end bs ws = length bs" if "ws \<le> length bs" for ws
    using that assms(2) by (simp add: window_end_def)
  have v: "view bs a (length bs) = drop a bs" for a by (simp add: view_def)
  have units: "u16 bs st + u16 (drop st bs) i = u16 bs (st + i)" for st i
    using u16_mono [of st "st + i" bs] by (simp add: u16_drop)
  have "chunks_served scan_chunk bs"
    unfolding chunks_served_def
  proof (intro allI impI conjI)
    fix st assume st: "st < length bs" "is_char_boundary bs st"
    show "is_char_boundary bs (chunk_view_end bs st)"
      using st by (simp add: view_end is_char_boundary_def)
    have sn: "snap (drop st bs) i = snap bs (st + i) - st" for i
      using snap_drop [OF st(2), of i] st(1) by simp
    have un: "u16 (drop st bs) (snap bs (st + i) - st) = u16 bs (snap bs (st + i)) - u16 bs st" for i
      using u16_drop [of st bs "snap bs (st + i) - st"] snap_greatest [OF st(2), of "st + i"] by simp
    have "chunk_answer bs st (length bs - st) (length bs - st)
       \<lparr>cc_bytes = snap (drop st bs) (length bs - st),
        cc_units = u16 (drop st bs) (snap (drop st bs) (length bs - st)),
        cc_map = map (\<lambda>k. checkpoint_at (drop st bs) 0 (min (checkpoint_bytes * k) (length (drop st bs))))
          [0 ..< div_ceil (length (drop st bs)) checkpoint_bytes + 1],
        cc_map_length = div_ceil (length (drop st bs)) checkpoint_bytes + 1\<rparr>"
      unfolding chunk_answer_def
      using st sn un un [of "length bs - st"] snap_greatest [OF st(2)]
      by (auto simp: checkpoint_at_def simp del: upt_Suc)
    then show "\<exists>c. scan_chunk (view bs st (chunk_view_end bs st)) (chunk_target bs st) = Inr c \<and>
       chunk_answer bs st (chunk_view_end bs st - st) (chunk_target bs st) c"
      unfolding view_end [OF st(1)] v scan_chunk_def by (auto simp del: upt_Suc)
  qed
  moreover have "windows_served scan_window bs"
    unfolding windows_served_def
  proof (intro allI impI)
    fix ws assume ws: "ws \<le> length bs" "is_char_boundary bs ws"
    have sn: "snap (drop ws bs) i = snap bs (ws + i) - ws" for i
      using snap_drop [OF ws(2,1), of i] by simp
    have un: "u16 (drop ws bs) (snap bs (ws + i) - ws) = u16 bs (snap bs (ws + i)) - u16 bs ws" for i
      using u16_drop [of ws bs "snap bs (ws + i) - ws"] snap_greatest [OF ws(2), of "ws + i"] by simp
    have "window_answer bs ws (length bs - ws)
       \<lparr>cw_map = map (window_entry (drop ws bs) 0) [0 ..< length (drop ws bs) + 1],
        cw_map_length = length (drop ws bs) + 1\<rparr>"
      unfolding window_answer_def
    proof (intro conjI allI impI)
      fix j assume "j \<le> length bs - ws"
      then have "map (window_entry (drop ws bs) 0) [0 ..< length (drop ws bs) + 1] ! j = window_entry (drop ws bs) 0 j"
        by (subst nth_map) (simp_all del: upt_Suc)
      also have "\<dots> = window_entry bs ws j" unfolding window_entry_def by (simp add: sn un)
      finally show "cw_map \<lparr>cw_map = map (window_entry (drop ws bs) 0) [0 ..< length (drop ws bs) + 1],
        cw_map_length = length (drop ws bs) + 1\<rparr> ! j = window_entry bs ws j" by simp
    qed simp_all
    then show "\<exists>w. scan_window (view bs ws (window_end bs ws)) = Inr w \<and>
       window_answer bs ws (window_end bs ws - ws) w"
      unfolding win_end [OF ws(1)] v scan_window_def by blast
  qed
  ultimately show ?thesis using assms(1) by (simp add: line_served_def)
qed

section \<open>Round trip\<close>





section \<open>The properties\<close>


definition sample_text :: string where
  "sample_text = [CHR 0x68, CHR 0xC3, CHR 0xA9, CHR 0x0D, CHR 0x0A, CHR 0xF0, CHR 0x9F, CHR 0x98, CHR 0x80, CHR 0x78]"

lemma sample_served:
  "r \<in> {2, 5, 9} \<Longrightarrow> line_served scan_chunk scan_window (ref_line sample_text r)"
proof -
  have "utf8_shape (ref_line sample_text 2) \<and> length (ref_line sample_text 2) \<le> window_input_capacity"
    "utf8_shape (ref_line sample_text 5) \<and> length (ref_line sample_text 5) \<le> window_input_capacity"
    "utf8_shape (ref_line sample_text 9) \<and> length (ref_line sample_text 9) \<le> window_input_capacity"
    by code_simp+
  then show "r \<in> {2, 5, 9} \<Longrightarrow> line_served scan_chunk scan_window (ref_line sample_text r)"
    by (auto intro: scan_kernel_serves)
qed


text \<open>\<open>PositionMap::offset\<close> clamps the line to the last one and returns the first character
  boundary of the line at or after the column, or the line's content end past its last column,
  as a plain scan does, whenever the kernel serves the line.\<close>

theorem offset_of_is_scan:
  assumes "length text < 2 ^ 32 - 1"
    "line_served pc cw (ref_line text (ref_start_of_line text (min line (length (newlines text)))))"
  shows "offset_of pc cw (pm_new text) text line col = Inr (ref_offset text line col)"
  by (rule offset_of_ref [OF assms])

lemma offset_of_is_scan_witness:
  "length sample_text < 2 ^ 32 - 1 \<and>
   offset_of scan_chunk scan_window (pm_new sample_text) sample_text 7 1 = Inr 9"
proof
  show len: "length sample_text < 2 ^ 32 - 1" by (simp add: sample_text_def)
  have "ref_start_of_line sample_text (min 7 (length (newlines sample_text))) = 5"
    "ref_offset sample_text 7 1 = 9" by code_simp+
  with offset_of_is_scan [OF len, of scan_chunk scan_window 7 1] sample_served [of 5]
  show "offset_of scan_chunk scan_window (pm_new sample_text) sample_text 7 1 = Inr 9" by simp
qed



end
