(* ===== verification/Edits.thy ===== *)
theory Edits
  imports Coords_Spec
begin

text \<open>
  \<open>edits.rs\<close>: applying the content changes of a \<open>didChange\<close> notification. A slice that does
  not lie on character boundaries panics, which is the left side \<open>IndexPanic\<close>.
\<close>

record text_range =
  tr_start_line :: nat
  tr_start_character :: nat
  tr_end_line :: nat
  tr_end_character :: nat

record text_change =
  tc_range :: "text_range option"
  tc_text :: string

definition splice :: "string \<Rightarrow> nat \<Rightarrow> nat \<Rightarrow> string \<Rightarrow> panic + string" where
  "splice current a b new =
     (case (slice current 0 a, slice_from current b) of
        (Some l, Some r) \<Rightarrow> Inr (l @ new @ r)
      | _ \<Rightarrow> Inl IndexPanic)"

definition apply_one ::
  "(string \<Rightarrow> nat \<Rightarrow> native_error + coordinate_chunk) \<Rightarrow> (string \<Rightarrow> native_error + coordinate_window)
     \<Rightarrow> string \<Rightarrow> text_change \<Rightarrow> panic + string" where
  "apply_one pc cw current change =
     (case tc_range change of
        None \<Rightarrow> Inr (tc_text change)
      | Some rng \<Rightarrow>
          let pm = pm_new current
          in bind_result (offset_of pc cw pm current (tr_start_line rng) (tr_start_character rng)) (\<lambda>start.
             bind_result (offset_of pc cw pm current (tr_end_line rng) (tr_end_character rng)) (\<lambda>stop.
               let (start, stop) = (if start > stop then (stop, start) else (start, stop))
               in splice current start stop (tc_text change))))"

fun apply_changes ::
  "(string \<Rightarrow> nat \<Rightarrow> native_error + coordinate_chunk) \<Rightarrow> (string \<Rightarrow> native_error + coordinate_window)
     \<Rightarrow> string \<Rightarrow> text_change list \<Rightarrow> panic + string" where
  "apply_changes pc cw text [] = Inr text"
| "apply_changes pc cw text (c # cs) =
     bind_result (apply_one pc cw text c) (\<lambda>text'. apply_changes pc cw text' cs)"

section \<open>Edits never split a character\<close>

lemma line_ends_ascii: "is_ascii (CHR 0x0A)" "is_ascii (CHR 0x0D)"
  by (simp_all add: is_ascii_def byte_of_def)

lemma line_boundary:
  assumes shape: "utf8_shape text" and k: "k \<le> length (newlines text)"
    and i: "is_char_boundary (ref_line text (ref_start_of_line text k)) i"
      "i \<le> length (ref_line text (ref_start_of_line text k))"
  shows "is_char_boundary text (ref_start_of_line text k + i)"
proof -
  let ?r = "ref_start_of_line text k"
  let ?bs = "ref_line text ?r"
  note st = start_of_line [OF k]
  note bnd = ref_line_bounds [OF st(1), unfolded st(3)]
  have len: "length ?bs = ref_line_end text ?r - ?r" using bnd by (simp add: ref_line_def view_def st(3))
  have start: "is_char_boundary text ?r"
  proof (cases k)
    case (Suc j)
    then have j: "newlines text ! j < length text" "text ! (newlines text ! j) = CHR 0x0A"
      using k newlines_bound [of "newlines text ! j" "text"] by auto
    from ascii_then_boundary [OF shape j(1)] j(2) Suc show ?thesis
      by (simp add: ref_start_of_line_def line_ends_ascii)
  qed (simp add: ref_start_of_line_def is_char_boundary_def)
  show ?thesis
  proof (cases "i = 0")
    case False
    show ?thesis
    proof (cases "i = length ?bs")
      case True
      then have e: "?r + i = ref_line_end text ?r" using len bnd by simp
      show ?thesis
      proof (cases "newlines (drop ?r text)")
        case Nil
        then show ?thesis using e by (simp add: ref_line_end_def is_char_boundary_def)
      next
        case (Cons p ps)
        have p: "p < length text - ?r" "text ! (?r + p) = CHR 0x0A"
          using newlines_bound [of p "drop ?r text"] Cons st(1) by auto
        then have "ref_line_end text ?r < length text \<and> is_ascii (text ! ref_line_end text ?r)"
          using Cons by (auto simp: ref_line_end_def line_ends_ascii)
        then show ?thesis using e by (simp add: is_char_boundary_def ascii_not_continuation)
      qed
    next
      case inner: False
      then have "i < length ?bs" "\<not> is_continuation (?bs ! i)"
        using i \<open>i \<noteq> 0\<close> by (auto simp: is_char_boundary_def)
      then show ?thesis using len bnd
        by (auto simp: ref_line_def view_def st(3) is_char_boundary_def)
    qed
  qed (use start in simp)
qed

lemma ref_column_boundary:
  "is_char_boundary bs (ref_column bs col) \<and> ref_column bs col \<le> length bs"
proof -
  have "is_char_boundary bs i \<and> i \<le> length bs"
    if "find (\<lambda>i. is_char_boundary bs i \<and> col \<le> u16 bs i) [0 ..< length bs + 1] = Some i" for i
    using that by (auto simp: find_Some_iff simp del: upt_Suc)
  then show ?thesis
    unfolding ref_column_def by (simp add: is_char_boundary_def split: option.splits del: upt_Suc)
qed

lemma ref_offset_boundary:
  assumes "utf8_shape text"
  shows "is_char_boundary text (ref_offset text line col)" "ref_offset text line col \<le> length text"
proof -
  let ?k = "min line (length (newlines text))"
  have k: "?k \<le> length (newlines text)" by simp
  let ?r = "ref_start_of_line text ?k"
  note rc = ref_column_boundary [of "ref_line text ?r" col]
  show "is_char_boundary text (ref_offset text line col)"
    using line_boundary [OF assms k] rc by (simp add: ref_offset_def Let_def)
  note st = start_of_line [OF k]
  note bnd = ref_line_bounds [OF st(1), unfolded st(3)]
  have "length (ref_line text ?r) = ref_line_end text ?r - ?r"
    using bnd by (simp add: ref_line_def view_def st(3))
  then show "ref_offset text line col \<le> length text"
    using rc bnd unfolding ref_offset_def Let_def by linarith
qed

definition line_of_range_served ::
  "(string \<Rightarrow> nat \<Rightarrow> native_error + coordinate_chunk) \<Rightarrow> (string \<Rightarrow> native_error + coordinate_window)
     \<Rightarrow> string \<Rightarrow> nat \<Rightarrow> bool" where
  "line_of_range_served pc cw text line \<longleftrightarrow>
     line_served pc cw (ref_line text (ref_start_of_line text (min line (length (newlines text)))))"

text \<open>A ranged edit whose two lines the coordinate kernel serves replaces exactly the bytes
  between the two clamped positions, swapped when they are reversed, and leaves every byte
  before and after them as it was: the two slices lie on character boundaries, so no panic.\<close>

theorem apply_one_replaces_range:
  assumes "utf8_shape current" "length current < 2 ^ 32 - 1" "tc_range change = Some rng"
    "line_of_range_served pc cw current (tr_start_line rng)"
    "line_of_range_served pc cw current (tr_end_line rng)"
  shows "apply_one pc cw current change =
    (let a = ref_offset current (tr_start_line rng) (tr_start_character rng);
         b = ref_offset current (tr_end_line rng) (tr_end_character rng)
     in Inr (take (min a b) current @ tc_text change @ drop (max a b) current))"
proof -
  let ?a = "ref_offset current (tr_start_line rng) (tr_start_character rng)"
  let ?b = "ref_offset current (tr_end_line rng) (tr_end_character rng)"
  note off = offset_of_ref [OF assms(2) assms(4) [unfolded line_of_range_served_def], of "tr_start_character rng"]
    offset_of_ref [OF assms(2) assms(5) [unfolded line_of_range_served_def], of "tr_end_character rng"]
  note bd = ref_offset_boundary [OF assms(1)]
  have sp: "splice current x y new = Inr (take x current @ new @ drop y current)"
    if "is_char_boundary current x" "is_char_boundary current y" "x \<le> length current" "y \<le> length current" for x y new
    using that by (simp add: splice_def slice_def slice_from_def is_char_boundary_def)
  show ?thesis
    unfolding apply_one_def assms(3) Let_def option.case off bind_result_simps
    using sp [OF bd(1) bd(1) bd(2) bd(2)] by (simp add: min_def max_def)
qed

lemma apply_one_replaces_range_witness:
  "apply_one scan_chunk scan_window sample_text
     \<lparr>tc_range = Some \<lparr>tr_start_line = 1, tr_start_character = 3, tr_end_line = 0, tr_end_character = 1\<rparr>,
      tc_text = ''new''\<rparr> = Inr ''hnew''"
proof -
  let ?r = "\<lparr>tr_start_line = 1, tr_start_character = 3, tr_end_line = 0, tr_end_character = 1\<rparr>"
  have "ref_start_of_line sample_text (min 1 (length (newlines sample_text))) = 5"
    "ref_start_of_line sample_text (min 0 (length (newlines sample_text))) = 0"
    "ref_line sample_text 0 = ref_line sample_text 2" by code_simp+
  then have s: "line_of_range_served scan_chunk scan_window sample_text 1"
    "line_of_range_served scan_chunk scan_window sample_text 0"
    using sample_served [of 5] sample_served [of 2] by (simp_all add: line_of_range_served_def)
  have "utf8_shape sample_text" "ref_offset sample_text 1 3 = 10" "ref_offset sample_text 0 1 = 1"
    by code_simp+
  moreover have "length sample_text < 2 ^ 32 - 1" by (simp add: sample_text_def)
  ultimately show ?thesis
    using apply_one_replaces_range [of sample_text "\<lparr>tc_range = Some ?r, tc_text = ''new''\<rparr>" ?r
        scan_chunk scan_window] s
    by (simp add: sample_text_def)
qed

end
