(* ===== verification/Event_Hub.thy ===== *)
theory Event_Hub
  imports Compiler_View
begin

text \<open>
  The resident event stream of \<open>events.rs\<close>: a bounded history of change events with a monotonic
  cursor. The mutex is held for each whole operation, so an operation is one step of the hub.
  The stream identity made from the process id and the clock is an argument of \<open>hub_new\<close>.
\<close>

record source_identity =
  sid_uri :: string
  sid_identity :: string

record subject_change =
  sc_identity :: string
  sc_change :: string
  sc_before :: "string option"
  sc_after :: "string option"

record diagnostic_delta =
  dd_added :: "string list"
  dd_resolved :: "string list"

record obligation_delta =
  od_added :: "string list"
  od_resolved :: "string list"
  od_status_changed :: "string list"
  od_complete :: bool

record change_event =
  ev_schema :: string
  ev_stream :: string
  ev_cursor :: nat
  ev_replaced_generation :: nat
  ev_current_generation :: nat
  ev_current :: source_identity
  ev_affected :: "source_identity list"
  ev_subjects :: "subject_change list"
  ev_diagnostics :: diagnostic_delta
  ev_obligations :: obligation_delta
  ev_impact_identity :: "string option"
  ev_impact :: "impact option"
  ev_impact_complete :: bool
  ev_reconciled :: bool
  ev_supersedes :: nat
  ev_removed :: bool
  ev_limitations :: "string list"

record event_cursor =
  ec_schema :: string
  ec_stream :: string
  ec_after :: nat
  ec_current :: nat
  ec_oldest :: nat
  ec_reset_required :: bool
  ec_events :: "change_event list"
  ec_limitations :: "string list"

record event_hub =
  hub_capacity :: nat
  hub_stream :: string
  hub_next :: nat
  hub_events :: "change_event list"
  hub_discarded :: nat

definition workspace_change_schema :: string where
  "workspace_change_schema = ''mncs.workspace-change/2''"

definition event_cursor_schema :: string where
  "event_cursor_schema = ''mncs.workspace-event-cursor/2''"

definition default_event_capacity :: nat where
  "default_event_capacity = 256"

section \<open>Operations\<close>

definition new_with_stream :: "nat \<Rightarrow> string \<Rightarrow> event_hub" where
  "new_with_stream capacity stream =
     \<lparr>hub_capacity = max capacity 1, hub_stream = stream, hub_next = 0, hub_events = [], hub_discarded = 0\<rparr>"

definition restore_stream :: "string \<Rightarrow> nat \<Rightarrow> event_hub \<Rightarrow> event_hub" where
  "restore_stream stream next hub =
     (if hub_events hub = [] then hub\<lparr>hub_stream := stream, hub_next := next\<rparr> else hub)"

text \<open>\<open>windows(2)\<close>: the addition wraps at 64 bits.\<close>

fun consecutive :: "nat list \<Rightarrow> bool" where
  "consecutive (a # b # cs) \<longleftrightarrow> b = (a + 1) mod 2 ^ 64 \<and> consecutive (b # cs)"
| "consecutive _ \<longleftrightarrow> True"

definition checkpoint_valid :: "event_hub \<Rightarrow> string \<Rightarrow> nat \<Rightarrow> change_event list \<Rightarrow> bool" where
  "checkpoint_valid hub stream next events \<longleftrightarrow>
     length events \<le> hub_capacity hub \<and>
     list_all (\<lambda>e. ev_stream e = stream) events \<and>
     consecutive (map ev_cursor events) \<and>
     list_all (\<lambda>e. ev_cursor e \<le> next) events \<and>
     (if events = [] then next else ev_cursor (last events)) = next"

definition restore_checkpoint ::
  "string \<Rightarrow> nat \<Rightarrow> change_event list \<Rightarrow> event_hub \<Rightarrow> bool \<times> event_hub" where
  "restore_checkpoint stream next events hub =
     (if hub_events hub \<noteq> [] then (False, hub)
      else let valid = checkpoint_valid hub stream next events
           in (valid, hub\<lparr>hub_stream := stream, hub_next := next,
                          hub_events := if valid then events else []\<rparr>))"

definition hub_push :: "change_event \<Rightarrow> event_hub \<Rightarrow> nat \<times> event_hub" where
  "hub_push event hub =
     (let next = sat_add64 (hub_next hub) 1;
          event = event\<lparr>ev_cursor := next, ev_stream := hub_stream hub\<rparr>;
          full = length (hub_events hub) \<ge> hub_capacity hub
      in (next, hub\<lparr>hub_next := next,
                    hub_events := (if full then tl (hub_events hub) else hub_events hub) @ [event],
                    hub_discarded := (if full then (hub_discarded hub + 1) mod 2 ^ 64 else hub_discarded hub)\<rparr>))"

definition checkpoint_snapshot :: "event_hub \<Rightarrow> string \<times> nat \<times> change_event list" where
  "checkpoint_snapshot hub = (hub_stream hub, hub_next hub, hub_events hub)"

definition latest_cursor_for_uri :: "string \<Rightarrow> event_hub \<Rightarrow> nat" where
  "latest_cursor_for_uri uri hub =
     fold max (map ev_cursor (filter
       (\<lambda>e. sid_uri (ev_current e) = uri \<or> list_ex (\<lambda>d. sid_uri d = uri) (ev_affected e))
       (hub_events hub))) 0"

definition oldest_cursor :: "event_hub \<Rightarrow> nat" where
  "oldest_cursor hub =
     (case hub_events hub of [] \<Rightarrow> sat_add64 (hub_next hub) 1 | e # _ \<Rightarrow> ev_cursor e)"

definition stream_mismatch :: "string option \<Rightarrow> nat \<Rightarrow> event_hub \<Rightarrow> bool" where
  "stream_mismatch requested after hub =
     (case requested of Some r \<Rightarrow> r \<noteq> hub_stream hub | None \<Rightarrow> after > 0)"

definition reset_required :: "string option \<Rightarrow> nat \<Rightarrow> event_hub \<Rightarrow> bool" where
  "reset_required requested after hub \<longleftrightarrow>
     stream_mismatch requested after hub \<or> after > hub_next hub \<or>
     (sat_add64 after 1 < oldest_cursor hub \<and> after < hub_next hub)"

definition poll_for :: "string option \<Rightarrow> nat \<Rightarrow> nat \<Rightarrow> event_hub \<Rightarrow> event_cursor" where
  "poll_for requested after max_events hub =
     (let mismatch = stream_mismatch requested after hub;
          out_of_range = after > hub_next hub;
          reset = reset_required requested after hub
      in \<lparr>ec_schema = event_cursor_schema, ec_stream = hub_stream hub, ec_after = after,
          ec_current = hub_next hub, ec_oldest = oldest_cursor hub, ec_reset_required = reset,
          ec_events = (if reset then []
                       else take (max max_events 1) (filter (\<lambda>e. ev_cursor e > after) (hub_events hub))),
          ec_limitations =
            (if hub_discarded hub > 0
             then [show_nat (hub_discarded hub) @
                   '' transient events have aged out of the bounded cursor history'']
             else []) @
            (if mismatch
             then [if requested \<noteq> None
                   then ''requested cursor belongs to a different Language Service event stream''
                   else ''a nonzero cursor requires its Language Service event-stream identity'']
             else []) @
            (if out_of_range
             then [''requested cursor '' @ show_nat after @ '' is ahead of stream high-water '' @
                   show_nat (hub_next hub)]
             else [])\<rparr>)"

definition poll :: "nat \<Rightarrow> nat \<Rightarrow> event_hub \<Rightarrow> event_cursor" where
  "poll after max_events hub = poll_for None after max_events hub"

section \<open>Reachable hubs\<close>

inductive hub_reachable :: "event_hub \<Rightarrow> bool" where
  hub_start: "hub_reachable (new_with_stream capacity stream)"
| hub_pushed: "hub_reachable hub \<Longrightarrow> hub_reachable (snd (hub_push event hub))"
| hub_stream_restored:
    "hub_reachable hub \<Longrightarrow> next \<le> u64_max \<Longrightarrow> hub_reachable (restore_stream stream next hub)"
| hub_checkpoint_restored:
    "hub_reachable hub \<Longrightarrow> next \<le> u64_max \<Longrightarrow>
     hub_reachable (snd (restore_checkpoint stream next events hub))"

text \<open>
  The cursors of the history are the last ones assigned, without a hole. A cursor is assigned
  per event, so reaching \<open>u64::MAX\<close>, where the counter saturates, is excluded.
\<close>

definition hub_ok :: "event_hub \<Rightarrow> bool" where
  "hub_ok hub \<longleftrightarrow>
     0 < hub_capacity hub \<and> length (hub_events hub) \<le> hub_capacity hub \<and>
     (\<forall>e \<in> set (hub_events hub). ev_stream e = hub_stream hub) \<and>
     (hub_next hub < u64_max \<longrightarrow>
        length (hub_events hub) \<le> hub_next hub + 1 \<and>
        map ev_cursor (hub_events hub) = [hub_next hub + 1 - length (hub_events hub) ..< hub_next hub + 1])"

lemma consecutive_upt:
  "consecutive cs \<Longrightarrow> \<forall>c \<in> set cs. c \<le> n \<Longrightarrow> n < u64_max \<Longrightarrow> cs \<noteq> [] \<Longrightarrow>
   cs = [hd cs ..< hd cs + length cs]"
proof (induction cs rule: consecutive.induct)
  case (1 a b cs)
  then have "b = a + 1" by (simp add: u64_max_def)
  with 1 have IH: "b # cs = [Suc a ..< Suc a + length (b # cs)]" by (simp del: upt_Suc)
  have "[a ..< a + length (a # b # cs)] = a # [Suc a ..< Suc a + length (b # cs)]"
    by (subst upt_rec) simp
  then show ?case using IH \<open>b = a + 1\<close> by (simp del: upt_Suc)
qed auto

lemma restored_cursors:
  assumes "consecutive cs" "\<forall>c \<in> set cs. c \<le> n" "n < u64_max" "cs \<noteq> []" "last cs = n"
  shows "length cs \<le> n + 1 \<and> cs = [n + 1 - length cs ..< n + 1]"
proof -
  have cs: "cs = [hd cs ..< hd cs + length cs]" by (rule consecutive_upt [OF assms(1-4)])
  have "last [hd cs ..< hd cs + length cs] = hd cs + length cs - 1"
    using assms(4) by (cases cs) auto
  with cs assms(5) have n: "n = hd cs + length cs - 1" by simp
  have l: "0 < length cs" using assms(4) by simp
  have "hd cs = n + 1 - length cs" "hd cs + length cs = n + 1" "length cs \<le> n + 1" using n l by simp_all
  then show ?thesis using cs by metis
qed

lemma hub_ok_push:
  assumes "hub_ok hub"
  shows "hub_ok (snd (hub_push event hub))"
proof -
  let ?n = "hub_next hub" and ?es = "hub_events hub"
  have *: "length (tl ?es) \<le> hub_capacity hub - 1" using assms by (auto simp: hub_ok_def)
  have tl_set: "set (tl ?es) \<subseteq> set ?es" by (cases ?es) auto
  show ?thesis
  proof (cases "?n + 1 < u64_max")
    case False
    then have "\<not> sat_add64 ?n 1 < u64_max" by (simp add: sat_add64_def)
    then show ?thesis using assms * tl_set
      by (auto simp: hub_push_def Let_def hub_ok_def)
  next
    case True
    then have sat: "sat_add64 ?n 1 = ?n + 1" by (simp add: sat_add64_def)
    have len: "length ?es \<le> ?n + 1" and cur: "map ev_cursor ?es = [?n + 1 - length ?es ..< ?n + 1]"
      using assms True by (auto simp: hub_ok_def)
    show ?thesis
    proof (cases "length ?es \<ge> hub_capacity hub")
      case full: True
      then have ne: "?es \<noteq> []" using assms by (auto simp: hub_ok_def)
      then have l: "0 < length ?es" by simp
      have "map ev_cursor (tl ?es) = [Suc (?n + 1 - length ?es) ..< ?n + 1]"
        using cur l by (simp add: map_tl tl_upt)
      moreover have "Suc (?n + 1 - length ?es) = ?n + 2 - length ?es" using len by simp
      ultimately show ?thesis
        using full assms * tl_set sat len l by (auto simp: hub_push_def Let_def hub_ok_def)
    next
      case False
      then show ?thesis
        using assms sat len cur by (auto simp: hub_push_def Let_def hub_ok_def)
    qed
  qed
qed

lemma hub_reachable_ok:
  assumes "hub_reachable hub"
  shows "hub_ok hub"
  using assms
proof induction
  case (hub_start capacity stream)
  then show ?case by (simp add: hub_ok_def new_with_stream_def)
next
  case (hub_pushed hub event)
  then show ?case by (simp add: hub_ok_push)
next
  case (hub_stream_restored hub "next" stream)
  then show ?case by (simp add: hub_ok_def restore_stream_def)
next
  case (hub_checkpoint_restored hub "next" stream events)
  show ?case
  proof (cases "hub_events hub \<noteq> [] \<or> \<not> checkpoint_valid hub stream next events \<or> events = []")
    case True
    then show ?thesis using hub_checkpoint_restored
      by (auto simp: hub_ok_def restore_checkpoint_def Let_def)
  next
    case False
    then have v: "length events \<le> hub_capacity hub" "\<forall>e \<in> set events. ev_stream e = stream"
      "consecutive (map ev_cursor events)" "\<forall>c \<in> set (map ev_cursor events). c \<le> next"
      "map ev_cursor events \<noteq> []" "last (map ev_cursor events) = next"
      by (auto simp: checkpoint_valid_def list_all_iff last_map)
    from restored_cursors [OF v(3,4) _ v(5,6)] show ?thesis
      using False v hub_checkpoint_restored(3)
      by (simp add: hub_ok_def restore_checkpoint_def Let_def)
  qed
qed

text \<open>C25: In every hub the service can reach by pushing events and restoring streams or durable
  checkpoints, the history is within its capacity, every retained event carries the stream's
  identity, and the retained cursors are exactly the last ones assigned, in order and without
  a hole, as long as the counter has not saturated at \<open>u64::MAX\<close>.\<close>

theorem hub_history_contiguous:
  assumes "hub_reachable hub"
  shows "hub_ok hub"
  by (rule hub_reachable_ok [OF assms])

section \<open>Polling\<close>

lemma hub_okD:
  assumes "hub_ok hub" "hub_next hub < u64_max"
  shows "length (hub_events hub) \<le> hub_next hub + 1"
    "map ev_cursor (hub_events hub) = [hub_next hub + 1 - length (hub_events hub) ..< hub_next hub + 1]"
  using assms by (auto simp: hub_ok_def)

lemma oldest_cursor_ok:
  assumes "hub_ok hub" "hub_next hub < u64_max"
  shows "oldest_cursor hub = hub_next hub + 1 - length (hub_events hub)"
proof (cases "hub_events hub")
  case Nil
  then show ?thesis using assms by (simp add: oldest_cursor_def sat_add64_def)
next
  case (Cons e es)
  have "map ev_cursor (hub_events hub) = [hub_next hub + 1 - length (hub_events hub) ..< hub_next hub + 1]"
    by (rule hub_okD(2) [OF assms])
  then have "ev_cursor e # map ev_cursor es = [hub_next hub + 1 - length (hub_events hub) ..< hub_next hub + 1]"
    unfolding Cons by simp
  then have "ev_cursor e = hub_next hub + 1 - length (hub_events hub)" by (rule upt_eq_Cons_conv [THEN iffD1, OF sym, THEN conjunct2, THEN conjunct1, symmetric])
  then show ?thesis by (simp add: oldest_cursor_def Cons)
qed

lemma filter_upt_greater: "a \<le> c + 1 \<Longrightarrow> filter (\<lambda>x. x > c) [a ..< b] = [c + 1 ..< b]" for c :: nat
proof (induction b)
  case (Suc b)
  then show ?case by (cases "a \<le> b"; cases "c < b") (auto simp: not_le)
qed simp

lemma map_filter_cursor:
  "map ev_cursor (filter (\<lambda>e. ev_cursor e > c) es) = filter (\<lambda>x. x > c) (map ev_cursor es)"
  by (simp add: filter_map comp_def)

lemma poll_page:
  assumes "hub_ok hub" "hub_next hub < u64_max" "\<not> stream_mismatch requested after hub"
    "after \<le> hub_next hub"
  shows "ec_reset_required (poll_for requested after m hub) \<longleftrightarrow>
      after + length (hub_events hub) < hub_next hub"
    and "\<not> ec_reset_required (poll_for requested after m hub) \<Longrightarrow>
      map ev_cursor (ec_events (poll_for requested after m hub)) =
        [after + 1 ..< min (after + max m 1) (hub_next hub) + 1]"
proof -
  let ?n = "hub_next hub" and ?es = "hub_events hub"
  note ok = hub_okD [OF assms(1,2)]
  have sat: "sat_add64 after 1 = after + 1" using assms(2,4) by (simp add: sat_add64_def)
  have reset: "reset_required requested after hub \<longleftrightarrow> after + length ?es < ?n"
    unfolding reset_required_def sat oldest_cursor_ok [OF assms(1,2)]
    using assms(3,4) ok(1) by auto
  then show "ec_reset_required (poll_for requested after m hub) \<longleftrightarrow> after + length ?es < ?n"
    by (simp add: poll_for_def Let_def)
  assume "\<not> ec_reset_required (poll_for requested after m hub)"
  then have nr: "\<not> reset_required requested after hub" by (simp add: poll_for_def Let_def)
  then have le: "?n + 1 - length ?es \<le> after + 1" using reset by simp
  have "map ev_cursor (ec_events (poll_for requested after m hub)) =
      take (max m 1) (filter (\<lambda>x. x > after) (map ev_cursor ?es))"
    using nr by (simp add: poll_for_def Let_def take_map [symmetric] map_filter_cursor)
  also have "\<dots> = take (max m 1) [after + 1 ..< ?n + 1]"
    unfolding ok(2) by (simp only: filter_upt_greater [OF le])
  also have "\<dots> = [after + 1 ..< min (after + max m 1) ?n + 1]"
    using assms(4) by (auto simp: take_upt min_def simp del: upt_Suc)
  finally show "map ev_cursor (ec_events (poll_for requested after m hub)) =
        [after + 1 ..< min (after + max m 1) ?n + 1]" .
qed

definition sample_event :: change_event where
  "sample_event =
     \<lparr>ev_schema = workspace_change_schema, ev_stream = [], ev_cursor = 0, ev_replaced_generation = 1,
      ev_current_generation = 2, ev_current = \<lparr>sid_uri = ''u'', sid_identity = ''i''\<rparr>,
      ev_affected = [], ev_subjects = [], ev_diagnostics = \<lparr>dd_added = [], dd_resolved = []\<rparr>,
      ev_obligations = \<lparr>od_added = [], od_resolved = [], od_status_changed = [], od_complete = True\<rparr>,
      ev_impact_identity = None, ev_impact = None, ev_impact_complete = True, ev_reconciled = False,
      ev_supersedes = 0, ev_removed = False, ev_limitations = []\<rparr>"

definition sample_hub :: event_hub where
  "sample_hub = snd (hub_push sample_event (snd (hub_push sample_event (snd (hub_push sample_event
     (new_with_stream 2 ''s''))))))"

lemma sample_hub_reachable: "hub_reachable sample_hub"
  unfolding sample_hub_def by (intro hub_reachable.intros)

lemma sample_hub_fields:
  "hub_next sample_hub = 3" "hub_stream sample_hub = ''s''" "length (hub_events sample_hub) = 2"
  by (simp_all add: sample_hub_def hub_push_def new_with_stream_def Let_def sat_add64_def u64_max_def)

lemma hub_history_contiguous_witness: "hub_ok sample_hub"
  by (rule hub_history_contiguous [OF sample_hub_reachable])

text \<open>C26: A poll that resumes the right stream is told to reset exactly when an event after its
  cursor has aged out of the history; otherwise the page holds the retained events whose cursors
  are the next ones after the client's, consecutively, up to the page size or the newest event,
  so a client that polls page after page misses nothing.\<close>

theorem poll_delivers_next_events:
  assumes "hub_reachable hub" "hub_next hub < u64_max" "\<not> stream_mismatch requested after hub"
    "after \<le> hub_next hub"
  shows "let page = poll_for requested after m hub in
    (ec_reset_required page \<longleftrightarrow> after + length (hub_events hub) < hub_next hub) \<and>
    set (ec_events page) \<subseteq> set (hub_events hub) \<and>
    map ev_cursor (ec_events page) =
      (if ec_reset_required page then [] else [after + 1 ..< min (after + max m 1) (hub_next hub) + 1])"
proof -
  have ok: "hub_ok hub" by (rule hub_reachable_ok [OF assms(1)])
  have "set (ec_events (poll_for requested after m hub)) \<subseteq> set (hub_events hub)"
    by (auto simp: poll_for_def Let_def dest: in_set_takeD)
  moreover have "ec_reset_required (poll_for requested after m hub) \<Longrightarrow>
      ec_events (poll_for requested after m hub) = []"
    by (simp add: poll_for_def Let_def)
  ultimately show ?thesis
    using poll_page [OF ok assms(2-4), of m] by (simp add: Let_def del: upt_Suc)
qed

lemma poll_delivers_next_events_witness:
  "\<not> ec_reset_required (poll_for (Some ''s'') 1 5 sample_hub) \<and>
   map ev_cursor (ec_events (poll_for (Some ''s'') 1 5 sample_hub)) = [2, 3]"
proof -
  have "hub_next sample_hub < u64_max" "\<not> stream_mismatch (Some ''s'') 1 sample_hub" "1 \<le> hub_next sample_hub"
    by (simp_all add: sample_hub_fields stream_mismatch_def u64_max_def)
  from poll_delivers_next_events [OF sample_hub_reachable this, of 5]
  show ?thesis by (simp add: Let_def sample_hub_fields upt_rec)
qed



text \<open>Publishing an event and polling from the cursor that was newest before returns exactly
  that event, stamped with the stream and the next cursor, without a reset.\<close>

theorem push_then_poll:
  assumes "hub_reachable hub" "hub_next hub + 1 < u64_max"
  shows "let hub' = snd (hub_push event hub);
             page = poll_for (Some (hub_stream hub)) (hub_next hub) m hub'
    in \<not> ec_reset_required page \<and>
       ec_events page = [event\<lparr>ev_cursor := hub_next hub + 1, ev_stream := hub_stream hub\<rparr>]"
proof -
  let ?hub = "snd (hub_push event hub)"
  let ?e = "event\<lparr>ev_cursor := hub_next hub + 1, ev_stream := hub_stream hub\<rparr>"
  have ok: "hub_ok hub" by (rule hub_reachable_ok [OF assms(1)])
  have sat: "sat_add64 (hub_next hub) 1 = hub_next hub + 1" using assms(2) by (simp add: sat_add64_def)
  have st: "hub_next ?hub = hub_next hub + 1" "hub_stream ?hub = hub_stream hub"
    unfolding hub_push_def Let_def sat by simp_all
  obtain old where es: "hub_events ?hub = old @ [?e]" "set old \<subseteq> set (hub_events hub)"
    
  proof
    let ?old = "if length (hub_events hub) \<ge> hub_capacity hub then tl (hub_events hub) else hub_events hub"
    show "hub_events ?hub = ?old @ [?e]" unfolding hub_push_def Let_def sat by simp
    show "set ?old \<subseteq> set (hub_events hub)" by (cases "hub_events hub") auto
  qed
  have old: "ev_cursor x \<le> hub_next hub" if "x \<in> set old" for x
  proof -
    have "ev_cursor x \<in> set (map ev_cursor (hub_events hub))" using that es(2) by auto
    then show ?thesis using hub_okD(2) [OF ok] assms(2) by (auto simp del: set_map)
  qed
  have "\<not> reset_required (Some (hub_stream hub)) (hub_next hub) ?hub"
  proof -
    have "hub_next hub + length (hub_events ?hub) \<ge> hub_next ?hub" using es(1) st(1) by simp
    then show ?thesis
      using poll_page(1) [OF hub_ok_push [OF ok], of event "Some (hub_stream hub)" "hub_next hub" 0] st assms(2) es(1)
      by (simp add: stream_mismatch_def poll_for_def Let_def)
  qed
  moreover have "filter (\<lambda>e. hub_next hub < ev_cursor e) old = []" using old by (auto simp: filter_empty_conv not_less)
  ultimately show ?thesis by (simp add: Let_def poll_for_def es(1))
qed

lemma push_then_poll_witness:
  "map ev_cursor (ec_events (poll_for (Some ''s'') 3 1 (snd (hub_push sample_event sample_hub)))) = [4]"
proof -
  have "hub_next sample_hub + 1 < u64_max" by (simp add: sample_hub_fields u64_max_def)
  from push_then_poll [OF sample_hub_reachable this, of sample_event 1]
  show ?thesis by (simp add: Let_def sample_hub_fields)
qed

text \<open>A checkpoint of a reachable hub is accepted by a fresh hub that can hold it and restores
  the same stream, counter and history: a client resumes as if the service had not restarted.\<close>

theorem checkpoint_roundtrip:
  assumes "hub_reachable hub" "hub_next hub < u64_max" "length (hub_events hub) \<le> capacity"
  shows "let (stream, next, events) = checkpoint_snapshot hub;
             (accepted, hub') = restore_checkpoint stream next events (new_with_stream capacity fresh)
    in accepted \<and> hub_stream hub' = hub_stream hub \<and> hub_next hub' = hub_next hub \<and>
       hub_events hub' = hub_events hub"
proof -
  let ?es = "hub_events hub"
  have ok: "hub_ok hub" by (rule hub_reachable_ok [OF assms(1)])
  note cur = hub_okD [OF ok assms(2)]
  have cons: "consecutive [a ..< b]" if "b \<le> u64_max" for a b
    using that
  proof (induction "b - a" arbitrary: a)
    case (Suc d)
    then have "[a ..< b] = a # [Suc a ..< b]" by (simp add: upt_rec)
    moreover have "consecutive (a # [Suc a ..< b])"
    proof (cases "Suc a < b")
      case True
      then have "[Suc a ..< b] = Suc a # [Suc (Suc a) ..< b]" by (simp add: upt_rec)
      moreover have "Suc a mod 2 ^ 64 = Suc a" using True Suc(3) by (simp add: u64_max_def)
      ultimately show ?thesis using Suc(1) [of "Suc a"] Suc(2,3) by simp
    qed simp
    ultimately show ?case by simp
  qed simp
  have "checkpoint_valid (new_with_stream capacity fresh) (hub_stream hub) (hub_next hub) ?es"
    unfolding checkpoint_valid_def
  proof (intro conjI)
    show "length ?es \<le> hub_capacity (new_with_stream capacity fresh)"
      using assms(3) by (simp add: new_with_stream_def)
    show "list_all (\<lambda>e. ev_stream e = hub_stream hub) ?es" using ok by (simp add: hub_ok_def list_all_iff)
    show "consecutive (map ev_cursor ?es)" unfolding cur(2) using assms(2) by (intro cons) simp
    have "\<forall>c \<in> set (map ev_cursor ?es). c \<le> hub_next hub" unfolding cur(2) by (simp del: upt_Suc)
    then show "list_all (\<lambda>e. ev_cursor e \<le> hub_next hub) ?es" by (simp add: list_all_iff)
    show "(if ?es = [] then hub_next hub else ev_cursor (last ?es)) = hub_next hub"
    proof (cases "?es = []")
      case False
      then have "ev_cursor (last ?es) = last (map ev_cursor ?es)" by (simp add: last_map)
      also have "\<dots> = hub_next hub"
      proof -
        have "hub_next hub + 1 - length ?es < hub_next hub + 1" using False by (cases ?es) auto
        then show ?thesis unfolding cur(2) by simp
      qed
      finally show ?thesis using False by simp
    qed simp
  qed
  then show ?thesis by (simp add: checkpoint_snapshot_def restore_checkpoint_def new_with_stream_def Let_def)
qed

lemma checkpoint_roundtrip_witness:
  "fst (restore_checkpoint (hub_stream sample_hub) (hub_next sample_hub) (hub_events sample_hub)
     (new_with_stream 2 ''t''))"
proof -
  have "hub_next sample_hub < u64_max" "length (hub_events sample_hub) \<le> 2"
    by (simp_all add: sample_hub_fields u64_max_def)
  from checkpoint_roundtrip [OF sample_hub_reachable this, of "''t''"]
  show ?thesis by (simp add: checkpoint_snapshot_def split: prod.splits)
qed

end
