(* ===== verification/Document_Store.thy ===== *)
theory Document_Store
  imports Edits
begin

text \<open>
  \<open>document.rs\<close>: the resident documents, the module directory, the generation counter and
  every operation on them. Locks are never poisoned here (no operation panics while holding
  one), and each operation runs under its guards as one step. The file system, the \<open>url\<close>
  crate and the envelope constructor are the fields of \<open>environment\<close>. An operation returns
  the URIs it passes to the change callback, in order.
\<close>

datatype read_result = ReadOk string | ReadNotFound string | ReadFailed string

datatype entry_kind = EntryFile | EntryDir | EntrySymlink

record dir_entry =
  de_path :: string
  de_name :: string
  de_kind :: "entry_kind option"

record environment =
  env_read :: "string \<Rightarrow> read_result"
  env_is_file :: "string \<Rightarrow> bool"
  env_is_dir :: "string \<Rightarrow> bool"
  env_read_dir :: "string \<Rightarrow> dir_entry list option"
  env_path_from_uri :: "string \<Rightarrow> string option"
  env_path_to_uri :: "string \<Rightarrow> string"
  env_identity :: "string \<Rightarrow> string \<Rightarrow> string"
  env_module :: "string \<Rightarrow> string option"

definition max_discovered_documents :: nat where "max_discovered_documents = 5000"
definition max_document_bytes :: nat where "max_document_bytes = 4 * 1024 * 1024"

record stored_content =
  ct_text :: string
  ct_identity :: string
  ct_module :: "string option"

record buffer =
  bf_version :: int
  bf_content :: stored_content

record document =
  dc_path :: "string option"
  dc_disk :: "stored_content option"
  dc_buffer :: "buffer option"

record document_store =
  ds_documents :: "(string, document) btree"
  ds_root :: "string option"
  ds_discovery_roots :: "string list option"
  ds_generation :: nat
  ds_claims :: "(string, string) buckets"
  ds_version :: nat

section \<open>Documents\<close>

definition stored :: "document \<Rightarrow> stored_content option" where
  "stored d = (case dc_buffer d of Some b \<Rightarrow> Some (bf_content b) | None \<Rightarrow> dc_disk d)"

definition document_content :: "document \<Rightarrow> string option" where
  "document_content d = map_option ct_text (stored d)"

definition effective_module :: "document \<Rightarrow> string option" where
  "effective_module d = Option.bind (stored d) ct_module"

definition is_open_document :: "document \<Rightarrow> bool" where
  "is_open_document d \<longleftrightarrow> dc_buffer d \<noteq> None"

definition seal_content :: "environment \<Rightarrow> string \<Rightarrow> string \<Rightarrow> stored_content" where
  "seal_content env uri t =
     \<lparr>ct_text = t, ct_identity = env_identity env uri t, ct_module = env_module env t\<rparr>"

definition path_of :: "environment \<Rightarrow> string \<Rightarrow> document \<Rightarrow> string option" where
  "path_of env uri d = (case dc_path d of Some p \<Rightarrow> Some p | None \<Rightarrow> env_path_from_uri env uri)"

section \<open>Counters and the module directory\<close>

text \<open>\<open>Generations::next\<close>: \<open>fetch_add\<close> wraps, the returned value saturates.\<close>

definition next_generation :: "document_store \<Rightarrow> nat \<times> document_store" where
  "next_generation st =
     (sat_add64 (ds_generation st) 1, st\<lparr>ds_generation := (ds_generation st + 1) mod 2 ^ 64\<rparr>)"

definition restore_generation_at_least :: "nat \<Rightarrow> document_store \<Rightarrow> document_store" where
  "restore_generation_at_least v st =
     (if ds_generation st < v then st\<lparr>ds_generation := v\<rparr> else st)"

definition bump_content_version :: "document_store \<Rightarrow> document_store" where
  "bump_content_version st = st\<lparr>ds_version := (ds_version st + 1) mod 2 ^ 64\<rparr>"

definition note_module_change ::
  "string \<Rightarrow> string option \<Rightarrow> string option \<Rightarrow> document_store \<Rightarrow> document_store" where
  "note_module_change uri old_module new_module st =
     (if old_module = new_module then st
      else
        let claims = (case old_module of None \<Rightarrow> ds_claims st | Some m \<Rightarrow> bucket_remove m uri (ds_claims st));
            claims = (case new_module of None \<Rightarrow> claims | Some m \<Rightarrow> bucket_add m uri claims)
        in st\<lparr>ds_claims := claims\<rparr>)"

definition set_document :: "string \<Rightarrow> document \<Rightarrow> document_store \<Rightarrow> document_store" where
  "set_document uri d st = st\<lparr>ds_documents := bt_insert uri d (ds_documents st)\<rparr>"

definition remove_document :: "string \<Rightarrow> document_store \<Rightarrow> document_store" where
  "remove_document uri st = st\<lparr>ds_documents := bt_delete uri (ds_documents st)\<rparr>"

abbreviation lookup_document :: "document_store \<Rightarrow> string \<Rightarrow> document option" where
  "lookup_document st uri \<equiv> bt_lookup (ds_documents st) uri"

definition store_new :: "string option \<Rightarrow> document_store" where
  "store_new root =
     \<lparr>ds_documents = bt_empty, ds_root = root, ds_discovery_roots = None, ds_generation = 0,
      ds_claims = bt_empty, ds_version = 0\<rparr>"

definition set_root :: "string option \<Rightarrow> document_store \<Rightarrow> document_store" where
  "set_root root st = st\<lparr>ds_root := root, ds_discovery_roots := None\<rparr>"

definition set_discovery_roots :: "string list option \<Rightarrow> document_store \<Rightarrow> document_store" where
  "set_discovery_roots roots st = st\<lparr>ds_discovery_roots := roots\<rparr>"

definition discovery_roots :: "document_store \<Rightarrow> string list" where
  "discovery_roots st =
     (case ds_discovery_roots st of Some roots \<Rightarrow> roots
      | None \<Rightarrow> (case ds_root st of None \<Rightarrow> [] | Some r \<Rightarrow> [r]))"

section \<open>Loading from disk\<close>

definition read_bounded :: "environment \<Rightarrow> string \<Rightarrow> string option" where
  "read_bounded env path =
     (case env_read env path of
        ReadOk t \<Rightarrow> if length t > max_document_bytes then None else Some t
      | _ \<Rightarrow> None)"

text \<open>Storing sealed disk text of a document whose effective module was \<open>old_module\<close>.\<close>

definition commit_disk ::
  "environment \<Rightarrow> string \<Rightarrow> document \<Rightarrow> string option \<Rightarrow> string option \<Rightarrow> string \<Rightarrow> document_store
     \<Rightarrow> document_store" where
  "commit_disk env uri d path old_module t st =
     (let d' = d\<lparr>dc_path := path, dc_disk := Some (seal_content env uri t)\<rparr>
      in note_module_change uri old_module (effective_module d')
           (bump_content_version (set_document uri d' st)))"

definition scan_one :: "environment \<Rightarrow> string \<Rightarrow> document_store \<Rightarrow> document_store" where
  "scan_one env uri st =
     (case lookup_document st uri of
        None \<Rightarrow> st
      | Some d \<Rightarrow>
          if stored d \<noteq> None then st
          else case path_of env uri d of
              None \<Rightarrow> st
            | Some p \<Rightarrow> (case read_bounded env p of
                  None \<Rightarrow> st
                | Some t \<Rightarrow> commit_disk env uri d (Some p) None t st))"

definition scan_modules_for :: "environment \<Rightarrow> string \<Rightarrow> document_store \<Rightarrow> string option \<times> document_store" where
  "scan_modules_for env m st =
     (let st' = fold (scan_one env) (bt_keys (ds_documents st)) st
      in (bucket_first (ds_claims st') m, st'))"

definition module_uri :: "environment \<Rightarrow> string \<Rightarrow> document_store \<Rightarrow> string option \<times> document_store" where
  "module_uri env m st =
     (case bucket_first (ds_claims st) m of
        Some uri \<Rightarrow> (Some uri, st)
      | None \<Rightarrow> scan_modules_for env m st)"

definition ensure_document :: "string \<Rightarrow> string option \<Rightarrow> document_store \<Rightarrow> bool \<times> document_store" where
  "ensure_document uri path st =
     (if lookup_document st uri \<noteq> None then (False, st)
      else (True, bump_content_version
              (set_document uri \<lparr>dc_path = path, dc_disk = None, dc_buffer = None\<rparr> st)))"

definition ensure_loaded :: "environment \<Rightarrow> string \<Rightarrow> document_store \<Rightarrow> (service_error + unit) \<times> document_store" where
  "ensure_loaded env uri st =
     (if (case lookup_document st uri of None \<Rightarrow> False | Some d \<Rightarrow> document_content d \<noteq> None)
      then (Inr (), st)
      else
        let known_path = (case Option.bind (lookup_document st uri) dc_path of
                            Some p \<Rightarrow> Some p | None \<Rightarrow> env_path_from_uri env uri);
            registered =
              (if lookup_document st uri \<noteq> None then Inr st
               else case known_path of
                   None \<Rightarrow> Inl (DocumentNotFound uri)
                 | Some p \<Rightarrow>
                     if \<not> env_is_file env p \<or> \<not> ends_with p ''.mncs'' then Inl (DocumentNotFound uri)
                     else Inr (snd (ensure_document uri (Some p) st)))
        in (case registered of
              Inl e \<Rightarrow> (Inl e, st)
            | Inr st \<Rightarrow>
                (case lookup_document st uri of
                   None \<Rightarrow> (Inl (DocumentNotFound uri), st)
                 | Some d \<Rightarrow>
                     if dc_disk d = None \<and> \<not> is_open_document d then
                       (case path_of env uri d of
                          None \<Rightarrow> (Inr (), st)
                        | Some p \<Rightarrow> (case read_bounded env p of
                              None \<Rightarrow> (Inr (), st)
                            | Some t \<Rightarrow> (Inr (), commit_disk env uri d (Some p) None t st)))
                     else (Inr (), st))))"

text \<open>The queries that load lazily first.\<close>

definition query_stored ::
  "environment \<Rightarrow> string \<Rightarrow> document_store \<Rightarrow> (service_error + stored_content) \<times> document_store" where
  "query_stored env uri st =
     (case ensure_loaded env uri st of
        (Inl e, st') \<Rightarrow> (Inl e, st')
      | (Inr _, st') \<Rightarrow>
          (case Option.bind (lookup_document st' uri) stored of
             None \<Rightarrow> (Inl (DocumentNotFound uri), st')
           | Some c \<Rightarrow> (Inr c, st')))"

definition content :: "environment \<Rightarrow> string \<Rightarrow> document_store \<Rightarrow> (service_error + string) \<times> document_store" where
  "content env uri st = map_prod (map_sum id ct_text) id (query_stored env uri st)"

definition content_identity ::
  "environment \<Rightarrow> string \<Rightarrow> document_store \<Rightarrow> (service_error + string) \<times> document_store" where
  "content_identity env uri st = map_prod (map_sum id ct_identity) id (query_stored env uri st)"

definition declared_module ::
  "environment \<Rightarrow> string \<Rightarrow> document_store \<Rightarrow> (service_error + string option) \<times> document_store" where
  "declared_module env uri st =
     (case ensure_loaded env uri st of
        (Inl e, st') \<Rightarrow> (Inl e, st')
      | (Inr _, st') \<Rightarrow>
          (case lookup_document st' uri of
             None \<Rightarrow> (Inl (DocumentNotFound uri), st')
           | Some d \<Rightarrow> (Inr (effective_module d), st')))"

definition is_open :: "string \<Rightarrow> document_store \<Rightarrow> service_error + bool" where
  "is_open uri st =
     (case lookup_document st uri of None \<Rightarrow> Inl (DocumentNotFound uri) | Some d \<Rightarrow> Inr (is_open_document d))"

definition buffer_version :: "string \<Rightarrow> document_store \<Rightarrow> service_error + int option" where
  "buffer_version uri st =
     (case lookup_document st uri of None \<Rightarrow> Inl (DocumentNotFound uri)
      | Some d \<Rightarrow> Inr (map_option bf_version (dc_buffer d)))"

definition document_uris :: "document_store \<Rightarrow> string list" where
  "document_uris st = bt_keys (ds_documents st)"

definition knows :: "string \<Rightarrow> document_store \<Rightarrow> bool" where
  "knows uri st \<longleftrightarrow> lookup_document st uri \<noteq> None"

section \<open>Editor notifications\<close>

definition too_large :: service_error where
  "too_large = InvalidRequest (''document exceeds '' @ show_nat max_document_bytes @ '' bytes'')"

definition did_open ::
  "environment \<Rightarrow> string \<Rightarrow> int \<Rightarrow> string \<Rightarrow> document_store
     \<Rightarrow> (service_error + nat) \<times> document_store \<times> string list" where
  "did_open env uri version t st =
     (if length t > max_document_bytes then (Inl too_large, st, [])
      else
        let sealed = seal_content env uri t;
            (generation, st) = next_generation st;
            old = lookup_document st uri;
            old_module = Option.bind old effective_module;
            path = (case Option.bind old dc_path of Some p \<Rightarrow> Some p | None \<Rightarrow> env_path_from_uri env uri);
            d = \<lparr>dc_path = path, dc_disk = None,
                 dc_buffer = Some \<lparr>bf_version = version, bf_content = sealed\<rparr>\<rparr>;
            st = note_module_change uri old_module (ct_module sealed)
                   (bump_content_version (set_document uri d st))
        in (Inr generation, st, [uri]))"

definition did_change ::
  "environment \<Rightarrow> string \<Rightarrow> int \<Rightarrow> string \<Rightarrow> document_store
     \<Rightarrow> (service_error + nat) \<times> document_store \<times> string list" where
  "did_change env uri version t st = did_open env uri version t st"

definition did_change_incremental ::
  "environment \<Rightarrow> (string \<Rightarrow> nat \<Rightarrow> native_error + coordinate_chunk)
     \<Rightarrow> (string \<Rightarrow> native_error + coordinate_window) \<Rightarrow> string \<Rightarrow> int \<Rightarrow> text_change list
     \<Rightarrow> document_store \<Rightarrow> panic + ((service_error + nat) \<times> document_store \<times> string list)" where
  "did_change_incremental env pc cw uri version changes st =
     (if list_ex (\<lambda>c. tc_range c = None) changes then
        (case find (\<lambda>c. tc_range c = None) (rev changes) of
           None \<Rightarrow> Inr (Inl (InvalidRequest ''empty change sequence''), st, [])
         | Some l \<Rightarrow> Inr (did_open env uri version (tc_text l) st))
      else
        let (current, st) = content env uri st;
            current = (case current of Inl _ \<Rightarrow> [] | Inr t \<Rightarrow> t)
        in bind_result (apply_changes pc cw current changes) (\<lambda>t.
             if length t > max_document_bytes then Inr (Inl too_large, st, [])
             else Inr (did_open env uri version t st)))"

definition did_save ::
  "environment \<Rightarrow> string \<Rightarrow> string option \<Rightarrow> document_store
     \<Rightarrow> (service_error + nat) \<times> document_store \<times> string list" where
  "did_save env uri saved_text st =
     (case lookup_document st uri of
        None \<Rightarrow> (Inl (DocumentNotFound uri), st, [])
      | Some d \<Rightarrow>
          let old_identity = map_option ct_identity (stored d);
              old_module = effective_module d;
              saved = (case saved_text of Some t \<Rightarrow> Some t
                       | None \<Rightarrow> map_option (\<lambda>b. ct_text (bf_content b)) (dc_buffer d));
              (d', st) =
                (case saved of
                   None \<Rightarrow> (d, st)
                 | Some t \<Rightarrow>
                     let sealed = seal_content env uri t
                     in if map_option ct_identity (dc_disk d) \<noteq> Some (ct_identity sealed)
                        then let d' = d\<lparr>dc_disk := Some sealed\<rparr>
                             in (d', bump_content_version (set_document uri d' st))
                        else (d, st));
              semantic_changed = (old_identity \<noteq> map_option ct_identity (stored d'));
              st = note_module_change uri old_module (effective_module d') st;
              st = (if semantic_changed then snd (next_generation st) else st)
          in (Inr (ds_generation st), st, if semantic_changed then [uri] else []))"

definition did_close ::
  "string \<Rightarrow> document_store \<Rightarrow> (service_error + string option) \<times> document_store \<times> string list" where
  "did_close uri st =
     (let st = snd (next_generation st)
      in case lookup_document st uri of
           None \<Rightarrow> (Inl (DocumentNotFound uri), st, [])
         | Some d \<Rightarrow>
             let old_module = effective_module d;
                 had_buffer = (dc_buffer d \<noteq> None);
                 had_unsaved = (had_buffer \<and> dc_disk d = None);
                 d' = d\<lparr>dc_buffer := None\<rparr>;
                 st = set_document uri d' st;
                 st = (if had_buffer then bump_content_version st else st)
             in if had_unsaved \<and> dc_disk d' = None \<and> dc_path d' = None then
                  (Inr None, note_module_change uri old_module None (remove_document uri st), [uri])
                else
                  (Inr (document_content d'),
                   note_module_change uri old_module (effective_module d') st,
                   if had_buffer then [uri] else []))"

section \<open>Discovery\<close>

text \<open>The entries of one directory: files are registered, directories go on the stack.\<close>

fun discover_entries ::
  "environment \<Rightarrow> bool \<Rightarrow> dir_entry list \<Rightarrow> string list \<Rightarrow> string list \<Rightarrow> document_store
     \<Rightarrow> string list \<times> string list \<times> document_store" where
  "discover_entries env only_new [] stack discovered st = (stack, discovered, st)"
| "discover_entries env only_new (e # es) stack discovered st =
     (case de_kind e of
        None \<Rightarrow> discover_entries env only_new es stack discovered st
      | Some EntrySymlink \<Rightarrow> discover_entries env only_new es stack discovered st
      | Some EntryDir \<Rightarrow>
          if starts_with (de_name e) ''.'' \<or> de_name e = ''target'' \<or> de_name e = ''node_modules''
          then discover_entries env only_new es stack discovered st
          else discover_entries env only_new es (de_path e # stack) discovered st
      | Some EntryFile \<Rightarrow>
          if ends_with (de_name e) ''.mncs'' \<and> length discovered < max_discovered_documents then
            let uri = env_path_to_uri env (de_path e);
                (created, st) = ensure_document uri (Some (de_path e)) st
            in discover_entries env only_new es stack
                 (if created \<or> \<not> only_new then discovered @ [uri] else discovered) st
          else discover_entries env only_new es stack discovered st)"

text \<open>
  The walk over the directory stack (its top is the head). It ends when the tree is finite,
  which the model does not assume: not ending is \<^const>\<open>None\<close>.
\<close>

partial_function (option) discover_walk ::
  "environment \<Rightarrow> bool \<Rightarrow> string list \<Rightarrow> string list \<Rightarrow> document_store \<Rightarrow> (string list \<times> document_store) option" where
  "discover_walk env only_new stack discovered st =
     (case stack of
        [] \<Rightarrow> Some (discovered, st)
      | directory # stack \<Rightarrow>
          if length discovered \<ge> max_discovered_documents then Some (discovered, st)
          else (case env_read_dir env directory of
              None \<Rightarrow> discover_walk env only_new stack discovered st
            | Some es \<Rightarrow>
                (case discover_entries env only_new es stack discovered st of
                   (stack, discovered, st) \<Rightarrow> discover_walk env only_new stack discovered st)))"

definition discover_workspace ::
  "environment \<Rightarrow> bool \<Rightarrow> document_store \<Rightarrow> ((service_error + string list) \<times> document_store) option" where
  "discover_workspace env only_new st =
     (case ds_root st of
        None \<Rightarrow> Some (Inl (WorkspaceUnavailable ''<no workspace root>''), st)
      | Some root \<Rightarrow>
          if \<not> env_is_dir env root then Some (Inl (WorkspaceUnavailable root), st)
          else
            let roots = discovery_roots st;
                stack = (if roots = [] then [root] else rev roots)
            in map_option (\<lambda>(discovered, st). (Inr (sort discovered), st))
                 (discover_walk env only_new stack [] st))"

section \<open>Reconciliation with the disk\<close>

definition load_new_disk ::
  "environment \<Rightarrow> string \<Rightarrow> document_store \<Rightarrow> (service_error + nat option) \<times> document_store" where
  "load_new_disk env uri st =
     (case lookup_document st uri of
        None \<Rightarrow> (Inl (DocumentNotFound uri), st)
      | Some d \<Rightarrow>
          if is_open_document d \<or> dc_disk d \<noteq> None then (Inr None, st)
          else case path_of env uri d of
              None \<Rightarrow> (Inr None, st)
            | Some p \<Rightarrow> (case env_read env p of
                  ReadOk t \<Rightarrow>
                    if length t > max_document_bytes then (Inr None, st)
                    else
                      let st = commit_disk env uri d (dc_path d) None t st;
                          (generation, st) = next_generation st
                      in (Inr (Some generation), st)
                | ReadNotFound e \<Rightarrow> (Inl (InvalidRequest (''could not read discovered document '' @ p @ '': '' @ e)), st)
                | ReadFailed e \<Rightarrow> (Inl (InvalidRequest (''could not read discovered document '' @ p @ '': '' @ e)), st)))"

text \<open>
  One candidate of \<open>refresh_disk_with\<close>: its URI and path and whether it was open and what its
  disk text was when the candidates were listed. The owner's state is \<^typ>\<open>'x\<close>: its callback
  \<open>before_change\<close> may read and load documents, and \<open>notify\<close> is the change callback it wired at
  construction. The result adds to the changed list.
\<close>

record candidate =
  cd_uri :: string
  cd_path :: string
  cd_open :: bool
  cd_previous :: "stored_content option"

type_synonym 'x change_hook = "string \<Rightarrow> document_store \<times> 'x \<Rightarrow> bool \<times> document_store \<times> 'x"

type_synonym 'x refresh_state = "document_store \<times> 'x \<times> (string \<times> nat \<times> bool) list"

definition refresh_removed ::
  "environment \<Rightarrow> 'x change_hook \<Rightarrow> (string \<Rightarrow> 'x \<Rightarrow> 'x) \<Rightarrow> candidate \<Rightarrow> 'x refresh_state \<Rightarrow> 'x refresh_state" where
  "refresh_removed env before_change notify c s =
     (case s of (st, x, changed) \<Rightarrow>
        if cd_previous c = None then s
        else
          let (proceed, st, x) = before_change (cd_uri c) (st, x)
          in if \<not> proceed then (st, x, changed)
             else case lookup_document st (cd_uri c) of
                 None \<Rightarrow> (st, x, changed)
               | Some d \<Rightarrow>
                   if is_open_document d \<or> dc_disk d = None then (st, x, changed)
                   else
                     let st = note_module_change (cd_uri c) (effective_module d) None
                                (bump_content_version (remove_document (cd_uri c) st));
                         (generation, st) = next_generation st
                     in (st, notify (cd_uri c) x, changed @ [(cd_uri c, generation, True)]))"

definition refresh_text ::
  "environment \<Rightarrow> 'x change_hook \<Rightarrow> (string \<Rightarrow> 'x \<Rightarrow> 'x) \<Rightarrow> candidate \<Rightarrow> string \<Rightarrow> 'x refresh_state
     \<Rightarrow> 'x refresh_state" where
  "refresh_text env before_change notify c t s =
     (case s of (st, x, changed) \<Rightarrow>
        case cd_previous c of
          None \<Rightarrow>
            (case lookup_document st (cd_uri c) of
               None \<Rightarrow> s
             | Some d \<Rightarrow>
                 if is_open_document d then s
                 else (commit_disk env (cd_uri c) d (dc_path d) None t st, x, changed))
        | Some previous \<Rightarrow>
            if ct_text previous = t then s
            else
              let (proceed, st, x) = before_change (cd_uri c) (st, x)
              in case lookup_document st (cd_uri c) of
                   None \<Rightarrow> (st, x, changed)
                 | Some d \<Rightarrow>
                     if is_open_document d then (st, x, changed)
                     else
                       let st = commit_disk env (cd_uri c) d (dc_path d) (effective_module d) t st;
                           (generation, st) = next_generation st
                       in (st, notify (cd_uri c) x, changed @ [(cd_uri c, generation, False)]))"

definition refresh_one ::
  "environment \<Rightarrow> 'x change_hook \<Rightarrow> (string \<Rightarrow> 'x \<Rightarrow> 'x) \<Rightarrow> candidate \<Rightarrow> 'x refresh_state \<Rightarrow> 'x refresh_state" where
  "refresh_one env before_change notify c s =
     (if cd_open c then s
      else case env_read env (cd_path c) of
          ReadNotFound _ \<Rightarrow> refresh_removed env before_change notify c s
        | ReadFailed _ \<Rightarrow> s
        | ReadOk t \<Rightarrow>
            if length t > max_document_bytes then s else refresh_text env before_change notify c t s)"

definition refresh_candidates :: "environment \<Rightarrow> document_store \<Rightarrow> candidate list" where
  "refresh_candidates env st =
     List.map_filter
       (\<lambda>(uri, d). map_option (\<lambda>p. \<lparr>cd_uri = uri, cd_path = p, cd_open = is_open_document d, cd_previous = dc_disk d\<rparr>)
          (path_of env uri d))
       (bt_entries (ds_documents st))"

definition refresh_disk_with ::
  "environment \<Rightarrow> 'x change_hook \<Rightarrow> (string \<Rightarrow> 'x \<Rightarrow> 'x) \<Rightarrow> document_store \<times> 'x \<Rightarrow> 'x refresh_state" where
  "refresh_disk_with env before_change notify s =
     (case s of (st, x) \<Rightarrow>
        fold (refresh_one env before_change notify) (refresh_candidates env st) (st, x, []))"

text \<open>\<open>refresh_disk\<close>: a callback that always agrees; the notified URIs are listed.\<close>

definition quiet_hook :: "'x change_hook" where
  "quiet_hook uri s = (True, s)"

definition refresh_disk :: "environment \<Rightarrow> document_store \<Rightarrow> document_store \<times> string list \<times> (string \<times> nat) list" where
  "refresh_disk env st =
     (case refresh_disk_with env quiet_hook (\<lambda>uri notified. notified @ [uri]) (st, []) of
        (st, notified, changed) \<Rightarrow>
          (st, notified,
           List.map_filter (\<lambda>(uri, generation, removed). if removed then None else Some (uri, generation)) changed))"

text \<open>One candidate of \<open>reconcile_checkpoint\<close>.\<close>

definition reconcile_one ::
  "environment \<Rightarrow> (string, string) btree option \<Rightarrow> candidate
     \<Rightarrow> document_store \<times> string list \<times> (string \<times> nat) list
     \<Rightarrow> document_store \<times> string list \<times> (string \<times> nat) list" where
  "reconcile_one env checkpoint c s =
     (if cd_open c then s
      else case read_bounded env (cd_path c) of
          None \<Rightarrow> s
        | Some t \<Rightarrow>
            (case s of (st, notified, changed) \<Rightarrow>
               let sealed = seal_content env (cd_uri c) t;
                   differs = (case checkpoint of None \<Rightarrow> False
                              | Some values \<Rightarrow> bt_lookup values (cd_uri c) \<noteq> Some (ct_identity sealed))
               in case lookup_document st (cd_uri c) of
                    None \<Rightarrow> s
                  | Some d \<Rightarrow>
                      if is_open_document d then s
                      else
                        let st = commit_disk env (cd_uri c) d (Some (cd_path c)) (effective_module d) t st;
                            notified = (if map_option ct_identity (stored d) \<noteq> Some (ct_identity sealed)
                                        then notified @ [cd_uri c] else notified)
                        in if differs then
                             let (generation, st) = next_generation st
                             in (st, notified, changed @ [(cd_uri c, generation)])
                           else (st, notified, changed)))"

definition reconcile_checkpoint ::
  "environment \<Rightarrow> (string, string) btree option \<Rightarrow> document_store
     \<Rightarrow> ((service_error + (string \<times> nat) list) \<times> document_store \<times> string list) option" where
  "reconcile_checkpoint env checkpoint st =
     (case discover_workspace env False st of
        None \<Rightarrow> None
      | Some (Inl e, st) \<Rightarrow> Some (Inl e, st, [])
      | Some (Inr _, st) \<Rightarrow>
          (case fold (reconcile_one env checkpoint) (refresh_candidates env st) (st, [], []) of
             (st, notified, changed) \<Rightarrow> Some (Inr changed, st, notified)))"

end
