(* ===== verification/Document_Spec.thy ===== *)
theory Document_Spec
  imports Document_Store
begin

text \<open>
  The invariant of the document store and what its operations promise. \<open>store_ok\<close> says that
  every stored text carries the derivations of exactly that text, and that the module directory
  lists exactly the documents whose current content declares the module. The locale
  \<open>refresh_hook\<close> is the contract of the callback that \<open>refresh_disk_with\<close> calls.
\<close>

section \<open>The invariant\<close>

definition sealed_for :: "environment \<Rightarrow> string \<Rightarrow> stored_content \<Rightarrow> bool" where
  "sealed_for env uri c \<longleftrightarrow> c = seal_content env uri (ct_text c)"

definition document_sealed :: "environment \<Rightarrow> string \<Rightarrow> document \<Rightarrow> bool" where
  "document_sealed env uri d \<longleftrightarrow>
     (\<forall>c. dc_disk d = Some c \<longrightarrow> sealed_for env uri c) \<and>
     (\<forall>b. dc_buffer d = Some b \<longrightarrow> sealed_for env uri (bf_content b))"

definition claimants :: "(string, document) btree \<Rightarrow> string \<Rightarrow> string set" where
  "claimants docs m = {uri. \<exists>d. bt_lookup docs uri = Some d \<and> effective_module d = Some m}"

definition store_ok :: "environment \<Rightarrow> document_store \<Rightarrow> bool" where
  "store_ok env st \<longleftrightarrow>
     (\<forall>uri d. lookup_document st uri = Some d \<longrightarrow> document_sealed env uri d) \<and>
     no_empty_bucket (ds_claims st) \<and>
     (\<forall>m. bucket_members (ds_claims st) m = claimants (ds_documents st) m)"

lemma sealed_seal [simp]: "sealed_for env uri (seal_content env uri t)"
  by (simp add: sealed_for_def seal_content_def)

lemma seal_simps [simp]:
  "ct_text (seal_content env uri t) = t"
  "ct_identity (seal_content env uri t) = env_identity env uri t"
  "ct_module (seal_content env uri t) = env_module env t"
  by (simp_all add: seal_content_def)

lemma stored_sealed: "document_sealed env uri d \<Longrightarrow> stored d = Some c \<Longrightarrow> sealed_for env uri c"
  by (auto simp: document_sealed_def stored_def split: option.splits)

named_theorems store_simps \<open>unfolding the store updates\<close>

lemma store_update_simps [store_simps]:
  "ds_documents (set_document uri d st) = bt_insert uri d (ds_documents st)"
  "ds_claims (set_document uri d st) = ds_claims st"
  "ds_documents (remove_document uri st) = bt_delete uri (ds_documents st)"
  "ds_claims (remove_document uri st) = ds_claims st"
  "ds_documents (bump_content_version st) = ds_documents st"
  "ds_claims (bump_content_version st) = ds_claims st"
  "ds_generation (set_document uri d st) = ds_generation st"
  "ds_generation (remove_document uri st) = ds_generation st"
  "ds_generation (bump_content_version st) = ds_generation st"
  "ds_documents (note_module_change uri old new st) = ds_documents st"
  "ds_generation (note_module_change uri old new st) = ds_generation st"
  by (simp_all add: set_document_def remove_document_def bump_content_version_def
      note_module_change_def Let_def)

lemma next_generation_simps [store_simps]:
  "ds_documents (snd (next_generation st)) = ds_documents st"
  "ds_claims (snd (next_generation st)) = ds_claims st"
  "fst (next_generation st) = sat_add64 (ds_generation st) 1"
  by (simp_all add: next_generation_def)

lemma store_ok_cong:
  "ds_documents st' = ds_documents st \<Longrightarrow> ds_claims st' = ds_claims st \<Longrightarrow> store_ok env st' = store_ok env st"
  by (simp add: store_ok_def)

lemma store_ok_next [simp]: "store_ok env (snd (next_generation st)) = store_ok env st"
  by (rule store_ok_cong) (simp_all add: store_simps)

lemma store_ok_nextD: "next_generation st = (g, st') \<Longrightarrow> store_ok env st \<Longrightarrow> store_ok env st'"
  using store_ok_next [of env st] by simp

lemma store_ok_bump [simp]: "store_ok env (bump_content_version st) = store_ok env st"
  by (rule store_ok_cong) (simp_all add: store_simps)

text \<open>The directory after one document changed.\<close>

lemma note_claims:
  "bucket_members (ds_claims (note_module_change uri old new st)) m =
     (if old = new then bucket_members (ds_claims st) m
      else (bucket_members (ds_claims st) m - (if old = Some m then {uri} else {})) \<union>
           (if new = Some m then {uri} else {}))"
  by (auto simp: note_module_change_def Let_def split: option.splits)

lemma note_no_empty:
  "no_empty_bucket (ds_claims st) \<Longrightarrow> no_empty_bucket (ds_claims (note_module_change uri old new st))"
  by (simp add: note_module_change_def Let_def no_empty_bucket_add no_empty_bucket_remove split: option.splits)

lemma store_ok_set:
  assumes ok: "store_ok env st" and d: "document_sealed env uri d"
    and old: "old = Option.bind (lookup_document st uri) effective_module \<or>
      (\<exists>d0. lookup_document st uri = Some d0 \<and> old = None \<and> effective_module d0 = effective_module d)"
    and docs: "ds_documents st' = bt_insert uri d (ds_documents st)" and cl: "ds_claims st' = ds_claims st"
  shows "store_ok env (note_module_change uri old (effective_module d) st')"
  unfolding store_ok_def
proof (intro conjI allI impI)
  fix u e
  assume "lookup_document (note_module_change uri old (effective_module d) st') u = Some e"
  then show "document_sealed env u e"
    using ok d by (auto simp: store_simps docs store_ok_def split: if_splits)
next
  show "no_empty_bucket (ds_claims (note_module_change uri old (effective_module d) st'))"
    using ok by (intro note_no_empty) (simp add: store_ok_def cl)
next
  fix m
  have m: "bucket_members (ds_claims st) m = claimants (ds_documents st) m" using ok by (simp add: store_ok_def)
  show "bucket_members (ds_claims (note_module_change uri old (effective_module d) st')) m =
      claimants (ds_documents (note_module_change uri old (effective_module d) st')) m"
    unfolding note_claims cl m store_simps docs
    using old by (auto simp: claimants_def split: if_splits option.splits bind_splits)
qed

lemma store_ok_remove:
  assumes ok: "store_ok env st" and old: "old = Option.bind (lookup_document st uri) effective_module"
    and docs: "ds_documents st' = bt_delete uri (ds_documents st)" and cl: "ds_claims st' = ds_claims st"
  shows "store_ok env (note_module_change uri old None st')"
  unfolding store_ok_def
proof (intro conjI allI impI)
  fix u e
  assume "lookup_document (note_module_change uri old None st') u = Some e"
  then show "document_sealed env u e"
    using ok by (auto simp: store_simps docs store_ok_def split: if_splits)
next
  show "no_empty_bucket (ds_claims (note_module_change uri old None st'))"
    using ok by (intro note_no_empty) (simp add: store_ok_def cl)
next
  fix m
  have m: "bucket_members (ds_claims st) m = claimants (ds_documents st) m" using ok by (simp add: store_ok_def)
  show "bucket_members (ds_claims (note_module_change uri old None st')) m =
      claimants (ds_documents (note_module_change uri old None st')) m"
    unfolding note_claims cl m store_simps docs
    using old by (auto simp: claimants_def split: if_splits option.splits bind_splits)
qed

section \<open>Loading\<close>

lemma commit_disk_ok:
  assumes ok: "store_ok env st" and d: "lookup_document st uri = Some d"
    and old: "old = effective_module d \<or> (old = None \<and> dc_buffer d = None \<and> effective_module d = env_module env t)"
  shows "store_ok env (commit_disk env uri d path old t st)"
proof -
  let ?d = "d\<lparr>dc_path := path, dc_disk := Some (seal_content env uri t)\<rparr>"
  have "document_sealed env uri d" using ok d by (simp add: store_ok_def)
  then have "document_sealed env uri ?d" by (simp add: document_sealed_def)
  moreover have "dc_buffer d = None \<Longrightarrow> effective_module ?d = env_module env t"
    by (simp add: effective_module_def stored_def)
  ultimately show ?thesis
    unfolding commit_disk_def Let_def
    using old d by (intro store_ok_set [OF ok]) (auto simp: store_simps)
qed

lemma scan_one_ok: "store_ok env st \<Longrightarrow> store_ok env (scan_one env uri st)"
  by (auto simp: scan_one_def effective_module_def stored_def intro!: commit_disk_ok
      split: option.splits)

lemma fold_scan_ok: "store_ok env st \<Longrightarrow> store_ok env (fold (scan_one env) uris st)"
  by (induction uris arbitrary: st) (auto intro: scan_one_ok)

lemma module_uri_ok: "store_ok env st \<Longrightarrow> store_ok env (snd (module_uri env m st))"
  by (auto simp: module_uri_def scan_modules_for_def Let_def fold_scan_ok split: option.splits)

lemma ensure_document_ok: "store_ok env st \<Longrightarrow> store_ok env (snd (ensure_document uri path st))"
proof -
  assume ok: "store_ok env st"
  have "store_ok env (note_module_change uri None (effective_module \<lparr>dc_path = path, dc_disk = None, dc_buffer = None\<rparr>)
      (bump_content_version (set_document uri \<lparr>dc_path = path, dc_disk = None, dc_buffer = None\<rparr> st)))"
    if "lookup_document st uri = None"
    using that by (intro store_ok_set [OF ok]) (auto simp: store_simps document_sealed_def)
  then show ?thesis using ok
    by (auto simp: ensure_document_def effective_module_def stored_def note_module_change_def)
qed

lemma ensure_loaded_ok: "store_ok env st \<Longrightarrow> store_ok env (snd (ensure_loaded env uri st))"
proof -
  assume ok: "store_ok env st"
  have load: "store_ok env (commit_disk env uri d (Some p) None t st')"
    if "store_ok env st'" "lookup_document st' uri = Some d" "dc_disk d = None" "\<not> is_open_document d" for st' d p t
    using that by (intro commit_disk_ok) (auto simp: effective_module_def stored_def is_open_document_def)
  show ?thesis
    using ok ensure_document_ok [OF ok]
    by (auto simp: ensure_loaded_def Let_def load split: option.splits sum.splits if_splits)
qed

lemma query_stored_ok: "store_ok env st \<Longrightarrow> store_ok env (snd (query_stored env uri st))"
  using ensure_loaded_ok [of env st uri]
  by (auto simp: query_stored_def split: prod.splits sum.splits option.splits)

lemma content_ok: "store_ok env st \<Longrightarrow> store_ok env (snd (content env uri st))"
  by (simp add: content_def query_stored_ok)

section \<open>Editor notifications\<close>

lemma did_open_ok: "store_ok env st \<Longrightarrow> store_ok env (fst (snd (did_open env uri version t st)))"
proof -
  assume ok: "store_ok env st"
  obtain g st1 where g: "next_generation st = (g, st1)" by (metis prod.exhaust)
  have st1: "store_ok env st1" "ds_documents st1 = ds_documents st"
    using ok store_ok_next [of env st] next_generation_simps(1) [of st] by (simp_all add: g)
  let ?d = "\<lambda>path. \<lparr>dc_path = path, dc_disk = None,
     dc_buffer = Some \<lparr>bf_version = version, bf_content = seal_content env uri t\<rparr>\<rparr>"
  have eff: "effective_module (?d path) = env_module env t" for path
    by (simp add: effective_module_def stored_def)
  have "store_ok env (note_module_change uri (Option.bind (lookup_document st1 uri) effective_module)
      (effective_module (?d path)) (bump_content_version (set_document uri (?d path) st1)))" for path
    by (rule store_ok_set [OF st1(1)]) (auto simp: store_simps document_sealed_def)
  then show ?thesis using ok
    by (auto simp: did_open_def g Let_def eff)
qed

lemma did_save_ok: "store_ok env st \<Longrightarrow> store_ok env (fst (snd (did_save env uri saved st)))"
proof (cases "lookup_document st uri")
  case (Some d)
  assume ok: "store_ok env st"
  have seal: "document_sealed env uri d" using ok Some by (simp add: store_ok_def)
  have same: "store_ok env (note_module_change uri (effective_module d) (effective_module d) st)"
    using ok by (simp add: note_module_change_def)
  have upd: "store_ok env (note_module_change uri (effective_module d)
      (effective_module (d\<lparr>dc_disk := Some (seal_content env uri t)\<rparr>))
      (bump_content_version (set_document uri (d\<lparr>dc_disk := Some (seal_content env uri t)\<rparr>) st)))" for t
    using seal Some by (intro store_ok_set [OF ok]) (auto simp: store_simps document_sealed_def)
  show ?thesis using same upd
    by (auto simp: did_save_def Some Let_def split: option.splits prod.splits if_splits)
qed (simp add: did_save_def)

lemma did_close_ok: "store_ok env st \<Longrightarrow> store_ok env (fst (snd (did_close uri st)))"
proof -
  assume "store_ok env st"
  moreover define st1 where "st1 = snd (next_generation st)"
  ultimately have ok: "store_ok env st1" by simp
  show ?thesis
  proof (cases "lookup_document st1 uri")
    case None
    then show ?thesis using ok by (simp add: did_close_def st1_def [symmetric])
  next
    case (Some d)
    let ?d = "d\<lparr>dc_buffer := None\<rparr>"
    have seal: "document_sealed env uri ?d" using ok Some by (auto simp: store_ok_def document_sealed_def)
    have del: "store_ok env (note_module_change uri (effective_module d) None (remove_document uri st2))"
      if "ds_documents st2 = bt_insert uri ?d (ds_documents st1)" "ds_claims st2 = ds_claims st1" for st2
    proof (rule store_ok_remove [OF ok])
      show "ds_documents (remove_document uri st2) = bt_delete uri (ds_documents st1)"
        using that by (auto simp: store_simps intro: btree_eqI)
    qed (use that Some in \<open>simp_all add: store_simps\<close>)
    have set: "store_ok env (note_module_change uri (effective_module d) (effective_module ?d) st2)"
      if "ds_documents st2 = bt_insert uri ?d (ds_documents st1)" "ds_claims st2 = ds_claims st1" for st2
      by (rule store_ok_set [OF ok seal _ that]) (simp add: Some)
    show ?thesis unfolding did_close_def st1_def [symmetric] Let_def
      by (simp add: Some del set store_simps)
  qed
qed

lemma did_change_incremental_ok:
  assumes "store_ok env st" "did_change_incremental env pc cw uri version changes st = Inr (r, st', n)"
  shows "store_ok env st'"
proof -
  obtain cur st1 where c: "content env uri st = (cur, st1)" by (metis prod.exhaust)
  have ok1: "store_ok env st1" using content_ok [OF assms(1), of uri] by (simp add: c)
  have opened: "did_open env uri version t s = (x, s', y) \<Longrightarrow> store_ok env s \<Longrightarrow> store_ok env s'" for t s x s' y
    using did_open_ok [of env s uri version t] by simp
  show ?thesis
  proof (cases "list_ex (\<lambda>c. tc_range c = None) changes")
    case True
    then show ?thesis using assms
      by (auto simp: did_change_incremental_def dest: opened split: option.splits)
  next
    case False
    then show ?thesis using assms ok1
      by (auto simp: did_change_incremental_def c Let_def bind_result_eq_Inr dest: opened split: if_splits)
  qed
qed

section \<open>Discovery and reconciliation\<close>

lemma discover_entries_ok:
  "store_ok env st \<Longrightarrow> store_ok env (snd (snd (discover_entries env only_new es stack discovered st)))"
proof (induction env only_new es stack discovered st rule: discover_entries.induct)
  case (2 env only_new e es stack discovered st)
  obtain created st1 where c: "ensure_document (env_path_to_uri env (de_path e)) (Some (de_path e)) st = (created, st1)"
    by (metis prod.exhaust)
  have "store_ok env st1" using ensure_document_ok [OF 2(7)] c by (metis snd_conv)
  then show ?case using 2 c by (auto split: option.splits entry_kind.splits)
qed simp

lemma discover_walk_ok_imp:
  assumes "discover_walk env only_new stack discovered st = Some r"
  shows "store_ok env st \<longrightarrow> store_ok env (snd r)"
proof (rule discover_walk.raw_induct [where P = "\<lambda>e b s d st r. store_ok e st \<longrightarrow> store_ok e (snd r)", OF _ assms], goal_cases)
  case (1 walk env only_new stack discovered st r)
  note 2 = 1
  show ?case
  proof (cases stack)
    case (Cons directory rest)
    show ?thesis
    proof (cases "length discovered \<ge> max_discovered_documents")
      case False
      show ?thesis
      proof (cases "env_read_dir env directory")
        case None
        then show ?thesis using 2 Cons False by auto
      next
        case (Some es)
        obtain s' d' st' where e: "discover_entries env only_new es rest discovered st = (s', d', st')"
          by (metis prod_cases3)
        have "store_ok env st \<Longrightarrow> store_ok env st'"
          using discover_entries_ok [of env st only_new es rest discovered] by (simp add: e)
        then show ?thesis using 2 Cons False Some e by auto
      qed
    qed (use 2 Cons in auto)
  qed (use 2 in auto)
qed

lemma discover_walk_ok:
  "discover_walk env only_new stack discovered st = Some r \<Longrightarrow> store_ok env st \<Longrightarrow> store_ok env (snd r)"
  using discover_walk_ok_imp by blast

lemma discover_workspace_ok:
  "discover_workspace env only_new st = Some (r, st') \<Longrightarrow> store_ok env st \<Longrightarrow> store_ok env st'"
  by (auto simp: discover_workspace_def Let_def dest: discover_walk_ok split: option.splits if_splits)

lemma load_new_disk_ok: "store_ok env st \<Longrightarrow> store_ok env (snd (load_new_disk env uri st))"
proof -
  assume ok: "store_ok env st"
  have "store_ok env (commit_disk env uri d path None t st)"
    if "lookup_document st uri = Some d" "\<not> is_open_document d" "dc_disk d = None" for d path t
    using that by (intro commit_disk_ok [OF ok]) (auto simp: effective_module_def stored_def is_open_document_def)
  then show ?thesis using ok
    by (auto simp: load_new_disk_def Let_def dest: store_ok_nextD split: option.splits read_result.splits prod.splits)
qed

text \<open>A document the disk refresh found without text: what may have been loaded since.\<close>

definition unloaded_at :: "environment \<Rightarrow> string \<Rightarrow> string \<Rightarrow> document_store \<Rightarrow> bool" where
  "unloaded_at env uri path st \<longleftrightarrow>
     (\<forall>d. lookup_document st uri = Some d \<longrightarrow> dc_buffer d = None \<longrightarrow>
        path_of env uri d = Some path \<and>
        (dc_disk d = None \<or> (\<exists>t. read_bounded env path = Some t \<and> dc_disk d = Some (seal_content env uri t))))"

lemma map_filter_keys:
  "(\<And>k v y. f (k, v) = Some y \<Longrightarrow> g y = k) \<Longrightarrow> distinct (map fst xs) \<Longrightarrow>
   distinct (map g (List.map_filter f xs)) \<and> set (map g (List.map_filter f xs)) \<subseteq> fst ` set xs"
proof (induction xs)
  case (Cons x xs)
  obtain k v where x: "x = (k, v)" by (metis prod.exhaust)
  have IH: "distinct (map g (List.map_filter f xs))" "set (map g (List.map_filter f xs)) \<subseteq> fst ` set xs"
    using Cons by auto
  show ?case
  proof (cases "f x")
    case None
    then show ?thesis using IH by (auto simp: List.map_filter_def)
  next
    case (Some y)
    then have "g y = k" using Cons.prems(1) x by simp
    moreover have "k \<notin> fst ` set xs" using Cons.prems(2) x by simp
    ultimately show ?thesis using IH Some x by (auto simp: List.map_filter_def)
  qed
qed (simp add: List.map_filter_def)

lemma refresh_candidates_distinct: "distinct (map cd_uri (refresh_candidates env st))"
  unfolding refresh_candidates_def
  using bt_keys_distinct [of "ds_documents st"]
  by (intro map_filter_keys [THEN conjunct1]) (auto simp: bt_keys_def)

lemma refresh_candidatesD:
  "c \<in> set (refresh_candidates env st) \<Longrightarrow>
   \<exists>d. lookup_document st (cd_uri c) = Some d \<and> path_of env (cd_uri c) d = Some (cd_path c) \<and>
     cd_open c = is_open_document d \<and> cd_previous c = dc_disk d"
  by (auto simp: refresh_candidates_def List.map_filter_def bt_lookup_eq_Some)

definition waiting_at :: "environment \<Rightarrow> string \<Rightarrow> string \<Rightarrow> document_store \<Rightarrow> bool" where
  "waiting_at env uri path st \<longleftrightarrow> lookup_document st uri \<noteq> None \<and> unloaded_at env uri path st"

locale refresh_hook =
  fixes env :: environment
    and hook :: "string \<Rightarrow> document_store \<times> 'x \<Rightarrow> bool \<times> document_store \<times> 'x"
    and notify :: "string \<Rightarrow> 'x \<Rightarrow> 'x"
  assumes hook_ok: "store_ok env st \<Longrightarrow> store_ok env (fst (snd (hook uri (st, x))))"
    and hook_waiting: "waiting_at env u p st \<Longrightarrow> waiting_at env u p (fst (snd (hook uri (st, x))))"
begin

definition candidate_ok :: "document_store \<Rightarrow> candidate \<Rightarrow> bool" where
  "candidate_ok st c \<longleftrightarrow>
     (cd_previous c = None \<and> \<not> cd_open c \<longrightarrow>
        waiting_at env (cd_uri c) (cd_path c) st)"

lemma refresh_one_ok:
  assumes ok: "store_ok env st" and c: "candidate_ok st c"
  shows "store_ok env (fst (refresh_one env hook notify c (st, x, changed)))"
proof (cases "cd_open c")
  case True
  then show ?thesis using ok by (simp add: refresh_one_def)
next
  case closed: False
  obtain go st1 x1 where h: "hook (cd_uri c) (st, x) = (go, st1, x1)" by (metis prod_cases3)
  have ok1: "store_ok env st1" using hook_ok [OF ok, of "cd_uri c" x] by (simp add: h)
  show ?thesis
  proof (cases "env_read env (cd_path c)")
    case (ReadOk t)
    have "store_ok env (fst (refresh_text env hook notify c t (st, x, changed)))"
      if len: "\<not> length t > max_document_bytes"
    proof (cases "cd_previous c")
      case None
      have t: "read_bounded env (cd_path c) = Some t" using ReadOk len by (simp add: read_bounded_def)
      show ?thesis
      proof (cases "lookup_document st (cd_uri c)")
        case None
        then show ?thesis using ok \<open>cd_previous c = None\<close> by (simp add: refresh_text_def)
      next
        case (Some d)
        have "store_ok env (commit_disk env (cd_uri c) d (dc_path d) None t st)" if "\<not> is_open_document d"
        proof (rule commit_disk_ok [OF ok Some])
          have b: "dc_buffer d = None" using that by (simp add: is_open_document_def)
          then have "dc_disk d = None \<or> dc_disk d = Some (seal_content env (cd_uri c) t)"
            using c None closed Some t by (auto simp: candidate_ok_def waiting_at_def unloaded_at_def)
          then show "None = effective_module d \<or> None = None \<and> dc_buffer d = None \<and> effective_module d = env_module env t"
            using b by (auto simp: effective_module_def stored_def)
        qed
        then show ?thesis using ok None Some by (simp add: refresh_text_def)
      qed
    next
      case (Some previous)
      have "store_ok env (commit_disk env (cd_uri c) d (dc_path d) (effective_module d) t st1)"
        if "lookup_document st1 (cd_uri c) = Some d" for d
        using that by (intro commit_disk_ok [OF ok1]) simp_all
      then show ?thesis using ok ok1 Some
        by (auto simp: refresh_text_def h Let_def dest: store_ok_nextD split: option.splits prod.splits)
    qed
    then show ?thesis using ok ReadOk closed by (simp add: refresh_one_def)
  next
    case (ReadNotFound e)
    have rm: "store_ok env (note_module_change (cd_uri c) (effective_module d) None
        (bump_content_version (remove_document (cd_uri c) st1)))"
      if "lookup_document st1 (cd_uri c) = Some d" for d
      using that by (intro store_ok_remove [OF ok1]) (simp_all add: store_simps)
    then show ?thesis using ok ok1 ReadNotFound closed
      by (auto simp: refresh_one_def refresh_removed_def h Let_def dest: store_ok_nextD split: option.splits prod.splits)
  qed (use ok closed in \<open>simp add: refresh_one_def\<close>)
qed

text \<open>A step of the refresh leaves the candidates of the other documents as they were.\<close>

lemma refresh_one_other:
  assumes ne: "cd_uri c \<noteq> u" and un: "waiting_at env u p st"
  shows "waiting_at env u p (fst (refresh_one env hook notify c (st, x, changed)))"
proof -
  obtain go st1 x1 where h: "hook (cd_uri c) (st, x) = (go, st1, x1)" by (metis prod_cases3)
  have un1: "waiting_at env u p st1" using hook_waiting [OF un, of "cd_uri c" x] by (simp add: h)
  have same: "lookup_document st' u = lookup_document s u \<Longrightarrow> waiting_at env u p st' = waiting_at env u p s" for s st'
    by (simp add: waiting_at_def unloaded_at_def)
  have lk: "lookup_document (commit_disk env (cd_uri c) d path old t s) u = lookup_document s u" for d path old t s
    using ne by (simp add: commit_disk_def Let_def store_simps)
  have lk2: "lookup_document (note_module_change (cd_uri c) m None
      (bump_content_version (remove_document (cd_uri c) s))) u = lookup_document s u" for m s
    using ne by (simp add: store_simps)
  have nx: "next_generation s = (g, s') \<Longrightarrow> lookup_document s' u = lookup_document s u" for s g s'
    by (metis next_generation_simps(1) snd_conv)
  let ?st' = "fst (refresh_one env hook notify c (st, x, changed))"
  have "lookup_document ?st' u = lookup_document st u \<or> lookup_document ?st' u = lookup_document st1 u"
    by (auto simp: refresh_one_def refresh_removed_def refresh_text_def h Let_def lk lk2 dest!: nx
        split: read_result.splits option.splits prod.splits)
  then show ?thesis
  proof
    assume eq: "lookup_document ?st' u = lookup_document st u"
    from un same [OF eq] show ?thesis by simp
  next
    assume eq: "lookup_document ?st' u = lookup_document st1 u"
    from un1 same [OF eq] show ?thesis by simp
  qed
qed

lemma refresh_fold_ok:
  "store_ok env st \<Longrightarrow> \<forall>c \<in> set cs. candidate_ok st c \<Longrightarrow> distinct (map cd_uri cs) \<Longrightarrow>
   store_ok env (fst (fold (refresh_one env hook notify) cs (st, x, changed)))"
proof (induction cs arbitrary: st x changed)
  case (Cons c cs)
  obtain st1 n1 c1 where s: "refresh_one env hook notify c (st, x, changed) = (st1, n1, c1)" by (metis prod_cases3)
  have ok1: "store_ok env st1" using refresh_one_ok [OF Cons.prems(1), of c x changed] Cons.prems(2) s by simp
  have "candidate_ok st1 c'" if "c' \<in> set cs" for c'
  proof -
    have "candidate_ok st c'" "cd_uri c \<noteq> cd_uri c'" using Cons.prems(2,3) that by auto
    show ?thesis
    proof (cases "cd_previous c' = None \<and> \<not> cd_open c'")
      case True
      then show ?thesis
        using refresh_one_other [OF \<open>cd_uri c \<noteq> cd_uri c'\<close>, of "cd_path c'" st x changed]
          \<open>candidate_ok st c'\<close> s by (simp add: candidate_ok_def)
    next
      case False
      then show ?thesis by (auto simp: candidate_ok_def)
    qed
  qed
  then show ?case using Cons.IH [OF ok1] Cons.prems(3) s by simp
qed simp

lemma refresh_ok:
  assumes "store_ok env st"
  shows "store_ok env (fst (refresh_disk_with env hook notify (st, x)))"
proof -
  have "\<forall>c \<in> set (refresh_candidates env st). candidate_ok st c"
    using refresh_candidatesD by (fastforce simp: candidate_ok_def waiting_at_def unloaded_at_def is_open_document_def)
  from refresh_fold_ok [OF assms this refresh_candidates_distinct] show ?thesis
    by (simp add: refresh_disk_with_def)
qed

end

lemma commit_waiting:
  assumes "waiting_at env u p st" "lookup_document st uri = Some d" "path_of env uri d = Some q"
    "read_bounded env q = Some t"
  shows "waiting_at env u p (commit_disk env uri d (Some q) old t st)"
  using assms by (auto simp: waiting_at_def unloaded_at_def commit_disk_def Let_def store_simps path_of_def)

lemma scan_one_waiting: "waiting_at env u p st \<Longrightarrow> waiting_at env u p (scan_one env uri st)"
  by (simp add: scan_one_def commit_waiting split: option.splits)

lemma module_uri_waiting: "waiting_at env u p st \<Longrightarrow> waiting_at env u p (snd (module_uri env m st))"
proof -
  have "waiting_at env u p s \<Longrightarrow> waiting_at env u p (fold (scan_one env) uris s)" for uris s
    by (induction uris arbitrary: s) (simp_all add: scan_one_waiting)
  then show "waiting_at env u p st \<Longrightarrow> ?thesis"
    by (simp add: module_uri_def scan_modules_for_def Let_def split: option.splits)
qed

lemma ensure_loaded_waiting:
  assumes "waiting_at env u p st"
  shows "waiting_at env u p (snd (ensure_loaded env uri st))"
proof -
  have ens: "waiting_at env u p (snd (ensure_document uri path st))" for path
    using assms by (auto simp: ensure_document_def waiting_at_def unloaded_at_def store_simps)
  show ?thesis
    using assms ens commit_waiting
    by (simp add: ensure_loaded_def Let_def split: option.splits sum.splits if_splits)
qed

lemma content_waiting: "waiting_at env u p st \<Longrightarrow> waiting_at env u p (snd (content env uri st))"
  using ensure_loaded_waiting [of env u p st uri]
  by (auto simp: content_def query_stored_def split: prod.splits sum.splits option.splits)

text \<open>The callback of \<open>refresh_disk\<close>; the service's own is in \<open>Service_Spec\<close>.\<close>

interpretation quiet: refresh_hook env quiet_hook notify for env notify
  by unfold_locales (simp_all add: quiet_hook_def)

section \<open>Reconciliation with a checkpoint\<close>

lemma reconcile_one_ok:
  assumes "store_ok env st"
  shows "store_ok env (fst (reconcile_one env checkpoint c (st, notified, changed)))"
proof -
  have "store_ok env (commit_disk env u d path (effective_module d) t st)"
    if "lookup_document st u = Some d" for u d path t
    using that by (intro commit_disk_ok [OF assms]) simp_all
  then show ?thesis using assms
    by (auto simp: reconcile_one_def Let_def elim!: store_ok_nextD split: option.splits prod.splits)
qed

lemma reconcile_ok:
  assumes "store_ok env st" "reconcile_checkpoint env checkpoint st = Some (r, st', n)"
  shows "store_ok env st'"
proof -
  have "store_ok env s \<Longrightarrow> store_ok env (fst (fold (reconcile_one env checkpoint) cs (s, a, b)))" for cs s a b
  proof (induction cs arbitrary: s a b)
    case (Cons c cs)
    obtain s' a' b' where r: "reconcile_one env checkpoint c (s, a, b) = (s', a', b')" by (metis prod_cases3)
    with reconcile_one_ok [OF Cons.prems, of checkpoint c a b] Cons.IH show ?case by simp
  qed simp
  then show ?thesis using assms
    by (auto simp: reconcile_checkpoint_def dest: discover_workspace_ok split: option.splits sum.splits prod.splits)
      (metis discover_workspace_ok fst_conv)+
qed

section \<open>Reachable stores\<close>

text \<open>
  Files appear, change and vanish between two operations, so each step has an environment of its
  own; all of them seal a text in the same way.
\<close>

definition same_sealing :: "environment \<Rightarrow> environment \<Rightarrow> bool" where
  "same_sealing env env' \<longleftrightarrow> env_identity env' = env_identity env \<and> env_module env' = env_module env"

lemma store_ok_same_sealing: "same_sealing env env' \<Longrightarrow> store_ok env' st = store_ok env st"
  by (simp add: store_ok_def document_sealed_def sealed_for_def seal_content_def same_sealing_def)

lemma same_sealing_refl [simp]: "same_sealing env env"
  by (simp add: same_sealing_def)

inductive store_reachable ::
  "environment \<Rightarrow> (string \<Rightarrow> nat \<Rightarrow> native_error + coordinate_chunk)
     \<Rightarrow> (string \<Rightarrow> native_error + coordinate_window) \<Rightarrow> document_store \<Rightarrow> bool"
  for env pc cw where
  reach_new: "store_reachable env pc cw (store_new root)"
| reach_root: "store_reachable env pc cw st \<Longrightarrow> store_reachable env pc cw (set_root root st)"
| reach_roots: "store_reachable env pc cw st \<Longrightarrow> store_reachable env pc cw (set_discovery_roots roots st)"
| reach_generation:
    "store_reachable env pc cw st \<Longrightarrow> store_reachable env pc cw (restore_generation_at_least v st)"
| reach_open: "store_reachable env pc cw st \<Longrightarrow> same_sealing env disk \<Longrightarrow> did_open disk uri version t st = (r, st', n) \<Longrightarrow>
    store_reachable env pc cw st'"
| reach_change: "store_reachable env pc cw st \<Longrightarrow> same_sealing env disk \<Longrightarrow>
    did_change_incremental disk pc cw uri version changes st = Inr (r, st', n) \<Longrightarrow> store_reachable env pc cw st'"
| reach_save: "store_reachable env pc cw st \<Longrightarrow> same_sealing env disk \<Longrightarrow> did_save disk uri saved st = (r, st', n) \<Longrightarrow>
    store_reachable env pc cw st'"
| reach_close: "store_reachable env pc cw st \<Longrightarrow> did_close uri st = (r, st', n) \<Longrightarrow> store_reachable env pc cw st'"
| reach_query: "store_reachable env pc cw st \<Longrightarrow> same_sealing env disk \<Longrightarrow> query_stored disk uri st = (r, st') \<Longrightarrow> store_reachable env pc cw st'"
| reach_module: "store_reachable env pc cw st \<Longrightarrow> same_sealing env disk \<Longrightarrow> module_uri disk m st = (r, st') \<Longrightarrow> store_reachable env pc cw st'"
| reach_discover: "store_reachable env pc cw st \<Longrightarrow> same_sealing env disk \<Longrightarrow> discover_workspace disk only_new st = Some (r, st') \<Longrightarrow>
    store_reachable env pc cw st'"
| reach_new_disk: "store_reachable env pc cw st \<Longrightarrow> same_sealing env disk \<Longrightarrow> load_new_disk disk uri st = (r, st') \<Longrightarrow>
    store_reachable env pc cw st'"
| reach_refresh: "store_reachable env pc cw st \<Longrightarrow> same_sealing env disk \<Longrightarrow> refresh_hook disk (hook :: unit change_hook) \<Longrightarrow>
    refresh_disk_with disk hook notify (st, ()) = (st', (), changed) \<Longrightarrow> store_reachable env pc cw st'"
| reach_reconcile: "store_reachable env pc cw st \<Longrightarrow> same_sealing env disk \<Longrightarrow> reconcile_checkpoint disk checkpoint st = Some (r, st', n) \<Longrightarrow>
    store_reachable env pc cw st'"

lemma store_reachable_ok: "store_reachable env pc cw st \<Longrightarrow> store_ok env st"
proof (induction rule: store_reachable.induct)
  case (reach_new root)
  show ?case by (auto simp: store_ok_def store_new_def claimants_def)
next
  case (reach_root st root)
  then show ?case using store_ok_cong [of "set_root root st" st env] by (simp add: set_root_def)
next
  case (reach_roots st roots)
  then show ?case using store_ok_cong [of "set_discovery_roots roots st" st env] by (simp add: set_discovery_roots_def)
next
  case (reach_generation st v)
  then show ?case
    using store_ok_cong [of "restore_generation_at_least v st" st env] by (simp add: restore_generation_at_least_def)
next
  case (reach_open st disk uri version t r st' n)
  then show ?case using did_open_ok [of disk st uri version t] by (simp add: store_ok_same_sealing)
next
  case (reach_change st disk uri version changes r st' n)
  then show ?case using did_change_incremental_ok [of disk] by (simp add: store_ok_same_sealing)
next
  case (reach_save st disk uri saved r st' n)
  then show ?case using did_save_ok [of disk st uri "saved"] by (simp add: store_ok_same_sealing)
next
  case (reach_close st uri r st' n)
  then show ?case using did_close_ok [of env st uri] by simp
next
  case (reach_query st disk uri r st')
  then show ?case using query_stored_ok [of disk st uri] by (simp add: store_ok_same_sealing)
next
  case (reach_module st disk m r st')
  then show ?case using module_uri_ok [of disk st m] by (simp add: store_ok_same_sealing)
next
  case (reach_discover st disk only_new r st')
  then show ?case using discover_workspace_ok [of disk] by (simp add: store_ok_same_sealing)
next
  case (reach_new_disk st disk uri r st')
  then show ?case using load_new_disk_ok [of disk st uri] by (simp add: store_ok_same_sealing)
next
  case (reach_refresh st disk hook notify st' changed)
  then show ?case using refresh_hook.refresh_ok [of disk hook st notify x] by (simp add: store_ok_same_sealing)
next
  case (reach_reconcile st disk checkpoint r st' n)
  then show ?case using reconcile_ok [of disk] by (simp add: store_ok_same_sealing)
qed

end
