(* ===== verification/Document_Props.thy ===== *)
theory Document_Props
  imports Document_Spec
begin

text \<open>The properties of the document store, over the invariant of \<open>Document_Spec\<close>.\<close>

section \<open>A concrete environment\<close>

text \<open>Two files, each of which declares the module its first word after \<open>module\<close> names.\<close>

definition sample_env :: environment where
  "sample_env =
     \<lparr>env_read = (\<lambda>p. if p = ''/a.mncs'' \<or> p = ''/b.mncs'' then ReadOk ''m'' else ReadNotFound ''missing''),
      env_is_file = (\<lambda>p. p = ''/a.mncs'' \<or> p = ''/b.mncs''), env_is_dir = (\<lambda>p. False),
      env_read_dir = (\<lambda>p. None),
      env_path_from_uri = (\<lambda>u. strip_prefix u ''file:''),
      env_path_to_uri = (\<lambda>p. ''file:'' @ p),
      env_identity = (\<lambda>u t. u @ ''#'' @ t),
      env_module = (\<lambda>t. if t = [] then None else Some t)\<rparr>"

text \<open>C20: In every store the service reaches by opening, changing, saving, closing, loading,
  discovering and refreshing documents, with the files changing freely between the operations, every stored text carries its own identity and declared
  module, and the module directory lists exactly the documents whose current content declares
  each module, with no empty entry left behind.\<close>

theorem store_directory_exact:
  assumes "store_reachable env pc cw st"
  shows "(\<forall>uri d c. lookup_document st uri = Some d \<longrightarrow> stored d = Some c \<longrightarrow>
            ct_identity c = env_identity env uri (ct_text c) \<and> ct_module c = env_module env (ct_text c)) \<and>
    (\<forall>m. bucket_members (ds_claims st) m =
       {uri. \<exists>d. lookup_document st uri = Some d \<and> effective_module d = Some m}) \<and>
    no_empty_bucket (ds_claims st)"
proof -
  have ok: "store_ok env st" by (rule store_reachable_ok [OF assms])
  have "ct_identity c = env_identity env uri (ct_text c) \<and> ct_module c = env_module env (ct_text c)"
    if "lookup_document st uri = Some d" "stored d = Some c" for uri d c
  proof -
    have "sealed_for env uri c" using ok that by (auto simp: store_ok_def intro: stored_sealed)
    then have "c = seal_content env uri (ct_text c)" by (simp add: sealed_for_def)
    then show ?thesis using seal_simps(2,3) [of env uri "ct_text c"] by simp
  qed
  then show ?thesis using ok by (auto simp: store_ok_def claimants_def)
qed

definition opened_store :: document_store where
  "opened_store = fst (snd (did_open sample_env ''file:/b.mncs'' 1 ''m'' (store_new None)))"

lemma opened_store_reachable: "store_reachable sample_env pc cw opened_store"
proof -
  obtain r st' n where e: "did_open sample_env ''file:/b.mncs'' 1 ''m'' (store_new None) = (r, st', n)"
    by (metis prod_cases3)
  then have "opened_store = st'" by (simp add: opened_store_def)
  with reach_open [OF reach_new same_sealing_refl e] show ?thesis by simp
qed

lemma store_directory_exact_witness:
  "bucket_members (ds_claims opened_store) ''m'' =
     {uri. \<exists>d. lookup_document opened_store uri = Some d \<and> effective_module d = Some ''m''}"
  using store_directory_exact [OF opened_store_reachable] by blast

section \<open>Module lookup\<close>

lemma bucket_first_claim:
  assumes "store_ok env st"
  shows "bucket_first (ds_claims st) m = Some uri \<Longrightarrow>
      uri \<in> claimants (ds_documents st) m \<and> (\<forall>u \<in> claimants (ds_documents st) m. uri \<le> u)"
    and "bucket_first (ds_claims st) m = None \<Longrightarrow> claimants (ds_documents st) m = {}"
  using assms bucket_first_Some [of "ds_claims st" m uri] bucket_first_None [of "ds_claims st" m]
  by (simp_all add: store_ok_def)

text \<open>C21: Looking a module up returns the least URI among the documents of the resulting store
  whose current content declares it, and nothing only when no document declares it.\<close>

theorem module_uri_least_claimant:
  assumes "store_reachable env pc cw st" "same_sealing env disk" "module_uri disk m st = (r, st')"
  shows "case r of
      Some uri \<Rightarrow> uri \<in> claimants (ds_documents st') m \<and> (\<forall>u \<in> claimants (ds_documents st') m. uri \<le> u)
    | None \<Rightarrow> claimants (ds_documents st') m = {}"
proof -
  have ok: "store_ok env st" by (rule store_reachable_ok [OF assms(1)])
  then have ok': "store_ok env st'"
    using module_uri_ok [of disk st m] assms(2,3) by (simp add: store_ok_same_sealing)
  have "r = bucket_first (ds_claims st') m"
    using assms(3) by (auto simp: module_uri_def scan_modules_for_def Let_def split: option.splits)
  then show ?thesis using bucket_first_claim [OF ok'] by (auto split: option.splits)
qed

lemma module_uri_least_claimant_witness:
  "''file:/b.mncs'' \<in> claimants (ds_documents opened_store) ''m''"
proof -
  have r: "module_uri sample_env ''m'' opened_store = (Some ''file:/b.mncs'', opened_store)"
    by (simp add: opened_store_def did_open_def next_generation_def sat_add64_def u64_max_def store_new_def
        Let_def seal_content_def sample_env_def strip_prefix_def bump_content_version_def
        set_document_def note_module_change_def module_uri_def bucket_first_def bucket_add_def
        bs_first_def bs_insert_def bt_update_default_def bt_keys_def max_document_bytes_def)
  from module_uri_least_claimant [OF opened_store_reachable same_sealing_refl r] show ?thesis by simp
qed

text \<open>A file that was opened and closed stays registered but is not loaded.\<close>

definition closed_store :: document_store where
  "closed_store =
     fst (snd (did_open sample_env ''file:/b.mncs'' 1 ''m''
       (fst (snd (did_close ''file:/a.mncs''
         (fst (snd (did_open sample_env ''file:/a.mncs'' 1 ''m'' (store_new None)))))))))"

lemma closed_store_reachable: "store_reachable sample_env pc cw closed_store"
proof -
  obtain r1 s1 n1 where 1: "did_open sample_env ''file:/a.mncs'' 1 ''m'' (store_new None) = (r1, s1, n1)"
    by (metis prod_cases3)
  obtain r2 s2 n2 where 2: "did_close ''file:/a.mncs'' s1 = (r2, s2, n2)" by (metis prod_cases3)
  obtain r3 s3 n3 where 3: "did_open sample_env ''file:/b.mncs'' 1 ''m'' s2 = (r3, s3, n3)" by (metis prod_cases3)
  have "closed_store = s3" by (simp add: closed_store_def 1 2 3)
  then show ?thesis using reach_open [OF reach_close [OF reach_open [OF reach_new same_sealing_refl 1] 2] same_sealing_refl 3] by simp
qed

lemmas store_eval = did_open_def did_close_def next_generation_def sat_add64_def u64_max_def store_new_def
  Let_def seal_content_def sample_env_def strip_prefix_def bump_content_version_def
  set_document_def note_module_change_def module_uri_def bucket_first_def bucket_add_def bucket_remove_def
  bs_first_def bs_insert_def bs_remove_def bt_update_default_def bt_keys_def max_document_bytes_def
  effective_module_def stored_def document_content_def

text \<open>The answer depends on which documents have been loaded: with two files that declare the
  same module, the least URI is not the answer while its file is only registered.\<close>

theorem module_uri_depends_on_loading:
  "\<exists>st. store_reachable sample_env pc cw st \<and> knows ''file:/a.mncs'' st \<and>
     fst (module_uri sample_env ''m'' st) = Some ''file:/b.mncs'' \<and>
     fst (module_uri sample_env ''m'' (snd (query_stored sample_env ''file:/a.mncs'' st))) = Some ''file:/a.mncs''"
proof (intro exI conjI)
  show "store_reachable sample_env pc cw closed_store" by (rule closed_store_reachable)
  show "knows ''file:/a.mncs'' closed_store"
    by (simp add: closed_store_def store_eval knows_def)
  show "fst (module_uri sample_env ''m'' closed_store) = Some ''file:/b.mncs''"
    by (simp add: closed_store_def store_eval)
  show "fst (module_uri sample_env ''m'' (snd (query_stored sample_env ''file:/a.mncs'' closed_store))) =
      Some ''file:/a.mncs''"
    by (simp add: closed_store_def store_eval query_stored_def ensure_loaded_def path_of_def
        is_open_document_def read_bounded_def commit_disk_def bs_is_empty_def)
qed

section \<open>The effect of the editor notifications\<close>

lemma next_generation_eq:
  "next_generation st = (sat_add64 (ds_generation st) 1, st\<lparr>ds_generation := (ds_generation st + 1) mod 2 ^ 64\<rparr>)"
  by (simp add: next_generation_def)

lemma query_loaded:
  "lookup_document st uri = Some d \<Longrightarrow> stored d = Some c \<Longrightarrow> query_stored env uri st = (Inr c, st)"
  by (simp add: query_stored_def ensure_loaded_def document_content_def)

text \<open>Opening or replacing a document of at most four mebibytes makes its text and identity
  current, takes the next generation, notifies exactly its URI and leaves every other document
  as it was; a larger text is refused and changes nothing.\<close>

theorem did_open_effect:
  assumes "did_open env uri version t st = (r, st', notified)"
  shows "if length t \<le> max_document_bytes then
      r = Inr (sat_add64 (ds_generation st) 1) \<and> notified = [uri] \<and>
      query_stored env uri st' = (Inr (seal_content env uri t), st') \<and>
      buffer_version uri st' = Inr (Some version) \<and>
      ds_generation st' = (ds_generation st + 1) mod 2 ^ 64 \<and>
      (\<forall>u. u \<noteq> uri \<longrightarrow> lookup_document st' u = lookup_document st u)
    else r = Inl too_large \<and> st' = st \<and> notified = []"
proof (cases "length t \<le> max_document_bytes")
  case True
  then obtain d where d: "lookup_document st' uri = Some d"
      "dc_buffer d = Some \<lparr>bf_version = version, bf_content = seal_content env uri t\<rparr>"
    and rest: "r = Inr (sat_add64 (ds_generation st) 1)" "notified = [uri]"
      "ds_generation st' = (ds_generation st + 1) mod 2 ^ 64"
      "\<forall>u. u \<noteq> uri \<longrightarrow> lookup_document st' u = lookup_document st u"
    using assms by (auto simp: did_open_def Let_def next_generation_eq store_simps)
  have "stored d = Some (seal_content env uri t)" by (simp add: stored_def d)
  with d rest True show ?thesis by (simp add: query_loaded buffer_version_def)
next
  case False
  then show ?thesis using assms by (auto simp: did_open_def)
qed

lemma did_open_effect_witness:
  "query_stored sample_env ''file:/b.mncs'' opened_store =
     (Inr (seal_content sample_env ''file:/b.mncs'' ''m''), opened_store)"
proof -
  obtain r st' n where e: "did_open sample_env ''file:/b.mncs'' 1 ''m'' (store_new None) = (r, st', n)"
    by (metis prod_cases3)
  then have "opened_store = st'" by (simp add: opened_store_def)
  with did_open_effect [OF e] show ?thesis by (simp add: max_document_bytes_def)
qed

text \<open>Closing a document that was opened from a file answers with no text, although the next
  query of the same document reads the file: the caller that takes the answer for the reverted
  content is told the document has none.\<close>

theorem did_close_forgets_file:
  assumes "did_open env uri version t st = (Inr g, st1, n1)" "did_close uri st1 = (r, st2, n2)"
    and "env_path_from_uri env uri = Some p" "lookup_document st uri = None" "read_bounded env p = Some u"
  shows "r = Inr None \<and> knows uri st2 \<and> fst (query_stored env uri st2) = Inr (seal_content env uri u)"
proof -
  have "length t \<le> max_document_bytes" using assms(1) by (auto simp: did_open_def split: if_splits)
  then have "lookup_document st1 uri = Some \<lparr>dc_path = Some p, dc_disk = None,
      dc_buffer = Some \<lparr>bf_version = version, bf_content = seal_content env uri t\<rparr>\<rparr>"
    using assms(1,3,4) by (auto simp: did_open_def Let_def next_generation_eq store_simps)
  then have "lookup_document st2 uri = Some \<lparr>dc_path = Some p, dc_disk = None, dc_buffer = None\<rparr>" "r = Inr None"
    using assms(2)
    by (auto simp: did_close_def Let_def next_generation_eq store_simps document_content_def stored_def)
  then show ?thesis using assms(5)
    by (simp add: knows_def query_stored_def ensure_loaded_def document_content_def stored_def
        is_open_document_def path_of_def commit_disk_def Let_def store_simps)
qed

lemma did_close_forgets_file_witness:
  "fst (did_close ''file:/b.mncs'' opened_store) = Inr None \<and>
   fst (query_stored sample_env ''file:/b.mncs'' (fst (snd (did_close ''file:/b.mncs'' opened_store)))) =
     Inr (seal_content sample_env ''file:/b.mncs'' ''m'')"
proof -
  obtain r1 s1 n1 where 1: "did_open sample_env ''file:/b.mncs'' 1 ''m'' (store_new None) = (r1, s1, n1)"
    by (metis prod_cases3)
  obtain r2 s2 n2 where 2: "did_close ''file:/b.mncs'' s1 = (r2, s2, n2)" by (metis prod_cases3)
  from 1 obtain g where g: "r1 = Inr g" by (auto simp: did_open_def Let_def max_document_bytes_def split: prod.splits)
  have o: "opened_store = s1" by (simp add: opened_store_def 1)
  have "r2 = Inr None \<and> knows ''file:/b.mncs'' s2 \<and>
      fst (query_stored sample_env ''file:/b.mncs'' s2) = Inr (seal_content sample_env ''file:/b.mncs'' ''m'')"
    using 1 by (intro did_close_forgets_file [OF 1 [unfolded g] 2, where p = "''/b.mncs''"])
      (simp_all add: sample_env_def strip_prefix_def store_new_def read_bounded_def max_document_bytes_def)
  then show ?thesis unfolding o 2 by simp
qed

text \<open>A change notification that holds a full replacement stores the text of its last full
  replacement, whatever ranged edits follow it: those edits are lost, where applying the changes
  in sequence would perform them.\<close>

theorem full_replacement_drops_later_edits:
  assumes "tc_range full = None" "\<forall>c \<in> set later. tc_range c \<noteq> None"
  shows "did_change_incremental env pc cw uri version (earlier @ full # later) st =
           Inr (did_open env uri version (tc_text full) st) \<and>
         apply_changes pc cw current (earlier @ full # later) =
           bind_result (apply_changes pc cw current earlier) (\<lambda>_. apply_changes pc cw (tc_text full) later)"
proof
  have "find (\<lambda>c. tc_range c = None) (rev (earlier @ full # later)) = Some full"
  proof -
    have "find (\<lambda>c. tc_range c = None) (cs @ full # ds) = Some full"
      if "\<forall>c \<in> set cs. tc_range c \<noteq> None" for cs ds
      using that assms(1) by (induction cs) auto
    then show ?thesis using assms(2) by simp
  qed
  moreover have "list_ex (\<lambda>c. tc_range c = None) (earlier @ full # later)" using assms(1) by simp
  ultimately show "did_change_incremental env pc cw uri version (earlier @ full # later) st =
      Inr (did_open env uri version (tc_text full) st)"
    by (simp add: did_change_incremental_def del: rev_append)
next
  show "apply_changes pc cw current (earlier @ full # later) =
      bind_result (apply_changes pc cw current earlier) (\<lambda>_. apply_changes pc cw (tc_text full) later)"
    using assms(1)
    by (induction earlier arbitrary: current) (auto simp: apply_one_def bind_result_def split: sum.splits)
qed

lemma full_replacement_drops_later_edits_witness:
  "\<forall>pc cw st. did_change_incremental sample_env pc cw ''file:/b.mncs'' 2
     ([] @ \<lparr>tc_range = None, tc_text = ''m''\<rparr> #
        [\<lparr>tc_range = Some \<lparr>tr_start_line = 0, tr_start_character = 0, tr_end_line = 0, tr_end_character = 0\<rparr>,
          tc_text = ''x''\<rparr>]) st =
   Inr (did_open sample_env ''file:/b.mncs'' 2 ''m'' st)"
proof (intro allI)
  fix pc cw st
  show "did_change_incremental sample_env pc cw ''file:/b.mncs'' 2
     ([] @ \<lparr>tc_range = None, tc_text = ''m''\<rparr> #
        [\<lparr>tc_range = Some \<lparr>tr_start_line = 0, tr_start_character = 0, tr_end_line = 0, tr_end_character = 0\<rparr>,
          tc_text = ''x''\<rparr>]) st =
   Inr (did_open sample_env ''file:/b.mncs'' 2 ''m'' st)"
  using full_replacement_drops_later_edits
    [of "\<lparr>tc_range = None, tc_text = ''m''\<rparr>"
      "[\<lparr>tc_range = Some \<lparr>tr_start_line = 0, tr_start_character = 0, tr_end_line = 0, tr_end_character = 0\<rparr>,
         tc_text = ''x''\<rparr>]" sample_env pc cw "''file:/b.mncs''" 2 "[]" st]
  by simp
qed

end
