(* ===== verification/Protocol.thy ===== *)
theory Protocol
  imports Coords Symbols
begin

text \<open>The response vocabulary of \<open>queries.rs\<close> and the edit records of \<open>rename.rs\<close>.\<close>

datatype response_status = Answered | StUnsupported string | StUnresolved string

record single_edit =
  sed_range :: range_info
  sed_new_text :: string

record file_edit =
  fed_uri :: string
  fed_edits :: "single_edit list"

record snapshot_info =
  sn_uri :: string
  sn_identity :: string
  sn_generation :: nat
  sn_profile :: string
  sn_current :: bool

record symbol_summary =
  ss_uri :: "string option"
  ss_name :: string
  ss_kind :: symbol_kind
  ss_identity :: "string option"
  ss_container :: "string option"
  ss_range :: range_info
  ss_name_range :: range_info
  ss_detail :: "string option"
  ss_type_name :: "string option"

end
