(* ===== verification/Format.thy ===== *)
theory Format
  imports Protocol
begin

text \<open>
  \<open>format.rs\<close>: the document formatter. \<open>scan_line\<close> slices the line at every byte it looks at,
  so a byte in the middle of a character panics; that is \<^const>\<open>None\<close> here.
\<close>

definition indent_width :: nat where
  "indent_width = 4"

definition trim_trailing :: "string \<Rightarrow> string" where
  "trim_trailing line = trim_end_chars {CHR '' '', CHR 0x09} line"

definition clause_words :: "string list" where
  "clause_words =
     [''requires'', ''ensures'', ''assumes'', ''property'', ''invariant'', ''metamorphic'',
      ''effect'', ''capability'', ''authorized_by'']"

definition is_clause_continuation :: "string \<Rightarrow> bool" where
  "is_clause_continuation line \<longleftrightarrow> trim_end_chars {CHR '':''} (first_word line) \<in> set clause_words"

text \<open>The \<open>match\<close> on one byte of code: \<open>seen_code\<close>, \<open>leading_closes\<close> and \<open>net\<close> after it.\<close>

definition scan_char :: "char \<Rightarrow> bool \<Rightarrow> nat \<Rightarrow> int \<Rightarrow> bool \<times> nat \<times> int" where
  "scan_char c seen_code leading_closes net =
     (if c = CHR ''{'' \<or> c = CHR ''['' then (True, leading_closes, net + 1)
      else if c = CHR ''}'' \<or> c = CHR '']'' then
        (True, if seen_code then leading_closes else leading_closes + 1, net - 1)
      else if c = CHR '' '' \<or> c = CHR 0x09 then (seen_code, leading_closes, net)
      else (True, leading_closes, net))"

text \<open>The loop of \<open>scan_line\<close>, with its five variables.\<close>

function scan_from :: "string \<Rightarrow> nat \<Rightarrow> bool \<Rightarrow> bool \<Rightarrow> nat \<Rightarrow> int \<Rightarrow> (nat \<times> int \<times> bool) option" where
  "scan_from line index in_block seen_code leading_closes net =
     (if index < length line then
        if in_block then
          (case slice_from line index of
             None \<Rightarrow> None
           | Some rest \<Rightarrow>
               if starts_with rest ''*/''
               then scan_from line (index + 2) False seen_code leading_closes net
               else scan_from line (index + 1) True seen_code leading_closes net)
        else
          (case slice_from line index of
             None \<Rightarrow> None
           | Some rest \<Rightarrow>
               if starts_with rest ''//'' then Some (min leading_closes 8, net, False)
               else if starts_with rest ''/*'' then scan_from line (index + 2) True seen_code leading_closes net
               else let (seen', leading', net') = scan_char (line ! index) seen_code leading_closes net
                    in scan_from line (index + 1) False seen' leading' net')
      else Some (min leading_closes 8, net, in_block))"
  by pat_completeness auto
termination
  by (relation "measure (\<lambda>(line, index, _). length line - index)") auto

declare scan_from.simps [simp del]

definition scan_line :: "string \<Rightarrow> bool \<Rightarrow> (nat \<times> int \<times> bool) option" where
  "scan_line line in_block = scan_from line 0 in_block False 0 0"

text \<open>One iteration of the line loop: the output line and the state it leaves.\<close>

definition format_line :: "nat \<Rightarrow> bool \<Rightarrow> string \<Rightarrow> (string \<times> nat \<times> bool) option" where
  "format_line depth in_block line =
     (let trimmed = trim_trailing line
      in if trim trimmed = [] then Some ([], depth, in_block)
         else case scan_line trimmed in_block of
             None \<Rightarrow> None
           | Some (leading, net, block_end) \<Rightarrow>
               let indent = depth - leading + (if is_clause_continuation trimmed then 1 else 0)
               in Some (replicate (indent * indent_width) (CHR '' '') @ trim_start trimmed,
                        nat (max (int depth + net) 0), block_end))"

fun format_lines :: "nat \<Rightarrow> bool \<Rightarrow> string list \<Rightarrow> string list option" where
  "format_lines depth in_block [] = Some []"
| "format_lines depth in_block (l # ls) =
     (case format_line depth in_block l of
        None \<Rightarrow> None
      | Some (out, depth', block') \<Rightarrow> map_option ((#) out) (format_lines depth' block' ls))"

text \<open>The blank-run counter of the collapsing loop.\<close>

fun collapse :: "nat \<Rightarrow> string list \<Rightarrow> string list" where
  "collapse blanks [] = []"
| "collapse blanks (l # ls) =
     (if l = [] then (if blanks + 1 \<le> 1 then l # collapse (blanks + 1) ls else collapse (blanks + 1) ls)
      else l # collapse 0 ls)"

definition drop_outer_blanks :: "string list \<Rightarrow> string list" where
  "drop_outer_blanks ls = rev (dropWhile (\<lambda>l. l = []) (rev (dropWhile (\<lambda>l. l = []) ls)))"

definition crlf :: string where
  "crlf = [CHR 0x0D, CHR 0x0A]"

definition input_lines :: "string \<Rightarrow> string list" where
  "input_lines txt =
     (let ls = split_char (CHR 0x0A) (replace_str crlf [CHR 0x0A] txt)
      in if last ls = [] then butlast ls else ls)"

definition format_text :: "string \<Rightarrow> string option" where
  "format_text txt =
     (if txt = [] then Some []
      else case format_lines 0 False (input_lines txt) of
          None \<Rightarrow> None
        | Some out \<Rightarrow>
            let result = join_str [CHR 0x0A] (drop_outer_blanks (collapse 0 out)) @ [CHR 0x0A]
            in Some (if contains_str txt crlf then replace_str [CHR 0x0A] crlf result else result))"

section \<open>Responses\<close>

record formatting_response =
  fr_status :: response_status
  fr_text :: string
  fr_already_formatted :: bool

record range_formatting_response =
  rf_status :: response_status
  rf_changes :: "file_edit list"
  rf_already_formatted :: bool

text \<open>The body of \<open>formatting\<close> after the snapshot: \<open>txt\<close> is the snapshot's text.\<close>

definition formatting_of :: "string \<Rightarrow> formatting_response option" where
  "formatting_of txt =
     map_option (\<lambda>formatted. \<lparr>fr_status = Answered, fr_text = formatted,
                              fr_already_formatted = (formatted = txt)\<rparr>) (format_text txt)"

text \<open>
  The edits of \<open>range_formatting\<close>: whole lines of the range whose text changes. \<open>offset\<close> and
  \<open>range_at\<close> are \<open>offset_of\<close> and \<open>range_of\<close> on the snapshot's position map.
\<close>

fun range_edits ::
  "(nat \<Rightarrow> panic + nat) \<Rightarrow> (nat \<Rightarrow> nat \<Rightarrow> panic + range_info) \<Rightarrow> nat \<Rightarrow> nat \<Rightarrow> nat
     \<Rightarrow> (string \<times> string) list \<Rightarrow> panic + single_edit list" where
  "range_edits offset range_at first_line last_line index [] = Inr []"
| "range_edits offset range_at first_line last_line index ((old, new) # rest) =
     (if as_u32 index < first_line \<or> as_u32 index > last_line \<or> old = new
      then range_edits offset range_at first_line last_line (index + 1) rest
      else bind_result (offset (as_u32 index)) (\<lambda>start_byte.
           bind_result (range_at start_byte (start_byte + length old)) (\<lambda>r.
           bind_result (range_edits offset range_at first_line last_line (index + 1) rest) (\<lambda>es.
             Inr (\<lparr>sed_range = r, sed_new_text = new\<rparr> # es)))))"

definition range_formatting_of ::
  "(string \<Rightarrow> nat \<Rightarrow> native_error + coordinate_chunk) \<Rightarrow> (string \<Rightarrow> native_error + coordinate_window)
     \<Rightarrow> string \<Rightarrow> string \<Rightarrow> nat \<Rightarrow> nat \<Rightarrow> panic + range_formatting_response" where
  "range_formatting_of pc cw uri current start_line end_line =
     (case format_text current of
        None \<Rightarrow> Inl IndexPanic
      | Some formatted \<Rightarrow>
          if formatted = current then
            Inr \<lparr>rf_status = Answered, rf_changes = [], rf_already_formatted = True\<rparr>
          else
            let first_line = min start_line end_line; last_line = max start_line end_line;
                current_lines = split_char (CHR 0x0A) current;
                formatted_lines = split_char (CHR 0x0A) formatted
            in if length current_lines \<noteq> length formatted_lines then
                 Inr \<lparr>rf_status = StUnsupported
                        ''the formatted output changes line breaks outside a whole-line mapping; use document formatting'',
                      rf_changes = [], rf_already_formatted = False\<rparr>
               else
                 let pm = pm_new current
                 in bind_result
                      (range_edits (\<lambda>line. offset_of pc cw pm current line 0)
                         (\<lambda>a b. range_of pc cw pm current (SourceSpan a b 0 0))
                         first_line last_line 0 (zip current_lines formatted_lines))
                      (\<lambda>edits. Inr \<lparr>rf_status = Answered,
                                    rf_changes = (if edits = [] then []
                                                  else [\<lparr>fed_uri = uri, fed_edits = edits\<rparr>]),
                                    rf_already_formatted = (edits = [])\<rparr>))"

end
