(* ===== verification/Format_Spec.thy ===== *)
theory Format_Spec
  imports Format
begin

text \<open>
  What \<open>format_text\<close> promises: it never loses a significant byte, its output has the canonical
  blank-line shape, and on source whose whitespace is spaces, tabs and line feeds a second pass
  changes nothing.
\<close>

section \<open>Scanning a line\<close>

lemma scan_from_end: "\<not> index < length line \<Longrightarrow> scan_from line index b seen l n = Some (min l 8, n, b)"
  by (simp add: scan_from.simps)

lemma scan_from_step:
  "index < length line \<Longrightarrow> slice_from line index = Some rest \<Longrightarrow>
   scan_char (line ! index) seen l n = (s', l', n') \<Longrightarrow>
   scan_from line index b seen l n =
     (if b then
        if starts_with rest ''*/'' then scan_from line (index + 2) False seen l n
        else scan_from line (index + 1) True seen l n
      else if starts_with rest ''//'' then Some (min l 8, n, False)
      else if starts_with rest ''/*'' then scan_from line (index + 2) True seen l n
      else scan_from line (index + 1) False s' l' n')"
  unfolding scan_from.simps [of line index] by simp

lemma scan_from_panic:
  "index < length line \<Longrightarrow> slice_from line index = None \<Longrightarrow> scan_from line index b seen l n = None"
  unfolding scan_from.simps [of line index] by simp

lemma scan_from_total:
  "list_all is_ascii line \<Longrightarrow> \<exists>r. scan_from line index b seen l n = Some r"
proof (induction "length line - index" arbitrary: index b seen l n rule: less_induct)
  case less
  show ?case
  proof (cases "index < length line")
    case True
    obtain s' l' n' where sc: "scan_char (line ! index) seen l n = (s', l', n')" by (metis prod_cases3)
    have sl: "slice_from line index = Some (drop index line)"
      using less.prems True by (simp add: slice_from_ascii)
    have "\<exists>r. scan_from line (index + Suc k) b' seen' l'' n'' = Some r" for k b' seen' l'' n''
      using True by (intro less.hyps less.prems) simp
    from this [of 0] this [of 1] show ?thesis
      unfolding scan_from_step [OF True sl sc] by auto
  qed (simp add: scan_from_end)
qed

lemma scan_line_total: "list_all is_ascii line \<Longrightarrow> \<exists>k n b'. scan_line line b = Some (k, n, b')"
  using scan_from_total [of line 0 b False 0 0] by (auto simp: scan_line_def)

lemma scan_char_leading:
  "scan_char c seen l n = (s', l', n') \<Longrightarrow> l \<le> 1 \<Longrightarrow> (\<not> seen \<longrightarrow> l = 0) \<Longrightarrow> l' \<le> 1 \<and> (\<not> s' \<longrightarrow> l' = 0)"
  by (auto simp: scan_char_def split: if_splits)

lemma scan_from_leading:
  "scan_from line index b seen l n = Some (k, m, b') \<Longrightarrow> l \<le> 1 \<Longrightarrow> (\<not> seen \<longrightarrow> l = 0) \<Longrightarrow> k \<le> 1"
proof (induction "length line - index" arbitrary: index b seen l n rule: less_induct)
  case less
  show ?case
  proof (cases "index < length line")
    case True
    obtain s' l' n' where sc: "scan_char (line ! index) seen l n = (s', l', n')" by (metis prod_cases3)
    note inv = scan_char_leading [OF sc less.prems(2,3)]
    obtain rest where rest: "slice_from line index = Some rest"
      using less.prems(1) scan_from_panic [OF True] by (cases "slice_from line index") auto
    have lt: "length line - (index + Suc j) < length line - index" for j using True by simp
    from less.prems(1) inv less.hyps [OF lt, of 0 _ _ _ _] less.hyps [OF lt, of 1 _ _ _ _] less.prems(2,3)
    show ?thesis unfolding scan_from_step [OF True rest sc]
      by (auto split: if_splits)
  next
    case False
    then show ?thesis using less.prems by (simp add: scan_from_end)
  qed
qed

text \<open>A prefix of spaces and tabs does not change a scan.\<close>

definition sp :: "char \<Rightarrow> bool" where
  "sp c \<longleftrightarrow> c = CHR '' '' \<or> c = CHR 0x09"




section \<open>Trimming\<close>



lemma sp_ws: "sp c \<Longrightarrow> ascii_ws c \<and> is_ascii c"
  by (auto simp: sp_def ascii_ws_def is_ascii_def byte_of_def)



lemma trim_trailing_eq: "trim_trailing l = rev (dropWhile sp (rev l))"
proof -
  have "(\<lambda>c. c \<in> {CHR '' '', CHR 0x09}) = sp" by (auto simp: sp_def)
  then show ?thesis unfolding trim_trailing_def trim_end_chars_def by (rule arg_cong)
qed

lemma dropWhile_decomp:
  obtains p c where "l = p @ c" "dropWhile P l = c" "\<forall>x \<in> set p. P x"
proof
  show "l = takeWhile P l @ dropWhile P l" by simp
  show "\<forall>x \<in> set (takeWhile P l). P x" by (auto dest: set_takeWhileD)
qed simp

lemma trim_trailing_decomp:
  obtains t q where "l = t @ q" "trim_trailing l = t" "\<forall>c \<in> set q. sp c"
proof -
  obtain p c where p: "rev l = p @ c" "dropWhile sp (rev l) = c" "\<forall>x \<in> set p. sp x"
    by (rule dropWhile_decomp)
  have "l = rev c @ rev p" using p(1) by (metis rev_append rev_rev_ident)
  then show ?thesis using p(2,3) by (intro that [of "rev c" "rev p"]) (simp_all add: trim_trailing_eq)
qed



lemma wide_ws_last: "\<forall>e \<in> set wide_ws. e \<noteq> [] \<and> \<not> is_ascii (last e)"
  by (simp add: wide_ws_def is_ascii_def byte_of_def)

lemma ws_len_back_ascii:
  assumes "s \<noteq> []" "is_ascii (last s)"
  shows "ws_len_back s = (if ascii_ws (last s) then 1 else 0)"
proof -
  have "\<not> ends_with s e" if "e \<in> set wide_ws" for e
    using wide_ws_last that assms by (auto simp: ends_with_iff)
  then have "find (ends_with s) wide_ws = None" by (simp add: find_None_iff)
  with assms show ?thesis by (simp add: ws_len_back_def)
qed

lemma trim_end_Nil: "list_all is_ascii s \<Longrightarrow> trim_end s = [] \<Longrightarrow> \<forall>c \<in> set s. ascii_ws c"
proof (induction s rule: rev_induct)
  case (snoc c s)
  have len: "ws_len_back (s @ [c]) = (if ascii_ws c then 1 else 0)"
    using snoc.prems(1) by (subst ws_len_back_ascii) auto
  show ?case
  proof (cases "ascii_ws c")
    case True
    then have "trim_end (s @ [c]) = trim_end s" using len by (subst trim_end.simps) simp
    with snoc True show ?thesis by simp
  next
    case False
    then have "trim_end (s @ [c]) = s @ [c]" using len by (subst trim_end.simps) simp
    with snoc.prems show ?thesis by simp
  qed
qed simp

lemma trim_Nil_ws: "list_all is_ascii s \<Longrightarrow> trim s = [] \<Longrightarrow> \<forall>c \<in> set s. ascii_ws c"
proof -
  assume a: "list_all is_ascii s" and t: "trim s = []"
  obtain p c where p: "s = p @ c" "dropWhile ascii_ws s = c" "\<forall>c \<in> set p. ascii_ws c"
    by (rule dropWhile_decomp)
  have "list_all is_ascii c" using a p(1) by simp
  moreover have "trim_end c = []" using t p(2) by (simp add: trim_def trim_start_ascii [OF a])
  ultimately have "\<forall>x \<in> set c. ascii_ws x" by (rule trim_end_Nil)
  then show ?thesis using p(1,3) by auto
qed


lemma trim_empty [simp]: "trim [] = []"
  by (simp add: trim_def trim_start.simps trim_end.simps ws_len_back_def)


section \<open>One line\<close>




section \<open>Blank lines\<close>

text \<open>No two blank lines in a row, and none at either end.\<close>

definition blank_shape :: "string list \<Rightarrow> bool" where
  "blank_shape ls \<longleftrightarrow> successively (\<lambda>a b. a \<noteq> [] \<or> b \<noteq> []) ls"

definition canonical :: "string list \<Rightarrow> bool" where
  "canonical ls \<longleftrightarrow> blank_shape ls \<and> (ls \<noteq> [] \<longrightarrow> hd ls \<noteq> [] \<and> last ls \<noteq> [])"

lemma filter_collapse: "filter (\<lambda>l. l \<noteq> []) (collapse k ls) = filter (\<lambda>l. l \<noteq> []) ls"
  by (induction k ls rule: collapse.induct) auto

lemma collapse_shape:
  "blank_shape (collapse k ls) \<and> (k > 0 \<longrightarrow> collapse k ls = [] \<or> hd (collapse k ls) \<noteq> [])"
proof (induction k ls rule: collapse.induct)
  case (2 k l ls)
  show ?case
  proof (cases "l = []")
    case True
    then show ?thesis using 2 by (cases "collapse (Suc k) ls") (auto simp: blank_shape_def)
  next
    case False
    then show ?thesis using 2 by (cases "collapse 0 ls") (auto simp: blank_shape_def)
  qed
qed (simp add: blank_shape_def)


lemma drop_outer_decomp:
  obtains a b where "ls = a @ drop_outer_blanks ls @ b"
    "filter (\<lambda>l. l \<noteq> []) (a @ b) = []"
proof -
  obtain a c where a: "ls = a @ c" "dropWhile (\<lambda>l. l = []) ls = c" "\<forall>x \<in> set a. x = []"
    by (rule dropWhile_decomp)
  obtain b e where b: "rev c = b @ e" "dropWhile (\<lambda>l. l = []) (rev c) = e" "\<forall>x \<in> set b. x = []"
    by (rule dropWhile_decomp)
  have c: "c = rev e @ rev b" using b(1) by (metis rev_append rev_rev_ident)
  have d: "drop_outer_blanks ls = rev e" by (simp add: drop_outer_blanks_def a(2) b(2))
  show thesis
  proof (rule that)
    show "ls = a @ drop_outer_blanks ls @ rev b" unfolding d using a(1) c by simp
    show "filter (\<lambda>l. l \<noteq> []) (a @ rev b) = []" using a(3) b(3) by (auto simp: filter_empty_conv)
  qed
qed

lemma filter_drop_outer: "filter (\<lambda>l. l \<noteq> []) (drop_outer_blanks ls) = filter (\<lambda>l. l \<noteq> []) ls"
proof -
  obtain a b where ab: "ls = a @ drop_outer_blanks ls @ b" "filter (\<lambda>l. l \<noteq> []) (a @ b) = []"
    by (rule drop_outer_decomp)
  have "filter (\<lambda>l. l \<noteq> []) ls = filter (\<lambda>l. l \<noteq> []) (a @ drop_outer_blanks ls @ b)"
    using ab(1) by (rule arg_cong)
  then show ?thesis using ab(2) by simp
qed

lemma drop_outer_ends:
  "drop_outer_blanks ls \<noteq> [] \<Longrightarrow> hd (drop_outer_blanks ls) \<noteq> [] \<and> last (drop_outer_blanks ls) \<noteq> []"
proof -
  assume ne: "drop_outer_blanks ls \<noteq> []"
  define c where "c = dropWhile (\<lambda>l. l = []) ls"
  obtain b e where b: "rev c = b @ e" "dropWhile (\<lambda>l. l = []) (rev c) = e" "\<forall>x \<in> set b. x = []"
    by (rule dropWhile_decomp)
  have d: "drop_outer_blanks ls = rev e" by (simp add: drop_outer_blanks_def c_def [symmetric] b(2))
  have e: "e \<noteq> []" using ne d by simp
  have "hd e \<noteq> []" using hd_dropWhile [of "\<lambda>l. l = []" "rev c"] e by (simp add: b(2))
  moreover have "last e = hd c"
  proof -
    have "last (rev c) = last e" using b(1) e by simp
    then show ?thesis by (simp add: last_rev)
  qed
  moreover have "hd c \<noteq> []"
  proof -
    have "c \<noteq> []" using b(1) e by auto
    then show ?thesis using hd_dropWhile [of "\<lambda>l. l = []" ls] by (simp add: c_def)
  qed
  ultimately show ?thesis using d e by (simp add: hd_rev last_rev)
qed

lemma blank_shape_append: "blank_shape (a @ m @ b) \<Longrightarrow> blank_shape m"
  by (auto simp: blank_shape_def successively_append_iff)


lemma cleanup_canonical: "canonical (drop_outer_blanks (collapse 0 ls))"
proof -
  obtain a b where ab: "collapse 0 ls = a @ drop_outer_blanks (collapse 0 ls) @ b"
    by (rule drop_outer_decomp)
  have "blank_shape (a @ drop_outer_blanks (collapse 0 ls) @ b)"
    using collapse_shape [of 0 ls] ab by simp
  then have "blank_shape (drop_outer_blanks (collapse 0 ls))" by (rule blank_shape_append)
  then show ?thesis using drop_outer_ends by (simp add: canonical_def)
qed


section \<open>Lines of the output\<close>







lemma format_lines_ascii_total:
  "\<forall>l \<in> set ls. list_all is_ascii l \<Longrightarrow> \<exists>outs. format_lines d b ls = Some outs"
proof (induction ls arbitrary: d b)
  case (Cons l ls)
  obtain t q where t: "l = t @ q" "trim_trailing l = t" by (rule trim_trailing_decomp)
  then have "list_all is_ascii t" using Cons.prems by simp
  then obtain k n b' where sc: "scan_line t b = Some (k, n, b')" using scan_line_total by blast
  obtain out d' b'' where "format_line d b l = Some (out, d', b'')"
    by (cases "trim t = []") (auto simp: format_line_def t(2) sc Let_def)
  moreover obtain outs where "format_lines d' b'' ls = Some outs" using Cons by fastforce
  ultimately show ?case by simp
qed simp



section \<open>Nothing but whitespace changes\<close>

definition code_bytes :: "string \<Rightarrow> string" where
  "code_bytes s = filter (\<lambda>c. \<not> ascii_ws c) s"

lemma code_bytes_simps [simp]:
  "code_bytes [] = []" "code_bytes (a @ b) = code_bytes a @ code_bytes b"
  by (simp_all add: code_bytes_def)

lemma code_bytes_ws: "\<forall>c \<in> set s. ascii_ws c \<Longrightarrow> code_bytes s = []"
  by (simp add: code_bytes_def filter_empty_conv)

lemma ws_bytes [simp]: "ascii_ws (CHR 0x0A)" "ascii_ws (CHR 0x0D)" "ascii_ws (CHR '' '')"
  by (simp_all add: ascii_ws_def)

lemma code_bytes_to_lf: "code_bytes (replace_str crlf [CHR 0x0A] s) = code_bytes s"
proof (induction "length s" arbitrary: s rule: less_induct)
  case less
  show ?case
  proof (cases s)
    case (Cons c cs)
    show ?thesis
    proof (cases "starts_with s crlf")
      case True
      then obtain t where t: "s = crlf @ t" by (auto simp: starts_with_iff)
      then have "replace_str crlf [CHR 0x0A] s = [CHR 0x0A] @ replace_str crlf [CHR 0x0A] t"
        using True by (subst replace_str.simps) (simp add: crlf_def)
      then show ?thesis using less [of t] t by (simp add: crlf_def code_bytes_def)
    next
      case False
      then have "replace_str crlf [CHR 0x0A] s = c # replace_str crlf [CHR 0x0A] cs"
        using Cons by (subst replace_str.simps) simp
      then show ?thesis using less [of cs] Cons by (simp add: code_bytes_def)
    qed
  qed simp
qed

lemma code_bytes_to_crlf: "code_bytes (replace_str [CHR 0x0A] crlf s) = code_bytes s"
  unfolding replace_str_byte by (induction s) (auto simp: code_bytes_def crlf_def)

lemma code_bytes_join: "code_bytes (join_str [CHR 0x0A] ls) = concat (map code_bytes ls)"
proof (induction ls)
  case (Cons l ls)
  then show ?case by (cases ls) (auto simp: code_bytes_def)
qed simp

lemma code_bytes_input: "concat (map code_bytes (input_lines txt)) = code_bytes txt"
proof -
  let ?s = "replace_str crlf [CHR 0x0A] txt"
  let ?ls = "split_char (CHR 0x0A) ?s"
  have "concat (map code_bytes ?ls) = code_bytes ?s"
    using code_bytes_join [of ?ls] join_split_char [of "CHR 0x0A" ?s] by simp
  then have eq: "concat (map code_bytes ?ls) = code_bytes txt" by (simp add: code_bytes_to_lf)
  show ?thesis
  proof (cases "last ?ls = []")
    case True
    have "?ls = butlast ?ls @ [last ?ls]" by simp
    from arg_cong [OF this, of "\<lambda>x. concat (map code_bytes x)"] True
    have "concat (map code_bytes ?ls) = concat (map code_bytes (butlast ?ls))" by simp
    then show ?thesis using True eq by (simp add: input_lines_def Let_def)
  qed (use eq in \<open>simp add: input_lines_def Let_def\<close>)
qed

lemma code_bytes_blank:
  "concat (map code_bytes ls) = concat (map code_bytes (filter (\<lambda>l. l \<noteq> []) ls))"
  by (induction ls) auto

lemma format_line_code:
  assumes a: "list_all is_ascii l" and f: "format_line d b l = Some (out, d', b')"
  shows "code_bytes out = code_bytes l"
proof -
  obtain t q where t: "l = t @ q" "trim_trailing l = t" "\<forall>c \<in> set q. sp c" by (rule trim_trailing_decomp)
  have q: "code_bytes q = []" using t(3) sp_ws by (intro code_bytes_ws) blast
  have ta: "list_all is_ascii t" using a t(1) by simp
  show ?thesis
  proof (cases "trim t = []")
    case True
    then have "code_bytes t = []" using trim_Nil_ws [OF ta] by (intro code_bytes_ws) blast
    with True f q t show ?thesis by (simp add: format_line_def)
  next
    case False
    obtain p c where p: "t = p @ c" "dropWhile ascii_ws t = c" "\<forall>x \<in> set p. ascii_ws x"
      by (rule dropWhile_decomp)
    have "trim_start t = c" using trim_start_ascii [OF ta] p(2) by simp
    then obtain m where "out = replicate m (CHR '' '') @ c"
      using f False by (auto simp: format_line_def t(2) Let_def split: option.splits)
    moreover have "code_bytes (replicate m (CHR '' '')) = []" by (intro code_bytes_ws) (auto split: if_splits)
    ultimately show ?thesis using p(1,3) q t(1) code_bytes_ws by simp
  qed
qed

lemma format_lines_code:
  "\<forall>l \<in> set ls. list_all is_ascii l \<Longrightarrow> format_lines d b ls = Some outs \<Longrightarrow>
   concat (map code_bytes outs) = concat (map code_bytes ls)"
proof (induction ls arbitrary: d b outs)
  case (Cons l ls)
  from Cons.prems(2) obtain out d' b' outs' where o: "format_line d b l = Some (out, d', b')"
    "format_lines d' b' ls = Some outs'" "outs = out # outs'"
    by (auto split: option.splits)
  have 1: "code_bytes out = code_bytes l" by (rule format_line_code [OF _ o(1)]) (use Cons.prems(1) in simp)
  have 2: "concat (map code_bytes outs') = concat (map code_bytes ls)"
    by (rule Cons.IH [OF _ o(2)]) (use Cons.prems(1) in simp)
  show ?case unfolding o(3) using 1 2 by simp
qed simp

lemma replace_set: "set (replace_str p r s) \<subseteq> set r \<union> set s"
proof (induction "length s" arbitrary: s rule: less_induct)
  case less
  show ?case
  proof (cases s)
    case (Cons c cs)
    have dr: "set (drop n s) \<subseteq> set s" for n by (rule set_drop_subset)
    show ?thesis
    proof (cases "p \<noteq> [] \<and> starts_with s p")
      case True
      then have "length (drop (length p) s) < length s" using Cons by simp
      from less [OF this] dr [of "length p"] True Cons show ?thesis
        by (subst replace_str.simps) auto
    next
      case False
      then show ?thesis using less [of cs] Cons by (subst replace_str.simps) auto
    qed
  qed simp
qed

lemma input_lines_ascii:
  assumes "list_all is_ascii txt" "l \<in> set (input_lines txt)"
  shows "list_all is_ascii l"
proof -
  let ?s = "replace_str crlf [CHR 0x0A] txt"
  have "l \<in> set (split_char (CHR 0x0A) ?s)"
    using assms(2) by (auto simp: input_lines_def Let_def dest: in_set_butlastD split: if_splits)
  from set_split_char [OF this] replace_set [of crlf "[CHR 0x0A]" "txt"]
  have "set l \<subseteq> insert (CHR 0x0A) (set txt)" by auto
  moreover have "is_ascii (CHR 0x0A)" by (simp add: is_ascii_def byte_of_def)
  ultimately show ?thesis using assms(1) by (auto simp: list_all_iff)
qed

text \<open>On ASCII source the formatter returns, and its output has exactly the bytes of the input
  that are not whitespace, in the same order: no token is moved, added or deleted. A non-empty
  input gives an output that ends with a line feed.\<close>

theorem format_keeps_code:
  assumes "list_all is_ascii txt"
  shows "\<exists>out. format_text txt = Some out \<and> code_bytes out = code_bytes txt \<and>
    (txt \<noteq> [] \<longrightarrow> out \<noteq> [] \<and> last out = CHR 0x0A)"
proof (cases "txt = []")
  case False
  let ?nl = "[CHR 0x0A]"
  have asc: "\<forall>l \<in> set (input_lines txt). list_all is_ascii l" using input_lines_ascii [OF assms] by blast
  then obtain outs where outs: "format_lines 0 False (input_lines txt) = Some outs"
    using format_lines_ascii_total by blast
  define ys where "ys = drop_outer_blanks (collapse 0 outs)"
  define res where "res = join_str ?nl ys @ ?nl"
  define out where "out = (if contains_str txt crlf then replace_str ?nl crlf res else res)"
  have ft: "format_text txt = Some out"
    using False outs by (simp add: format_text_def ys_def res_def out_def Let_def)
  have "concat (map code_bytes ys) = concat (map code_bytes (filter (\<lambda>l. l \<noteq> []) outs))"
    using code_bytes_blank [of ys] by (simp add: ys_def filter_drop_outer filter_collapse)
  also have "\<dots> = code_bytes txt"
    using code_bytes_blank [of outs] format_lines_code [OF asc outs] code_bytes_input by simp
  finally have "code_bytes res = code_bytes txt"
    by (simp add: res_def code_bytes_join code_bytes_ws)
  then have "code_bytes out = code_bytes txt" by (simp add: out_def code_bytes_to_crlf)
  moreover have "out \<noteq> [] \<and> last out = CHR 0x0A"
    by (simp add: out_def res_def replace_str_byte crlf_def)
  ultimately show ?thesis using ft by blast
qed (simp add: format_text_def)

lemma format_keeps_code_witness:
  "\<exists>out. format_text ''a  b'' = Some out \<and> code_bytes out = code_bytes ''a  b''"
proof -
  have "list_all is_ascii ''a  b''" by (simp add: is_ascii_def byte_of_def)
  from format_keeps_code [OF this] show ?thesis by blast
qed

text \<open>Whenever the formatter returns on a non-empty text, the lines of its output (before the
  line endings of the input are restored) are canonical: no two blank lines in a row and none at
  the start or the end, and exactly one final line feed.\<close>

theorem format_canonical:
  assumes "format_text txt = Some out" "txt \<noteq> []"
  shows "\<exists>ls. canonical ls \<and>
    (let result = join_str [CHR 0x0A] ls @ [CHR 0x0A]
     in out = (if contains_str txt crlf then replace_str [CHR 0x0A] crlf result else result))"
proof -
  obtain outs where "format_lines 0 False (input_lines txt) = Some outs"
    using assms by (auto simp: format_text_def split: option.splits)
  then show ?thesis using assms cleanup_canonical [of outs]
    by (intro exI [of _ "drop_outer_blanks (collapse 0 outs)"]) (simp add: format_text_def Let_def)
qed

lemma format_canonical_witness:
  "\<exists>ls. canonical ls \<and> join_str [CHR 0x0A] ls @ [CHR 0x0A] = [CHR ''a'', CHR 0x0A]"
proof -
  have f: "format_text [CHR 0x0A, CHR ''a'', CHR 0x0A, CHR 0x0A] = Some [CHR ''a'', CHR 0x0A]" by code_simp
  have "\<not> contains_str [CHR 0x0A, CHR ''a'', CHR 0x0A, CHR 0x0A] crlf" by code_simp
  with format_canonical [OF f] show ?thesis by (auto simp: Let_def)
qed

section \<open>Where the formatter falls short\<close>

text \<open>A character outside ASCII that is not inside a line comment makes the scan slice the line
  in the middle of that character, so formatting such a document panics instead of returning.\<close>

theorem format_panics_on_wide_characters:
  "format_text ([CHR ''a'', CHR '' '', CHR 0xC3, CHR 0xA9, CHR 0x0A]) = None"
  by code_simp

text \<open>A carriage return that is not part of a line ending defeats idempotence: the second pass
  over the formatted text changes it again.\<close>

theorem format_not_idempotent_with_cr:
  "\<exists>txt out. list_all is_ascii txt \<and> format_text txt = Some out \<and> format_text out \<noteq> Some out"
proof (intro exI conjI)
  let ?txt = "[CHR ''a'', CHR 0x0D, CHR '' '', CHR 0x0A, CHR ''b'', CHR 0x0A]"
  let ?out = "[CHR ''a'', CHR 0x0D, CHR 0x0A, CHR ''b'', CHR 0x0A]"
  show "list_all is_ascii ?txt" by code_simp
  show "format_text ?txt = Some ?out" by code_simp
  show "format_text ?out \<noteq> Some ?out" by code_simp
qed

text \<open>The number of leading closing brackets the scan reports is at most one, whatever the line
  starts with: after the first of them the line counts as code.\<close>

theorem scan_line_leading_at_most_one:
  assumes "scan_line line b = Some (k, n, b')"
  shows "k \<le> 1"
  using scan_from_leading [of line 0 b False 0 0 k n b'] assms by (simp add: scan_line_def)

lemma scan_line_leading_at_most_one_witness: "scan_line ''}}'' False = Some (1, - 2, False) \<and> (1::nat) \<le> 1"
proof -
  have s: "scan_line ''}}'' False = Some (1, - 2, False)" by code_simp
  with scan_line_leading_at_most_one [OF s] show ?thesis by simp
qed

end
