(* ===== verification/Modules.thy ===== *)
theory Modules
  imports Document_Spec Symbols
begin

text \<open>
  \<open>modules.rs\<close> and \<open>analysis.rs\<close>: which source satisfies an imported module name, the
  fingerprints of a document's direct dependencies, and the analysis snapshots the compiler's
  answers are kept in.

  The compiler is not part of the repository. It is a field of \<open>toolchain\<close>: for an envelope it
  gives a \<open>compilation\<close>, the tree of the module names it asks the resolver for and of what it
  does with each answer. Running the tree against the store interleaves the resolver's lazy
  loads with the compilation exactly as the callback of the code does.
\<close>

section \<open>Paths\<close>

text \<open>\<open>Path::join\<close>, \<open>Path::parent\<close> and the component-wise equality of paths.\<close>

definition path_join :: "string \<Rightarrow> string \<Rightarrow> string" where
  "path_join root rel =
     (if starts_with rel ''/'' then rel
      else if root = [] \<or> last root = CHR ''/'' then root @ rel
      else root @ ''/'' @ rel)"

definition path_components :: "string \<Rightarrow> bool \<times> string list" where
  "path_components p =
     (let parts = split_char (CHR ''/'') p;
          names = filter (\<lambda>c. c \<noteq> [] \<and> c \<noteq> ''.'') parts
      in (starts_with p ''/'', if hd parts = ''.'' then ''.'' # names else names))"

definition path_parent :: "string \<Rightarrow> string option" where
  "path_parent p =
     (let stem = trim_end_chars {CHR ''/''} p
      in if stem = [] then None
         else let front = rev (dropWhile (\<lambda>c. c \<noteq> CHR ''/'') (rev stem));
                  front' = trim_end_chars {CHR ''/''} front
              in Some (if front' = [] \<and> front \<noteq> [] then ''/'' else front'))"

section \<open>Library discovery\<close>

definition rsplit_once :: "char \<Rightarrow> string \<Rightarrow> (string \<times> string) option" where
  "rsplit_once c s =
     (if c \<notin> set s then None
      else let tail = rev (takeWhile (\<lambda>d. d \<noteq> c) (rev s))
           in Some (take (length s - length tail - 1) s, tail))"

definition is_digit :: "char \<Rightarrow> bool" where
  "is_digit c \<longleftrightarrow> 48 \<le> byte_of c \<and> byte_of c \<le> 57"

definition is_lower :: "char \<Rightarrow> bool" where
  "is_lower c \<longleftrightarrow> 97 \<le> byte_of c \<and> byte_of c \<le> 122"

definition version_stripped :: "string \<Rightarrow> string option" where
  "version_stripped m =
     Option.bind (rsplit_once (CHR ''.'') m) (\<lambda>(head, last).
       Option.bind (strip_prefix last ''v'') (\<lambda>digits.
         if digits = [] \<or> \<not> list_all is_digit digits then None else Some head))"

definition module_file :: "string \<Rightarrow> string" where
  "module_file m = map (\<lambda>c. if c = CHR ''.'' then CHR ''/'' else c) m @ ''.mncs''"

definition candidate_paths :: "string \<Rightarrow> string \<Rightarrow> string list" where
  "candidate_paths root m =
     [path_join root (module_file m)] @
     (case version_stripped m of None \<Rightarrow> [] | Some head \<Rightarrow> [path_join root (module_file head)]) @
     (case strip_prefix m ''mncs.'' of
        None \<Rightarrow> []
      | Some rest \<Rightarrow>
          path_join root (module_file rest) #
          (case version_stripped rest of None \<Rightarrow> [] | Some head \<Rightarrow> [path_join root (module_file head)])) @
     [path_join root (last (split_char (CHR ''.'') m) @ ''.mncs'')]"

text \<open>The process environment: \<open>MNCS_LIBRARY_PATH\<close>, \<open>MNCS_STDLIB_ROOT\<close> and the current directory.\<close>

record process_env =
  px_library_path :: "string option"
  px_stdlib_root :: "string option"
  px_cwd :: "string option"

definition manifest_name :: string where
  "manifest_name = ''stdlib-manifest.json''"

definition discover_stdlib_root :: "environment \<Rightarrow> process_env \<Rightarrow> string option" where
  "discover_stdlib_root env px =
     (case px_stdlib_root px of
        Some root \<Rightarrow>
          if root = [] then None
          else if env_is_file env (path_join root manifest_name) then Some root else None
      | None \<Rightarrow>
          Option.bind (px_cwd px) (\<lambda>cwd.
            Option.bind (path_parent cwd) (\<lambda>parent.
              find (\<lambda>candidate. env_is_file env (path_join candidate manifest_name))
                (map (\<lambda>base. path_join base ''mncs-stdlib'') [cwd, parent]))))"

definition library_roots_from_env :: "environment \<Rightarrow> process_env \<Rightarrow> string list" where
  "library_roots_from_env env px =
     (let roots = filter (\<lambda>e. e \<noteq> [])
                    (split_char (CHR '':'') (case px_library_path px of None \<Rightarrow> [] | Some v \<Rightarrow> v))
      in case discover_stdlib_root env px of
           None \<Rightarrow> roots
         | Some stdlib \<Rightarrow>
             let library = path_join stdlib ''library''
             in if list_ex (\<lambda>r. path_components r = path_components library) roots then roots
                else roots @ [library])"

section \<open>Envelopes and the compiler\<close>

record source_envelope =
  en_logical :: string
  en_text :: string
  en_identity :: string
  en_language :: string

datatype compilation =
    Compiled front_end
  | Resolving string "source_envelope option \<Rightarrow> compilation"

text \<open>
  What the service calls of \<open>mncs_syntax\<close>, \<open>mncs_compiler\<close> and \<open>mncs_model\<close>. \<open>tl_range\<close>,
  \<open>tl_position\<close> and \<open>tl_offset\<close> are \<open>range_of\<close>, \<open>position_of\<close> and \<open>offset_of\<close> on the map of a
  text (\<open>Coords\<close> models them, with the panics they may end in; the service theories read what they
  return), \<open>tl_lowercase\<close> is the Unicode lowercase mapping.
\<close>

record toolchain =
  tl_compile :: "source_envelope \<Rightarrow> compilation"
  tl_language :: "string \<Rightarrow> string"
  tl_compatible :: "string \<Rightarrow> string \<Rightarrow> bool"
  tl_model :: model_api
  tl_range :: "string \<Rightarrow> source_span \<Rightarrow> range_info"
  tl_lowercase :: "string \<Rightarrow> string"
  tl_position :: "string \<Rightarrow> nat \<Rightarrow> position_info"
  tl_offset :: "string \<Rightarrow> nat \<Rightarrow> nat \<Rightarrow> nat"

definition envelope :: "environment \<Rightarrow> toolchain \<Rightarrow> string \<Rightarrow> string \<Rightarrow> source_envelope" where
  "envelope env tc uri t =
     \<lparr>en_logical = uri, en_text = t, en_identity = env_identity env uri t, en_language = tl_language tc t\<rparr>"

primrec run_compilation ::
  "(string \<Rightarrow> 's \<Rightarrow> source_envelope option \<times> 's) \<Rightarrow> compilation \<Rightarrow> 's \<Rightarrow> front_end \<times> 's" where
  "run_compilation resolve (Compiled fe) st = (fe, st)"
| "run_compilation resolve (Resolving m k) st =
     (case resolve m st of (answer, st') \<Rightarrow> run_compilation resolve (k answer) st')"

section \<open>The resolver\<close>

definition valid_module_name :: "string \<Rightarrow> bool" where
  "valid_module_name m \<longleftrightarrow>
     m \<noteq> [] \<and> list_all (\<lambda>c. is_lower c \<or> is_digit c \<or> c = CHR ''.'' \<or> c = CHR ''_'') m \<and>
     \<not> starts_with m ''.'' \<and> \<not> ends_with m ''.'' \<and> \<not> contains_str m ''..''"

text \<open>The loop over the library roots and their candidate paths: the first file that qualifies.\<close>

definition library_candidates :: "environment \<Rightarrow> process_env \<Rightarrow> string \<Rightarrow> string list" where
  "library_candidates env px m =
     concat (map (\<lambda>root. candidate_paths root m) (library_roots_from_env env px))"

definition library_file :: "environment \<Rightarrow> toolchain \<Rightarrow> string \<Rightarrow> string \<Rightarrow> string option" where
  "library_file env tc m path =
     (case env_read env path of
        ReadOk t \<Rightarrow>
          (case env_module env t of
             None \<Rightarrow> None
           | Some declared \<Rightarrow> if tl_compatible tc m declared then Some t else None)
      | _ \<Rightarrow> None)"

definition library_resolve ::
  "environment \<Rightarrow> process_env \<Rightarrow> toolchain \<Rightarrow> string \<Rightarrow> source_envelope option" where
  "library_resolve env px tc m =
     (case List.map_filter (\<lambda>p. map_option (Pair p) (library_file env tc m p)) (library_candidates env px m) of
        [] \<Rightarrow> None
      | (p, t) # _ \<Rightarrow> Some (envelope env tc (''file://'' @ p) t))"

definition store_resolve ::
  "environment \<Rightarrow> process_env \<Rightarrow> toolchain \<Rightarrow> string \<Rightarrow> document_store
     \<Rightarrow> source_envelope option \<times> document_store" where
  "store_resolve env px tc m st =
     (if \<not> valid_module_name m then (None, st)
      else
        case module_uri env m st of
          (None, st) \<Rightarrow> (library_resolve env px tc m, st)
        | (Some uri, st) \<Rightarrow>
            (case content env uri st of
               (Inr t, st) \<Rightarrow> (Some (envelope env tc uri t), st)
             | (Inl _, st) \<Rightarrow> (library_resolve env px tc m, st)))"

section \<open>Dependency fingerprints\<close>

definition use_target :: "string \<Rightarrow> string option" where
  "use_target line =
     Option.bind (strip_prefix (trim_start line) ''use '') (\<lambda>rest.
       map_option trim (strip_suffix (trim_end rest) '';''))"

fun dedup_names :: "string list \<Rightarrow> string list \<Rightarrow> string list" where
  "dedup_names seen [] = seen"
| "dedup_names seen (n # ns) = dedup_names (if n \<in> set seen then seen else seen @ [n]) ns"

definition use_names :: "string \<Rightarrow> string list" where
  "use_names t = dedup_names [] (List.map_filter use_target (lines t))"

text \<open>The identity a name resolves to now: a resident document's seal, or the resolver's answer.\<close>

definition current_identity ::
  "environment \<Rightarrow> process_env \<Rightarrow> toolchain \<Rightarrow> string \<Rightarrow> document_store \<Rightarrow> string option \<times> document_store" where
  "current_identity env px tc m st =
     (let by_resolver = (\<lambda>st. map_prod (map_option en_identity) id (store_resolve env px tc m st))
      in case module_uri env m st of
           (None, st) \<Rightarrow> by_resolver st
         | (Some uri, st) \<Rightarrow>
             (case content_identity env uri st of
                (Inr i, st) \<Rightarrow> (Some i, st)
              | (Inl _, st) \<Rightarrow> by_resolver st))"

definition consumed_identity :: "module_resolution list \<Rightarrow> string \<Rightarrow> string option" where
  "consumed_identity consumed m = map_option mr_identity (find (\<lambda>r. mr_requested r = m) consumed)"

definition collect_name ::
  "environment \<Rightarrow> process_env \<Rightarrow> toolchain \<Rightarrow> module_resolution list \<Rightarrow> string
     \<Rightarrow> (string, string) btree \<times> document_store \<Rightarrow> (string, string) btree \<times> document_store" where
  "collect_name env px tc consumed m s =
     (case s of (modules, st) \<Rightarrow>
        (case consumed_identity consumed m of
           Some i \<Rightarrow> (bt_insert m i modules, st)
         | None \<Rightarrow>
             (case current_identity env px tc m st of
                (None, st) \<Rightarrow> (modules, st)
              | (Some i, st) \<Rightarrow> (bt_insert m i modules, st))))"

definition fingerprints_from_consumed ::
  "environment \<Rightarrow> process_env \<Rightarrow> toolchain \<Rightarrow> string \<Rightarrow> module_resolution list \<Rightarrow> document_store
     \<Rightarrow> (string, string) btree \<times> document_store" where
  "fingerprints_from_consumed env px tc t consumed st =
     fold (collect_name env px tc consumed) (use_names t) (bt_empty, st)"

text \<open>\<open>collect\<close> is the same loop without the consumed records.\<close>

definition fingerprints_collect ::
  "environment \<Rightarrow> process_env \<Rightarrow> toolchain \<Rightarrow> string \<Rightarrow> document_store
     \<Rightarrow> (string, string) btree \<times> document_store" where
  "fingerprints_collect env px tc t st = fold (collect_name env px tc []) (use_names t) (bt_empty, st)"

definition dependency_edge ::
  "environment \<Rightarrow> process_env \<Rightarrow> toolchain \<Rightarrow> module_resolution list \<Rightarrow> string
     \<Rightarrow> (string \<times> string \<times> string) list \<times> document_store
     \<Rightarrow> (string \<times> string \<times> string) list \<times> document_store" where
  "dependency_edge env px tc consumed m s =
     (case s of (edges, st) \<Rightarrow>
        let identity = consumed_identity consumed m
        in case module_uri env m st of
             (Some uri, st) \<Rightarrow>
               (case identity of
                  Some i \<Rightarrow> (edges @ [(m, uri, i)], st)
                | None \<Rightarrow>
                    (case content_identity env uri st of
                       (Inr i, st) \<Rightarrow> (edges @ [(m, uri, i)], st)
                     | (Inl _, st) \<Rightarrow> (edges, st)))
           | (None, st) \<Rightarrow>
               (case store_resolve env px tc m st of
                  (None, st) \<Rightarrow> (edges, st)
                | (Some e, st) \<Rightarrow>
                    (edges @ [(m, en_logical e, case identity of Some i \<Rightarrow> i | None \<Rightarrow> en_identity e)], st)))"

definition dependency_edges ::
  "environment \<Rightarrow> process_env \<Rightarrow> toolchain \<Rightarrow> string \<Rightarrow> module_resolution list \<Rightarrow> document_store
     \<Rightarrow> (string \<times> string \<times> string) list \<times> document_store" where
  "dependency_edges env px tc t consumed st =
     map_prod (\<lambda>edges. dedup (sort edges)) id
       (fold (dependency_edge env px tc consumed) (use_names t) ([], st))"

section \<open>Analysis snapshots\<close>

record document_analysis =
  da_uri :: string
  da_identity :: string
  da_generation :: nat
  da_profile :: string
  da_front_end :: front_end
  da_positions :: position_map
  da_symbols :: symbol_index
  da_dependencies :: "(string, string) btree"

definition analyze_with_resolver ::
  "environment \<Rightarrow> process_env \<Rightarrow> toolchain \<Rightarrow> string \<Rightarrow> source_envelope \<Rightarrow> nat \<Rightarrow> document_store
     \<Rightarrow> document_analysis \<times> document_store" where
  "analyze_with_resolver env px tc uri e generation st =
     (case run_compilation (store_resolve env px tc) (tl_compile tc e) st of
        (fe, st) \<Rightarrow>
          (case fingerprints_from_consumed env px tc (fe_text fe) (fe_module_resolutions fe) st of
             (deps, st) \<Rightarrow>
               (\<lparr>da_uri = uri, da_identity = fe_identity fe, da_generation = generation,
                 da_profile = en_language e, da_front_end = fe, da_positions = pm_new (fe_text fe),
                 da_symbols = si_build (tl_model tc) fe, da_dependencies = deps\<rparr>, st)))"

text \<open>\<open>analyze\<close>: every import is unresolved and no dependency is recorded.\<close>

definition analyze :: "toolchain \<Rightarrow> string \<Rightarrow> source_envelope \<Rightarrow> nat \<Rightarrow> document_analysis" where
  "analyze tc uri e generation =
     (let fe = fst (run_compilation (\<lambda>_ st. (None, st)) (tl_compile tc e) ())
      in \<lparr>da_uri = uri, da_identity = fe_identity fe, da_generation = generation,
          da_profile = en_language e, da_front_end = fe, da_positions = pm_new (fe_text fe),
          da_symbols = si_build (tl_model tc) fe, da_dependencies = bt_empty\<rparr>)"

definition analysis_text :: "document_analysis \<Rightarrow> string" where
  "analysis_text a = fe_text (da_front_end a)"

end
