(* ===== verification/Modules_Spec.thy ===== *)
theory Modules_Spec
  imports Modules
begin

text \<open>
  Properties of the module resolver and the fingerprints. Everything the queries do to the store
  is lazy loading, the relation \<open>lazy_load\<close>: unknown files are registered and documents without
  content are loaded from disk. What it keeps is proved once, by rule induction, and holds for
  every query, resolver run and compilation.
\<close>

section \<open>Lazy loading\<close>

inductive lazy_load :: "environment \<Rightarrow> document_store \<Rightarrow> document_store \<Rightarrow> bool" for env where
  lazy_refl: "lazy_load env st st"
| lazy_register: "lazy_load env st st' \<Longrightarrow> lookup_document st' uri = None \<Longrightarrow>
    lazy_load env st (snd (ensure_document uri path st'))"
| lazy_commit: "lazy_load env st st' \<Longrightarrow> lookup_document st' uri = Some d \<Longrightarrow> stored d = None \<Longrightarrow>
    path_of env uri d = Some p \<Longrightarrow> read_bounded env p = Some t \<Longrightarrow>
    lazy_load env st (commit_disk env uri d (Some p) None t st')"

lemmas lazy_steps = lazy_refl lazy_register lazy_commit

lemma lazy_trans: "lazy_load env st' st'' \<Longrightarrow> lazy_load env st st' \<Longrightarrow> lazy_load env st st''"
  by (induction rule: lazy_load.induct) (auto intro: lazy_steps)

lemma lazy_fold:
  assumes "\<And>x st. lazy_load env st (f x st)"
  shows "lazy_load env st (fold f xs st)"
proof (induction xs arbitrary: st)
  case (Cons x xs)
  from lazy_trans [OF Cons.IH assms] show ?case by simp
qed (simp add: lazy_refl)

text \<open>The loops that carry a result beside the store.\<close>

lemma lazy_fold_snd:
  assumes "\<And>x a st. lazy_load env st (snd (f x (a, st)))"
  shows "lazy_load env st (snd (fold f xs (a, st)))"
proof (induction xs arbitrary: a st)
  case (Cons x xs)
  obtain a' st' where f: "f x (a, st) = (a', st')" by (metis prod.exhaust)
  from lazy_trans [OF Cons.IH, of st st' a'] assms [of st x a] show ?case by (simp add: f)
qed (simp add: lazy_refl)

lemma lazy_scan_one: "lazy_load env st (scan_one env uri st)"
  by (auto simp: scan_one_def intro: lazy_steps split: option.splits)

lemma lazy_module_uri: "lazy_load env st (snd (module_uri env m st))"
  by (auto simp: module_uri_def scan_modules_for_def Let_def intro: lazy_refl lazy_fold lazy_scan_one
      split: option.splits)

lemma lazy_ensure_loaded: "lazy_load env st (snd (ensure_loaded env uri st))"
proof -
  have load: "lazy_load env st (commit_disk env uri d (Some p) None t st')"
    if "lazy_load env st st'" "lookup_document st' uri = Some d" "dc_disk d = None" "\<not> is_open_document d"
      "path_of env uri d = Some p" "read_bounded env p = Some t" for st' d p t
    using that by (intro lazy_commit) (auto simp: stored_def is_open_document_def)
  have reg: "lazy_load env st (snd (ensure_document uri path st))" if "lookup_document st uri = None" for path
    using that by (intro lazy_register lazy_refl)
  show ?thesis
    using load [OF lazy_refl] load [OF reg] reg lazy_refl
    by (auto simp: ensure_loaded_def Let_def split: option.splits)
qed

lemma lazy_query_stored: "lazy_load env st (snd (query_stored env uri st))"
  using lazy_ensure_loaded [of env st uri]
  by (auto simp: query_stored_def split: prod.splits sum.splits option.splits)

lemma lazy_content: "lazy_load env st (snd (content env uri st))"
  by (simp add: content_def lazy_query_stored)

lemma lazy_content_identity: "lazy_load env st (snd (content_identity env uri st))"
  by (simp add: content_identity_def lazy_query_stored)

lemma lazy_store_resolve: "lazy_load env st (snd (store_resolve env px tc m st))"
proof -
  obtain u s where mu: "module_uri env m st = (u, s)" by (metis prod.exhaust)
  have l: "lazy_load env st s" using lazy_module_uri [of env st m] mu by simp
  have "lazy_load env st (snd (content env uri s))" for uri
    using l lazy_content lazy_trans by blast
  then show ?thesis using l
    by (auto simp: store_resolve_def mu lazy_refl split: option.splits sum.splits prod.splits)
      (metis snd_conv)+
qed

lemma lazy_current_identity: "lazy_load env st (snd (current_identity env px tc m st))"
proof -
  obtain u s where mu: "module_uri env m st = (u, s)" by (metis prod.exhaust)
  have l: "lazy_load env st s" using lazy_module_uri [of env st m] mu by simp
  have c: "lazy_load env st (snd (content_identity env uri s))" for uri
    using l lazy_content_identity lazy_trans by blast
  have r: "lazy_load env st s' \<Longrightarrow> lazy_load env st (snd (store_resolve env px tc m s'))" for s'
    using lazy_store_resolve lazy_trans by blast
  show ?thesis
  proof (cases u)
    case None
    then show ?thesis using r [OF l] by (simp add: current_identity_def mu)
  next
    case (Some uri)
    obtain i s' where ci: "content_identity env uri s = (i, s')" by (metis prod.exhaust)
    then show ?thesis using r [of s'] c [of uri]
      by (cases i) (simp_all add: current_identity_def mu Some ci)
  qed
qed

lemma lazy_collect_name: "lazy_load env st (snd (collect_name env px tc consumed m (modules, st)))"
  using lazy_current_identity [of env st px tc m]
  by (auto simp: collect_name_def lazy_refl split: option.splits prod.splits)

lemma lazy_fingerprints:
  "lazy_load env st (snd (fingerprints_from_consumed env px tc t consumed st))"
  "lazy_load env st (snd (fingerprints_collect env px tc t st))"
  by (simp_all add: fingerprints_from_consumed_def fingerprints_collect_def lazy_fold_snd lazy_collect_name)

lemma lazy_dependency_edge: "lazy_load env st (snd (dependency_edge env px tc consumed m (edges, st)))"
proof -
  obtain u s where mu: "module_uri env m st = (u, s)" by (metis prod.exhaust)
  have l: "lazy_load env st s" using lazy_module_uri [of env st m] mu by simp
  show ?thesis
  proof (cases u)
    case None
    obtain e s' where r: "store_resolve env px tc m s = (e, s')" by (metis prod.exhaust)
    then show ?thesis using lazy_trans [OF lazy_store_resolve l, of px tc m]
      by (simp add: dependency_edge_def mu None split: option.splits)
  next
    case (Some uri)
    obtain i s' where ci: "content_identity env uri s = (i, s')" by (metis prod.exhaust)
    then show ?thesis using l lazy_trans [OF lazy_content_identity l, of uri]
      by (simp add: dependency_edge_def Let_def mu Some split: option.splits sum.splits)
  qed
qed

lemma lazy_dependency_edges: "lazy_load env st (snd (dependency_edges env px tc t consumed st))"
  by (simp add: dependency_edges_def lazy_fold_snd lazy_dependency_edge)

lemma lazy_compilation: "lazy_load env st (snd (run_compilation (store_resolve env px tc) c st))"
proof (induction c arbitrary: st)
  case (Resolving m k)
  obtain e s where r: "store_resolve env px tc m st = (e, s)" by (metis prod.exhaust)
  then have "lazy_load env st s" using lazy_store_resolve [of env st px tc m] by simp
  moreover have "lazy_load env s (snd (run_compilation (store_resolve env px tc) (k e) s))"
    by (rule Resolving) simp
  ultimately show ?case by (simp add: r lazy_trans)
qed (simp add: lazy_refl)

lemma lazy_analyze: "lazy_load env st (snd (analyze_with_resolver env px tc uri e g st))"
proof -
  obtain fe s where c: "run_compilation (store_resolve env px tc) (tl_compile tc e) st = (fe, s)"
    by (metis prod.exhaust)
  have "lazy_load env st s" using lazy_compilation [of env st px tc "tl_compile tc e"] c by simp
  then have "lazy_load env st (snd (fingerprints_from_consumed env px tc (fe_text fe) (fe_module_resolutions fe) s))"
    by (rule lazy_trans [OF lazy_fingerprints(1)])
  then show ?thesis by (auto simp: analyze_with_resolver_def c split: prod.splits)
qed

lemmas lazy_queries = lazy_module_uri lazy_ensure_loaded lazy_query_stored lazy_content lazy_content_identity
  lazy_store_resolve lazy_current_identity lazy_fingerprints lazy_dependency_edges lazy_analyze

section \<open>What lazy loading keeps\<close>

lemma lazy_store_ok: "lazy_load env st st' \<Longrightarrow> store_ok env st \<Longrightarrow> store_ok env st'"
proof (induction rule: lazy_load.induct)
  case (lazy_register st st' uri path)
  then show ?case by (simp add: ensure_document_ok)
next
  case (lazy_commit st st' uri d p t)
  have "effective_module d = None" using lazy_commit.hyps(3) by (simp add: effective_module_def)
  moreover have "store_ok env st'" using lazy_commit by blast
  ultimately show ?case using commit_disk_ok [OF _ lazy_commit.hyps(2), of env None t "Some p"] by simp
qed

lemma lazy_waiting: "lazy_load env st st' \<Longrightarrow> waiting_at env u p st \<Longrightarrow> waiting_at env u p st'"
proof (induction rule: lazy_load.induct)
  case (lazy_register st st' uri path)
  then have "waiting_at env u p st'" by blast
  with lazy_register.hyps(2) show ?case
    by (auto simp: ensure_document_def waiting_at_def unloaded_at_def store_simps)
next
  case (lazy_commit st st' uri d p t)
  then show ?case by (simp add: commit_waiting)
qed

lemma commit_frame [store_simps]:
  "ds_generation (commit_disk env uri d path old t st) = ds_generation st"
  "ds_documents (commit_disk env uri d path old t st) =
     bt_insert uri (d\<lparr>dc_path := path, dc_disk := Some (seal_content env uri t)\<rparr>) (ds_documents st)"
  "ds_root (commit_disk env uri d path old t st) = ds_root st"
  "ds_discovery_roots (commit_disk env uri d path old t st) = ds_discovery_roots st"
  by (simp_all add: commit_disk_def Let_def set_document_def bump_content_version_def note_module_change_def)

lemma ensure_frame [store_simps]:
  "ds_generation (snd (ensure_document uri path st)) = ds_generation st"
  "ds_root (snd (ensure_document uri path st)) = ds_root st"
  "ds_discovery_roots (snd (ensure_document uri path st)) = ds_discovery_roots st"
  by (simp_all add: ensure_document_def set_document_def bump_content_version_def)

lemma lazy_frame:
  assumes "lazy_load env st st'"
  shows "ds_generation st' = ds_generation st" "ds_root st' = ds_root st"
    "ds_discovery_roots st' = ds_discovery_roots st"
  using assms by (induction rule: lazy_load.induct) (simp_all add: store_simps)

text \<open>A document with content is not touched at all.\<close>

lemma lazy_stored:
  "lazy_load env st st' \<Longrightarrow> lookup_document st uri = Some d \<Longrightarrow> stored d \<noteq> None \<Longrightarrow>
   lookup_document st' uri = Some d"
proof (induction rule: lazy_load.induct)
  case (lazy_register st st' u path)
  then show ?case by (auto simp: ensure_document_def store_simps)
next
  case (lazy_commit st st' u d' p t)
  then show ?case by (auto simp: store_simps)
qed

lemma lazy_known: "lazy_load env st st' \<Longrightarrow> knows uri st \<Longrightarrow> knows uri st'"
proof (induction rule: lazy_load.induct)
  case (lazy_register st st' u path)
  then show ?case by (auto simp: ensure_document_def knows_def store_simps)
next
  case (lazy_commit st st' u d p t)
  then show ?case by (auto simp: knows_def store_simps)
qed

lemma lazy_claimants: "lazy_load env st st' \<Longrightarrow> claimants (ds_documents st) m \<subseteq> claimants (ds_documents st') m"
  using lazy_stored by (fastforce simp: claimants_def effective_module_def bind_eq_Some_conv)

lemma query_stored_again:
  assumes "query_stored env uri st = (Inr c, st')"
  shows "query_stored env uri st' = (Inr c, st')"
proof -
  obtain d where "lookup_document st' uri = Some d" "stored d = Some c"
    using assms by (auto simp: query_stored_def bind_eq_Some_conv split: prod.splits sum.splits option.splits)
  then show ?thesis by (simp add: query_stored_def ensure_loaded_def document_content_def)
qed

lemma query_stored_lookup:
  "query_stored env uri st = (Inr c, st') \<Longrightarrow> \<exists>d. lookup_document st' uri = Some d \<and> stored d = Some c"
  by (auto simp: query_stored_def bind_eq_Some_conv split: prod.splits sum.splits option.splits)

lemma query_stored_loaded:
  "lookup_document st uri = Some d \<Longrightarrow> stored d = Some c \<Longrightarrow> query_stored env uri st = (Inr c, st)"
  by (simp add: query_stored_def ensure_loaded_def document_content_def)

lemma query_stored_later:
  assumes "query_stored env uri st = (Inr c, st1)" "lazy_load env st1 st2"
  shows "query_stored env uri st2 = (Inr c, st2)"
  using query_stored_lookup [OF assms(1)] lazy_stored [OF assms(2)] query_stored_loaded by fastforce

text \<open>The service's callback of \<open>refresh_disk_with\<close> is such a query.\<close>

lemma lazy_hook:
  assumes "\<And>uri st x. lazy_load env st (fst (snd (hook uri (st, x))))"
  shows "refresh_hook env hook"
  using assms lazy_store_ok lazy_waiting by unfold_locales blast+

end
