(* ===== verification/Modules_Props.thy ===== *)
theory Modules_Props
  imports Modules_Spec Document_Props
begin

text \<open>The properties of the module resolver: confinement of the library lookup, the priority of
  resident documents, and what the dependency fingerprints record.\<close>

section \<open>The library lookup stays below its root\<close>

definition plain_name :: "string \<Rightarrow> bool" where
  "plain_name m \<longleftrightarrow> CHR ''/'' \<notin> set m \<and> \<not> starts_with m ''.''"

lemma split_char_infix: "x \<in> set (split_char d s) \<Longrightarrow> \<exists>a b. s = a @ x @ b"
proof (induction s arbitrary: x)
  case (Cons c cs)
  obtain y ys where y: "split_char d cs = y # ys" by (cases "split_char d cs") auto
  have IH: "z \<in> set (y # ys) \<Longrightarrow> \<exists>a b. cs = a @ z @ b" for z using Cons.IH y by simp
  have first: "\<exists>b. cs = y @ b"
    by (metis join_split_char y join_str.simps(2) join_str_Cons append_Nil2 list.exhaust)
  show ?case
  proof (cases "c = d")
    case True
    then consider "x = []" | "x \<in> set (y # ys)" using Cons.prems y by auto
    then show ?thesis
    proof cases
      case 2
      with IH obtain a b where "cs = a @ x @ b" by blast
      then have "c # cs = (c # a) @ x @ b" by simp
      then show ?thesis by blast
    qed (metis append_Nil)
  next
    case False
    then consider "x = c # y" | "x \<in> set ys" using Cons.prems y by auto
    then show ?thesis
    proof cases
      case 1
      with first show ?thesis by (metis append_Cons append_Nil)
    next
      case 2
      then have "x \<in> set (y # ys)" by simp
      then obtain a b where "cs = a @ x @ b" using IH by blast
      then have "c # cs = (c # a) @ x @ b" by simp
      then show ?thesis by blast
    qed
  qed
qed simp

lemma dots_of_segments:
  assumes "count_list rel (CHR ''.'') \<le> 1"
  shows "''..'' \<notin> set (snd (path_components rel))"
proof
  assume "''..'' \<in> set (snd (path_components rel))"
  then have "''..'' \<in> set (split_char (CHR ''/'') rel)"
    by (auto simp: path_components_def Let_def split: if_splits)
  then obtain a b where "rel = a @ ''..'' @ b" using split_char_infix by blast
  then show False using assms by simp
qed

lemma module_file_dots: "count_list (module_file m) (CHR ''.'') = 1"
proof -
  have "count_list (map (\<lambda>c. if c = CHR ''.'' then CHR ''/'' else c) m) (CHR ''.'') = 0"
    by (induction m) auto
  then show ?thesis by (simp add: module_file_def)
qed

lemma module_file_relative: "plain_name m \<Longrightarrow> \<not> starts_with (module_file m) ''/''"
  by (cases m) (auto simp: module_file_def plain_name_def)

lemma version_stripped_prefix: "version_stripped m = Some h \<Longrightarrow> \<exists>t. m = h @ t"
proof -
  assume "version_stripped m = Some h"
  then have "\<exists>n. h = take n m"
    by (auto simp: version_stripped_def rsplit_once_def Let_def bind_eq_Some_conv split: if_splits)
  then show ?thesis by (metis append_take_drop_id)
qed

lemma plain_prefix: "plain_name (h @ t) \<Longrightarrow> plain_name h"
  by (cases h) (auto simp: plain_name_def)

lemma valid_plain: "valid_module_name m \<Longrightarrow> plain_name m"
  by (auto simp: valid_module_name_def plain_name_def list_all_iff is_lower_def is_digit_def byte_of_def)

lemma valid_rest_plain:
  assumes "valid_module_name m" "strip_prefix m ''mncs.'' = Some rest"
  shows "plain_name rest"
proof -
  have m: "m = ''mncs.'' @ rest" using assms(2) by (simp add: strip_prefix_Some)
  have "\<not> starts_with rest ''.''"
  proof
    assume "starts_with rest ''.''"
    then obtain t where "rest = ''.'' @ t" by (auto simp: starts_with_iff)
    then have "contains_str m ''..''" using m by simp
    then show False using assms(1) by (simp add: valid_module_name_def)
  qed
  then show ?thesis using valid_plain [OF assms(1)] m by (simp add: plain_name_def)
qed

definition confined :: "string \<Rightarrow> string \<Rightarrow> bool" where
  "confined root p \<longleftrightarrow> (\<exists>rel. p = path_join root rel \<and> \<not> starts_with rel ''/'' \<and>
     ''..'' \<notin> set (snd (path_components rel)) \<and> ends_with rel ''.mncs'')"

lemma module_file_confined: "plain_name m \<Longrightarrow> confined root (path_join root (module_file m))"
  using module_file_relative [of m] dots_of_segments [of "module_file m"] module_file_dots [of m]
  by (auto simp: confined_def ends_with_iff module_file_def)

lemma segment_confined:
  assumes "CHR ''.'' \<notin> set seg" "CHR ''/'' \<notin> set seg"
  shows "confined root (path_join root (seg @ ''.mncs''))"
proof -
  have "\<not> starts_with (seg @ ''.mncs'') ''/''" using assms(2) by (cases seg) auto
  moreover have "count_list (seg @ ''.mncs'') (CHR ''.'') \<le> 1" using assms(1) by (simp add: count_list_0_iff)
  ultimately show ?thesis
    unfolding confined_def using dots_of_segments [of "seg @ ''.mncs''"] by (auto simp: ends_with_iff)
qed

text \<open>C29: Every file the resolver tries for a valid module name lies below the library root: the
  path is the root joined with a relative path without a parent segment, and it ends in the
  source extension.\<close>

theorem candidate_paths_confined:
  assumes "valid_module_name m" "p \<in> set (candidate_paths root m)"
  shows "\<exists>rel. p = path_join root rel \<and> \<not> starts_with rel ''/'' \<and>
    ''..'' \<notin> set (snd (path_components rel)) \<and> ends_with rel ''.mncs''"
proof -
  have pm: "plain_name m" by (rule valid_plain [OF assms(1)])
  let ?seg = "last (split_char (CHR ''.'') m)"
  have stripped: "plain_name h" if "version_stripped n = Some h" "plain_name n" for n h
    using that version_stripped_prefix plain_prefix by blast
  have "CHR ''.'' \<notin> set ?seg" using split_char_pieces [of ?seg "CHR ''.''" m] by simp
  moreover have "CHR ''/'' \<notin> set ?seg"
    using set_split_char [of ?seg "CHR ''.''" m] pm by (auto simp: plain_name_def)
  ultimately have "confined root (path_join root (?seg @ ''.mncs''))" by (rule segment_confined)
  then have "confined root p"
    using assms(2) module_file_confined [OF pm] valid_rest_plain [OF assms(1)] stripped pm module_file_confined
    by (auto simp: candidate_paths_def split: option.splits)
  then show ?thesis by (simp add: confined_def)
qed

lemma candidate_paths_confined_witness:
  "candidate_paths ''/lib'' ''mncs.core.v1'' =
     [''/lib/mncs/core/v1.mncs'', ''/lib/mncs/core.mncs'', ''/lib/core/v1.mncs'', ''/lib/core.mncs'', ''/lib/v1.mncs''] \<and>
   (\<exists>rel. ''/lib/core.mncs'' = path_join ''/lib'' rel \<and> ''..'' \<notin> set (snd (path_components rel)))"
proof -
  have c: "candidate_paths ''/lib'' ''mncs.core.v1'' =
     [''/lib/mncs/core/v1.mncs'', ''/lib/mncs/core.mncs'', ''/lib/core/v1.mncs'', ''/lib/core.mncs'', ''/lib/v1.mncs'']"
    by code_simp
  have v: "valid_module_name ''mncs.core.v1''" by code_simp
  have "''/lib/core.mncs'' \<in> set (candidate_paths ''/lib'' ''mncs.core.v1'')" by (simp add: c)
  from candidate_paths_confined [OF v this] show ?thesis by (intro conjI c) blast
qed

section \<open>Resident documents come first\<close>

lemma map_filter_first:
  "List.map_filter (\<lambda>p. map_option (Pair p) (f p)) ps = (p, t) # rest \<Longrightarrow>
   \<exists>before after. ps = before @ p # after \<and> f p = Some t \<and> (\<forall>q \<in> set before. f q = None)"
proof (induction ps)
  case (Cons q ps)
  show ?case
  proof (cases "f q")
    case None
    then obtain before after where "ps = before @ p # after" "f p = Some t" "\<forall>q \<in> set before. f q = None"
      using Cons by (auto simp: List.map_filter_def)
    with None have "q # ps = (q # before) @ p # after" "\<forall>r \<in> set (q # before). f r = None" by auto
    with \<open>f p = Some t\<close> show ?thesis by blast
  next
    case (Some u)
    then have "q = p" "u = t" using Cons.prems by (auto simp: List.map_filter_def)
    with Some show ?thesis by (intro exI [of _ "[]"] exI [of _ ps]) simp
  qed
qed (simp add: List.map_filter_def)

lemma library_resolve_cases:
  "case library_resolve env px tc m of
     None \<Rightarrow> \<forall>p \<in> set (library_candidates env px m). library_file env tc m p = None
   | Some e \<Rightarrow> \<exists>before p after. library_candidates env px m = before @ p # after \<and>
       library_file env tc m p = Some (en_text e) \<and> (\<forall>q \<in> set before. library_file env tc m q = None) \<and>
       e = envelope env tc (''file://'' @ p) (en_text e)"
proof (cases "List.map_filter (\<lambda>p. map_option (Pair p) (library_file env tc m p)) (library_candidates env px m)")
  case Nil
  then show ?thesis by (auto simp: library_resolve_def List.map_filter_def filter_empty_conv)
next
  case (Cons q rest)
  obtain p t where q: "q = (p, t)" by (metis prod.exhaust)
  from map_filter_first [OF Cons [unfolded q]] show ?thesis
    by (auto simp: library_resolve_def Cons q envelope_def)
qed

lemma claimant_content:
  assumes "store_ok env st" "uri \<in> claimants (ds_documents st) m"
  shows "\<exists>c. query_stored env uri st = (Inr c, st) \<and> ct_module c = Some m \<and> c = seal_content env uri (ct_text c)"
proof -
  obtain d c where d: "lookup_document st uri = Some d" "stored d = Some c" "ct_module c = Some m"
    using assms(2) by (auto simp: claimants_def effective_module_def bind_eq_Some_conv)
  then have "sealed_for env uri c" using assms(1) by (auto simp: store_ok_def intro: stored_sealed)
  with d show ?thesis using query_stored_loaded [OF d(1,2)] by (simp add: sealed_for_def)
qed

lemma module_uri_result:
  assumes "store_ok env st" "module_uri env m st = (r, st')"
  shows "store_ok env st'" "r = bucket_first (ds_claims st') m"
proof -
  show "store_ok env st'" using module_uri_ok [OF assms(1), of m] assms(2) by simp
  show "r = bucket_first (ds_claims st') m"
    using assms(2) by (auto simp: module_uri_def scan_modules_for_def Let_def split: option.splits)
qed

text \<open>The resolver answers a valid module name with the current text of the least document that
  declares it, sealed under its own URI; only when no document of the store declares the name
  does it answer with the first library file that declares a compatible one, and it answers
  nothing only when there is none either.\<close>

theorem resolve_prefers_resident:
  assumes "store_reachable env pc cw st" "same_sealing env disk"
    and "valid_module_name m" "store_resolve disk px tc m st = (r, st')"
  shows "if claimants (ds_documents st') m \<noteq> {} then
      \<exists>uri d c. uri \<in> claimants (ds_documents st') m \<and> (\<forall>u \<in> claimants (ds_documents st') m. uri \<le> u) \<and>
        lookup_document st' uri = Some d \<and> stored d = Some c \<and>
        r = Some (envelope disk tc uri (ct_text c)) \<and> ct_identity c = en_identity (envelope disk tc uri (ct_text c))
    else case r of
      None \<Rightarrow> \<forall>p \<in> set (library_candidates disk px m). library_file disk tc m p = None
    | Some e \<Rightarrow> \<exists>before p after. library_candidates disk px m = before @ p # after \<and>
        library_file disk tc m p = Some (en_text e) \<and> (\<forall>q \<in> set before. library_file disk tc m q = None) \<and>
        e = envelope disk tc (''file://'' @ p) (en_text e)"
proof -
  have ok: "store_ok disk st" using store_reachable_ok [OF assms(1)] assms(2) by (simp add: store_ok_same_sealing)
  obtain u s where mu: "module_uri disk m st = (u, s)" by (metis prod.exhaust)
  note res = module_uri_result [OF ok mu]
  show ?thesis
  proof (cases u)
    case None
    then have none: "claimants (ds_documents s) m = {}" using res bucket_first_claim(2) by metis
    have "r = library_resolve disk px tc m" "st' = s" using assms(3,4) mu None by (auto simp: store_resolve_def)
    then show ?thesis using none library_resolve_cases [where env = disk and px = px and tc = tc and m = m] by simp
  next
    case (Some uri)
    then have least: "uri \<in> claimants (ds_documents s) m" "\<forall>v \<in> claimants (ds_documents s) m. uri \<le> v"
      using res bucket_first_claim(1) by metis+
    then obtain c where c: "query_stored disk uri s = (Inr c, s)" "c = seal_content disk uri (ct_text c)"
      using claimant_content [OF res(1)] by blast
    have e: "r = Some (envelope disk tc uri (ct_text c))" "st' = s"
      using assms(3,4) mu Some c(1) by (auto simp: store_resolve_def content_def)
    have i: "ct_identity c = disk_id" if "disk_id = env_identity disk uri (ct_text c)" for disk_id
      using c(2) seal_simps(2) that by metis
    show ?thesis using least query_stored_lookup [OF c(1)] e i by (auto simp: envelope_def)
  qed
qed

text \<open>A tool chain for the witnesses: every source compiles without asking for a module.\<close>

definition sample_front :: "source_envelope \<Rightarrow> module_resolution list \<Rightarrow> front_end" where
  "sample_front e resolutions =
     \<lparr>fe_text = en_text e, fe_identity = en_identity e, fe_language_version = en_language e, fe_ast = None,
      fe_program = None, fe_tokens = [],
      fe_cst = CstNode BlockNode (SourceSpan 0 0 0 0) [], fe_tests = None, fe_source_map = None, fe_diagnostics = [], fe_resolutions = [], fe_module_resolutions = resolutions\<rparr>"

definition sample_api :: model_api where
  "sample_api =
     \<lparr>api_diff = (\<lambda>p q. \<lparr>sd_added = [], sd_removed = [], sd_changed = []\<rparr>),
      api_impact = (\<lambda>p roots. None), api_function_id = (\<lambda>m f. m @ ''.'' @ f),
      api_contract_id = (\<lambda>m f c. m @ ''.'' @ f @ ''.'' @ c), api_module_id = id\<rparr>"

definition sample_tools :: toolchain where
  "sample_tools =
     \<lparr>tl_compile = (\<lambda>e. Compiled (sample_front e [])), tl_language = (\<lambda>t. ''0.5''),
      tl_compatible = (=), tl_model = sample_api,
      tl_range = (\<lambda>t s. \<lparr>ri_start_line = 0, ri_start_character = 0, ri_end_line = 0, ri_end_character = 0,
         ri_start_byte = sp_start s, ri_end_byte = sp_end s\<rparr>),
      tl_lowercase = id, tl_position = (\<lambda>t b. \<lparr>pi_line = 0, pi_character = 0, pi_byte = 0\<rparr>), tl_offset = (\<lambda>t l c. 0)\<rparr>"

definition no_process_env :: process_env where
  "no_process_env = \<lparr>px_library_path = None, px_stdlib_root = Some [], px_cwd = None\<rparr>"

lemma resolve_prefers_resident_witness:
  "\<exists>st'. store_resolve sample_env no_process_env sample_tools ''m'' opened_store =
     (Some (envelope sample_env sample_tools ''file:/b.mncs'' ''m''), st')"
proof -
  obtain r st' where e: "store_resolve sample_env no_process_env sample_tools ''m'' opened_store = (r, st')"
    by (metis prod.exhaust)
  have v: "valid_module_name ''m''" by code_simp
  have st': "st' = opened_store"
    using e v by (simp add: store_resolve_def opened_store_def store_eval content_def query_stored_def ensure_loaded_def
        is_open_document_def)
  have c: "claimants (ds_documents opened_store) ''m'' = {''file:/b.mncs''}"
    by (auto simp: claimants_def opened_store_def store_eval)
  have "stored d = Some c \<Longrightarrow> lookup_document opened_store ''file:/b.mncs'' = Some d \<Longrightarrow> ct_text c = ''m''" for d c
    by (auto simp: opened_store_def store_eval)
  then show ?thesis
    using resolve_prefers_resident [OF opened_store_reachable same_sealing_refl v e] c st' e by auto
qed

section \<open>What the fingerprints record\<close>

lemma use_names_distinct: "distinct (use_names t)"
proof -
  have "distinct seen \<Longrightarrow> distinct (dedup_names seen ns)" for seen ns
    by (induction seen ns rule: dedup_names.induct) auto
  then show ?thesis by (simp add: use_names_def)
qed

lemma set_use_names: "set (use_names t) = {m. \<exists>l \<in> set (lines t). use_target l = Some m}"
proof -
  have "set (dedup_names seen ns) = set seen \<union> set ns" for seen ns
    by (induction seen ns rule: dedup_names.induct) auto
  then show ?thesis by (force simp: use_names_def List.map_filter_def)
qed

lemma collect_name_lookup:
  "bt_lookup (fst (collect_name env px tc consumed m (f, st))) n =
     (if n = m then
        (case consumed_identity consumed m of
           Some i \<Rightarrow> Some i
         | None \<Rightarrow> (case fst (current_identity env px tc m st) of Some i \<Rightarrow> Some i | None \<Rightarrow> bt_lookup f n))
      else bt_lookup f n)"
  by (auto simp: collect_name_def split: option.splits prod.splits)

lemma collect_fold_lookup:
  "distinct ns \<Longrightarrow> fold (collect_name env px tc consumed) ns (f, st) = (f', st') \<Longrightarrow>
   (n \<notin> set ns \<longrightarrow> bt_lookup f' n = bt_lookup f n) \<and>
   (n \<in> set ns \<longrightarrow> (\<forall>i. consumed_identity consumed n = Some i \<longrightarrow> bt_lookup f' n = Some i))"
proof (induction ns arbitrary: f st)
  case (Cons m ns)
  obtain f1 st1 where s: "collect_name env px tc consumed m (f, st) = (f1, st1)" by (metis prod.exhaust)
  have l: "bt_lookup f1 n = bt_lookup f n" if "n \<noteq> m"
    using collect_name_lookup [of env px tc consumed m f st n] s that by simp
  have c: "bt_lookup f1 m = Some i" if "consumed_identity consumed m = Some i" for i
    using collect_name_lookup [of env px tc consumed m f st m] s that by simp
  show ?case using Cons.IH [of f1 st1] Cons.prems s l c by auto
qed simp

text \<open>The recorded fingerprints name only modules the text imports, and for every import the
  compiler consumed they hold exactly the source identity it consumed, whatever the store says
  by then.\<close>

theorem fingerprints_record_consumed:
  assumes "fingerprints_from_consumed env px tc t consumed st = (f, st')"
  shows "(\<forall>m. bt_lookup f m \<noteq> None \<longrightarrow> (\<exists>l \<in> set (lines t). use_target l = Some m)) \<and>
    (\<forall>l \<in> set (lines t). \<forall>m i. use_target l = Some m \<longrightarrow> consumed_identity consumed m = Some i \<longrightarrow>
       bt_lookup f m = Some i)"
  using collect_fold_lookup [OF use_names_distinct assms [unfolded fingerprints_from_consumed_def]] set_use_names [of t]
  by (auto simp: use_names_distinct)

lemma fingerprints_record_consumed_witness:
  "bt_lookup (fst (fingerprints_from_consumed sample_env no_process_env sample_tools ''use m;''
      [\<lparr>mr_requested = ''m'', mr_identity = ''old''\<rparr>] opened_store)) ''m'' = Some ''old''"
proof -
  obtain f st' where e: "fingerprints_from_consumed sample_env no_process_env sample_tools ''use m;''
      [\<lparr>mr_requested = ''m'', mr_identity = ''old''\<rparr>] opened_store = (f, st')"
    by (metis prod.exhaust)
  have u: "use_target ''use m;'' = Some ''m''" by code_simp
  have "lines ''use m;'' = [''use m;'']" by code_simp
  moreover have "consumed_identity [\<lparr>mr_requested = ''m'', mr_identity = ''old''\<rparr>] ''m'' = Some ''old''"
    by (simp add: consumed_identity_def)
  ultimately show ?thesis using fingerprints_record_consumed [OF e] u e by simp
qed

end
