(* ===== verification/Event_Projection.thy ===== *)
theory Event_Projection
  imports Event_Hub Modules
begin

text \<open>
  The projections of \<open>events.rs\<close>: what a change event says about two snapshots of a document,
  and about the removal of one.
\<close>

definition analysis_program :: "document_analysis \<Rightarrow> program option" where
  "analysis_program a = fe_program (da_front_end a)"

definition diagnostic_codes :: "document_analysis option \<Rightarrow> string bset" where
  "diagnostic_codes a =
     (case a of None \<Rightarrow> bs_empty | Some a \<Rightarrow> bs_of_list (map dg_code (fe_diagnostics (da_front_end a))))"

fun status_label :: "obligation_status \<Rightarrow> string" where
  "status_label ObPass = ''pass''"
| "status_label ObFail = ''fail''"
| "status_label ObUnknown = ''unknown''"

definition obligation_statuses :: "document_analysis option \<Rightarrow> (string, string) btree option" where
  "obligation_statuses a =
     map_option (\<lambda>p. bt_of_list (map (\<lambda>ob. (ob_identity ob, status_label (ob_status ob))) (pr_obligations p)))
       (Option.bind a analysis_program)"

definition added_subject :: "string \<times> string \<Rightarrow> subject_change" where
  "added_subject r = \<lparr>sc_identity = fst r, sc_change = ''added'', sc_before = None, sc_after = Some (snd r)\<rparr>"

definition removed_subject :: "string \<times> string \<Rightarrow> subject_change" where
  "removed_subject r = \<lparr>sc_identity = fst r, sc_change = ''removed'', sc_before = Some (snd r), sc_after = None\<rparr>"

definition changed_subject :: "string \<times> string \<times> string \<Rightarrow> subject_change" where
  "changed_subject r =
     \<lparr>sc_identity = fst r, sc_change = ''changed'', sc_before = Some (fst (snd r)), sc_after = Some (snd (snd r))\<rparr>"

text \<open>The semantic part of an event: its subjects, its impact and the limitations.\<close>

definition semantic_part ::
  "model_api \<Rightarrow> bool \<Rightarrow> program option \<Rightarrow> program option
     \<Rightarrow> subject_change list \<times> impact option \<times> string list" where
  "semantic_part api fresh before after =
     (let impact_of = (\<lambda>p roots.
            case api_impact api p roots of
              Some i \<Rightarrow> (Some i, [])
            | None \<Rightarrow> (None, [''the current program could not produce a semantic graph'']))
      in if fresh then
           (case after of
              Some p \<Rightarrow> (map added_subject (pr_identities p), impact_of p (map fst (pr_identities p)))
            | None \<Rightarrow> ([], None, [''new document did not elaborate into a valid semantic program'']))
         else
           (case (before, after) of
              (Some p, Some q) \<Rightarrow>
                let diff = api_diff api p q;
                    subjects = map added_subject (sd_added diff) @ map removed_subject (sd_removed diff);
                    roots = map fst (sd_changed diff) @
                            map sc_identity (filter (\<lambda>s. sc_change s \<noteq> ''removed'') subjects)
                in (subjects @ map changed_subject (sd_changed diff), impact_of q roots)
            | _ \<Rightarrow> ([], None,
                [''semantic diff is unavailable because one workspace side did not elaborate'',
                 ''RAVEL/Test consumers must preserve UNKNOWN and must not widen to a full suite''])))"

definition keys_not_in :: "(string, 'a) btree \<Rightarrow> (string, 'a) btree \<Rightarrow> string list" where
  "keys_not_in m n = filter (\<lambda>k. bt_lookup n k = None) (bt_keys m)"

definition no_obligation_delta :: obligation_delta where
  "no_obligation_delta = \<lparr>od_added = [], od_resolved = [], od_status_changed = [], od_complete = False\<rparr>"

definition obligation_part ::
  "bool \<Rightarrow> (string, string) btree option \<Rightarrow> (string, string) btree option \<Rightarrow> obligation_delta \<times> string list" where
  "obligation_part fresh before after =
     (if fresh then
        (case after of
           Some a \<Rightarrow> (no_obligation_delta\<lparr>od_complete := True, od_added := sort (bt_keys a)\<rparr>, [])
         | None \<Rightarrow> (no_obligation_delta, []))
      else
        (case (before, after) of
           (Some b, Some a) \<Rightarrow>
             (\<lparr>od_added = sort (keys_not_in a b), od_resolved = sort (keys_not_in b a),
               od_status_changed =
                 sort (filter (\<lambda>k. bt_lookup b k \<noteq> None \<and> bt_lookup b k \<noteq> bt_lookup a k) (bt_keys a)),
               od_complete = True\<rparr>, [])
         | _ \<Rightarrow> (no_obligation_delta,
               [''obligation delta is incomplete because one side has no valid program''])))"

definition sort_subjects :: "subject_change list \<Rightarrow> subject_change list" where
  "sort_subjects = sort_key (\<lambda>s. (sc_identity s, sc_change s))"

definition project_change ::
  "model_api \<Rightarrow> string \<Rightarrow> nat \<Rightarrow> nat \<Rightarrow> document_analysis option \<Rightarrow> document_analysis \<Rightarrow> bool \<Rightarrow> change_event" where
  "project_change api uri replaced_generation current_generation before after reconciled =
     (let fresh = (before = None \<and> \<not> reconciled);
          (subjects, imp, limits) =
            semantic_part api fresh (Option.bind before analysis_program) (analysis_program after);
          before_codes = diagnostic_codes before;
          after_codes = diagnostic_codes (Some after);
          (obligations, obligation_limits) =
            obligation_part fresh (obligation_statuses before) (obligation_statuses (Some after));
          current = \<lparr>sid_uri = uri, sid_identity = da_identity after\<rparr>
      in \<lparr>ev_schema = workspace_change_schema, ev_stream = [], ev_cursor = 0,
          ev_replaced_generation = replaced_generation, ev_current_generation = current_generation,
          ev_current = current, ev_affected = [current], ev_subjects = sort_subjects subjects,
          ev_diagnostics = \<lparr>dd_added = sort (keys_not_in after_codes before_codes),
                            dd_resolved = sort (keys_not_in before_codes after_codes)\<rparr>,
          ev_obligations = obligations,
          ev_impact_identity = map_option im_graph_identity imp, ev_impact = imp,
          ev_impact_complete = (case imp of None \<Rightarrow> False | Some i \<Rightarrow> im_complete i),
          ev_reconciled = reconciled, ev_supersedes = 0, ev_removed = False,
          ev_limitations = limits @ obligation_limits\<rparr>)"

definition project_removal ::
  "model_api \<Rightarrow> string \<Rightarrow> nat \<Rightarrow> nat \<Rightarrow> document_analysis \<Rightarrow> nat \<Rightarrow> change_event" where
  "project_removal api uri replaced_generation current_generation before supersedes =
     (let (subjects, imp, limits) =
            (case analysis_program before of
               Some p \<Rightarrow>
                 (map removed_subject (pr_identities p),
                  case api_impact api p (map fst (pr_identities p)) of
                    Some i \<Rightarrow> (Some i, [])
                  | None \<Rightarrow> (None, [''the last resident program could not produce a semantic graph'']))
             | None \<Rightarrow> ([], None, [''the removed document had no valid resident semantic program'']));
          (obligations, obligation_limits) =
            (case obligation_statuses (Some before) of
               Some m \<Rightarrow> (no_obligation_delta\<lparr>od_resolved := bt_keys m, od_complete := True\<rparr>, [])
             | None \<Rightarrow> (no_obligation_delta,
                 [''obligation removal is incomplete because the old program is unavailable'']));
          current = \<lparr>sid_uri = uri, sid_identity = da_identity before\<rparr>
      in \<lparr>ev_schema = workspace_change_schema, ev_stream = [], ev_cursor = 0,
          ev_replaced_generation = replaced_generation, ev_current_generation = current_generation,
          ev_current = current, ev_affected = [current], ev_subjects = subjects,
          ev_diagnostics = \<lparr>dd_added = [], dd_resolved = bt_keys (diagnostic_codes (Some before))\<rparr>,
          ev_obligations = obligations,
          ev_impact_identity = map_option im_graph_identity imp, ev_impact = imp,
          ev_impact_complete = (case imp of None \<Rightarrow> False | Some i \<Rightarrow> im_complete i),
          ev_reconciled = True, ev_supersedes = supersedes, ev_removed = True,
          ev_limitations = limits @ obligation_limits\<rparr>)"

section \<open>The deltas are exact\<close>

lemma sorted_keys: "sort (filter P (bt_keys m)) = filter P (bt_keys m)"
proof -
  have "sorted (bt_keys m)" using bt_keys_sorted [of m] strict_sorted_iff by blast
  then show ?thesis by (intro sorted_sort_id sorted_wrt_filter)
qed

lemma sorted_keys_not_in: "sort (keys_not_in m n) = keys_not_in m n"
  by (simp add: keys_not_in_def sorted_keys)

lemma project_change_fields:
  "ev_diagnostics (project_change api uri g h before after reconciled) =
     \<lparr>dd_added = keys_not_in (diagnostic_codes (Some after)) (diagnostic_codes before),
      dd_resolved = keys_not_in (diagnostic_codes before) (diagnostic_codes (Some after))\<rparr>"
  "ev_current (project_change api uri g h before after reconciled) =
     \<lparr>sid_uri = uri, sid_identity = da_identity after\<rparr>"
  "ev_affected (project_change api uri g h before after reconciled) =
     [\<lparr>sid_uri = uri, sid_identity = da_identity after\<rparr>]"
  "ev_removed (project_change api uri g h before after reconciled) = False"
  "ev_current_generation (project_change api uri g h before after reconciled) = h"
  "ev_obligations (project_change api uri g h before after reconciled) =
     fst (obligation_part (before = None \<and> \<not> reconciled) (obligation_statuses before) (obligation_statuses (Some after)))"
  by (simp_all only: project_change_def Let_def case_prod_unfold change_event.simps sorted_keys_not_in)

lemma project_change_semantics:
  fixes api before after reconciled
  defines "part \<equiv> semantic_part api (before = None \<and> \<not> reconciled)
    (Option.bind before analysis_program) (analysis_program after)"
  shows "ev_subjects (project_change api uri g h before after reconciled) = sort_subjects (fst part)"
    "ev_impact (project_change api uri g h before after reconciled) = fst (snd part)"
    "ev_impact_complete (project_change api uri g h before after reconciled) =
       (case fst (snd part) of None \<Rightarrow> False | Some i \<Rightarrow> im_complete i)"
    "ev_limitations (project_change api uri g h before after reconciled) =
       snd (snd part) @ snd (obligation_part (before = None \<and> \<not> reconciled)
         (obligation_statuses before) (obligation_statuses (Some after)))"
  by (simp_all only: part_def project_change_def Let_def case_prod_unfold change_event.simps)

lemma mem_keys_not_in: "k \<in> set (keys_not_in m n) \<longleftrightarrow> bt_lookup m k \<noteq> None \<and> bt_lookup n k = None"
  by (auto simp: keys_not_in_def set_bt_keys)

definition codes :: "document_analysis option \<Rightarrow> string set" where
  "codes a = (case a of None \<Rightarrow> {} | Some b \<Rightarrow> dg_code ` set (fe_diagnostics (da_front_end b)))"

lemma codes_iff: "bt_lookup (diagnostic_codes a) c \<noteq> None \<longleftrightarrow> c \<in> codes a"
  using bs_member_of_list [of c] by (cases a) (simp_all add: diagnostic_codes_def codes_def bs_member_def)

lemma keys_codes: "set (bt_keys (diagnostic_codes a)) = codes a"
  unfolding set_bt_keys dom_def by (simp only: codes_iff Collect_mem_eq)

lemma keys_not_in_codes: "set (keys_not_in (diagnostic_codes p) (diagnostic_codes q)) = codes p - codes q"
proof (rule set_eqI)
  fix k
  show "k \<in> set (keys_not_in (diagnostic_codes p) (diagnostic_codes q)) \<longleftrightarrow> k \<in> codes p - codes q"
    unfolding mem_keys_not_in Diff_iff codes_iff [symmetric] not_not by (rule refl)
qed

text \<open>A change event lists as added exactly the diagnostic codes of the new snapshot that the
  old one lacks and as resolved exactly those only the old one has; both lists are sorted and
  free of duplicates, and the event names the document and the identity of the new snapshot.\<close>

theorem change_event_diagnostics_exact:
  "set (dd_added (ev_diagnostics (project_change api uri g h before after reconciled))) =
     codes (Some after) - codes before \<and>
   set (dd_resolved (ev_diagnostics (project_change api uri g h before after reconciled))) =
     codes before - codes (Some after) \<and>
   sorted_wrt (<) (dd_added (ev_diagnostics (project_change api uri g h before after reconciled))) \<and>
   sorted_wrt (<) (dd_resolved (ev_diagnostics (project_change api uri g h before after reconciled))) \<and>
   ev_current (project_change api uri g h before after reconciled) =
     \<lparr>sid_uri = uri, sid_identity = da_identity after\<rparr>"
proof -
  have sorted: "sorted_wrt (<) (keys_not_in m n)" for m n :: "(string, unit) btree"
    using bt_keys_sorted [of m] by (simp add: keys_not_in_def sorted_wrt_filter)
  show ?thesis
    unfolding project_change_fields by (simp add: keys_not_in_codes sorted)
qed

text \<open>The set an obligation map stands for: the identities, with the status of the last entry.\<close>

definition obligation_map :: "document_analysis \<Rightarrow> string \<Rightarrow> string option" where
  "obligation_map a =
     (case analysis_program a of None \<Rightarrow> Map.empty
      | Some p \<Rightarrow> map_option status_label \<circ> map_of (rev (map (\<lambda>ob. (ob_identity ob, ob_status ob)) (pr_obligations p))))"

lemma obligation_statuses_lookup:
  "obligation_statuses (Some a) = Some m \<Longrightarrow> bt_lookup m = obligation_map a"
proof
  fix k :: string
  assume "obligation_statuses (Some a) = Some m"
  then obtain p where p: "analysis_program a = Some p"
      "m = bt_of_list (map (\<lambda>ob. (ob_identity ob, status_label (ob_status ob))) (pr_obligations p))"
    by (auto simp: obligation_statuses_def)
  have "map_of (map (\<lambda>ob. (ob_identity ob, status_label (ob_status ob))) xs) k =
      map_option status_label (map_of (map (\<lambda>ob. (ob_identity ob, ob_status ob)) xs) k)" for xs
    by (induction xs) auto
  then show "bt_lookup m k = obligation_map a k"
    by (simp add: p bt_lookup_of_list obligation_map_def rev_map)
qed

lemma status_label_inj: "status_label s = status_label t \<longleftrightarrow> s = t"
  by (cases s; cases t) simp_all

lemma obligation_statuses_None: "obligation_statuses (Some a) = None \<longleftrightarrow> analysis_program a = None"
  by (simp add: obligation_statuses_def)

text \<open>The obligation delta of a change between two snapshots is complete exactly when both
  elaborated, and then lists exactly the obligations that appeared, vanished, or kept their
  identity with another status; otherwise it is empty, incomplete, and the event says so.\<close>

theorem change_event_obligations_exact:
  fixes api uri g h b a reconciled
  defines "od \<equiv> ev_obligations (project_change api uri g h (Some b) a reconciled)"
  shows "od_complete od = (analysis_program b \<noteq> None \<and> analysis_program a \<noteq> None) \<and>
    (if od_complete od then
       set (od_added od) = dom (obligation_map a) - dom (obligation_map b) \<and>
       set (od_resolved od) = dom (obligation_map b) - dom (obligation_map a) \<and>
       set (od_status_changed od) = {k \<in> dom (obligation_map a) \<inter> dom (obligation_map b).
         obligation_map a k \<noteq> obligation_map b k}
     else od = no_obligation_delta \<and>
       ev_limitations (project_change api uri g h (Some b) a reconciled) \<noteq> [])"
proof (cases "obligation_statuses (Some b)")
  case None
  then have "analysis_program b = None" by (simp only: obligation_statuses_None)
  with None show ?thesis
    by (simp add: od_def project_change_fields project_change_semantics obligation_part_def no_obligation_delta_def)
next
  case Some_b: (Some mb)
  show ?thesis
  proof (cases "obligation_statuses (Some a)")
    case None
    then have "analysis_program a = None" by (simp only: obligation_statuses_None)
    with None Some_b show ?thesis
      by (simp add: od_def project_change_fields project_change_semantics obligation_part_def no_obligation_delta_def)
  next
    case (Some ma)
    have progs: "analysis_program b \<noteq> None" "analysis_program a \<noteq> None"
      using Some_b Some by (auto simp: obligation_statuses_None [symmetric])
    note la = obligation_statuses_lookup [OF Some] and lb = obligation_statuses_lookup [OF Some_b]
    have od: "od = \<lparr>od_added = keys_not_in ma mb, od_resolved = keys_not_in mb ma,
        od_status_changed = filter (\<lambda>k. bt_lookup mb k \<noteq> None \<and> bt_lookup mb k \<noteq> bt_lookup ma k) (bt_keys ma),
        od_complete = True\<rparr>"
      by (simp add: od_def project_change_fields obligation_part_def Some Some_b sorted_keys_not_in sorted_keys)
    show ?thesis using progs unfolding od
      by (auto simp: mem_keys_not_in set_bt_keys la lb dom_def)
  qed
qed

text \<open>An event without limitations can be trusted: both sides of the change elaborated (or the
  document is new and it did), its semantic impact was computed, and its obligation delta is
  complete. In particular a side that did not elaborate always leaves a limitation.\<close>

theorem change_event_conservative:
  assumes "ev_limitations (project_change api uri g h before after reconciled) = []"
  shows "analysis_program after \<noteq> None \<and>
    (before = None \<and> \<not> reconciled \<or> (\<exists>b. before = Some b \<and> analysis_program b \<noteq> None)) \<and>
    ev_impact (project_change api uri g h before after reconciled) \<noteq> None \<and>
    od_complete (ev_obligations (project_change api uri g h before after reconciled))"
proof -
  have lim: "snd (snd (semantic_part api fresh p q)) = [] \<Longrightarrow>
      q \<noteq> None \<and> (fresh \<or> p \<noteq> None) \<and> fst (snd (semantic_part api fresh p q)) \<noteq> None" for fresh p q
    by (auto simp: semantic_part_def Let_def split: if_splits option.splits)
  let ?fresh = "before = None \<and> \<not> reconciled"
  have 1: "analysis_program after \<noteq> None" "?fresh \<or> Option.bind before analysis_program \<noteq> None"
      "ev_impact (project_change api uri g h before after reconciled) \<noteq> None"
    using lim [of ?fresh "Option.bind before analysis_program" "analysis_program after"] assms
    by (simp_all add: project_change_semantics)
  then have "od_complete (ev_obligations (project_change api uri g h before after reconciled))"
    by (cases before) (auto simp: project_change_fields obligation_part_def obligation_statuses_def)
  with 1 show ?thesis by (cases before) auto
qed

definition sample_obligation :: model_obligation where
  "sample_obligation = \<lparr>ob_identity = ''o'', ob_subject = ''f'', ob_requirement = ''r'', ob_status = ObUnknown,
     ob_method = ''m'', ob_freshness = ''Fresh'', ob_fallback = None, ob_dependencies = []\<rparr>"

definition sample_diagnostic :: source_diagnostic where
  "sample_diagnostic = \<lparr>dg_code = ''MNE1'', dg_stage = ''Parse'', dg_severity = ''Error'', dg_message = [],
     dg_span = SourceSpan 0 0 0 0, dg_expected = [], dg_found = None, dg_related = []\<rparr>"

definition sample_analysis :: "document_analysis" where
  "sample_analysis =
     \<lparr>da_uri = ''u'', da_identity = ''i'', da_generation = 1, da_profile = ''0.5'',
      da_front_end =
        \<lparr>fe_text = [], fe_identity = ''i'', fe_language_version = ''0.5'', fe_ast = None,
         fe_program = Some \<lparr>pr_module = ''m'', pr_finite_types = [], pr_record_types = [], pr_functions = [],
           pr_identities = [(''f'', ''1'')], pr_obligations = [sample_obligation]\<rparr>,
         fe_tokens = [], fe_cst = CstNode BlockNode (SourceSpan 0 0 0 0) [], fe_tests = None, fe_source_map = None,
         fe_diagnostics = [sample_diagnostic], fe_resolutions = [], fe_module_resolutions = []\<rparr>,
      da_positions = pm_new [], da_symbols = si_empty, da_dependencies = bt_empty\<rparr>"

lemma change_event_conservative_witness:
  "\<exists>api. ev_limitations (project_change api ''u'' 0 1 None sample_analysis False) = [] \<and>
     od_complete (ev_obligations (project_change api ''u'' 0 1 None sample_analysis False))"
proof (intro exI conjI)
  let ?api = "\<lparr>api_diff = (\<lambda>p q. \<lparr>sd_added = [], sd_removed = [], sd_changed = []\<rparr>),
      api_impact = (\<lambda>p roots. Some \<lparr>im_graph_identity = ''g'', im_complete = True\<rparr>),
      api_function_id = (\<lambda>m f. f), api_contract_id = (\<lambda>m f c. c), api_module_id = id\<rparr>"
  show l: "ev_limitations (project_change ?api ''u'' 0 1 None sample_analysis False) = []"
    by (simp add: project_change_semantics semantic_part_def obligation_part_def obligation_statuses_def
        analysis_program_def sample_analysis_def)
  from change_event_conservative [OF this]
  show "od_complete (ev_obligations (project_change ?api ''u'' 0 1 None sample_analysis False))" by blast
qed

section \<open>Removals\<close>

definition removal_obligations :: "document_analysis \<Rightarrow> obligation_delta" where
  "removal_obligations before =
     (case obligation_statuses (Some before) of
        Some m \<Rightarrow> no_obligation_delta\<lparr>od_resolved := bt_keys m, od_complete := True\<rparr>
      | None \<Rightarrow> no_obligation_delta)"

lemma removal_obligations_resolved:
  "set (od_resolved (removal_obligations before)) = dom (obligation_map before) \<and>
   od_added (removal_obligations before) = []"
proof (cases "obligation_statuses (Some before)")
  case None
  then have "analysis_program before = None" by (simp only: obligation_statuses_None)
  with None show ?thesis by (simp add: removal_obligations_def no_obligation_delta_def obligation_map_def)
next
  case (Some m)
  from obligation_statuses_lookup [OF this] Some show ?thesis
    by (simp add: removal_obligations_def no_obligation_delta_def set_bt_keys)
qed

lemma project_removal_fields:
  "ev_removed (project_removal api uri g h before c) = True"
  "ev_reconciled (project_removal api uri g h before c) = True"
  "ev_current (project_removal api uri g h before c) = \<lparr>sid_uri = uri, sid_identity = da_identity before\<rparr>"
  "ev_diagnostics (project_removal api uri g h before c) =
     \<lparr>dd_added = [], dd_resolved = bt_keys (diagnostic_codes (Some before))\<rparr>"
  by (simp_all only: project_removal_def Let_def case_prod_unfold change_event.simps)

lemma project_removal_obligations:
  "ev_obligations (project_removal api uri g h before c) = removal_obligations before"
  by (cases "obligation_statuses (Some before)")
    (simp_all only: project_removal_def removal_obligations_def Let_def case_prod_unfold change_event.simps
      option.case fst_conv)

text \<open>A removal event is marked as removed and reconciled, names the last resident identity, and
  resolves exactly the diagnostics and obligations of the last snapshot while adding none.\<close>

theorem removal_event_resolves_everything:
  "ev_removed (project_removal api uri g h before c) \<and> ev_reconciled (project_removal api uri g h before c) \<and>
   ev_current (project_removal api uri g h before c) = \<lparr>sid_uri = uri, sid_identity = da_identity before\<rparr> \<and>
   dd_added (ev_diagnostics (project_removal api uri g h before c)) = [] \<and>
   set (dd_resolved (ev_diagnostics (project_removal api uri g h before c))) =
     codes (Some before) \<and>
   od_added (ev_obligations (project_removal api uri g h before c)) = [] \<and>
   set (od_resolved (ev_obligations (project_removal api uri g h before c))) = dom (obligation_map before)"
  unfolding project_removal_fields project_removal_obligations
  by (simp add: removal_obligations_resolved keys_codes)

end
