(* ===== verification/Workspace_Index.thy ===== *)
theory Workspace_Index
  imports Modules Protocol
begin

text \<open>
  \<open>workspace_index.rs\<close>: the resident cross-document indexes. An entry is projected from one
  analysis snapshot; the global maps are updated incrementally as entries are published and
  removed. The projection of ranges is \<^const>\<open>tl_range\<close>.
\<close>

section \<open>Join keys\<close>

datatype declaration_key = DeclarationKey
  (dk_start: nat) (dk_end: nat) (dk_line: nat) (dk_column: nat) (dk_kind: symbol_kind) (dk_name: string)

datatype occurrence_key = OccurrenceKey
  (ok_start: nat) (ok_end: nat) (ok_line: nat) (ok_column: nat) (ok_kind: symbol_kind) (ok_name: "string option")

text \<open>\<open>derive(PartialOrd, Ord)\<close>: the lexicographic order of the components.\<close>

instantiation declaration_key :: linorder
begin

definition declaration_key_tuple :: "declaration_key \<Rightarrow> nat \<times> nat \<times> nat \<times> nat \<times> symbol_kind \<times> string" where
  "declaration_key_tuple k = (dk_start k, dk_end k, dk_line k, dk_column k, dk_kind k, dk_name k)"

definition less_eq_declaration_key :: "declaration_key \<Rightarrow> declaration_key \<Rightarrow> bool" where
  "less_eq_declaration_key k k' \<longleftrightarrow> declaration_key_tuple k \<le> declaration_key_tuple k'"

definition less_declaration_key :: "declaration_key \<Rightarrow> declaration_key \<Rightarrow> bool" where
  "less_declaration_key k k' \<longleftrightarrow> declaration_key_tuple k < declaration_key_tuple k'"

instance
proof
  fix x y z :: declaration_key
  note defs = less_eq_declaration_key_def less_declaration_key_def
  show "(x < y) = (x \<le> y \<and> \<not> y \<le> x)" unfolding defs by (rule less_le_not_le)
  show "x \<le> x" unfolding defs by (rule order_refl)
  show "x \<le> y \<Longrightarrow> y \<le> z \<Longrightarrow> x \<le> z" unfolding defs by (rule order_trans)
  show "x \<le> y \<or> y \<le> x" unfolding defs by (rule linear)
  assume "x \<le> y" "y \<le> x"
  then have "declaration_key_tuple x = declaration_key_tuple y" unfolding defs by (rule order_antisym)
  then show "x = y" by (cases x; cases y) (simp add: declaration_key_tuple_def)
qed

end

instantiation occurrence_key :: linorder
begin

definition occurrence_key_tuple :: "occurrence_key \<Rightarrow> nat \<times> nat \<times> nat \<times> nat \<times> symbol_kind \<times> string option" where
  "occurrence_key_tuple k = (ok_start k, ok_end k, ok_line k, ok_column k, ok_kind k, ok_name k)"

definition less_eq_occurrence_key :: "occurrence_key \<Rightarrow> occurrence_key \<Rightarrow> bool" where
  "less_eq_occurrence_key k k' \<longleftrightarrow> occurrence_key_tuple k \<le> occurrence_key_tuple k'"

definition less_occurrence_key :: "occurrence_key \<Rightarrow> occurrence_key \<Rightarrow> bool" where
  "less_occurrence_key k k' \<longleftrightarrow> occurrence_key_tuple k < occurrence_key_tuple k'"

instance
proof
  fix x y z :: occurrence_key
  note defs = less_eq_occurrence_key_def less_occurrence_key_def
  show "(x < y) = (x \<le> y \<and> \<not> y \<le> x)" unfolding defs by (rule less_le_not_le)
  show "x \<le> x" unfolding defs by (rule order_refl)
  show "x \<le> y \<Longrightarrow> y \<le> z \<Longrightarrow> x \<le> z" unfolding defs by (rule order_trans)
  show "x \<le> y \<or> y \<le> x" unfolding defs by (rule linear)
  assume "x \<le> y" "y \<le> x"
  then have "occurrence_key_tuple x = occurrence_key_tuple y" unfolding defs by (rule order_antisym)
  then show "x = y" by (cases x; cases y) (simp add: occurrence_key_tuple_def)
qed

end

section \<open>Entries\<close>

record dep_edge =
  de_module :: string
  de_uri :: string
  de_identity :: string

record indexed_occurrence =
  io_uri :: string
  io_range :: range_info
  io_function :: "nat option"

record workspace_entry =
  we_identity :: string
  we_module :: string
  we_symbols :: "symbol_summary list"
  we_spans :: "source_span list"
  we_lower_names :: "string list"
  we_occurrence_ranges :: "range_info list"
  we_enclosing :: "nat option list"
  we_by_identity :: "(string, nat) btree"
  we_declarations :: "(declaration_key, nat list) btree"
  we_occurrences :: "(occurrence_key, nat list) btree"
  we_functions :: "(string, nat) btree"
  we_types :: "(string, nat list) btree"
  we_exports :: "string bset"
  we_has_uses :: bool
  we_has_external_dep :: bool
  we_deps :: "dep_edge list"
  we_fingerprints :: "(string, string) btree"

text \<open>\<open>queries::summarize\<close> and \<open>intel::enclosing_function\<close>.\<close>

definition summarize :: "toolchain \<Rightarrow> string \<Rightarrow> document_analysis \<Rightarrow> nat \<Rightarrow> symbol_summary" where
  "summarize tc uri a i =
     (let e = si_symbols (da_symbols a) ! i
      in \<lparr>ss_uri = Some uri, ss_name = se_name e, ss_kind = se_kind e, ss_identity = se_identity e,
          ss_container = se_container e, ss_range = tl_range tc (analysis_text a) (se_full_span e),
          ss_name_range = tl_range tc (analysis_text a) (se_name_span e),
          ss_detail = se_detail e, ss_type_name = se_type_name e\<rparr>)"

definition enclosing_function :: "document_analysis \<Rightarrow> nat \<Rightarrow> nat option" where
  "enclosing_function a b =
     Option.bind (fe_ast (da_front_end a)) (\<lambda>t.
       Option.bind
         (min_by_key (\<lambda>f. sp_end (fn_span f) - sp_start (fn_span f))
           (filter (\<lambda>f. sp_start (fn_span f) \<le> b \<and> b \<le> sp_end (fn_span f)) (ast_functions t)))
         (\<lambda>f. position (\<lambda>e. se_kind e = Function \<and> se_name e = an_text (fn_name f))
                (si_symbols (da_symbols a))))"

definition push_index :: "'k::linorder \<Rightarrow> nat \<Rightarrow> ('k, nat list) btree \<Rightarrow> ('k, nat list) btree" where
  "push_index k i = bt_update_default [] k (\<lambda>is. is @ [i])"

definition occurrence_key_of :: "string \<Rightarrow> reference_entry \<Rightarrow> occurrence_key" where
  "occurrence_key_of t r =
     OccurrenceKey (sp_start (re_declaration r)) (sp_end (re_declaration r)) (sp_line (re_declaration r))
       (sp_column (re_declaration r)) (re_kind r)
       (slice t (sp_start (re_occurrence r)) (sp_end (re_occurrence r)))"

definition declaration_key_of :: "symbol_entry \<Rightarrow> declaration_key" where
  "declaration_key_of e =
     DeclarationKey (sp_start (se_name_span e)) (sp_end (se_name_span e)) (sp_line (se_name_span e))
       (sp_column (se_name_span e)) (se_kind e) (se_name e)"

definition entry_identities :: "symbol_entry list \<Rightarrow> (string, nat) btree" where
  "entry_identities es =
     fold (\<lambda>(i, e) m. case se_identity e of None \<Rightarrow> m | Some identity \<Rightarrow> bt_or_insert identity i m)
       (enumerate 0 es) bt_empty"

definition entry_declarations :: "symbol_entry list \<Rightarrow> (declaration_key, nat list) btree" where
  "entry_declarations es = fold (\<lambda>(i, e). push_index (declaration_key_of e) i) (enumerate 0 es) bt_empty"

definition entry_occurrences :: "string \<Rightarrow> reference_entry list \<Rightarrow> (occurrence_key, nat list) btree" where
  "entry_occurrences t rs = fold (\<lambda>(i, r). push_index (occurrence_key_of t r) i) (enumerate 0 rs) bt_empty"

definition entry_functions :: "symbol_entry list \<Rightarrow> (string, nat) btree" where
  "entry_functions es =
     fold (\<lambda>(i, e) m. if se_kind e = Function then bt_or_insert (se_name e) i m else m) (enumerate 0 es) bt_empty"

definition is_type_kind :: "symbol_kind \<Rightarrow> bool" where
  "is_type_kind k \<longleftrightarrow> k = FiniteType \<or> k = RecordType"

definition entry_types :: "symbol_entry list \<Rightarrow> (string, nat list) btree" where
  "entry_types es =
     fold (\<lambda>(i, e) m. if is_type_kind (se_kind e) then push_index (se_name e) i m else m) (enumerate 0 es) bt_empty"

definition entry_exports :: "symbol_entry list \<Rightarrow> string bset" where
  "entry_exports es =
     fold (\<lambda>e s. if (se_kind e = Function \<or> is_type_kind (se_kind e)) \<and> se_container e = None
                 then bs_insert (se_name e) s else s) es bs_empty"

definition has_uses :: "string \<Rightarrow> bool" where
  "has_uses t \<longleftrightarrow> list_ex (\<lambda>l. starts_with (trim_start l) ''use '') (lines t)"

definition build_entry ::
  "environment \<Rightarrow> process_env \<Rightarrow> toolchain \<Rightarrow> string \<Rightarrow> document_analysis \<Rightarrow> document_store
     \<Rightarrow> workspace_entry \<times> document_store" where
  "build_entry env px tc uri a st =
     (let t = analysis_text a;
          es = si_symbols (da_symbols a);
          rs = si_references (da_symbols a);
          summaries = map (summarize tc uri a) [0 ..< length es];
          (edges, st) = dependency_edges env px tc t (fe_module_resolutions (da_front_end a)) st;
          deps = map (\<lambda>(m, u, i). \<lparr>de_module = m, de_uri = u, de_identity = i\<rparr>) edges
      in (\<lparr>we_identity = da_identity a,
           we_module = (case fe_ast (da_front_end a) of None \<Rightarrow> [] | Some t \<Rightarrow> an_text (ast_module t)),
           we_symbols = summaries, we_spans = map se_name_span es,
           we_lower_names = map (\<lambda>s. tl_lowercase tc (ss_name s)) summaries,
           we_occurrence_ranges = map (\<lambda>r. tl_range tc t (re_occurrence r)) rs,
           we_enclosing = map (\<lambda>r. enclosing_function a (sp_start (re_occurrence r))) rs,
           we_by_identity = entry_identities es, we_declarations = entry_declarations es,
           we_occurrences = entry_occurrences t rs, we_functions = entry_functions es,
           we_types = entry_types es, we_exports = entry_exports es,
           we_has_uses = has_uses t,
           we_has_external_dep = list_ex (\<lambda>d. \<not> knows (de_uri d) st) deps,
           we_deps = deps, we_fingerprints = da_dependencies a\<rparr>, st))"

definition entry_is_current ::
  "environment \<Rightarrow> process_env \<Rightarrow> toolchain \<Rightarrow> string \<Rightarrow> workspace_entry \<Rightarrow> document_store
     \<Rightarrow> bool \<times> document_store" where
  "entry_is_current env px tc uri e st =
     (case content_identity env uri st of
        (Inl _, st) \<Rightarrow> (False, st)
      | (Inr current, st) \<Rightarrow>
          if current \<noteq> we_identity e then (False, st)
          else if \<not> we_has_uses e then (bt_entries (we_fingerprints e) = [], st)
          else
            (case content env uri st of
               (Inl _, st) \<Rightarrow> (False, st)
             | (Inr t, st) \<Rightarrow>
                 (case fingerprints_collect env px tc t st of
                    (now, st) \<Rightarrow> (now = we_fingerprints e, st))))"

section \<open>The index\<close>

record workspace_index =
  wx_entries :: "(string, workspace_entry) btree"
  wx_by_identity :: "(string, string \<times> nat) buckets"
  wx_declarations :: "(declaration_key, string \<times> nat) buckets"
  wx_occurrences :: "(occurrence_key, string \<times> nat) buckets"
  wx_functions :: "(string, string \<times> nat) buckets"
  wx_types :: "(string, string \<times> nat) buckets"
  wx_exporters :: "(string, string \<times> string) buckets"
  wx_reverse_deps :: "(string, string) buckets"
  wx_external :: "string bset"

definition index_empty :: workspace_index where
  "index_empty =
     \<lparr>wx_entries = bt_empty, wx_by_identity = bt_empty, wx_declarations = bt_empty, wx_occurrences = bt_empty,
      wx_functions = bt_empty, wx_types = bt_empty, wx_exporters = bt_empty, wx_reverse_deps = bt_empty,
      wx_external = bs_empty\<rparr>"

text \<open>One key with several postings.\<close>

definition bucket_add_all :: "'k::linorder \<Rightarrow> 'a::linorder list \<Rightarrow> ('k, 'a) buckets \<Rightarrow> ('k, 'a) buckets" where
  "bucket_add_all k xs m = bt_update_default bs_empty k (fold bs_insert xs) m"

definition bucket_remove_all :: "'k::linorder \<Rightarrow> 'a::linorder list \<Rightarrow> ('k, 'a) buckets \<Rightarrow> ('k, 'a) buckets" where
  "bucket_remove_all k xs m =
     (case bt_lookup m k of
        None \<Rightarrow> m
      | Some s \<Rightarrow> let s = fold bs_remove xs s in if bs_is_empty s then bt_delete k m else bt_insert k s m)"

definition index_remove :: "string \<Rightarrow> workspace_index \<Rightarrow> workspace_index" where
  "index_remove uri ix =
     (case bt_lookup (wx_entries ix) uri of
        None \<Rightarrow> ix
      | Some e \<Rightarrow>
          \<lparr>wx_entries = bt_delete uri (wx_entries ix),
           wx_by_identity = fold (\<lambda>(k, i). bucket_remove k (uri, i)) (bt_entries (we_by_identity e)) (wx_by_identity ix),
           wx_declarations = fold (\<lambda>(k, is). bucket_remove_all k (map (Pair uri) is))
             (bt_entries (we_declarations e)) (wx_declarations ix),
           wx_occurrences = fold (\<lambda>(k, is). bucket_remove_all k (map (Pair uri) is))
             (bt_entries (we_occurrences e)) (wx_occurrences ix),
           wx_functions = fold (\<lambda>(k, i). bucket_remove k (uri, i)) (bt_entries (we_functions e)) (wx_functions ix),
           wx_types = fold (\<lambda>(k, is). bucket_remove_all k (map (Pair uri) is)) (bt_entries (we_types e)) (wx_types ix),
           wx_exporters =
             (if we_module e = [] then wx_exporters ix
              else fold (\<lambda>k. bucket_remove k (we_module e, uri)) (bt_keys (we_exports e)) (wx_exporters ix)),
           wx_reverse_deps = fold (\<lambda>d. bucket_remove (de_uri d) uri) (we_deps e) (wx_reverse_deps ix),
           wx_external = bs_remove uri (wx_external ix)\<rparr>)"

definition index_publish :: "string \<Rightarrow> workspace_entry \<Rightarrow> workspace_index \<Rightarrow> workspace_index" where
  "index_publish uri e ix =
     (let ix = index_remove uri ix
      in \<lparr>wx_entries = bt_insert uri e (wx_entries ix),
          wx_by_identity = fold (\<lambda>(k, i). bucket_add k (uri, i)) (bt_entries (we_by_identity e)) (wx_by_identity ix),
          wx_declarations = fold (\<lambda>(k, is). bucket_add_all k (map (Pair uri) is))
            (bt_entries (we_declarations e)) (wx_declarations ix),
          wx_occurrences = fold (\<lambda>(k, is). bucket_add_all k (map (Pair uri) is))
            (bt_entries (we_occurrences e)) (wx_occurrences ix),
          wx_functions = fold (\<lambda>(k, i). bucket_add k (uri, i)) (bt_entries (we_functions e)) (wx_functions ix),
          wx_types = fold (\<lambda>(k, is). bucket_add_all k (map (Pair uri) is)) (bt_entries (we_types e)) (wx_types ix),
          wx_exporters =
            (if we_module e = [] then wx_exporters ix
             else fold (\<lambda>k. bucket_add k (we_module e, uri)) (bt_keys (we_exports e)) (wx_exporters ix)),
          wx_reverse_deps = fold (\<lambda>d. bucket_add (de_uri d) uri) (we_deps e) (wx_reverse_deps ix),
          wx_external = (if we_has_external_dep e then bs_insert uri (wx_external ix) else wx_external ix)\<rparr>)"

section \<open>Lookups\<close>

definition bucket_list :: "('k::linorder, 'a::linorder) buckets \<Rightarrow> 'k \<Rightarrow> 'a list" where
  "bucket_list m k = (case bt_lookup m k of None \<Rightarrow> [] | Some s \<Rightarrow> bt_keys s)"

definition occurrence_count :: "workspace_index \<Rightarrow> nat" where
  "occurrence_count ix = sum_list (map (\<lambda>(k, s). length (bt_entries s)) (bt_entries (wx_occurrences ix)))"

definition index_entry :: "string \<Rightarrow> workspace_index \<Rightarrow> workspace_entry option" where
  "index_entry uri ix = bt_lookup (wx_entries ix) uri"

definition lookup_identity :: "string \<Rightarrow> workspace_index \<Rightarrow> (string \<times> nat) option" where
  "lookup_identity identity ix = bucket_first (wx_by_identity ix) identity"

definition lookup_declarations :: "declaration_key \<Rightarrow> workspace_index \<Rightarrow> (string \<times> nat) list" where
  "lookup_declarations k ix = bucket_list (wx_declarations ix) k"

definition indexed_at :: "workspace_index \<Rightarrow> string \<times> nat \<Rightarrow> indexed_occurrence option" where
  "indexed_at ix p =
     (case p of (uri, i) \<Rightarrow>
        Option.bind (bt_lookup (wx_entries ix) uri) (\<lambda>e.
          map_option (\<lambda>r. \<lparr>io_uri = uri, io_range = r,
                           io_function = (case nth_opt (we_enclosing e) i of None \<Rightarrow> None | Some f \<Rightarrow> f)\<rparr>)
            (nth_opt (we_occurrence_ranges e) i)))"

definition lookup_occurrences :: "occurrence_key \<Rightarrow> workspace_index \<Rightarrow> indexed_occurrence list" where
  "lookup_occurrences k ix = List.map_filter (indexed_at ix) (bucket_list (wx_occurrences ix) k)"

text \<open>The UTF-8 encoding of the last code point, the upper bound of the range query.\<close>

definition last_char :: string where
  "last_char = [CHR 0xF4, CHR 0x8F, CHR 0xBF, CHR 0xBF]"

definition occurrences_for_declaration ::
  "source_span \<Rightarrow> symbol_kind \<Rightarrow> workspace_index \<Rightarrow> indexed_occurrence list" where
  "occurrences_for_declaration d kind ix =
     (let low = OccurrenceKey (sp_start d) (sp_end d) (sp_line d) (sp_column d) kind None;
          high = OccurrenceKey (sp_start d) (sp_end d) (sp_line d) (sp_column d) kind (Some last_char)
      in List.map_filter (indexed_at ix)
           (concat (map (\<lambda>(k, s). bt_keys s)
             (filter (\<lambda>(k, s). low \<le> k \<and> k \<le> high) (bt_entries (wx_occurrences ix))))))"

definition lookup_function :: "string \<Rightarrow> workspace_index \<Rightarrow> (string \<times> nat) list" where
  "lookup_function n ix = bucket_list (wx_functions ix) n"

definition lookup_type :: "string \<Rightarrow> workspace_index \<Rightarrow> (string \<times> nat) list" where
  "lookup_type n ix = bucket_list (wx_types ix) n"

definition exporters_of :: "string \<Rightarrow> workspace_index \<Rightarrow> (string \<times> string) list" where
  "exporters_of n ix = bucket_list (wx_exporters ix) n"

definition importers_of :: "string \<Rightarrow> workspace_index \<Rightarrow> string list" where
  "importers_of uri ix = bucket_list (wx_reverse_deps ix) uri"

definition external_dep_uris :: "workspace_index \<Rightarrow> string list" where
  "external_dep_uris ix = bt_keys (wx_external ix)"

section \<open>Query statistics\<close>

record service_stats =
  sv_frontend_runs :: nat
  sv_snapshot_hits :: nat
  sv_snapshot_misses :: nat
  sv_index_publishes :: nat
  sv_index_queries :: nat
  sv_index_repairs :: nat

definition stats_zero :: service_stats where
  "stats_zero = \<lparr>sv_frontend_runs = 0, sv_snapshot_hits = 0, sv_snapshot_misses = 0,
     sv_index_publishes = 0, sv_index_queries = 0, sv_index_repairs = 0\<rparr>"

text \<open>The relaxed atomic counters: \<open>fetch_add(1)\<close> wraps.\<close>

definition wrap_succ :: "nat \<Rightarrow> nat" where
  "wrap_succ n = (n + 1) mod 2 ^ 64"

definition record_frontend_run :: "service_stats \<Rightarrow> service_stats" where
  "record_frontend_run s = s\<lparr>sv_frontend_runs := wrap_succ (sv_frontend_runs s)\<rparr>"

definition record_snapshot_hit :: "service_stats \<Rightarrow> service_stats" where
  "record_snapshot_hit s = s\<lparr>sv_snapshot_hits := wrap_succ (sv_snapshot_hits s)\<rparr>"

definition record_snapshot_miss :: "service_stats \<Rightarrow> service_stats" where
  "record_snapshot_miss s = s\<lparr>sv_snapshot_misses := wrap_succ (sv_snapshot_misses s)\<rparr>"

definition record_index_publish :: "service_stats \<Rightarrow> service_stats" where
  "record_index_publish s = s\<lparr>sv_index_publishes := wrap_succ (sv_index_publishes s)\<rparr>"

definition record_index_query :: "service_stats \<Rightarrow> service_stats" where
  "record_index_query s = s\<lparr>sv_index_queries := wrap_succ (sv_index_queries s)\<rparr>"

definition record_index_repair :: "service_stats \<Rightarrow> service_stats" where
  "record_index_repair s = s\<lparr>sv_index_repairs := wrap_succ (sv_index_repairs s)\<rparr>"

end
