(* ===== verification/Workspace_Index_Spec.thy ===== *)
theory Workspace_Index_Spec
  imports Workspace_Index
begin

text \<open>
  The global maps of the workspace index are determined by the entries. The locale \<open>posting\<close> is
  the contract of one map: every posting belongs to one document, and the map holds exactly the
  postings of the resident entries. Each of the seven maps is an interpretation.
\<close>

section \<open>Loops over buckets\<close>

lemma fold_members_union:
  assumes "\<And>x m. bucket_members (f x m) k = bucket_members m k \<union> g x"
  shows "bucket_members (fold f xs m) k = bucket_members m k \<union> (\<Union>x \<in> set xs. g x)"
  by (induction xs arbitrary: m) (auto simp: assms)

lemma fold_members_diff:
  assumes "\<And>x m. bucket_members (f x m) k = bucket_members m k - g x"
  shows "bucket_members (fold f xs m) k = bucket_members m k - (\<Union>x \<in> set xs. g x)"
  by (induction xs arbitrary: m) (auto simp: assms)

lemma fold_no_empty:
  assumes "\<And>x m. x \<in> set xs \<Longrightarrow> no_empty_bucket m \<Longrightarrow> no_empty_bucket (f x m)"
  shows "no_empty_bucket m \<Longrightarrow> no_empty_bucket (fold f xs m)"
  using assms by (induction xs arbitrary: m) auto

lemma member_fold_insert: "bs_member y (fold bs_insert xs s) \<longleftrightarrow> y \<in> set xs \<or> bs_member y s"
  by (induction xs arbitrary: s) auto

lemma member_fold_remove: "bs_member y (fold bs_remove xs s) \<longleftrightarrow> y \<notin> set xs \<and> bs_member y s"
  by (induction xs arbitrary: s) auto

lemma members_add_all:
  "bucket_members (bucket_add_all k xs m) k' = bucket_members m k' \<union> (if k' = k then set xs else {})"
  by (auto simp: bucket_members_def bucket_add_all_def member_fold_insert split: option.splits)

lemma no_empty_add_all: "xs \<noteq> [] \<Longrightarrow> no_empty_bucket m \<Longrightarrow> no_empty_bucket (bucket_add_all k xs m)"
  by (cases xs) (auto simp: no_empty_bucket_def bucket_add_all_def bs_is_empty_iff member_fold_insert split: if_splits)

lemma members_remove_all:
  "bucket_members (bucket_remove_all k xs m) k' = bucket_members m k' - (if k' = k then set xs else {})"
  by (auto simp: bucket_members_def bucket_remove_all_def Let_def member_fold_remove bs_is_empty_iff
      split: option.splits if_splits)

lemma no_empty_remove_all: "no_empty_bucket m \<Longrightarrow> no_empty_bucket (bucket_remove_all k xs m)"
  by (auto simp: no_empty_bucket_def bucket_remove_all_def Let_def split: option.splits if_splits)

lemma set_bucket_list: "set (bucket_list m k) = bucket_members m k"
  by (auto simp: bucket_list_def bucket_members_def set_keys_bset split: option.splits)

lemma sorted_bucket_list: "sorted_wrt (<) (bucket_list m k)"
  by (auto simp: bucket_list_def bt_keys_sorted split: option.splits)

section \<open>The contract of one map\<close>

locale posting =
  fixes contrib :: "string \<Rightarrow> workspace_entry \<Rightarrow> 'k::linorder \<Rightarrow> 'v::linorder set"
    and owner :: "'v \<Rightarrow> string"
  assumes owned: "v \<in> contrib uri e k \<Longrightarrow> owner v = uri"
begin

definition posted :: "(string, workspace_entry) btree \<Rightarrow> ('k, 'v) buckets \<Rightarrow> bool" where
  "posted es m \<longleftrightarrow> no_empty_bucket m \<and>
     (\<forall>k. bucket_members m k = {v. \<exists>uri e. bt_lookup es uri = Some e \<and> v \<in> contrib uri e k})"

lemma posted_empty: "posted bt_empty bt_empty"
  by (simp add: posted_def)

lemma posted_insert:
  assumes "posted es m" "bt_lookup es uri = None" "no_empty_bucket m'"
    and "\<And>k. bucket_members m' k = bucket_members m k \<union> contrib uri e k"
  shows "posted (bt_insert uri e es) m'"
  unfolding posted_def
proof (intro conjI allI set_eqI)
  fix k v
  have "v \<in> bucket_members m' k \<longleftrightarrow> (\<exists>u f. bt_lookup es u = Some f \<and> v \<in> contrib u f k) \<or> v \<in> contrib uri e k"
    using assms(1,4) by (auto simp: posted_def)
  also have "\<dots> \<longleftrightarrow> (\<exists>u f. bt_lookup (bt_insert uri e es) u = Some f \<and> v \<in> contrib u f k)"
    unfolding bt_lookup_insert using assms(2) by (metis option.distinct(1) option.inject)
  finally show "v \<in> bucket_members m' k \<longleftrightarrow>
      v \<in> {v. \<exists>u f. bt_lookup (bt_insert uri e es) u = Some f \<and> v \<in> contrib u f k}"
    by simp
qed (rule assms(3))

lemma posted_delete:
  assumes "posted es m" "bt_lookup es uri = Some e" "no_empty_bucket m'"
    and "\<And>k. bucket_members m' k = bucket_members m k - contrib uri e k"
  shows "posted (bt_delete uri es) m'"
  unfolding posted_def
proof (intro conjI allI set_eqI)
  fix k v
  have "v \<in> bucket_members m' k \<longleftrightarrow> (\<exists>u f. bt_lookup es u = Some f \<and> v \<in> contrib u f k) \<and> v \<notin> contrib uri e k"
    using assms(1,4) by (auto simp: posted_def)
  also have "\<dots> \<longleftrightarrow> (\<exists>u f. bt_lookup (bt_delete uri es) u = Some f \<and> v \<in> contrib u f k)"
    using owned assms(2) by (auto split: if_splits) (metis option.inject)+
  finally show "v \<in> bucket_members m' k \<longleftrightarrow>
      v \<in> {v. \<exists>u f. bt_lookup (bt_delete uri es) u = Some f \<and> v \<in> contrib u f k}"
    by simp
qed (rule assms(3))

lemma posted_unique: "posted es m \<Longrightarrow> posted es n \<Longrightarrow> m = n"
  by (rule buckets_eqI) (simp_all add: posted_def)

lemma posted_list:
  "posted es m \<Longrightarrow> set (bucket_list m k) = {v. \<exists>uri e. bt_lookup es uri = Some e \<and> v \<in> contrib uri e k}"
  by (simp add: posted_def set_bucket_list)

lemma posted_first:
  assumes "posted es m"
  shows "case bucket_first m k of
      None \<Rightarrow> \<forall>uri e. bt_lookup es uri = Some e \<longrightarrow> contrib uri e k = {}
    | Some v \<Rightarrow> (\<exists>uri e. bt_lookup es uri = Some e \<and> v \<in> contrib uri e k) \<and>
        (\<forall>uri e w. bt_lookup es uri = Some e \<longrightarrow> w \<in> contrib uri e k \<longrightarrow> v \<le> w)"
  using assms bucket_first_None [of m k] bucket_first_Some [of m k]
  by (auto simp: posted_def split: option.splits)

end

section \<open>What each map holds\<close>

definition single_postings :: "(workspace_entry \<Rightarrow> ('k::linorder, nat) btree) \<Rightarrow> string \<Rightarrow> workspace_entry \<Rightarrow> 'k \<Rightarrow> (string \<times> nat) set" where
  "single_postings field uri e k = {(uri, i) | i. bt_lookup (field e) k = Some i}"

definition list_postings :: "(workspace_entry \<Rightarrow> ('k::linorder, nat list) btree) \<Rightarrow> string \<Rightarrow> workspace_entry \<Rightarrow> 'k \<Rightarrow> (string \<times> nat) set" where
  "list_postings field uri e k = {(uri, i) | i is. bt_lookup (field e) k = Some is \<and> i \<in> set is}"

definition export_postings :: "string \<Rightarrow> workspace_entry \<Rightarrow> string \<Rightarrow> (string \<times> string) set" where
  "export_postings uri e k = (if we_module e \<noteq> [] \<and> bs_member k (we_exports e) then {(we_module e, uri)} else {})"

definition importer_postings :: "string \<Rightarrow> workspace_entry \<Rightarrow> string \<Rightarrow> string set" where
  "importer_postings uri e k = (if k \<in> de_uri ` set (we_deps e) then {uri} else {})"

interpretation single: posting "single_postings field" fst for field
  by unfold_locales (auto simp: single_postings_def)

interpretation listed: posting "list_postings field" fst for field
  by unfold_locales (auto simp: list_postings_def)

interpretation export_map: posting export_postings snd
  by unfold_locales (auto simp: export_postings_def split: if_splits)

interpretation import_map: posting importer_postings id
  by unfold_locales (auto simp: importer_postings_def split: if_splits)

text \<open>Entries never list a key without an index, which is what the build guarantees.\<close>

definition entry_wf :: "workspace_entry \<Rightarrow> bool" where
  "entry_wf e \<longleftrightarrow>
     (\<forall>k. bt_lookup (we_declarations e) k \<noteq> Some []) \<and> (\<forall>k. bt_lookup (we_occurrences e) k \<noteq> Some []) \<and>
     (\<forall>k. bt_lookup (we_types e) k \<noteq> Some [])"

definition index_ok :: "workspace_index \<Rightarrow> bool" where
  "index_ok ix \<longleftrightarrow>
     posting.posted (single_postings we_by_identity) (wx_entries ix) (wx_by_identity ix) \<and>
     posting.posted (list_postings we_declarations) (wx_entries ix) (wx_declarations ix) \<and>
     posting.posted (list_postings we_occurrences) (wx_entries ix) (wx_occurrences ix) \<and>
     posting.posted (single_postings we_functions) (wx_entries ix) (wx_functions ix) \<and>
     posting.posted (list_postings we_types) (wx_entries ix) (wx_types ix) \<and>
     export_map.posted (wx_entries ix) (wx_exporters ix) \<and>
     import_map.posted (wx_entries ix) (wx_reverse_deps ix) \<and>
     (\<forall>u. bs_member u (wx_external ix) \<longleftrightarrow>
        (\<exists>e. bt_lookup (wx_entries ix) u = Some e \<and> we_has_external_dep e)) \<and>
     (\<forall>u e. bt_lookup (wx_entries ix) u = Some e \<longrightarrow> entry_wf e)"

subsection \<open>The postings an entry adds and takes away\<close>

lemma single_fold:
  fixes field :: "workspace_entry \<Rightarrow> ('k::linorder, nat) btree"
  shows "bucket_members (fold (\<lambda>(k, i). bucket_add k (uri, i)) (bt_entries (field e)) m) k' =
     bucket_members m k' \<union> single_postings field uri e k'"
  "bucket_members (fold (\<lambda>(k, i). bucket_remove k (uri, i)) (bt_entries (field e)) m) k' =
     bucket_members m k' - single_postings field uri e k'"
proof -
  have u: "(\<Union>x \<in> set (bt_entries (field e)). if fst x = k' then {(uri, snd x)} else {}) = single_postings field uri e k'"
    by (force simp: single_postings_def bt_lookup_eq_Some split: if_splits)
  have add: "bucket_members ((\<lambda>(k, i). bucket_add k (uri, i)) x m) k' =
      bucket_members m k' \<union> (if fst x = k' then {(uri, snd x)} else {})" for x :: "'k \<times> nat" and m
    by (cases x) auto
  show "bucket_members (fold (\<lambda>(k, i). bucket_add k (uri, i)) (bt_entries (field e)) m) k' =
     bucket_members m k' \<union> single_postings field uri e k'"
    unfolding fold_members_union [OF add] u ..
  have rem: "bucket_members ((\<lambda>(k, i). bucket_remove k (uri, i)) x m) k' =
      bucket_members m k' - (if fst x = k' then {(uri, snd x)} else {})" for x :: "'k \<times> nat" and m
    by (cases x) auto
  show "bucket_members (fold (\<lambda>(k, i). bucket_remove k (uri, i)) (bt_entries (field e)) m) k' =
     bucket_members m k' - single_postings field uri e k'"
    unfolding fold_members_diff [OF rem] u ..
qed

lemma single_no_empty:
  "no_empty_bucket m \<Longrightarrow> no_empty_bucket (fold (\<lambda>(k, i). bucket_add k (uri, i)) xs m)"
  "no_empty_bucket m \<Longrightarrow> no_empty_bucket (fold (\<lambda>(k, i). bucket_remove k (uri, i)) xs m)"
  by (auto intro!: fold_no_empty no_empty_bucket_add no_empty_bucket_remove)

lemma list_fold:
  fixes field :: "workspace_entry \<Rightarrow> ('k::linorder, nat list) btree"
  shows "bucket_members (fold (\<lambda>(k, is). bucket_add_all k (map (Pair uri) is)) (bt_entries (field e)) m) k' =
     bucket_members m k' \<union> list_postings field uri e k'"
  "bucket_members (fold (\<lambda>(k, is). bucket_remove_all k (map (Pair uri) is)) (bt_entries (field e)) m) k' =
     bucket_members m k' - list_postings field uri e k'"
proof -
  have u: "(\<Union>x \<in> set (bt_entries (field e)). if k' = fst x then set (map (Pair uri) (snd x)) else {}) =
      list_postings field uri e k'"
    by (force simp: list_postings_def bt_lookup_eq_Some split: if_splits)
  have add: "bucket_members ((\<lambda>(k, is). bucket_add_all k (map (Pair uri) is)) x m) k' =
      bucket_members m k' \<union> (if k' = fst x then set (map (Pair uri) (snd x)) else {})" for x :: "'k \<times> nat list" and m
    by (cases x) (simp add: members_add_all)
  show "bucket_members (fold (\<lambda>(k, is). bucket_add_all k (map (Pair uri) is)) (bt_entries (field e)) m) k' =
     bucket_members m k' \<union> list_postings field uri e k'"
    unfolding fold_members_union [OF add] u ..
  have rem: "bucket_members ((\<lambda>(k, is). bucket_remove_all k (map (Pair uri) is)) x m) k' =
      bucket_members m k' - (if k' = fst x then set (map (Pair uri) (snd x)) else {})" for x :: "'k \<times> nat list" and m
    by (cases x) (simp add: members_remove_all)
  show "bucket_members (fold (\<lambda>(k, is). bucket_remove_all k (map (Pair uri) is)) (bt_entries (field e)) m) k' =
     bucket_members m k' - list_postings field uri e k'"
    unfolding fold_members_diff [OF rem] u ..
qed

lemma list_no_empty:
  fixes field :: "workspace_entry \<Rightarrow> ('k::linorder, nat list) btree"
  shows "no_empty_bucket m \<Longrightarrow> \<forall>k. bt_lookup (field e) k \<noteq> Some [] \<Longrightarrow>
   no_empty_bucket (fold (\<lambda>(k, is). bucket_add_all k (map (Pair uri) is)) (bt_entries (field e)) m)"
  "no_empty_bucket m \<Longrightarrow> no_empty_bucket (fold (\<lambda>(k, is). bucket_remove_all k (map (Pair uri) is)) xs m)"
  by (rule fold_no_empty; force simp: bt_lookup_eq_Some intro!: no_empty_add_all no_empty_remove_all)+

lemma export_fold:
  "bucket_members (if we_module e = [] then m
     else fold (\<lambda>k. bucket_add k (we_module e, uri)) (bt_keys (we_exports e)) m) k' =
     bucket_members m k' \<union> export_postings uri e k'"
  "bucket_members (if we_module e = [] then m
     else fold (\<lambda>k. bucket_remove k (we_module e, uri)) (bt_keys (we_exports e)) m) k' =
     bucket_members m k' - export_postings uri e k'"
proof -
  have add: "bucket_members (bucket_add k (we_module e, uri) m) k' =
      bucket_members m k' \<union> (if k = k' then {(we_module e, uri)} else {})" for k m
    by auto
  have rem: "bucket_members (bucket_remove k (we_module e, uri) m) k' =
      bucket_members m k' - (if k = k' then {(we_module e, uri)} else {})" for k m
    by auto
  show "bucket_members (if we_module e = [] then m
     else fold (\<lambda>k. bucket_add k (we_module e, uri)) (bt_keys (we_exports e)) m) k' =
     bucket_members m k' \<union> export_postings uri e k'"
    by (cases "we_module e = []")
      (auto simp: fold_members_union [where f = "\<lambda>k. bucket_add k (we_module e, uri)", OF add]
        export_postings_def set_keys_bset split: if_splits)
  show "bucket_members (if we_module e = [] then m
     else fold (\<lambda>k. bucket_remove k (we_module e, uri)) (bt_keys (we_exports e)) m) k' =
     bucket_members m k' - export_postings uri e k'"
    by (cases "we_module e = []")
      (auto simp: fold_members_diff [where f = "\<lambda>k. bucket_remove k (we_module e, uri)", OF rem]
        export_postings_def set_keys_bset split: if_splits)
qed

lemma importer_fold:
  "bucket_members (fold (\<lambda>d. bucket_add (de_uri d) uri) (we_deps e) m) k' =
     bucket_members m k' \<union> importer_postings uri e k'"
  "bucket_members (fold (\<lambda>d. bucket_remove (de_uri d) uri) (we_deps e) m) k' =
     bucket_members m k' - importer_postings uri e k'"
proof -
  have add: "bucket_members (bucket_add (de_uri d) uri m) k' =
      bucket_members m k' \<union> (if de_uri d = k' then {uri} else {})" for d :: dep_edge and m
    by auto
  have rem: "bucket_members (bucket_remove (de_uri d) uri m) k' =
      bucket_members m k' - (if de_uri d = k' then {uri} else {})" for d :: dep_edge and m
    by auto
  show "bucket_members (fold (\<lambda>d. bucket_add (de_uri d) uri) (we_deps e) m) k' =
     bucket_members m k' \<union> importer_postings uri e k'"
    unfolding fold_members_union [where f = "\<lambda>d. bucket_add (de_uri d) uri", OF add] importer_postings_def by auto
  show "bucket_members (fold (\<lambda>d. bucket_remove (de_uri d) uri) (we_deps e) m) k' =
     bucket_members m k' - importer_postings uri e k'"
    unfolding fold_members_diff [where f = "\<lambda>d. bucket_remove (de_uri d) uri", OF rem] importer_postings_def by auto
qed

section \<open>Publishing and removing keep the maps exact\<close>

lemma single_publish:
  "posting.posted (single_postings field) es m \<Longrightarrow> bt_lookup es uri = None \<Longrightarrow>
   posting.posted (single_postings field) (bt_insert uri e es)
     (fold (\<lambda>(k, i). bucket_add k (uri, i)) (bt_entries (field e)) m)"
  using single.posted_insert [OF _ _ _ single_fold(1)] single_no_empty(1) single.posted_def by blast

lemma single_remove:
  "posting.posted (single_postings field) es m \<Longrightarrow> bt_lookup es uri = Some e \<Longrightarrow>
   posting.posted (single_postings field) (bt_delete uri es)
     (fold (\<lambda>(k, i). bucket_remove k (uri, i)) (bt_entries (field e)) m)"
  using single.posted_delete [OF _ _ _ single_fold(2)] single_no_empty(2) single.posted_def by blast

lemma listed_publish:
  "posting.posted (list_postings field) es m \<Longrightarrow> bt_lookup es uri = None \<Longrightarrow>
   \<forall>k. bt_lookup (field e) k \<noteq> Some [] \<Longrightarrow>
   posting.posted (list_postings field) (bt_insert uri e es)
     (fold (\<lambda>(k, is). bucket_add_all k (map (Pair uri) is)) (bt_entries (field e)) m)"
  using listed.posted_insert [OF _ _ _ list_fold(1)] list_no_empty(1) listed.posted_def by blast

lemma listed_remove:
  "posting.posted (list_postings field) es m \<Longrightarrow> bt_lookup es uri = Some e \<Longrightarrow>
   posting.posted (list_postings field) (bt_delete uri es)
     (fold (\<lambda>(k, is). bucket_remove_all k (map (Pair uri) is)) (bt_entries (field e)) m)"
  using listed.posted_delete [OF _ _ _ list_fold(2)] list_no_empty(2) listed.posted_def by blast

lemma loop_no_empty:
  "no_empty_bucket m \<Longrightarrow> no_empty_bucket (if c then m else fold (\<lambda>k. bucket_add k x) ks m)"
  "no_empty_bucket m \<Longrightarrow> no_empty_bucket (if c then m else fold (\<lambda>k. bucket_remove k x) ks m)"
  "no_empty_bucket n \<Longrightarrow> no_empty_bucket (fold (\<lambda>d. bucket_add (f d) y) ds n)"
  "no_empty_bucket n \<Longrightarrow> no_empty_bucket (fold (\<lambda>d. bucket_remove (f d) y) ds n)"
  by (simp_all add: fold_no_empty no_empty_bucket_add no_empty_bucket_remove)

lemma export_publish:
  "export_map.posted es m \<Longrightarrow> bt_lookup es uri = None \<Longrightarrow>
   export_map.posted (bt_insert uri e es)
     (if we_module e = [] then m else fold (\<lambda>k. bucket_add k (we_module e, uri)) (bt_keys (we_exports e)) m)"
  using export_map.posted_insert [OF _ _ _ export_fold(1)] loop_no_empty(1) export_map.posted_def by blast

lemma export_remove:
  "export_map.posted es m \<Longrightarrow> bt_lookup es uri = Some e \<Longrightarrow>
   export_map.posted (bt_delete uri es)
     (if we_module e = [] then m else fold (\<lambda>k. bucket_remove k (we_module e, uri)) (bt_keys (we_exports e)) m)"
  using export_map.posted_delete [OF _ _ _ export_fold(2)] loop_no_empty(2) export_map.posted_def by blast

lemma importer_publish:
  "import_map.posted es m \<Longrightarrow> bt_lookup es uri = None \<Longrightarrow>
   import_map.posted (bt_insert uri e es) (fold (\<lambda>d. bucket_add (de_uri d) uri) (we_deps e) m)"
  using import_map.posted_insert [OF _ _ _ importer_fold(1)] loop_no_empty(3) import_map.posted_def by blast

lemma importer_remove:
  "import_map.posted es m \<Longrightarrow> bt_lookup es uri = Some e \<Longrightarrow>
   import_map.posted (bt_delete uri es) (fold (\<lambda>d. bucket_remove (de_uri d) uri) (we_deps e) m)"
  using import_map.posted_delete [OF _ _ _ importer_fold(2)] loop_no_empty(4) import_map.posted_def by blast

lemmas publish_steps = single_publish listed_publish export_publish importer_publish
lemmas remove_steps = single_remove listed_remove export_remove importer_remove

lemma index_ok_empty: "index_ok index_empty"
  by (simp add: index_ok_def index_empty_def single.posted_empty listed.posted_empty
      export_map.posted_empty import_map.posted_empty)

lemma index_entries:
  "wx_entries (index_remove uri ix) = bt_delete uri (wx_entries ix)"
  "wx_entries (index_publish uri e ix) = bt_insert uri e (bt_delete uri (wx_entries ix))"
proof -
  show 1: "wx_entries (index_remove uri ix) = bt_delete uri (wx_entries ix)"
    by (auto simp: index_remove_def intro: btree_eqI split: option.splits)
  show "wx_entries (index_publish uri e ix) = bt_insert uri e (bt_delete uri (wx_entries ix))"
    by (simp add: index_publish_def Let_def 1)
qed

lemma index_ok_remove:
  assumes ok: "index_ok ix"
  shows "index_ok (index_remove uri ix)"
proof (cases "bt_lookup (wx_entries ix) uri")
  case None
  then show ?thesis using ok by (simp add: index_remove_def)
next
  case (Some e)
  note parts = ok [unfolded index_ok_def, THEN conjunct1] ok [unfolded index_ok_def, THEN conjunct2]
  have ext: "bs_member u (bs_remove uri (wx_external ix)) \<longleftrightarrow>
      (\<exists>f. bt_lookup (bt_delete uri (wx_entries ix)) u = Some f \<and> we_has_external_dep f)" for u
    using parts by auto
  have wf: "bt_lookup (bt_delete uri (wx_entries ix)) u = Some f \<Longrightarrow> entry_wf f" for u f
    using parts by (auto split: if_splits)
  show ?thesis
    unfolding index_ok_def index_remove_def Some option.case workspace_index.simps
    by (intro conjI allI impI remove_steps [OF _ Some] ext; (erule wf)?; (simp only: parts)?)
qed

lemma index_ok_publish:
  assumes ok: "index_ok ix" and wf: "entry_wf e"
  shows "index_ok (index_publish uri e ix)"
proof -
  define jx where "jx = index_remove uri ix"
  have parts: "index_ok jx" using index_ok_remove [OF ok] by (simp add: jx_def)
  note parts = parts [unfolded index_ok_def, THEN conjunct1] parts [unfolded index_ok_def, THEN conjunct2]
  have none: "bt_lookup (wx_entries jx) uri = None" by (simp add: jx_def index_entries)
  have wfs: "\<forall>k. bt_lookup (we_declarations e) k \<noteq> Some []" "\<forall>k. bt_lookup (we_occurrences e) k \<noteq> Some []"
    "\<forall>k. bt_lookup (we_types e) k \<noteq> Some []" using wf by (auto simp: entry_wf_def)
  have ext: "bs_member u (if we_has_external_dep e then bs_insert uri (wx_external jx) else wx_external jx) \<longleftrightarrow>
      (\<exists>f. bt_lookup (bt_insert uri e (wx_entries jx)) u = Some f \<and> we_has_external_dep f)" for u
    using parts none by auto
  have wf': "bt_lookup (bt_insert uri e (wx_entries jx)) u = Some f \<Longrightarrow> entry_wf f" for u f
    using parts wf by (auto split: if_splits)
  show ?thesis
    unfolding index_ok_def index_publish_def jx_def [symmetric] Let_def workspace_index.simps
    by (intro conjI allI impI publish_steps [OF _ none] ext; (erule wf')?; (simp only: parts wfs not_False_eq_True)?)
qed

section \<open>The index is a function of its entries\<close>

lemma index_ok_unique:
  assumes "index_ok ix" "index_ok jx" "wx_entries ix = wx_entries jx"
  shows "ix = jx"
proof -
  note oks = assms(1,2) [unfolded index_ok_def]
  have "wx_external ix = wx_external jx"
    using oks assms(3) by (intro bset_eqI) simp
  moreover have "wx_by_identity ix = wx_by_identity jx" "wx_functions ix = wx_functions jx"
    using oks assms(3) by (simp_all only:) (blast intro: single.posted_unique)+
  moreover have "wx_declarations ix = wx_declarations jx" "wx_occurrences ix = wx_occurrences jx"
    "wx_types ix = wx_types jx"
    using oks assms(3) by (simp_all only:) (blast intro: listed.posted_unique)+
  moreover have "wx_exporters ix = wx_exporters jx" "wx_reverse_deps ix = wx_reverse_deps jx"
    using oks assms(3) by (simp_all only:) (blast intro: export_map.posted_unique import_map.posted_unique)+
  ultimately show ?thesis using assms(3) by (intro workspace_index.equality) simp_all
qed

text \<open>Building the index anew from the resident entries.\<close>

definition index_rebuild :: "(string, workspace_entry) btree \<Rightarrow> workspace_index" where
  "index_rebuild es = fold (\<lambda>(uri, e). index_publish uri e) (bt_entries es) index_empty"

inductive index_reachable :: "workspace_index \<Rightarrow> bool" where
  index_start: "index_reachable index_empty"
| index_step_publish: "index_reachable ix \<Longrightarrow> entry_wf e \<Longrightarrow> index_reachable (index_publish uri e ix)"
| index_step_remove: "index_reachable ix \<Longrightarrow> index_reachable (index_remove uri ix)"

lemma index_reachable_ok: "index_reachable ix \<Longrightarrow> index_ok ix"
  by (induction rule: index_reachable.induct) (simp_all add: index_ok_empty index_ok_publish index_ok_remove)

lemma fold_publish:
  "index_ok ix \<Longrightarrow> \<forall>(u, e) \<in> set xs. entry_wf e \<Longrightarrow>
   index_ok (fold (\<lambda>(u, e). index_publish u e) xs ix) \<and>
   wx_entries (fold (\<lambda>(u, e). index_publish u e) xs ix) = fold (\<lambda>(u, e) m. bt_insert u e (bt_delete u m)) xs (wx_entries ix)"
proof (induction xs arbitrary: ix)
  case (Cons x xs)
  obtain u e where x: "x = (u, e)" by (metis prod.exhaust)
  have "index_ok (index_publish u e ix)" using Cons.prems x by (intro index_ok_publish) auto
  from Cons.IH [OF this] Cons.prems(2) show ?case by (simp add: x index_entries)
qed simp

lemma fold_insert_entries:
  fixes es :: "('k::linorder, 'v) btree"
  shows "fold (\<lambda>(u, e) m. bt_insert u e (bt_delete u m)) (bt_entries es) bt_empty = es"
proof -
  have "bt_insert u e (bt_delete u m) = bt_insert u e m" for u :: 'k and e and m :: "('k, 'v) btree"
    by (rule btree_eqI) simp
  then have eq: "fold (\<lambda>(u, e) m. bt_insert u e (bt_delete u m)) (bt_entries es) bt_empty = bt_of_list (bt_entries es)"
    unfolding bt_of_list_def by (intro fold_cong) (auto simp: fun_eq_iff)
  have d: "distinct (map fst (bt_entries es))" by (rule al_sorted_distinct [OF bt_sorted])
  then have "map_of (rev (bt_entries es)) = map_of (bt_entries es)"
    using map_of_inject_set [of "rev (bt_entries es)" "bt_entries es"] by (simp add: rev_map [symmetric])
  then have "bt_lookup (bt_of_list (bt_entries es)) k = bt_lookup es k" for k
    unfolding bt_lookup_of_list by (simp add: bt_lookup_def)
  then show ?thesis unfolding eq by (rule btree_eqI)
qed

text \<open>C6: Whatever sequence of publications and removals led to it, the incrementally maintained
  index equals the index built from scratch out of its resident entries: publishing an entry
  replaces exactly the document's previous contributions to every global map and removing it
  leaves no trace.\<close>

theorem index_equals_rebuild:
  assumes "index_reachable ix"
  shows "ix = index_rebuild (wx_entries ix)"
proof -
  have ok: "index_ok ix" by (rule index_reachable_ok [OF assms])
  then have wf: "\<forall>(u, e) \<in> set (bt_entries (wx_entries ix)). entry_wf e"
    by (auto simp: index_ok_def bt_lookup_eq_Some)
  have "index_ok (index_rebuild (wx_entries ix)) \<and> wx_entries (index_rebuild (wx_entries ix)) = wx_entries ix"
    using fold_publish [OF index_ok_empty wf] fold_insert_entries [of "wx_entries ix"]
    by (simp add: index_rebuild_def index_empty_def)
  then show ?thesis using index_ok_unique [OF ok] by simp
qed

section \<open>Lookups\<close>

text \<open>The lookups of a reachable index answer for the resident entries exactly: the identity
  lookup gives the least claimant, the declaration, function and type lookups give every match,
  the exporter lookup every named module that exports the name, and the importer lookup every
  document with a dependency edge to the URI, each in order and without repetition.\<close>

theorem index_lookups_exact:
  assumes "index_reachable ix"
  shows "set (lookup_declarations k ix) =
      {(uri, i). \<exists>e is. index_entry uri ix = Some e \<and> bt_lookup (we_declarations e) k = Some is \<and> i \<in> set is} \<and>
    set (lookup_function n ix) = {(uri, i). \<exists>e. index_entry uri ix = Some e \<and> bt_lookup (we_functions e) n = Some i} \<and>
    set (lookup_type n ix) =
      {(uri, i). \<exists>e is. index_entry uri ix = Some e \<and> bt_lookup (we_types e) n = Some is \<and> i \<in> set is} \<and>
    set (exporters_of n ix) =
      {(m, uri). \<exists>e. index_entry uri ix = Some e \<and> m = we_module e \<and> m \<noteq> [] \<and> bs_member n (we_exports e)} \<and>
    set (importers_of u ix) = {uri. \<exists>e. index_entry uri ix = Some e \<and> u \<in> de_uri ` set (we_deps e)} \<and>
    sorted_wrt (<) (lookup_declarations k ix) \<and> sorted_wrt (<) (importers_of u ix) \<and>
    (case lookup_identity identity ix of
       None \<Rightarrow> \<forall>uri e. index_entry uri ix = Some e \<longrightarrow> bt_lookup (we_by_identity e) identity = None
     | Some (uri, i) \<Rightarrow> \<exists>e. index_entry uri ix = Some e \<and> bt_lookup (we_by_identity e) identity = Some i)"
proof -
  note ok = index_reachable_ok [OF assms, unfolded index_ok_def]
  have d: "set (lookup_declarations k ix) =
      {v. \<exists>uri e. bt_lookup (wx_entries ix) uri = Some e \<and> v \<in> list_postings we_declarations uri e k}"
    unfolding lookup_declarations_def using ok by (intro listed.posted_list) simp
  have t: "set (lookup_type n ix) =
      {v. \<exists>uri e. bt_lookup (wx_entries ix) uri = Some e \<and> v \<in> list_postings we_types uri e n}"
    unfolding lookup_type_def using ok by (intro listed.posted_list) simp
  have f: "set (lookup_function n ix) =
      {v. \<exists>uri e. bt_lookup (wx_entries ix) uri = Some e \<and> v \<in> single_postings we_functions uri e n}"
    unfolding lookup_function_def using ok by (intro single.posted_list) simp
  have x: "set (exporters_of n ix) =
      {v. \<exists>uri e. bt_lookup (wx_entries ix) uri = Some e \<and> v \<in> export_postings uri e n}"
    unfolding exporters_of_def using ok by (intro export_map.posted_list) simp
  have i: "set (importers_of u ix) =
      {v. \<exists>uri e. bt_lookup (wx_entries ix) uri = Some e \<and> v \<in> importer_postings uri e u}"
    unfolding importers_of_def using ok by (intro import_map.posted_list) simp
  have first: "case lookup_identity identity ix of
       None \<Rightarrow> \<forall>uri e. index_entry uri ix = Some e \<longrightarrow> bt_lookup (we_by_identity e) identity = None
     | Some (uri, i) \<Rightarrow> \<exists>e. index_entry uri ix = Some e \<and> bt_lookup (we_by_identity e) identity = Some i"
    using single.posted_first [of we_by_identity "wx_entries ix" "wx_by_identity ix" identity] ok
    by (auto simp: lookup_identity_def index_entry_def single_postings_def split: option.splits prod.splits)
  show ?thesis
    unfolding d t f x i using first sorted_bucket_list [of "wx_declarations ix" k] sorted_bucket_list [of "wx_reverse_deps ix" u]
    by (auto simp: list_postings_def single_postings_def export_postings_def importer_postings_def index_entry_def
        lookup_declarations_def importers_of_def split: if_splits)
qed

section \<open>Built entries are well formed\<close>

definition no_empty_list :: "('k::linorder, nat list) btree \<Rightarrow> bool" where
  "no_empty_list m \<longleftrightarrow> (\<forall>k. bt_lookup m k \<noteq> Some [])"

lemma no_empty_list_push: "no_empty_list m \<Longrightarrow> no_empty_list (push_index k i m)"
  by (simp add: no_empty_list_def push_index_def)

lemma no_empty_list_fold:
  "(\<And>x m. no_empty_list m \<Longrightarrow> no_empty_list (f x m)) \<Longrightarrow> no_empty_list m \<Longrightarrow> no_empty_list (fold f xs m)"
  by (induction xs arbitrary: m) simp_all

lemma no_empty_list_empty: "no_empty_list bt_empty"
  by (simp add: no_empty_list_def)

lemma build_entry_wf: "entry_wf (fst (build_entry env px tc uri a st))"
proof -
  have "no_empty_list (entry_declarations es)" "no_empty_list (entry_occurrences t rs)"
    "no_empty_list (entry_types es)" for es t rs
    unfolding entry_declarations_def entry_occurrences_def entry_types_def
    by (rule no_empty_list_fold [OF _ no_empty_list_empty]; auto intro: no_empty_list_push)+
  then show ?thesis
    by (simp add: entry_wf_def build_entry_def Let_def no_empty_list_def split: prod.split)
qed

section \<open>A concrete index\<close>

definition sample_entry :: "string \<Rightarrow> string list \<Rightarrow> workspace_entry" where
  "sample_entry identity imported =
     \<lparr>we_identity = identity, we_module = ''m'', we_symbols = [], we_spans = [], we_lower_names = [],
      we_occurrence_ranges = [\<lparr>ri_start_line = 0, ri_start_character = 4, ri_end_line = 0, ri_end_character = 5,
        ri_start_byte = 4, ri_end_byte = 5\<rparr>],
      we_enclosing = [None], we_by_identity = bt_insert identity 0 bt_empty, we_declarations = bt_empty,
      we_occurrences = bt_insert (OccurrenceKey 0 1 1 1 Binding (Some ''x'')) [0] bt_empty,
      we_functions = bt_insert ''f'' 0 bt_empty, we_types = bt_empty, we_exports = bs_insert ''f'' bs_empty,
      we_has_uses = imported \<noteq> [], we_has_external_dep = False,
      we_deps = map (\<lambda>u. \<lparr>de_module = u, de_uri = u, de_identity = u\<rparr>) imported,
      we_fingerprints = bt_empty\<rparr>"

lemma sample_entry_wf: "entry_wf (sample_entry i imported)"
  by (simp add: entry_wf_def sample_entry_def)

definition sample_index_pair :: workspace_index where
  "sample_index_pair = index_publish ''b'' (sample_entry ''ib'' [''a'']) (index_publish ''a'' (sample_entry ''ia'' []) index_empty)"

lemma sample_index_reachable: "index_reachable sample_index_pair"
  unfolding sample_index_pair_def by (intro index_reachable.intros sample_entry_wf)

lemma index_equals_rebuild_witness:
  "index_publish ''a'' (sample_entry ''ia'' []) (index_remove ''a'' sample_index_pair) =
     index_rebuild (wx_entries (index_publish ''a'' (sample_entry ''ia'' []) (index_remove ''a'' sample_index_pair)))"
  by (rule index_equals_rebuild) (intro index_step_publish index_step_remove sample_index_reachable sample_entry_wf)

lemma index_lookups_exact_witness: "set (importers_of ''a'' sample_index_pair) = {''b''}"
proof -
  have "index_entry uri sample_index_pair =
      (if uri = ''b'' then Some (sample_entry ''ib'' [''a'']) else if uri = ''a'' then Some (sample_entry ''ia'' []) else None)" for uri
    by (simp add: index_entry_def sample_index_pair_def index_entries index_empty_def)
  moreover have "set (importers_of ''a'' sample_index_pair) =
      {uri. \<exists>e. index_entry uri sample_index_pair = Some e \<and> ''a'' \<in> de_uri ` set (we_deps e)}"
    using index_lookups_exact [OF sample_index_reachable] by blast
  ultimately show ?thesis by (auto simp: sample_entry_def split: if_splits)
qed

end
