(* ===== verification/Service.thy ===== *)
theory Service
  imports Event_Projection Workspace_Index
begin

text \<open>
  The language service of \<open>queries.rs\<close>: one store, one event hub, the cached analyses and the
  workspace index derived from them, and the life cycle operations that keep them together.

  The service is modelled as its sequential executions: each call runs to its end before the next
  begins (the locks of the code order concurrent calls and are never poisoned here). The durable
  checkpoint file, path canonicalisation and the identities of the tool chain and the build are
  fields of \<open>platform\<close>.
\<close>

section \<open>State\<close>

record workspace_checkpoint =
  wc_schema :: string
  wc_root :: string
  wc_stream :: string
  wc_generation :: nat
  wc_cursor :: nat
  wc_history :: "change_event list"
  wc_documents :: "(string, string) btree"
  wc_discovery_roots :: "string list"
  wc_toolchain :: "string option"
  wc_build :: "string option"

datatype checkpoint_read =
    CheckpointMissing | CheckpointUnreadable string | CheckpointMalformed string
  | CheckpointParsed workspace_checkpoint

record platform =
  pf_env :: environment
  pf_process :: process_env
  pf_tools :: toolchain
  pf_read_checkpoint :: "string \<Rightarrow> checkpoint_read"
  pf_write_checkpoint :: "string \<Rightarrow> workspace_checkpoint \<Rightarrow> string option"
  pf_canonical :: "string \<Rightarrow> string + string"
  pf_toolchain :: string
  pf_build :: string

record service =
  sy_store :: document_store
  sy_hub :: event_hub
  sy_analyses :: "(string, document_analysis) btree"
  sy_index :: workspace_index
  sy_stats :: service_stats
  sy_ensured :: nat
  sy_checkpoint :: "workspace_checkpoint option"

definition service_new :: "string \<Rightarrow> string option \<Rightarrow> service" where
  "service_new stream root =
     \<lparr>sy_store = store_new root, sy_hub = new_with_stream default_event_capacity stream,
      sy_analyses = bt_empty, sy_index = index_empty, sy_stats = stats_zero, sy_ensured = u64_max,
      sy_checkpoint = None\<rparr>"

text \<open>An operation of the store, with its result.\<close>

definition on_store :: "(document_store \<Rightarrow> 'a \<times> document_store) \<Rightarrow> service \<Rightarrow> 'a \<times> service" where
  "on_store f sv = (case f (sy_store sv) of (r, st) \<Rightarrow> (r, sv\<lparr>sy_store := st\<rparr>))"

definition count_stat :: "(service_stats \<Rightarrow> service_stats) \<Rightarrow> service \<Rightarrow> service" where
  "count_stat f sv = sv\<lparr>sy_stats := f (sy_stats sv)\<rparr>"

section \<open>Invalidation\<close>

text \<open>The worklist of \<open>invalidate_transitive_importers\<close>; the top of the stack is the head.\<close>

definition visit_importer ::
  "string \<Rightarrow> string bset \<times> string list \<times> string list \<Rightarrow> string bset \<times> string list \<times> string list" where
  "visit_importer importer s =
     (case s of (visited, frontier, victims) \<Rightarrow>
        if bs_member importer visited then s
        else (bs_insert importer visited, importer # frontier, victims @ [importer]))"

definition importer_universe :: "workspace_index \<Rightarrow> string set" where
  "importer_universe ix = (\<Union>k. bucket_members (wx_reverse_deps ix) k)"

definition unvisited :: "workspace_index \<Rightarrow> string bset \<Rightarrow> nat" where
  "unvisited ix visited = card (importer_universe ix - {u. bs_member u visited})"

lemma finite_importers: "finite (importer_universe ix)"
proof -
  have "importer_universe ix \<subseteq> (\<Union>(k, s) \<in> set (bt_entries (wx_reverse_deps ix)). set (bt_keys s))"
    by (force simp: importer_universe_def bucket_members_def set_keys_bset bt_lookup_eq_Some split: option.splits)
  then show ?thesis by (rule finite_subset) auto
qed

lemma set_importers_of: "set (importers_of u ix) = bucket_members (wx_reverse_deps ix) u"
  by (auto simp: importers_of_def bucket_list_def bucket_members_def set_keys_bset split: option.splits)

lemma importers_in_universe: "set (importers_of u ix) \<subseteq> importer_universe ix"
  by (auto simp: set_importers_of importer_universe_def)

lemma fold_visit_measure:
  "set is \<subseteq> importer_universe ix \<Longrightarrow> fold visit_importer is (visited, frontier, victims) = (visited', frontier', victims') \<Longrightarrow>
   unvisited ix visited' + length frontier' = unvisited ix visited + length frontier \<and>
   unvisited ix visited' \<le> unvisited ix visited"
proof (induction "is" arbitrary: visited frontier victims)
  case (Cons i "is")
  show ?case
  proof (cases "bs_member i visited")
    case True
    then show ?thesis using Cons.IH [of visited frontier victims] Cons.prems by (simp add: visit_importer_def)
  next
    case False
    have "importer_universe ix - {u. bs_member u (bs_insert i visited)} =
        (importer_universe ix - {u. bs_member u visited}) - {i}" by auto
    moreover have "i \<in> importer_universe ix - {u. bs_member u visited}" using Cons.prems(1) False by simp
    ultimately have "Suc (unvisited ix (bs_insert i visited)) = unvisited ix visited"
      unfolding unvisited_def using finite_importers [of ix] by (simp only: card_Suc_Diff1 finite_Diff)
    moreover have "unvisited ix visited' + length frontier' = unvisited ix (bs_insert i visited) + length (i # frontier) \<and>
        unvisited ix visited' \<le> unvisited ix (bs_insert i visited)"
      using Cons.IH [of "bs_insert i visited" "i # frontier" "victims @ [i]"] Cons.prems False
      by (simp add: visit_importer_def)
    ultimately show ?thesis by simp
  qed
qed simp

function invalidation_walk :: "workspace_index \<Rightarrow> string bset \<Rightarrow> string list \<Rightarrow> string list \<Rightarrow> string list" where
  "invalidation_walk ix visited [] victims = victims"
| "invalidation_walk ix visited (current # frontier) victims =
     (case fold visit_importer (importers_of current ix) (visited, frontier, victims) of
        (visited', frontier', victims') \<Rightarrow> invalidation_walk ix visited' frontier' victims')"
  by pat_completeness auto
termination
proof (relation "measure (\<lambda>(ix, visited, frontier, victims). 2 * unvisited ix visited + length frontier)", goal_cases)
  case 2
  from fold_visit_measure [OF importers_in_universe 2(1) [symmetric, unfolded 2(2) [symmetric]]] show ?case by simp
qed simp

definition invalidation_victims :: "workspace_index \<Rightarrow> string \<Rightarrow> string list" where
  "invalidation_victims ix changed = invalidation_walk ix (bs_insert changed bs_empty) [changed] [changed]"

text \<open>The change callback.\<close>

definition invalidate_transitive_importers :: "string \<Rightarrow> service \<Rightarrow> service" where
  "invalidate_transitive_importers changed sv =
     (let victims = invalidation_victims (sy_index sv) changed
      in sv\<lparr>sy_analyses := fold bt_delete victims (sy_analyses sv),
            sy_index := fold index_remove victims (sy_index sv)\<rparr>)"

text \<open>An editor operation of the store followed by its notifications.\<close>

definition mutate_store :: "(document_store \<Rightarrow> 'a \<times> document_store \<times> string list) \<Rightarrow> service \<Rightarrow> 'a \<times> service" where
  "mutate_store f sv =
     (case f (sy_store sv) of (r, st, notified) \<Rightarrow>
        (r, fold invalidate_transitive_importers notified (sv\<lparr>sy_store := st\<rparr>)))"

section \<open>Snapshots\<close>

definition cached_snapshot :: "platform \<Rightarrow> string \<Rightarrow> string \<Rightarrow> service \<Rightarrow> document_analysis option \<times> service" where
  "cached_snapshot pf uri fingerprint sv =
     (case bt_lookup (sy_analyses sv) uri of
        None \<Rightarrow> (None, sv)
      | Some a \<Rightarrow>
          if da_identity a \<noteq> fingerprint then (None, sv)
          else if bt_entries (da_dependencies a) = [] then (Some a, sv)
          else
            (case on_store (content (pf_env pf) uri) sv of
               (Inl _, sv) \<Rightarrow> (None, sv)
             | (Inr t, sv) \<Rightarrow>
                 (case on_store (fingerprints_collect (pf_env pf) (pf_process pf) (pf_tools pf) t) sv of
                    (now, sv) \<Rightarrow> (if now \<noteq> da_dependencies a then None else Some a, sv))))"

definition content_fingerprint :: "platform \<Rightarrow> string \<Rightarrow> service \<Rightarrow> (service_error + string) \<times> service" where
  "content_fingerprint pf uri = on_store (content_identity (pf_env pf) uri)"

definition cached_snapshot_if_current :: "platform \<Rightarrow> string \<Rightarrow> service \<Rightarrow> document_analysis option \<times> service" where
  "cached_snapshot_if_current pf uri sv =
     (case content_fingerprint pf uri sv of
        (Inl _, sv) \<Rightarrow> (None, sv)
      | (Inr fingerprint, sv) \<Rightarrow> cached_snapshot pf uri fingerprint sv)"

definition publish_workspace_entry :: "platform \<Rightarrow> string \<Rightarrow> document_analysis \<Rightarrow> service \<Rightarrow> service" where
  "publish_workspace_entry pf uri a sv =
     (case on_store (build_entry (pf_env pf) (pf_process pf) (pf_tools pf) uri a) sv of
        (e, sv) \<Rightarrow> count_stat record_index_publish (sv\<lparr>sy_index := index_publish uri e (sy_index sv)\<rparr>))"

text \<open>The frontend run of \<open>snapshot\<close>, after both cache checks have failed.\<close>

definition analyze_document ::
  "platform \<Rightarrow> string \<Rightarrow> string \<Rightarrow> service \<Rightarrow> (service_error + document_analysis) \<times> service" where
  "analyze_document pf uri fingerprint sv =
     (case on_store (content (pf_env pf) uri) sv of
        (Inl e, sv) \<Rightarrow> (Inl e, sv)
      | (Inr t, sv) \<Rightarrow>
          let generation = ds_generation (sy_store sv);
              sv = count_stat record_frontend_run sv;
              (a, sv) = on_store (analyze_with_resolver (pf_env pf) (pf_process pf) (pf_tools pf) uri
                          (envelope (pf_env pf) (pf_tools pf) uri t) generation) sv
          in (case content_fingerprint pf uri sv of
                (Inl e, sv) \<Rightarrow> (Inl e, sv)
              | (Inr now, sv) \<Rightarrow>
                  let sv = (if now = fingerprint
                            then publish_workspace_entry pf uri a (sv\<lparr>sy_analyses := bt_insert uri a (sy_analyses sv)\<rparr>)
                            else sv)
                  in (Inr a, count_stat record_snapshot_miss sv)))"

definition snapshot :: "platform \<Rightarrow> string \<Rightarrow> service \<Rightarrow> (service_error + document_analysis) \<times> service" where
  "snapshot pf uri sv =
     (case content_fingerprint pf uri sv of
        (Inl e, sv) \<Rightarrow> (Inl e, sv)
      | (Inr fingerprint, sv) \<Rightarrow>
          (case cached_snapshot pf uri fingerprint sv of
             (Some a, sv) \<Rightarrow> (Inr a, count_stat record_snapshot_hit sv)
           | (None, sv) \<Rightarrow>
               (case content_fingerprint pf uri sv of
                  (Inl e, sv) \<Rightarrow> (Inl e, sv)
                | (Inr fingerprint, sv) \<Rightarrow>
                    (case cached_snapshot pf uri fingerprint sv of
                       (Some a, sv) \<Rightarrow> (Inr a, count_stat record_snapshot_hit sv)
                     | (None, sv) \<Rightarrow> analyze_document pf uri fingerprint sv))))"

section \<open>Index maintenance\<close>

definition entry_usable :: "platform \<Rightarrow> string \<Rightarrow> service \<Rightarrow> bool \<times> service" where
  "entry_usable pf uri sv =
     (case index_entry uri (sy_index sv) of
        None \<Rightarrow> (False, sv)
      | Some e \<Rightarrow> on_store (entry_is_current (pf_env pf) (pf_process pf) (pf_tools pf) uri e) sv)"

definition ensure_workspace_entry :: "platform \<Rightarrow> string \<Rightarrow> service \<Rightarrow> bool \<times> service" where
  "ensure_workspace_entry pf uri sv =
     (case entry_usable pf uri sv of
        (True, sv) \<Rightarrow> (True, count_stat record_index_query sv)
      | (False, sv) \<Rightarrow>
          (case snapshot pf uri (count_stat record_index_repair sv) of
             (Inr _, sv) \<Rightarrow> entry_usable pf uri sv
           | (Inl _, sv) \<Rightarrow> (False, sv\<lparr>sy_index := index_remove uri (sy_index sv)\<rparr>)))"

fun ensure_each :: "platform \<Rightarrow> string list \<Rightarrow> service \<Rightarrow> string list \<times> service" where
  "ensure_each pf [] sv = ([], sv)"
| "ensure_each pf (uri # uris) sv =
     (case ensure_workspace_entry pf uri sv of
        (usable, sv) \<Rightarrow>
          (case ensure_each pf uris sv of
             (failed, sv) \<Rightarrow> (if usable then failed else uri # failed, sv)))"

definition ensure_workspace_entries :: "platform \<Rightarrow> service \<Rightarrow> string list \<times> service" where
  "ensure_workspace_entries pf sv =
     (let version = ds_version (sy_store sv)
      in if sy_ensured sv = version then ensure_each pf (external_dep_uris (sy_index sv)) sv
         else
           (case ensure_each pf (sort (document_uris (sy_store sv))) sv of
              (failed, sv) \<Rightarrow>
                (failed, if failed = [] \<and> ds_version (sy_store sv) = version then sv\<lparr>sy_ensured := version\<rparr> else sv)))"

text \<open>The two scans of \<open>evict_stale_analyses\<close>.\<close>

fun stale_uris :: "platform \<Rightarrow> (string \<times> document_analysis) list \<Rightarrow> service \<Rightarrow> string list \<times> service" where
  "stale_uris pf [] sv = ([], sv)"
| "stale_uris pf ((uri, a) # xs) sv =
     (case content_fingerprint pf uri sv of
        (current, sv) \<Rightarrow>
          (case stale_uris pf xs sv of
             (stale, sv) \<Rightarrow> (if ok_of current = Some (da_identity a) then stale else uri # stale, sv)))"

fun evict_each :: "platform \<Rightarrow> string list \<Rightarrow> service \<Rightarrow> string list \<times> service" where
  "evict_each pf [] sv = ([], sv)"
| "evict_each pf (uri # uris) sv =
     (case bt_lookup (sy_analyses sv) uri of
        None \<Rightarrow> evict_each pf uris sv
      | Some a \<Rightarrow>
          (case content_fingerprint pf uri sv of
             (current, sv) \<Rightarrow>
               if ok_of current \<noteq> Some (da_identity a) then
                 (case evict_each pf uris (sv\<lparr>sy_analyses := bt_delete uri (sy_analyses sv)\<rparr>) of
                    (evicted, sv) \<Rightarrow> (uri # evicted, sv))
               else evict_each pf uris sv))"

definition evict_stale_analyses :: "platform \<Rightarrow> service \<Rightarrow> nat \<times> service" where
  "evict_stale_analyses pf sv =
     (case stale_uris pf (bt_entries (sy_analyses sv)) sv of
        (stale, sv) \<Rightarrow>
          (case evict_each pf stale sv of
             (evicted, sv) \<Rightarrow>
               (length evicted, sv\<lparr>sy_index := fold index_remove evicted (sy_index sv)\<rparr>)))"

section \<open>The checkpoint\<close>

definition checkpoint_schema :: string where
  "checkpoint_schema = ''mncs.workspace-checkpoint/1''"

definition workspace_checkpoint_path :: "string \<Rightarrow> string" where
  "workspace_checkpoint_path root =
     path_join (path_join root ''.mncs'') ''mnls-language-service.checkpoint.json''"

definition load_workspace_checkpoint ::
  "platform \<Rightarrow> string \<Rightarrow> string \<Rightarrow> service_error + workspace_checkpoint option" where
  "load_workspace_checkpoint pf path root =
     (case pf_read_checkpoint pf path of
        CheckpointMissing \<Rightarrow> Inr None
      | CheckpointUnreadable e \<Rightarrow> Inl (InvalidRequest (''could not read workspace checkpoint: '' @ e))
      | CheckpointMalformed e \<Rightarrow> Inl (InvalidRequest (''workspace checkpoint is malformed: '' @ e))
      | CheckpointParsed c \<Rightarrow>
          if wc_schema c \<noteq> checkpoint_schema then
            Inl (InvalidRequest (''workspace checkpoint schema is unsupported: '' @ wc_schema c))
          else if wc_root c \<noteq> root \<or> wc_stream c = [] then Inr None
          else Inr (Some c))"

fun checkpoint_identities :: "platform \<Rightarrow> string list \<Rightarrow> service \<Rightarrow> (string \<times> string) list \<times> service" where
  "checkpoint_identities pf [] sv = ([], sv)"
| "checkpoint_identities pf (uri # uris) sv =
     (case on_store (content (pf_env pf) uri) sv of
        (r, sv) \<Rightarrow>
          (case checkpoint_identities pf uris sv of
             (ids, sv) \<Rightarrow>
               (case r of Inl _ \<Rightarrow> ids
                | Inr t \<Rightarrow> (uri, en_identity (envelope (pf_env pf) (pf_tools pf) uri t)) # ids, sv)))"

definition fresh_checkpoint :: "platform \<Rightarrow> string \<Rightarrow> service \<Rightarrow> workspace_checkpoint" where
  "fresh_checkpoint pf root sv =
     \<lparr>wc_schema = checkpoint_schema, wc_root = root, wc_stream = hub_stream (sy_hub sv),
      wc_generation = ds_generation (sy_store sv), wc_cursor = hub_next (sy_hub sv), wc_history = [],
      wc_documents = bt_empty, wc_discovery_roots = discovery_roots (sy_store sv),
      wc_toolchain = Some (pf_toolchain pf), wc_build = Some (pf_build pf)\<rparr>"

definition persist_checkpoint :: "platform \<Rightarrow> service \<Rightarrow> (service_error + unit) \<times> service" where
  "persist_checkpoint pf sv =
     (case ds_root (sy_store sv) of
        None \<Rightarrow> (Inr (), sv)
      | Some root \<Rightarrow>
          (case checkpoint_identities pf (document_uris (sy_store sv)) sv of
             (ids, sv) \<Rightarrow>
               let base = (case sy_checkpoint sv of Some c \<Rightarrow> c | None \<Rightarrow> fresh_checkpoint pf root sv);
                   (stream, cursor, history) = checkpoint_snapshot (sy_hub sv);
                   c = base\<lparr>wc_generation := ds_generation (sy_store sv), wc_stream := stream, wc_cursor := cursor,
                            wc_history := history, wc_documents := bt_of_list ids,
                            wc_discovery_roots := discovery_roots (sy_store sv),
                            wc_toolchain := Some (pf_toolchain pf), wc_build := Some (pf_build pf)\<rparr>
               in (case pf_write_checkpoint pf (workspace_checkpoint_path root) c of
                     Some e \<Rightarrow> (Inl (InvalidRequest e), sv)
                   | None \<Rightarrow> (Inr (), sv\<lparr>sy_checkpoint := Some c\<rparr>))))"

section \<open>Change events\<close>

definition observe_change ::
  "platform \<Rightarrow> string \<Rightarrow> nat \<Rightarrow> nat \<Rightarrow> document_analysis option \<Rightarrow> bool \<Rightarrow> bool \<Rightarrow> service
     \<Rightarrow> (service_error + nat option) \<times> service" where
  "observe_change pf uri replaced_generation expected_generation before reconciled persist sv =
     (case snapshot pf uri (snd (on_store (content (pf_env pf) uri) sv)) of
        (Inl e, sv) \<Rightarrow> (Inl e, sv)
      | (Inr after, sv) \<Rightarrow>
          if ds_generation (sy_store sv) \<noteq> expected_generation \<or> da_generation after \<noteq> expected_generation
          then (Inr None, sv)
          else
            let event = project_change (tl_model (pf_tools pf)) uri replaced_generation expected_generation
                          before after reconciled;
                (cursor, hub) = hub_push event (sy_hub sv);
                sv = snd (evict_stale_analyses pf (sv\<lparr>sy_hub := hub\<rparr>))
            in if persist then
                 (case persist_checkpoint pf sv of
                    (Inl e, sv) \<Rightarrow> (Inl e, sv)
                  | (Inr _, sv) \<Rightarrow> (Inr (Some cursor), sv))
               else (Inr (Some cursor), sv))"

definition observe_removal ::
  "platform \<Rightarrow> string \<Rightarrow> nat \<Rightarrow> nat \<Rightarrow> document_analysis \<Rightarrow> service \<Rightarrow> (service_error + nat option) \<times> service" where
  "observe_removal pf uri replaced_generation expected_generation before sv =
     (if ds_generation (sy_store sv) \<noteq> expected_generation then (Inr None, sv)
      else
        let supersedes = latest_cursor_for_uri uri (sy_hub sv);
            event = project_removal (tl_model (pf_tools pf)) uri replaced_generation expected_generation before supersedes;
            (cursor, hub) = hub_push event (sy_hub sv);
            sv = snd (evict_stale_analyses pf (sv\<lparr>sy_hub := hub\<rparr>))
        in (case persist_checkpoint pf sv of
              (Inl e, sv) \<Rightarrow> (Inl e, sv)
            | (Inr _, sv) \<Rightarrow> (Inr (Some cursor), sv)))"

definition begin_change :: "platform \<Rightarrow> string \<Rightarrow> service \<Rightarrow> (nat \<times> document_analysis option) \<times> service" where
  "begin_change pf uri sv =
     (let replaced_generation = ds_generation (sy_store sv)
      in case cached_snapshot_if_current pf uri sv of
           (Some a, sv) \<Rightarrow> ((replaced_generation, Some a), sv)
         | (None, sv) \<Rightarrow>
             (case snapshot pf uri sv of
                (Inl _, sv) \<Rightarrow> ((replaced_generation, None), sv)
              | (Inr a, sv) \<Rightarrow>
                  (case content_fingerprint pf uri sv of
                     (now, sv) \<Rightarrow>
                       ((replaced_generation, if ok_of now = Some (da_identity a) then Some a else None), sv))))"

text \<open>The tail of \<open>did_open\<close> and its siblings: observe the change, then answer the generation.\<close>

definition observe_edit ::
  "platform \<Rightarrow> string \<Rightarrow> nat \<Rightarrow> document_analysis option \<Rightarrow> (service_error + nat) \<times> service
     \<Rightarrow> (service_error + nat) \<times> service" where
  "observe_edit pf uri replaced_generation before s =
     (case s of
        (Inl e, sv) \<Rightarrow> (Inl e, sv)
      | (Inr generation, sv) \<Rightarrow>
          (case observe_change pf uri replaced_generation generation before False True sv of
             (Inl e, sv) \<Rightarrow> (Inl e, sv)
           | (Inr _, sv) \<Rightarrow> (Inr generation, sv)))"

definition service_did_open :: "platform \<Rightarrow> string \<Rightarrow> int \<Rightarrow> string \<Rightarrow> service \<Rightarrow> (service_error + nat) \<times> service" where
  "service_did_open pf uri version t sv =
     (case begin_change pf uri sv of
        ((replaced_generation, before), sv) \<Rightarrow>
          observe_edit pf uri replaced_generation before (mutate_store (did_open (pf_env pf) uri version t) sv))"

definition service_did_change :: "platform \<Rightarrow> string \<Rightarrow> int \<Rightarrow> string \<Rightarrow> service \<Rightarrow> (service_error + nat) \<times> service" where
  "service_did_change pf uri version t sv = service_did_open pf uri version t sv"

definition service_did_change_incremental ::
  "platform \<Rightarrow> (string \<Rightarrow> nat \<Rightarrow> native_error + coordinate_chunk)
     \<Rightarrow> (string \<Rightarrow> native_error + coordinate_window) \<Rightarrow> string \<Rightarrow> int \<Rightarrow> text_change list \<Rightarrow> service
     \<Rightarrow> panic + ((service_error + nat) \<times> service)" where
  "service_did_change_incremental pf pc cw uri version changes sv =
     (case begin_change pf uri sv of
        ((replaced_generation, before), sv) \<Rightarrow>
          bind_result (did_change_incremental (pf_env pf) pc cw uri version changes (sy_store sv))
            (\<lambda>s. Inr (observe_edit pf uri replaced_generation before (mutate_store (\<lambda>_. s) sv))))"

definition service_did_save :: "platform \<Rightarrow> string \<Rightarrow> string option \<Rightarrow> service \<Rightarrow> (service_error + nat) \<times> service" where
  "service_did_save pf uri t sv =
     (case begin_change pf uri sv of
        ((replaced_generation, before), sv) \<Rightarrow>
          (case mutate_store (did_save (pf_env pf) uri t) sv of
             (Inr generation, sv) \<Rightarrow>
               if generation = replaced_generation then (Inr generation, sv)
               else observe_edit pf uri replaced_generation before (Inr generation, sv)
           | s \<Rightarrow> s))"

definition service_did_close :: "platform \<Rightarrow> string \<Rightarrow> service \<Rightarrow> (service_error + string option) \<times> service" where
  "service_did_close pf uri sv =
     (case begin_change pf uri sv of
        ((replaced_generation, before), sv) \<Rightarrow>
          (case mutate_store (did_close uri) sv of
             (Inl e, sv) \<Rightarrow> (Inl e, sv)
           | (Inr None, sv) \<Rightarrow> (Inr None, snd (evict_stale_analyses pf sv))
           | (Inr (Some t), sv) \<Rightarrow>
               (case observe_change pf uri replaced_generation (ds_generation (sy_store sv)) before False True sv of
                  (Inl e, sv) \<Rightarrow> (Inl e, sv)
                | (Inr _, sv) \<Rightarrow> (Inr (Some t), sv))))"

section \<open>Refreshing the workspace\<close>

fun load_new_documents :: "platform \<Rightarrow> string list \<Rightarrow> service \<Rightarrow> (service_error + nat list) \<times> service" where
  "load_new_documents pf [] sv = (Inr [], sv)"
| "load_new_documents pf (uri # uris) sv =
     (case on_store (load_new_disk (pf_env pf) uri) sv of
        (Inl e, sv) \<Rightarrow> (Inl e, sv)
      | (Inr None, sv) \<Rightarrow> load_new_documents pf uris sv
      | (Inr (Some generation), sv) \<Rightarrow>
          (case observe_change pf uri (generation - 1) generation None False True sv of
             (Inl e, sv) \<Rightarrow> (Inl e, sv)
           | (Inr cursor, sv) \<Rightarrow>
               (case load_new_documents pf uris sv of
                  (Inl e, sv) \<Rightarrow> (Inl e, sv)
                | (Inr cursors, sv) \<Rightarrow>
                    (Inr (case cursor of None \<Rightarrow> cursors | Some c \<Rightarrow> c # cursors), sv))))"

text \<open>
  The callback of \<open>refresh_disk_with\<close>: the service beside its store, and the snapshots taken
  before the changes. The store of the service is the one the refresh works on.
\<close>

type_synonym refresh_context = "service \<times> (string, document_analysis) btree"

definition capture_before :: "platform \<Rightarrow> refresh_context change_hook" where
  "capture_before pf uri s =
     (case s of (st, sv, before_by_uri) \<Rightarrow>
        case cached_snapshot_if_current pf uri (sv\<lparr>sy_store := st\<rparr>) of
          (Some a, sv) \<Rightarrow> (True, sy_store sv, sv, bt_insert uri a before_by_uri)
        | (None, sv) \<Rightarrow>
            (case snapshot pf uri sv of
               (Inr a, sv) \<Rightarrow> (True, sy_store sv, sv, bt_insert uri a before_by_uri)
             | (Inl _, sv) \<Rightarrow> (False, sy_store sv, sv, before_by_uri)))"

definition notify_context :: "string \<Rightarrow> refresh_context \<Rightarrow> refresh_context" where
  "notify_context uri s = map_prod (invalidate_transitive_importers uri) id s"

fun observe_refreshed ::
  "platform \<Rightarrow> (string, document_analysis) btree \<Rightarrow> (string \<times> nat \<times> bool) list \<Rightarrow> service
     \<Rightarrow> (service_error + nat list) \<times> service" where
  "observe_refreshed pf before_by_uri [] sv = (Inr [], sv)"
| "observe_refreshed pf before_by_uri ((uri, generation, removed) # changes) sv =
     (let before = bt_lookup before_by_uri uri
      in case (if removed
               then (case before of None \<Rightarrow> (Inr None, sv)
                     | Some a \<Rightarrow> observe_removal pf uri (generation - 1) generation a sv)
               else observe_change pf uri (generation - 1) generation before False True sv) of
           (Inl e, sv) \<Rightarrow> (Inl e, sv)
         | (Inr cursor, sv) \<Rightarrow>
             (case observe_refreshed pf before_by_uri changes sv of
                (Inl e, sv) \<Rightarrow> (Inl e, sv)
              | (Inr cursors, sv) \<Rightarrow> (Inr (case cursor of None \<Rightarrow> cursors | Some c \<Rightarrow> c # cursors), sv)))"

text \<open>The second half of \<open>refresh_workspace\<close>, after the new documents.\<close>

definition refresh_known :: "platform \<Rightarrow> service \<Rightarrow> (service_error + nat list) \<times> service" where
  "refresh_known pf sv =
     (case refresh_disk_with (pf_env pf) (capture_before pf) notify_context (sy_store sv, sv, bt_empty) of
        (st, (sv, before_by_uri), changed) \<Rightarrow> observe_refreshed pf before_by_uri changed (sv\<lparr>sy_store := st\<rparr>))"

definition refresh_workspace :: "platform \<Rightarrow> service \<Rightarrow> ((service_error + nat list) \<times> service) option" where
  "refresh_workspace pf sv =
     map_option
       (\<lambda>(discovered, st).
          let sv = sv\<lparr>sy_store := st\<rparr>
          in (case discovered of
                Inl e \<Rightarrow> (Inl e, sv)
              | Inr uris \<Rightarrow>
                  (case load_new_documents pf uris sv of
                     (Inl e, sv) \<Rightarrow> (Inl e, sv)
                   | (Inr published, sv) \<Rightarrow>
                       (case refresh_known pf sv of
                          (Inl e, sv) \<Rightarrow> (Inl e, sv)
                        | (Inr cursors, sv) \<Rightarrow> (Inr (published @ cursors), sv)))))
       (discover_workspace (pf_env pf) True (sy_store sv))"

section \<open>Configuring the root\<close>

definition path_starts_with :: "string \<Rightarrow> string \<Rightarrow> bool" where
  "path_starts_with p root \<longleftrightarrow>
     fst (path_components p) = fst (path_components root) \<and>
     take (length (snd (path_components root))) (snd (path_components p)) = snd (path_components root)"

definition select_root :: "platform \<Rightarrow> string \<Rightarrow> string \<Rightarrow> service_error + string" where
  "select_root pf root requested =
     (if \<not> starts_with requested ''/'' then
        Inl (WorkspaceUnavailable (''selected source root is not absolute: '' @ requested))
      else
        (case pf_canonical pf requested of
           Inl e \<Rightarrow> Inl (WorkspaceUnavailable (requested @ '': '' @ e))
         | Inr selected \<Rightarrow>
             if \<not> path_starts_with selected root \<or> \<not> env_is_dir (pf_env pf) selected then
               Inl (WorkspaceUnavailable (''selected source root escapes or is not a directory: '' @ selected))
             else Inr selected))"

fun observe_reconciled :: "platform \<Rightarrow> nat \<Rightarrow> (string \<times> nat) list \<Rightarrow> service \<Rightarrow> (service_error + unit) \<times> service" where
  "observe_reconciled pf expected [] sv = (Inr (), sv)"
| "observe_reconciled pf expected ((uri, generation) # changes) sv =
     (case observe_change pf uri (generation - 1) expected None True False sv of
        (Inl e, sv) \<Rightarrow> (Inl e, sv)
      | (Inr _, sv) \<Rightarrow> observe_reconciled pf expected changes sv)"

text \<open>Adopting the loaded checkpoint: generation and stream continuity.\<close>

definition adopt_checkpoint ::
  "platform \<Rightarrow> string \<Rightarrow> string list \<Rightarrow> workspace_checkpoint option \<Rightarrow> service \<Rightarrow> service" where
  "adopt_checkpoint pf root roots checkpoint sv =
     (let toolchain_changed = (case Option.bind checkpoint wc_toolchain of
                                 None \<Rightarrow> False | Some bound \<Rightarrow> bound \<noteq> pf_toolchain pf);
          prior_roots = map_option (\<lambda>c. if wc_discovery_roots c = [] then [root] else wc_discovery_roots c) checkpoint;
          roots_changed = (case prior_roots of None \<Rightarrow> False | Some previous \<Rightarrow> previous \<noteq> roots);
          build_changed = (case checkpoint of None \<Rightarrow> False | Some c \<Rightarrow> wc_build c \<noteq> Some (pf_build pf));
          continuity_changed = (toolchain_changed \<or> roots_changed \<or> build_changed);
          sv = (case checkpoint of
                  None \<Rightarrow> sv
                | Some c \<Rightarrow>
                    sv\<lparr>sy_store := restore_generation_at_least (wc_generation c) (sy_store sv),
                       sy_hub := (if continuity_changed then sy_hub sv
                                  else snd (restore_checkpoint (wc_stream c) (wc_cursor c) (wc_history c) (sy_hub sv)))\<rparr>);
          writable = (case checkpoint of Some c \<Rightarrow> c | None \<Rightarrow> fresh_checkpoint pf root sv);
          writable = (if continuity_changed
                      then writable\<lparr>wc_stream := hub_stream (sy_hub sv), wc_cursor := hub_next (sy_hub sv),
                                    wc_history := [], wc_toolchain := Some (pf_toolchain pf),
                                    wc_build := Some (pf_build pf)\<rparr>
                      else writable)
      in sv\<lparr>sy_checkpoint := Some (writable\<lparr>wc_discovery_roots := roots\<rparr>)\<rparr>)"

text \<open>After reconciliation: notify, observe what changed while the service was away, persist.\<close>

definition finish_attach ::
  "platform \<Rightarrow> service \<Rightarrow> (service_error + (string \<times> nat) list) \<times> document_store \<times> string list
     \<Rightarrow> (service_error + string list) \<times> service" where
  "finish_attach pf sv reconciled =
     (case reconciled of (changed, st, notified) \<Rightarrow>
        let sv = fold invalidate_transitive_importers notified (sv\<lparr>sy_store := st\<rparr>)
        in (case changed of
              Inl e \<Rightarrow> (Inl e, sv)
            | Inr changes \<Rightarrow>
                (case observe_reconciled pf (ds_generation (sy_store sv)) changes sv of
                   (Inl e, sv) \<Rightarrow> (Inl e, sv)
                 | (Inr _, sv) \<Rightarrow>
                     (case persist_checkpoint pf sv of
                        (Inl e, sv) \<Rightarrow> (Inl e, sv)
                      | (Inr _, sv) \<Rightarrow> (Inr (document_uris (sy_store sv)), sv)))))"

definition attach_root ::
  "platform \<Rightarrow> string \<Rightarrow> string list \<Rightarrow> service \<Rightarrow> ((service_error + string list) \<times> service) option" where
  "attach_root pf root roots sv =
     (let sv = sv\<lparr>sy_store := set_discovery_roots (Some roots) (set_root (Some root) (sy_store sv))\<rparr>
      in (case load_workspace_checkpoint pf (workspace_checkpoint_path root) root of
            Inl e \<Rightarrow> Some (Inl e, sv)
          | Inr checkpoint \<Rightarrow>
              let sv = adopt_checkpoint pf root roots checkpoint sv
              in map_option (finish_attach pf sv)
                   (reconcile_checkpoint (pf_env pf) (map_option wc_documents checkpoint) (sy_store sv))))"

definition configure_root ::
  "platform \<Rightarrow> string option \<Rightarrow> string list option \<Rightarrow> service
     \<Rightarrow> ((service_error + string list) \<times> service) option" where
  "configure_root pf root requested sv =
     (case root of
        None \<Rightarrow> Some (Inr [], sv\<lparr>sy_store := set_root None (sy_store sv), sy_checkpoint := None\<rparr>)
      | Some given \<Rightarrow>
          (case pf_canonical pf given of
             Inl e \<Rightarrow> Some (Inl (WorkspaceUnavailable (given @ '': '' @ e)), sv)
           | Inr root \<Rightarrow>
               let requested = (case requested of None \<Rightarrow> [root] | Some rs \<Rightarrow> rs)
               in if requested = [] then
                    Some (Inl (WorkspaceUnavailable ''selected source-root set is empty''), sv)
                  else
                    (case collect_results (select_root pf root) requested of
                       Inl e \<Rightarrow> Some (Inl e, sv)
                     | Inr selected \<Rightarrow>
                         let roots = dedup (sort_key path_components selected)
                         in if ds_root (sy_store sv) = Some root \<and> discovery_roots (sy_store sv) = roots \<and>
                               sy_checkpoint sv \<noteq> None
                            then Some (Inr (document_uris (sy_store sv)), sv)
                            else attach_root pf root roots sv)))"

end
