(* ===== verification/Service_Spec.thy ===== *)
theory Service_Spec
  imports Service Modules_Spec Workspace_Index_Spec
begin

text \<open>
  What the service operations keep. Queries only load lazily and touch the caches
  (\<open>service_lazy\<close>); the caches stay consistent with each other (\<open>caches_ok\<close>): every analysis
  belongs to its document and every index entry to a cached analysis, and the global maps are
  exact. Each predicate is proved to be kept operation by operation and used by the properties.
\<close>

section \<open>Queries load lazily\<close>

definition service_lazy :: "environment \<Rightarrow> service \<Rightarrow> service \<Rightarrow> bool" where
  "service_lazy env sv sv' \<longleftrightarrow>
     lazy_load env (sy_store sv) (sy_store sv') \<and> sy_hub sv' = sy_hub sv \<and> sy_checkpoint sv' = sy_checkpoint sv"

lemma service_lazy_refl [simp]: "service_lazy env sv sv"
  by (simp add: service_lazy_def lazy_refl)

lemma service_lazy_trans: "service_lazy env sv sv' \<Longrightarrow> service_lazy env sv' sv'' \<Longrightarrow> service_lazy env sv sv''"
  by (auto simp: service_lazy_def intro: lazy_trans)

lemma service_lazy_generation:
  "service_lazy env sv sv' \<Longrightarrow> ds_generation (sy_store sv') = ds_generation (sy_store sv)"
  using lazy_frame(1) unfolding service_lazy_def by blast

lemma on_store_simps [simp]:
  "fst (on_store f sv) = fst (f (sy_store sv))"
  "sy_store (snd (on_store f sv)) = snd (f (sy_store sv))"
  "sy_hub (snd (on_store f sv)) = sy_hub sv"
  "sy_checkpoint (snd (on_store f sv)) = sy_checkpoint sv"
  "sy_analyses (snd (on_store f sv)) = sy_analyses sv"
  "sy_index (snd (on_store f sv)) = sy_index sv"
  by (simp_all add: on_store_def split: prod.split)

lemma count_stat_simps [simp]:
  "sy_store (count_stat f sv) = sy_store sv" "sy_hub (count_stat f sv) = sy_hub sv"
  "sy_checkpoint (count_stat f sv) = sy_checkpoint sv" "sy_analyses (count_stat f sv) = sy_analyses sv"
  "sy_index (count_stat f sv) = sy_index sv" "sy_ensured (count_stat f sv) = sy_ensured sv"
  by (simp_all add: count_stat_def)

text \<open>Equations for the results of the queries, in the shape the simplifier rewrites with.\<close>

lemma on_store_eq: "on_store f sv = (r, sv') \<longleftrightarrow> f (sy_store sv) = (r, sy_store sv') \<and> sv' = sv\<lparr>sy_store := sy_store sv'\<rparr>"
  by (auto simp: on_store_def split: prod.splits)

section \<open>Consistent caches\<close>

definition analysis_ok :: "toolchain \<Rightarrow> string \<Rightarrow> document_analysis \<Rightarrow> bool" where
  "analysis_ok tc uri a \<longleftrightarrow>
     da_uri a = uri \<and> da_identity a = fe_identity (da_front_end a) \<and>
     da_positions a = pm_new (analysis_text a) \<and> da_symbols a = si_build (tl_model tc) (da_front_end a)"

definition entry_of :: "document_analysis \<Rightarrow> workspace_entry \<Rightarrow> bool" where
  "entry_of a e \<longleftrightarrow> we_identity e = da_identity a \<and> we_fingerprints e = da_dependencies a \<and>
     we_spans e = map se_name_span (si_symbols (da_symbols a))"

definition caches_ok :: "toolchain \<Rightarrow> service \<Rightarrow> bool" where
  "caches_ok tc sv \<longleftrightarrow>
     (\<forall>uri a. bt_lookup (sy_analyses sv) uri = Some a \<longrightarrow> analysis_ok tc uri a) \<and>
     index_reachable (sy_index sv) \<and>
     (\<forall>uri e. index_entry uri (sy_index sv) = Some e \<longrightarrow>
        (\<exists>a. bt_lookup (sy_analyses sv) uri = Some a \<and> entry_of a e))"

lemma caches_ok_cong:
  "sy_analyses sv' = sy_analyses sv \<Longrightarrow> sy_index sv' = sy_index sv \<Longrightarrow> caches_ok tc sv' = caches_ok tc sv"
  by (simp add: caches_ok_def)

lemma caches_ok_store [simp]:
  "caches_ok tc (snd (on_store f sv)) = caches_ok tc sv"
  "caches_ok tc (count_stat g sv) = caches_ok tc sv"
  "caches_ok tc (sv\<lparr>sy_store := st\<rparr>) = caches_ok tc sv"
  "caches_ok tc (sv\<lparr>sy_hub := hub\<rparr>) = caches_ok tc sv"
  "caches_ok tc (sv\<lparr>sy_checkpoint := cp\<rparr>) = caches_ok tc sv"
  "caches_ok tc (sv\<lparr>sy_ensured := v\<rparr>) = caches_ok tc sv"
  by (rule caches_ok_cong; simp)+

lemma index_entry_simps [simp]:
  "index_entry u (index_remove uri ix) = (if u = uri then None else index_entry u ix)"
  "index_entry u (index_publish uri e ix) = (if u = uri then Some e else index_entry u ix)"
  by (simp_all add: index_entry_def index_entries)

text \<open>Dropping documents from both caches, and dropping index entries alone.\<close>

lemma caches_ok_drop_entry:
  "caches_ok tc sv \<Longrightarrow> caches_ok tc (sv\<lparr>sy_index := index_remove uri (sy_index sv)\<rparr>)"
  by (auto simp: caches_ok_def intro: index_step_remove)

lemma fold_delete_lookup:
  "bt_lookup (fold bt_delete us m) u = (if u \<in> set us then None else bt_lookup m u)"
  by (induction us arbitrary: m) auto

lemma fold_index_remove:
  "index_entry u (fold index_remove us ix) = (if u \<in> set us then None else index_entry u ix)"
  "index_reachable ix \<Longrightarrow> index_reachable (fold index_remove us ix)"
  subgoal by (induction us arbitrary: ix) simp_all
  subgoal by (induction us arbitrary: ix) (simp_all add: index_step_remove)
  done

lemma record_caches:
  "sy_analyses (sv\<lparr>sy_analyses := an, sy_index := ix\<rparr>) = an"
  "sy_index (sv\<lparr>sy_analyses := an, sy_index := ix\<rparr>) = ix"
  by simp_all

lemma caches_ok_drop:
  assumes "caches_ok tc sv" "\<And>u. u \<notin> set us \<Longrightarrow> bt_lookup an u = bt_lookup (sy_analyses sv) u"
    and "\<And>u a. bt_lookup an u = Some a \<Longrightarrow> bt_lookup (sy_analyses sv) u = Some a"
  shows "caches_ok tc (sv\<lparr>sy_analyses := an, sy_index := fold index_remove us (sy_index sv)\<rparr>)"
proof -
  from assms(1) have ok: "\<And>u a. bt_lookup (sy_analyses sv) u = Some a \<Longrightarrow> analysis_ok tc u a"
    and reach: "index_reachable (sy_index sv)"
    and entry: "\<And>u e. index_entry u (sy_index sv) = Some e \<Longrightarrow>
      \<exists>a. bt_lookup (sy_analyses sv) u = Some a \<and> entry_of a e"
    unfolding caches_ok_def by blast+
  have "\<exists>a. bt_lookup an u = Some a \<and> entry_of a e"
    if "index_entry u (fold index_remove us (sy_index sv)) = Some e" for u e
  proof -
    from that have "u \<notin> set us" "index_entry u (sy_index sv) = Some e"
      by (simp_all add: fold_index_remove(1) split: if_splits)
    with entry assms(2) show ?thesis by metis
  qed
  with ok assms(3) fold_index_remove(2) [OF reach] show ?thesis
    by (auto simp only: caches_ok_def service.select_convs service.simps record_caches)
qed

lemma caches_ok_invalidate: "caches_ok tc sv \<Longrightarrow> caches_ok tc (invalidate_transitive_importers u sv)"
  unfolding invalidate_transitive_importers_def Let_def
  by (rule caches_ok_drop) (auto simp: fold_delete_lookup split: if_splits)

lemma invalidate_frame [simp]:
  "sy_store (invalidate_transitive_importers u sv) = sy_store sv"
  "sy_hub (invalidate_transitive_importers u sv) = sy_hub sv"
  "sy_checkpoint (invalidate_transitive_importers u sv) = sy_checkpoint sv"
  by (simp_all add: invalidate_transitive_importers_def Let_def)

lemma fold_invalidate [simp]:
  "sy_store (fold invalidate_transitive_importers us sv) = sy_store sv"
  "sy_hub (fold invalidate_transitive_importers us sv) = sy_hub sv"
  "sy_checkpoint (fold invalidate_transitive_importers us sv) = sy_checkpoint sv"
  "caches_ok tc sv \<Longrightarrow> caches_ok tc (fold invalidate_transitive_importers us sv)"
  by (induction us arbitrary: sv) (simp_all add: caches_ok_invalidate)

section \<open>What a query keeps\<close>

text \<open>A query: lazy on the store, and it keeps the caches consistent.\<close>

definition query_step :: "platform \<Rightarrow> service \<Rightarrow> service \<Rightarrow> bool" where
  "query_step pf sv sv' \<longleftrightarrow>
     service_lazy (pf_env pf) sv sv' \<and> (caches_ok (pf_tools pf) sv \<longrightarrow> caches_ok (pf_tools pf) sv')"

lemma query_refl [simp]: "query_step pf sv sv"
  by (simp add: query_step_def)

lemma query_trans [trans]: "query_step pf sv sv' \<Longrightarrow> query_step pf sv' sv'' \<Longrightarrow> query_step pf sv sv''"
  by (auto simp: query_step_def intro: service_lazy_trans)

lemma query_on_store: "lazy_load (pf_env pf) (sy_store sv) (snd (f (sy_store sv))) \<Longrightarrow> query_step pf sv (snd (on_store f sv))"
  by (simp add: query_step_def service_lazy_def)

lemma query_on_storeD:
  "on_store f sv = (r, sv') \<Longrightarrow> (\<And>st. lazy_load (pf_env pf) st (snd (f st))) \<Longrightarrow> query_step pf sv sv'"
  using query_on_store [of pf sv f] by simp

lemma query_count [simp]: "query_step pf sv (count_stat f sv')  = query_step pf sv sv'"
  by (simp add: query_step_def service_lazy_def)

lemma query_ensured [simp]: "query_step pf sv (sv'\<lparr>sy_ensured := v\<rparr>)  = query_step pf sv sv'"
  by (simp add: query_step_def service_lazy_def)

lemma lazy_build_entry: "lazy_load env st (snd (build_entry env px tc uri a st))"
  using lazy_dependency_edges [of env st px tc "analysis_text a" "fe_module_resolutions (da_front_end a)"]
  by (auto simp: build_entry_def Let_def split: prod.splits)

lemma lazy_entry_is_current: "lazy_load env st (snd (entry_is_current env px tc uri e st))"
proof -
  obtain i s1 where ci: "content_identity env uri st = (i, s1)" by (metis prod.exhaust)
  have l1: "lazy_load env st s1" using lazy_content_identity [of env st uri] ci by simp
  obtain t s2 where co: "content env uri s1 = (t, s2)" by (metis prod.exhaust)
  have l2: "lazy_load env st s2" using lazy_trans [OF lazy_content l1, of uri] co by simp
  have l3: "lazy_load env st (snd (fingerprints_collect env px tc u s2))" for u
    using lazy_trans [OF lazy_fingerprints(2) l2] .
  show ?thesis using l1 l2 l3
    by (auto simp: entry_is_current_def ci co split: sum.splits prod.splits) (metis snd_conv)
qed

lemma query_cached_snapshot: "query_step pf sv (snd (cached_snapshot pf uri fp sv))"
proof -
  obtain t s1 where co: "on_store (content (pf_env pf) uri) sv = (t, s1)" by (metis prod.exhaust)
  have q1: "query_step pf sv s1" by (rule query_on_storeD [OF co]) (rule lazy_content)
  have "query_step pf s1 (snd (on_store (fingerprints_collect (pf_env pf) (pf_process pf) (pf_tools pf) u) s1))" for u
    by (rule query_on_store) (rule lazy_fingerprints(2))
  then have "query_step pf sv (snd (on_store (fingerprints_collect (pf_env pf) (pf_process pf) (pf_tools pf) u) s1))" for u
    using q1 query_trans by blast
  with q1 show ?thesis
    by (auto simp: cached_snapshot_def co split: option.splits sum.splits prod.splits) (metis snd_conv)
qed

lemma query_fingerprint: "query_step pf sv (snd (content_fingerprint pf uri sv))"
  unfolding content_fingerprint_def by (rule query_on_store) (rule lazy_content_identity)

lemma query_cached_if_current: "query_step pf sv (snd (cached_snapshot_if_current pf uri sv))"
proof -
  obtain i s where ci: "content_fingerprint pf uri sv = (i, s)" by (metis prod.exhaust)
  have "query_step pf sv s" using query_fingerprint [of pf sv uri] ci by simp
  then show ?thesis
    using query_trans [OF _ query_cached_snapshot] by (cases i) (auto simp: cached_snapshot_if_current_def ci)
qed

lemma analysis_ok_analyze: "analysis_ok tc uri (fst (analyze_with_resolver env px tc uri e g st))"
  by (simp add: analysis_ok_def analyze_with_resolver_def analysis_text_def split: prod.split)

lemma entry_of_build: "entry_of a (fst (build_entry env px tc uri a st))"
  by (simp add: entry_of_def build_entry_def Let_def split: prod.split)

lemma query_publish:
  assumes "analysis_ok (pf_tools pf) uri a"
  shows "query_step pf sv (publish_workspace_entry pf uri a (sv\<lparr>sy_analyses := bt_insert uri a (sy_analyses sv)\<rparr>))"
proof -
  obtain e st where b: "build_entry (pf_env pf) (pf_process pf) (pf_tools pf) uri a (sy_store sv) = (e, st)"
    by (metis prod.exhaust)
  have l: "lazy_load (pf_env pf) (sy_store sv) st"
    using lazy_build_entry [of "pf_env pf" "sy_store sv" "pf_process pf" "pf_tools pf" uri a] b by simp
  have e: "entry_wf e" "entry_of a e"
    using build_entry_wf [of "pf_env pf" "pf_process pf" "pf_tools pf" uri a "sy_store sv"]
      entry_of_build [of a "pf_env pf" "pf_process pf" "pf_tools pf" uri "sy_store sv"] b by simp_all
  have p: "publish_workspace_entry pf uri a (sv\<lparr>sy_analyses := bt_insert uri a (sy_analyses sv)\<rparr>) =
      count_stat record_index_publish
        (sv\<lparr>sy_analyses := bt_insert uri a (sy_analyses sv), sy_store := st,
            sy_index := index_publish uri e (sy_index sv)\<rparr>)"
    by (simp add: publish_workspace_entry_def on_store_def b)
  show ?thesis unfolding p query_count
    using l e assms
    by (auto simp: query_step_def service_lazy_def caches_ok_def intro: index_step_publish)
qed

lemma query_analyze: "query_step pf sv (snd (analyze_document pf uri fp sv))"
proof -
  obtain t s1 where co: "on_store (content (pf_env pf) uri) sv = (t, s1)" by (metis prod.exhaust)
  have q1: "query_step pf sv s1" by (rule query_on_storeD [OF co]) (rule lazy_content)
  show ?thesis
  proof (cases t)
    case (Inl e)
    then show ?thesis using q1 by (simp add: analyze_document_def co)
  next
    case (Inr u)
    let ?run = "analyze_with_resolver (pf_env pf) (pf_process pf) (pf_tools pf) uri
      (envelope (pf_env pf) (pf_tools pf) uri u) (ds_generation (sy_store s1))"
    obtain a s2 where an: "on_store ?run (count_stat record_frontend_run s1) = (a, s2)" by (metis prod.exhaust)
    have a: "analysis_ok (pf_tools pf) uri a"
      using an analysis_ok_analyze [of "pf_tools pf" uri "pf_env pf" "pf_process pf"]
      by (metis on_store_simps(1) fst_conv)
    have "query_step pf (count_stat record_frontend_run s1) s2"
      by (rule query_on_storeD [OF an]) (rule lazy_analyze)
    then have "query_step pf s1 s2" by (simp add: query_step_def service_lazy_def)
    with q1 have q2: "query_step pf sv s2" by (rule query_trans)
    obtain i s3 where ci: "content_fingerprint pf uri s2 = (i, s3)" by (metis prod.exhaust)
    have q3: "query_step pf sv s3" using query_trans [OF q2 query_fingerprint, of uri] ci by simp
    then show ?thesis using query_trans [OF q3 query_publish [OF a]]
      by (auto simp: analyze_document_def co Inr an ci Let_def split: sum.splits)
  qed
qed

lemma query_snapshot: "query_step pf sv (snd (snapshot pf uri sv))"
proof -
  obtain i s1 where c1: "content_fingerprint pf uri sv = (i, s1)" by (metis prod.exhaust)
  have q1: "query_step pf sv s1" using query_fingerprint [of pf sv uri] c1 by simp
  show ?thesis
  proof (cases i)
    case (Inr fp)
    obtain r s2 where k1: "cached_snapshot pf uri fp s1 = (r, s2)" by (metis prod.exhaust)
    have q2: "query_step pf sv s2" using query_trans [OF q1 query_cached_snapshot, of uri fp] k1 by simp
    obtain j s3 where c2: "content_fingerprint pf uri s2 = (j, s3)" by (metis prod.exhaust)
    have q3: "query_step pf sv s3" using query_trans [OF q2 query_fingerprint, of uri] c2 by simp
    have "query_step pf sv (snd (cached_snapshot pf uri fp' s3))" for fp'
      by (rule query_trans [OF q3 query_cached_snapshot])
    moreover have "cached_snapshot pf uri fp' s3 = (None, s4) \<Longrightarrow> query_step pf sv (snd (analyze_document pf uri fp' s4))"
      for fp' s4
      using query_trans [OF q3 query_cached_snapshot, of uri fp'] query_trans [OF _ query_analyze] by (metis snd_conv)
    ultimately show ?thesis using q1 q2 q3 c1 Inr k1 c2
      by (auto simp: snapshot_def split: option.splits sum.splits prod.splits) (metis snd_conv)+
  qed (use q1 c1 in \<open>simp add: snapshot_def\<close>)
qed

section \<open>Which analyses a change invalidates\<close>

text \<open>The importers of a document, and the state of the worklist between two iterations.\<close>

definition importer_edges :: "workspace_index \<Rightarrow> (string \<times> string) set" where
  "importer_edges ix = {(u, v). v \<in> bucket_members (wx_reverse_deps ix) u}"

definition walk_ok :: "workspace_index \<Rightarrow> string \<Rightarrow> string bset \<Rightarrow> string list \<Rightarrow> string list \<Rightarrow> bool" where
  "walk_ok ix root visited frontier victims \<longleftrightarrow>
     root \<in> set victims \<and> distinct victims \<and> {u. bs_member u visited} = set victims \<and>
     set frontier \<subseteq> set victims \<and> set victims \<subseteq> (importer_edges ix)\<^sup>* `` {root} \<and>
     importer_edges ix `` (set victims - set frontier) \<subseteq> set victims"

lemma visit_importer_eq:
  "visit_importer i (visited, frontier, victims) =
     (if bs_member i visited then (visited, frontier, victims)
      else (bs_insert i visited, i # frontier, victims @ [i]))"
  by (simp add: visit_importer_def)

lemma fold_visit:
  assumes "fold visit_importer is (visited, frontier, victims) = (visited', frontier', victims')"
    and "distinct victims" "{u. bs_member u visited} = set victims" "set frontier \<subseteq> set victims"
  shows "distinct victims' \<and> {u. bs_member u visited'} = set victims' \<and> set victims' = set victims \<union> set is \<and>
    set frontier' = set frontier \<union> (set is - set victims)"
  using assms
proof (induction "is" arbitrary: visited frontier victims)
  case (Cons i "is")
  show ?case
  proof (cases "bs_member i visited")
    case True
    then have "i \<in> set victims" using Cons.prems(3) by blast
    then show ?thesis using Cons.IH [of visited frontier victims] Cons.prems True
      by (auto simp: visit_importer_eq)
  next
    case False
    then have i: "i \<notin> set victims" using Cons.prems(3) by blast
    have "{u. bs_member u (bs_insert i visited)} = set (victims @ [i])" using Cons.prems(3) by auto
    moreover have "distinct (victims @ [i])" "set (i # frontier) \<subseteq> set (victims @ [i])"
      using Cons.prems(2,4) i by auto
    moreover have "fold visit_importer is (bs_insert i visited, i # frontier, victims @ [i]) = (visited', frontier', victims')"
      using Cons.prems(1) False by (simp add: visit_importer_eq)
    ultimately show ?thesis using Cons.IH [of "bs_insert i visited" "i # frontier" "victims @ [i]"] i by auto
  qed
qed simp

lemma walk_ok_step:
  assumes ok: "walk_ok ix root visited (current # frontier) victims"
    and s: "fold visit_importer (importers_of current ix) (visited, frontier, victims) = (visited', frontier', victims')"
  shows "walk_ok ix root visited' frontier' victims'"
proof -
  let ?E = "importer_edges ix" and ?I = "importer_edges ix `` {current}"
  have imp: "set (importers_of current ix) = ?I"
    by (auto simp: set_importers_of importer_edges_def)
  from ok have v: "root \<in> set victims" "current \<in> set victims" "set victims \<subseteq> ?E\<^sup>* `` {root}"
    "?E `` (set victims - set (current # frontier)) \<subseteq> set victims"
    unfolding walk_ok_def by auto
  have f: "distinct victims'" "{u. bs_member u visited'} = set victims'" "set victims' = set victims \<union> ?I"
    "set frontier' = set frontier \<union> (?I - set victims)"
    using fold_visit [OF s] ok unfolding walk_ok_def imp by auto
  have "?I \<subseteq> ?E\<^sup>* `` {root}" using v(2,3) by (auto intro: rtrancl_into_rtrancl)
  moreover have "?E `` (set victims' - set frontier') \<subseteq> set victims'"
    using v(4) unfolding f(3,4) by auto
  moreover have "set frontier \<subseteq> set victims" using ok unfolding walk_ok_def by auto
  ultimately show ?thesis unfolding walk_ok_def using v(1,3) f by auto
qed

lemma walk_ok_result:
  "walk_ok ix root visited frontier victims \<Longrightarrow>
   distinct (invalidation_walk ix visited frontier victims) \<and>
   set (invalidation_walk ix visited frontier victims) = (importer_edges ix)\<^sup>* `` {root}"
proof (induction ix visited frontier victims rule: invalidation_walk.induct)
  case (1 ix visited victims)
  then have "(importer_edges ix)\<^sup>* `` {root} \<subseteq> (importer_edges ix)\<^sup>* `` set victims"
    "importer_edges ix `` set victims \<subseteq> set victims"
    unfolding walk_ok_def by auto
  then have "(importer_edges ix)\<^sup>* `` {root} \<subseteq> set victims" using Image_closed_trancl by blast
  then show ?case using 1 unfolding walk_ok_def by auto
next
  case (2 ix visited current frontier victims)
  obtain v f r where s: "fold visit_importer (importers_of current ix) (visited, frontier, victims) = (v, f, r)"
    by (metis prod_cases3)
  from 2(1) [OF s [symmetric]] walk_ok_step [OF 2(2) s] s show ?case by simp
qed

lemma invalidation_victims_reach:
  "distinct (invalidation_victims ix u) \<and> set (invalidation_victims ix u) = (importer_edges ix)\<^sup>* `` {u}"
  unfolding invalidation_victims_def by (rule walk_ok_result) (auto simp: walk_ok_def)

end
