(* ===== verification/Service_Reach.thy ===== *)
theory Service_Reach
  imports Service_Spec
begin

text \<open>
  The invariant of the service and the sequences of calls that reach a service: the store is
  well sealed, the event hub is one its operations build, and the caches are consistent. The files
  and the checkpoint file may change between two calls; the tool chain may not.
\<close>

section \<open>Queries\<close>

lemma query_case:
  assumes "query_step pf sv (snd s)" "s = (r, sv')"
  shows "query_step pf sv sv'"
  using assms by simp

lemma query_stale_uris: "query_step pf sv (snd (stale_uris pf xs sv))"
proof (induction pf xs sv rule: stale_uris.induct)
  case (2 pf uri a xs sv)
  obtain i s where c: "content_fingerprint pf uri sv = (i, s)" by (metis prod.exhaust)
  with 2 have "query_step pf s (snd (stale_uris pf xs s))" by simp
  from query_trans [OF query_case [OF query_fingerprint c] this] show ?case by (auto simp: c split: prod.splits)
qed simp

lemma fingerprint_frame:
  "content_fingerprint pf uri sv = (i, s) \<Longrightarrow> sy_index s = sy_index sv \<and> sy_analyses s = sy_analyses sv"
  by (auto simp: content_fingerprint_def on_store_def split: prod.splits)

text \<open>The second scan drops analyses; the index entries follow at the end.\<close>

lemma evict_each_effect:
  assumes "evict_each pf uris sv = (evicted, sv')"
  shows "service_lazy (pf_env pf) sv sv' \<and> sy_index sv' = sy_index sv \<and>
    (\<forall>u. bt_lookup (sy_analyses sv') u = (if u \<in> set evicted then None else bt_lookup (sy_analyses sv) u))"
  using assms
proof (induction pf uris sv arbitrary: evicted sv' rule: evict_each.induct)
  case (2 pf uri uris sv)
  show ?case
  proof (cases "bt_lookup (sy_analyses sv) uri")
    case None
    then show ?thesis using 2(1) [OF None] 2(4) by simp
  next
    case (Some a)
    obtain i s where c: "content_fingerprint pf uri sv = (i, s)" by (metis prod.exhaust)
    have s: "service_lazy (pf_env pf) sv s" "sy_index s = sy_index sv" "sy_analyses s = sy_analyses sv"
      using query_case [OF query_fingerprint c] fingerprint_frame [OF c] by (simp_all add: query_step_def)
    show ?thesis
    proof (cases "ok_of i = Some (da_identity a)")
      case True
      with 2(4) Some c have "evict_each pf uris s = (evicted, sv')" by simp
      from 2(3) [OF Some c [symmetric] _ this] True s show ?thesis by (auto intro: service_lazy_trans)
    next
      case False
      let ?d = "s\<lparr>sy_analyses := bt_delete uri (sy_analyses s)\<rparr>"
      obtain ev where e: "evict_each pf uris ?d = (ev, sv')" "evicted = uri # ev"
        using 2(4) Some c False by (auto split: prod.splits)
      have d: "service_lazy (pf_env pf) sv ?d" using s(1) by (simp add: service_lazy_def)
      from 2(2) [OF Some c [symmetric] _ e(1)] False s d e(2) show ?thesis
        by (auto intro: service_lazy_trans)
    qed
  qed
qed simp

lemma query_evict: "query_step pf sv (snd (evict_stale_analyses pf sv))"
proof -
  obtain st s1 where c1: "stale_uris pf (bt_entries (sy_analyses sv)) sv = (st, s1)" by (metis prod.exhaust)
  obtain ev s2 where c2: "evict_each pf st s1 = (ev, s2)" by (metis prod.exhaust)
  let ?r = "s2\<lparr>sy_index := fold index_remove ev (sy_index s2)\<rparr>"
  note e = evict_each_effect [OF c2]
  have "caches_ok (pf_tools pf) ?r" if ok: "caches_ok (pf_tools pf) s1"
  proof -
    have "caches_ok (pf_tools pf) (s1\<lparr>sy_analyses := sy_analyses s2, sy_index := fold index_remove ev (sy_index s1)\<rparr>)"
      by (rule caches_ok_drop [OF ok]) (use e in \<open>auto split: if_splits\<close>)
    moreover have "sy_analyses ?r = sy_analyses s2" "sy_index ?r = fold index_remove ev (sy_index s1)" using e by simp_all
    ultimately show ?thesis
      by (subst caches_ok_cong [of ?r "s1\<lparr>sy_analyses := sy_analyses s2, sy_index := fold index_remove ev (sy_index s1)\<rparr>"])
        simp_all
  qed
  moreover have "service_lazy (pf_env pf) s1 ?r" using e by (simp add: service_lazy_def)
  ultimately have "query_step pf s1 ?r" unfolding query_step_def by blast
  from query_trans [OF query_case [OF query_stale_uris c1] this]
  show ?thesis by (simp add: evict_stale_analyses_def c1 c2)
qed

lemma query_identities: "query_step pf sv (snd (checkpoint_identities pf uris sv))"
proof (induction pf uris sv rule: checkpoint_identities.induct)
  case (2 pf uri uris sv)
  obtain r s where c: "on_store (content (pf_env pf) uri) sv = (r, s)" by (metis prod.exhaust)
  have q: "query_step pf sv s" by (rule query_on_storeD [OF c]) (rule lazy_content)
  from 2 c have "query_step pf s (snd (checkpoint_identities pf uris s))" by simp
  from query_trans [OF q this] show ?case by (auto simp: c split: prod.splits)
qed simp

section \<open>The invariant\<close>

definition service_ok :: "platform \<Rightarrow> service \<Rightarrow> bool" where
  "service_ok pf sv \<longleftrightarrow>
     store_ok (pf_env pf) (sy_store sv) \<and> hub_reachable (sy_hub sv) \<and> caches_ok (pf_tools pf) sv"

text \<open>Cursors in a checkpoint file are \<open>u64\<close> values.\<close>

definition platform_ok :: "platform \<Rightarrow> bool" where
  "platform_ok pf \<longleftrightarrow> (\<forall>path c. pf_read_checkpoint pf path = CheckpointParsed c \<longrightarrow> wc_cursor c \<le> u64_max)"

lemma service_okI:
  "store_ok (pf_env pf) (sy_store sv) \<Longrightarrow> hub_reachable (sy_hub sv) \<Longrightarrow> caches_ok (pf_tools pf) sv \<Longrightarrow> service_ok pf sv"
  by (simp add: service_ok_def)

lemma service_ok_query: "service_ok pf sv \<Longrightarrow> query_step pf sv sv' \<Longrightarrow> service_ok pf sv'"
  using lazy_store_ok unfolding service_ok_def query_step_def service_lazy_def by metis

lemma service_ok_checkpoint [simp]: "service_ok pf (sv\<lparr>sy_checkpoint := c\<rparr>) = service_ok pf sv"
  by (simp add: service_ok_def)

lemma service_ok_push: "service_ok pf sv \<Longrightarrow> service_ok pf (sv\<lparr>sy_hub := snd (hub_push e (sy_hub sv))\<rparr>)"
  by (simp add: service_ok_def hub_pushed)

lemma service_ok_store:
  "service_ok pf sv \<Longrightarrow> store_ok (pf_env pf) st \<Longrightarrow> service_ok pf (sv\<lparr>sy_store := st\<rparr>)"
  by (simp add: service_ok_def)

lemma service_ok_invalidate: "service_ok pf sv \<Longrightarrow> service_ok pf (fold invalidate_transitive_importers us sv)"
  by (simp add: service_ok_def)

lemma service_ok_on_store:
  "service_ok pf sv \<Longrightarrow> (store_ok (pf_env pf) (sy_store sv) \<Longrightarrow> store_ok (pf_env pf) (snd (f (sy_store sv)))) \<Longrightarrow>
   service_ok pf (snd (on_store f sv))"
  by (simp add: service_ok_def)

lemma service_ok_mutate:
  assumes "service_ok pf sv" "store_ok (pf_env pf) (sy_store sv) \<Longrightarrow> store_ok (pf_env pf) (fst (snd (f (sy_store sv))))"
  shows "service_ok pf (snd (mutate_store f sv))"
proof -
  obtain r st n where f: "f (sy_store sv) = (r, st, n)" by (metis prod_cases3)
  have "store_ok (pf_env pf) st" using assms f by (simp add: service_ok_def)
  then show ?thesis
    using service_ok_invalidate [OF service_ok_store [OF assms(1)]] by (simp add: mutate_store_def f)
qed

lemma service_ok_publish:
  "service_ok pf sv \<Longrightarrow> service_ok pf (snd (evict_stale_analyses pf (sv\<lparr>sy_hub := snd (hub_push e (sy_hub sv))\<rparr>)))"
  by (rule service_ok_query [OF service_ok_push query_evict])

lemma query_content: "query_step pf sv (snd (on_store (content (pf_env pf) uri) sv))"
  by (rule query_on_store) (rule lazy_content)

lemmas service_ok_queries =
  service_ok_query [OF _ query_snapshot] service_ok_query [OF _ query_cached_snapshot]
  service_ok_query [OF _ query_cached_if_current] service_ok_query [OF _ query_fingerprint]
  service_ok_query [OF _ query_identities]
  service_ok_query [OF _ query_content]

lemma service_ok_persist: "service_ok pf sv \<Longrightarrow> service_ok pf (snd (persist_checkpoint pf sv))"
  by (auto simp: persist_checkpoint_def Let_def case_prod_unfold intro: service_ok_queries split: option.splits)

lemma service_ok_observe_change:
  "service_ok pf sv \<Longrightarrow> service_ok pf (snd (observe_change pf uri g g' before reconciled persist sv))"
  by (auto simp: observe_change_def Let_def case_prod_unfold
      intro!: service_ok_persist service_ok_publish service_ok_queries split: sum.splits)

lemma service_ok_observe_removal:
  "service_ok pf sv \<Longrightarrow> service_ok pf (snd (observe_removal pf uri g g' before sv))"
  by (auto simp: observe_removal_def Let_def case_prod_unfold
      intro!: service_ok_persist service_ok_publish split: sum.splits)

lemma service_ok_begin_change: "service_ok pf sv \<Longrightarrow> service_ok pf (snd (begin_change pf uri sv))"
  by (auto simp: begin_change_def Let_def case_prod_unfold intro!: service_ok_queries split: option.splits sum.splits)

lemma service_ok_observe_edit: "service_ok pf (snd s) \<Longrightarrow> service_ok pf (snd (observe_edit pf uri g before s))"
  by (cases s) (auto simp: observe_edit_def case_prod_unfold service_ok_observe_change split: sum.splits)

section \<open>The editor operations\<close>

lemma service_ok_did_open: "service_ok pf sv \<Longrightarrow> service_ok pf (snd (service_did_open pf uri version t sv))"
  by (auto simp: service_did_open_def case_prod_unfold did_open_ok
      intro!: service_ok_observe_edit service_ok_mutate service_ok_begin_change)

lemma service_ok_did_save: "service_ok pf sv \<Longrightarrow> service_ok pf (snd (service_did_save pf uri t sv))"
proof -
  assume "service_ok pf sv"
  then have "service_ok pf (snd (mutate_store (did_save (pf_env pf) uri t) (snd (begin_change pf uri sv))))"
    by (rule service_ok_mutate [OF service_ok_begin_change did_save_ok])
  then show ?thesis
    by (auto simp: service_did_save_def case_prod_unfold split: sum.splits intro!: service_ok_observe_edit)
qed

lemma service_ok_did_close: "service_ok pf sv \<Longrightarrow> service_ok pf (snd (service_did_close pf uri sv))"
proof -
  assume "service_ok pf sv"
  then have "service_ok pf (snd (mutate_store (did_close uri) (snd (begin_change pf uri sv))))"
    by (rule service_ok_mutate [OF service_ok_begin_change did_close_ok])
  then show ?thesis
    by (auto simp: service_did_close_def case_prod_unfold split: sum.splits option.splits
        intro!: service_ok_observe_change service_ok_query [OF _ query_evict])
qed

lemma service_ok_did_change_incremental:
  assumes "service_ok pf sv" "service_did_change_incremental pf pc cw uri version changes sv = Inr (r, sv')"
  shows "service_ok pf sv'"
proof -
  obtain g b sv1 where b: "begin_change pf uri sv = ((g, b), sv1)" by (metis prod.exhaust)
  have ok: "service_ok pf sv1" using service_ok_begin_change [OF assms(1), of uri] b by simp
  obtain s where s: "did_change_incremental (pf_env pf) pc cw uri version changes (sy_store sv1) = Inr s"
    "(r, sv') = observe_edit pf uri g b (mutate_store (\<lambda>_. s) sv1)"
    using assms(2) by (auto simp: service_did_change_incremental_def b bind_result_def split: sum.splits)
  have "service_ok pf (snd (mutate_store (\<lambda>_. s) sv1))"
    by (rule service_ok_mutate [OF ok]) (use s(1) did_change_incremental_ok in \<open>metis prod.exhaust fst_conv snd_conv\<close>)
  from service_ok_observe_edit [OF this] s(2) show ?thesis by (metis snd_conv)
qed

section \<open>Refreshing\<close>

text \<open>What the owner of the store keeps in its own state while the store refreshes.\<close>

locale refresh_owner = refresh_hook env hook notify
  for env :: environment
    and hook :: "string \<Rightarrow> document_store \<times> 'x \<Rightarrow> bool \<times> document_store \<times> 'x"
    and notify :: "string \<Rightarrow> 'x \<Rightarrow> 'x" +
  fixes owner_ok :: "'x \<Rightarrow> bool"
  assumes hook_owner: "owner_ok x \<Longrightarrow> owner_ok (snd (snd (hook uri (st, x))))"
    and notify_owner: "owner_ok x \<Longrightarrow> owner_ok (notify uri x)"
    and hook_generation: "ds_generation (fst (snd (hook uri (st, x)))) = ds_generation st"
begin

text \<open>A candidate is reported at most once, with the generation its change made.\<close>

lemma refresh_one_change:
  assumes "ds_generation st < u64_max" "refresh_one env hook notify c (st, x, changed) = (st', x', changed')"
  shows "ds_generation st' = ds_generation st \<and> changed' = changed \<or>
    ds_generation st' = Suc (ds_generation st) \<and>
    (\<exists>removed. changed' = changed @ [(cd_uri c, Suc (ds_generation st), removed)])"
proof -
  obtain go st1 x1 where h: "hook (cd_uri c) (st, x) = (go, st1, x1)" by (metis prod_cases3)
  have g: "ds_generation st1 = ds_generation st" using hook_generation [of "cd_uri c" st x] by (simp add: h)
  have n: "next_generation s = (Suc (ds_generation st), s\<lparr>ds_generation := Suc (ds_generation st)\<rparr>)"
    if "ds_generation s = ds_generation st" for s
    using assms(1) that by (simp add: next_generation_def sat_add64_def u64_max_def)
  show ?thesis using assms(2) g
    by (auto simp: refresh_one_def refresh_removed_def refresh_text_def h Let_def n store_simps
        split: read_result.splits option.splits if_splits)
qed

lemma refresh_fold_generations:
  assumes "fold (refresh_one env hook notify) cs (st, x, changed) = (st', x', changed')"
    and "ds_generation st + length cs < u64_max"
    and "sorted_wrt (<) (map (fst \<circ> snd) changed)" "\<forall>c \<in> set changed. fst (snd c) \<le> ds_generation st"
  shows "sorted_wrt (<) (map (fst \<circ> snd) changed') \<and> (\<forall>c \<in> set changed'. fst (snd c) \<le> ds_generation st')"
  using assms
proof (induction cs arbitrary: st x changed)
  case (Cons c cs)
  obtain st1 x1 ch1 where s: "refresh_one env hook notify c (st, x, changed) = (st1, x1, ch1)" by (metis prod_cases3)
  have f: "fold (refresh_one env hook notify) cs (st1, x1, ch1) = (st', x', changed')" using Cons.prems(1) s by simp
  from Cons.prems(2) have "ds_generation st < u64_max" by simp
  from refresh_one_change [OF this s] show ?case
  proof
    assume "ds_generation st1 = ds_generation st \<and> ch1 = changed"
    then show ?thesis using Cons.IH [OF f] Cons.prems(2-4) by simp
  next
    assume "ds_generation st1 = Suc (ds_generation st) \<and>
      (\<exists>removed. ch1 = changed @ [(cd_uri c, Suc (ds_generation st), removed)])"
    then obtain removed where "ds_generation st1 = Suc (ds_generation st)"
      "ch1 = changed @ [(cd_uri c, Suc (ds_generation st), removed)]" by blast
    then show ?thesis using Cons.IH [OF f] Cons.prems(2-4)
      by (auto simp: sorted_wrt_append le_imp_less_Suc less_imp_le le_SucI)
  qed
qed simp

lemma refresh_generations:
  assumes "refresh_disk_with env hook notify (st, x) = (st', x', changed)"
    and "ds_generation st + length (refresh_candidates env st) < u64_max"
  shows "sorted_wrt (<) (map (fst \<circ> snd) changed)" "\<forall>c \<in> set changed. fst (snd c) \<le> ds_generation st'"
  using refresh_fold_generations [of "refresh_candidates env st" st x "[]"] assms
  by (simp_all add: refresh_disk_with_def)

lemma refresh_one_owner:
  "owner_ok x \<Longrightarrow> owner_ok (fst (snd (refresh_one env hook notify c (st, x, changed))))"
  using hook_owner [of x "cd_uri c" st] notify_owner
  by (auto simp: refresh_one_def refresh_removed_def refresh_text_def Let_def
      split: read_result.splits option.splits prod.splits)

lemma refresh_owner:
  assumes "owner_ok x"
  shows "owner_ok (fst (snd (refresh_disk_with env hook notify (st, x))))"
proof -
  have "owner_ok x \<Longrightarrow> owner_ok (fst (snd (fold (refresh_one env hook notify) cs (st, x, changed))))" for cs st x changed
  proof (induction cs arbitrary: st x changed)
    case (Cons c cs)
    obtain st1 x1 c1 where s: "refresh_one env hook notify c (st, x, changed) = (st1, x1, c1)" by (metis prod_cases3)
    have "owner_ok x1" using refresh_one_owner [OF Cons.prems, of c st changed] s by simp
    from Cons.IH [OF this] show ?case by (simp add: s)
  qed simp
  with assms show ?thesis by (simp add: refresh_disk_with_def)
qed

end

definition context_ok :: "platform \<Rightarrow> refresh_context \<Rightarrow> bool" where
  "context_ok pf x \<longleftrightarrow> hub_reachable (sy_hub (fst x)) \<and> caches_ok (pf_tools pf) (fst x)"

text \<open>The callback is a query of the service at the store of the refresh.\<close>

lemma capture_before_query:
  "\<exists>sv'. query_step pf (sv\<lparr>sy_store := st\<rparr>) sv' \<and> fst (snd (capture_before pf uri (st, sv, b))) = sy_store sv' \<and>
     fst (snd (snd (capture_before pf uri (st, sv, b)))) = sv'"
proof -
  let ?c = "cached_snapshot_if_current pf uri (sv\<lparr>sy_store := st\<rparr>)"
  have c: "query_step pf (sv\<lparr>sy_store := st\<rparr>) (snd ?c)" by (rule query_cached_if_current)
  have "query_step pf (sv\<lparr>sy_store := st\<rparr>) (snd (snapshot pf uri (snd ?c)))"
    by (rule query_trans [OF c query_snapshot])
  with c show ?thesis
    by (auto simp: capture_before_def case_prod_unfold split: option.splits sum.splits)
qed

interpretation resident: refresh_owner "pf_env pf" "capture_before pf" notify_context "context_ok pf" for pf
proof unfold_locales
  fix st uri u p and x :: refresh_context
  obtain sv b where x: "x = (sv, b)" by (cases x)
  obtain sv' where q: "query_step pf (sv\<lparr>sy_store := st\<rparr>) sv'"
    "fst (snd (capture_before pf uri (st, x))) = sy_store sv'" "fst (snd (snd (capture_before pf uri (st, x)))) = sv'"
    using capture_before_query [where pf = pf and sv = sv and st = st and uri = uri and b = b] unfolding x by blast
  then have l: "lazy_load (pf_env pf) st (sy_store sv')" "sy_hub sv' = sy_hub sv"
    by (simp_all add: query_step_def service_lazy_def)
  show "store_ok (pf_env pf) (fst (snd (capture_before pf uri (st, x))))" if "store_ok (pf_env pf) st"
    using lazy_store_ok [OF l(1) that] q(2) by simp
  show "waiting_at (pf_env pf) u p (fst (snd (capture_before pf uri (st, x))))" if "waiting_at (pf_env pf) u p st"
    using lazy_waiting [OF l(1) that] q(2) by simp
  show "context_ok pf (snd (snd (capture_before pf uri (st, x))))" if "context_ok pf x"
    using that q l(2) by (simp add: context_ok_def query_step_def x)
  show "ds_generation (fst (snd (capture_before pf uri (st, x)))) = ds_generation st"
    using lazy_frame(1) [OF l(1)] q(2) by simp
  show "context_ok pf (notify_context uri x)" if "context_ok pf x"
    using that by (simp add: context_ok_def notify_context_def x caches_ok_invalidate)
qed

lemma service_ok_load_new:
  "service_ok pf sv \<Longrightarrow> service_ok pf (snd (load_new_documents pf uris sv))"
proof (induction uris arbitrary: sv)
  case (Cons uri uris)
  obtain r s where l: "on_store (load_new_disk (pf_env pf) uri) sv = (r, s)" by (metis prod.exhaust)
  have s: "service_ok pf s"
    using service_ok_on_store [OF Cons.prems, of "load_new_disk (pf_env pf) uri"] load_new_disk_ok l by simp
  have o: "service_ok pf (snd (observe_change pf uri g g' None False True s))" for g g'
    by (rule service_ok_observe_change [OF s])
  show ?case using s o Cons.IH [OF s] Cons.IH [OF o]
    by (auto simp: l case_prod_unfold split: sum.splits option.splits)
qed simp

lemma service_ok_observe_refreshed:
  "service_ok pf sv \<Longrightarrow> service_ok pf (snd (observe_refreshed pf before changes sv))"
proof (induction changes arbitrary: sv)
  case (Cons c changes)
  obtain uri g removed where c: "c = (uri, g, removed)" by (metis prod_cases3)
  have o: "service_ok pf (snd (observe_change pf uri i g b False True sv))"
    "service_ok pf (snd (observe_removal pf uri i g a sv))" for i b a
    using service_ok_observe_change service_ok_observe_removal Cons.prems by blast+
  show ?case using Cons.prems o Cons.IH [OF Cons.prems] Cons.IH [OF o(1)] Cons.IH [OF o(2)]
    by (auto simp: c Let_def case_prod_unfold split: sum.splits option.splits)
qed simp

lemma service_ok_refresh_known: "service_ok pf sv \<Longrightarrow> service_ok pf (snd (refresh_known pf sv))"
proof -
  assume ok: "service_ok pf sv"
  obtain st x changed where r: "refresh_disk_with (pf_env pf) (capture_before pf) notify_context (sy_store sv, sv, bt_empty) =
      (st, x, changed)" by (metis prod_cases3)
  have "store_ok (pf_env pf) st" "context_ok pf x"
    using resident.refresh_ok [of pf "sy_store sv" "(sv, bt_empty)"]
      resident.refresh_owner [of pf "(sv, bt_empty)" "sy_store sv"] ok r
    by (simp_all add: service_ok_def context_ok_def)
  then have "service_ok pf ((fst x)\<lparr>sy_store := st\<rparr>)" by (simp add: service_ok_def context_ok_def)
  from service_ok_observe_refreshed [OF this] show ?thesis
    by (simp add: refresh_known_def r case_prod_unfold)
qed

lemma service_ok_refresh:
  assumes "service_ok pf sv" "refresh_workspace pf sv = Some (r, sv')"
  shows "service_ok pf sv'"
proof -
  obtain d st where d: "discover_workspace (pf_env pf) True (sy_store sv) = Some (d, st)"
    using assms(2) by (auto simp: refresh_workspace_def)
  have ok: "service_ok pf (sv\<lparr>sy_store := st\<rparr>)"
    by (rule service_ok_store [OF assms(1) discover_workspace_ok [OF d]]) (use assms(1) in \<open>simp add: service_ok_def\<close>)
  show ?thesis
    using assms(2) ok service_ok_load_new [OF ok] service_ok_refresh_known [OF service_ok_load_new [OF ok]]
    by (auto simp: refresh_workspace_def d Let_def case_prod_unfold split: sum.splits)
qed

section \<open>Maintaining the index\<close>

lemma query_usable: "query_step pf sv (snd (entry_usable pf uri sv))"
proof (cases "index_entry uri (sy_index sv)")
  case (Some e)
  have "query_step pf sv (snd (on_store (entry_is_current (pf_env pf) (pf_process pf) (pf_tools pf) uri e) sv))"
    by (rule query_on_store) (rule lazy_entry_is_current)
  with Some show ?thesis by (simp add: entry_usable_def)
qed (simp add: entry_usable_def)

lemma query_drop_entry: "query_step pf sv (sv\<lparr>sy_index := index_remove uri (sy_index sv)\<rparr>)"
  by (simp add: query_step_def service_lazy_def lazy_refl caches_ok_drop_entry)

lemma query_repair: "query_step pf sv (snd (snapshot pf uri (count_stat f sv)))"
  using query_trans [OF _ query_snapshot] by (metis query_count query_refl)

lemma query_ensure: "query_step pf sv (snd (ensure_workspace_entry pf uri sv))"
proof -
  let ?u = "snd (entry_usable pf uri sv)"
  let ?s = "snd (snapshot pf uri (count_stat record_index_repair ?u))"
  have s: "query_step pf sv ?s" by (rule query_trans [OF query_usable query_repair])
  from s query_trans [OF s query_usable] query_trans [OF s query_drop_entry] query_usable [of pf sv uri]
  show ?thesis
    by (auto simp: ensure_workspace_entry_def case_prod_unfold split: bool.splits sum.splits)
qed

lemma query_ensure_each: "query_step pf sv (snd (ensure_each pf uris sv))"
proof (induction uris arbitrary: sv)
  case (Cons uri uris)
  from query_trans [OF query_ensure Cons.IH] show ?case by (auto simp: case_prod_unfold)
qed simp

lemma query_ensure_all: "query_step pf sv (snd (ensure_workspace_entries pf sv))"
  using query_ensure_each by (auto simp: ensure_workspace_entries_def Let_def case_prod_unfold)

section \<open>Configuring the root\<close>

lemma service_ok_adopt:
  assumes "service_ok pf sv" "\<And>c. checkpoint = Some c \<Longrightarrow> wc_cursor c \<le> u64_max"
  shows "service_ok pf (adopt_checkpoint pf root roots checkpoint sv)"
proof -
  have g: "store_ok (pf_env pf) (restore_generation_at_least v (sy_store sv))" for v
    using assms(1) store_ok_cong [of "restore_generation_at_least v (sy_store sv)" "sy_store sv"]
    by (simp add: service_ok_def restore_generation_at_least_def)
  show ?thesis
  proof (cases checkpoint)
    case None
    then show ?thesis using assms(1) by (simp add: adopt_checkpoint_def Let_def)
  next
    case (Some c)
    then show ?thesis using assms g hub_checkpoint_restored
      by (simp add: adopt_checkpoint_def Let_def service_ok_def)
  qed
qed

lemma load_checkpoint_cursor:
  "platform_ok pf \<Longrightarrow> load_workspace_checkpoint pf path root = Inr (Some c) \<Longrightarrow> wc_cursor c \<le> u64_max"
  by (auto simp: load_workspace_checkpoint_def platform_ok_def split: checkpoint_read.splits if_splits)

lemma service_ok_reconciled:
  "service_ok pf sv \<Longrightarrow> service_ok pf (snd (observe_reconciled pf expected changes sv))"
proof (induction changes arbitrary: sv)
  case (Cons c changes)
  obtain uri g where c: "c = (uri, g)" by (cases c)
  from Cons.IH [OF service_ok_observe_change [OF Cons.prems]] service_ok_observe_change [OF Cons.prems]
  show ?case by (auto simp: c case_prod_unfold split: sum.splits)
qed simp

lemma service_ok_finish:
  assumes "service_ok pf (sv\<lparr>sy_store := st\<rparr>)"
  shows "service_ok pf (snd (finish_attach pf sv (ch, st, n)))"
proof -
  have i: "service_ok pf (fold invalidate_transitive_importers n (sv\<lparr>sy_store := st\<rparr>))"
    by (rule service_ok_invalidate [OF assms])
  from i service_ok_reconciled [OF i] service_ok_persist [OF service_ok_reconciled [OF i]]
  show ?thesis by (auto simp: finish_attach_def Let_def case_prod_unfold split: sum.splits)
qed

lemma service_ok_configure:
  assumes ok: "service_ok pf sv" and pf: "platform_ok pf" and r: "configure_root pf root requested sv = Some (r, sv')"
  shows "service_ok pf sv'"
proof -
  have root: "service_ok pf (sv\<lparr>sy_store := set_root rt (sy_store sv)\<rparr>)" for rt
    using ok store_ok_cong [of "set_root rt (sy_store sv)" "sy_store sv"]
    by (simp add: service_ok_def set_root_def)
  have roots: "service_ok pf (sv\<lparr>sy_store := set_discovery_roots rs (set_root rt (sy_store sv))\<rparr>)" for rs rt
    using ok store_ok_cong [of "set_discovery_roots rs (set_root rt (sy_store sv))" "sy_store sv"]
    by (simp add: service_ok_def set_root_def set_discovery_roots_def)
  have attach: "service_ok pf sv'" if at: "attach_root pf rt rs sv = Some (r, sv')" for rt rs
  proof -
    let ?s = "sv\<lparr>sy_store := set_discovery_roots (Some rs) (set_root (Some rt) (sy_store sv))\<rparr>"
    show ?thesis
    proof (cases "load_workspace_checkpoint pf (workspace_checkpoint_path rt) rt")
      case (Inl e)
      then show ?thesis using at roots by (auto simp: attach_root_def Let_def)
    next
      case (Inr checkpoint)
      let ?a = "adopt_checkpoint pf rt rs checkpoint ?s"
      have a: "service_ok pf ?a"
        by (rule service_ok_adopt [OF roots]) (use load_checkpoint_cursor [OF pf] Inr in blast)
      obtain ch st n where rec: "reconcile_checkpoint (pf_env pf) (map_option wc_documents checkpoint) (sy_store ?a) =
          Some (ch, st, n)" and f: "finish_attach pf ?a (ch, st, n) = (r, sv')"
        using at Inr by (auto simp: attach_root_def Let_def)
      have "service_ok pf (?a\<lparr>sy_store := st\<rparr>)"
        by (rule service_ok_store [OF a reconcile_ok [OF _ rec]]) (use a in \<open>simp add: service_ok_def\<close>)
      from service_ok_finish [OF this] f show ?thesis by (metis snd_conv)
    qed
  qed
  show ?thesis using r ok
    by (auto simp: configure_root_def Let_def split: option.splits sum.splits if_splits
        intro: root attach)
qed

section \<open>Reachable services\<close>

text \<open>
  A call of the service. \<open>pf\<close> is what the machine looks like during the call.
\<close>

inductive service_call :: "platform \<Rightarrow> service \<Rightarrow> service \<Rightarrow> bool" for pf where
  call_open: "service_did_open pf uri version t sv = (r, sv') \<Longrightarrow> service_call pf sv sv'"
| call_change: "service_did_change pf uri version t sv = (r, sv') \<Longrightarrow> service_call pf sv sv'"
| call_incremental: "service_did_change_incremental pf pc cw uri version changes sv = Inr (r, sv') \<Longrightarrow>
    service_call pf sv sv'"
| call_save: "service_did_save pf uri saved sv = (r, sv') \<Longrightarrow> service_call pf sv sv'"
| call_close: "service_did_close pf uri sv = (r, sv') \<Longrightarrow> service_call pf sv sv'"
| call_refresh: "refresh_workspace pf sv = Some (r, sv') \<Longrightarrow> service_call pf sv sv'"
| call_configure: "configure_root pf root requested sv = Some (r, sv') \<Longrightarrow> service_call pf sv sv'"
| call_snapshot: "snapshot pf uri sv = (r, sv') \<Longrightarrow> service_call pf sv sv'"
| call_ensure: "ensure_workspace_entry pf uri sv = (b, sv') \<Longrightarrow> service_call pf sv sv'"
| call_ensure_all: "ensure_workspace_entries pf sv = (failed, sv') \<Longrightarrow> service_call pf sv sv'"

definition same_build :: "platform \<Rightarrow> platform \<Rightarrow> bool" where
  "same_build pf pf' \<longleftrightarrow> same_sealing (pf_env pf) (pf_env pf') \<and> pf_tools pf' = pf_tools pf \<and> platform_ok pf'"

inductive service_reachable :: "platform \<Rightarrow> service \<Rightarrow> bool" for pf where
  service_start: "service_reachable pf (service_new stream root)"
| service_step: "service_reachable pf sv \<Longrightarrow> same_build pf pf' \<Longrightarrow> service_call pf' sv sv' \<Longrightarrow> service_reachable pf sv'"

lemma service_ok_call:
  assumes "service_call pf sv sv'" "service_ok pf sv" "platform_ok pf"
  shows "service_ok pf sv'"
  using assms
proof (induction rule: service_call.induct)
  case (call_open uri version t sv r sv')
  then show ?case using service_ok_did_open [of pf sv uri version t] by simp
next
  case (call_change uri version t sv r sv')
  then show ?case using service_ok_did_open [of pf sv uri version t] by (simp add: service_did_change_def)
next
  case (call_incremental pc cw uri version changes sv r sv')
  then show ?case using service_ok_did_change_incremental by blast
next
  case (call_save uri "saved" sv r sv')
  then show ?case using service_ok_did_save [of pf sv uri "saved"] by simp
next
  case (call_close uri sv r sv')
  then show ?case using service_ok_did_close [of pf sv uri] by simp
next
  case (call_refresh sv r sv')
  then show ?case using service_ok_refresh by blast
next
  case (call_configure root requested sv r sv')
  then show ?case using service_ok_configure by blast
next
  case (call_snapshot uri sv r sv')
  then show ?case using service_ok_query [OF _ query_snapshot, of pf sv uri] by simp
next
  case (call_ensure uri sv b sv')
  then show ?case using service_ok_query [OF _ query_ensure, of pf sv uri] by simp
next
  case (call_ensure_all sv failed sv')
  then show ?case using service_ok_query [OF _ query_ensure_all, of pf sv] by simp
qed

lemma service_ok_same_build: "same_build pf pf' \<Longrightarrow> service_ok pf' sv = service_ok pf sv"
  using store_ok_same_sealing [of "pf_env pf" "pf_env pf'" "sy_store sv"]
  by (auto simp: service_ok_def same_build_def)

lemma service_ok_new: "service_ok pf (service_new stream root)"
proof -
  have "store_ok (pf_env pf) (store_new root)"
    by (auto simp: store_ok_def store_new_def claimants_def)
  moreover have "index_entry u index_empty = None" for u by (simp add: index_entry_def index_empty_def)
  ultimately show ?thesis
    by (simp add: service_ok_def service_new_def caches_ok_def hub_start index_start)
qed

lemma service_reachable_ok: "service_reachable pf sv \<Longrightarrow> service_ok pf sv"
proof (induction rule: service_reachable.induct)
  case (service_step sv pf' sv')
  then have "service_ok pf' sv" "platform_ok pf'" by (simp_all add: service_ok_same_build) (simp add: same_build_def)
  from service_ok_call [OF service_step.hyps(3) this] service_ok_same_build [OF service_step.hyps(2)]
  show ?case by simp
qed (rule service_ok_new)

end
