(* ===== verification/Service_Props.thy ===== *)
theory Service_Props
  imports Service_Reach Modules_Props
begin

text \<open>The properties of the service, over the invariant of \<open>Service_Reach\<close>.\<close>

section \<open>A concrete service\<close>

definition sample_platform :: platform where
  "sample_platform =
     \<lparr>pf_env = sample_env, pf_process = no_process_env, pf_tools = sample_tools,
      pf_read_checkpoint = (\<lambda>p. CheckpointMissing), pf_write_checkpoint = (\<lambda>p c. None),
      pf_canonical = Inr, pf_toolchain = ''t'', pf_build = ''b''\<rparr>"

definition sample_service :: service where
  "sample_service = snd (service_did_open sample_platform ''file:/b.mncs'' 1 ''m'' (service_new ''s'' None))"

lemma sample_build: "same_build sample_platform sample_platform"
  by (simp add: same_build_def platform_ok_def sample_platform_def)

lemma sample_service_reachable: "service_reachable sample_platform sample_service"
proof -
  obtain r sv where e: "service_did_open sample_platform ''file:/b.mncs'' 1 ''m'' (service_new ''s'' None) = (r, sv)"
    by (metis prod.exhaust)
  from service_step [OF service_start sample_build call_open [OF e]] show ?thesis
    by (simp add: sample_service_def e)
qed

section \<open>The caches agree with each other\<close>

text \<open>C1: After any sequence of calls, with the files and the checkpoint file changing freely
  between them: the store's documents carry their own identities and its module directory is
  exact; the event history is a gapless run of cursors up to the newest; every cached analysis
  is filed under its own document, with positions and symbols built from the front end result it
  carries; and every entry of the workspace index comes from the cached analysis of its
  document.\<close>

theorem service_invariant:
  assumes "service_reachable pf sv"
  shows "store_ok (pf_env pf) (sy_store sv) \<and> hub_ok (sy_hub sv) \<and> index_ok (sy_index sv) \<and>
    (\<forall>uri a. bt_lookup (sy_analyses sv) uri = Some a \<longrightarrow> analysis_ok (pf_tools pf) uri a) \<and>
    (\<forall>uri e. index_entry uri (sy_index sv) = Some e \<longrightarrow>
       (\<exists>a. bt_lookup (sy_analyses sv) uri = Some a \<and> entry_of a e))"
  using service_reachable_ok [OF assms] hub_reachable_ok index_reachable_ok
  unfolding service_ok_def caches_ok_def by blast

lemma service_invariant_witness: "index_ok (sy_index sample_service) \<and> hub_ok (sy_hub sample_service)"
  using service_invariant [OF sample_service_reachable] by blast

section \<open>Invalidation\<close>

text \<open>C3: The worklist of the change callback ends on every import graph, cyclic ones included, and
  lists each document once: the changed document and exactly those that import it directly or
  through other documents.\<close>

theorem invalidation_visits_importers:
  "distinct (invalidation_victims ix uri) \<and> set (invalidation_victims ix uri) = (importer_edges ix)\<^sup>* `` {uri}"
  by (rule invalidation_victims_reach)

text \<open>C9: A change drops the analysis and the index entry of the changed document and of all its
  transitive importers, and nothing else.\<close>

theorem change_drops_importers:
  "bt_lookup (sy_analyses (invalidate_transitive_importers uri sv)) u =
     (if (uri, u) \<in> (importer_edges (sy_index sv))\<^sup>* then None else bt_lookup (sy_analyses sv) u) \<and>
   index_entry u (sy_index (invalidate_transitive_importers uri sv)) =
     (if (uri, u) \<in> (importer_edges (sy_index sv))\<^sup>* then None else index_entry u (sy_index sv))"
  using invalidation_victims_reach [of "sy_index sv" uri]
  by (simp add: invalidate_transitive_importers_def Let_def fold_delete_lookup fold_index_remove)

section \<open>Snapshots answer for the current content\<close>

text \<open>What the service relies on of the compiler: its result carries the text and the identity of
  the envelope it was given, whatever it imported.\<close>

primrec leaves :: "(front_end \<Rightarrow> bool) \<Rightarrow> compilation \<Rightarrow> bool" where
  "leaves P (Compiled fe) \<longleftrightarrow> P fe"
| "leaves P (Resolving m k) \<longleftrightarrow> (\<forall>e. leaves P (k e))"

definition echoes :: "toolchain \<Rightarrow> bool" where
  "echoes tc \<longleftrightarrow> (\<forall>e. leaves (\<lambda>fe. fe_text fe = en_text e \<and> fe_identity fe = en_identity e) (tl_compile tc e))"

lemma leaves_run: "leaves P c \<Longrightarrow> P (fst (run_compilation resolve c s))"
  by (induction c arbitrary: s) (auto split: prod.split)

lemma analyze_echoes:
  assumes "echoes tc"
  shows "analysis_text (fst (analyze_with_resolver env px tc uri e g st)) = en_text e"
    "da_identity (fst (analyze_with_resolver env px tc uri e g st)) = en_identity e"
    "da_generation (fst (analyze_with_resolver env px tc uri e g st)) = g"
  using leaves_run [of "\<lambda>fe. fe_text fe = en_text e \<and> fe_identity fe = en_identity e" "tl_compile tc e"
      "store_resolve env px tc" st] assms
  by (simp_all add: echoes_def analyze_with_resolver_def analysis_text_def case_prod_unfold)

text \<open>The content a document has, once it is loaded; queries do not change it.\<close>

definition content_now :: "platform \<Rightarrow> string \<Rightarrow> stored_content \<Rightarrow> service \<Rightarrow> bool" where
  "content_now pf uri c sv \<longleftrightarrow> query_stored (pf_env pf) uri (sy_store sv) = (Inr c, sy_store sv)"

lemma content_now_query: "content_now pf uri c sv \<Longrightarrow> query_step pf sv sv' \<Longrightarrow> content_now pf uri c sv'"
  unfolding content_now_def query_step_def service_lazy_def using query_stored_later by blast

lemma fingerprint_now:
  assumes "content_fingerprint pf uri sv = (Inr i, s)"
  shows "\<exists>c. content_now pf uri c s \<and> i = ct_identity c"
proof -
  obtain r st where q: "query_stored (pf_env pf) uri (sy_store sv) = (r, st)" by (metis prod.exhaust)
  with assms obtain c where c: "r = Inr c" "i = ct_identity c" "s = sv\<lparr>sy_store := st\<rparr>"
    by (cases r) (auto simp: content_fingerprint_def on_store_def content_identity_def)
  from query_stored_again q c(1) have "query_stored (pf_env pf) uri st = (Inr c, st)" by blast
  with c show ?thesis by (auto simp: content_now_def)
qed

lemma fingerprint_known:
  "content_now pf uri c sv \<Longrightarrow> content_fingerprint pf uri sv = (Inr (ct_identity c), sv)"
  by (simp add: content_fingerprint_def on_store_def content_identity_def content_now_def)

lemma content_known: "content_now pf uri c sv \<Longrightarrow> on_store (content (pf_env pf) uri) sv = (Inr (ct_text c), sv)"
  by (simp add: on_store_def content_def content_now_def)

lemma content_now_sealed:
  assumes "store_ok (pf_env pf) (sy_store sv)" "content_now pf uri c sv"
  shows "c = seal_content (pf_env pf) uri (ct_text c)"
proof -
  obtain d where "lookup_document (sy_store sv) uri = Some d" "stored d = Some c"
    using query_stored_lookup assms(2) unfolding content_now_def by blast
  with assms(1) have "sealed_for (pf_env pf) uri c" by (auto simp: store_ok_def intro: stored_sealed)
  then show ?thesis by (simp add: sealed_for_def)
qed

lemma cached_hit:
  assumes "cached_snapshot pf uri fp sv = (Some a, s)"
  shows "bt_lookup (sy_analyses sv) uri = Some a \<and> da_identity a = fp"
  using assms by (auto simp: cached_snapshot_def split: option.splits if_splits prod.splits sum.splits)

lemma cached_frame: "cached_snapshot pf uri fp sv = (r, s) \<Longrightarrow> sy_analyses s = sy_analyses sv"
  by (auto simp: cached_snapshot_def on_store_def split: option.splits if_splits prod.splits sum.splits)

text \<open>A frontend run, from a service at which the document has been loaded.\<close>

lemma analyze_document_now:
  assumes "content_now pf uri c sv"
  shows "\<exists>a sv'. analyze_document pf uri (ct_identity c) sv = (Inr a, sv') \<and>
    a = fst (analyze_with_resolver (pf_env pf) (pf_process pf) (pf_tools pf) uri
          (envelope (pf_env pf) (pf_tools pf) uri (ct_text c)) (ds_generation (sy_store sv)) (sy_store sv)) \<and>
    bt_lookup (sy_analyses sv') uri = Some a"
proof -
  let ?run = "analyze_with_resolver (pf_env pf) (pf_process pf) (pf_tools pf) uri
      (envelope (pf_env pf) (pf_tools pf) uri (ct_text c)) (ds_generation (sy_store sv))"
  obtain a s where an: "on_store ?run (count_stat record_frontend_run sv) = (a, s)" by (metis prod.exhaust)
  have a: "a = fst (?run (sy_store sv))" using on_store_simps(1) [of ?run "count_stat record_frontend_run sv"] an by simp
  have "query_step pf (count_stat record_frontend_run sv) s"
    by (rule query_on_storeD [OF an]) (rule lazy_analyze)
  moreover have "content_now pf uri c (count_stat record_frontend_run sv)" using assms by (simp add: content_now_def)
  ultimately have c: "content_now pf uri c s" using content_now_query by blast
  let ?p = "publish_workspace_entry pf uri a (s\<lparr>sy_analyses := bt_insert uri a (sy_analyses s)\<rparr>)"
  have "bt_lookup (sy_analyses ?p) uri = Some a"
    by (simp add: publish_workspace_entry_def on_store_def case_prod_unfold)
  then show ?thesis
    using a by (auto simp: analyze_document_def content_known [OF assms] an fingerprint_known [OF c] Let_def)
qed

abbreviation run_front_end :: "platform \<Rightarrow> string \<Rightarrow> stored_content \<Rightarrow> service \<Rightarrow> document_analysis" where
  "run_front_end pf uri c sv \<equiv>
     fst (analyze_with_resolver (pf_env pf) (pf_process pf) (pf_tools pf) uri
       (envelope (pf_env pf) (pf_tools pf) uri (ct_text c)) (ds_generation (sy_store sv)) (sy_store sv))"

lemma snapshot_cases:
  assumes "snapshot pf uri sv = (Inr a, sv')"
  shows "\<exists>c s. content_now pf uri c s \<and> query_step pf sv s \<and> query_step pf s sv' \<and>
    sy_analyses s = sy_analyses sv \<and>
    (da_identity a = ct_identity c \<and> bt_lookup (sy_analyses s) uri = Some a \<or> a = run_front_end pf uri c s)"
proof -
  obtain i s1 where f: "content_fingerprint pf uri sv = (i, s1)" by (metis prod.exhaust)
  have q1: "query_step pf sv s1" using query_fingerprint [of pf sv uri] f by simp
  have an1: "sy_analyses s1 = sy_analyses sv" using fingerprint_frame [OF f] by simp
  from assms f obtain i' where "i = Inr i'" by (cases i) (auto simp: snapshot_def)
  with fingerprint_now f obtain c where c: "content_now pf uri c s1" "i = Inr (ct_identity c)" by blast
  obtain r s2 where k1: "cached_snapshot pf uri (ct_identity c) s1 = (r, s2)" by (metis prod.exhaust)
  have q2: "query_step pf s1 s2" using query_cached_snapshot [of pf s1 uri "ct_identity c"] k1 by simp
  have c2: "content_now pf uri c s2" by (rule content_now_query [OF c(1) q2])
  have an2: "sy_analyses s2 = sy_analyses sv" using cached_frame [OF k1] an1 by simp
  show ?thesis
  proof (cases r)
    case (Some a')
    with assms f c(2) k1 have "a' = a" "sv' = count_stat record_snapshot_hit s2" by (simp_all add: snapshot_def)
    then show ?thesis using cached_hit [of pf uri "ct_identity c" s1 a s2] k1 Some c(1) q1 q2 an1
      by (intro exI [of _ c] exI [of _ s1]) simp
  next
    case None
    obtain r' s3 where k2: "cached_snapshot pf uri (ct_identity c) s2 = (r', s3)" by (metis prod.exhaust)
    have q3: "query_step pf s2 s3" using query_cached_snapshot [of pf s2 uri "ct_identity c"] k2 by simp
    have c3: "content_now pf uri c s3" by (rule content_now_query [OF c2 q3])
    have q02: "query_step pf sv s2" by (rule query_trans [OF q1 q2])
    have rest: "(case r' of Some a \<Rightarrow> (Inr a, count_stat record_snapshot_hit s3)
        | None \<Rightarrow> analyze_document pf uri (ct_identity c) s3) = (Inr a, sv')"
      using assms f c(2) k1 None fingerprint_known [OF c2] k2 by (simp add: snapshot_def split: option.splits)
    show ?thesis
    proof (cases r')
      case (Some a')
      with rest have "a' = a" "sv' = count_stat record_snapshot_hit s3" by simp_all
      then show ?thesis using cached_hit [of pf uri "ct_identity c" s2 a s3] k2 Some c2 q02 q3 an2
        by (intro exI [of _ c] exI [of _ s2]) simp
    next
      case None
      with rest have an: "analyze_document pf uri (ct_identity c) s3 = (Inr a, sv')" by simp
      have "query_step pf s3 sv'" using query_analyze [of pf s3 uri "ct_identity c"] an by simp
      moreover have "a = run_front_end pf uri c s3"
        using analyze_document_now [OF c3] an by auto
      moreover have "sy_analyses s3 = sy_analyses sv" using cached_frame [OF k2] an2 by simp
      ultimately show ?thesis using c3 query_trans [OF q02 q3] by blast
    qed
  qed
qed

text \<open>C2: The analysis a snapshot returns is the requested document's, for the content the document
  has when the call returns: its identity is the seal of that content, and its positions and
  symbols are those of the front end result it carries. When the service has no analysis of the
  document, the front end runs, and the analysis has the document's very text and the generation
  of the store.\<close>

theorem snapshot_answers_current:
  assumes "service_reachable pf sv" "same_build pf pf'" "echoes (pf_tools pf)"
    and "snapshot pf' uri sv = (Inr a, sv')"
  shows "\<exists>d c. lookup_document (sy_store sv') uri = Some d \<and> stored d = Some c \<and> da_identity a = ct_identity c \<and>
    analysis_ok (pf_tools pf) uri a \<and>
    (bt_lookup (sy_analyses sv) uri = None \<longrightarrow>
       analysis_text a = ct_text c \<and> da_generation a = ds_generation (sy_store sv))"
proof -
  have tools: "pf_tools pf' = pf_tools pf" using assms(2) by (simp add: same_build_def)
  have ok: "service_ok pf' sv"
    using service_reachable_ok [OF assms(1)] service_ok_same_build [OF assms(2)] by simp
  obtain c s where c: "content_now pf' uri c s" "query_step pf' sv s" "query_step pf' s sv'" "sy_analyses s = sy_analyses sv"
    and r: "da_identity a = ct_identity c \<and> bt_lookup (sy_analyses s) uri = Some a \<or> a = run_front_end pf' uri c s"
    using snapshot_cases [OF assms(4)] by blast
  have oks: "service_ok pf' s" by (rule service_ok_query [OF ok c(2)])
  have now: "content_now pf' uri c sv'" by (rule content_now_query [OF c(1,3)])
  have seal: "c = seal_content (pf_env pf') uri (ct_text c)"
    using content_now_sealed [OF _ c(1)] oks by (simp add: service_ok_def)
  have front: "da_identity (run_front_end pf' uri c s) = ct_identity c"
    "analysis_text (run_front_end pf' uri c s) = ct_text c"
    "da_generation (run_front_end pf' uri c s) = ds_generation (sy_store sv)"
    "analysis_ok (pf_tools pf) uri (run_front_end pf' uri c s)"
    using analyze_echoes [of "pf_tools pf'"] assms(3) seal_simps [of "pf_env pf'" uri "ct_text c"] seal c(2)
      analysis_ok_analyze service_lazy_generation
    by (simp_all add: tools envelope_def query_step_def) metis+
  have "da_identity a = ct_identity c \<and> analysis_ok (pf_tools pf) uri a"
  proof (cases "a = run_front_end pf' uri c s")
    case False
    with r have "bt_lookup (sy_analyses s) uri = Some a" "da_identity a = ct_identity c" by blast+
    with oks show ?thesis by (simp add: service_ok_def caches_ok_def tools)
  qed (use front in simp)
  moreover have "analysis_text a = ct_text c \<and> da_generation a = ds_generation (sy_store sv)"
    if "bt_lookup (sy_analyses sv) uri = None"
    using r that c(4) front by auto
  moreover obtain d where "lookup_document (sy_store sv') uri = Some d" "stored d = Some c"
    using query_stored_lookup now unfolding content_now_def by blast
  ultimately show ?thesis by (intro exI [of _ d] exI [of _ c] conjI impI) simp_all
qed

lemma sample_echoes: "echoes sample_tools"
  by (simp add: echoes_def sample_tools_def sample_front_def)

lemma snapshot_total:
  assumes "content_fingerprint pf uri sv = (Inr i, s1)"
  shows "\<exists>a sv'. snapshot pf uri sv = (Inr a, sv')"
proof -
  obtain c where c: "content_now pf uri c s1" "i = ct_identity c" using fingerprint_now [OF assms] by blast
  obtain r s where k: "cached_snapshot pf uri i s1 = (r, s)" by (metis prod.exhaust)
  have "query_step pf s1 s" using query_cached_snapshot [of pf s1 uri i] k by simp
  then have c1: "content_now pf uri c s" by (rule content_now_query [OF c(1)])
  obtain r' s' where k': "cached_snapshot pf uri i s = (r', s')" by (metis prod.exhaust)
  have "query_step pf s s'" using query_cached_snapshot [of pf s uri i] k' by simp
  then have "content_now pf uri c s'" by (rule content_now_query [OF c1])
  from analyze_document_now [OF this] show ?thesis
    using assms fingerprint_known [OF c1] k k' c(2) by (auto simp: snapshot_def split: option.splits)
qed

lemma snapshot_answers_current_witness:
  "\<exists>a sv' d c. snapshot sample_platform ''file:/a.mncs'' (service_new ''s'' None) = (Inr a, sv') \<and>
     lookup_document (sy_store sv') ''file:/a.mncs'' = Some d \<and> stored d = Some c \<and>
     da_identity a = ct_identity c \<and> analysis_text a = ct_text c"
proof -
  have tc: "echoes (pf_tools sample_platform)" using sample_echoes by (simp add: sample_platform_def)
  have "fst (content_fingerprint sample_platform ''file:/a.mncs'' (service_new ''s'' None)) = Inr ''file:/a.mncs#m''"
    by (simp add: content_fingerprint_def on_store_def content_identity_def service_new_def sample_platform_def
        query_stored_def ensure_loaded_def path_of_def is_open_document_def read_bounded_def commit_disk_def
        ensure_document_def ends_with_def store_eval)
  then obtain s where f: "content_fingerprint sample_platform ''file:/a.mncs'' (service_new ''s'' None) =
      (Inr ''file:/a.mncs#m'', s)" by (metis prod.collapse)
  obtain a sv' where e: "snapshot sample_platform ''file:/a.mncs'' (service_new ''s'' None) = (Inr a, sv')"
    using snapshot_total [OF f] by blast
  have n: "bt_lookup (sy_analyses (service_new ''s'' None)) ''file:/a.mncs'' = None" by (simp add: service_new_def)
  show ?thesis using snapshot_answers_current [OF service_start sample_build tc e] n e by metis
qed

section \<open>An edit publishes its event\<close>

lemma query_begin_change: "query_step pf sv (snd (begin_change pf uri sv))"
proof -
  let ?c = "snd (cached_snapshot_if_current pf uri sv)"
  let ?s = "snd (snapshot pf uri ?c)"
  have c: "query_step pf sv ?c" by (rule query_cached_if_current)
  have s: "query_step pf sv ?s" by (rule query_trans [OF c query_snapshot])
  have "query_step pf sv (snd (content_fingerprint pf uri ?s))" by (rule query_trans [OF s query_fingerprint])
  with c s show ?thesis by (auto simp: begin_change_def Let_def case_prod_unfold split: option.splits sum.splits)
qed

lemma begin_change_generation: "fst (fst (begin_change pf uri sv)) = ds_generation (sy_store sv)"
  by (auto simp: begin_change_def Let_def case_prod_unfold split: option.splits sum.splits)

text \<open>Everything the service does besides pushing leaves the hub and the generation alone.\<close>

lemma query_frame:
  assumes "query_step pf sv sv'"
  shows "sy_hub sv' = sy_hub sv" "ds_generation (sy_store sv') = ds_generation (sy_store sv)"
  using assms service_lazy_generation by (auto simp: query_step_def service_lazy_def)

lemma persist_frame:
  "sy_hub (snd (persist_checkpoint pf sv)) = sy_hub sv"
  "ds_generation (sy_store (snd (persist_checkpoint pf sv))) = ds_generation (sy_store sv)"
  using query_frame [OF query_identities]
  by (auto simp: persist_checkpoint_def Let_def case_prod_unfold split: option.splits)

lemma observe_change_push:
  assumes "snapshot pf uri (snd (on_store (content (pf_env pf) uri) sv)) = (Inr a, s)"
    and "ds_generation (sy_store s) = g" "da_generation a = g"
    and "observe_change pf uri old g before reconciled persist sv = (r, sv')"
  shows "sy_hub sv' = snd (hub_push (project_change (tl_model (pf_tools pf)) uri old g before a reconciled) (sy_hub s)) \<and>
    ds_generation (sy_store sv') = g \<and>
    (r = Inr (Some (sat_add64 (hub_next (sy_hub s)) 1)) \<or> (\<exists>e. r = Inl (InvalidRequest e)))"
proof -
  let ?h = "s\<lparr>sy_hub := snd (hub_push (project_change (tl_model (pf_tools pf)) uri old g before a reconciled) (sy_hub s))\<rparr>"
  let ?e = "snd (evict_stale_analyses pf ?h)"
  have e: "sy_hub ?e = sy_hub ?h" "ds_generation (sy_store ?e) = g"
    using query_frame [OF query_evict, of pf ?h] assms(2) by simp_all
  have p: "fst (persist_checkpoint pf ?e) = Inr () \<or> (\<exists>m. fst (persist_checkpoint pf ?e) = Inl (InvalidRequest m))"
    by (auto simp: persist_checkpoint_def Let_def case_prod_unfold split: option.splits)
  have c: "fst (hub_push ev (sy_hub s)) = sat_add64 (hub_next (sy_hub s)) 1" for ev
    by (simp add: hub_push_def Let_def)
  show ?thesis using assms(4) e p persist_frame [of pf ?e]
    by (auto simp: observe_change_def assms(1-3) case_prod_unfold Let_def c split: sum.splits if_splits)
qed

text \<open>The service right after the store has taken an opened text.\<close>

lemma opened_service:
  assumes "length t \<le> max_document_bytes" "ds_generation (sy_store sv) < u64_max"
    and "mutate_store (did_open (pf_env pf) uri version t) sv = (r, sv')"
  shows "r = Inr (Suc (ds_generation (sy_store sv))) \<and> ds_generation (sy_store sv') = Suc (ds_generation (sy_store sv)) \<and>
    content_now pf uri (seal_content (pf_env pf) uri t) sv' \<and> bt_lookup (sy_analyses sv') uri = None \<and>
    sy_hub sv' = sy_hub sv"
proof -
  obtain q st n where o: "did_open (pf_env pf) uri version t (sy_store sv) = (q, st, n)" by (metis prod_cases3)
  have f: "q = Inr (Suc (ds_generation (sy_store sv)))" "ds_generation st = Suc (ds_generation (sy_store sv))" "n = [uri]"
    using o assms(1,2)
    by (auto simp: did_open_def Let_def next_generation_eq sat_add64_def u64_max_def store_simps)
  have "query_stored (pf_env pf) uri st = (Inr (seal_content (pf_env pf) uri t), st)"
    using o assms(1) by (auto simp: did_open_def Let_def next_generation_eq store_simps stored_def intro!: query_loaded)
  moreover have "uri \<in> set (invalidation_victims ix uri)" for ix
    using invalidation_victims_reach [of ix uri] by simp
  ultimately show ?thesis using assms(3) f
    by (auto simp: mutate_store_def o content_now_def invalidate_transitive_importers_def Let_def fold_delete_lookup)
qed

text \<open>C12: Opening or replacing a document publishes exactly one event, for the transition from the
  generation before the call to the next one, from the document's earlier analysis to a fresh
  analysis of the new text; the call answers with the new generation, or with the failure to
  write the checkpoint, in which case the edit and its event have taken effect all the same.\<close>

theorem did_open_publishes:
  assumes "length t \<le> max_document_bytes" "ds_generation (sy_store sv) < u64_max" "echoes (pf_tools pf)"
    and "service_did_open pf uri version t sv = (r, sv')"
  shows "\<exists>after. analysis_ok (pf_tools pf) uri after \<and> analysis_text after = t \<and>
    da_identity after = env_identity (pf_env pf) uri t \<and>
    sy_hub sv' = snd (hub_push
      (project_change (tl_model (pf_tools pf)) uri (ds_generation (sy_store sv)) (Suc (ds_generation (sy_store sv)))
         (snd (fst (begin_change pf uri sv))) after False) (sy_hub sv)) \<and>
    ds_generation (sy_store sv') = Suc (ds_generation (sy_store sv)) \<and>
    (r = Inr (Suc (ds_generation (sy_store sv))) \<or> (\<exists>e. r = Inl (InvalidRequest e)))"
proof -
  let ?g = "ds_generation (sy_store sv)" and ?c = "seal_content (pf_env pf) uri t"
  obtain g before sv1 where b: "begin_change pf uri sv = ((g, before), sv1)" by (metis prod.exhaust)
  have g: "g = ?g" using begin_change_generation [of pf uri sv] b by simp
  have q1: "query_step pf sv sv1" using query_begin_change [of pf sv uri] b by simp
  note f1 = query_frame [OF q1]
  obtain r2 sv2 where m: "mutate_store (did_open (pf_env pf) uri version t) sv1 = (r2, sv2)" by (metis prod.exhaust)
  note o = opened_service [OF assms(1) _ m, unfolded f1, OF assms(2)]
  have c2: "on_store (content (pf_env pf) uri) sv2 = (Inr (ct_text ?c), sv2)" using content_known o by blast
  obtain a s where sn: "snapshot pf uri sv2 = (Inr a, s)" using snapshot_total fingerprint_known o by blast
  obtain c s0 where s0: "content_now pf uri c s0" "query_step pf sv2 s0" "query_step pf s0 s" "sy_analyses s0 = sy_analyses sv2"
    and a: "da_identity a = ct_identity c \<and> bt_lookup (sy_analyses s0) uri = Some a \<or> a = run_front_end pf uri c s0"
    using snapshot_cases [OF sn] by blast
  have "content_now pf uri ?c s0" using content_now_query o s0(2) by blast
  then have c: "c = ?c" using s0(1) by (simp add: content_now_def)
  have a': "a = run_front_end pf uri ?c s0" using a o s0(4) c by auto
  have gs: "ds_generation (sy_store s0) = Suc ?g" "ds_generation (sy_store s) = Suc ?g" "sy_hub s = sy_hub sv"
    using query_frame [OF s0(2)] query_frame [OF s0(3)] o by simp_all
  have props: "analysis_text a = t" "da_identity a = env_identity (pf_env pf) uri t" "da_generation a = Suc ?g"
    "analysis_ok (pf_tools pf) uri a"
    unfolding a' analyze_echoes [OF assms(3)] by (simp_all add: envelope_def seal_simps gs(1) analysis_ok_analyze)
  obtain r3 sv3 where ob: "observe_change pf uri g (Suc ?g) before False True sv2 = (r3, sv3)" by (metis prod.exhaust)
  have p: "sy_hub sv3 = snd (hub_push (project_change (tl_model (pf_tools pf)) uri g (Suc ?g) before a False) (sy_hub s)) \<and>
      ds_generation (sy_store sv3) = Suc ?g \<and>
      (r3 = Inr (Some (sat_add64 (hub_next (sy_hub s)) 1)) \<or> (\<exists>e. r3 = Inl (InvalidRequest e)))"
    by (rule observe_change_push [OF _ gs(2) props(3) ob]) (simp add: c2 sn)
  have "(r, sv') = (case r3 of Inl e \<Rightarrow> (Inl e, sv3) | Inr _ \<Rightarrow> (Inr (Suc ?g), sv3))"
    using assms(4) o by (auto simp: service_did_open_def b m observe_edit_def ob split: sum.splits)
  then have "sv' = sv3" "r = Inr (Suc ?g) \<or> (\<exists>e. r = Inl (InvalidRequest e))"
    using p by (auto split: sum.splits)
  then show ?thesis using p props b g gs(3) by (intro exI [of _ a]) simp
qed

lemma sample_service_eq:
  "\<exists>r. service_did_open sample_platform ''file:/b.mncs'' 1 ''m'' (service_new ''s'' None) = (r, sample_service)"
  by (simp add: sample_service_def) (metis prod.collapse)

lemma did_open_publishes_witness: "hub_next (sy_hub sample_service) = 1"
proof -
  obtain r where e: "service_did_open sample_platform ''file:/b.mncs'' 1 ''m'' (service_new ''s'' None) = (r, sample_service)"
    using sample_service_eq by blast
  have "echoes (pf_tools sample_platform)" using sample_echoes by (simp add: sample_platform_def)
  moreover have "hub_next (sy_hub (service_new ''s'' None)) = 0" "ds_generation (sy_store (service_new ''s'' None)) = 0"
    by (simp_all add: service_new_def new_with_stream_def store_new_def)
  ultimately show ?thesis
    using did_open_publishes [OF _ _ _ e] by (auto simp: max_document_bytes_def u64_max_def hub_push_def Let_def sat_add64_def)
qed

section \<open>Which changes a refresh publishes\<close>

lemma observe_change_frame:
  assumes "observe_change pf uri old g before reconciled persist sv = (r, sv')"
  shows "ds_generation (sy_store sv') = ds_generation (sy_store sv) \<and>
    (if ds_generation (sy_store sv) = g
     then sy_hub sv' = sy_hub sv \<and> (r = Inr None \<or> (\<exists>e. r = Inl e)) \<or>
       (\<exists>ev. sid_uri (ev_current ev) = uri \<and> sy_hub sv' = snd (hub_push ev (sy_hub sv)))
     else sy_hub sv' = sy_hub sv \<and> (r = Inr None \<or> (\<exists>e. r = Inl e)))"
proof -
  obtain q s where sn: "snapshot pf uri (snd (on_store (content (pf_env pf) uri) sv)) = (q, s)" by (metis prod.exhaust)
  have "query_step pf sv s" using query_trans [OF query_content query_snapshot] sn by (metis snd_conv)
  note f = query_frame [OF this]
  show ?thesis
  proof (cases "\<exists>a. q = Inr a \<and> ds_generation (sy_store s) = g \<and> da_generation a = g")
    case True
    then obtain a where a: "q = Inr a" "ds_generation (sy_store s) = g" "da_generation a = g" by blast
    have u: "sid_uri (ev_current (project_change (tl_model (pf_tools pf)) uri old g before a reconciled)) = uri"
      by (simp add: project_change_def Let_def case_prod_unfold)
    have p: "sy_hub sv' = snd (hub_push (project_change (tl_model (pf_tools pf)) uri old g before a reconciled) (sy_hub s))"
      "ds_generation (sy_store sv') = g"
      using observe_change_push [OF _ a(2,3) assms] sn a(1) by simp_all
    have "ds_generation (sy_store sv) = g" using f(2) a(2) by simp
    then show ?thesis using p u f(1) by auto
  next
    case False
    then show ?thesis using assms f by (auto simp: observe_change_def sn split: sum.splits if_splits)
  qed
qed

lemma observe_removal_frame:
  assumes "observe_removal pf uri old g a sv = (r, sv')"
  shows "ds_generation (sy_store sv') = ds_generation (sy_store sv) \<and>
    (if ds_generation (sy_store sv) = g
     then \<exists>ev. sid_uri (ev_current ev) = uri \<and> sy_hub sv' = snd (hub_push ev (sy_hub sv))
     else sy_hub sv' = sy_hub sv \<and> r = Inr None)"
proof -
  let ?ev = "project_removal (tl_model (pf_tools pf)) uri old g a (latest_cursor_for_uri uri (sy_hub sv))"
  let ?h = "sv\<lparr>sy_hub := snd (hub_push ?ev (sy_hub sv))\<rparr>"
  have e: "sy_hub (snd (evict_stale_analyses pf ?h)) = sy_hub ?h"
    "ds_generation (sy_store (snd (evict_stale_analyses pf ?h))) = ds_generation (sy_store sv)"
    using query_frame [OF query_evict, of pf ?h] by simp_all
  have u: "sid_uri (ev_current ?ev) = uri" by (simp add: project_removal_def Let_def case_prod_unfold)
  show ?thesis using assms e persist_frame [of pf "snd (evict_stale_analyses pf ?h)"] u
    by (auto simp: observe_removal_def Let_def case_prod_unfold split: sum.splits if_splits)
qed

text \<open>One reported change, as \<open>observe_refreshed\<close> handles it.\<close>

abbreviation observe_one ::
  "platform \<Rightarrow> (string, document_analysis) btree \<Rightarrow> string \<times> nat \<times> bool \<Rightarrow> service \<Rightarrow> (service_error + nat option) \<times> service" where
  "observe_one pf before_by_uri c sv \<equiv>
     (let before = bt_lookup before_by_uri (fst c)
      in if snd (snd c)
         then (case before of None \<Rightarrow> (Inr None, sv)
               | Some a \<Rightarrow> observe_removal pf (fst c) (fst (snd c) - 1) (fst (snd c)) a sv)
         else observe_change pf (fst c) (fst (snd c) - 1) (fst (snd c)) before False True sv)"

lemma observe_one_frame:
  assumes "observe_one pf m c sv = (r, sv')"
  shows "ds_generation (sy_store sv') = ds_generation (sy_store sv) \<and>
    (sy_hub sv' = sy_hub sv \<and> (r = Inr None \<or> (\<exists>e. r = Inl e)) \<or>
     ds_generation (sy_store sv) = fst (snd c) \<and>
       (\<exists>ev. sid_uri (ev_current ev) = fst c \<and> sy_hub sv' = snd (hub_push ev (sy_hub sv))))"
  using assms
  by (auto simp: Let_def dest!: observe_change_frame observe_removal_frame split: if_splits option.splits)

lemma observe_refreshed_step:
  "observe_refreshed pf m (c # changes) sv =
     (case observe_one pf m c sv of
        (Inl e, sv) \<Rightarrow> (Inl e, sv)
      | (Inr cursor, sv) \<Rightarrow>
          (case observe_refreshed pf m changes sv of
             (Inl e, sv) \<Rightarrow> (Inl e, sv)
           | (Inr cursors, sv) \<Rightarrow> (Inr (case cursor of None \<Rightarrow> cursors | Some c \<Rightarrow> c # cursors), sv)))"
  by (cases c) (simp only: observe_refreshed.simps Let_def fst_conv snd_conv)

lemma observe_refreshed_last:
  assumes "observe_refreshed pf m changes sv = (r, sv')"
    and "sorted_wrt (<) (map (fst \<circ> snd) changes)" "\<forall>c \<in> set changes. fst (snd c) \<le> ds_generation (sy_store sv)"
  shows "(sy_hub sv' = sy_hub sv \<or>
     (\<exists>ev. changes \<noteq> [] \<and> sid_uri (ev_current ev) = fst (last changes) \<and> sy_hub sv' = snd (hub_push ev (sy_hub sv)))) \<and>
    (\<forall>cursors. r = Inr cursors \<longrightarrow> length cursors \<le> 1)"
  using assms
proof (induction changes arbitrary: sv r sv')
  case (Cons c changes)
  obtain q s where o: "observe_one pf m c sv = (q, s)" by (metis prod.exhaust)
  note f = observe_one_frame [OF o]
  obtain r1 s1 where rest: "observe_refreshed pf m changes s = (r1, s1)" by (metis prod.exhaust)
  show ?case
  proof (cases "changes = []")
    case True
    then show ?thesis using Cons.prems(1) f rest
      by (auto simp only: observe_refreshed_step o) (auto split: sum.splits option.splits)
  next
    case False
    then obtain c' where "c' \<in> set changes" by (cases changes) auto
    then have lt: "fst (snd c) < ds_generation (sy_store sv)" using Cons.prems(2,3) by fastforce
    then have h: "sy_hub s = sy_hub sv" "q = Inr None \<or> (\<exists>e. q = Inl e)" using f by auto
    have "ds_generation (sy_store s) = ds_generation (sy_store sv)" using f by blast
    then have IH: "(sy_hub s1 = sy_hub s \<or>
       (\<exists>ev. sid_uri (ev_current ev) = fst (last changes) \<and> sy_hub s1 = snd (hub_push ev (sy_hub s)))) \<and>
      (\<forall>cursors. r1 = Inr cursors \<longrightarrow> length cursors \<le> 1)"
      using Cons.IH [OF rest] Cons.prems(2,3) by auto
    have "sv' = s \<and> (\<exists>e. r = Inl e) \<or> sv' = s1 \<and> r = r1"
      using Cons.prems(1) h(2) rest by (auto simp only: observe_refreshed_step o) (auto split: sum.splits)
    then show ?thesis using IH h(1) False by auto
  qed
qed simp

interpretation keeps_hub: refresh_owner "pf_env pf" "capture_before pf" notify_context "\<lambda>x. sy_hub (fst x) = hub" for pf hub
proof unfold_locales
  fix st uri and x :: refresh_context
  obtain sv b where x: "x = (sv, b)" by (cases x)
  obtain sv' where q: "query_step pf (sv\<lparr>sy_store := st\<rparr>) sv'" "fst (snd (snd (capture_before pf uri (st, x)))) = sv'"
    using capture_before_query [where pf = pf and sv = sv and st = st and uri = uri and b = b] unfolding x by blast
  show "sy_hub (fst (snd (snd (capture_before pf uri (st, x))))) = hub" if "sy_hub (fst x) = hub"
    using query_frame(1) [OF q(1)] q(2) that by (simp add: x)
  show "ds_generation (fst (snd (capture_before pf uri (st, x)))) = ds_generation st"
    by (rule resident.hook_generation)
  show "sy_hub (fst (notify_context uri x)) = hub" if "sy_hub (fst x) = hub"
    using that by (simp add: notify_context_def)
qed

text \<open>A closed document whose file has changed is reported, and the other documents stay.\<close>

lemma capture_proceeds:
  assumes "lookup_document st uri = Some d" "stored d = Some c"
  shows "\<exists>st' x'. capture_before pf uri (st, x) = (True, st', x') \<and> lazy_load (pf_env pf) st st'"
proof -
  obtain sv b where x: "x = (sv, b)" by (cases x)
  let ?sv = "sv\<lparr>sy_store := st\<rparr>"
  have n: "content_now pf uri c ?sv" using query_stored_loaded [OF assms] by (simp add: content_now_def)
  obtain r s where k: "cached_snapshot_if_current pf uri ?sv = (r, s)" by (metis prod.exhaust)
  have q: "query_step pf ?sv s" using query_cached_if_current [of pf ?sv uri] k by simp
  obtain a s' where t: "snapshot pf uri s = (Inr a, s')"
    using snapshot_total fingerprint_known content_now_query [OF n q] by blast
  have q': "query_step pf ?sv s'" using query_trans [OF q query_snapshot [of pf s uri]] t by simp
  show ?thesis using k t q q'
    by (cases r) (simp_all add: capture_before_def x query_step_def service_lazy_def)
qed

lemma refresh_one_reports:
  assumes "lookup_document st (cd_uri c) = Some d" "dc_buffer d = None" "dc_disk d = Some p"
    and "cd_previous c = Some p" "\<not> cd_open c" "env_read (pf_env pf) (cd_path c) = ReadOk t"
    and "length t \<le> max_document_bytes" "ct_text p \<noteq> t" "ds_generation st < u64_max"
  shows "\<exists>st' x'. refresh_one (pf_env pf) (capture_before pf) notify_context c (st, x, changed) =
      (st', x', changed @ [(cd_uri c, Suc (ds_generation st), False)]) \<and>
    ds_generation st' = Suc (ds_generation st) \<and>
    (\<forall>u d'. u \<noteq> cd_uri c \<longrightarrow> lookup_document st u = Some d' \<longrightarrow> stored d' \<noteq> None \<longrightarrow> lookup_document st' u = Some d')"
proof -
  have sd: "stored d = Some p" using assms(2,3) by (simp add: stored_def)
  obtain st1 x1 where h: "capture_before pf (cd_uri c) (st, x) = (True, st1, x1)" and l: "lazy_load (pf_env pf) st st1"
    using capture_proceeds [OF assms(1) sd] by blast
  have d1: "lookup_document st1 (cd_uri c) = Some d" using lazy_stored [OF l assms(1)] sd by simp
  have g: "ds_generation st1 = ds_generation st" by (rule lazy_frame(1) [OF l])
  let ?st2 = "commit_disk (pf_env pf) (cd_uri c) d (dc_path d) (effective_module d) t st1"
  have "lookup_document ?st2 u = Some d'" if "u \<noteq> cd_uri c" "lookup_document st u = Some d'" "stored d' \<noteq> None" for u d'
    using lazy_stored [OF l that(2,3)] that(1) by (simp add: commit_frame)
  then show ?thesis using assms(2,4-9) h d1 g
    by (simp add: refresh_one_def refresh_text_def is_open_document_def Let_def next_generation_def
        commit_frame sat_add64_def u64_max_def)
qed

text \<open>C15: When several closed documents have changed on disk, \<open>refresh_workspace\<close> publishes the
  event of at most one of them, the last: the generation has moved on before the others are
  observed, so the guard against stale work discards their events.\<close>

theorem refresh_publishes_last_change:
  assumes "refresh_disk_with (pf_env pf) (capture_before pf) notify_context (sy_store sv, sv, bt_empty) = (st, x, changed)"
    and "ds_generation (sy_store sv) + length (refresh_candidates (pf_env pf) (sy_store sv)) < u64_max"
    and "refresh_known pf sv = (r, sv')"
  shows "(sy_hub sv' = sy_hub sv \<or>
      (\<exists>ev. changed \<noteq> [] \<and> sid_uri (ev_current ev) = fst (last changed) \<and> sy_hub sv' = snd (hub_push ev (sy_hub sv)))) \<and>
    (\<forall>cursors. r = Inr cursors \<longrightarrow> length cursors \<le> 1)"
proof -
  obtain sv1 before where x: "x = (sv1, before)" by (cases x)
  have hub: "sy_hub sv1 = sy_hub sv"
    using keeps_hub.refresh_owner [where x = "(sv, bt_empty)" and hub = "sy_hub sv" and pf = pf and st = "sy_store sv"] assms(1) x by simp
  have o: "observe_refreshed pf before changed (sv1\<lparr>sy_store := st\<rparr>) = (r, sv')"
    using assms(3) by (simp add: refresh_known_def assms(1) x)
  have "sorted_wrt (<) (map (fst \<circ> snd) changed)"
    "\<forall>c \<in> set changed. fst (snd c) \<le> ds_generation (sy_store (sv1\<lparr>sy_store := st\<rparr>))"
    using resident.refresh_generations [OF assms(1,2)] by simp_all
  from observe_refreshed_last [OF o this] show ?thesis using hub by simp
qed

definition two_store :: document_store where
  "two_store =
     snd (query_stored sample_env ''file:/b.mncs'' (snd (query_stored sample_env ''file:/a.mncs'' (store_new None))))"

definition two_service :: service where
  "two_service = (service_new ''s'' None)\<lparr>sy_store := two_store\<rparr>"

text \<open>The same machine after both files have been rewritten.\<close>

definition rewritten_platform :: platform where
  "rewritten_platform = sample_platform\<lparr>pf_env := sample_env\<lparr>env_read := (\<lambda>p. ReadOk ''n'')\<rparr>\<rparr>"

definition sample_disk :: "string \<Rightarrow> document" where
  "sample_disk p = \<lparr>dc_path = Some p, dc_disk = Some (seal_content sample_env (''file:'' @ p) ''m''), dc_buffer = None\<rparr>"

lemma two_store_eval:
  "bt_lookup (ds_documents two_store) ''file:/a.mncs'' = Some (sample_disk ''/a.mncs'')"
  "bt_lookup (ds_documents two_store) ''file:/b.mncs'' = Some (sample_disk ''/b.mncs'')"
  "bt_entries (ds_documents two_store) =
     [(''file:/a.mncs'', sample_disk ''/a.mncs''), (''file:/b.mncs'', sample_disk ''/b.mncs'')]"
  "ds_generation two_store = 0"
  by (simp_all add: two_store_def sample_disk_def query_stored_def ensure_loaded_def path_of_def is_open_document_def
      read_bounded_def commit_disk_def ensure_document_def ends_with_def store_eval)

definition sample_candidate :: "string \<Rightarrow> candidate" where
  "sample_candidate p =
     \<lparr>cd_uri = ''file:'' @ p, cd_path = p, cd_open = False, cd_previous = dc_disk (sample_disk p)\<rparr>"

lemma two_candidates:
  "refresh_candidates (pf_env rewritten_platform) two_store = [sample_candidate ''/a.mncs'', sample_candidate ''/b.mncs'']"
  by (simp add: refresh_candidates_def two_store_eval List.map_filter_def path_of_def sample_disk_def sample_candidate_def
      is_open_document_def)

lemma sample_reports:
  assumes "bt_lookup (ds_documents st) (''file:'' @ p) = Some (sample_disk p)" "ds_generation st < u64_max"
  shows "\<exists>st' x'. refresh_one (pf_env rewritten_platform) (capture_before rewritten_platform) notify_context
      (sample_candidate p) (st, x, changed) = (st', x', changed @ [(''file:'' @ p, Suc (ds_generation st), False)]) \<and>
    ds_generation st' = Suc (ds_generation st) \<and>
    (\<forall>u d'. u \<noteq> ''file:'' @ p \<longrightarrow> bt_lookup (ds_documents st) u = Some d' \<longrightarrow> stored d' \<noteq> None \<longrightarrow>
       bt_lookup (ds_documents st') u = Some d')"
  using refresh_one_reports [of st "sample_candidate p" "sample_disk p" "seal_content sample_env (''file:'' @ p) ''m''"
      rewritten_platform "''n''" x changed] assms
  by (simp add: sample_candidate_def sample_disk_def rewritten_platform_def max_document_bytes_def seal_content_def)

lemma refresh_publishes_last_change_witness:
  "\<exists>st x changed r sv'.
     refresh_disk_with (pf_env rewritten_platform) (capture_before rewritten_platform) notify_context
       (sy_store two_service, two_service, bt_empty) = (st, x, changed) \<and>
     map fst changed = [''file:/a.mncs'', ''file:/b.mncs''] \<and>
     refresh_known rewritten_platform two_service = (r, sv') \<and>
     (sy_hub sv' = sy_hub two_service \<or>
      (\<exists>ev. sid_uri (ev_current ev) = ''file:/b.mncs'' \<and> sy_hub sv' = snd (hub_push ev (sy_hub two_service))))"
proof -
  let ?pf = rewritten_platform and ?x = "(two_service, bt_empty)"
  obtain s1 x1 where 1: "refresh_one (pf_env ?pf) (capture_before ?pf) notify_context (sample_candidate ''/a.mncs'')
      (two_store, ?x, []) = (s1, x1, [(''file:/a.mncs'', 1, False)])" "ds_generation s1 = 1"
      "bt_lookup (ds_documents s1) ''file:/b.mncs'' = Some (sample_disk ''/b.mncs'')"
    using sample_reports [of two_store "''/a.mncs''" ?x "[]"] two_store_eval
    by (auto simp: u64_max_def stored_def sample_disk_def)
  obtain s2 x2 where 2: "refresh_one (pf_env ?pf) (capture_before ?pf) notify_context (sample_candidate ''/b.mncs'')
      (s1, x1, [(''file:/a.mncs'', 1, False)]) = (s2, x2, [(''file:/a.mncs'', 1, False), (''file:/b.mncs'', 2, False)])"
    using sample_reports [of s1 "''/b.mncs''" x1 "[(''file:/a.mncs'', 1, False)]"] 1(2,3) by (auto simp: u64_max_def)
  have st: "sy_store two_service = two_store" by (simp add: two_service_def)
  have d: "refresh_disk_with (pf_env ?pf) (capture_before ?pf) notify_context (sy_store two_service, ?x) =
      (s2, x2, [(''file:/a.mncs'', 1, False), (''file:/b.mncs'', 2, False)])"
    using 1(1) 2 by (simp add: refresh_disk_with_def st two_candidates)
  obtain r sv' where k: "refresh_known ?pf two_service = (r, sv')" by (metis prod.exhaust)
  from refresh_publishes_last_change [OF d _ k] d k show ?thesis
    by (auto simp: st two_candidates two_store_eval u64_max_def)
qed

section \<open>Imports that did not resolve\<close>

lemma claimant_current_identity:
  assumes "store_ok env st" "claimants (ds_documents st) m \<noteq> {}"
  shows "fst (current_identity env px tc m st) \<noteq> None"
proof -
  obtain uri where uri: "bucket_first (ds_claims st) m = Some uri"
    using bucket_first_claim(2) [OF assms(1)] assms(2) by (cases "bucket_first (ds_claims st) m") blast+
  obtain c where "query_stored env uri st = (Inr c, st)"
    using claimant_content [OF assms(1)] bucket_first_claim(1) [OF assms(1) uri] by blast
  then show ?thesis by (simp add: current_identity_def module_uri_def uri content_identity_def)
qed

lemma resident_import_recorded:
  assumes "store_ok env st" "m \<in> set (use_names t)" "claimants (ds_documents st) m \<noteq> {}"
  shows "bt_entries (fst (fingerprints_collect env px tc t st)) \<noteq> []"
proof -
  have "(bt_lookup f m \<noteq> None \<or> m \<in> set ns) \<Longrightarrow> store_ok env s \<Longrightarrow> claimants (ds_documents s) m \<noteq> {} \<Longrightarrow>
      bt_lookup (fst (fold (collect_name env px tc []) ns (f, s))) m \<noteq> None" for ns f s
  proof (induction ns arbitrary: f s)
    case (Cons n ns)
    obtain f1 s1 where e: "collect_name env px tc [] n (f, s) = (f1, s1)" by (metis prod.exhaust)
    have l: "lazy_load env s s1" using lazy_collect_name [of env s px tc "[]" n f] e by simp
    have "bt_lookup f1 m \<noteq> None \<or> m \<in> set ns"
      using collect_name_lookup [of env px tc "[]" n f s m] claimant_current_identity [OF Cons.prems(2,3), of px tc]
        Cons.prems(1) e by (auto simp: consumed_identity_def split: if_splits option.splits)
    moreover have "claimants (ds_documents s1) m \<noteq> {}" using lazy_claimants [OF l, of m] Cons.prems(3) by blast
    ultimately show ?case using Cons.IH lazy_store_ok [OF l Cons.prems(2)] e by simp
  qed simp
  from this [of bt_empty "use_names t" st] assms
  have "bt_lookup (fst (fingerprints_collect env px tc t st)) m \<noteq> None" by (simp add: fingerprints_collect_def)
  then show ?thesis
    by (cases "bt_lookup (fst (fingerprints_collect env px tc t st)) m") (auto simp: bt_lookup_eq_Some)
qed

text \<open>C16: A document none of whose imports resolved when it was analysed keeps that analysis until
  its own text changes: once a document that declares an imported module has become resident,
  the snapshot still answers the old analysis without a frontend run, and repairing the index
  entry fails although the document is known and readable.\<close>

theorem unresolved_imports_stick:
  assumes "bt_lookup (sy_analyses sv) uri = Some a" "content_now pf uri c sv" "da_identity a = ct_identity c"
    and "bt_entries (da_dependencies a) = []"
    and "index_entry uri (sy_index sv) = Some e" "we_identity e = ct_identity c" "we_has_uses e"
    and "bt_entries (we_fingerprints e) = []"
    and "service_ok pf sv" "m \<in> set (use_names (ct_text c))" "claimants (ds_documents (sy_store sv)) m \<noteq> {}"
  shows "snapshot pf uri sv = (Inr a, count_stat record_snapshot_hit sv) \<and>
    fst (ensure_workspace_entry pf uri sv) = False"
proof -
  have found: "bt_entries (fst (fingerprints_collect (pf_env pf) (pf_process pf) (pf_tools pf) (ct_text c) st)) \<noteq> []"
    if "lazy_load (pf_env pf) (sy_store sv) st" for st
    using resident_import_recorded [OF lazy_store_ok [OF that] assms(10)] lazy_claimants [OF that, of m] assms(9,11)
    by (auto simp: service_ok_def)
  have cached: "cached_snapshot pf uri (ct_identity c) s = (Some a, s)"
    if "bt_lookup (sy_analyses s) uri = Some a" for s
    using that assms(3,4) by (simp add: cached_snapshot_def)
  have snap: "snapshot pf uri s = (Inr a, count_stat record_snapshot_hit s)"
    if "content_now pf uri c s" "bt_lookup (sy_analyses s) uri = Some a" for s
    using cached [OF that(2)] fingerprint_known [OF that(1)] by (simp add: snapshot_def)
  have usable: "fst (entry_usable pf uri s) = False \<and> query_step pf s (snd (entry_usable pf uri s)) \<and>
      sy_analyses (snd (entry_usable pf uri s)) = sy_analyses s \<and> sy_index (snd (entry_usable pf uri s)) = sy_index s"
    if s: "content_now pf uri c s" "index_entry uri (sy_index s) = Some e" "lazy_load (pf_env pf) (sy_store sv) (sy_store s)" for s
  proof -
    let ?f = "fingerprints_collect (pf_env pf) (pf_process pf) (pf_tools pf) (ct_text c) (sy_store s)"
    have q: "query_stored (pf_env pf) uri (sy_store s) = (Inr c, sy_store s)" using s(1) by (simp add: content_now_def)
    have "fst ?f \<noteq> we_fingerprints e" using assms(8) found [OF s(3)] by metis
    then have "fst (entry_usable pf uri s) = False"
      by (simp add: entry_usable_def s(2) entry_is_current_def content_identity_def content_def q assms(6,7) case_prod_unfold)
    then show ?thesis using query_usable [of pf s uri] by (simp add: entry_usable_def s(2))
  qed
  let ?u = "snd (entry_usable pf uri sv)"
  have u: "fst (entry_usable pf uri sv) = False" "query_step pf sv ?u" "sy_analyses ?u = sy_analyses sv" "sy_index ?u = sy_index sv"
    using usable [OF assms(2,5) lazy_refl] by simp_all
  let ?r = "count_stat record_snapshot_hit (count_stat record_index_repair ?u)"
  have lr: "lazy_load (pf_env pf) (sy_store sv) (sy_store ?r)" using u(2) by (simp add: query_step_def service_lazy_def)
  have cu: "content_now pf uri c ?u" by (rule content_now_query [OF assms(2) u(2)])
  then have cr: "content_now pf uri c (count_stat record_index_repair ?u)" "content_now pf uri c ?r"
    by (simp_all add: content_now_def)
  have sn: "snapshot pf uri (count_stat record_index_repair ?u) = (Inr a, ?r)"
    by (rule snap [OF cr(1)]) (simp add: u(3) assms(1))
  have "fst (entry_usable pf uri ?r) = False" using usable [OF cr(2) _ lr] assms(5) u(4) by simp
  then have "fst (ensure_workspace_entry pf uri sv) = False"
    using u(1) sn by (auto simp: ensure_workspace_entry_def case_prod_unfold)
  then show ?thesis using snap [OF assms(2,1)] by simp
qed

text \<open>An importer analysed before its import was opened.\<close>

definition importing_store :: document_store where
  "importing_store = fst (snd (did_open sample_env ''file:/a.mncs'' 1 ''use m;'' opened_store))"

definition early_analysis :: document_analysis where
  "early_analysis = analyze sample_tools ''file:/a.mncs'' (envelope sample_env sample_tools ''file:/a.mncs'' ''use m;'') 1"

definition early_entry :: workspace_entry where
  "early_entry = (sample_entry ''file:/a.mncs#use m;'' [])\<lparr>we_has_uses := True\<rparr>"

definition importing_service :: service where
  "importing_service =
     (service_new ''s'' None)\<lparr>sy_store := importing_store,
        sy_analyses := bt_insert ''file:/a.mncs'' early_analysis bt_empty,
        sy_index := index_publish ''file:/a.mncs'' early_entry index_empty\<rparr>"

lemma importing_store_reachable: "store_reachable sample_env pc cw importing_store"
proof -
  obtain r st n where e: "did_open sample_env ''file:/a.mncs'' 1 ''use m;'' opened_store = (r, st, n)"
    by (metis prod_cases3)
  then have "importing_store = st" by (simp add: importing_store_def)
  with reach_open [OF opened_store_reachable same_sealing_refl e] show ?thesis by simp
qed

lemma early_analysis_simps:
  "da_identity early_analysis = ''file:/a.mncs#use m;''" "da_dependencies early_analysis = bt_empty"
  "da_uri early_analysis = ''file:/a.mncs''" "fe_identity (da_front_end early_analysis) = ''file:/a.mncs#use m;''"
  "da_positions early_analysis = pm_new (analysis_text early_analysis)"
  "da_symbols early_analysis = si_build (tl_model sample_tools) (da_front_end early_analysis)"
  by (simp_all add: early_analysis_def analyze_def Let_def envelope_def sample_env_def sample_tools_def sample_front_def
      analysis_text_def)

lemma early_no_symbols: "si_symbols (da_symbols early_analysis) = []"
  by (simp add: early_analysis_def analyze_def Let_def sample_tools_def sample_front_def si_build_def si_empty_def)

lemma importing_service_ok: "service_ok sample_platform importing_service"
proof -
  have "store_ok sample_env importing_store"
    using store_reachable_ok [OF importing_store_reachable] by blast
  moreover have "caches_ok sample_tools importing_service"
  proof -
    have ix: "sy_index importing_service = index_publish ''file:/a.mncs'' early_entry index_empty"
      and an: "bt_lookup (sy_analyses importing_service) u = (if u = ''file:/a.mncs'' then Some early_analysis else None)" for u
      by (simp_all add: importing_service_def)
    have "entry_wf early_entry" by (simp add: early_entry_def sample_entry_def entry_wf_def)
    then have "index_reachable (sy_index importing_service)" unfolding ix by (rule index_step_publish [OF index_start])
    moreover have "index_entry u (sy_index importing_service) = (if u = ''file:/a.mncs'' then Some early_entry else None)" for u
      unfolding ix index_entry_simps by (simp add: index_entry_def index_empty_def)
    moreover have "analysis_ok sample_tools ''file:/a.mncs'' early_analysis"
      unfolding analysis_ok_def using early_analysis_simps by simp
    moreover have "entry_of early_analysis early_entry"
      unfolding entry_of_def early_no_symbols by (simp add: early_analysis_simps early_entry_def sample_entry_def)
    ultimately show ?thesis unfolding caches_ok_def an by (auto split: if_splits)
  qed
  ultimately show ?thesis
    by (simp add: service_ok_def sample_platform_def importing_service_def service_new_def hub_start)
qed

lemma importing_documents:
  "bt_lookup (ds_documents importing_store) ''file:/a.mncs'' =
     Some \<lparr>dc_path = Some ''/a.mncs'', dc_disk = None,
       dc_buffer = Some \<lparr>bf_version = 1, bf_content = seal_content sample_env ''file:/a.mncs'' ''use m;''\<rparr>\<rparr>"
  "''file:/b.mncs'' \<in> claimants (ds_documents importing_store) ''m''"
  by (simp_all add: importing_store_def opened_store_def store_eval claimants_def)

lemma unresolved_imports_stick_witness:
  "snapshot sample_platform ''file:/a.mncs'' importing_service =
     (Inr early_analysis, count_stat record_snapshot_hit importing_service) \<and>
   fst (ensure_workspace_entry sample_platform ''file:/a.mncs'' importing_service) = False"
proof -
  let ?c = "seal_content sample_env ''file:/a.mncs'' ''use m;''"
  have n: "content_now sample_platform ''file:/a.mncs'' ?c importing_service"
    using query_loaded [OF importing_documents(1), of ?c]
    by (simp add: content_now_def sample_platform_def importing_service_def stored_def)
  have c: "ct_identity ?c = ''file:/a.mncs#use m;''" "ct_text ?c = ''use m;''"
    by (simp_all add: seal_content_def sample_env_def)
  have u: "''m'' \<in> set (use_names ''use m;'')" by code_simp
  have ix: "index_entry ''file:/a.mncs'' (sy_index importing_service) = Some early_entry"
    by (simp add: importing_service_def)
  have an: "bt_lookup (sy_analyses importing_service) ''file:/a.mncs'' = Some early_analysis"
    by (simp add: importing_service_def)
  have e: "we_identity early_entry = ''file:/a.mncs#use m;''" "we_has_uses early_entry"
    "bt_entries (we_fingerprints early_entry) = []"
    by (simp_all add: early_entry_def sample_entry_def)
  have cl: "claimants (ds_documents (sy_store importing_service)) ''m'' \<noteq> {}"
    using importing_documents(2) by (auto simp: importing_service_def)
  show ?thesis
    by (rule unresolved_imports_stick [OF an n _ _ ix _ e(2,3) importing_service_ok _ cl])
      (simp_all add: e(1) u early_analysis_simps sample_env_def)
qed

end
