(* ===== verification/Relation_Kernel.thy ===== *)
theory Relation_Kernel
  imports Modules Native
begin

text \<open>
  \<open>native_relation.rs\<close>: the MNCS kernel behind the graph queries, its preparation and cache, and
  its three calls. Everything a call returns is decoded and checked before it is used; nothing is
  assumed about the backend here. The compiler and the backend are fields of \<open>native_platform\<close>.
  An error keeps the fixed part of its message.
\<close>

record emission =
  em_record_types :: "record_type list"
  em_finite_types :: "finite_type list"
  em_backend :: string
  em_identity :: string
  em_identity_valid :: bool
  em_passed :: bool

text \<open>
  \<open>np_source\<close> is the kernel source the crate embeds, \<open>np_emit\<close> the request and compilation for
  the backend \<open>np_backend_name\<close>: the emitted artifact, the record and finite types of the program, or
  why there is none.
\<close>

record native_platform =
  np_source :: string
  np_valid :: "front_end \<Rightarrow> bool"
  np_emit :: "program \<Rightarrow> string + emission"
  np_backend_name :: string
  np_backend :: backend

definition relation_module :: string where
  "relation_module = ''mncs.language_service.call_relation_summary.v1''"

definition relation_function :: string where
  "relation_function = ''summarize_neighbors''"

definition relation_uri :: string where
  "relation_uri = ''mncs://language-service/call-relation-summary.mncs''"

definition relation_window_capacity :: nat where "relation_window_capacity = 64"
definition relation_walk_batch_capacity :: nat where "relation_walk_batch_capacity = 64"
definition relation_walk_result_capacity :: nat where "relation_walk_result_capacity = 1024"
definition relation_walk_root_code :: nat where "relation_walk_root_code = 1024"
definition relation_step_budget :: nat where "relation_step_budget = 100000"
definition walk_step_budget :: nat where "walk_step_budget = 8000000"

named_theorems walk_consts \<open>the capacities of the relation kernel\<close>

lemmas [walk_consts] = relation_window_capacity_def relation_walk_batch_capacity_def
  relation_walk_result_capacity_def relation_walk_root_code_def

definition sort_dependency :: string where "sort_dependency = ''mncs.std.sort.v1''"
definition walk_dependency :: string where "walk_dependency = ''mncs.std.relation_walk.v1''"

section \<open>Preparation\<close>

definition prepare_kernel ::
  "environment \<Rightarrow> process_env \<Rightarrow> toolchain \<Rightarrow> native_platform \<Rightarrow> string \<Rightarrow> document_store
     \<Rightarrow> (native_error + kernel) \<times> document_store" where
  "prepare_kernel env px tc np source_identity st =
     (case run_compilation (store_resolve env px tc)
             (tl_compile tc (envelope env tc relation_uri (np_source np))) st of
        (fe, st) \<Rightarrow>
          (if \<not> np_valid np fe then Inl (KernelUnavailable ''source is unsupported'')
           else case fe_program fe of
             None \<Rightarrow> Inl (KernelUnavailable ''no authoritative program'')
           | Some program \<Rightarrow>
               (case np_emit np program of
                  Inl reason \<Rightarrow> Inl (KernelUnavailable reason)
                | Inr em \<Rightarrow>
                    if em_backend em \<noteq> np_backend_name np \<or> \<not> em_identity_valid em \<or> \<not> em_passed em
                    then Inl (KernelUnavailable ''artifact failed identity/status validation'')
                    else Inr \<lparr>k_source_identity = source_identity,
                      k_dependencies = bt_of_list (map (\<lambda>m. (mr_requested m, mr_identity m)) (fe_module_resolutions fe)),
                      k_record_types = em_record_types em, k_finite_types = em_finite_types em, k_backend_name = em_backend em,
                      k_artifact_identity = em_identity em\<rparr>), st))"

text \<open>The cached kernel and the store: what the calls of one query share.\<close>

type_synonym relation_state = "kernel option \<times> document_store"

definition kernel_matches :: "string \<Rightarrow> string \<Rightarrow> string \<Rightarrow> kernel \<Rightarrow> bool" where
  "kernel_matches source sort_identity walk_identity k \<longleftrightarrow>
     k_source_identity k = source \<and>
     bt_lookup (k_dependencies k) sort_dependency = Some sort_identity \<and>
     bt_lookup (k_dependencies k) walk_dependency = Some walk_identity"

definition relation_kernel ::
  "environment \<Rightarrow> process_env \<Rightarrow> toolchain \<Rightarrow> native_platform \<Rightarrow> relation_state
     \<Rightarrow> (native_error + kernel) \<times> relation_state" where
  "relation_kernel env px tc np s =
     (case s of (cache, st) \<Rightarrow>
        let source = en_identity (envelope env tc relation_uri (np_source np))
        in case store_resolve env px tc sort_dependency st of
             (None, st) \<Rightarrow> (Inl (KernelUnavailable ''requires mncs.std.sort.v1 from MNCS_LIBRARY_PATH''), cache, st)
           | (Some sort_envelope, st) \<Rightarrow>
               (case store_resolve env px tc walk_dependency st of
                  (None, st) \<Rightarrow>
                    (Inl (KernelUnavailable ''requires mncs.std.relation_walk.v1 from MNCS_LIBRARY_PATH''), cache, st)
                | (Some walk_envelope, st) \<Rightarrow>
                    (case find (kernel_matches source (en_identity sort_envelope) (en_identity walk_envelope))
                            (case cache of None \<Rightarrow> [] | Some k \<Rightarrow> [k]) of
                       Some k \<Rightarrow> (Inr k, cache, st)
                     | None \<Rightarrow>
                         (case prepare_kernel env px tc np source st of
                            (Inl e, st) \<Rightarrow> (Inl e, cache, st)
                          | (Inr prepared, st) \<Rightarrow>
                              (case cache of
                                 Some existing \<Rightarrow>
                                   if k_source_identity existing = k_source_identity prepared \<and>
                                      k_dependencies existing = k_dependencies prepared
                                   then (Inr existing, cache, st)
                                   else (Inr prepared, Some prepared, st)
                               | None \<Rightarrow> (Inr prepared, Some prepared, st))))))"

section \<open>Direct neighbours\<close>

record neighbor_summary =
  ns_targets :: "nat list"
  ns_backend :: string
  ns_source :: string
  ns_dependency :: string
  ns_artifact :: string

definition padded_arguments :: "nat \<Rightarrow> nat list \<Rightarrow> exec_value" where
  "padded_arguments capacity xs =
     EvSequence (map u64_argument (xs @ replicate (capacity - length xs) 0))"

definition all_distinct_sorted :: "nat list \<Rightarrow> bool" where
  "all_distinct_sorted ts \<longleftrightarrow> list_all (\<lambda>(a, b). a < b) (zip ts (tl ts))"

text \<open>The checks on the record the kernel returned.\<close>

definition decode_summary :: "kernel \<Rightarrow> nat list \<Rightarrow> exec_value \<Rightarrow> native_error + neighbor_summary" where
  "decode_summary k candidates value =
     bind_result (record_fields k value ''NeighborSummary'') (\<lambda>fds.
     bind_result (bind_result (record_field fds ''count'') (\<lambda>v. integer_field v ''count'' 64)) (\<lambda>count.
     bind_result (record_field fds ''targets'') (\<lambda>targets.
       case targets of
         EvSequence values \<Rightarrow>
           if length values \<noteq> relation_window_capacity \<or> count > length candidates \<or> count > length values
           then Inl InvalidResult
           else bind_result (collect_results (\<lambda>v. integer_field v ''targets'' 64) (take count values)) (\<lambda>ts.
             if \<not> all_distinct_sorted ts \<or> \<not> set ts \<subseteq> set candidates then Inl Inconsistent
             else case bt_lookup (k_dependencies k) sort_dependency of
                    None \<Rightarrow> Inl LostDependency
                  | Some dependency \<Rightarrow>
                      Inr \<lparr>ns_targets = ts, ns_backend = k_backend_name k, ns_source = k_source_identity k,
                           ns_dependency = dependency, ns_artifact = k_artifact_identity k\<rparr>)
       | _ \<Rightarrow> Inl (NotASequence ''targets''))))"

definition execute_neighbor_summary ::
  "environment \<Rightarrow> process_env \<Rightarrow> toolchain \<Rightarrow> native_platform \<Rightarrow> nat list \<Rightarrow> relation_state
     \<Rightarrow> (native_error + neighbor_summary) \<times> relation_state" where
  "execute_neighbor_summary env px tc np candidates s =
     (if length candidates > relation_window_capacity then (Inl InputTooLarge, s)
      else
        case relation_kernel env px tc np s of
          (Inl e, s) \<Rightarrow> (Inl e, s)
        | (Inr k, s) \<Rightarrow>
            (bind_result
               (single_result (np_backend np k relation_module relation_function
                  [padded_arguments relation_window_capacity candidates, EvByte (int (length candidates))]
                  relation_step_budget))
               (decode_summary k candidates), s))"

section \<open>The walk\<close>

record walk_view =
  wv_seen :: "bool list"
  wv_frontier :: "nat list"
  wv_reached :: nat
  wv_depth :: nat
  wv_truncated :: bool

text \<open>The frontier codes: in range, seen unless the root, and no code twice.\<close>

definition frontier_valid :: "bool list \<Rightarrow> nat list \<Rightarrow> bool" where
  "frontier_valid seen frontier \<longleftrightarrow>
     list_all (\<lambda>c. c = relation_walk_root_code \<or> (c < relation_walk_root_code \<and> seen ! c)) frontier \<and> distinct frontier"

definition decode_walk_state :: "kernel \<Rightarrow> exec_value \<Rightarrow> native_error + walk_view" where
  "decode_walk_state k value =
     bind_result (record_fields k value ''WalkState'') (\<lambda>fds.
     bind_result (bind_result (record_field fds ''seen'')
       (\<lambda>v. boolean_sequence_field v ''seen'' relation_walk_result_capacity)) (\<lambda>seen.
     bind_result (bind_result (record_field fds ''root_seen'') (\<lambda>v. boolean_field v ''root_seen'')) (\<lambda>root_seen.
     bind_result (bind_result (record_field fds ''frontier'')
       (\<lambda>v. integer_sequence_field v ''frontier'' relation_walk_result_capacity)) (\<lambda>frontier_values.
     bind_result (bind_result (record_field fds ''frontier_count'') (\<lambda>v. integer_field v ''frontier_count'' 64)) (\<lambda>frontier_count.
     bind_result (bind_result (record_field fds ''reached_count'') (\<lambda>v. integer_field v ''reached_count'' 64)) (\<lambda>reached_count.
     bind_result (bind_result (record_field fds ''frontier_depth'') (\<lambda>v. integer_field v ''frontier_depth'' 64)) (\<lambda>frontier_depth.
     bind_result (bind_result (record_field fds ''truncated'') (\<lambda>v. boolean_field v ''truncated'')) (\<lambda>truncated.
     bind_result (bind_result (record_field fds ''valid'') (\<lambda>v. boolean_field v ''valid'')) (\<lambda>valid.
       let seen_count = length (filter id seen)
       in if \<not> valid \<or> \<not> root_seen \<or> frontier_count > relation_walk_result_capacity
             \<or> \<not> (1 \<le> reached_count \<and> reached_count \<le> relation_walk_result_capacity + 1)
             \<or> frontier_depth > 16 \<or> seen_count + 1 \<noteq> reached_count
          then Inl InvalidResult
          else if \<not> frontier_valid seen (take frontier_count frontier_values) then Inl Inconsistent
          else Inr \<lparr>wv_seen = seen, wv_frontier = take frontier_count frontier_values,
                    wv_reached = reached_count, wv_depth = frontier_depth, wv_truncated = truncated\<rparr>)))))))))"

record walk_state =
  ws_value :: exec_value
  ws_frontier :: "nat list"
  ws_reached :: nat
  ws_depth :: nat
  ws_truncated :: bool
  ws_backend :: string
  ws_source :: string
  ws_dependency :: string
  ws_artifact :: string

definition native_walk_state :: "exec_value \<Rightarrow> kernel \<Rightarrow> native_error + walk_state" where
  "native_walk_state value k =
     bind_result (decode_walk_state k value) (\<lambda>vw.
       case bt_lookup (k_dependencies k) walk_dependency of
         None \<Rightarrow> Inl LostDependency
       | Some dependency \<Rightarrow>
           Inr \<lparr>ws_value = value, ws_frontier = wv_frontier vw, ws_reached = wv_reached vw,
                ws_depth = wv_depth vw, ws_truncated = wv_truncated vw, ws_backend = k_backend_name k,
                ws_source = k_source_identity k, ws_dependency = dependency,
                ws_artifact = k_artifact_identity k\<rparr>)"

definition execute_walk_function ::
  "native_platform \<Rightarrow> kernel \<Rightarrow> string \<Rightarrow> exec_value list \<Rightarrow> native_error + exec_value" where
  "execute_walk_function np k function arguments =
     single_result (np_backend np k relation_module function arguments walk_step_budget)"

definition execute_walk_start ::
  "environment \<Rightarrow> process_env \<Rightarrow> toolchain \<Rightarrow> native_platform \<Rightarrow> relation_state
     \<Rightarrow> (native_error + walk_state) \<times> relation_state" where
  "execute_walk_start env px tc np s =
     (case relation_kernel env px tc np s of
        (Inl e, s) \<Rightarrow> (Inl e, s)
      | (Inr k, s) \<Rightarrow>
          (bind_result (execute_walk_function np k ''start_relation_walk'' [u64_argument relation_walk_root_code])
             (\<lambda>value. native_walk_state value k), s))"

text \<open>The codes a mask of the same length accepts.\<close>

definition accepted_codes :: "bool list \<Rightarrow> 'a list \<Rightarrow> 'a list" where
  "accepted_codes flags codes = map snd (filter fst (zip flags codes))"

text \<open>The consistency of an answer with the state it started from.\<close>

definition admission_consistent :: "walk_state \<Rightarrow> nat list \<Rightarrow> nat \<Rightarrow> walk_state \<Rightarrow> bool list \<Rightarrow> nat \<Rightarrow> bool" where
  "admission_consistent ws codes depth ws' flags accepted_count \<longleftrightarrow>
     \<not> list_ex id (drop (length codes) flags) \<and>
     length (filter id (take (length codes) flags)) = accepted_count \<and>
     ws_reached ws' = ws_reached ws + accepted_count \<and>
     ws_depth ws' = depth \<and>
     length (ws_frontier ws') = (if ws_depth ws = depth then length (ws_frontier ws) else 0) + accepted_count \<and>
     relation_walk_root_code \<notin> set (accepted_codes (take (length codes) flags) codes)"

definition decode_advance ::
  "kernel \<Rightarrow> walk_state \<Rightarrow> nat list \<Rightarrow> nat \<Rightarrow> exec_value \<Rightarrow> native_error + walk_state \<times> bool list" where
  "decode_advance k ws codes depth value =
     bind_result (record_fields k value ''AdvanceOut'') (\<lambda>fds.
     bind_result (record_field fds ''state'') (\<lambda>state_value.
     bind_result (native_walk_state state_value k) (\<lambda>ws'.
     bind_result (bind_result (record_field fds ''accepted'')
       (\<lambda>v. boolean_sequence_field v ''accepted'' relation_walk_batch_capacity)) (\<lambda>flags.
     bind_result (bind_result (record_field fds ''accepted_count'') (\<lambda>v. integer_field v ''accepted_count'' 64)) (\<lambda>accepted_count.
       if \<not> admission_consistent ws codes depth ws' flags accepted_count then Inl Inconsistent
       else if card (set (accepted_codes (take (length codes) flags) codes)) \<noteq> accepted_count then Inl Inconsistent
       else Inr (ws', take (length codes) flags))))))"

definition stale_state :: "walk_state \<Rightarrow> kernel \<Rightarrow> bool" where
  "stale_state ws k \<longleftrightarrow>
     ws_backend ws \<noteq> k_backend_name k \<or> ws_source ws \<noteq> k_source_identity k \<or>
     ws_artifact ws \<noteq> k_artifact_identity k \<or>
     ws_dependency ws \<noteq> (case bt_lookup (k_dependencies k) walk_dependency of None \<Rightarrow> [] | Some d \<Rightarrow> d)"

definition execute_walk_advance_batch ::
  "environment \<Rightarrow> process_env \<Rightarrow> toolchain \<Rightarrow> native_platform \<Rightarrow> walk_state \<Rightarrow> nat list \<Rightarrow> nat \<Rightarrow> nat
     \<Rightarrow> relation_state \<Rightarrow> (native_error + walk_state \<times> bool list) \<times> relation_state" where
  "execute_walk_advance_batch env px tc np ws codes depth max_nodes s =
     (if length codes > relation_walk_batch_capacity then (Inl InputTooLarge, s)
      else if \<not> (1 \<le> depth \<and> depth \<le> 16) then (Inl BoundExceeded, s)
      else if max_nodes > relation_walk_result_capacity then (Inl BoundExceeded, s)
      else if list_ex (\<lambda>c. c > relation_walk_root_code) codes then (Inl (OutOfRange ''node code''), s)
      else
        case relation_kernel env px tc np s of
          (Inl e, s) \<Rightarrow> (Inl e, s)
        | (Inr k, s) \<Rightarrow>
            if stale_state ws k then (Inl StaleKernel, s)
            else
              (bind_result
                 (execute_walk_function np k ''advance_relation_walk''
                    [ws_value ws, padded_arguments relation_walk_batch_capacity codes, u64_argument (length codes),
                     u64_argument depth, u64_argument max_nodes])
                 (decode_advance k ws codes depth), s))"

section \<open>What an accepted answer satisfies\<close>

lemma filter_id_take_card:
  "length (filter id flags) = length (accepted_codes flags codes)" if "length flags = length codes"
  using that by (induction flags codes rule: list_induct2) (auto simp: accepted_codes_def)

lemma decode_walk_state_bounds:
  assumes "decode_walk_state k v = Inr vw"
  shows "1 \<le> wv_reached vw \<and> wv_reached vw \<le> relation_walk_result_capacity + 1 \<and>
    frontier_valid (wv_seen vw) (wv_frontier vw) \<and> length (wv_seen vw) = relation_walk_result_capacity \<and>
    length (filter id (wv_seen vw)) + 1 = wv_reached vw"
  using assms
  by (auto simp: decode_walk_state_def bind_result_eq_Inr Let_def split: if_splits dest: boolean_sequence_length)

lemma native_walk_state_bounds:
  assumes "native_walk_state v k = Inr ws"
  shows "1 \<le> ws_reached ws \<and> ws_reached ws \<le> relation_walk_result_capacity + 1 \<and>
    (\<forall>c \<in> set (ws_frontier ws). c \<le> relation_walk_root_code)"
proof -
  obtain vw where vw: "decode_walk_state k v = Inr vw"
    and ws: "ws_reached ws = wv_reached vw" "ws_frontier ws = wv_frontier vw"
    using assms by (auto simp: native_walk_state_def bind_result_eq_Inr split: option.splits)
  then show ?thesis using decode_walk_state_bounds [OF vw] by (force simp: frontier_valid_def list_all_iff)
qed

text \<open>The answers of the walk, whatever the backend computed.\<close>

lemma walk_start_sound:
  assumes "execute_walk_start env px tc np s = (Inr ws, s')"
  shows "1 \<le> ws_reached ws"
  using assms native_walk_state_bounds
  by (fastforce simp: execute_walk_start_def bind_result_eq_Inr split: prod.splits sum.splits)

lemma walk_advance_sound:
  assumes "execute_walk_advance_batch env px tc np ws codes depth max_nodes s = (Inr (ws', flags), s')"
  shows "length flags = length codes \<and>
    ws_reached ws' = ws_reached ws + length (accepted_codes flags codes) \<and>
    ws_reached ws' \<le> relation_walk_result_capacity + 1 \<and>
    distinct (accepted_codes flags codes) \<and> relation_walk_root_code \<notin> set (accepted_codes flags codes)"
proof -
  obtain k out where d: "decode_advance k ws codes depth out = Inr (ws', flags)"
    and len: "length codes \<le> relation_walk_batch_capacity"
    using assms by (auto simp: execute_walk_advance_batch_def bind_result_eq_Inr split: if_splits prod.splits sum.splits)
  then obtain full sv where "native_walk_state sv k = Inr ws'" and full: "length full = relation_walk_batch_capacity"
    "flags = take (length codes) full"
    "admission_consistent ws codes depth ws' full (length (filter id flags))"
    "card (set (accepted_codes flags codes)) = length (filter id flags)"
    by (auto simp: decode_advance_def bind_result_eq_Inr admission_consistent_def split: if_splits
        dest: boolean_sequence_length)
  moreover have flags: "length flags = length codes" using full len by simp
  ultimately show ?thesis using native_walk_state_bounds [of sv k ws'] filter_id_take_card [OF flags]
    by (simp add: admission_consistent_def card_distinct)
qed

end
