(* ===== verification/Relation_Walk.thy ===== *)
theory Relation_Walk
  imports Relation_Kernel
begin

text \<open>
  The breadth first walk of \<open>queries.rs\<close> (\<open>NativeRelationWalk\<close>): identities are coded by numbers
  as they are met, candidates stream in batches through the kernel, which decides the first visits.
  The candidates are computed lazily, so a candidate is a function of the state that the kernel
  calls and the store lookups share. The kernel call is the argument \<open>advance\<close> here; the locale
  \<open>relation_walker\<close> states what every answer of it satisfies and is interpreted on the checked
  call of \<open>Relation_Kernel\<close> for an arbitrary backend.
\<close>

datatype walk_error = Refused native_error | UnknownNode nat

definition max_transitive_depth :: nat where "max_transitive_depth = 16"
definition max_transitive_nodes :: nat where "max_transitive_nodes = 1024"

type_synonym 's walk_advance =
  "walk_state \<Rightarrow> nat list \<Rightarrow> nat \<Rightarrow> nat \<Rightarrow> 's \<Rightarrow> (native_error + walk_state \<times> bool list) \<times> 's"

type_synonym ('s, 'k, 't) candidate = "'s \<Rightarrow> ('k \<times> 't) option \<times> 's"

record 'k walk =
  wk_state :: walk_state
  wk_root :: 'k
  wk_codes :: "'k \<rightharpoonup> nat"
  wk_identities :: "'k list"

definition walk_new :: "walk_state \<Rightarrow> 'k \<Rightarrow> 'k walk" where
  "walk_new ws root = \<lparr>wk_state = ws, wk_root = root, wk_codes = (\<lambda>_. None), wk_identities = []\<rparr>"

definition current_frontier :: "'k walk \<Rightarrow> walk_error + 'k list" where
  "current_frontier w =
     collect_results (\<lambda>code.
       if code = relation_walk_root_code then Inr (wk_root w)
       else case nth_opt (wk_identities w) code of
              None \<Rightarrow> Inl (UnknownNode code) | Some k \<Rightarrow> Inr k)
       (ws_frontier (wk_state w))"

definition walk_flush ::
  "'s walk_advance \<Rightarrow> nat \<Rightarrow> (nat \<times> 't) list \<Rightarrow> 't list \<Rightarrow> 'k walk \<Rightarrow> 's
     \<Rightarrow> (walk_error + 'k walk \<times> 't list) \<times> 's" where
  "walk_flush advance depth pending accepted w s =
     (if pending = [] then (Inr (w, accepted), s)
      else
        case advance (wk_state w) (map fst pending) depth max_transitive_nodes s of
          (Inl e, s) \<Rightarrow> (Inl (Refused e), s)
        | (Inr (ws, flags), s) \<Rightarrow>
            (Inr (w\<lparr>wk_state := ws\<rparr>, accepted @ accepted_codes flags (map snd pending)), s))"

text \<open>The code of an identity; a new one takes the next code while the table has room.\<close>

definition walk_code :: "'k \<Rightarrow> 'k walk \<Rightarrow> (nat \<times> 'k walk) option" where
  "walk_code k w =
     (if k = wk_root w then Some (relation_walk_root_code, w)
      else case wk_codes w k of
             Some code \<Rightarrow> Some (code, w)
           | None \<Rightarrow>
               let code = length (wk_identities w)
               in if code < relation_walk_result_capacity
                  then Some (code, w\<lparr>wk_codes := (wk_codes w)(k \<mapsto> code), wk_identities := wk_identities w @ [k]\<rparr>)
                  else None)"

record 't walk_admission =
  wa_accepted :: "'t list"
  wa_stopped :: bool
  wa_had :: bool

fun walk_admit ::
  "'s walk_advance \<Rightarrow> nat \<Rightarrow> ('s, 'k, 't) candidate list \<Rightarrow> (nat \<times> 't) list \<Rightarrow> 't list \<Rightarrow> bool \<Rightarrow> 'k walk \<Rightarrow> 's
     \<Rightarrow> (walk_error + 'k walk \<times> 't walk_admission) \<times> 's" where
  "walk_admit advance depth [] pending accepted had w s =
     (if pending = [] then (Inr (w, \<lparr>wa_accepted = accepted, wa_stopped = False, wa_had = had\<rparr>), s)
      else case walk_flush advance depth pending accepted w s of
             (Inl e, s) \<Rightarrow> (Inl e, s)
           | (Inr (w, accepted), s) \<Rightarrow>
               (Inr (w, \<lparr>wa_accepted = accepted, wa_stopped = ws_truncated (wk_state w), wa_had = had\<rparr>), s))"
| "walk_admit advance depth (c # cs) pending accepted had w s =
     (case c s of
        (None, s) \<Rightarrow> walk_admit advance depth cs pending accepted had w s
      | (Some (k, t), s) \<Rightarrow>
          (case walk_code k w of
             None \<Rightarrow>
               (case walk_flush advance depth pending accepted w s of
                  (Inl e, s) \<Rightarrow> (Inl e, s)
                | (Inr (w, accepted), s) \<Rightarrow>
                    (Inr (w, \<lparr>wa_accepted = accepted, wa_stopped = True, wa_had = True\<rparr>), s))
           | Some (code, w) \<Rightarrow>
               if length pending + 1 = relation_walk_batch_capacity then
                 (case walk_flush advance depth (pending @ [(code, t)]) accepted w s of
                    (Inl e, s) \<Rightarrow> (Inl e, s)
                  | (Inr (w, accepted), s) \<Rightarrow>
                      if ws_truncated (wk_state w)
                      then (Inr (w, \<lparr>wa_accepted = accepted, wa_stopped = True, wa_had = True\<rparr>), s)
                      else walk_admit advance depth cs [] accepted True w s)
               else walk_admit advance depth cs (pending @ [(code, t)]) accepted True w s))"

text \<open>
  The loop over the depths: the nodes so far and whether the walk was not cut short. \<open>expand\<close> gives
  the candidates of a depth from the frontier before it.
\<close>

fun walk_levels ::
  "'s walk_advance \<Rightarrow> (nat \<Rightarrow> 'k list \<Rightarrow> ('s, 'k, 't) candidate list) \<Rightarrow> nat list \<Rightarrow> 't list \<Rightarrow> 'k walk \<Rightarrow> 's
     \<Rightarrow> (walk_error + 't list \<times> bool) \<times> 's" where
  "walk_levels advance expand [] nodes w s = (Inr (nodes, True), s)"
| "walk_levels advance expand (depth # depths) nodes w s =
     (case current_frontier w of
        Inl e \<Rightarrow> (Inl e, s)
      | Inr frontier \<Rightarrow>
          if frontier = [] then (Inr (nodes, True), s)
          else
            (case walk_admit advance depth (expand depth frontier) [] [] False w s of
               (Inl e, s) \<Rightarrow> (Inl e, s)
             | (Inr (w, admission), s) \<Rightarrow>
                 let nodes = nodes @ wa_accepted admission
                 in if wa_stopped admission then (Inr (nodes, False), s)
                    else if \<not> wa_had admission \<or> ws_frontier (wk_state w) = [] then (Inr (nodes, True), s)
                    else walk_levels advance expand depths nodes w s))"

section \<open>Invariants of the walk\<close>

lemma accepted_codes_length:
  "length flags = length xs \<Longrightarrow> length xs = length ys \<Longrightarrow>
   length (accepted_codes flags xs) = length (accepted_codes flags ys)"
  by (simp add: filter_id_take_card [symmetric])

lemma set_accepted_codes: "set (accepted_codes flags xs) \<subseteq> set xs"
  by (auto simp: accepted_codes_def dest: set_zip_rightD)

text \<open>
  What holds before a batch, is kept by every candidate and by every flush, holds after it. The
  same for the levels.
\<close>

lemma walk_admit_invariant:
  assumes run: "walk_admit advance depth cs pending accepted had w s = (Inr (w', a), s')" "I pending accepted w s"
    and flush: "\<And>pending accepted w s w' accepted' s'. I pending accepted w s \<Longrightarrow>
      walk_flush advance depth pending accepted w s = (Inr (w', accepted'), s') \<Longrightarrow> I [] accepted' w' s'"
    and skip: "\<And>c pending accepted w s r s'. I pending accepted w s \<Longrightarrow> c \<in> set cs \<Longrightarrow> c s = (r, s') \<Longrightarrow> I pending accepted w s'"
    and push: "\<And>c pending accepted w s k t s' code w'. I pending accepted w s \<Longrightarrow> c \<in> set cs \<Longrightarrow> c s = (Some (k, t), s') \<Longrightarrow>
      walk_code k w = Some (code, w') \<Longrightarrow> I (pending @ [(code, t)]) accepted w' s'"
  shows "I [] (wa_accepted a) w' s'"
proof -
  have "I [] (wa_accepted a) w' s'"
    if "set ds \<subseteq> set cs" "walk_admit advance depth ds pending accepted had w s = (Inr (w', a), s')" "I pending accepted w s"
    for ds pending accepted had w s
    using that
  proof (induction ds arbitrary: pending accepted had w s)
    case Nil
    show ?case
    proof (cases "pending = []")
      case True
      then show ?thesis using Nil.prems by auto
    next
      case False
      then have "walk_flush advance depth pending accepted w s = (Inr (w', wa_accepted a), s')"
        using Nil.prems(2) by (auto split: prod.splits sum.splits)
      then show ?thesis by (rule flush [OF Nil.prems(3)])
    qed
  next
    case (Cons c ds)
    have c: "c \<in> set cs" and ds: "set ds \<subseteq> set cs" using Cons.prems(1) by auto
    obtain r s1 where r: "c s = (r, s1)" by (cases "c s")
    have I1: "I pending accepted w s1" by (rule skip [OF Cons.prems(3) c r])
    show ?case
    proof (cases r)
      case None
      then have "walk_admit advance depth ds pending accepted had w s1 = (Inr (w', a), s')"
        using Cons.prems(2) r by simp
      then show ?thesis by (rule Cons.IH [OF ds _ I1])
    next
      case (Some kt)
      obtain k t where kt: "r = Some (k, t)" using Some by (cases kt) auto
      show ?thesis
      proof (cases "walk_code k w")
        case None
        have "walk_flush advance depth pending accepted w s1 = (Inr (w', wa_accepted a), s')"
          using Cons.prems(2) r kt None by (auto split: prod.splits sum.splits)
        then show ?thesis by (rule flush [OF I1])
      next
        case (Some cw)
        obtain code w1 where cw: "walk_code k w = Some (code, w1)" using Some by (cases cw) auto
        have I2: "I (pending @ [(code, t)]) accepted w1 s1" using push [OF Cons.prems(3) c _ cw] r kt by simp
        show ?thesis
        proof (cases "length pending + 1 = relation_walk_batch_capacity")
          case False
          then have "walk_admit advance depth ds (pending @ [(code, t)]) accepted True w1 s1 = (Inr (w', a), s')"
            using Cons.prems(2) r kt cw by simp
          then show ?thesis by (rule Cons.IH [OF ds _ I2])
        next
          case True
          then obtain w2 accepted2 s2 where f:
              "walk_flush advance depth (pending @ [(code, t)]) accepted w1 s1 = (Inr (w2, accepted2), s2)"
            using Cons.prems(2) r kt cw by (auto split: prod.splits sum.splits)
          note I3 = flush [OF I2 f]
          show ?thesis
          proof (cases "ws_truncated (wk_state w2)")
            case True
            then show ?thesis using Cons.prems(2) r kt cw f I3 \<open>length pending + 1 = _\<close> by auto
          next
            case False
            then have "walk_admit advance depth ds [] accepted2 True w2 s2 = (Inr (w', a), s')"
              using Cons.prems(2) r kt cw f \<open>length pending + 1 = _\<close> by simp
            then show ?thesis by (rule Cons.IH [OF ds _ I3])
          qed
        qed
      qed
    qed
  qed
  from this [OF subset_refl run] show ?thesis .
qed

lemma walk_levels_invariant:
  assumes run: "walk_levels advance expand depths nodes w s = (Inr (nodes', complete), s')" "I nodes w s"
    and admit: "\<And>depth frontier nodes w s w' a s'. I nodes w s \<Longrightarrow> depth \<in> set depths \<Longrightarrow>
      walk_admit advance depth (expand depth frontier) [] [] False w s = (Inr (w', a), s') \<Longrightarrow>
      I (nodes @ wa_accepted a) w' s'"
  shows "\<exists>w'. I nodes' w' s'"
proof -
  have "\<exists>w'. I nodes' w' s'"
    if "set ds \<subseteq> set depths" "walk_levels advance expand ds nodes w s = (Inr (nodes', complete), s')" "I nodes w s"
    for ds nodes w s
    using that
  proof (induction ds arbitrary: nodes w s)
    case (Cons depth ds)
    show ?case
    proof (cases "current_frontier w")
      case (Inr frontier)
      show ?thesis
      proof (cases "frontier = []")
        case False
        with Cons.prems(2) Inr obtain w1 a s1 where a:
            "walk_admit advance depth (expand depth frontier) [] [] False w s = (Inr (w1, a), s1)"
          by (auto split: prod.splits sum.splits)
        have I1: "I (nodes @ wa_accepted a) w1 s1" using admit [OF Cons.prems(3) _ a] Cons.prems(1) by simp
        have "\<exists>w'. I nodes' w' s'"
          if rest: "walk_levels advance expand ds (nodes @ wa_accepted a) w1 s1 = (Inr (nodes', complete), s')"
          using Cons.IH [OF _ rest I1] Cons.prems(1) by simp
        then show ?thesis using I1 Cons.prems(2) Inr False a by (auto simp: Let_def split: if_splits)
      qed (use Cons.prems Inr in auto)
    qed (use Cons.prems in auto)
  qed auto
  from this [OF subset_refl run] show ?thesis .
qed

lemma walk_code_state: "walk_code k w = Some (code, w') \<Longrightarrow> wk_state w' = wk_state w"
  by (auto simp: walk_code_def Let_def split: if_splits option.splits)

section \<open>Bounds, for every kernel whose answers are checked\<close>

locale relation_walker =
  fixes advance :: "walk_state \<Rightarrow> nat list \<Rightarrow> nat \<Rightarrow> nat \<Rightarrow> 's \<Rightarrow> (native_error + walk_state \<times> bool list) \<times> 's"
  assumes advance_sound:
    "advance ws codes depth m s = (Inr (ws', flags), s') \<Longrightarrow>
       length flags = length codes \<and>
       ws_reached ws' = ws_reached ws + length (accepted_codes flags codes) \<and>
       ws_reached ws' \<le> relation_walk_result_capacity + 1"
begin

definition counted :: "nat \<Rightarrow> ('t \<Rightarrow> bool) \<Rightarrow> (nat \<times> 't) list \<Rightarrow> 't list \<Rightarrow> 'k walk \<Rightarrow> bool" where
  "counted budget P pending accepted w \<longleftrightarrow>
     length accepted + budget = ws_reached (wk_state w) \<and>
     ws_reached (wk_state w) \<le> relation_walk_result_capacity + 1 \<and>
     (\<forall>t \<in> snd ` set pending \<union> set accepted. P t)"

lemma counted_flush:
  assumes "counted budget P pending accepted w"
    "walk_flush advance depth pending accepted w s = (Inr (w', accepted'), s')"
  shows "counted budget P [] accepted' w'"
proof (cases "pending = []")
  case True
  then show ?thesis using assms by (auto simp: walk_flush_def)
next
  case False
  then obtain ws flags where a:
      "advance (wk_state w) (map fst pending) depth max_transitive_nodes s = (Inr (ws, flags), s')"
      "w' = w\<lparr>wk_state := ws\<rparr>" "accepted' = accepted @ accepted_codes flags (map snd pending)"
    using assms(2) by (auto simp: walk_flush_def split: prod.splits sum.splits)
  from advance_sound [OF a(1)] show ?thesis
    using accepted_codes_length [of flags "map fst pending" "map snd pending"] a(2,3) assms(1)
      set_accepted_codes [of flags "map snd pending"]
    by (auto simp: counted_def)
qed

lemma counted_admit:
  assumes "walk_admit advance depth cs pending accepted had w s = (Inr (w', a), s')"
    "counted budget P pending accepted w"
    and payload: "\<And>c s k t s'. c \<in> set cs \<Longrightarrow> c s = (Some (k, t), s') \<Longrightarrow> P t"
  shows "counted budget P [] (wa_accepted a) w'"
proof (rule walk_admit_invariant [OF assms(1), where I = "\<lambda>pending accepted w _. counted budget P pending accepted w"])
  show "counted budget P pending accepted w" by (rule assms(2))
  show "counted budget P [] accepted' w'" if "counted budget P pending accepted w"
    "walk_flush advance depth pending accepted w s = (Inr (w', accepted'), s')" for pending accepted w s w' accepted' s'
    using that by (rule counted_flush)
  show "counted budget P (pending @ [(code, t)]) accepted w'" if cn: "counted budget P pending accepted w"
    and c: "c \<in> set cs" "c s = (Some (k, t), s')" and w: "walk_code k w = Some (code, w')"
    for c pending accepted w s k t s' code w'
    using cn payload [OF c] walk_code_state [OF w] by (auto simp: counted_def)
qed

lemma levels_bounded:
  fixes w :: "'k walk"
  assumes "walk_levels advance expand depths [] w s = (Inr (nodes, complete), s')"
    "1 \<le> ws_reached (wk_state w)" "ws_reached (wk_state w) \<le> relation_walk_result_capacity + 1"
    and payload: "\<And>depth frontier c s k t s'. depth \<in> set depths \<Longrightarrow> c \<in> set (expand depth frontier) \<Longrightarrow>
      c s = (Some (k, t), s') \<Longrightarrow> P t"
  shows "length nodes \<le> max_transitive_nodes \<and> (\<forall>t \<in> set nodes. P t)"
proof -
  let ?b = "ws_reached (wk_state w)"
  let ?I = "\<lambda>nodes (w :: 'k walk) (_ :: 's). counted ?b P [] nodes w"
  have "\<exists>w'. ?I nodes w' s'"
  proof (rule walk_levels_invariant [OF assms(1), where I = ?I])
    show "?I [] w s" using assms(3) by (simp add: counted_def)
  next
    fix depth frontier nodes w s w' a s'
    assume I: "?I nodes w s" and "depth \<in> set depths"
      and a: "walk_admit advance depth (expand depth frontier) [] [] False w s = (Inr (w', a), s')"
    then have "counted (ws_reached (wk_state w)) P [] (wa_accepted a) w'"
      using counted_admit [OF a, of "ws_reached (wk_state w)" P] payload by (auto simp: counted_def)
    with I show "?I (nodes @ wa_accepted a) w' s'" by (auto simp: counted_def)
  qed
  then show ?thesis using assms(2) by (auto simp: counted_def max_transitive_nodes_def walk_consts)
qed

end

interpretation checked_walk: relation_walker "execute_walk_advance_batch env px tc np"
  for env px tc np
  by unfold_locales (use walk_advance_sound in blast)

end
