(* ===== verification/Relation_Spec.thy ===== *)
theory Relation_Spec
  imports Relation_Walk
begin

text \<open>
  The walk against its specification. \<open>first_visits\<close> and \<open>bfs_levels\<close> are the abstract walk: one
  pass over the candidates of a level that keeps the first visit of every identity. The locale
  \<open>first_visit_walker\<close> adds to \<open>relation_walker\<close> the contract of the kernel, that it accepts
  exactly the first visits; in it the coded, batched walk refines the abstract one.
\<close>

section \<open>The abstract walk\<close>

fun first_visits :: "'k set \<Rightarrow> ('k \<times> 't) list \<Rightarrow> ('k \<times> 't) list" where
  "first_visits V [] = []"
| "first_visits V ((k, t) # cs) =
     (if k \<in> V then first_visits V cs else (k, t) # first_visits (insert k V) cs)"

fun visit_flags :: "nat set \<Rightarrow> nat list \<Rightarrow> bool list" where
  "visit_flags S [] = []"
| "visit_flags S (c # cs) = (c \<notin> S) # visit_flags (insert c S) cs"

fun found :: "'a option list \<Rightarrow> 'a list" where
  "found [] = []"
| "found (None # xs) = found xs"
| "found (Some x # xs) = x # found xs"

fun bfs_levels ::
  "(nat \<Rightarrow> 'k list \<Rightarrow> ('k \<times> 't) option list) \<Rightarrow> nat list \<Rightarrow> 'k set \<Rightarrow> 'k list \<Rightarrow> 't list" where
  "bfs_levels candidates [] V frontier = []"
| "bfs_levels candidates (depth # depths) V frontier =
     (if frontier = [] then []
      else let visits = first_visits V (found (candidates depth frontier))
           in map snd visits @ bfs_levels candidates depths (V \<union> fst ` set visits) (map fst visits))"

lemma length_visit_flags [simp]: "length (visit_flags S cs) = length cs"
  by (induction cs arbitrary: S) auto

lemma visit_flags_append: "visit_flags S (as @ bs) = visit_flags S as @ visit_flags (S \<union> set as) bs"
  by (induction as arbitrary: S) auto

lemma first_visits_append: "first_visits V (as @ bs) = first_visits V as @ first_visits (V \<union> fst ` set as) bs"
  by (induction V as rule: first_visits.induct) (auto simp: insert_absorb)

lemma first_visits_keys: "V \<union> fst ` set (first_visits V cs) = V \<union> fst ` set cs"
  by (induction V cs rule: first_visits.induct) auto

lemma set_first_visits: "set (first_visits V cs) \<subseteq> set cs"
  by (induction V cs rule: first_visits.induct) auto

lemma first_visits_fresh: "distinct (map fst (first_visits V cs)) \<and> fst ` set (first_visits V cs) = fst ` set cs - V"
  by (induction V cs rule: first_visits.induct) auto

lemma accepted_codes_Cons [simp]:
  "accepted_codes [] [] = []" "accepted_codes (b # bs) (x # xs) = (if b then [x] else []) @ accepted_codes bs xs"
  by (simp_all add: accepted_codes_def)

lemma accepted_visits:
  assumes "inj_on f (V \<union> fst ` set cs)"
  shows "accepted_codes (visit_flags (f ` V) (map (\<lambda>x. f (fst x)) cs)) (map snd cs) = map snd (first_visits V cs) \<and>
    accepted_codes (visit_flags (f ` V) (map (\<lambda>x. f (fst x)) cs)) (map (\<lambda>x. f (fst x)) cs) =
      map (\<lambda>x. f (fst x)) (first_visits V cs)"
  using assms
proof (induction V cs rule: first_visits.induct)
  case (2 V k t cs)
  have mem: "f k \<in> f ` V \<longleftrightarrow> k \<in> V" using 2(3) by (auto simp: inj_on_def)
  have "insert (f k) (f ` V) = f ` insert k V" by simp
  then show ?case using 2 mem by (cases "k \<in> V") (auto simp: insert_absorb)
qed simp

section \<open>Coding\<close>

definition code_in :: "'k walk \<Rightarrow> 'k \<Rightarrow> nat" where
  "code_in w k = (if k = wk_root w then relation_walk_root_code else the (wk_codes w k))"

definition known_keys :: "'k walk \<Rightarrow> 'k set" where
  "known_keys w = insert (wk_root w) (set (wk_identities w))"

definition table_ok :: "'k walk \<Rightarrow> bool" where
  "table_ok w \<longleftrightarrow> wk_root w \<notin> set (wk_identities w) \<and> distinct (wk_identities w) \<and>
     length (wk_identities w) \<le> relation_walk_result_capacity \<and>
     (\<forall>k c. wk_codes w k = Some c \<longleftrightarrow> c < length (wk_identities w) \<and> wk_identities w ! c = k)"

lemma code_of_identity:
  assumes "table_ok w" "k \<in> set (wk_identities w)"
  shows "wk_codes w k = Some (code_in w k) \<and> code_in w k < length (wk_identities w) \<and>
    wk_identities w ! code_in w k = k \<and> code_in w k < relation_walk_root_code"
proof -
  obtain c where c: "c < length (wk_identities w)" "wk_identities w ! c = k"
    using assms(2) by (auto simp: in_set_conv_nth)
  then have some: "wk_codes w k = Some c" using assms(1) by (simp add: table_ok_def)
  have "k \<noteq> wk_root w" using assms by (auto simp: table_ok_def)
  with some have "code_in w k = c" by (simp add: code_in_def)
  moreover have "c < relation_walk_root_code" using c(1) assms(1) by (simp add: table_ok_def walk_consts)
  ultimately show ?thesis using c some by simp
qed

lemma code_in_root [simp]: "code_in w (wk_root w) = relation_walk_root_code"
  by (simp add: code_in_def)

lemma code_in_update [simp]:
  "code_in (w\<lparr>wk_state := ws\<rparr>) = code_in w" "known_keys (w\<lparr>wk_state := ws\<rparr>) = known_keys w"
  "table_ok (w\<lparr>wk_state := ws\<rparr>) = table_ok w"
  by (auto simp: code_in_def known_keys_def table_ok_def)

lemma code_in_le: "table_ok w \<Longrightarrow> k \<in> known_keys w \<Longrightarrow> code_in w k \<le> relation_walk_root_code"
  using code_of_identity [of w k] by (auto simp: known_keys_def)

lemma code_in_inj: "table_ok w \<Longrightarrow> inj_on (code_in w) (known_keys w)"
  by (rule inj_on_inverseI [where g = "\<lambda>c. if c = relation_walk_root_code then wk_root w else wk_identities w ! c"])
    (use code_of_identity [of w] in \<open>fastforce simp: known_keys_def\<close>)

lemma walk_code_table:
  assumes "table_ok w" "k \<in> known_keys w \<or> length (wk_identities w) < relation_walk_result_capacity"
  obtains w' where "walk_code k w = Some (code_in w' k, w')" "table_ok w'" "wk_state w' = wk_state w"
    "wk_root w' = wk_root w" "known_keys w' = insert k (known_keys w)"
    "\<And>j. j \<in> known_keys w \<Longrightarrow> code_in w' j = code_in w j"
proof (cases "k \<in> known_keys w")
  case True
  then have "walk_code k w = Some (code_in w k, w)"
    using code_of_identity [OF assms(1), of k] by (cases "k = wk_root w") (simp_all add: walk_code_def known_keys_def)
  then show ?thesis using that [of w] True assms(1) by auto
next
  case False
  let ?c = "length (wk_identities w)"
  let ?w = "w\<lparr>wk_codes := (wk_codes w)(k \<mapsto> ?c), wk_identities := wk_identities w @ [k]\<rparr>"
  have new: "k \<noteq> wk_root w" "k \<notin> set (wk_identities w)" "?c < relation_walk_result_capacity"
    using False assms(2) by (auto simp: known_keys_def)
  have none: "wk_codes w k = None"
  proof (cases "wk_codes w k")
    case (Some c)
    then show ?thesis using assms(1) new(2) by (auto simp: table_ok_def)
  qed
  have code: "walk_code k w = Some (?c, ?w)" using new none by (simp add: walk_code_def Let_def)
  have tab: "table_ok ?w"
    using assms(1) new by (auto simp: table_ok_def nth_append less_Suc_eq)
  have "code_in ?w k = ?c" using new by (simp add: code_in_def)
  moreover have "code_in ?w j = code_in w j" if "j \<in> known_keys w" for j
    using that False by (auto simp: code_in_def)
  ultimately show ?thesis using that [of ?w] code tab new by (auto simp: known_keys_def)
qed


section \<open>The kernel accepts exactly the first visits\<close>

locale first_visit_walker = relation_walker advance
  for advance :: "walk_state \<Rightarrow> nat list \<Rightarrow> nat \<Rightarrow> nat \<Rightarrow> 's \<Rightarrow> (native_error + walk_state \<times> bool list) \<times> 's" +
  fixes ready :: "'s \<Rightarrow> bool" and tracks :: "walk_state \<Rightarrow> nat set \<Rightarrow> bool"
  assumes advance_exact:
    "ready s \<Longrightarrow> tracks ws S \<Longrightarrow> \<not> ws_truncated ws \<Longrightarrow> length codes \<le> relation_walk_batch_capacity \<Longrightarrow>
     (\<forall>c \<in> S \<union> set codes. c \<le> relation_walk_root_code) \<Longrightarrow> ws_depth ws \<le> depth \<Longrightarrow>
     1 \<le> depth \<Longrightarrow> depth \<le> max_transitive_depth \<Longrightarrow>
     \<exists>ws'. advance ws codes depth max_transitive_nodes s = (Inr (ws', visit_flags S codes), s) \<and>
       tracks ws' (S \<union> set codes) \<and> \<not> ws_truncated ws' \<and> ws_depth ws' = depth \<and>
       ws_frontier ws' = (if ws_depth ws = depth then ws_frontier ws else []) @ accepted_codes (visit_flags S codes) codes"
begin

text \<open>The walk has visited \<open>V\<close> and its frontier is \<open>F\<close>.\<close>

definition walk_inv :: "'k walk \<Rightarrow> 'k set \<Rightarrow> 'k list \<Rightarrow> bool" where
  "walk_inv w V F \<longleftrightarrow>
     table_ok w \<and> V \<subseteq> known_keys w \<and> set F \<subseteq> known_keys w \<and> tracks (wk_state w) (code_in w ` V) \<and>
     \<not> ws_truncated (wk_state w) \<and> ws_frontier (wk_state w) = map (code_in w) F"

lemma walk_inv_code:
  assumes "walk_inv w V F" "table_ok w'" "wk_state w' = wk_state w" "known_keys w \<subseteq> known_keys w'"
    "\<And>j. j \<in> known_keys w \<Longrightarrow> code_in w' j = code_in w j"
  shows "walk_inv w' V F"
proof -
  have "code_in w' ` V = code_in w ` V" using assms(1,5) by (auto simp: walk_inv_def intro!: image_cong)
  moreover have "map (code_in w') F = map (code_in w) F" using assms(1,5) by (auto simp: walk_inv_def)
  ultimately show ?thesis using assms by (auto simp: walk_inv_def)
qed

definition coded :: "'k walk \<Rightarrow> ('k \<times> 't) list \<Rightarrow> (nat \<times> 't) list" where
  "coded w kts = map (\<lambda>(k, t). (code_in w k, t)) kts"

lemma coded_simps: "map fst (coded w kts) = map (\<lambda>x. code_in w (fst x)) kts"
  "map snd (coded w kts) = map snd kts" "coded w (a @ b) = coded w a @ coded w b" "length (coded w kts) = length kts"
  "coded w [] = []" "coded w [(k, t)] = [(code_in w k, t)]"
  by (simp_all add: coded_def case_prod_unfold comp_def)

lemma flush_exact:
  assumes "ready s" "walk_inv w V F" "pend \<noteq> []" "length pend \<le> relation_walk_batch_capacity"
    "fst ` set pend \<subseteq> known_keys w" "ws_depth (wk_state w) \<le> depth" "1 \<le> depth" "depth \<le> max_transitive_depth"
  obtains ws' where
    "walk_flush advance depth (coded w pend) accepted w s =
       (Inr (w\<lparr>wk_state := ws'\<rparr>, accepted @ map snd (first_visits V pend)), s)"
    "walk_inv (w\<lparr>wk_state := ws'\<rparr>) (V \<union> fst ` set pend)
       ((if ws_depth (wk_state w) = depth then F else []) @ map fst (first_visits V pend))"
    "ws_depth ws' = depth"
proof -
  note inv = assms(2) [unfolded walk_inv_def]
  let ?codes = "map (\<lambda>x. code_in w (fst x)) pend" and ?S = "code_in w ` V"
  have keys: "V \<union> fst ` set pend \<subseteq> known_keys w" using inv assms(5) by simp
  have le: "\<forall>c \<in> ?S \<union> set ?codes. c \<le> relation_walk_root_code"
    using code_in_le keys inv by fastforce
  obtain ws' where ws': "advance (wk_state w) ?codes depth max_transitive_nodes s = (Inr (ws', visit_flags ?S ?codes), s)"
      "tracks ws' (?S \<union> set ?codes)" "\<not> ws_truncated ws'" "ws_depth ws' = depth"
      "ws_frontier ws' = (if ws_depth (wk_state w) = depth then ws_frontier (wk_state w) else []) @
        accepted_codes (visit_flags ?S ?codes) ?codes"
    using advance_exact [OF assms(1) _ _ _ le assms(6-8)] inv assms(4) by auto
  have inj: "inj_on (code_in w) (V \<union> fst ` set pend)" using code_in_inj keys inv by (blast intro: inj_on_subset)
  note acc = accepted_visits [OF inj]
  have nonempty: "coded w pend \<noteq> []" using assms(3) by (simp add: coded_def)
  have "walk_flush advance depth (coded w pend) accepted w s =
      (Inr (w\<lparr>wk_state := ws'\<rparr>, accepted @ map snd (first_visits V pend)), s)"
    using nonempty by (simp add: walk_flush_def coded_simps ws'(1) acc [THEN conjunct1])
  moreover have "walk_inv (w\<lparr>wk_state := ws'\<rparr>) (V \<union> fst ` set pend)
       ((if ws_depth (wk_state w) = depth then F else []) @ map fst (first_visits V pend))"
  proof -
    have seen: "?S \<union> set ?codes = code_in w ` (V \<union> fst ` set pend)" by (simp add: image_Un image_image)
    have fresh: "fst ` set (first_visits V pend) \<subseteq> known_keys w" using set_first_visits [of V pend] assms(5) by blast
    have "ws_frontier ws' = map (code_in w) ((if ws_depth (wk_state w) = depth then F else []) @ map fst (first_visits V pend))"
      unfolding ws'(5) acc [THEN conjunct2] using inv by (simp add: comp_def)
    then show ?thesis using inv ws'(2,3) fresh keys unfolding walk_inv_def seen by auto
  qed
  ultimately show ?thesis using that ws'(4) by blast
qed

text \<open>The candidates are values here, \<^const>\<open>None\<close> for one that is filtered out.\<close>

definition frontier_after :: "nat \<Rightarrow> 'k walk \<Rightarrow> 'k set \<Rightarrow> 'k list \<Rightarrow> ('k \<times> 't) list \<Rightarrow> 'k list" where
  "frontier_after depth w V F kts =
     (if kts = [] then F
      else (if ws_depth (wk_state w) = depth then F else []) @ map fst (first_visits V kts))"

lemma admit_exact:
  assumes "ready s" "1 \<le> depth" "depth \<le> max_transitive_depth"
    and K: "finite K" "card K \<le> relation_walk_result_capacity" "root \<notin> K"
  shows "walk_inv w V F \<Longrightarrow> length pend < relation_walk_batch_capacity \<Longrightarrow> fst ` set pend \<subseteq> known_keys w \<Longrightarrow>
    known_keys w \<subseteq> insert root K \<Longrightarrow> fst ` set (found xs) \<subseteq> insert root K \<Longrightarrow> wk_root w = root \<Longrightarrow>
    ws_depth (wk_state w) \<le> depth \<Longrightarrow>
    \<exists>w'. walk_admit advance depth (map (\<lambda>x s. (x, s)) xs) (coded w pend) accepted had w s =
        (Inr (w', \<lparr>wa_accepted = accepted @ map snd (first_visits V (pend @ found xs)), wa_stopped = False,
                  wa_had = (had \<or> found xs \<noteq> [])\<rparr>), s) \<and>
      walk_inv w' (V \<union> fst ` set (pend @ found xs)) (frontier_after depth w V F (pend @ found xs)) \<and>
      known_keys w' \<subseteq> insert root K \<and> wk_root w' = root \<and> ws_depth (wk_state w') \<le> depth"
proof (induction xs arbitrary: pend accepted had w V F)
  case Nil
  show ?case
  proof (cases "pend = []")
    case True
    then show ?thesis using Nil by (auto simp: coded_def frontier_after_def)
  next
    case False
    from flush_exact [OF assms(1) Nil(1) False _ Nil(3) Nil(7) assms(2,3), of accepted] Nil(2)
    obtain ws' where f: "walk_flush advance depth (coded w pend) accepted w s =
        (Inr (w\<lparr>wk_state := ws'\<rparr>, accepted @ map snd (first_visits V pend)), s)"
      "walk_inv (w\<lparr>wk_state := ws'\<rparr>) (V \<union> fst ` set pend)
        ((if ws_depth (wk_state w) = depth then F else []) @ map fst (first_visits V pend))" "ws_depth ws' = depth"
      by auto
    moreover have "\<not> ws_truncated ws'" using f(2) by (simp add: walk_inv_def)
    moreover have "coded w pend \<noteq> []" using False by (simp add: coded_def)
    ultimately show ?thesis using Nil(4,6) False
      by (intro exI [of _ "w\<lparr>wk_state := ws'\<rparr>"]) (simp add: frontier_after_def)
  qed
next
  case (Cons x xs)
  show ?case
  proof (cases x)
    case None
    then show ?thesis using Cons.IH [of w V F pend accepted had] Cons.prems by simp
  next
    case (Some kt)
    obtain k t where kt: "x = Some (k, t)" using Some by (cases kt) auto
    have room: "k \<in> known_keys w \<or> length (wk_identities w) < relation_walk_result_capacity"
    proof (rule disjCI)
      assume full: "\<not> length (wk_identities w) < relation_walk_result_capacity"
      have tab: "table_ok w" using Cons.prems(1) by (simp add: walk_inv_def)
      then have sub: "set (wk_identities w) \<subseteq> K" using Cons.prems(4,6) by (auto simp: known_keys_def table_ok_def)
      moreover have "card (set (wk_identities w)) = length (wk_identities w)" using tab by (simp add: table_ok_def distinct_card)
      ultimately have "set (wk_identities w) = K" using K full card_mono [OF K(1) sub] by (intro card_subset_eq) auto
      then show "k \<in> known_keys w" using Cons.prems(5,6) kt by (auto simp: known_keys_def)
    qed
    from walk_code_table [OF _ room] Cons.prems(1) obtain w1 where w1:
        "walk_code k w = Some (code_in w1 k, w1)" "table_ok w1" "wk_state w1 = wk_state w" "wk_root w1 = wk_root w"
        "known_keys w1 = insert k (known_keys w)" "\<And>j. j \<in> known_keys w \<Longrightarrow> code_in w1 j = code_in w j"
      unfolding walk_inv_def by metis
    have inv1: "walk_inv w1 V F" by (rule walk_inv_code [OF Cons.prems(1) w1(2,3) _ w1(6)]) (auto simp: w1(5))
    have same: "coded w1 pend = coded w pend"
      using Cons.prems(3) w1(6) by (auto simp: coded_def)
    have coded1: "coded w pend @ [(code_in w1 k, t)] = coded w1 (pend @ [(k, t)])"
      using same by (simp add: coded_simps)
    have keys1: "fst ` set (pend @ [(k, t)]) \<subseteq> known_keys w1" using Cons.prems(3) w1(5) by auto
    have bound1: "known_keys w1 \<subseteq> insert root K" using Cons.prems(4,5) w1(5) kt by auto
    show ?thesis
    proof (cases "length pend + 1 = relation_walk_batch_capacity")
      case False
      then show ?thesis
        using Cons.IH [OF inv1 _ keys1 bound1, of accepted True] Cons.prems w1 kt coded1
        by (simp add: coded_simps frontier_after_def)
    next
      case True
      from flush_exact [OF assms(1) inv1 _ _ keys1 _ assms(2,3), of accepted] True Cons.prems(7) w1(3)
      obtain ws' where f: "walk_flush advance depth (coded w1 (pend @ [(k, t)])) accepted w1 s =
          (Inr (w1\<lparr>wk_state := ws'\<rparr>, accepted @ map snd (first_visits V (pend @ [(k, t)]))), s)"
        "walk_inv (w1\<lparr>wk_state := ws'\<rparr>) (V \<union> fst ` set (pend @ [(k, t)]))
          ((if ws_depth (wk_state w) = depth then F else []) @ map fst (first_visits V (pend @ [(k, t)])))" "ws_depth ws' = depth"
        by auto
      let ?w = "w1\<lparr>wk_state := ws'\<rparr>" and ?F = "(if ws_depth (wk_state w) = depth then F else []) @ map fst (first_visits V (pend @ [(k, t)]))"
      have live: "\<not> ws_truncated ws'" using f(2) by (simp add: walk_inv_def)
      have split: "first_visits V (pend @ (k, t) # found xs) = first_visits V (pend @ [(k, t)]) @
          first_visits (V \<union> fst ` set (pend @ [(k, t)])) (found xs)"
        using first_visits_append [of V "pend @ [(k, t)]" "found xs"] by simp
      from Cons.IH [OF f(2), of "[]" "accepted @ map snd (first_visits V (pend @ [(k, t)]))" True] Cons.prems(5,6) bound1 w1(4) f(3)
      obtain w' where w': "walk_admit advance depth (map (\<lambda>x s. (x, s)) xs) [] (accepted @ map snd (first_visits V (pend @ [(k, t)]))) True ?w s =
          (Inr (w', \<lparr>wa_accepted = (accepted @ map snd (first_visits V (pend @ [(k, t)]))) @
              map snd (first_visits (V \<union> fst ` set (pend @ [(k, t)])) (found xs)), wa_stopped = False, wa_had = True\<rparr>), s)"
        "walk_inv w' (V \<union> fst ` set (pend @ [(k, t)]) \<union> fst ` set (found xs))
          (frontier_after depth ?w (V \<union> fst ` set (pend @ [(k, t)])) ?F (found xs))"
        "known_keys w' \<subseteq> insert root K" "wk_root w' = root" "ws_depth (wk_state w') \<le> depth"
        unfolding kt by (auto simp: coded_simps walk_consts)
      have "frontier_after depth ?w (V \<union> fst ` set (pend @ [(k, t)])) ?F (found xs) =
          frontier_after depth w V F (pend @ found (x # xs))"
        using f(3) by (simp add: frontier_after_def kt split)
      moreover have "V \<union> fst ` set (pend @ [(k, t)]) \<union> fst ` set (found xs) = V \<union> fst ` set (pend @ found (x # xs))"
        by (auto simp: kt)
      moreover have "walk_admit advance depth (map (\<lambda>x s. (x, s)) (x # xs)) (coded w pend) accepted had w s =
          walk_admit advance depth (map (\<lambda>x s. (x, s)) xs) [] (accepted @ map snd (first_visits V (pend @ [(k, t)]))) True ?w s"
        using f(1) True live w1(1) coded1 by (simp add: kt coded_simps)
      ultimately show ?thesis using w' by (intro exI [of _ w']) (simp add: kt split)
    qed
  qed
qed

lemma frontier_of_walk:
  assumes "walk_inv w V F"
  shows "current_frontier w = Inr F"
proof -
  have tab: "table_ok w" and F: "set F \<subseteq> known_keys w" and fr: "ws_frontier (wk_state w) = map (code_in w) F"
    using assms by (auto simp: walk_inv_def)
  have "collect_results (\<lambda>code. if code = relation_walk_root_code then Inr (wk_root w)
       else case nth_opt (wk_identities w) code of None \<Rightarrow> Inl (UnknownNode code) | Some k \<Rightarrow> Inr k) (map (code_in w) G) = Inr G"
    if "set G \<subseteq> known_keys w" for G
    using that
  proof (induction G)
    case (Cons k G)
    have "k = wk_root w \<or> (k \<noteq> wk_root w \<and> code_in w k \<noteq> relation_walk_root_code \<and>
        nth_opt (wk_identities w) (code_in w k) = Some k)"
      using Cons.prems code_of_identity [OF tab, of k] tab by (auto simp: known_keys_def nth_opt_def table_ok_def)
    then show ?case using Cons by auto
  qed simp
  then show ?thesis using F fr by (simp add: current_frontier_def)
qed

theorem levels_exact:
  assumes "ready s" and K: "finite K" "card K \<le> relation_walk_result_capacity" "root \<notin> K"
    and closed: "\<And>depth F. set F \<subseteq> insert root K \<Longrightarrow> fst ` set (found (candidates depth F)) \<subseteq> insert root K"
  shows "walk_inv w V F \<Longrightarrow> known_keys w \<subseteq> insert root K \<Longrightarrow> wk_root w = root \<Longrightarrow>
    sorted_wrt (<) depths \<Longrightarrow> \<forall>d \<in> set depths. ws_depth (wk_state w) < d \<and> d \<le> max_transitive_depth \<Longrightarrow>
    walk_levels advance (\<lambda>depth F. map (\<lambda>x s. (x, s)) (candidates depth F)) depths nodes w s =
      (Inr (nodes @ bfs_levels candidates depths V F, True), s)"
proof (induction depths arbitrary: w V F nodes)
  case (Cons depth depths)
  note inv = Cons.prems(1)
  show ?case
  proof (cases "F = []")
    case True
    then show ?thesis using frontier_of_walk [OF inv] by simp
  next
    case False
    let ?xs = "candidates depth F"
    have F: "set F \<subseteq> insert root K" using inv Cons.prems(2) by (auto simp: walk_inv_def)
    have d: "1 \<le> depth" "depth \<le> max_transitive_depth" "ws_depth (wk_state w) < depth" using Cons.prems(5) by auto
    from admit_exact [OF assms(1) d(1,2) K inv, of "[]" ?xs "[]" False] closed [OF F] Cons.prems(2,3) d(3)
    obtain w' where w':
        "walk_admit advance depth (map (\<lambda>x s. (x, s)) ?xs) [] [] False w s =
          (Inr (w', \<lparr>wa_accepted = map snd (first_visits V (found ?xs)), wa_stopped = False, wa_had = (found ?xs \<noteq> [])\<rparr>), s)"
        "walk_inv w' (V \<union> fst ` set (found ?xs)) (frontier_after depth w V F (found ?xs))"
        "known_keys w' \<subseteq> insert root K" "wk_root w' = root" "ws_depth (wk_state w') \<le> depth"
      by (auto simp: coded_simps walk_consts)
    show ?thesis
    proof (cases "found ?xs = []")
      case True
      then show ?thesis using frontier_of_walk [OF inv] False w'(1)
        by (cases depths) (simp_all add: Let_def)
    next
      case nonempty: False
      let ?G = "map fst (first_visits V (found ?xs))"
      have G: "frontier_after depth w V F (found ?xs) = ?G" using nonempty d(3) by (simp add: frontier_after_def)
      have "ws_frontier (wk_state w') = map (code_in w') ?G" using w'(2) G by (simp add: walk_inv_def)
      moreover have "bfs_levels candidates depths V' [] = []" for V' by (cases depths) simp_all
      moreover have "walk_levels advance (\<lambda>depth F. map (\<lambda>x s. (x, s)) (candidates depth F)) depths ns w' s =
          (Inr (ns @ bfs_levels candidates depths (V \<union> fst ` set (found ?xs)) ?G, True), s)" for ns
        using Cons.IH [OF w'(2,3,4), of ns] Cons.prems(4,5) w'(5) G by fastforce
      ultimately show ?thesis using frontier_of_walk [OF inv] False w'(1) nonempty first_visits_keys [of V "found ?xs"]
        by (auto simp: Let_def)
    qed
  qed
qed simp

end

section \<open>Breadth first levels\<close>

text \<open>The identities within a distance of the root, and those at a distance.\<close>

fun ball :: "('k \<Rightarrow> 'k set) \<Rightarrow> 'k \<Rightarrow> nat \<Rightarrow> 'k set" where
  "ball E root 0 = {root}"
| "ball E root (Suc n) = ball E root n \<union> \<Union>(E ` ball E root n)"

definition sphere :: "('k \<Rightarrow> 'k set) \<Rightarrow> 'k \<Rightarrow> nat \<Rightarrow> 'k set" where
  "sphere E root n = ball E root n - (if n = 0 then {} else ball E root (n - 1))"

lemma ball_mono: "m \<le> n \<Longrightarrow> ball E root m \<subseteq> ball E root n"
  by (induction n) (auto simp: le_Suc_eq)

lemma sphere_step: "\<Union>(E ` sphere E root n) - ball E root n = sphere E root (Suc n)"
proof (cases n)
  case 0
  then show ?thesis by (auto simp: sphere_def)
next
  case (Suc m)
  have "\<Union>(E ` ball E root m) \<subseteq> ball E root n" using Suc by auto
  then show ?thesis using Suc by (auto simp: sphere_def)
qed

text \<open>With candidates that are the neighbours of the frontier, the walk lists the spheres in order.\<close>

lemma bfs_levels_spheres:
  assumes step: "\<And>depth F. found (candidates depth F) = map (\<lambda>k. (k, node depth k)) (neighbours F)"
    and edges: "\<And>F. set (neighbours F) = \<Union>(E ` set F)"
    and "set F = sphere E root m"
  shows "\<exists>ks. (\<forall>d \<in> {Suc m ..< Suc m + n}. distinct (ks d) \<and> set (ks d) = sphere E root d) \<and>
    bfs_levels candidates [Suc m ..< Suc m + n] (ball E root m) F =
      concat (map (\<lambda>d. map (node d) (ks d)) [Suc m ..< Suc m + n])"
  using assms(3)
proof (induction n arbitrary: m F)
  case (Suc n)
  let ?V = "ball E root m"
  let ?visits = "first_visits ?V (map (\<lambda>k. (k, node (Suc m) k)) (neighbours F))"
  let ?G = "map fst ?visits"
  have G: "distinct ?G" "set ?G = sphere E root (Suc m)"
    using first_visits_fresh [of ?V "map (\<lambda>k. (k, node (Suc m) k)) (neighbours F)"] edges [of F] Suc.prems
      sphere_step [of E root m] by (auto simp: image_image)
  have nodes: "map snd ?visits = map (node (Suc m)) ?G"
    using set_first_visits [of ?V "map (\<lambda>k. (k, node (Suc m) k)) (neighbours F)"] by auto
  have V: "?V \<union> fst ` set ?visits = ball E root (Suc m)"
    using G(2) by (auto simp: sphere_def)
  obtain ks where ks: "\<forall>d \<in> {Suc (Suc m) ..< Suc (Suc m) + n}. distinct (ks d) \<and> set (ks d) = sphere E root d"
    "bfs_levels candidates [Suc (Suc m) ..< Suc (Suc m) + n] (ball E root (Suc m)) ?G =
      concat (map (\<lambda>d. map (node d) (ks d)) [Suc (Suc m) ..< Suc (Suc m) + n])"
    using Suc.IH [OF G(2)] by blast
  have upt: "[Suc m ..< Suc m + Suc n] = Suc m # [Suc (Suc m) ..< Suc (Suc m) + n]" by (simp add: upt_conv_Cons)
  show ?case
  proof (intro exI conjI)
    show "\<forall>d \<in> {Suc m ..< Suc m + Suc n}. distinct ((ks(Suc m := ?G)) d) \<and> set ((ks(Suc m := ?G)) d) = sphere E root d"
      using ks(1) G by auto
    define D where "D = [Suc (Suc m) ..< Suc (Suc m) + n]"
    have same: "map (\<lambda>d. map (node d) ((ks(Suc m := ?G)) d)) D = map (\<lambda>d. map (node d) (ks d)) D" by (auto simp: D_def)
    have "bfs_levels candidates (Suc m # D) ?V F = map snd ?visits @ bfs_levels candidates D (?V \<union> fst ` set ?visits) ?G"
    proof (cases "F = []")
      case True
      have "neighbours F = []" using edges [of F] True by simp
      moreover have "bfs_levels candidates D W [] = []" for W by (cases D) simp_all
      ultimately show ?thesis using True by simp
    qed (simp add: Let_def step)
    also have "\<dots> = map (node (Suc m)) ?G @ concat (map (\<lambda>d. map (node d) (ks d)) D)"
      unfolding V nodes ks(2) [folded D_def] ..
    also have "\<dots> = concat (map (\<lambda>d. map (node d) ((ks(Suc m := ?G)) d)) (Suc m # D))"
      unfolding list.map concat.simps same by simp
    finally show "bfs_levels candidates [Suc m ..< Suc m + Suc n] ?V F =
        concat (map (\<lambda>d. map (node d) ((ks(Suc m := ?G)) d)) [Suc m ..< Suc m + Suc n])"
      unfolding upt D_def .
  qed
qed auto

end
