(* ===== verification/Relation_Contract.thy ===== *)
theory Relation_Contract
  imports Relation_Spec
begin

text \<open>
  The contract of the walk kernel, over the values it exchanges with the service: a walk starts at
  the root, and a step accepts exactly the first visits of its batch. Where it holds the checked
  kernel call is a \<open>first_visit_walker\<close>. A reference backend shows that the contract can be met.
\<close>

definition seen_codes :: "walk_view \<Rightarrow> nat set" where
  "seen_codes vw = insert relation_walk_root_code {c. c < relation_walk_result_capacity \<and> wv_seen vw ! c}"

definition start_view :: walk_view where
  "start_view = \<lparr>wv_seen = replicate relation_walk_result_capacity False, wv_frontier = [relation_walk_root_code],
     wv_reached = 1, wv_depth = 0, wv_truncated = False\<rparr>"

text \<open>A step within the node budget, which cannot be exceeded by fewer codes than the table holds.\<close>

definition step_flags :: "walk_view \<Rightarrow> nat list \<Rightarrow> bool list" where
  "step_flags vw codes = visit_flags (seen_codes vw) codes"

definition step_view :: "walk_view \<Rightarrow> nat list \<Rightarrow> nat \<Rightarrow> walk_view" where
  "step_view vw codes depth =
     (let new = accepted_codes (step_flags vw codes) codes
      in \<lparr>wv_seen = map (\<lambda>c. wv_seen vw ! c \<or> c \<in> set codes) [0 ..< relation_walk_result_capacity],
          wv_frontier = (if wv_depth vw = depth then wv_frontier vw else []) @ new,
          wv_reached = wv_reached vw + length new, wv_depth = depth, wv_truncated = False\<rparr>)"

definition flags_value :: "bool list \<Rightarrow> exec_value" where
  "flags_value flags =
     EvSequence (map EvBoolean (flags @ replicate (relation_walk_batch_capacity - length flags) False))"

definition advance_arguments :: "exec_value \<Rightarrow> nat list \<Rightarrow> nat \<Rightarrow> nat \<Rightarrow> exec_value list" where
  "advance_arguments v codes depth m =
     [v, padded_arguments relation_walk_batch_capacity codes, u64_argument (length codes), u64_argument depth, u64_argument m]"

text \<open>A view the walk can be in: past the root level, the root is not in the frontier.\<close>

definition walk_view_ok :: "walk_view \<Rightarrow> bool" where
  "walk_view_ok vw \<longleftrightarrow> \<not> wv_truncated vw \<and> (0 < wv_depth vw \<longrightarrow> relation_walk_root_code \<notin> set (wv_frontier vw))"

definition step_admissible :: "walk_view \<Rightarrow> nat list \<Rightarrow> nat \<Rightarrow> bool" where
  "step_admissible vw codes depth \<longleftrightarrow>
     length codes \<le> relation_walk_batch_capacity \<and> (\<forall>c \<in> set codes. c \<le> relation_walk_root_code) \<and>
     wv_depth vw \<le> depth \<and> 1 \<le> depth \<and> depth \<le> max_transitive_depth"

definition walk_contract :: "native_platform \<Rightarrow> kernel \<Rightarrow> bool" where
  "walk_contract np k \<longleftrightarrow>
     bt_lookup (k_dependencies k) walk_dependency \<noteq> None \<and>
     (\<exists>v. execute_walk_function np k ''start_relation_walk'' [u64_argument relation_walk_root_code] = Inr v \<and>
        decode_walk_state k v = Inr start_view) \<and>
     (\<forall>v vw codes depth. decode_walk_state k v = Inr vw \<longrightarrow> walk_view_ok vw \<longrightarrow> step_admissible vw codes depth \<longrightarrow>
        (\<exists>out fds v'.
           execute_walk_function np k ''advance_relation_walk'' (advance_arguments v codes depth max_transitive_nodes) = Inr out \<and>
           record_fields k out ''AdvanceOut'' = Inr fds \<and>
           record_field fds ''state'' = Inr v' \<and> decode_walk_state k v' = Inr (step_view vw codes depth) \<and>
           record_field fds ''accepted'' = Inr (flags_value (step_flags vw codes)) \<and>
           record_field fds ''accepted_count'' = Inr (u64_argument (length (filter id (step_flags vw codes))))))"

definition tracked :: "kernel \<Rightarrow> walk_state \<Rightarrow> nat set \<Rightarrow> bool" where
  "tracked k ws S \<longleftrightarrow>
     (\<exists>vw. decode_walk_state k (ws_value ws) = Inr vw \<and> native_walk_state (ws_value ws) k = Inr ws \<and>
        walk_view_ok vw \<and> S = seen_codes vw)"

section \<open>A step of the contract is accepted by the checks\<close>

lemma visit_flags_accepted:
  "distinct (accepted_codes (visit_flags S cs) cs) \<and> set (accepted_codes (visit_flags S cs) cs) = set cs - S"
  by (induction cs arbitrary: S) auto

lemma u64_argument_field: "n \<le> u64_max \<Longrightarrow> integer_field (u64_argument n) name 64 = Inr n"
  by (simp add: integer_field_def u64_argument_def u64_in_range_def)

lemma flags_value_field:
  "length flags \<le> relation_walk_batch_capacity \<Longrightarrow>
   boolean_sequence_field (flags_value flags) name relation_walk_batch_capacity =
     Inr (flags @ replicate (relation_walk_batch_capacity - length flags) False)"
proof -
  have "collect_results (\<lambda>v. boolean_field v name) (map EvBoolean bs) = Inr bs" for bs
    by (induction bs) (auto simp: boolean_field_def)
  then show "length flags \<le> relation_walk_batch_capacity \<Longrightarrow> ?thesis"
    by (simp add: flags_value_def boolean_sequence_field_def del: map_append)
qed

lemma native_state_simps:
  assumes "native_walk_state v k = Inr ws" "decode_walk_state k v = Inr vw"
  shows "ws_value ws = v \<and> ws_frontier ws = wv_frontier vw \<and> ws_reached ws = wv_reached vw \<and>
    ws_depth ws = wv_depth vw \<and> ws_truncated ws = wv_truncated vw \<and> \<not> stale_state ws k"
  using assms by (auto simp: native_walk_state_def stale_state_def split: option.splits)

lemma native_state_exists:
  assumes "bt_lookup (k_dependencies k) walk_dependency \<noteq> None" "decode_walk_state k v = Inr vw"
  obtains ws where "native_walk_state v k = Inr ws"
  using assms by (auto simp: native_walk_state_def)

lemma seen_codes_step:
  assumes "decode_walk_state k v = Inr vw" "\<forall>c \<in> set codes. c \<le> relation_walk_root_code"
  shows "seen_codes (step_view vw codes depth) = seen_codes vw \<union> set codes"
  using assms(2) by (fastforce simp: seen_codes_def step_view_def Let_def walk_consts)

interpretation contract_walk: first_visit_walker "execute_walk_advance_batch env px tc np"
    "\<lambda>s. walk_contract np k \<and> relation_kernel env px tc np s = (Inr k, s)" "tracked k"
  for env px tc np k
proof unfold_locales
  fix s ws S codes depth
  assume kernel: "walk_contract np k \<and> relation_kernel env px tc np s = (Inr k, s)" and tr: "tracked k ws S"
    and "\<not> ws_truncated ws" and len: "length codes \<le> relation_walk_batch_capacity"
    and le: "\<forall>c \<in> S \<union> set codes. c \<le> relation_walk_root_code" and d: "ws_depth ws \<le> depth" "1 \<le> depth" "depth \<le> max_transitive_depth"
  have assms: "walk_contract np k" and ready: "relation_kernel env px tc np s = (Inr k, s)" using kernel by simp_all
  obtain vw where vw: "decode_walk_state k (ws_value ws) = Inr vw" "native_walk_state (ws_value ws) k = Inr ws"
    "walk_view_ok vw" "S = seen_codes vw" using tr by (auto simp: tracked_def)
  note sim = native_state_simps [OF vw(2,1)]
  have adm: "step_admissible vw codes depth" using len le d sim by (simp add: step_admissible_def)
  let ?flags = "visit_flags S codes"
  have flags: "step_flags vw codes = ?flags" by (simp add: step_flags_def vw(4))
  let ?new = "accepted_codes ?flags codes"
  from assms vw(1,3) adm obtain out fds v' where o:
      "execute_walk_function np k ''advance_relation_walk'' (advance_arguments (ws_value ws) codes depth max_transitive_nodes) = Inr out"
      "record_fields k out ''AdvanceOut'' = Inr fds" "record_field fds ''state'' = Inr v'"
      "decode_walk_state k v' = Inr (step_view vw codes depth)"
      "record_field fds ''accepted'' = Inr (flags_value ?flags)"
      "record_field fds ''accepted_count'' = Inr (u64_argument (length (filter id ?flags)))"
    unfolding walk_contract_def flags [symmetric] by metis
  obtain ws' where ws': "native_walk_state v' k = Inr ws'"
    using native_state_exists [OF _ o(4)] assms by (auto simp: walk_contract_def)
  note sim' = native_state_simps [OF ws' o(4)]
  have count: "length (filter id ?flags) = length ?new" by (rule filter_id_take_card) simp
  note acc = visit_flags_accepted [of S codes]
  have card: "card (set ?new) = length ?new" by (rule distinct_card [OF acc [THEN conjunct1]])
  have root: "relation_walk_root_code \<in> S" by (simp add: vw(4) seen_codes_def)
  have small: "length (filter id ?flags) \<le> u64_max"
  proof -
    have "length (filter id ?flags) \<le> length codes" using length_filter_le [of id ?flags] by simp
    then show ?thesis using len by (simp add: walk_consts u64_max_def)
  qed
  have in_range: "\<not> list_ex (\<lambda>c. c > relation_walk_root_code) codes" using le by (auto simp: list_ex_iff leD)
  have consistent: "admission_consistent ws codes depth ws'
      (?flags @ replicate (relation_walk_batch_capacity - length ?flags) False) (length (filter id ?flags))"
    using sim sim' acc root count by (auto simp: admission_consistent_def step_view_def flags Let_def list_ex_iff)
  have "decode_advance k ws codes depth out = Inr (ws', ?flags)"
    using o ws' len small consistent card count
    by (simp add: decode_advance_def flags_value_field u64_argument_field)
  then have run: "execute_walk_advance_batch env px tc np ws codes depth max_transitive_nodes s = (Inr (ws', ?flags), s)"
    using ready sim o(1) len in_range d(2,3)
    by (simp add: execute_walk_advance_batch_def advance_arguments_def max_transitive_depth_def
        max_transitive_nodes_def walk_consts)
  have "walk_view_ok (step_view vw codes depth)"
    using vw(3) acc root by (auto simp: walk_view_ok_def step_view_def Let_def flags d)
  then have "tracked k ws' (S \<union> set codes)"
    using o(4) ws' sim' seen_codes_step [OF vw(1), of codes depth] le vw(4)
    unfolding tracked_def by (intro exI [of _ "step_view vw codes depth"]) auto
  moreover have "\<not> ws_truncated ws'" "ws_depth ws' = depth"
    "ws_frontier ws' = (if ws_depth ws = depth then ws_frontier ws else []) @ ?new"
    using sim sim' by (auto simp: step_view_def Let_def flags)
  ultimately show "\<exists>ws'. execute_walk_advance_batch env px tc np ws codes depth max_transitive_nodes s = (Inr (ws', ?flags), s) \<and>
      tracked k ws' (S \<union> set codes) \<and> \<not> ws_truncated ws' \<and> ws_depth ws' = depth \<and>
      ws_frontier ws' = (if ws_depth ws = depth then ws_frontier ws else []) @ ?new"
    using run by blast
qed


section \<open>A reference backend\<close>

definition encode_view :: "walk_view \<Rightarrow> exec_value" where
  "encode_view vw =
     EvRecord ''walk-state'' ''WalkState''
       [(''seen'', EvSequence (map EvBoolean (wv_seen vw))), (''root_seen'', EvBoolean True),
        (''frontier'', padded_arguments relation_walk_result_capacity (wv_frontier vw)),
        (''frontier_count'', u64_argument (length (wv_frontier vw))),
        (''reached_count'', u64_argument (wv_reached vw)), (''frontier_depth'', u64_argument (wv_depth vw)),
        (''truncated'', EvBoolean (wv_truncated vw)), (''valid'', EvBoolean True)]"

definition reference_record_types :: "record_type list" where
  "reference_record_types =
     [\<lparr>rt_name = ''WalkState'', rt_identity = ''walk-state'',
       rt_fields = [''seen'', ''root_seen'', ''frontier'', ''frontier_count'', ''reached_count'', ''frontier_depth'',
         ''truncated'', ''valid'']\<rparr>,
      \<lparr>rt_name = ''AdvanceOut'', rt_identity = ''advance-out'', rt_fields = [''state'', ''accepted'', ''accepted_count'']\<rparr>]"

definition returned :: "exec_value \<Rightarrow> execution" where
  "returned v = \<lparr>ex_returned_ok = True, ex_returned = [v], ex_failure = None\<rparr>"

definition refused :: execution where
  "refused = \<lparr>ex_returned_ok = False, ex_returned = [], ex_failure = None\<rparr>"

definition argument_number :: "exec_value \<Rightarrow> nat" where
  "argument_number v = (case v of EvInteger i bits sgd \<Rightarrow> nat i | _ \<Rightarrow> 0)"

definition reference_advance :: "kernel \<Rightarrow> exec_value list \<Rightarrow> execution" where
  "reference_advance k arguments =
     (case arguments of
        [v, EvSequence cs, n, depth, m] \<Rightarrow>
          (case decode_walk_state k v of
             Inl _ \<Rightarrow> refused
           | Inr vw \<Rightarrow>
               let codes = map argument_number (take (argument_number n) cs); flags = step_flags vw codes
               in returned (EvRecord ''advance-out'' ''AdvanceOut''
                    [(''state'', encode_view (step_view vw codes (argument_number depth))), (''accepted'', flags_value flags),
                     (''accepted_count'', u64_argument (length (filter id flags)))]))
      | _ \<Rightarrow> refused)"

definition reference_backend :: backend where
  "reference_backend k m function arguments budget =
     (if function = ''start_relation_walk'' then returned (encode_view start_view)
      else if function = ''advance_relation_walk'' then reference_advance k arguments
      else refused)"

definition view_wf :: "walk_view \<Rightarrow> bool" where
  "view_wf vw \<longleftrightarrow>
     length (wv_seen vw) = relation_walk_result_capacity \<and> length (wv_frontier vw) \<le> relation_walk_result_capacity \<and>
     frontier_valid (wv_seen vw) (wv_frontier vw) \<and> wv_reached vw = length (filter id (wv_seen vw)) + 1 \<and>
     wv_depth vw \<le> max_transitive_depth"

lemma argument_number_u64 [simp]: "argument_number (u64_argument n) = n"
  by (simp add: argument_number_def u64_argument_def)

lemma padded_field:
  assumes "length xs \<le> capacity" "\<forall>x \<in> set xs. x \<le> u64_max"
  shows "integer_sequence_field (padded_arguments capacity xs) name capacity = Inr (xs @ replicate (capacity - length xs) 0)"
proof -
  have "collect_results (\<lambda>v. integer_field v name 64) (map u64_argument ys) = Inr ys" if "\<forall>y \<in> set ys. y \<le> u64_max" for ys
    using that by (induction ys) (auto simp: u64_argument_field)
  moreover have "\<forall>y \<in> set (xs @ replicate (capacity - length xs) 0). y \<le> u64_max" using assms(2) by auto
  ultimately show ?thesis using assms(1)
    by (simp add: padded_arguments_def integer_sequence_field_def del: map_append)
qed

lemma decode_encode:
  assumes "view_wf vw" "k_record_types k = reference_record_types"
  shows "decode_walk_state k (encode_view vw) = Inr vw"
proof -
  have seen: "length (filter id (wv_seen vw)) \<le> relation_walk_result_capacity"
    using assms(1) length_filter_le [of id "wv_seen vw"] by (simp add: view_wf_def)
  have frontier: "\<forall>c \<in> set (wv_frontier vw). c \<le> u64_max"
    using assms(1) by (fastforce simp: view_wf_def frontier_valid_def list_all_iff walk_consts u64_max_def)
  have bools: "boolean_sequence_field (EvSequence (map EvBoolean (wv_seen vw))) ''seen'' relation_walk_result_capacity = Inr (wv_seen vw)"
  proof -
    have "collect_results (\<lambda>v. boolean_field v ''seen'') (map EvBoolean bs) = Inr bs" for bs
      by (induction bs) (auto simp: boolean_field_def)
    then show ?thesis using assms(1) by (simp add: boolean_sequence_field_def view_wf_def)
  qed
  have nums: "length (wv_frontier vw) \<le> u64_max" "wv_reached vw \<le> u64_max" "wv_depth vw \<le> u64_max"
    using assms(1) seen by (auto simp: view_wf_def walk_consts max_transitive_depth_def u64_max_def)
  have "record_fields k (encode_view vw) ''WalkState'' = Inr (ev_fields (encode_view vw))"
    by (simp add: record_fields_def encode_view_def assms(2) reference_record_types_def)
  then show ?thesis using assms(1) seen bools nums padded_field [OF _ frontier]
    by (simp add: decode_walk_state_def encode_view_def record_field_def u64_argument_field boolean_field_def view_wf_def Let_def
        max_transitive_depth_def)
qed

lemma view_wf_decoded:
  assumes "decode_walk_state k v = Inr vw"
  shows "view_wf vw"
  using assms
  by (auto simp: view_wf_def decode_walk_state_def bind_result_eq_Inr Let_def max_transitive_depth_def split: if_splits
      dest: boolean_sequence_length)

lemma view_wf_start: "view_wf start_view"
  by (simp add: view_wf_def start_view_def frontier_valid_def walk_consts)

lemma view_wf_step:
  assumes wf: "view_wf vw" and ok: "walk_view_ok vw" and adm: "step_admissible vw codes depth"
  shows "view_wf (step_view vw codes depth)"
proof -
  let ?S = "seen_codes vw" and ?new = "accepted_codes (step_flags vw codes) codes"
  let ?F = "if wv_depth vw = depth then wv_frontier vw else []"
  let ?seen = "map (\<lambda>c. wv_seen vw ! c \<or> c \<in> set codes) [0 ..< relation_walk_result_capacity]"
  have new: "distinct ?new" "set ?new = set codes - ?S"
    using visit_flags_accepted [of ?S codes] by (simp_all add: step_flags_def)
  have le: "\<forall>c \<in> set codes. c \<le> relation_walk_root_code" using adm by (simp add: step_admissible_def)
  have seen: "{c. c < relation_walk_result_capacity \<and> ?seen ! c} =
      {c. c < relation_walk_result_capacity \<and> wv_seen vw ! c} \<union> set ?new"
    using le new(2) by (fastforce simp: seen_codes_def walk_consts)
  have count: "length (filter id bs) = card {c. c < length bs \<and> bs ! c}" for bs
    by (simp add: length_filter_conv_card)
  have fresh: "{c. c < relation_walk_result_capacity \<and> wv_seen vw ! c} \<inter> set ?new = {}" using new(2) by (auto simp: seen_codes_def)
  have reached: "wv_reached vw + length ?new = length (filter id ?seen) + 1"
  proof -
    have "card {c. c < relation_walk_result_capacity \<and> ?seen ! c} =
        card {c. c < relation_walk_result_capacity \<and> wv_seen vw ! c} + card (set ?new)"
      unfolding seen by (rule card_Un_disjoint) (use fresh in auto)
    moreover have "length (filter id ?seen) = card {c. c < relation_walk_result_capacity \<and> ?seen ! c}"
      unfolding count by simp
    moreover have "wv_reached vw = card {c. c < relation_walk_result_capacity \<and> wv_seen vw ! c} + 1"
      using wf unfolding count view_wf_def by metis
    ultimately show ?thesis using distinct_card [OF new(1)] by simp
  qed
  have F: "relation_walk_root_code \<notin> set ?F \<and> distinct ?F \<and> (\<forall>c \<in> set ?F. c < relation_walk_root_code \<and> wv_seen vw ! c)"
    using wf ok adm by (auto simp: view_wf_def walk_view_ok_def step_admissible_def frontier_valid_def list_all_iff)
  have codes: "\<forall>c \<in> set (?F @ ?new). c < relation_walk_root_code \<and> ?seen ! c"
    using F new(2) le by (fastforce simp: seen_codes_def walk_consts)
  have "distinct (?F @ ?new)" using F new by (auto simp: seen_codes_def walk_consts)
  moreover have "length (?F @ ?new) \<le> relation_walk_result_capacity"
  proof -
    have "card (set (?F @ ?new)) \<le> card {0 ..< relation_walk_result_capacity}"
      using codes by (intro card_mono) (auto simp: walk_consts)
    then show ?thesis using distinct_card [OF \<open>distinct (?F @ ?new)\<close>] by simp
  qed
  ultimately show ?thesis using codes reached adm
    by (simp add: view_wf_def step_view_def Let_def frontier_valid_def list_all_iff step_admissible_def)
qed

lemma reference_contract:
  assumes "np_backend np = reference_backend" "k_record_types k = reference_record_types"
    "bt_lookup (k_dependencies k) walk_dependency \<noteq> None"
  shows "walk_contract np k"
  unfolding walk_contract_def
proof (intro conjI allI impI)
  show "bt_lookup (k_dependencies k) walk_dependency \<noteq> None" by (rule assms(3))
  show "\<exists>v. execute_walk_function np k ''start_relation_walk'' [u64_argument relation_walk_root_code] = Inr v \<and>
      decode_walk_state k v = Inr start_view"
    using decode_encode [OF view_wf_start assms(2)]
    by (simp add: execute_walk_function_def assms(1) reference_backend_def single_result_def returned_def)
next
  fix v vw codes depth
  assume vw: "decode_walk_state k v = Inr vw" and ok: "walk_view_ok vw" and adm: "step_admissible vw codes depth"
  let ?flags = "step_flags vw codes"
  define out where "out = EvRecord ''advance-out'' ''AdvanceOut''
    [(''state'', encode_view (step_view vw codes depth)), (''accepted'', flags_value ?flags),
     (''accepted_count'', u64_argument (length (filter id ?flags)))]"
  have codes: "map argument_number (take (length codes) (map u64_argument (codes @ replicate n 0))) = codes" for n
    by (simp add: take_map comp_def)
  have run: "execute_walk_function np k ''advance_relation_walk'' (advance_arguments v codes depth max_transitive_nodes) = Inr out"
    using vw codes
    by (simp add: execute_walk_function_def assms(1) reference_backend_def reference_advance_def advance_arguments_def
        padded_arguments_def single_result_def returned_def out_def Let_def comp_def)
  have "record_fields k out ''AdvanceOut'' = Inr (ev_fields out)"
    by (simp add: record_fields_def out_def assms(2) reference_record_types_def)
  moreover have "decode_walk_state k (encode_view (step_view vw codes depth)) = Inr (step_view vw codes depth)"
    by (rule decode_encode [OF view_wf_step [OF view_wf_decoded [OF vw] ok adm] assms(2)])
  ultimately show "\<exists>out fds v'.
      execute_walk_function np k ''advance_relation_walk'' (advance_arguments v codes depth max_transitive_nodes) = Inr out \<and>
      record_fields k out ''AdvanceOut'' = Inr fds \<and>
      record_field fds ''state'' = Inr v' \<and> decode_walk_state k v' = Inr (step_view vw codes depth) \<and>
      record_field fds ''accepted'' = Inr (flags_value ?flags) \<and>
      record_field fds ''accepted_count'' = Inr (u64_argument (length (filter id ?flags)))"
    using run by (intro exI conjI) (assumption | simp add: out_def record_field_def)+
qed

end
