(* ===== verification/Relation_Queries.thy ===== *)
theory Relation_Queries
  imports Service Relation_Walk
begin

text \<open>
  The graph queries of \<open>queries.rs\<close>: the direct call neighbours of a function and the transitive
  walks over the resident index. A query runs on the cached relation kernel and the service; the
  index is read once, after it was repaired, and does not change during the walk, while the store
  may load modules.
\<close>

datatype query_error = StoreError service_error | WalkError walk_error

type_synonym query_state = "kernel option \<times> service"

definition on_relation :: "(relation_state \<Rightarrow> 'a \<times> relation_state) \<Rightarrow> query_state \<Rightarrow> 'a \<times> query_state" where
  "on_relation f q =
     (case f (fst q, sy_store (snd q)) of (r, cache, st) \<Rightarrow> (r, cache, (snd q)\<lparr>sy_store := st\<rparr>))"

definition on_service :: "(service \<Rightarrow> 'a \<times> service) \<Rightarrow> query_state \<Rightarrow> 'a \<times> query_state" where
  "on_service f q = (case f (snd q) of (r, sv) \<Rightarrow> (r, fst q, sv))"

definition make_snapshot_info :: "string \<Rightarrow> document_analysis \<Rightarrow> snapshot_info" where
  "make_snapshot_info uri a =
     \<lparr>sn_uri = uri, sn_identity = da_identity a, sn_generation = da_generation a, sn_profile = da_profile a,
      sn_current = True\<rparr>"

section \<open>The walk of a query\<close>

definition clamp_depth :: "nat \<Rightarrow> nat" where
  "clamp_depth d = min (max d 1) max_transitive_depth"

definition run_walk ::
  "environment \<Rightarrow> process_env \<Rightarrow> toolchain \<Rightarrow> native_platform \<Rightarrow> 'k
     \<Rightarrow> (nat \<Rightarrow> 'k list \<Rightarrow> (relation_state, 'k, 't) candidate list) \<Rightarrow> nat \<Rightarrow> relation_state
     \<Rightarrow> (walk_error + 't list \<times> bool) \<times> relation_state" where
  "run_walk env px tc np root expand max_depth s =
     (case execute_walk_start env px tc np s of
        (Inl e, s) \<Rightarrow> (Inl (Refused e), s)
      | (Inr ws, s) \<Rightarrow>
          walk_levels (execute_walk_advance_batch env px tc np) expand [1 ..< max_depth + 1] [] (walk_new ws root) s)"

section \<open>Modules\<close>

record dep_node =
  dn_uri :: string
  dn_module :: string
  dn_depth :: nat
  dn_via :: "string option"

record deps_response =
  dr_status :: response_status
  dr_generation :: nat
  dr_nodes :: "dep_node list"
  dr_complete :: bool

text \<open>The first recorded edge to \<open>current\<close> whose module still resolves to it.\<close>

fun find_live_edge :: "environment \<Rightarrow> string \<Rightarrow> dep_edge list \<Rightarrow> document_store \<Rightarrow> dep_edge option \<times> document_store" where
  "find_live_edge env current [] st = (None, st)"
| "find_live_edge env current (edge # edges) st =
     (if de_uri edge \<noteq> current then find_live_edge env current edges st
      else case module_uri env (de_module edge) st of
             (found, st) \<Rightarrow>
               if found = Some current then (Some edge, st) else find_live_edge env current edges st)"

definition dependent_candidate ::
  "environment \<Rightarrow> workspace_index \<Rightarrow> nat \<Rightarrow> string \<Rightarrow> string \<Rightarrow> (relation_state, string, dep_node) candidate" where
  "dependent_candidate env ix depth current importer s =
     (case index_entry importer ix of
        None \<Rightarrow> (None, s)
      | Some entry \<Rightarrow>
          (case find_live_edge env current (we_deps entry) (snd s) of
             (None, st) \<Rightarrow> (None, fst s, st)
           | (Some edge, st) \<Rightarrow>
               (Some (importer, \<lparr>dn_uri = importer, dn_module = we_module entry, dn_depth = depth,
                                 dn_via = Some (de_module edge)\<rparr>), fst s, st)))"

definition dependent_candidates ::
  "environment \<Rightarrow> workspace_index \<Rightarrow> nat \<Rightarrow> string list \<Rightarrow> (relation_state, string, dep_node) candidate list" where
  "dependent_candidates env ix depth frontier =
     concat (map (\<lambda>current. map (dependent_candidate env ix depth current) (importers_of current ix)) frontier)"

definition dependency_target :: "environment \<Rightarrow> dep_edge \<Rightarrow> document_store \<Rightarrow> string \<times> document_store" where
  "dependency_target env edge st =
     (if knows (de_uri edge) st then
        (case module_uri env (de_module edge) st of
           (None, st) \<Rightarrow> (de_uri edge, st) | (Some uri, st) \<Rightarrow> (uri, st))
      else (de_uri edge, st))"

definition dependency_candidate ::
  "environment \<Rightarrow> workspace_index \<Rightarrow> nat \<Rightarrow> dep_edge \<Rightarrow> (relation_state, string, dep_node) candidate" where
  "dependency_candidate env ix depth edge s =
     (case dependency_target env edge (snd s) of
        (target, st) \<Rightarrow>
          (Some (target, \<lparr>dn_uri = target,
             dn_module = (case index_entry target ix of
                            None \<Rightarrow> de_module edge
                          | Some entry \<Rightarrow> if we_module entry = [] then de_module edge else we_module entry),
             dn_depth = depth, dn_via = Some (de_module edge)\<rparr>), fst s, st))"

definition dependency_candidates ::
  "environment \<Rightarrow> workspace_index \<Rightarrow> nat \<Rightarrow> string list \<Rightarrow> (relation_state, string, dep_node) candidate list" where
  "dependency_candidates env ix depth frontier =
     concat (map (\<lambda>current. case index_entry current ix of
         None \<Rightarrow> [] | Some entry \<Rightarrow> map (dependency_candidate env ix depth) (we_deps entry)) frontier)"

text \<open>Both directions: the subject must be readable, the index is repaired, the walk runs.\<close>

definition module_walk ::
  "platform \<Rightarrow> native_platform
     \<Rightarrow> (environment \<Rightarrow> workspace_index \<Rightarrow> nat \<Rightarrow> string list \<Rightarrow> (relation_state, string, dep_node) candidate list)
     \<Rightarrow> string \<Rightarrow> nat \<Rightarrow> query_state \<Rightarrow> (query_error + deps_response) \<times> query_state" where
  "module_walk pf np candidates uri max_depth q =
     (case on_service (snapshot pf uri) q of
        (Inl e, q) \<Rightarrow> (Inl (StoreError e), q)
      | (Inr _, q) \<Rightarrow>
          let (_, q) = on_service (ensure_workspace_entries pf) q
          in (case on_relation (run_walk (pf_env pf) (pf_process pf) (pf_tools pf) np uri
                     (candidates (pf_env pf) (sy_index (snd q))) (clamp_depth max_depth)) q of
                (Inl e, q) \<Rightarrow> (Inl (WalkError e), q)
              | (Inr (nodes, complete), q) \<Rightarrow>
                  (Inr \<lparr>dr_status = Answered, dr_generation = ds_generation (sy_store (snd q)),
                        dr_nodes = sort_key (\<lambda>n. (dn_depth n, dn_uri n)) nodes, dr_complete = complete\<rparr>, q)))"

definition transitive_dependents ::
  "platform \<Rightarrow> native_platform \<Rightarrow> string \<Rightarrow> nat \<Rightarrow> query_state \<Rightarrow> (query_error + deps_response) \<times> query_state" where
  "transitive_dependents pf np = module_walk pf np dependent_candidates"

definition transitive_dependencies ::
  "platform \<Rightarrow> native_platform \<Rightarrow> string \<Rightarrow> nat \<Rightarrow> query_state \<Rightarrow> (query_error + deps_response) \<times> query_state" where
  "transitive_dependencies pf np = module_walk pf np dependency_candidates"

section \<open>Callers\<close>

type_synonym function_key = "string \<times> nat"

record caller_node =
  cn_identity :: "string option"
  cn_uri :: string
  cn_name :: string
  cn_depth :: nat

record callers_response =
  cr_status :: response_status
  cr_subject :: string
  cr_nodes :: "caller_node list"
  cr_complete :: bool

text \<open>The functions that hold an occurrence of the function at a key, one per occurrence.\<close>

definition callers_at :: "workspace_index \<Rightarrow> function_key \<Rightarrow> function_key list" where
  "callers_at ix key =
     (case index_entry (fst key) ix of
        None \<Rightarrow> []
      | Some entry \<Rightarrow>
          (case nth_opt (we_spans entry) (snd key) of
             None \<Rightarrow> []
           | Some span \<Rightarrow>
               List.map_filter (\<lambda>io. map_option (\<lambda>caller. (io_uri io, caller)) (io_function io))
                 (occurrences_for_declaration span Function ix)))"

definition symbol_at :: "workspace_index \<Rightarrow> function_key \<Rightarrow> symbol_summary option" where
  "symbol_at ix key = Option.bind (index_entry (fst key) ix) (\<lambda>entry. nth_opt (we_symbols entry) (snd key))"

definition make_caller_node :: "workspace_index \<Rightarrow> nat \<Rightarrow> function_key \<Rightarrow> caller_node" where
  "make_caller_node ix depth key =
     (let summary = symbol_at ix key
      in \<lparr>cn_identity = Option.bind summary ss_identity, cn_uri = fst key,
          cn_name = (case summary of None \<Rightarrow> [] | Some s \<Rightarrow> ss_name s), cn_depth = depth\<rparr>)"

definition caller_candidates ::
  "workspace_index \<Rightarrow> nat \<Rightarrow> function_key list \<Rightarrow> ('s, function_key, caller_node) candidate list" where
  "caller_candidates ix depth frontier =
     map (\<lambda>key s. (Some (key, make_caller_node ix depth key), s)) (concat (map (callers_at ix) frontier))"

definition unresolved_callers :: "string \<Rightarrow> string \<Rightarrow> callers_response" where
  "unresolved_callers identity reason =
     \<lparr>cr_status = StUnresolved reason, cr_subject = identity, cr_nodes = [], cr_complete = True\<rparr>"

definition transitive_callers ::
  "platform \<Rightarrow> native_platform \<Rightarrow> string \<Rightarrow> nat \<Rightarrow> query_state \<Rightarrow> (query_error + callers_response) \<times> query_state" where
  "transitive_callers pf np identity max_depth q =
     (let (_, q) = on_service (ensure_workspace_entries pf) q;
          ix = sy_index (snd q)
      in case lookup_identity identity ix of
           None \<Rightarrow> (Inr (unresolved_callers identity (''identity '' @ identity @ '' names no workspace symbol'')), q)
         | Some root \<Rightarrow>
             if map_option ss_kind (symbol_at ix root) \<noteq> Some Function
             then (Inr (unresolved_callers identity ''only functions participate in the call hierarchy''), q)
             else
               (case on_relation (run_walk (pf_env pf) (pf_process pf) (pf_tools pf) np root
                       (caller_candidates ix) (clamp_depth max_depth)) q of
                  (Inl e, q) \<Rightarrow> (Inl (WalkError e), q)
                | (Inr (nodes, complete), q) \<Rightarrow>
                    (Inr \<lparr>cr_status = Answered, cr_subject = identity,
                          cr_nodes = sort_key (\<lambda>n. (cn_depth n, cn_uri n, cn_name n)) nodes,
                          cr_complete = complete\<rparr>, q)))"

section \<open>Direct neighbours\<close>

definition raw_function_call_edges :: "model_api \<Rightarrow> program \<Rightarrow> (string \<times> string) list" where
  "raw_function_call_edges api p =
     concat (map (\<lambda>f. case mo_body f of
         None \<Rightarrow> []
       | Some blocks \<Rightarrow>
           List.map_filter (\<lambda>operation. case operation of
               OpCall callee \<Rightarrow> Some (api_function_id api (pr_module p) (mo_name f), callee)
             | OpOther \<Rightarrow> None) (concat blocks)) (pr_functions p))"

definition function_call_edges :: "model_api \<Rightarrow> program \<Rightarrow> (string \<times> string) list" where
  "function_call_edges api p = dedup (sort (raw_function_call_edges api p))"

record graph_edge_target =
  gt_kind :: string
  gt_identity :: string
  gt_name :: "string option"

record graph_response =
  gr_status :: response_status
  gr_snapshot :: snapshot_info
  gr_subject :: string
  gr_outgoing :: "graph_edge_target list"
  gr_incoming :: "graph_edge_target list"

definition function_names :: "model_api \<Rightarrow> program \<Rightarrow> (string, string) btree" where
  "function_names api p =
     bt_of_list (map (\<lambda>f. (api_function_id api (pr_module p) (mo_name f), mo_name f)) (pr_functions p))"

text \<open>The rank of an identity is its position in the sorted keys.\<close>

definition rank_of :: "string list \<Rightarrow> string \<Rightarrow> nat option" where
  "rank_of keys identity = position (\<lambda>k. k = identity) keys"

definition neighbor_ranks :: "string list \<Rightarrow> bool \<Rightarrow> string \<Rightarrow> (string \<times> string) list \<Rightarrow> nat list" where
  "neighbor_ranks keys outgoing identity edges =
     List.map_filter (\<lambda>(caller, callee).
       let (subject, neighbor) = (if outgoing then (caller, callee) else (callee, caller))
       in if subject = identity then rank_of keys neighbor else None) edges"

definition graph_targets :: "string list \<Rightarrow> (string, string) btree \<Rightarrow> nat list \<Rightarrow> graph_edge_target list" where
  "graph_targets keys names ranks =
     map (\<lambda>identity. \<lparr>gt_kind = ''calls'', gt_identity = identity, gt_name = bt_lookup names identity\<rparr>)
       (List.map_filter (nth_opt keys) ranks)"

text \<open>The ranks in order without repetition: by the kernel when they fit its window.\<close>

definition target_ranks ::
  "environment \<Rightarrow> process_env \<Rightarrow> toolchain \<Rightarrow> native_platform \<Rightarrow> bool \<Rightarrow> nat list \<Rightarrow> relation_state
     \<Rightarrow> (native_error + nat list) \<times> relation_state" where
  "target_ranks env px tc np known candidates s =
     (if candidates = [] \<and> \<not> known then (Inr [], s)
      else if length candidates \<le> relation_window_capacity then
        (case execute_neighbor_summary env px tc np candidates s of
           (Inl e, s) \<Rightarrow> (Inl e, s)
         | (Inr summary, s) \<Rightarrow> (Inr (ns_targets summary), s))
      else (Inr (dedup (sort candidates)), s))"

definition graph_query ::
  "platform \<Rightarrow> native_platform \<Rightarrow> string \<Rightarrow> string \<Rightarrow> bool \<Rightarrow> query_state
     \<Rightarrow> (query_error + graph_response) \<times> query_state" where
  "graph_query pf np uri identity outgoing q =
     (case on_service (snapshot pf uri) q of
        (Inl e, q) \<Rightarrow> (Inl (StoreError e), q)
      | (Inr a, q) \<Rightarrow>
          (case fe_program (da_front_end a) of
             None \<Rightarrow>
               (Inr \<lparr>gr_status = StUnsupported ''the semantic graph requires a valid elaborated program'',
                     gr_snapshot = make_snapshot_info uri a, gr_subject = identity,
                     gr_outgoing = [], gr_incoming = []\<rparr>, q)
           | Some p \<Rightarrow>
               let api = tl_model (pf_tools pf);
                   names = function_names api p;
                   keys = bt_keys names;
                   wanted = rank_of keys identity;
                   candidates = neighbor_ranks keys outgoing identity (raw_function_call_edges api p)
               in (case on_relation (target_ranks (pf_env pf) (pf_process pf) (pf_tools pf) np
                          (wanted \<noteq> None) candidates) q of
                     (Inl e, q) \<Rightarrow> (Inl (WalkError (Refused e)), q)
                   | (Inr ranks, q) \<Rightarrow>
                       let targets = graph_targets keys names ranks
                       in (Inr \<lparr>gr_status =
                                  (if targets = [] \<and> wanted = None
                                   then StUnresolved (''identity '' @ identity @ '' is not a function of this snapshot'')
                                   else Answered),
                                gr_snapshot = make_snapshot_info uri a, gr_subject = identity,
                                gr_outgoing = (if outgoing then targets else []),
                                gr_incoming = (if outgoing then [] else targets)\<rparr>, q))))"

definition dependencies ::
  "platform \<Rightarrow> native_platform \<Rightarrow> string \<Rightarrow> string \<Rightarrow> query_state \<Rightarrow> (query_error + graph_response) \<times> query_state" where
  "dependencies pf np uri identity = graph_query pf np uri identity True"

definition dependents ::
  "platform \<Rightarrow> native_platform \<Rightarrow> string \<Rightarrow> string \<Rightarrow> query_state \<Rightarrow> (query_error + graph_response) \<times> query_state" where
  "dependents pf np uri identity = graph_query pf np uri identity False"

end
