(* ===== verification/Relation_Props.thy ===== *)
theory Relation_Props
  imports Relation_Queries Relation_Contract Modules_Props "HOL-Library.Multiset"
begin

text \<open>
  What the transitive queries answer: the bounds that hold for every backend, and, for a kernel that
  meets \<^const>\<open>walk_contract\<close>, the breadth first levels they list.
\<close>

section \<open>Bounds\<close>

lemma clamp_depth_bounds: "1 \<le> clamp_depth d \<and> clamp_depth d \<le> max_transitive_depth"
  by (simp add: clamp_depth_def max_transitive_depth_def)

lemma clamp_depth_id: "1 \<le> d \<Longrightarrow> d \<le> max_transitive_depth \<Longrightarrow> clamp_depth d = d"
  by (simp add: clamp_depth_def)

lemma run_walk_bounded:
  assumes "run_walk env px tc np root expand d s = (Inr (nodes, complete), s')"
    and payload: "\<And>depth frontier c s k t s'. 1 \<le> depth \<Longrightarrow> depth \<le> d \<Longrightarrow> c \<in> set (expand depth frontier) \<Longrightarrow>
      c s = (Some (k, t), s') \<Longrightarrow> P t"
  shows "length nodes \<le> max_transitive_nodes \<and> (\<forall>t \<in> set nodes. P t)"
proof -
  obtain ws s1 where start: "execute_walk_start env px tc np s = (Inr ws, s1)"
    and levels: "walk_levels (execute_walk_advance_batch env px tc np) expand [1 ..< d + 1] [] (walk_new ws root) s1 =
      (Inr (nodes, complete), s')"
    using assms(1) by (auto simp: run_walk_def split: prod.splits sum.splits)
  have "ws_reached ws \<le> relation_walk_result_capacity + 1"
    using start native_walk_state_bounds
    by (fastforce simp: execute_walk_start_def bind_result_eq_Inr split: prod.splits sum.splits)
  with walk_start_sound [OF start] show ?thesis
    by (intro checked_walk.levels_bounded [OF levels, where P = P]) (auto simp: walk_new_def intro: payload)
qed

lemma on_relation_result: "fst (on_relation f q) = fst (f (fst q, sy_store (snd q)))"
  by (simp add: on_relation_def split: prod.splits)

lemma dependent_candidate_depth:
  "dependent_candidate env ix depth current importer s = (Some (k, t), s') \<Longrightarrow> dn_depth t = depth \<and> dn_uri t = k"
  by (auto simp: dependent_candidate_def split: option.splits prod.splits)

lemma dependency_candidate_depth:
  "dependency_candidate env ix depth edge s = (Some (k, t), s') \<Longrightarrow> dn_depth t = depth \<and> dn_uri t = k"
  by (auto simp: dependency_candidate_def split: prod.splits)

text \<open>What every answer of a module walk satisfies.\<close>

definition deps_bounded :: "nat \<Rightarrow> deps_response \<Rightarrow> bool" where
  "deps_bounded d r \<longleftrightarrow>
     length (dr_nodes r) \<le> max_transitive_nodes \<and>
     (\<forall>n \<in> set (dr_nodes r). 1 \<le> dn_depth n \<and> dn_depth n \<le> clamp_depth d) \<and>
     sorted (map (\<lambda>n. (dn_depth n, dn_uri n)) (dr_nodes r))"

definition callers_bounded :: "nat \<Rightarrow> callers_response \<Rightarrow> bool" where
  "callers_bounded d r \<longleftrightarrow>
     length (cr_nodes r) \<le> max_transitive_nodes \<and>
     (\<forall>n \<in> set (cr_nodes r). 1 \<le> cn_depth n \<and> cn_depth n \<le> clamp_depth d) \<and>
     sorted (map (\<lambda>n. (cn_depth n, cn_uri n, cn_name n)) (cr_nodes r))"

lemma module_walk_bounded:
  assumes depth: "\<And>env ix depth frontier c s k t s'. c \<in> set (candidates env ix depth frontier) \<Longrightarrow>
      c s = (Some (k, t), s') \<Longrightarrow> dn_depth t = depth"
    and run: "fst (module_walk pf np candidates uri d q) = Inr r"
  shows "deps_bounded d r"
proof -
  obtain ix s s' nodes complete where
    w: "run_walk (pf_env pf) (pf_process pf) (pf_tools pf) np uri (candidates (pf_env pf) ix) (clamp_depth d) s =
      (Inr (nodes, complete), s')"
    and r: "dr_nodes r = sort_key (\<lambda>n. (dn_depth n, dn_uri n)) nodes"
    using run
    by (auto simp: module_walk_def on_relation_def Let_def split: prod.splits sum.splits)
  from run_walk_bounded [OF w, where P = "\<lambda>n. 1 \<le> dn_depth n \<and> dn_depth n \<le> clamp_depth d"] depth
  show ?thesis by (fastforce simp: deps_bounded_def r)
qed

text \<open>Whatever the compiler and the backend do, a transitive module query that answers lists
  at most 1024 modules, each at a depth between 1 and the requested depth clamped to 16, ordered by
  depth and URI.\<close>

theorem transitive_modules_bounded:
  "(case fst (transitive_dependents pf np uri d q) of Inl _ \<Rightarrow> True | Inr r \<Rightarrow> deps_bounded d r) \<and>
   (case fst (transitive_dependencies pf np uri d q) of Inl _ \<Rightarrow> True | Inr r \<Rightarrow> deps_bounded d r)"
proof
  show "case fst (transitive_dependents pf np uri d q) of Inl _ \<Rightarrow> True | Inr r \<Rightarrow> deps_bounded d r"
    using module_walk_bounded [of dependent_candidates pf np uri d q] dependent_candidate_depth
    by (fastforce simp: transitive_dependents_def dependent_candidates_def split: sum.splits)
  show "case fst (transitive_dependencies pf np uri d q) of Inl _ \<Rightarrow> True | Inr r \<Rightarrow> deps_bounded d r"
    using module_walk_bounded [of dependency_candidates pf np uri d q] dependency_candidate_depth
    by (fastforce simp: transitive_dependencies_def dependency_candidates_def split: sum.splits option.splits)
qed

lemma callers_at_node: "c \<in> set (caller_candidates ix depth F) \<Longrightarrow> c s = (Some (k, t), s') \<Longrightarrow> cn_depth t = depth"
  by (auto simp: caller_candidates_def make_caller_node_def Let_def)

text \<open>Whatever the backend does, a caller query that answers lists at most 1024 functions,
  each at a depth between 1 and the requested depth clamped to 16, ordered by depth, URI and
  name.\<close>

theorem transitive_callers_bounded:
  "case fst (transitive_callers pf np identity d q) of Inl _ \<Rightarrow> True | Inr r \<Rightarrow> callers_bounded d r"
proof (cases "fst (transitive_callers pf np identity d q)")
  case (Inr r)
  have "callers_bounded d r"
  proof (cases "cr_nodes r = []")
    case False
    obtain ix root s s' nodes complete where
      w: "run_walk (pf_env pf) (pf_process pf) (pf_tools pf) np root (caller_candidates ix) (clamp_depth d) s =
        (Inr (nodes, complete), s')"
      and r: "cr_nodes r = sort_key (\<lambda>n. (cn_depth n, cn_uri n, cn_name n)) nodes"
      using Inr False
      by (auto simp: transitive_callers_def on_relation_def unresolved_callers_def Let_def
          split: prod.splits sum.splits option.splits if_splits)
    from run_walk_bounded [OF w, where P = "\<lambda>n. 1 \<le> cn_depth n \<and> cn_depth n \<le> clamp_depth d"] callers_at_node
    show ?thesis by (fastforce simp: callers_bounded_def r)
  qed (simp add: callers_bounded_def)
  with Inr show ?thesis by simp
qed simp

section \<open>The walk under the contract\<close>

lemma run_walk_exact:
  fixes candidates :: "nat \<Rightarrow> 'k list \<Rightarrow> ('k \<times> 't) option list"
  assumes contract: "walk_contract np k" and ready: "relation_kernel env px tc np s = (Inr k, s)"
    and K: "finite K" "card K \<le> relation_walk_result_capacity" "root \<notin> K"
    and closed: "\<And>depth F. set F \<subseteq> insert root K \<Longrightarrow> fst ` set (found (candidates depth F)) \<subseteq> insert root K"
    and d: "d \<le> max_transitive_depth"
  shows "run_walk env px tc np root (\<lambda>depth F. map (\<lambda>x s. (x, s)) (candidates depth F)) d s =
    (Inr (bfs_levels candidates [1 ..< d + 1] {root} [root], True), s)"
proof -
  obtain v where v: "execute_walk_function np k ''start_relation_walk'' [u64_argument relation_walk_root_code] = Inr v"
    "decode_walk_state k v = Inr start_view" using contract by (auto simp: walk_contract_def)
  have dep: "bt_lookup (k_dependencies k) walk_dependency \<noteq> None" using contract by (simp add: walk_contract_def)
  obtain ws where ws: "native_walk_state v k = Inr ws" using native_state_exists [OF dep v(2)] by blast
  note sim = native_state_simps [OF ws v(2)]
  let ?w = "walk_new ws root"
  have "tracked k ws {relation_walk_root_code}"
    unfolding tracked_def using v(2) ws sim
    by (intro exI [of _ start_view]) (auto simp: walk_view_ok_def start_view_def seen_codes_def)
  then have inv: "contract_walk.walk_inv k ?w {root} [root]"
    using sim by (simp add: contract_walk.walk_inv_def walk_new_def table_ok_def known_keys_def code_in_def start_view_def)
  have start: "execute_walk_start env px tc np s = (Inr ws, s)"
    using ready v(1) ws by (simp add: execute_walk_start_def)
  have depths: "\<forall>e \<in> set [1 ..< d + 1]. ws_depth (wk_state ?w) < e \<and> e \<le> max_transitive_depth"
    using sim d by (auto simp: walk_new_def start_view_def)
  have "walk_levels (execute_walk_advance_batch env px tc np) (\<lambda>depth F. map (\<lambda>x s. (x, s)) (candidates depth F))
      [1 ..< d + 1] [] ?w s = (Inr ([] @ bfs_levels candidates [1 ..< d + 1] {root} [root], True), s)"
    using contract ready K closed inv depths
    by (intro contract_walk.levels_exact) (auto simp: walk_new_def known_keys_def simp del: upt_Suc intro: sorted_wrt_upt)
  then show ?thesis using start by (simp add: run_walk_def)
qed

section \<open>Callers\<close>

text \<open>The keys that hold an occurrence recorded in the index.\<close>

definition indexed_callers :: "workspace_index \<Rightarrow> function_key set" where
  "indexed_callers ix =
     (\<Union>(uri, entry) \<in> set (bt_entries (wx_entries ix)). {uri} \<times> (\<Union>c \<in> set (we_enclosing entry). set_option c))"

lemma finite_indexed_callers: "finite (indexed_callers ix)"
  by (auto simp: indexed_callers_def)

lemma callers_at_indexed: "set (callers_at ix key) \<subseteq> indexed_callers ix"
proof
  fix x assume "x \<in> set (callers_at ix key)"
  then obtain io p caller where io: "indexed_at ix p = Some io" "io_function io = Some caller" "x = (io_uri io, caller)"
    by (auto simp: callers_at_def occurrences_for_declaration_def List.map_filter_def Let_def split: option.splits)
  obtain uri i where p: "p = (uri, i)" by (cases p)
  obtain entry r where entry: "bt_lookup (wx_entries ix) uri = Some entry" "nth_opt (we_occurrence_ranges entry) i = Some r"
    and io': "io = \<lparr>io_uri = uri, io_range = r, io_function = (case nth_opt (we_enclosing entry) i of None \<Rightarrow> None | Some f \<Rightarrow> f)\<rparr>"
    using io(1) by (auto simp: indexed_at_def p bind_eq_Some_conv)
  have "Some caller \<in> set (we_enclosing entry)"
    using io(2) by (auto simp: io' nth_opt_def in_set_conv_nth split: if_splits)
  moreover have "(uri, entry) \<in> set (bt_entries (wx_entries ix))" using entry(1) by (simp add: bt_lookup_eq_Some)
  ultimately show "x \<in> indexed_callers ix" by (force simp: indexed_callers_def io(3) io')
qed

text \<open>The callers of a set of keys, and what is reached by them in any number of steps.\<close>

definition caller_sets :: "workspace_index \<Rightarrow> function_key \<Rightarrow> function_key set" where
  "caller_sets ix key = set (callers_at ix key)"

definition reached_callers :: "workspace_index \<Rightarrow> function_key \<Rightarrow> function_key set" where
  "reached_callers ix root = (\<Union>n. ball (caller_sets ix) root n) - {root}"

lemma ball_closed:
  assumes "k \<in> (\<Union>n. ball E root n)"
  shows "E k \<subseteq> (\<Union>n. ball E root n)"
proof -
  obtain n where "k \<in> ball E root n" using assms by blast
  then have "E k \<subseteq> ball E root (Suc n)" by auto
  then show ?thesis by blast
qed

lemma root_in_ball: "root \<in> ball E root n"
  by (induction n) auto

lemma reached_callers_indexed: "reached_callers ix root \<subseteq> indexed_callers ix"
proof -
  have "ball (caller_sets ix) root n \<subseteq> insert root (indexed_callers ix)" for n
    by (induction n) (auto simp: caller_sets_def dest: subsetD [OF callers_at_indexed])
  then show ?thesis by (auto simp: reached_callers_def)
qed

lemma finite_reached_callers: "finite (reached_callers ix root)"
  by (rule finite_subset [OF reached_callers_indexed finite_indexed_callers])

text \<open>The nodes of the levels up to a depth, every function once at its distance.\<close>

definition caller_levels :: "workspace_index \<Rightarrow> function_key \<Rightarrow> nat \<Rightarrow> caller_node multiset" where
  "caller_levels ix root d =
     (\<Sum>n \<in> {1 ..< d + 1}. image_mset (make_caller_node ix n) (mset_set (sphere (caller_sets ix) root n)))"

lemma bfs_callers:
  "mset (bfs_levels (\<lambda>depth F. map (\<lambda>key. Some (key, make_caller_node ix depth key)) (concat (map (callers_at ix) F)))
     [1 ..< d + 1] {root} [root]) = caller_levels ix root d"
proof -
  let ?c = "\<lambda>depth F. map (\<lambda>key. Some (key, make_caller_node ix depth key)) (concat (map (callers_at ix) F))"
  have "found (map (\<lambda>key. Some (key, f key)) ks) = map (\<lambda>key. (key, f key)) ks" for f :: "function_key \<Rightarrow> caller_node" and ks
    by (induction ks) auto
  then obtain ks where ks: "\<forall>n \<in> {1 ..< 1 + d}. distinct (ks n) \<and> set (ks n) = sphere (caller_sets ix) root n"
    "bfs_levels ?c [1 ..< 1 + d] (ball (caller_sets ix) root 0) [root] =
      concat (map (\<lambda>n. map (make_caller_node ix n) (ks n)) [1 ..< 1 + d])"
    using bfs_levels_spheres [of ?c "make_caller_node ix" "\<lambda>F. concat (map (callers_at ix) F)" "caller_sets ix" "[root]" root 0 d]
    by (auto simp: sphere_def caller_sets_def)
  have sums: "mset (concat (map f ns)) = (\<Sum>n \<in> set ns. mset (f n))" if "distinct ns" for f :: "nat \<Rightarrow> caller_node list" and ns
    using that by (induction ns) auto
  have "mset (bfs_levels ?c [1 ..< 1 + d] (ball (caller_sets ix) root 0) [root]) =
      (\<Sum>n \<in> set [1 ..< 1 + d]. mset (map (make_caller_node ix n) (ks n)))"
    unfolding ks(2) by (rule sums [OF distinct_upt])
  also have "\<dots> = caller_levels ix root d"
    unfolding caller_levels_def set_upt
  proof (rule sum.cong)
    fix n assume "n \<in> {1 ..< d + 1}"
    then have "distinct (ks n)" "set (ks n) = sphere (caller_sets ix) root n" using ks(1) by simp_all
    then show "mset (map (make_caller_node ix n) (ks n)) =
        image_mset (make_caller_node ix n) (mset_set (sphere (caller_sets ix) root n))"
      using mset_set_set [of "ks n"] by simp
  qed simp
  finally show ?thesis by simp
qed

text \<open>C4: When the prepared kernel meets \<^const>\<open>walk_contract\<close> and at most 1024 functions reach the
  subject by calls, the caller query lists every function within the clamped depth exactly once, at
  its call distance, and nothing else, and leaves the service as it was. It always reports the answer
  as complete, also when functions beyond the depth bound were left out.\<close>

theorem transitive_callers_levels:
  assumes ensured: "on_service (ensure_workspace_entries pf) q = (failed, q1)"
    and root: "lookup_identity identity (sy_index (snd q1)) = Some root"
      "map_option ss_kind (symbol_at (sy_index (snd q1)) root) = Some Function"
    and contract: "walk_contract np k"
    and ready: "relation_kernel (pf_env pf) (pf_process pf) (pf_tools pf) np (fst q1, sy_store (snd q1)) =
      (Inr k, fst q1, sy_store (snd q1))"
    and small: "card (reached_callers (sy_index (snd q1)) root) \<le> max_transitive_nodes"
  shows "\<exists>nodes. transitive_callers pf np identity d q =
      (Inr \<lparr>cr_status = Answered, cr_subject = identity, cr_nodes = nodes, cr_complete = True\<rparr>, q1) \<and>
    mset nodes = caller_levels (sy_index (snd q1)) root (clamp_depth d)"
proof -
  let ?ix = "sy_index (snd q1)"
  let ?c = "\<lambda>depth F. map (\<lambda>key. Some (key, make_caller_node ?ix depth key)) (concat (map (callers_at ?ix) F))"
  let ?nodes = "bfs_levels ?c [1 ..< clamp_depth d + 1] {root} [root]"
  let ?K = "reached_callers ?ix root"
  have whole: "insert root ?K = (\<Union>n. ball (caller_sets ?ix) root n)"
    using root_in_ball [of root "caller_sets ?ix"] by (auto simp: reached_callers_def)
  have fnd: "found (map (\<lambda>key. Some (key, f key)) ks) = map (\<lambda>key. (key, f key)) ks" for f :: "function_key \<Rightarrow> caller_node" and ks
    by (induction ks) auto
  have closed: "fst ` set (found (?c depth F)) \<subseteq> insert root ?K" if "set F \<subseteq> insert root ?K" for depth F
    using that ball_closed [of _ "caller_sets ?ix" root]
    unfolding fnd whole caller_sets_def by (fastforce simp: image_image)
  have run: "run_walk (pf_env pf) (pf_process pf) (pf_tools pf) np root (\<lambda>depth F. map (\<lambda>x s. (x, s)) (?c depth F))
      (clamp_depth d) (fst q1, sy_store (snd q1)) = (Inr (?nodes, True), fst q1, sy_store (snd q1))"
    by (rule run_walk_exact [OF contract ready finite_reached_callers _ _ closed])
      (use small clamp_depth_bounds in \<open>auto simp: max_transitive_nodes_def walk_consts reached_callers_def\<close>)
  have same: "caller_candidates ?ix = (\<lambda>depth F. map (\<lambda>x s. (x, s)) (?c depth F))"
    by (auto simp: caller_candidates_def fun_eq_iff)
  have walk: "on_relation (run_walk (pf_env pf) (pf_process pf) (pf_tools pf) np root (caller_candidates ?ix)
      (clamp_depth d)) q1 = (Inr (?nodes, True), q1)"
    unfolding on_relation_def same run by simp
  show ?thesis
    using ensured root walk bfs_callers [of ?ix "clamp_depth d" root]
    by (auto simp: transitive_callers_def Let_def)
qed

section \<open>A concrete call\<close>

definition walk_platform :: platform where
  "walk_platform =
     \<lparr>pf_env = sample_env\<lparr>env_read := (\<lambda>p. ReadOk ''w''), env_identity := (\<lambda>u t. ''x''), env_module := (\<lambda>t. Some ''w'')\<rparr>,
      pf_process = no_process_env\<lparr>px_library_path := Some ''/l''\<rparr>,
      pf_tools = sample_tools\<lparr>tl_compatible := (\<lambda>a b. True)\<rparr>,
      pf_read_checkpoint = (\<lambda>p. CheckpointMissing), pf_write_checkpoint = (\<lambda>p c. None),
      pf_canonical = Inr, pf_toolchain = ''t'', pf_build = ''b''\<rparr>"

definition walk_native :: native_platform where
  "walk_native = \<lparr>np_source = [], np_valid = (\<lambda>fe. True), np_emit = (\<lambda>p. Inl []), np_backend_name = ''r'',
     np_backend = reference_backend\<rparr>"

definition walk_kernel :: kernel where
  "walk_kernel = \<lparr>k_source_identity = ''x'',
     k_dependencies = bt_insert sort_dependency ''x'' (bt_insert walk_dependency ''x'' bt_empty),
     k_record_types = reference_record_types, k_finite_types = [], k_backend_name = ''r'', k_artifact_identity = ''a''\<rparr>"

text \<open>The function \<open>g\<close> calls \<open>f\<close>.\<close>

definition call_range :: range_info where
  "call_range = \<lparr>ri_start_line = 0, ri_start_character = 0, ri_end_line = 0, ri_end_character = 1, ri_start_byte = 0,
     ri_end_byte = 1\<rparr>"

definition call_summary :: "string \<Rightarrow> string \<Rightarrow> symbol_summary" where
  "call_summary n i =
     \<lparr>ss_uri = Some ''u'', ss_name = n, ss_kind = Function, ss_identity = Some i, ss_container = None,
      ss_range = call_range, ss_name_range = call_range, ss_detail = None, ss_type_name = None\<rparr>"

definition call_entry :: workspace_entry where
  "call_entry =
     \<lparr>we_identity = ''x'', we_module = ''m'', we_symbols = [call_summary ''f'' ''m.f'', call_summary ''g'' ''m.g''],
      we_spans = [SourceSpan 0 1 0 0, SourceSpan 5 6 0 5], we_lower_names = [''f'', ''g''],
      we_occurrence_ranges = [call_range], we_enclosing = [Some 1],
      we_by_identity = bt_insert ''m.f'' 0 bt_empty, we_declarations = bt_empty,
      we_occurrences = bt_insert (OccurrenceKey 0 1 0 0 Function (Some ''f'')) [0] bt_empty,
      we_functions = bt_empty, we_types = bt_empty, we_exports = bs_empty, we_has_uses = False,
      we_has_external_dep = False, we_deps = [], we_fingerprints = bt_empty\<rparr>"

definition call_state :: query_state where
  "call_state = (Some walk_kernel,
     (service_new ''s'' None)\<lparr>sy_index := index_publish ''u'' call_entry index_empty, sy_ensured := 0\<rparr>)"

lemma call_index_eval:
  "bt_entries (wx_entries (sy_index (snd call_state))) = [(''u'', call_entry)]"
  "bt_lookup (wx_entries (sy_index (snd call_state))) ''u'' = Some call_entry"
  "bt_entries (wx_by_identity (sy_index (snd call_state))) = [(''m.f'', bs_insert (''u'', 0) bs_empty)]"
  "bt_entries (wx_occurrences (sy_index (snd call_state))) =
     [(OccurrenceKey 0 1 0 0 Function (Some ''f''), bs_insert (''u'', 0) bs_empty)]"
  "bt_entries (wx_external (sy_index (snd call_state))) = []"
  by (simp_all add: call_state_def index_publish_def index_remove_def index_empty_def call_entry_def Let_def
      bucket_add_def bucket_add_all_def bt_update_default_def bs_insert_def)

lemma call_state_ensured: "on_service (ensure_workspace_entries walk_platform) call_state = ([], call_state)"
proof -
  have "external_dep_uris (sy_index (snd call_state)) = []" by (simp add: external_dep_uris_def bt_keys_def call_index_eval)
  moreover have "sy_ensured (snd call_state) = ds_version (sy_store (snd call_state))"
    by (simp add: call_state_def service_new_def store_new_def)
  ultimately show ?thesis by (simp add: on_service_def ensure_workspace_entries_def)
qed

lemma call_walk_ready:
  "relation_kernel (pf_env walk_platform) (pf_process walk_platform) (pf_tools walk_platform) walk_native
     (fst call_state, sy_store (snd call_state)) = (Inr walk_kernel, fst call_state, sy_store (snd call_state))"
proof -
  have roots: "library_roots_from_env (pf_env walk_platform) (pf_process walk_platform) = [''/l'']"
    by (simp add: library_roots_from_env_def discover_stdlib_root_def walk_platform_def no_process_env_def)
  have lib: "library_file (pf_env walk_platform) (pf_tools walk_platform) m p = Some ''w''" for m p
    by (simp add: library_file_def walk_platform_def)
  have identity: "en_identity (envelope (pf_env walk_platform) tc uri t) = ''x''" for tc uri t
    by (simp add: envelope_def walk_platform_def)
  have answer: "\<exists>e. library_resolve (pf_env walk_platform) (pf_process walk_platform) (pf_tools walk_platform) m = Some e \<and>
      en_identity e = ''x''" for m
    by (simp add: library_resolve_def library_candidates_def roots candidate_paths_def lib List.map_filter_def identity)
  have store: "sy_store (snd call_state) = store_new None" by (simp add: call_state_def service_new_def)
  have names: "valid_module_name sort_dependency" "valid_module_name walk_dependency" by code_simp+
  have none: "module_uri (pf_env walk_platform) m (store_new None) = (None, store_new None)" for m
    by (simp add: module_uri_def scan_modules_for_def store_new_def bucket_first_def bt_keys_def Let_def)
  have resolve: "store_resolve (pf_env walk_platform) (pf_process walk_platform) (pf_tools walk_platform) m (store_new None) =
      (library_resolve (pf_env walk_platform) (pf_process walk_platform) (pf_tools walk_platform) m, store_new None)"
    if "valid_module_name m" for m
    using that none by (simp add: store_resolve_def)
  obtain e1 e2 where e: "library_resolve (pf_env walk_platform) (pf_process walk_platform) (pf_tools walk_platform) sort_dependency = Some e1"
    "en_identity e1 = ''x''"
    "library_resolve (pf_env walk_platform) (pf_process walk_platform) (pf_tools walk_platform) walk_dependency = Some e2"
    "en_identity e2 = ''x''"
    using answer by blast
  have "kernel_matches ''x'' ''x'' ''x'' walk_kernel" by (simp add: kernel_matches_def walk_kernel_def)
  then show ?thesis using e identity
    using store by (simp add: relation_kernel_def resolve names Let_def) (simp add: call_state_def)
qed

lemma transitive_callers_levels_witness:
  "fst (transitive_callers walk_platform walk_native ''m.f'' 1 call_state) =
     Inr \<lparr>cr_status = Answered, cr_subject = ''m.f'',
          cr_nodes = [\<lparr>cn_identity = Some ''m.g'', cn_uri = ''u'', cn_name = ''g'', cn_depth = 1\<rparr>], cr_complete = True\<rparr>"
proof -
  let ?ix = "sy_index (snd call_state)"
  have root: "lookup_identity ''m.f'' ?ix = Some (''u'', 0)"
    by (simp add: lookup_identity_def bucket_first_def bt_lookup_def call_index_eval bs_first_def bs_insert_def bt_keys_def)
  have kind: "map_option ss_kind (symbol_at ?ix (''u'', 0)) = Some Function"
    by (simp add: symbol_at_def index_entry_def call_index_eval call_entry_def nth_opt_def call_summary_def)
  have "''f'' \<le> last_char" by code_simp
  then have at0: "callers_at ?ix (''u'', 0) = [(''u'', 1)]"
    by (simp add: callers_at_def index_entry_def call_index_eval call_entry_def nth_opt_def occurrences_for_declaration_def
        List.map_filter_def indexed_at_def bt_keys_def bs_insert_def less_eq_occurrence_key_def
        occurrence_key_tuple_def Let_def)
  have "indexed_callers ?ix = {(''u'', 1)}" by (simp add: indexed_callers_def call_index_eval call_entry_def)
  moreover have "reached_callers ?ix (''u'', 0) \<subseteq> indexed_callers ?ix" by (rule reached_callers_indexed)
  ultimately have small: "card (reached_callers ?ix (''u'', 0)) \<le> max_transitive_nodes"
    using card_mono [of "{(''u'', 1)}" "reached_callers ?ix (''u'', 0)"] by (simp add: max_transitive_nodes_def)
  have contract: "walk_contract walk_native walk_kernel"
    by (rule reference_contract) (simp_all add: walk_native_def walk_kernel_def)
  obtain nodes where nodes: "transitive_callers walk_platform walk_native ''m.f'' 1 call_state =
      (Inr \<lparr>cr_status = Answered, cr_subject = ''m.f'', cr_nodes = nodes, cr_complete = True\<rparr>, call_state)"
    "mset nodes = caller_levels ?ix (''u'', 0) (clamp_depth 1)"
    using transitive_callers_levels [OF call_state_ensured root kind contract call_walk_ready small, of 1] by blast
  have "sphere (caller_sets ?ix) (''u'', 0) 1 = {(''u'', 1)}"
    by (auto simp: sphere_def caller_sets_def at0)
  then have "mset nodes = {#make_caller_node ?ix 1 (''u'', 1)#}"
    using nodes(2) by (simp add: caller_levels_def clamp_depth_def max_transitive_depth_def)
  then have "nodes = [make_caller_node ?ix 1 (''u'', 1)]" by simp
  moreover have "make_caller_node ?ix 1 (''u'', 1) = \<lparr>cn_identity = Some ''m.g'', cn_uri = ''u'', cn_name = ''g'', cn_depth = 1\<rparr>"
    by (simp add: make_caller_node_def symbol_at_def index_entry_def call_index_eval call_entry_def nth_opt_def call_summary_def)
  ultimately show ?thesis using nodes(1) by simp
qed

section \<open>Direct neighbours\<close>

lemma all_distinct_sorted_wrt: "all_distinct_sorted ts \<Longrightarrow> sorted_wrt (<) ts"
proof (induction ts)
  case (Cons a ts)
  then show ?case
    by (cases ts) (auto simp: all_distinct_sorted_def intro: less_trans)
qed simp

lemma decode_summary_sound:
  assumes "decode_summary k candidates v = Inr summary"
  shows "sorted_wrt (<) (ns_targets summary) \<and> set (ns_targets summary) \<subseteq> set candidates"
proof -
  obtain fds count targets where f: "record_fields k v ''NeighborSummary'' = Inr fds"
      "bind_result (record_field fds ''count'') (\<lambda>v. integer_field v ''count'' 64) = Inr count"
      "record_field fds ''targets'' = Inr targets"
    using assms by (auto simp: decode_summary_def bind_result_eq_Inr)
  then obtain vs where "targets = EvSequence vs" using assms
    by (cases targets) (auto simp: decode_summary_def)
  with f assms obtain ts where ts: "ns_targets summary = ts" "all_distinct_sorted ts" "set ts \<subseteq> set candidates"
    by (auto simp: decode_summary_def bind_result_eq_Inr split: if_splits option.splits)
  show ?thesis using all_distinct_sorted_wrt [OF ts(2)] ts by simp
qed

lemma execute_neighbor_summary_sound:
  assumes "fst (execute_neighbor_summary env px tc np candidates s) = Inr summary"
  shows "sorted_wrt (<) (ns_targets summary) \<and> set (ns_targets summary) \<subseteq> set candidates"
proof -
  obtain k v where "decode_summary k candidates v = Inr summary"
    using assms by (auto simp: execute_neighbor_summary_def bind_result_eq_Inr split: if_splits prod.splits sum.splits)
  then show ?thesis by (rule decode_summary_sound)
qed

lemma target_ranks_sound:
  assumes "fst (target_ranks env px tc np known candidates s) = Inr ranks"
  shows "sorted_wrt (<) ranks \<and> set ranks \<subseteq> set candidates"
  using assms execute_neighbor_summary_sound [of env px tc np candidates s]
  by (auto simp: target_ranks_def sorted_wrt_dedup split: if_splits prod.splits sum.splits)

lemma neighbor_ranks_edge:
  "r \<in> set (neighbor_ranks keys outgoing identity edges) \<Longrightarrow>
   r < length keys \<and> (if outgoing then (identity, keys ! r) else (keys ! r, identity)) \<in> set edges"
  by (auto simp: neighbor_ranks_def List.map_filter_def rank_of_def split: if_splits dest!: position_Some)

lemma graph_targets_identities:
  assumes "sorted_wrt (<) keys" "sorted_wrt (<) ranks" "\<forall>r \<in> set ranks. r < length keys"
  shows "map gt_identity (graph_targets keys names ranks) = map (\<lambda>r. keys ! r) ranks \<and>
    sorted_wrt (<) (map gt_identity (graph_targets keys names ranks))"
proof -
  have "List.map_filter (nth_opt keys) rs = map (\<lambda>r. keys ! r) rs" if "\<forall>r \<in> set rs. r < length keys" for rs
    using that by (induction rs) (auto simp: nth_opt_def)
  then have "map gt_identity (graph_targets keys names ranks) = map (\<lambda>r. keys ! r) ranks"
    using assms(3) by (simp add: graph_targets_def comp_def)
  moreover have "sorted_wrt (<) (map (\<lambda>r. keys ! r) rs)" if "sorted_wrt (<) rs" "\<forall>r \<in> set rs. r < length keys" for rs
    using that by (induction rs) (auto intro: sorted_wrt_nth_less [OF assms(1)])
  ultimately show ?thesis using assms(2,3) by simp
qed

text \<open>The neighbours a graph answer lists.\<close>

definition answer_neighbours :: "bool \<Rightarrow> graph_response \<Rightarrow> string list" where
  "answer_neighbours outgoing r = map gt_identity (if outgoing then gr_outgoing r else gr_incoming r)"

definition call_neighbours :: "model_api \<Rightarrow> document_analysis \<Rightarrow> bool \<Rightarrow> string \<Rightarrow> string set" where
  "call_neighbours api a outgoing identity =
     (case fe_program (da_front_end a) of
        None \<Rightarrow> {}
      | Some p \<Rightarrow>
          {n. (if outgoing then (identity, n) else (n, identity)) \<in> set (raw_function_call_edges api p)} \<inter>
          (\<lambda>f. api_function_id api (pr_module p) (mo_name f)) ` set (pr_functions p))"

lemma function_names_keys:
  "set (bt_keys (function_names api p)) = (\<lambda>f. api_function_id api (pr_module p) (mo_name f)) ` set (pr_functions p)"
proof -
  have "bt_lookup (bt_of_list kvs) = map_of (rev kvs)" for kvs :: "(string \<times> string) list"
    by (rule ext) (rule bt_lookup_of_list)
  then show ?thesis by (simp add: function_names_def set_bt_keys dom_map_of_conv_image_fst image_image)
qed

text \<open>C17: Whatever the kernel returns, the neighbours a direct graph query answers are functions of
  the snapshot's program joined to the subject by a call operation of an elaborated body, each listed
  once, in the order of their identities; the other direction stays empty.\<close>

theorem graph_query_sound:
  "case (fst (snapshot pf uri (snd q)), fst (graph_query pf np uri identity outgoing q)) of
     (Inr a, Inr r) \<Rightarrow>
       sorted_wrt (<) (answer_neighbours outgoing r) \<and> answer_neighbours (\<not> outgoing) r = [] \<and>
       set (answer_neighbours outgoing r) \<subseteq> call_neighbours (tl_model (pf_tools pf)) a outgoing identity
   | _ \<Rightarrow> True"
proof -
  let ?api = "tl_model (pf_tools pf)"
  have "sorted_wrt (<) (answer_neighbours outgoing r) \<and> answer_neighbours (\<not> outgoing) r = [] \<and>
      set (answer_neighbours outgoing r) \<subseteq> call_neighbours ?api a outgoing identity"
    if a: "fst (snapshot pf uri (snd q)) = Inr a" and r: "fst (graph_query pf np uri identity outgoing q) = Inr r" for a r
  proof (cases "fe_program (da_front_end a)")
    case None
    then show ?thesis using a r
      by (auto simp: graph_query_def on_service_def answer_neighbours_def split: prod.splits)
  next
    case (Some p)
    let ?keys = "bt_keys (function_names ?api p)"
    let ?cands = "neighbor_ranks ?keys outgoing identity (raw_function_call_edges ?api p)"
    obtain sv where sv: "snapshot pf uri (snd q) = (Inr a, sv)" using a by (cases "snapshot pf uri (snd q)") auto
    obtain res cache st where t: "target_ranks (pf_env pf) (pf_process pf) (pf_tools pf) np
        (rank_of ?keys identity \<noteq> None) ?cands (fst q, sy_store sv) = (res, cache, st)" by (metis prod_cases3)
    then obtain ranks where res: "res = Inr ranks" using r sv Some
      by (cases res) (auto simp: graph_query_def on_service_def on_relation_def Let_def)
    have ranks: "fst (target_ranks (pf_env pf) (pf_process pf) (pf_tools pf) np
        (rank_of ?keys identity \<noteq> None) ?cands (fst q, sy_store sv)) = Inr ranks" using t res by simp
    have r': "answer_neighbours outgoing r = map gt_identity (graph_targets ?keys (function_names ?api p) ranks)"
      "answer_neighbours (\<not> outgoing) r = []"
      using r sv Some t res
      by (auto simp: graph_query_def on_service_def on_relation_def answer_neighbours_def Let_def)
    note sound = target_ranks_sound [OF ranks]
    have in_edges: "x < length ?keys \<and> (if outgoing then (identity, ?keys ! x) else (?keys ! x, identity)) \<in>
        set (raw_function_call_edges ?api p)" if "x \<in> set ranks" for x
      using neighbor_ranks_edge [of x ?keys outgoing identity] sound that by blast
    then have sub: "set (map (\<lambda>x. ?keys ! x) ranks) \<subseteq> call_neighbours ?api a outgoing identity"
      unfolding call_neighbours_def Some option.case function_names_keys [symmetric]
      by (auto split: if_splits)
    have ids: "map gt_identity (graph_targets ?keys (function_names ?api p) ranks) = map (\<lambda>x. ?keys ! x) ranks \<and>
        sorted_wrt (<) (map gt_identity (graph_targets ?keys (function_names ?api p) ranks))"
      by (rule graph_targets_identities [OF bt_keys_sorted]) (use sound in_edges in blast)+
    show ?thesis unfolding r'
      by (intro conjI) (rule ids [THEN conjunct2], rule refl, use ids sub in argo)
  qed
  then show ?thesis by (auto split: sum.splits)
qed

end
