(* ===== verification/Symbol_Queries.thy ===== *)
theory Symbol_Queries
  imports Relation_Queries
begin

text \<open>
  The document and position queries of \<open>queries.rs\<close>: workspace status, diagnostics, the subjects at
  a position, definitions, references, the symbol tree, obligations and descriptions. A response
  carries its status, the snapshot it was computed from and a payload.
\<close>

record 'a response =
  rs_status :: response_status
  rs_snapshot :: "snapshot_info option"
  rs_payload :: 'a

definition respond :: "string \<Rightarrow> document_analysis \<Rightarrow> response_status \<Rightarrow> 'a \<Rightarrow> 'a response" where
  "respond uri a status payload =
     \<lparr>rs_status = status, rs_snapshot = Some (make_snapshot_info uri a), rs_payload = payload\<rparr>"

definition offset_at :: "platform \<Rightarrow> document_analysis \<Rightarrow> nat \<Rightarrow> nat \<Rightarrow> nat" where
  "offset_at pf a line character = tl_offset (pf_tools pf) (analysis_text a) line character"

definition range_at :: "platform \<Rightarrow> document_analysis \<Rightarrow> source_span \<Rightarrow> range_info" where
  "range_at pf a span = tl_range (pf_tools pf) (analysis_text a) span"

definition summary_at :: "platform \<Rightarrow> string \<Rightarrow> document_analysis \<Rightarrow> nat \<Rightarrow> symbol_summary" where
  "summary_at pf uri a i = summarize (pf_tools pf) uri a i"

text \<open>A query that starts from the snapshot of a document.\<close>

definition with_snapshot ::
  "platform \<Rightarrow> string \<Rightarrow> (document_analysis \<Rightarrow> service \<Rightarrow> (service_error + 'a) \<times> service) \<Rightarrow> service
     \<Rightarrow> (service_error + 'a) \<times> service" where
  "with_snapshot pf uri f sv =
     (case snapshot pf uri sv of (Inl e, sv) \<Rightarrow> (Inl e, sv) | (Inr a, sv) \<Rightarrow> f a sv)"

section \<open>Workspace status\<close>

record document_status =
  dt_uri :: string
  dt_open :: bool
  dt_version :: "int option"
  dt_analyzed :: "string option"
  dt_current :: bool
  dt_valid :: bool
  dt_diagnostics :: nat

record workspace_status =
  wt_stream :: string
  wt_root :: "string option"
  wt_generation :: nat
  wt_cursor :: nat
  wt_documents :: "document_status list"

text \<open>\<open>valid\<close> is \<open>is_valid\<close> of the front end result.\<close>

definition document_status_entry ::
  "platform \<Rightarrow> (front_end \<Rightarrow> bool) \<Rightarrow> string \<Rightarrow> service \<Rightarrow> document_status \<times> service" where
  "document_status_entry pf valid uri sv =
     (let opened = (case is_open uri (sy_store sv) of Inl _ \<Rightarrow> False | Inr b \<Rightarrow> b);
          version = (case buffer_version uri (sy_store sv) of Inl _ \<Rightarrow> None | Inr v \<Rightarrow> v);
          entry = (\<lambda>analyzed current ok count.
            \<lparr>dt_uri = uri, dt_open = opened, dt_version = version, dt_analyzed = analyzed, dt_current = current,
             dt_valid = ok, dt_diagnostics = count\<rparr>)
      in case bt_lookup (sy_analyses sv) uri of
           None \<Rightarrow> (entry None False False 0, sv)
         | Some a \<Rightarrow>
             (case content_fingerprint pf uri sv of
                (fingerprint, sv) \<Rightarrow>
                  (entry (Some (da_identity a)) (fingerprint = Inr (da_identity a)) (valid (da_front_end a))
                     (length (fe_diagnostics (da_front_end a))), sv)))"

fun status_entries ::
  "platform \<Rightarrow> (front_end \<Rightarrow> bool) \<Rightarrow> string list \<Rightarrow> service \<Rightarrow> document_status list \<times> service" where
  "status_entries pf valid [] sv = ([], sv)"
| "status_entries pf valid (uri # uris) sv =
     (case document_status_entry pf valid uri sv of
        (entry, sv) \<Rightarrow> (case status_entries pf valid uris sv of (entries, sv) \<Rightarrow> (entry # entries, sv)))"

definition query_workspace_status :: "platform \<Rightarrow> (front_end \<Rightarrow> bool) \<Rightarrow> service \<Rightarrow> workspace_status \<times> service" where
  "query_workspace_status pf valid sv =
     (case status_entries pf valid (document_uris (sy_store sv)) sv of
        (entries, sv) \<Rightarrow>
          (\<lparr>wt_stream = hub_stream (sy_hub sv), wt_root = ds_root (sy_store sv),
            wt_generation = ds_generation (sy_store sv), wt_cursor = hub_next (sy_hub sv),
            wt_documents = sort_key dt_uri entries\<rparr>, sv))"

section \<open>Diagnostics\<close>

record related_item =
  rl_code :: string
  rl_message :: string
  rl_uri :: "string option"
  rl_range :: "range_info option"

record diagnostic_item =
  di_code :: string
  di_stage :: string
  di_severity :: string
  di_message :: string
  di_range :: range_info
  di_expected :: "string list"
  di_found :: "string option"
  di_related :: "related_item list"

text \<open>The module a \<open>use\<close> span names: the bare name, or the whole line.\<close>

definition parse_use_target :: "string \<Rightarrow> string option" where
  "parse_use_target t =
     (let trimmed = trim t;
          rest = trim (case strip_prefix trimmed ''use'' of None \<Rightarrow> trimmed | Some r \<Rightarrow> r);
          rest = trim (case strip_suffix rest '';'' of None \<Rightarrow> rest | Some r \<Rightarrow> r)
      in if valid_module_name rest then Some rest else None)"

definition project_leaf ::
  "platform \<Rightarrow> string \<Rightarrow> source_span \<Rightarrow> document_store \<Rightarrow> range_info option \<times> document_store" where
  "project_leaf pf uri span st =
     (case content (pf_env pf) uri st of
        (Inl _, st) \<Rightarrow> (None, st)
      | (Inr t, st) \<Rightarrow>
          (if sp_start span > length t \<or> sp_end span > length t then None else Some (tl_range (pf_tools pf) t span), st))"

fun project_leaves ::
  "platform \<Rightarrow> string \<Rightarrow> leaf_diagnostic list \<Rightarrow> document_store \<Rightarrow> related_item list \<times> document_store" where
  "project_leaves pf uri [] st = ([], st)"
| "project_leaves pf uri (leaf # leaves) st =
     (case project_leaf pf uri (lf_span leaf) st of
        (rng, st) \<Rightarrow>
          (case project_leaves pf uri leaves st of
             (items, st) \<Rightarrow>
               (\<lparr>rl_code = lf_code leaf, rl_message = lf_message leaf, rl_uri = Some uri, rl_range = rng\<rparr> # items, st)))"

text \<open>The document that owns the leaf spans of an outer diagnostic.\<close>

definition dependency_uri ::
  "platform \<Rightarrow> document_analysis \<Rightarrow> source_diagnostic \<Rightarrow> document_store \<Rightarrow> string option \<times> document_store" where
  "dependency_uri pf a outer st =
     (case Option.bind (slice (analysis_text a) (sp_start (dg_span outer)) (sp_end (dg_span outer))) parse_use_target of
        None \<Rightarrow> (None, st)
      | Some m \<Rightarrow>
          (case store_resolve (pf_env pf) (pf_process pf) (pf_tools pf) m st of
             (e, st) \<Rightarrow> (map_option en_logical e, st)))"

definition render_related ::
  "platform \<Rightarrow> document_analysis \<Rightarrow> source_diagnostic \<Rightarrow> document_store \<Rightarrow> related_item list \<times> document_store" where
  "render_related pf a outer st =
     (if dg_related outer = [] then ([], st)
      else case dependency_uri pf a outer st of
             (Some uri, st) \<Rightarrow> project_leaves pf uri (dg_related outer) st
           | (None, st) \<Rightarrow>
               (map (\<lambda>leaf. \<lparr>rl_code = lf_code leaf, rl_message = lf_message leaf, rl_uri = None, rl_range = None\<rparr>)
                  (dg_related outer), st))"

fun render_diagnostics ::
  "platform \<Rightarrow> document_analysis \<Rightarrow> source_diagnostic list \<Rightarrow> document_store \<Rightarrow> diagnostic_item list \<times> document_store" where
  "render_diagnostics pf a [] st = ([], st)"
| "render_diagnostics pf a (d # ds) st =
     (let lower = tl_lowercase (pf_tools pf)
      in case render_related pf a d st of
           (related, st) \<Rightarrow>
             (case render_diagnostics pf a ds st of
                (items, st) \<Rightarrow>
                  (\<lparr>di_code = dg_code d, di_stage = lower (dg_stage d), di_severity = lower (dg_severity d),
                    di_message = dg_message d, di_range = range_at pf a (dg_span d),
                    di_expected = map lower (dg_expected d), di_found = map_option lower (dg_found d),
                    di_related = related\<rparr> # items, st)))"

definition document_diagnostics ::
  "platform \<Rightarrow> string \<Rightarrow> service \<Rightarrow> (service_error + diagnostic_item list response) \<times> service" where
  "document_diagnostics pf uri =
     with_snapshot pf uri (\<lambda>a sv.
       case on_store (render_diagnostics pf a (fe_diagnostics (da_front_end a))) sv of
         (items, sv) \<Rightarrow> (Inr (respond uri a Answered items), sv))"

section \<open>Positions\<close>

datatype occurrence_role = DeclarationSite | ReferenceSite

record occurrence =
  oc_role :: occurrence_role
  oc_target :: "symbol_summary option"
  oc_range :: "range_info option"
  oc_symbol :: symbol_summary

definition occurrences_at :: "platform \<Rightarrow> string \<Rightarrow> document_analysis \<Rightarrow> nat \<Rightarrow> occurrence list" where
  "occurrences_at pf uri a byte =
     (case declaration_at (da_symbols a) byte of
        None \<Rightarrow> []
      | Some i \<Rightarrow> [\<lparr>oc_role = DeclarationSite, oc_target = None, oc_range = None, oc_symbol = summary_at pf uri a i\<rparr>]) @
     List.map_filter (\<lambda>r. map_option (\<lambda>target.
         \<lparr>oc_role = ReferenceSite, oc_target = Some (summary_at pf uri a target),
          oc_range = Some (range_at pf a (re_occurrence r)), oc_symbol = summary_at pf uri a target\<rparr>) (re_target r))
       (references_at (da_symbols a) byte)"

definition no_subject :: "nat \<Rightarrow> nat \<Rightarrow> string" where
  "no_subject line character =
     ''no resolved semantic subject at '' @ show_nat line @ '':'' @ show_nat character @
     ''; the position may hold trivia or an unresolved identifier''"

definition subjects_at ::
  "platform \<Rightarrow> string \<Rightarrow> nat \<Rightarrow> nat \<Rightarrow> service \<Rightarrow> (service_error + occurrence list response) \<times> service" where
  "subjects_at pf uri line character =
     with_snapshot pf uri (\<lambda>a sv.
       let found = occurrences_at pf uri a (offset_at pf a line character)
       in (Inr (respond uri a (if found = [] then StUnresolved (no_subject line character) else Answered) found), sv))"

definition primary_symbol_index :: "document_analysis \<Rightarrow> nat \<Rightarrow> nat option" where
  "primary_symbol_index a byte =
     (let first = (case references_at (da_symbols a) byte of [] \<Rightarrow> None | r # _ \<Rightarrow> re_target r)
      in if first \<noteq> None then first else declaration_at (da_symbols a) byte)"

section \<open>Declarations across documents\<close>

definition declaration_key_at :: "source_span \<Rightarrow> symbol_kind \<Rightarrow> string \<Rightarrow> declaration_key" where
  "declaration_key_at d kind n = DeclarationKey (sp_start d) (sp_end d) (sp_line d) (sp_column d) kind n"

text \<open>The symbols the index holds for a key, those of another identity left out.\<close>

definition indexed_symbols :: "workspace_index \<Rightarrow> declaration_key \<Rightarrow> string option \<Rightarrow> symbol_summary list" where
  "indexed_symbols ix key identity =
     dedup (sort_key ss_uri
       (filter (\<lambda>s. identity = None \<or> ss_identity s = identity)
         (List.map_filter (symbol_at ix) (lookup_declarations key ix))))"

definition symbols_matching ::
  "platform \<Rightarrow> source_span \<Rightarrow> symbol_kind \<Rightarrow> string \<Rightarrow> string option \<Rightarrow> service \<Rightarrow> symbol_summary list \<times> service" where
  "symbols_matching pf d kind n identity sv =
     (case ensure_workspace_entries pf sv of
        (_, sv) \<Rightarrow> (indexed_symbols (sy_index sv) (declaration_key_at d kind n) identity, sv))"

definition targets_for_reference ::
  "platform \<Rightarrow> string \<Rightarrow> document_analysis \<Rightarrow> reference_entry \<Rightarrow> service \<Rightarrow> symbol_summary list \<times> service" where
  "targets_for_reference pf uri a r sv =
     (let here = map_option (summary_at pf uri a) (re_target r);
          n = (case here of None \<Rightarrow> re_target_name r | Some s \<Rightarrow> ss_name s)
      in case symbols_matching pf (re_declaration r) (re_kind r) n (Option.bind here ss_identity) sv of
           (matches, sv) \<Rightarrow> (if matches = [] then (case here of None \<Rightarrow> [] | Some s \<Rightarrow> [s]) else matches, sv))"

fun reference_targets ::
  "platform \<Rightarrow> string \<Rightarrow> document_analysis \<Rightarrow> reference_entry list \<Rightarrow> service \<Rightarrow> symbol_summary list \<times> service" where
  "reference_targets pf uri a [] sv = ([], sv)"
| "reference_targets pf uri a (r # rs) sv =
     (case targets_for_reference pf uri a r sv of
        (found, sv) \<Rightarrow> (case reference_targets pf uri a rs sv of (others, sv) \<Rightarrow> (found @ others, sv)))"

definition declaration_targets ::
  "platform \<Rightarrow> string \<Rightarrow> document_analysis \<Rightarrow> nat \<Rightarrow> service \<Rightarrow> symbol_summary list \<times> service" where
  "declaration_targets pf uri a byte sv =
     (let declared = (case declaration_at (da_symbols a) byte of None \<Rightarrow> [] | Some i \<Rightarrow> [summary_at pf uri a i])
      in case reference_targets pf uri a (references_at (da_symbols a) byte) sv of
           (targets, sv) \<Rightarrow> (dedup (sort_key (\<lambda>s. (ri_start_byte (ss_range s), ss_name s)) (declared @ targets)), sv))"

definition definition_query ::
  "platform \<Rightarrow> string \<Rightarrow> nat \<Rightarrow> nat \<Rightarrow> service \<Rightarrow> (service_error + symbol_summary list response) \<times> service" where
  "definition_query pf uri line character =
     with_snapshot pf uri (\<lambda>a sv.
       case declaration_targets pf uri a (offset_at pf a line character) sv of
         (targets, sv) \<Rightarrow>
           (Inr (respond uri a
              (if targets = [] then StUnresolved ''position does not resolve to a declaration'' else Answered) targets), sv))"

section \<open>References\<close>

record reference_hit =
  rh_uri :: string
  rh_declaration :: bool
  rh_range :: range_info
  rh_name_range :: range_info
  rh_kind :: symbol_kind
  rh_name :: string
  rh_container :: "string option"

record reference_subject =
  rj_span :: source_span
  rj_kind :: symbol_kind
  rj_name :: string
  rj_summary :: "symbol_summary option"

definition reference_subject_at :: "platform \<Rightarrow> string \<Rightarrow> document_analysis \<Rightarrow> nat \<Rightarrow> reference_subject option" where
  "reference_subject_at pf uri a byte =
     (case references_at (da_symbols a) byte of
        r # _ \<Rightarrow>
          (let summary = map_option (summary_at pf uri a) (re_target r)
           in Some \<lparr>rj_span = re_declaration r, rj_kind = re_kind r,
                    rj_name = (case summary of None \<Rightarrow> re_target_name r | Some s \<Rightarrow> ss_name s), rj_summary = summary\<rparr>)
      | [] \<Rightarrow>
          map_option (\<lambda>i.
            \<lparr>rj_span = se_name_span (si_symbols (da_symbols a) ! i), rj_kind = se_kind (si_symbols (da_symbols a) ! i),
             rj_name = ss_name (summary_at pf uri a i), rj_summary = Some (summary_at pf uri a i)\<rparr>)
            (declaration_at (da_symbols a) byte))"

definition declaration_hit :: "string \<Rightarrow> symbol_summary \<Rightarrow> reference_hit" where
  "declaration_hit uri s =
     \<lparr>rh_uri = (case ss_uri s of None \<Rightarrow> uri | Some u \<Rightarrow> u), rh_declaration = True, rh_range = ss_range s,
      rh_name_range = ss_name_range s, rh_kind = ss_kind s, rh_name = ss_name s, rh_container = ss_container s\<rparr>"

definition occurrence_hit :: "symbol_kind \<Rightarrow> string \<Rightarrow> indexed_occurrence \<Rightarrow> reference_hit" where
  "occurrence_hit kind n io =
     \<lparr>rh_uri = io_uri io, rh_declaration = False, rh_range = io_range io, rh_name_range = io_range io,
      rh_kind = kind, rh_name = n, rh_container = None\<rparr>"

definition occurrence_key_at :: "source_span \<Rightarrow> symbol_kind \<Rightarrow> string \<Rightarrow> occurrence_key" where
  "occurrence_key_at d kind n = OccurrenceKey (sp_start d) (sp_end d) (sp_line d) (sp_column d) kind (Some n)"

definition references ::
  "platform \<Rightarrow> string \<Rightarrow> nat \<Rightarrow> nat \<Rightarrow> bool \<Rightarrow> service \<Rightarrow> (service_error + reference_hit list response) \<times> service" where
  "references pf uri line character include_declaration =
     with_snapshot pf uri (\<lambda>a sv.
       case reference_subject_at pf uri a (offset_at pf a line character) of
         None \<Rightarrow> (Inr (respond uri a (StUnresolved ''no resolved symbol at position'') []), sv)
       | Some j \<Rightarrow>
           (case symbols_matching pf (rj_span j) (rj_kind j) (rj_name j) (Option.bind (rj_summary j) ss_identity) sv of
              (matches, sv) \<Rightarrow>
                let declarations =
                      (if matches = [] then (case rj_summary j of None \<Rightarrow> [] | Some s \<Rightarrow> [s]) else matches);
                    (_, sv) = ensure_workspace_entries pf sv;
                    found = lookup_occurrences (occurrence_key_at (rj_span j) (rj_kind j) (rj_name j)) (sy_index sv);
                    hits = (if include_declaration then map (declaration_hit uri) declarations else []) @
                           map (occurrence_hit (rj_kind j) (rj_name j)) found
                in (Inr (respond uri a Answered
                     (sort_key (\<lambda>h. (rh_uri h, ri_start_byte (rh_range h))) hits)), sv)))"

definition highlights ::
  "platform \<Rightarrow> string \<Rightarrow> nat \<Rightarrow> nat \<Rightarrow> service \<Rightarrow> (service_error + range_info list response) \<times> service" where
  "highlights pf uri line character sv =
     (case references pf uri line character True sv of
        (Inl e, sv) \<Rightarrow> (Inl e, sv)
      | (Inr r, sv) \<Rightarrow>
          (Inr \<lparr>rs_status = rs_status r, rs_snapshot = rs_snapshot r, rs_payload = map rh_range (rs_payload r)\<rparr>, sv))"

end
