(* ===== verification/Native_Filter.thy ===== *)
theory Native_Filter
  imports Relation_Kernel
begin

text \<open>
  \<open>native_filter.rs\<close> and \<open>native_query.rs\<close>: the kernels that count symbol kinds, match names in
  bounded batches and summarise obligation statuses. As for the relation kernel, the compiler and
  the backend are fields of \<^typ>\<open>native_platform\<close>, one value of it per kernel source, and every
  answer is decoded and checked before it is used.
\<close>

section \<open>Preparation\<close>

text \<open>The modules a kernel imports, resolved in order; the first that fails ends the preparation.\<close>

fun resolve_dependencies ::
  "environment \<Rightarrow> process_env \<Rightarrow> toolchain \<Rightarrow> string list \<Rightarrow> document_store
     \<Rightarrow> (native_error + (string \<times> string) list) \<times> document_store" where
  "resolve_dependencies env px tc [] st = (Inr [], st)"
| "resolve_dependencies env px tc (m # ms) st =
     (case store_resolve env px tc m st of
        (None, st) \<Rightarrow> (Inl (KernelUnavailable (''requires MNCS_LIBRARY_PATH to resolve '' @ m)), st)
      | (Some e, st) \<Rightarrow>
          (case resolve_dependencies env px tc ms st of
             (Inl err, st) \<Rightarrow> (Inl err, st)
           | (Inr rest, st) \<Rightarrow> (Inr ((m, en_identity e) # rest), st)))"

definition filter_prepare_kernel ::
  "environment \<Rightarrow> process_env \<Rightarrow> toolchain \<Rightarrow> native_platform \<Rightarrow> string \<Rightarrow> string \<Rightarrow> (string, string) btree
     \<Rightarrow> document_store \<Rightarrow> (native_error + kernel) \<times> document_store" where
  "filter_prepare_kernel env px tc np uri source_identity dependencies st =
     (case run_compilation (store_resolve env px tc) (tl_compile tc (envelope env tc uri (np_source np))) st of
        (fe, st) \<Rightarrow>
          (if \<not> np_valid np fe then Inl (KernelUnavailable ''kernel source is unsupported'')
           else case fe_program fe of
             None \<Rightarrow> Inl (KernelUnavailable ''kernel did not produce a valid authoritative program'')
           | Some program \<Rightarrow>
               (case np_emit np program of
                  Inl reason \<Rightarrow> Inl (KernelUnavailable reason)
                | Inr em \<Rightarrow>
                    if em_backend em \<noteq> np_backend_name np \<or> \<not> em_identity_valid em \<or> \<not> em_passed em
                    then Inl (KernelUnavailable ''backend artifact failed identity/status validation'')
                    else Inr \<lparr>k_source_identity = source_identity, k_dependencies = dependencies,
                      k_record_types = em_record_types em, k_finite_types = em_finite_types em,
                      k_backend_name = em_backend em, k_artifact_identity = em_identity em\<rparr>), st))"

definition filter_kernel ::
  "environment \<Rightarrow> process_env \<Rightarrow> toolchain \<Rightarrow> native_platform \<Rightarrow> string \<Rightarrow> string list \<Rightarrow> relation_state
     \<Rightarrow> (native_error + kernel) \<times> relation_state" where
  "filter_kernel env px tc np uri modules s =
     (case s of (cache, st) \<Rightarrow>
        let source = en_identity (envelope env tc uri (np_source np))
        in case resolve_dependencies env px tc modules st of
             (Inl e, st) \<Rightarrow> (Inl e, cache, st)
           | (Inr resolved, st) \<Rightarrow>
               let dependencies = bt_of_list resolved;
                   fresh = (\<lambda>k. k_source_identity k = source \<and> k_dependencies k = dependencies)
               in (case find fresh (case cache of None \<Rightarrow> [] | Some k \<Rightarrow> [k]) of
                     Some k \<Rightarrow> (Inr k, cache, st)
                   | None \<Rightarrow>
                       (case filter_prepare_kernel env px tc np uri source dependencies st of
                          (Inl e, st) \<Rightarrow> (Inl e, cache, st)
                        | (Inr prepared, st) \<Rightarrow> (Inr prepared, Some prepared, st))))"

section \<open>Kind counting\<close>

definition filter_module :: string where "filter_module = ''mncs.core.sequences.v1''"
definition text_scan_module :: string where "text_scan_module = ''mncs.std.text_scan.v1''"
definition bytes_module :: string where "bytes_module = ''mncs.core.bytes.v1''"
definition filter_query_module :: string where "filter_query_module = ''mncs.language_service.filter_query.v1''"
definition filter_query_uri :: string where "filter_query_uri = ''mncs://language-service/filter-query.mncs''"
definition filter_modules :: "string list" where "filter_modules = [filter_module, text_scan_module, bytes_module]"

definition max_filter_tags :: nat where "max_filter_tags = 8"
definition max_text_match_items :: nat where "max_text_match_items = 64"
definition max_text_match_bytes :: nat where "max_text_match_bytes = 64"
definition max_symbol_scan_work :: nat where
  "max_symbol_scan_work = (max_text_match_items div 8) * (max_text_match_bytes + 1) * max_text_match_bytes"
definition max_prefix_scan_work :: nat where
  "max_prefix_scan_work = max_text_match_items * max_text_match_bytes"
definition filter_step_budget :: nat where "filter_step_budget = 100000"
definition text_step_budget :: nat where "text_step_budget = 1000000"
definition filter_padding_tag :: int where "filter_padding_tag = -1"

lemmas filter_consts = max_filter_tags_def max_text_match_items_def max_text_match_bytes_def
  max_symbol_scan_work_def max_prefix_scan_work_def filter_padding_tag_def

record filter_summary =
  fi_backend :: string
  fi_source :: string
  fi_dependency :: string
  fi_dependencies :: "(string, string) btree"
  fi_artifact :: string
  fi_input :: "int list"
  fi_wanted :: int
  fi_reference :: nat
  fi_native :: nat
  fi_valid :: bool

definition integer_argument :: "int \<Rightarrow> exec_value" where
  "integer_argument v = EvInteger v 64 True"

definition integer_result :: "exec_value \<Rightarrow> native_error + int" where
  "integer_result value =
     (case value of
        EvInteger v bits sgd \<Rightarrow>
          if \<not> (bits = 64 \<and> sgd) then Inl (WrongIntegerType [])
          else if - (2 ^ 63) \<le> v \<and> v < 2 ^ 63 then Inr v else Inl (OutOfRange [])
      | _ \<Rightarrow> Inl (NotAnInteger []))"

definition padded_tags :: "int list \<Rightarrow> int list" where
  "padded_tags tags = tags @ replicate (max_filter_tags - length tags) filter_padding_tag"

definition execute_count_matching ::
  "environment \<Rightarrow> process_env \<Rightarrow> toolchain \<Rightarrow> native_platform \<Rightarrow> int list \<Rightarrow> int \<Rightarrow> relation_state
     \<Rightarrow> (native_error + filter_summary) \<times> relation_state" where
  "execute_count_matching env px tc np tags wanted s =
     (if length tags > max_filter_tags then (Inl InputTooLarge, s)
      else if filter_padding_tag \<in> set tags then (Inl PaddingCollision, s)
      else
        case filter_kernel env px tc np filter_query_uri filter_modules s of
          (Inl e, s) \<Rightarrow> (Inl e, s)
        | (Inr k, s) \<Rightarrow>
            (bind_result
               (single_result (np_backend np k filter_query_module ''count_matching''
                  [EvSequence (map integer_argument (padded_tags tags)), integer_argument wanted] filter_step_budget))
               (\<lambda>out. bind_result (integer_result out) (\<lambda>count.
                  case bt_lookup (k_dependencies k) filter_module of
                    None \<Rightarrow> Inl LostDependency
                  | Some dependency \<Rightarrow>
                      Inr \<lparr>fi_backend = k_backend_name k, fi_source = k_source_identity k, fi_dependency = dependency,
                           fi_dependencies = k_dependencies k, fi_artifact = k_artifact_identity k,
                           fi_input = padded_tags tags, fi_wanted = wanted,
                           fi_reference = length (filter (\<lambda>t. t = wanted) tags), fi_native = nat (max count 0),
                           fi_valid = True\<rparr>)), s))"

section \<open>Text matching\<close>

datatype match_kind = Contains | PrefixMatch

fun match_function :: "match_kind \<Rightarrow> string" where
  "match_function Contains = ''match_names''"
| "match_function PrefixMatch = ''match_prefixes''"

fun match_max_work :: "match_kind \<Rightarrow> nat" where
  "match_max_work Contains = max_symbol_scan_work"
| "match_max_work PrefixMatch = max_prefix_scan_work"

definition sat_mul64 :: "nat \<Rightarrow> nat \<Rightarrow> nat" where
  "sat_mul64 a b = min (a * b) u64_max"

fun scan_work :: "match_kind \<Rightarrow> string \<Rightarrow> nat" where
  "scan_work Contains n = sat_mul64 (sat_add64 (length n) 1) max_text_match_bytes"
| "scan_work PrefixMatch n = max_text_match_bytes"

text \<open>What the match function of a kind decides for one name.\<close>

fun text_matches :: "match_kind \<Rightarrow> string \<Rightarrow> string \<Rightarrow> bool" where
  "text_matches Contains needle n \<longleftrightarrow> contains_str n needle"
| "text_matches PrefixMatch needle n \<longleftrightarrow> starts_with n needle"

record text_match =
  tm_backend :: string
  tm_source :: string
  tm_dependency :: string
  tm_dependencies :: "(string, string) btree"
  tm_artifact :: string
  tm_count :: nat
  tm_matched :: "bool list"
  tm_matched_count :: nat
  tm_valid :: bool

definition byte_view_argument :: "string \<Rightarrow> exec_value" where
  "byte_view_argument bs = EvSequence (map (\<lambda>b. EvByte (int (byte_of b))) bs)"

definition fixed_byte_argument :: "string \<Rightarrow> nat \<Rightarrow> exec_value" where
  "fixed_byte_argument bs width =
     EvSequence (map (\<lambda>b. EvByte (int (byte_of b))) bs @ replicate (width - length bs) (EvByte 0))"

text \<open>The envelope of one call.\<close>

definition match_envelope :: "match_kind \<Rightarrow> string list \<Rightarrow> string \<Rightarrow> native_error option" where
  "match_envelope kind names needle =
     (if length names > max_text_match_items then Some InputTooLarge
      else if length needle > max_text_match_bytes then Some InputTooLarge
      else if list_ex (\<lambda>n. length n > max_text_match_bytes) names then Some InputTooLarge
      else if fold (\<lambda>n w. sat_add64 w (scan_work kind n)) names 0 > match_max_work kind then Some BoundExceeded
      else None)"

definition decode_text_match :: "kernel \<Rightarrow> string list \<Rightarrow> exec_value \<Rightarrow> native_error + text_match" where
  "decode_text_match k names value =
     bind_result (record_fields k value ''TextMatchResult'') (\<lambda>fds.
       if ev_name value \<noteq> ''TextMatchResult'' then Inl WrongShape
       else
     bind_result (bind_result (record_field fds ''matched'')
       (\<lambda>v. boolean_sequence_field v ''matched'' max_text_match_items)) (\<lambda>matched.
     bind_result (bind_result (record_field fds ''matched_count'') integer_result) (\<lambda>count.
     bind_result (bind_result (record_field fds ''valid'') (\<lambda>v. boolean_field v ''valid'')) (\<lambda>valid.
       if count < 0 then Inl (OutOfRange ''matched_count'')
       else if \<not> valid \<or> nat count \<noteq> length (filter id matched) \<or> nat count > length names then Inl InvalidResult
       else case bt_lookup (k_dependencies k) text_scan_module of
              None \<Rightarrow> Inl LostDependency
            | Some dependency \<Rightarrow>
                Inr \<lparr>tm_backend = k_backend_name k, tm_source = k_source_identity k, tm_dependency = dependency,
                     tm_dependencies = k_dependencies k, tm_artifact = k_artifact_identity k,
                     tm_count = length names, tm_matched = matched, tm_matched_count = nat count, tm_valid = valid\<rparr>))))"

definition match_arguments :: "string list \<Rightarrow> string \<Rightarrow> exec_value list" where
  "match_arguments names needle =
     [EvSequence (map byte_view_argument names), fixed_byte_argument needle max_text_match_bytes,
      EvByte (int (length needle))]"

definition execute_text_matches ::
  "environment \<Rightarrow> process_env \<Rightarrow> toolchain \<Rightarrow> native_platform \<Rightarrow> match_kind \<Rightarrow> string list \<Rightarrow> string
     \<Rightarrow> relation_state \<Rightarrow> (native_error + text_match) \<times> relation_state" where
  "execute_text_matches env px tc np kind names needle s =
     (case match_envelope kind names needle of
        Some e \<Rightarrow> (Inl e, s)
      | None \<Rightarrow>
          (case filter_kernel env px tc np filter_query_uri filter_modules s of
             (Inl e, s) \<Rightarrow> (Inl e, s)
           | (Inr k, s) \<Rightarrow>
               (bind_result
                  (single_result (np_backend np k filter_query_module (match_function kind)
                     (match_arguments names needle) text_step_budget))
                  (decode_text_match k names), s)))"

definition execute_symbol_matches ::
  "environment \<Rightarrow> process_env \<Rightarrow> toolchain \<Rightarrow> native_platform \<Rightarrow> string list \<Rightarrow> string \<Rightarrow> relation_state
     \<Rightarrow> (native_error + text_match) \<times> relation_state" where
  "execute_symbol_matches env px tc np = execute_text_matches env px tc np Contains"

definition execute_prefix_matches ::
  "environment \<Rightarrow> process_env \<Rightarrow> toolchain \<Rightarrow> native_platform \<Rightarrow> string list \<Rightarrow> string \<Rightarrow> relation_state
     \<Rightarrow> (native_error + text_match) \<times> relation_state" where
  "execute_prefix_matches env px tc np = execute_text_matches env px tc np PrefixMatch"

section \<open>Obligation statuses\<close>

definition status_module :: string where "status_module = ''mncs.core.status.v1''"
definition status_query_module :: string where "status_query_module = ''mncs.language_service.status_query.v1''"
definition status_query_function :: string where "status_query_function = ''summarize_obligations''"
definition status_query_uri :: string where "status_query_uri = ''mncs://language-service/status-query.mncs''"
definition max_obligations :: nat where "max_obligations = 8"
definition status_step_budget :: nat where "status_step_budget = 100000"

record status_summary =
  su_backend :: string
  su_source :: string
  su_dependency :: string
  su_artifact :: string
  su_input :: nat
  su_pass :: nat
  su_fail :: nat
  su_unknown :: nat
  su_observed :: nat
  su_dominant :: string
  su_valid :: bool

definition status_variant :: "string \<Rightarrow> native_error + string" where
  "status_variant status =
     (if status = ''pass'' then Inr ''PASS'' else if status = ''fail'' then Inr ''FAIL''
      else if status = ''unknown'' then Inr ''UNKNOWN'' else Inl (UnknownFunction status))"

definition finite_value :: "finite_type \<Rightarrow> string \<Rightarrow> native_error + exec_value" where
  "finite_value ft n =
     (case find (\<lambda>v. fst v = n) (ft_variants ft) of
        None \<Rightarrow> Inl (MissingField n) | Some (_, ident, d) \<Rightarrow> Inr (EvFinite (ft_identity ft) ident d))"

definition count_field :: "exec_value \<Rightarrow> string \<Rightarrow> native_error + nat" where
  "count_field value name =
     (case value of
        EvInteger v bits sgd \<Rightarrow>
          if \<not> (bits = 64 \<and> sgd) \<or> v < 0 then Inl (WrongIntegerType name)
          else if v \<le> int u64_max then Inr (nat v) else Inl (OutOfRange name)
      | _ \<Rightarrow> Inl (NotAnInteger name))"

text \<open>\<open>lower\<close> is the Unicode lowercase mapping.\<close>

definition status_field :: "(string \<Rightarrow> string) \<Rightarrow> kernel \<Rightarrow> exec_value \<Rightarrow> native_error + string" where
  "status_field lower k value =
     (case value of
        EvFinite ident variant d \<Rightarrow>
          (case find (\<lambda>ft. ft_identity ft = ident \<and> ft_name ft = ''Status'') (k_finite_types k) of
             None \<Rightarrow> Inl UnknownRecord
           | Some ft \<Rightarrow>
               (case find (\<lambda>v. fst (snd v) = variant) (ft_variants ft) of
                  None \<Rightarrow> Inl (MissingField variant) | Some v \<Rightarrow> Inr (lower (fst v))))
      | _ \<Rightarrow> Inl (MissingField ''status''))"

definition summary_record ::
  "(string \<Rightarrow> string) \<Rightarrow> kernel \<Rightarrow> exec_value \<Rightarrow> native_error + string \<times> nat \<times> nat \<times> nat \<times> nat \<times> bool" where
  "summary_record lower k value =
     bind_result (record_fields k value ''StatusSummary'') (\<lambda>fds.
     let count = (\<lambda>name. bind_result (record_field fds name) (\<lambda>v. count_field v name)) in
     bind_result (bind_result (record_field fds ''status'') (status_field lower k)) (\<lambda>status.
     bind_result (count ''pass_count'') (\<lambda>pass.
     bind_result (count ''fail_count'') (\<lambda>fail.
     bind_result (count ''unknown_count'') (\<lambda>unknown.
     bind_result (count ''observed_count'') (\<lambda>observed.
     bind_result (bind_result (record_field fds ''valid'') (\<lambda>v. boolean_field v ''valid'')) (\<lambda>valid.
       Inr (status, pass, fail, unknown, observed, valid))))))))"

definition execute_status_summary ::
  "environment \<Rightarrow> process_env \<Rightarrow> toolchain \<Rightarrow> native_platform \<Rightarrow> string list \<Rightarrow> relation_state
     \<Rightarrow> (native_error + status_summary) \<times> relation_state" where
  "execute_status_summary env px tc np statuses s =
     (if length statuses > max_obligations then (Inl InputTooLarge, s)
      else
        case filter_kernel env px tc np status_query_uri [status_module] s of
          (Inl e, s) \<Rightarrow> (Inl e, s)
        | (Inr k, s) \<Rightarrow>
            ((case find (\<lambda>ft. ft_name ft = ''Status'') (k_finite_types k) of
                None \<Rightarrow> Inl (KernelUnavailable ''kernel does not expose Status'')
              | Some ft \<Rightarrow>
                  bind_result (collect_results (\<lambda>s. bind_result (status_variant s) (finite_value ft)) statuses) (\<lambda>values.
                  bind_result (collect_results (\<lambda>_. finite_value ft ''UNKNOWN'')
                    (replicate (max_obligations - length values) ())) (\<lambda>padding.
                  bind_result (single_result (np_backend np k status_query_module status_query_function
                    [EvSequence (values @ padding), EvByte (int (length statuses))] status_step_budget)) (\<lambda>out.
                  bind_result (summary_record (tl_lowercase tc) k out) (\<lambda>(dominant, pass, fail, unknown, observed, valid).
                    case bt_lookup (k_dependencies k) status_module of
                      None \<Rightarrow> Inl LostDependency
                    | Some dependency \<Rightarrow>
                        Inr \<lparr>su_backend = k_backend_name k, su_source = k_source_identity k, su_dependency = dependency,
                             su_artifact = k_artifact_identity k, su_input = length statuses, su_pass = pass,
                             su_fail = fail, su_unknown = unknown, su_observed = observed, su_dominant = dominant,
                             su_valid = valid\<rparr>))))), s))"

text \<open>Any number of statuses, in windows of eight; no status still makes one call.\<close>

function status_windows :: "'a list \<Rightarrow> 'a list list" where
  "status_windows xs = (if xs = [] then [] else take max_obligations xs # status_windows (drop max_obligations xs))"
  by pat_completeness auto
termination by (relation "measure length") (auto simp: max_obligations_def)

declare status_windows.simps [simp del]

fun execute_status_windows ::
  "environment \<Rightarrow> process_env \<Rightarrow> toolchain \<Rightarrow> native_platform \<Rightarrow> string list list \<Rightarrow> relation_state
     \<Rightarrow> (native_error + status_summary list) \<times> relation_state" where
  "execute_status_windows env px tc np [] s = (Inr [], s)"
| "execute_status_windows env px tc np (window # windows) s =
     (case execute_status_summary env px tc np window s of
        (Inl e, s) \<Rightarrow> (Inl e, s)
      | (Inr summary, s) \<Rightarrow>
          (case execute_status_windows env px tc np windows s of
             (Inl e, s) \<Rightarrow> (Inl e, s) | (Inr summaries, s) \<Rightarrow> (Inr (summary # summaries), s)))"

definition execute_status_summaries ::
  "environment \<Rightarrow> process_env \<Rightarrow> toolchain \<Rightarrow> native_platform \<Rightarrow> string list \<Rightarrow> relation_state
     \<Rightarrow> (native_error + status_summary list) \<times> relation_state" where
  "execute_status_summaries env px tc np statuses =
     execute_status_windows env px tc np (if statuses = [] then [[]] else status_windows statuses)"

end
