(* ===== verification/Render.thy ===== *)
theory Render
  imports Symbol_Queries Native_Filter
begin

text \<open>
  \<open>render.rs\<close>: hover markdown, the classes of semantic tokens, and completion. The completion
  collector filters by prefix in bounded batches through the filter kernel; the rest is a function of
  the snapshot.
\<close>

definition completion_keywords :: "string list" where
  "completion_keywords =
     [''mncs'', ''module'', ''fn'', ''return'', ''let'', ''if'', ''else'', ''fail'', ''requires'', ''ensures'', ''assumes'',
      ''property'', ''invariant'', ''metamorphic'', ''effect'', ''capability'', ''authorized_by'', ''enum'', ''use'',
      ''record'', ''match'', ''iterate'', ''up_to'', ''carrying'', ''next'', ''over'', ''as'', ''while'', ''true'', ''false'']"

section \<open>Hover\<close>

definition newline :: string where "newline = [CHR 0x0A]"

definition fence :: "string \<Rightarrow> string" where
  "fence t = ''```mncs'' @ newline @ t @ newline @ ''```''"

definition quoted :: "string \<Rightarrow> string" where
  "quoted t = CHR 0x60 # t @ [CHR 0x60]"

definition parameters_text :: "ast_field list \<Rightarrow> string" where
  "parameters_text ps = join_str '', '' (map (\<lambda>p. an_text (af_name p) @ '': '' @ af_type p) ps)"

fun contract_kind_text :: "contract_kind \<Rightarrow> string" where
  "contract_kind_text CkRequires = ''requires''"
| "contract_kind_text CkEnsures = ''ensures''"
| "contract_kind_text CkInvariant = ''invariant''"
| "contract_kind_text CkPreserves = ''preserves''"
| "contract_kind_text CkBudget = ''budget''"
| "contract_kind_text CkProperty = ''property''"
| "contract_kind_text CkMetamorphic = ''metamorphic''"

definition ast_function_named :: "document_analysis \<Rightarrow> string \<Rightarrow> ast_function option" where
  "ast_function_named a n =
     Option.bind (fe_ast (da_front_end a)) (\<lambda>t. find (\<lambda>f. an_text (fn_name f) = n) (ast_functions t))"

definition signature_section :: "document_analysis \<Rightarrow> symbol_entry \<Rightarrow> string" where
  "signature_section a e =
     (let typed = (\<lambda>role. fence (role @ '' '' @ se_name e @ '': '' @ (case se_type_name e of None \<Rightarrow> ''?'' | Some t \<Rightarrow> t)))
      in case se_kind e of
           Module \<Rightarrow> fence (''module '' @ se_name e @ '';'')
         | Function \<Rightarrow>
             (case ast_function_named a (se_name e) of
                Some f \<Rightarrow> fence (''fn '' @ an_text (fn_name f) @ ''('' @ parameters_text (fn_inputs f) @ '') -> ('' @
                            parameters_text (fn_outputs f) @ '')'')
              | None \<Rightarrow> fence (''fn '' @ se_name e))
         | Parameter \<Rightarrow> typed ''param''
         | Binding \<Rightarrow> typed ''let''
         | IterationState \<Rightarrow> typed ''carried state''
         | FiniteType \<Rightarrow> fence (''enum '' @ se_name e)
         | RecordType \<Rightarrow> fence (''record '' @ se_name e)
         | FiniteVariant \<Rightarrow> quoted (se_name e) @ '' (finite variant)''
         | RecordField \<Rightarrow> quoted (se_name e) @ '': '' @ (case se_type_name e of None \<Rightarrow> ''?'' | Some t \<Rightarrow> t))"

text \<open>The section a declaration adds, from the syntax tree.\<close>

definition declaration_section :: "ast \<Rightarrow> symbol_entry \<Rightarrow> string list" where
  "declaration_section t e =
     (case se_kind e of
        FiniteType \<Rightarrow>
          (case find (\<lambda>d. an_text (ae_name d) = se_name e) (ast_finite_types t) of
             None \<Rightarrow> []
           | Some d \<Rightarrow> [fence (''enum '' @ an_text (ae_name d) @ '' { '' @
                          join_str '', '' (map an_text (ae_variants d)) @ '' }'')])
      | RecordType \<Rightarrow>
          (case find (\<lambda>d. an_text (am_name d) = se_name e) (ast_record_types t) of
             None \<Rightarrow> []
           | Some d \<Rightarrow> [fence (''record '' @ an_text (am_name d) @ '' { '' @ parameters_text (am_fields d) @ '' }'') @ newline @
                 ''*logical record identity orders fields by name; declaration order is not part of the type*''])
      | FiniteVariant \<Rightarrow>
          (case se_container e of None \<Rightarrow> [] | Some parent \<Rightarrow> [''variant of finite type '' @ quoted parent])
      | RecordField \<Rightarrow>
          (case (se_container e, se_type_name e) of
             (Some parent, Some ty) \<Rightarrow>
               [''field of record '' @ quoted parent @ '': '' @ quoted (se_name e) @ '': '' @ ty]
           | _ \<Rightarrow> [])
      | _ \<Rightarrow> [])"

text \<open>The em dash is three bytes of UTF-8.\<close>

definition em_dash :: string where "em_dash = [CHR 0xE2, CHR 0x80, CHR 0x94]"

definition contract_line :: "model_contract \<Rightarrow> string" where
  "contract_line c =
     ''- '' @ quoted (contract_kind_text (mc_kind c)) @ '' '' @ mc_id c @ '' '' @ em_dash @ '' '' @ quoted (mc_expression c)"

definition concerns :: "string \<Rightarrow> model_obligation \<Rightarrow> bool" where
  "concerns identity ob \<longleftrightarrow> ob_subject ob = identity \<or> identity \<in> set (ob_dependencies ob)"

definition status_count :: "obligation_status \<Rightarrow> model_obligation list \<Rightarrow> nat" where
  "status_count s obs = length (filter (\<lambda>ob. ob_status ob = s) obs)"

definition obligation_section :: "program \<Rightarrow> symbol_entry \<Rightarrow> string list" where
  "obligation_section p e =
     (case se_identity e of
        None \<Rightarrow> []
      | Some identity \<Rightarrow>
          let relevant = filter (concerns identity) (pr_obligations p)
          in if relevant = [] then []
             else [''**Obligations**: '' @ show_nat (status_count ObPass relevant) @ '' pass, '' @
                   show_nat (status_count ObFail relevant) @ '' fail, '' @
                   show_nat (status_count ObUnknown relevant) @ '' unknown''])"

definition semantic_sections :: "program \<Rightarrow> symbol_entry \<Rightarrow> string list" where
  "semantic_sections p e =
     (case find (\<lambda>f. mo_name f = se_name e) (pr_functions p) of
        None \<Rightarrow> []
      | Some f \<Rightarrow>
          (if mo_contracts f = [] then []
           else [''**Contracts**'' @ newline @ join_str newline (map contract_line (mo_contracts f))]) @
          (if mo_capabilities f = [] then [] else [''**Capabilities**: '' @ join_str '', '' (mo_capabilities f)]) @
          (if mo_effects f = [] then []
           else [''**Effects**: '' @
             join_str '', '' (map (\<lambda>x. me_kind x @ '' (authorized_by '' @ me_capability x @ '')'') (mo_effects f))]) @
          obligation_section p e)"

definition render_hover_markdown :: "document_analysis \<Rightarrow> nat \<Rightarrow> string" where
  "render_hover_markdown a target =
     (let e = si_symbols (da_symbols a) ! target
      in join_str (newline @ newline)
           ([signature_section a e] @
            (case fe_ast (da_front_end a) of None \<Rightarrow> [] | Some t \<Rightarrow> declaration_section t e) @
            (case fe_program (da_front_end a) of None \<Rightarrow> [] | Some p \<Rightarrow> semantic_sections p e) @
            (case se_identity e of None \<Rightarrow> [] | Some i \<Rightarrow> [''*identity*: '' @ quoted i])))"

section \<open>Semantic tokens\<close>

datatype token_class =
  ModuleToken | FunctionToken | ParameterToken | VariableToken | TypeToken | VariantToken | FieldToken
  | KeywordToken | NumberToken

record token_annotation =
  ta_line :: nat
  ta_character :: nat
  ta_length :: nat
  ta_class :: token_class

definition significant_tokens :: "document_analysis \<Rightarrow> source_token list" where
  "significant_tokens a = filter (\<lambda>t. \<not> tk_trivia t) (fe_tokens (da_front_end a))"

definition keyword_tokens :: "token_kind list" where
  "keyword_tokens =
     [MncsKeyword, ModuleKeyword, FunctionKeyword, ReturnKeyword, LetKeyword, IfKeyword, ElseKeyword, FailKeyword,
      RequiresKeyword, EnsuresKeyword, AssumesKeyword, PropertyKeyword, InvariantKeyword, MetamorphicKeyword,
      EffectKeyword, CapabilityKeyword, AuthorizedKeyword, EnumKeyword, UseKeyword, RecordKeyword, MatchKeyword,
      IterateKeyword, UpToKeyword, CarryingKeyword, NextKeyword, OverKeyword, AsKeyword, WhileKeyword, TrueKeyword,
      FalseKeyword]"

definition is_keyword_token :: "token_kind \<Rightarrow> bool" where
  "is_keyword_token k \<longleftrightarrow> k \<in> set keyword_tokens"

fun class_of_kind :: "symbol_kind \<Rightarrow> token_class" where
  "class_of_kind Module = ModuleToken"
| "class_of_kind Function = FunctionToken"
| "class_of_kind Parameter = ParameterToken"
| "class_of_kind Binding = VariableToken"
| "class_of_kind IterationState = VariableToken"
| "class_of_kind FiniteType = TypeToken"
| "class_of_kind RecordType = TypeToken"
| "class_of_kind FiniteVariant = VariantToken"
| "class_of_kind RecordField = FieldToken"

definition resolved_kind_at :: "document_analysis \<Rightarrow> nat \<Rightarrow> symbol_kind option" where
  "resolved_kind_at a byte =
     (case references_at (da_symbols a) byte of
        r # _ \<Rightarrow> Some (re_kind r)
      | [] \<Rightarrow> map_option (\<lambda>i. se_kind (si_symbols (da_symbols a) ! i)) (declaration_at (da_symbols a) byte))"

definition classify_identifier :: "document_analysis \<Rightarrow> nat \<Rightarrow> source_token list \<Rightarrow> source_token \<Rightarrow> token_class option" where
  "classify_identifier a i significant token =
     (case resolved_kind_at a (sp_start (tk_span token)) of
        Some kind \<Rightarrow> Some (class_of_kind kind)
      | None \<Rightarrow>
          if i > 0 \<and> tk_kind (significant ! (i - 1)) = ModuleKeyword then Some ModuleToken
          else case nth_opt significant (i + 1) of
                 Some follower \<Rightarrow>
                   if tk_kind follower = Colon \<and> is_builtin_type (tk_text token) then Some TypeToken else None
               | None \<Rightarrow> None)"

definition token_class_of :: "document_analysis \<Rightarrow> nat \<Rightarrow> source_token list \<Rightarrow> source_token \<Rightarrow> token_class option" where
  "token_class_of a i significant token =
     (if tk_kind token = IntegerLiteral \<or> tk_kind token = Version then Some NumberToken
      else if is_keyword_token (tk_kind token) then Some KeywordToken
      else if tk_kind token = Identifier then classify_identifier a i significant token
      else None)"

text \<open>UTF-16 units of a UTF-8 text: a four-byte sequence counts two, a continuation byte none.\<close>

definition utf16_length :: "string \<Rightarrow> nat" where
  "utf16_length t =
     sum_list (map (\<lambda>c. if is_continuation c then 0 else if byte_of c \<ge> 0xF0 then 2 else 1) t)"

definition compute_semantic_tokens :: "platform \<Rightarrow> document_analysis \<Rightarrow> token_annotation list" where
  "compute_semantic_tokens pf a =
     (let significant = significant_tokens a
      in List.map_filter (\<lambda>(i, token). map_option (\<lambda>class.
             let start = tl_position (pf_tools pf) (analysis_text a) (sp_start (tk_span token))
             in \<lparr>ta_line = pi_line start, ta_character = pi_character start,
                 ta_length = as_u32 (utf16_length (tk_text token)), ta_class = class\<rparr>)
           (token_class_of a i significant token)) (enumerate 0 significant))"

end
