(* ===== verification/Completion.thy ===== *)
theory Completion
  imports Render
begin

text \<open>
  Completion of \<open>render.rs\<close> and the workspace symbol search of \<open>queries.rs\<close>: both select names in
  bounded batches through the filter kernel and fall back to the comparison in the service when the
  kernel gives no answer.
\<close>

section \<open>The collector\<close>

datatype completion_class = SymbolClass symbol_kind | VariableClass | BuiltinTypeClass | KeywordClass | ModuleClass

record completion_candidate =
  cc_label :: string
  cc_class :: completion_class
  cc_detail :: "string option"

text \<open>
  \<open>cl_seen\<close> is the set of labels pushed so far; the native matcher answers a mask for the labels of
  a batch, or nothing.
\<close>

record collector =
  cl_prefix :: string
  cl_filter :: bool
  cl_dedup :: bool
  cl_seen :: "string set"
  cl_pending :: "completion_candidate list"
  cl_items :: "completion_candidate list"

type_synonym 's prefix_matcher = "string list \<Rightarrow> string \<Rightarrow> 's \<Rightarrow> bool list option \<times> 's"

definition max_completion_items :: nat where "max_completion_items = 200"

definition collector_new :: "string \<Rightarrow> bool \<Rightarrow> bool \<Rightarrow> collector" where
  "collector_new prefix filtered deduplicate =
     \<lparr>cl_prefix = prefix, cl_filter = filtered, cl_dedup = deduplicate, cl_seen = {}, cl_pending = [], cl_items = []\<rparr>"

definition collector_push :: "completion_candidate \<Rightarrow> collector \<Rightarrow> collector" where
  "collector_push c cl =
     (if \<not> cl_dedup cl then cl\<lparr>cl_items := cl_items cl @ [c]\<rparr>
      else if cc_label c \<in> cl_seen cl then cl
      else cl\<lparr>cl_seen := insert (cc_label c) (cl_seen cl), cl_items := cl_items cl @ [c]\<rparr>)"

definition native_mask :: "'s prefix_matcher \<Rightarrow> collector \<Rightarrow> 's \<Rightarrow> bool list option \<times> 's" where
  "native_mask matcher cl s =
     (let batch = cl_pending cl
      in if length (cl_prefix cl) \<le> max_text_match_bytes \<and>
            list_all (\<lambda>c. length (cc_label c) \<le> max_text_match_bytes) batch
         then (case matcher (map cc_label batch) (cl_prefix cl) s of
                 (Some flags, s) \<Rightarrow> (if length flags = length batch then Some flags else None, s)
               | (None, s) \<Rightarrow> (None, s))
         else (None, s))"

definition flush_prefix_batch :: "'s prefix_matcher \<Rightarrow> collector \<times> 's \<Rightarrow> collector \<times> 's" where
  "flush_prefix_batch matcher x =
     (case x of (cl, s) \<Rightarrow>
        if cl_pending cl = [] then (cl, s)
        else
          let batch = cl_pending cl
          in case native_mask matcher cl s of
               (flags, s) \<Rightarrow>
                 (fold (\<lambda>(i, c) cl.
                    if (case flags of Some m \<Rightarrow> m ! i | None \<Rightarrow> starts_with (cc_label c) (cl_prefix cl))
                    then collector_push c cl else cl)
                    (enumerate 0 batch) (cl\<lparr>cl_pending := []\<rparr>), s))"

definition consider_candidate :: "'s prefix_matcher \<Rightarrow> completion_candidate \<Rightarrow> collector \<times> 's \<Rightarrow> collector \<times> 's" where
  "consider_candidate matcher c x =
     (case x of (cl, s) \<Rightarrow>
        if cl_filter cl then
          (let cl = cl\<lparr>cl_pending := cl_pending cl @ [c]\<rparr>
           in if length (cl_pending cl) = max_text_match_items then flush_prefix_batch matcher (cl, s) else (cl, s))
        else (collector_push c cl, s))"

definition collector_finish :: "'s prefix_matcher \<Rightarrow> bool \<Rightarrow> collector \<times> 's \<Rightarrow> completion_candidate list \<times> 's" where
  "collector_finish matcher sort_and_limit x =
     (case (if cl_filter (fst x) then flush_prefix_batch matcher x else x) of
        (cl, s) \<Rightarrow>
          (if sort_and_limit then take max_completion_items (sort_key cc_label (cl_items cl)) else cl_items cl, s))"

section \<open>Members and locals\<close>

definition candidate_from :: "platform \<Rightarrow> string \<Rightarrow> document_analysis \<Rightarrow> nat \<Rightarrow> completion_candidate" where
  "candidate_from pf uri a i =
     (let s = summary_at pf uri a i
      in \<lparr>cc_label = ss_name s, cc_class = SymbolClass (ss_kind s), cc_detail = ss_detail s\<rparr>)"

definition children_of_kind :: "document_analysis \<Rightarrow> symbol_kind \<Rightarrow> nat \<Rightarrow> nat list" where
  "children_of_kind a kind parent =
     map fst (filter (\<lambda>(i, e). se_parent e = Some parent \<and> se_kind e = kind) (enumerate 0 (si_symbols (da_symbols a))))"

definition variants_of :: "platform \<Rightarrow> string \<Rightarrow> document_analysis \<Rightarrow> nat \<Rightarrow> completion_candidate list" where
  "variants_of pf uri a i = map (candidate_from pf uri a) (children_of_kind a FiniteVariant i)"

definition fields_of :: "platform \<Rightarrow> string \<Rightarrow> document_analysis \<Rightarrow> nat \<Rightarrow> completion_candidate list" where
  "fields_of pf uri a i = map (candidate_from pf uri a) (children_of_kind a RecordField i)"

text \<open>The token before the dot at or left of the cursor.\<close>

definition member_base :: "nat option \<Rightarrow> source_token list \<Rightarrow> source_token option" where
  "member_base cursor significant =
     (case cursor of
        None \<Rightarrow> None
      | Some i \<Rightarrow>
          (if tk_kind (significant ! i) = Dot then (if i = 0 then None else nth_opt significant (i - 1))
           else if i > 0 \<and> tk_kind (significant ! (i - 1)) = Dot
           then (if i = 1 then None else nth_opt significant (i - 2))
           else None))"

definition member_completions ::
  "platform \<Rightarrow> string \<Rightarrow> document_analysis \<Rightarrow> nat option \<Rightarrow> source_token list \<Rightarrow> completion_candidate list" where
  "member_completions pf uri a cursor significant =
     (case member_base cursor significant of
        None \<Rightarrow> []
      | Some base \<Rightarrow>
          if tk_kind base \<noteq> Identifier then []
          else
            let symbols = si_symbols (da_symbols a)
            in (case references_at (da_symbols a) (sp_start (tk_span base)) of
                  r # _ \<Rightarrow>
                    (case re_target r of
                       None \<Rightarrow> []
                     | Some target \<Rightarrow>
                         let e = symbols ! target
                         in if se_kind e = FiniteType then variants_of pf uri a target
                            else if se_kind e \<in> {Parameter, Binding, IterationState} then
                              (case position (\<lambda>c. se_kind c = RecordType \<and> Some (se_name c) = se_type_name e) symbols of
                                 None \<Rightarrow> [] | Some i \<Rightarrow> fields_of pf uri a i)
                            else [])
                | [] \<Rightarrow>
                    (case position (\<lambda>e. se_kind e = FiniteType \<and> sp_start (se_name_span e) \<le> sp_start (tk_span base) \<and>
                             sp_end (tk_span base) \<le> sp_end (se_name_span e)) symbols of
                       None \<Rightarrow> [] | Some i \<Rightarrow> variants_of pf uri a i)))"

definition statements_contain :: "ast_stmt list \<Rightarrow> nat \<Rightarrow> bool" where
  "statements_contain ss byte \<longleftrightarrow> list_ex (\<lambda>s. span_contains (st_span s) byte) ss"

text \<open>The names bound strictly before the offset on the path that contains it.\<close>

fun collect_visible_locals :: "ast_stmt list \<Rightarrow> nat \<Rightarrow> string list" where
  "collect_visible_locals [] byte = []"
| "collect_visible_locals (StLet n ty span # ss) byte =
     (if sp_end (an_span n) < byte then an_text n # collect_visible_locals ss byte
      else if span_contains (an_span n) byte then []
      else collect_visible_locals ss byte)"
| "collect_visible_locals (StBoundedIteration n ty span # ss) byte =
     (if sp_end (an_span n) < byte then [an_text n] else []) @ collect_visible_locals ss byte"
| "collect_visible_locals (StIf t e span # ss) byte =
     (if span_contains span byte then
        (if statements_contain t byte then collect_visible_locals t byte
         else if statements_contain e byte then collect_visible_locals e byte
         else [])
      else collect_visible_locals ss byte)"
| "collect_visible_locals (StFail span # ss) byte = collect_visible_locals ss byte"
| "collect_visible_locals (StReturn span # ss) byte = collect_visible_locals ss byte"

definition function_at :: "ast \<Rightarrow> nat \<Rightarrow> ast_function option" where
  "function_at t byte = find (\<lambda>f. span_contains (fn_span f) byte) (ast_functions t)"

text \<open>What \<open>scoped_candidates\<close> considers, in order.\<close>

definition scoped_pool :: "platform \<Rightarrow> string \<Rightarrow> document_analysis \<Rightarrow> nat \<Rightarrow> bool \<Rightarrow> completion_candidate list" where
  "scoped_pool pf uri a byte filtered =
     (case Option.bind (fe_ast (da_front_end a)) (\<lambda>t. function_at t byte) of
        None \<Rightarrow> []
      | Some f \<Rightarrow>
          map (\<lambda>p. \<lparr>cc_label = an_text (af_name p), cc_class = SymbolClass Parameter,
                    cc_detail = Some (an_text (af_name p) @ '': '' @ af_type p)\<rparr>) (fn_inputs f) @
          map (\<lambda>n. \<lparr>cc_label = n, cc_class = VariableClass, cc_detail = None\<rparr>) (collect_visible_locals (fn_body f) byte)) @
     map (candidate_from pf uri a)
       (map fst (filter (\<lambda>(i, e). se_kind e \<in> {Function, FiniteType, RecordType}) (enumerate 0 (si_symbols (da_symbols a))))) @
     map (\<lambda>b. \<lparr>cc_label = b, cc_class = BuiltinTypeClass, cc_detail = Some ''builtin scalar type''\<rparr>) builtin_type_names @
     (if filtered then map (\<lambda>k. \<lparr>cc_label = k, cc_class = KeywordClass, cc_detail = None\<rparr>) completion_keywords else [])"

definition scoped_candidates ::
  "'s prefix_matcher \<Rightarrow> platform \<Rightarrow> string \<Rightarrow> document_analysis \<Rightarrow> nat \<Rightarrow> string \<Rightarrow> bool \<Rightarrow> 's
     \<Rightarrow> completion_candidate list \<times> 's" where
  "scoped_candidates matcher pf uri a byte prefix filtered s =
     collector_finish matcher True
       (fold (consider_candidate matcher) (scoped_pool pf uri a byte filtered) (collector_new prefix filtered True, s))"

text \<open>\<open>manifest\<close> lists the modules of the standard library manifest with their profiles.\<close>

definition module_completions ::
  "'s prefix_matcher \<Rightarrow> (string \<times> string) list \<Rightarrow> string \<Rightarrow> 's \<Rightarrow> completion_candidate list \<times> 's" where
  "module_completions matcher manifest prefix s =
     collector_finish matcher False
       (fold (consider_candidate matcher)
         (map (\<lambda>(n, profile). \<lparr>cc_label = n, cc_class = ModuleClass,
                 cc_detail = Some (''stdlib (profile '' @ profile @ '')'')\<rparr>) manifest)
         (collector_new prefix (prefix \<noteq> []) False, s))"

section \<open>The cursor\<close>

text \<open>
  The module path typed on a \<open>use\<close> line: not on one, or the path. \<^const>\<open>None\<close> is the panic of a
  slice that cuts a character: the cursor column is used as a byte offset of the line.
\<close>

definition path_char :: "char \<Rightarrow> bool" where
  "path_char c \<longleftrightarrow> is_lower c \<or> is_digit c \<or> c = CHR ''.'' \<or> c = CHR ''_''"

definition use_line_prefix :: "string \<Rightarrow> nat \<Rightarrow> nat \<Rightarrow> string option option" where
  "use_line_prefix t line character =
     (case nth_opt (lines t) line of
        None \<Rightarrow> Some None
      | Some line_text \<Rightarrow>
          let trimmed = trim_start line_text; indent = length line_text - length trimmed
          in if \<not> starts_with trimmed ''use '' then Some None
             else if character \<le> indent + 4 then Some (Some [])
             else map_option (\<lambda>after_use.
                    if CHR '';'' \<in> set after_use then None
                    else Some (takeWhile path_char (trim_start after_use)))
                  (slice line_text (indent + 4) (min character (length line_text))))"

definition inside_comment :: "document_analysis \<Rightarrow> nat \<Rightarrow> bool" where
  "inside_comment a byte \<longleftrightarrow>
     list_ex (\<lambda>t. (tk_kind t = LineComment \<or> tk_kind t = BlockComment) \<and> span_contains (tk_span t) byte)
       (fe_tokens (da_front_end a))"

text \<open>\<open>rposition\<close>: the last token at or left of the cursor.\<close>

definition cursor_token :: "source_token list \<Rightarrow> nat \<Rightarrow> nat option" where
  "cursor_token significant byte =
     (case filter (\<lambda>(i, t). sp_start (tk_span t) \<le> byte \<and> byte \<le> sp_end (tk_span t) + 1) (enumerate 0 significant) of
        [] \<Rightarrow> None | its \<Rightarrow> Some (fst (last its)))"

text \<open>The prefix typed so far, \<^const>\<open>None\<close> when the slice panics.\<close>

definition typed_prefix :: "source_token list \<Rightarrow> nat option \<Rightarrow> nat \<Rightarrow> string option" where
  "typed_prefix significant cursor byte =
     (case cursor of
        None \<Rightarrow> Some []
      | Some i \<Rightarrow>
          let token = significant ! i
          in if byte > sp_start (tk_span token) \<and> (tk_kind token = Identifier \<or> is_keyword_token (tk_kind token))
             then slice (tk_text token) 0 (min (byte - sp_start (tk_span token)) (length (tk_text token)))
             else Some [])"

definition member_context :: "source_token list \<Rightarrow> nat option \<Rightarrow> bool" where
  "member_context significant cursor \<longleftrightarrow>
     (case cursor of
        None \<Rightarrow> False
      | Some i \<Rightarrow> tk_kind (significant ! i) = Dot \<or> (i > 0 \<and> tk_kind (significant ! (i - 1)) = Dot))"

text \<open>\<^const>\<open>None\<close> is a panic.\<close>

definition compute_completion ::
  "'s prefix_matcher \<Rightarrow> platform \<Rightarrow> (string \<times> string) list \<Rightarrow> string \<Rightarrow> document_analysis \<Rightarrow> nat \<Rightarrow> nat \<Rightarrow> 's
     \<Rightarrow> (completion_candidate list \<times> 's) option" where
  "compute_completion matcher pf manifest uri a line character s =
     (let byte = offset_at pf a line character
      in if inside_comment a byte then Some ([], s)
         else
           let significant = significant_tokens a; cursor = cursor_token significant byte
           in Option.bind (typed_prefix significant cursor byte) (\<lambda>prefix.
              Option.bind (use_line_prefix (analysis_text a) line character) (\<lambda>module_prefix.
                Some (case module_prefix of
                        Some m \<Rightarrow> module_completions matcher manifest m s
                      | None \<Rightarrow>
                          if member_context significant cursor then (member_completions pf uri a cursor significant, s)
                          else scoped_candidates matcher pf uri a byte prefix (prefix \<noteq> []) s))))"

text \<open>The matcher of the service: an answer counts when the kernel gave one for the batch.\<close>

definition service_prefix_matcher ::
  "environment \<Rightarrow> process_env \<Rightarrow> toolchain \<Rightarrow> native_platform \<Rightarrow> relation_state prefix_matcher" where
  "service_prefix_matcher env px tc np labels prefix s =
     (case execute_prefix_matches env px tc np labels prefix s of
        (Inl _, s) \<Rightarrow> (None, s)
      | (Inr native, s) \<Rightarrow>
          (if \<not> tm_valid native \<or> tm_count native \<noteq> length labels then None
           else if length labels \<le> length (tm_matched native) then Some (take (length labels) (tm_matched native))
           else None, s))"

record completion_response =
  cp_status :: response_status
  cp_snapshot :: snapshot_info
  cp_items :: "completion_candidate list"
  cp_incomplete :: bool

definition completion ::
  "platform \<Rightarrow> native_platform \<Rightarrow> (string \<times> string) list \<Rightarrow> string \<Rightarrow> nat \<Rightarrow> nat \<Rightarrow> query_state
     \<Rightarrow> ((service_error + completion_response) \<times> query_state) option" where
  "completion pf np manifest uri line character q =
     (case on_service (snapshot pf uri) q of
        (Inl e, q) \<Rightarrow> Some (Inl e, q)
      | (Inr a, q) \<Rightarrow>
          if fe_ast (da_front_end a) = None then
            Some (Inr \<lparr>cp_status = StUnsupported ''completion requires a parseable document'',
                       cp_snapshot = make_snapshot_info uri a, cp_items = [], cp_incomplete = False\<rparr>, q)
          else
            map_option (\<lambda>(items, cache, st).
                (Inr \<lparr>cp_status = Answered, cp_snapshot = make_snapshot_info uri a, cp_items = items,
                      cp_incomplete = True\<rparr>, cache, (snd q)\<lparr>sy_store := st\<rparr>))
              (compute_completion (service_prefix_matcher (pf_env pf) (pf_process pf) (pf_tools pf) np)
                 pf manifest uri a line character (fst q, sy_store (snd q))))"

section \<open>Workspace symbols\<close>

record symbol_hit =
  wh_uri :: string
  wh_summary :: symbol_summary

record workspace_symbols_response =
  wr_status :: response_status
  wr_generation :: nat
  wr_symbols :: "symbol_hit list"

definition max_workspace_symbols :: nat where "max_workspace_symbols = 500"

text \<open>Every indexed symbol with its lowercase name, documents in key order.\<close>

definition indexed_hits :: "workspace_index \<Rightarrow> (symbol_hit \<times> string) list" where
  "indexed_hits ix =
     concat (map (\<lambda>(uri, e). zip (map (\<lambda>s. \<lparr>wh_uri = uri, wh_summary = s\<rparr>) (we_symbols e)) (we_lower_names e))
       (bt_entries (wx_entries ix)))"

definition match_in_kernel :: "string \<Rightarrow> string \<Rightarrow> bool" where
  "match_in_kernel needle n \<longleftrightarrow> length n \<le> max_text_match_bytes \<and> length needle \<le> max_text_match_bytes"

definition process_batch ::
  "environment \<Rightarrow> process_env \<Rightarrow> toolchain \<Rightarrow> native_platform \<Rightarrow> string \<Rightarrow> (symbol_hit \<times> string) list
     \<Rightarrow> symbol_hit list \<times> relation_state \<Rightarrow> symbol_hit list \<times> relation_state" where
  "process_batch env px tc np needle batch x =
     (case x of (hits, s) \<Rightarrow>
        (case execute_symbol_matches env px tc np (map snd batch) needle s of
           (Inr native, s) \<Rightarrow> (hits @ map (fst \<circ> fst) (filter snd (zip batch (tm_matched native))), s)
         | (Inl _, s) \<Rightarrow> (hits @ map fst (filter (\<lambda>c. contains_str (snd c) needle) batch), s)))"

definition candidate_work :: "symbol_hit \<times> string \<Rightarrow> nat" where
  "candidate_work c = sat_mul64 (sat_add64 (length (snd c)) 1) max_text_match_bytes"

text \<open>The loop that fills the batches; \<open>process\<close> handles one.\<close>

fun batch_loop ::
  "((symbol_hit \<times> string) list \<Rightarrow> 'x \<Rightarrow> 'x) \<Rightarrow> (symbol_hit \<times> string) list \<Rightarrow> (symbol_hit \<times> string) list \<Rightarrow> nat \<Rightarrow> 'x \<Rightarrow> 'x" where
  "batch_loop process [] batch work x = (if batch = [] then x else process batch x)"
| "batch_loop process (c # cs) batch work x =
     (if batch \<noteq> [] \<and> (length batch = max_text_match_items \<or> sat_add64 work (candidate_work c) > max_symbol_scan_work)
      then batch_loop process cs [c] (sat_add64 0 (candidate_work c)) (process batch x)
      else batch_loop process cs (batch @ [c]) (sat_add64 work (candidate_work c)) x)"

definition workspace_symbols ::
  "platform \<Rightarrow> native_platform \<Rightarrow> string \<Rightarrow> query_state \<Rightarrow> workspace_symbols_response \<times> query_state" where
  "workspace_symbols pf np query q =
     (let needle = tl_lowercase (pf_tools pf) query;
          (_, q) = on_service (ensure_workspace_entries pf) q;
          pool = indexed_hits (sy_index (snd q));
          direct = (if needle = [] then map fst pool
                    else map fst (filter (\<lambda>c. \<not> match_in_kernel needle (snd c) \<and> contains_str (snd c) needle) pool));
          bounded = (if needle = [] then [] else filter (\<lambda>c. match_in_kernel needle (snd c)) pool);
          (hits, q) = on_relation (\<lambda>s.
            batch_loop (process_batch (pf_env pf) (pf_process pf) (pf_tools pf) np needle) bounded [] 0 (direct, s)) q
      in (\<lparr>wr_status = Answered, wr_generation = ds_generation (sy_store (snd q)),
           wr_symbols = take max_workspace_symbols (sort_key (\<lambda>h. (ss_name (wh_summary h), wh_uri h)) hits)\<rparr>, q))"

end
