(* ===== verification/Static_Grammar.thy ===== *)
theory Static_Grammar
  imports Json
begin

text \<open>
  The grammar loader of the static syntax crate (\<open>grammar.rs\<close>): strict validation of a TextMate
  grammar given as a JSON value, and the flattening of its pattern groups. The regular expression
  engine is a third-party crate: \<open>regex_error\<close> tells whether it compiles a source, \<^const>\<open>None\<close>
  for yes. JSON values are those of \<open>serde_json\<close>, the members of an object in its iteration order.
  The repository is a hash map in the code; its iteration order decides only which of several
  errors is reported.
\<close>

record grammar_error =
  ge_path :: string
  ge_message :: string

definition gr_err :: "string \<Rightarrow> string \<Rightarrow> grammar_error + 'a" where
  "gr_err path message = Inl \<lparr>ge_path = path, ge_message = message\<rparr>"

definition or_err :: "'a option \<Rightarrow> string \<Rightarrow> string \<Rightarrow> grammar_error + 'a" where
  "or_err r path message = (case r of Some x \<Rightarrow> Inr x | None \<Rightarrow> gr_err path message)"

definition require :: "bool \<Rightarrow> string \<Rightarrow> string \<Rightarrow> grammar_error + unit" where
  "require c path message = (if c then Inr () else gr_err path message)"

definition grammar_error_display :: "grammar_error \<Rightarrow> string" where
  "grammar_error_display e = ''grammar error at `'' @ ge_path e @ ''`: '' @ ge_message e"

lemma map_sum_eq_Inr: "map_sum f g r = Inr y \<longleftrightarrow> (\<exists>x. r = Inr x \<and> y = g x)"
  by (cases r) auto

section \<open>Rules\<close>

type_synonym captures = "(nat \<times> string option) list"

text \<open>A compiled expression is known by its source.\<close>

record begin_end_data =
  bd_begin :: string
  bd_begin_captures :: captures
  bd_end :: string
  bd_end_captures :: captures
  bd_content_name :: "string option"
  bd_patterns :: "string list"

datatype rule_body =
    GroupRule "string list"
  | MatchRule string captures
  | BeginEndRule begin_end_data

record rule =
  ru_name :: "string option"
  ru_body :: rule_body

type_synonym repository = "(string, rule) btree"

record grammar =
  gr_scope_name :: string
  gr_file_types :: "string list"
  gr_first_line_match :: "string option"
  gr_root_patterns :: "string list"
  gr_repository :: repository

definition grammar_rule :: "grammar \<Rightarrow> string \<Rightarrow> rule option" where
  "grammar_rule g name = bt_lookup (gr_repository g) name"

definition rule_keys :: "string list" where
  "rule_keys = [''name'', ''match'', ''begin'', ''end'', ''captures'', ''beginCaptures'', ''endCaptures'',
     ''contentName'', ''patterns'', ''include'']"

section \<open>Captures and expressions\<close>

text \<open>\<open>str::parse::<usize>\<close>: an optional plus sign and decimal digits that fit 64 bits.\<close>

definition digit_of :: "char \<Rightarrow> nat option" where
  "digit_of c = (if 48 \<le> byte_of c \<and> byte_of c \<le> 57 then Some (byte_of c - 48) else None)"

fun parse_digits :: "nat \<Rightarrow> string \<Rightarrow> nat option" where
  "parse_digits acc [] = Some acc"
| "parse_digits acc (c # cs) =
     (case digit_of c of
        None \<Rightarrow> None
      | Some d \<Rightarrow> if acc * 10 + d > u64_max then None else parse_digits (acc * 10 + d) cs)"

definition parse_usize :: "string \<Rightarrow> nat option" where
  "parse_usize s =
     (let digits = (case s of c # cs \<Rightarrow> if c = CHR ''+'' then cs else s | [] \<Rightarrow> [])
      in if digits = [] then None else parse_digits 0 digits)"

definition parse_capture :: "string \<Rightarrow> string \<times> json \<Rightarrow> grammar_error + nat \<times> string option" where
  "parse_capture path member =
     (case member of (key, grp) \<Rightarrow>
        bind_result (or_err (parse_usize key) path (''capture key `'' @ key @ ''` is not a group number'')) (\<lambda>index.
        bind_result (or_err (as_object grp) (path @ ''.'' @ key) ''capture group must be an object'') (\<lambda>obj.
        bind_result
          (case find (\<lambda>m. fst m \<noteq> ''name'') obj of
             None \<Rightarrow> Inr ()
           | Some m \<Rightarrow> gr_err (path @ ''.'' @ key @ ''.'' @ fst m)
               ''only capture `name` is supported (`patterns` inside captures is rejected)'') (\<lambda>_.
        let cap_name = Option.bind (map_of obj ''name'') as_str
        in bind_result
             (require (map_of obj ''name'' = None \<or> cap_name \<noteq> None) (path @ ''.'' @ key @ ''.name'') ''must be a string'')
             (\<lambda>_. Inr (index, cap_name))))))"

definition parse_captures :: "json option \<Rightarrow> string \<Rightarrow> grammar_error + captures" where
  "parse_captures v path =
     (case v of
        None \<Rightarrow> Inr []
      | Some v \<Rightarrow>
          bind_result (or_err (as_object v) path ''captures must be an object keyed by group number'') (\<lambda>obj.
          map_sum id (sort_key fst) (collect_results (parse_capture path) obj)))"

text \<open>A backslash followed by a digit.\<close>

fun has_backreference :: "string \<Rightarrow> bool" where
  "has_backreference (c # d # s) \<longleftrightarrow>
     (c = CHR 0x5C \<and> digit_of d \<noteq> None) \<or> has_backreference (d # s)"
| "has_backreference _ \<longleftrightarrow> False"

definition reject_unsupported_regex ::
  "(string \<Rightarrow> string option) \<Rightarrow> string \<Rightarrow> string \<Rightarrow> grammar_error + unit" where
  "reject_unsupported_regex regex_error source path =
     (if regex_error source \<noteq> None then Inr ()
      else if has_backreference source then
        gr_err path (''numeric backreferences ('' @ [CHR 0x5C] @ ''1'' @ [CHR 0xE2, CHR 0x80, CHR 0xA6] @
          '') are outside the supported subset'')
      else if contains_str source [CHR 0x5C, CHR ''G''] then
        gr_err path ([CHR 0x5C] @ ''G is outside the supported subset'')
      else Inr ())"

definition compile_regex :: "(string \<Rightarrow> string option) \<Rightarrow> string \<Rightarrow> string \<Rightarrow> grammar_error + string" where
  "compile_regex regex_error source path =
     (case regex_error source of
        None \<Rightarrow> Inr source
      | Some e \<Rightarrow> gr_err path (''regex `'' @ source @ ''` failed to compile: '' @ e))"

text \<open>An optional member that must be a string.\<close>

definition optional_string :: "(string \<times> json) list \<Rightarrow> string \<Rightarrow> string \<Rightarrow> string \<Rightarrow> grammar_error + string option" where
  "optional_string obj key path message =
     (case map_of obj key of None \<Rightarrow> Inr None | Some v \<Rightarrow> map_sum id Some (or_err (as_str v) path message))"

definition has_key :: "(string \<times> json) list \<Rightarrow> string \<Rightarrow> bool" where
  "has_key obj key \<longleftrightarrow> map_of obj key \<noteq> None"

text \<open>The checks of \<open>parse_rule\<close> on which keys go together, in order.\<close>

definition check_rule_keys :: "(string \<times> json) list \<Rightarrow> string \<Rightarrow> grammar_error + unit" where
  "check_rule_keys obj path =
     bind_result (require (\<not> (has_key obj ''patterns'' \<and> \<not> has_key obj ''begin'')) path
       ''`match` rules must not carry `patterns`'') (\<lambda>_.
     bind_result (require (has_key obj ''match'' \<noteq> has_key obj ''begin'') path
       ''rule must have exactly one of `match`, `begin`(+`end`), or `patterns`'') (\<lambda>_.
     bind_result (require (\<not> (has_key obj ''begin'' \<and> \<not> has_key obj ''end'')) path ''`begin` requires `end`'') (\<lambda>_.
     bind_result (require (\<not> (has_key obj ''captures'' \<and> \<not> has_key obj ''match'')) path
       ''`captures` requires `match`'') (\<lambda>_.
     require (\<not> ((has_key obj ''beginCaptures'' \<or> has_key obj ''endCaptures'') \<and> \<not> has_key obj ''begin'')) path
       ''begin/end captures require `begin`/`end`''))))"

definition parse_match_rule ::
  "(string \<Rightarrow> string option) \<Rightarrow> (string \<times> json) list \<Rightarrow> string \<Rightarrow> string option \<Rightarrow> grammar_error + rule" where
  "parse_match_rule regex_error obj path name =
     bind_result (or_err (Option.bind (map_of obj ''match'') as_str) path ''`match` must be a string'') (\<lambda>source.
     bind_result (reject_unsupported_regex regex_error source path) (\<lambda>_.
     bind_result (compile_regex regex_error source path) (\<lambda>regex.
     bind_result (parse_captures (map_of obj ''captures'') (path @ ''.captures'')) (\<lambda>captures.
     Inr \<lparr>ru_name = name, ru_body = MatchRule regex captures\<rparr>))))"

text \<open>The part of a region rule before its patterns.\<close>

definition parse_region ::
  "(string \<Rightarrow> string option) \<Rightarrow> (string \<times> json) list \<Rightarrow> string \<Rightarrow> grammar_error + begin_end_data" where
  "parse_region regex_error obj path =
     bind_result (or_err (Option.bind (map_of obj ''begin'') as_str) path ''`begin` must be a string'') (\<lambda>begin_source.
     bind_result (or_err (Option.bind (map_of obj ''end'') as_str) path ''`end` must be a string'') (\<lambda>end_source.
     bind_result (reject_unsupported_regex regex_error begin_source path) (\<lambda>_.
     bind_result (reject_unsupported_regex regex_error end_source path) (\<lambda>_.
     bind_result (compile_regex regex_error begin_source path) (\<lambda>begin_regex.
     bind_result (compile_regex regex_error end_source path) (\<lambda>end_regex.
     bind_result (parse_captures (map_of obj ''beginCaptures'') (path @ ''.beginCaptures'')) (\<lambda>begin_captures.
     bind_result (parse_captures (map_of obj ''endCaptures'') (path @ ''.endCaptures'')) (\<lambda>end_captures.
     bind_result (optional_string obj ''contentName'' path ''`contentName` must be a string'') (\<lambda>content_name.
     Inr \<lparr>bd_begin = begin_regex, bd_begin_captures = begin_captures, bd_end = end_regex,
          bd_end_captures = end_captures, bd_content_name = content_name, bd_patterns = []\<rparr>)))))))))"

section \<open>Pattern lists\<close>

text \<open>An \<open>include\<close> entry; \<open>obj\<close> holds the target under that key.\<close>

definition parse_include :: "(string \<times> json) list \<Rightarrow> json \<Rightarrow> string \<Rightarrow> grammar_error + string" where
  "parse_include obj target path =
     bind_result (require (length obj = 1) path ''an `include` entry must not carry other keys'') (\<lambda>_.
     bind_result (or_err (as_str target) path ''`include` must be a string'') (\<lambda>target.
     bind_result (or_err (strip_prefix target ''#'') path
       (''only `#repository` includes are supported, got `'' @ target @ ''`'')) (\<lambda>name.
     bind_result (require (name \<noteq> ''$self'' \<and> name \<noteq> ''$base'') path ''`$self`/`$base` includes are unsupported'') (\<lambda>_.
     Inr name))))"

definition entry_path :: "string \<Rightarrow> nat \<Rightarrow> string" where
  "entry_path path index = path @ ''['' @ show_nat index @ '']''"

definition inline_path :: "string \<Rightarrow> nat \<Rightarrow> string" where
  "inline_path path index = path @ ''#inline['' @ show_nat index @ '']''"

definition inline_key :: "string \<Rightarrow> nat \<Rightarrow> string" where
  "inline_key path index = ''@inline.'' @ path @ ''.'' @ show_nat index"

lemma size_member: "map_of obj key = Some v \<Longrightarrow> size v < size (JObject obj)"
  by (induction obj) (auto split: if_splits)

lemma size_object: "as_object v = Some obj \<Longrightarrow> size v = size (JObject obj)"
  by (cases v) auto

lemma size_object_member: "as_object v = Some obj \<Longrightarrow> map_of obj k = Some x \<Longrightarrow> Suc (2 * size x) < 2 * size v"
  using size_member [of obj k x] by (cases v) auto

lemma size_item: "as_array v = Some items \<Longrightarrow> size_list size items < size v"
  by (cases v) auto

text \<open>
  \<open>parse_rule\<close>, \<open>parse_pattern_list\<close> and the loop of the latter. Inline rules are registered in
  the repository under a synthetic key. The recursion is on the size of the JSON value.
\<close>

function parse_rule ::
  "(string \<Rightarrow> string option) \<Rightarrow> json \<Rightarrow> string \<Rightarrow> repository \<Rightarrow> grammar_error + rule \<times> repository"
  and parse_pattern_list ::
  "(string \<Rightarrow> string option) \<Rightarrow> json \<Rightarrow> string \<Rightarrow> repository \<Rightarrow> grammar_error + string list \<times> repository"
  and parse_entries ::
  "(string \<Rightarrow> string option) \<Rightarrow> json list \<Rightarrow> string \<Rightarrow> nat \<Rightarrow> repository \<Rightarrow> grammar_error + string list \<times> repository"
where
  "parse_rule regex_error v path repo =
     (case as_object v of
        None \<Rightarrow> gr_err path ''rule must be an object''
      | Some obj \<Rightarrow>
          bind_result
            (case find (\<lambda>m. fst m \<notin> set rule_keys) obj of
               None \<Rightarrow> Inr () | Some m \<Rightarrow> gr_err path (''unsupported rule key `'' @ fst m @ ''`'')) (\<lambda>_.
          bind_result (optional_string obj ''name'' path ''`name` must be a string'') (\<lambda>name.
          if has_key obj ''patterns'' \<and> \<not> has_key obj ''match'' \<and> \<not> has_key obj ''begin'' then
            (case map_of obj ''patterns'' of
               None \<Rightarrow> gr_err path []
             | Some ps \<Rightarrow>
                 map_sum id (\<lambda>(names, repo). (\<lparr>ru_name = None, ru_body = GroupRule names\<rparr>, repo))
                   (parse_pattern_list regex_error ps (path @ ''.patterns'') repo))
          else
            bind_result (check_rule_keys obj path) (\<lambda>_.
            if has_key obj ''match'' then
              map_sum id (\<lambda>r. (r, repo)) (parse_match_rule regex_error obj path name)
            else
              bind_result (parse_region regex_error obj path) (\<lambda>data.
              case map_of obj ''patterns'' of
                None \<Rightarrow> Inr (\<lparr>ru_name = name, ru_body = BeginEndRule data\<rparr>, repo)
              | Some ps \<Rightarrow>
                  map_sum id
                    (\<lambda>(names, repo). (\<lparr>ru_name = name, ru_body = BeginEndRule (data\<lparr>bd_patterns := names\<rparr>)\<rparr>, repo))
                    (parse_pattern_list regex_error ps (path @ ''.patterns'') repo))))))"
| "parse_pattern_list regex_error v path repo =
     (case as_array v of
        None \<Rightarrow> gr_err path ''must be an array''
      | Some items \<Rightarrow> parse_entries regex_error items path 0 repo)"
| "parse_entries regex_error [] path index repo = Inr ([], repo)"
| "parse_entries regex_error (entry # items) path index repo =
     (case as_object entry of
        None \<Rightarrow> gr_err (entry_path path index) ''pattern entries must be objects''
      | Some obj \<Rightarrow>
          bind_result
            (case map_of obj ''include'' of
               Some target \<Rightarrow> map_sum id (\<lambda>name. (name, repo)) (parse_include obj target (entry_path path index))
             | None \<Rightarrow>
                 map_sum id (\<lambda>(r, repo). (inline_key path index, bt_insert (inline_key path index) r repo))
                   (parse_rule regex_error entry (inline_path path index) repo))
            (\<lambda>(name, repo).
               map_sum id (\<lambda>(names, repo). (name # names, repo))
                 (parse_entries regex_error items path (index + 1) repo)))"
  by pat_completeness auto
termination
  by (relation "measure (\<lambda>x. case x of Inl (re, v, p, r) \<Rightarrow> 2 * size v
        | Inr (Inl (re, v, p, r)) \<Rightarrow> 2 * size v + 1
        | Inr (Inr (re, vs, p, i, r)) \<Rightarrow> 2 * size_list size vs)")
    (auto dest: size_object_member size_object size_item)

section \<open>Flattening\<close>

definition group_names :: "repository \<Rightarrow> string set" where
  "group_names repo = {n. \<exists>r ps. bt_lookup repo n = Some r \<and> ru_body r = GroupRule ps}"

lemma finite_group_names: "finite (group_names repo)"
proof -
  have "group_names repo \<subseteq> set (bt_keys repo)"
    by (force simp: group_names_def bt_keys_def bt_lookup_eq_Some)
  then show ?thesis by (rule finite_subset) simp
qed

lemma group_names_push:
  assumes "bt_lookup repo n = Some r" "ru_body r = GroupRule ps" "n \<notin> set stack"
  shows "card (group_names repo - set (stack @ [n])) < card (group_names repo - set stack)"
proof (rule psubset_card_mono)
  show "finite (group_names repo - set stack)" using finite_group_names by simp
  show "group_names repo - set (stack @ [n]) \<subset> group_names repo - set stack"
    using assms by (auto simp: group_names_def)
qed

text \<open>The stack holds the groups being dissolved; it is popped when a group is done.\<close>

function flatten_list :: "repository \<Rightarrow> string list \<Rightarrow> string list \<Rightarrow> grammar_error + string list" where
  "flatten_list repo stack [] = Inr []"
| "flatten_list repo stack (name # names) =
     (case bt_lookup repo name of
        None \<Rightarrow> gr_err name ''unresolved include during flattening''
      | Some r \<Rightarrow>
          (case ru_body r of
             GroupRule patterns \<Rightarrow>
               if name \<in> set stack then
                 gr_err (''$.repository.'' @ name)
                   ''include cycle contains no begin/end rule; tokenization would not terminate''
               else
                 bind_result (flatten_list repo (stack @ [name]) patterns) (\<lambda>inner.
                 map_sum id (\<lambda>rest. inner @ rest) (flatten_list repo stack names))
           | _ \<Rightarrow> map_sum id (Cons name) (flatten_list repo stack names)))"
  by pat_completeness auto
termination
  by (relation "measures [\<lambda>(repo, stack, names). card (group_names repo - set stack), \<lambda>(repo, stack, names). length names]")
    (auto dest: group_names_push)

definition rule_includes :: "string \<times> rule \<Rightarrow> (string \<times> string) list" where
  "rule_includes entry =
     (case entry of (key, r) \<Rightarrow>
        (case ru_body r of
           BeginEndRule data \<Rightarrow> map (Pair (''$.repository.'' @ key)) (bd_patterns data)
         | _ \<Rightarrow> []))"

text \<open>The rules that survive: groups are dropped, regions get their flattened patterns.\<close>

definition flattened_rule :: "repository \<Rightarrow> string \<times> rule \<Rightarrow> grammar_error + (string \<times> rule) option" where
  "flattened_rule repo entry =
     (case entry of (key, r) \<Rightarrow>
        (case ru_body r of
           GroupRule _ \<Rightarrow> Inr None
         | MatchRule regex captures \<Rightarrow> Inr (Some (key, r))
         | BeginEndRule data \<Rightarrow>
             map_sum id (\<lambda>flat. Some (key, r\<lparr>ru_body := BeginEndRule (data\<lparr>bd_patterns := flat\<rparr>)\<rparr>))
               (flatten_list repo [] (bd_patterns data))))"

fun parse_repository ::
  "(string \<Rightarrow> string option) \<Rightarrow> (string \<times> json) list \<Rightarrow> repository \<Rightarrow> grammar_error + repository" where
  "parse_repository regex_error [] repo = Inr repo"
| "parse_repository regex_error ((key, v) # members) repo =
     bind_result (parse_rule regex_error v (''$.repository.'' @ key) repo)
       (\<lambda>(r, repo). parse_repository regex_error members (bt_insert key r repo))"

definition unresolved_include :: "repository \<Rightarrow> (string \<times> string) list \<Rightarrow> grammar_error + unit" where
  "unresolved_include repo incs =
     (case find (\<lambda>i. bt_lookup repo (snd i) = None) incs of
        None \<Rightarrow> Inr ()
      | Some (source, target) \<Rightarrow>
          gr_err source (''include `#'' @ target @ ''` does not resolve to a repository entry''))"

definition flatten_repository :: "repository \<Rightarrow> grammar_error + repository" where
  "flatten_repository repo =
     map_sum id (\<lambda>rules. bt_of_list (List.map_filter id rules))
       (collect_results (flattened_rule repo) (bt_entries repo))"

definition grammar_from_value :: "(string \<Rightarrow> string option) \<Rightarrow> json \<Rightarrow> grammar_error + grammar" where
  "grammar_from_value regex_error v =
     bind_result (or_err (as_object v) ''$'' ''grammar must be a JSON object'') (\<lambda>obj.
     bind_result (or_err (Option.bind (map_of obj ''scopeName'') as_str) ''$.scopeName'' ''missing string'') (\<lambda>scope_name.
     bind_result (or_err (Option.bind (map_of obj ''fileTypes'') as_array) ''$.fileTypes'' ''missing array'') (\<lambda>types.
     bind_result (collect_results (\<lambda>t. or_err (as_str t) ''$.fileTypes[]'' ''must be strings'') types) (\<lambda>file_types.
     bind_result (optional_string obj ''firstLineMatch'' ''$.firstLineMatch'' ''must be a string'') (\<lambda>first_line_match.
     bind_result (or_err (Option.bind (map_of obj ''repository'') as_object) ''$.repository'' ''missing object'') (\<lambda>repo_obj.
     bind_result (parse_repository regex_error repo_obj bt_empty) (\<lambda>repo.
     bind_result (or_err (map_of obj ''patterns'') ''$.patterns'' ''missing array'') (\<lambda>patterns.
     bind_result (parse_pattern_list regex_error patterns ''$.patterns'' repo) (\<lambda>(roots, repo).
     bind_result (unresolved_include repo (map (Pair ''$'') roots @ concat (map rule_includes (bt_entries repo)))) (\<lambda>_.
     bind_result (flatten_repository repo) (\<lambda>flat.
     bind_result (flatten_list repo [] roots) (\<lambda>root_patterns.
     Inr \<lparr>gr_scope_name = scope_name, gr_file_types = file_types, gr_first_line_match = first_line_match,
          gr_root_patterns = root_patterns, gr_repository = flat\<rparr>))))))))))))"

definition all_scope_names :: "grammar \<Rightarrow> string bset" where
  "all_scope_names g =
     bs_of_list (concat (map (\<lambda>(key, r).
       (case ru_body r of
          GroupRule _ \<Rightarrow> []
        | MatchRule _ captures \<Rightarrow> List.map_filter id (ru_name r # map snd captures)
        | BeginEndRule data \<Rightarrow>
            List.map_filter id (ru_name r # bd_content_name data #
              map snd (bd_begin_captures data @ bd_end_captures data))))
       (bt_entries (gr_repository g))))"

end
