(* ===== verification/Static_Scopes.thy ===== *)
theory Static_Scopes
  imports Static_Grammar Compiler_View
begin

text \<open>
  The correspondence between the token kinds of the authoritative lexer and the scopes of the
  static grammar (\<open>scopes.rs\<close>), over the kinds of \<^typ>\<open>token_kind\<close>.
\<close>

definition keyword_spellings :: "(string \<times> token_kind) list" where
  "keyword_spellings = [
     (''mncs'', MncsKeyword), (''module'', ModuleKeyword), (''fn'', FunctionKeyword),
     (''test'', TestKeyword), (''return'', ReturnKeyword), (''let'', LetKeyword), (''if'', IfKeyword),
     (''else'', ElseKeyword), (''fail'', FailKeyword), (''requires'', RequiresKeyword),
     (''ensures'', EnsuresKeyword), (''assumes'', AssumesKeyword), (''property'', PropertyKeyword),
     (''invariant'', InvariantKeyword), (''metamorphic'', MetamorphicKeyword),
     (''effect'', EffectKeyword), (''capability'', CapabilityKeyword),
     (''authorized_by'', AuthorizedKeyword), (''enum'', EnumKeyword), (''use'', UseKeyword),
     (''record'', RecordKeyword), (''match'', MatchKeyword), (''iterate'', IterateKeyword),
     (''up_to'', UpToKeyword), (''carrying'', CarryingKeyword), (''next'', NextKeyword),
     (''over'', OverKeyword), (''as'', AsKeyword), (''while'', WhileKeyword), (''true'', TrueKeyword),
     (''false'', FalseKeyword)]"

definition is_keyword_kind :: "token_kind \<Rightarrow> bool" where
  "is_keyword_kind kind \<longleftrightarrow> kind \<in> {
     MncsKeyword, ModuleKeyword, FunctionKeyword, TestKeyword, ReturnKeyword, LetKeyword, IfKeyword,
     ElseKeyword, FailKeyword, RequiresKeyword, EnsuresKeyword, AssumesKeyword, PropertyKeyword,
     InvariantKeyword, MetamorphicKeyword, EffectKeyword, CapabilityKeyword, AuthorizedKeyword,
     EnumKeyword, UseKeyword, RecordKeyword, MatchKeyword, IterateKeyword, UpToKeyword, CarryingKeyword,
     NextKeyword, OverKeyword, AsKeyword, WhileKeyword, TrueKeyword, FalseKeyword}"

fun expected_scope :: "token_kind \<Rightarrow> string" where
  "expected_scope Whitespace = []"
| "expected_scope LineComment = ''comment.line.double-slash.mncs''"
| "expected_scope BlockComment = ''comment.block.mncs''"
| "expected_scope MncsKeyword = ''keyword.other.header.mncs''"
| "expected_scope ModuleKeyword = ''keyword.declaration.module.mncs''"
| "expected_scope FunctionKeyword = ''keyword.declaration.function.mncs''"
| "expected_scope TestKeyword = ''keyword.declaration.test.mncs''"
| "expected_scope ReturnKeyword = ''keyword.control.flow.return.mncs''"
| "expected_scope LetKeyword = ''keyword.declaration.variable.mncs''"
| "expected_scope IfKeyword = ''keyword.control.flow.if.mncs''"
| "expected_scope ElseKeyword = ''keyword.control.flow.else.mncs''"
| "expected_scope FailKeyword = ''keyword.control.flow.fail.mncs''"
| "expected_scope RequiresKeyword = ''keyword.control.contract.requires.mncs''"
| "expected_scope EnsuresKeyword = ''keyword.control.contract.ensures.mncs''"
| "expected_scope AssumesKeyword = ''keyword.control.contract.assumes.mncs''"
| "expected_scope PropertyKeyword = ''keyword.control.contract.property.mncs''"
| "expected_scope InvariantKeyword = ''keyword.control.contract.invariant.mncs''"
| "expected_scope MetamorphicKeyword = ''keyword.control.contract.metamorphic.mncs''"
| "expected_scope EffectKeyword = ''keyword.declaration.effect.mncs''"
| "expected_scope CapabilityKeyword = ''keyword.declaration.capability.mncs''"
| "expected_scope AuthorizedKeyword = ''keyword.control.authorized-by.mncs''"
| "expected_scope EnumKeyword = ''keyword.declaration.enum.mncs''"
| "expected_scope UseKeyword = ''keyword.declaration.mncs''"
| "expected_scope RecordKeyword = ''keyword.declaration.record.mncs''"
| "expected_scope MatchKeyword = ''keyword.control.flow.match.mncs''"
| "expected_scope IterateKeyword = ''keyword.control.iteration.iterate.mncs''"
| "expected_scope UpToKeyword = ''keyword.control.iteration.up-to.mncs''"
| "expected_scope CarryingKeyword = ''keyword.control.iteration.carrying.mncs''"
| "expected_scope NextKeyword = ''keyword.control.flow.next.mncs''"
| "expected_scope OverKeyword = ''keyword.control.iteration.over.mncs''"
| "expected_scope AsKeyword = ''keyword.operator.conversion.mncs''"
| "expected_scope WhileKeyword = ''keyword.control.flow.while.mncs''"
| "expected_scope TrueKeyword = ''constant.language.boolean.mncs''"
| "expected_scope FalseKeyword = ''constant.language.boolean.mncs''"
| "expected_scope Identifier = ''identifier''"
| "expected_scope Version = ''constant.numeric.version.mncs''"
| "expected_scope IntegerLiteral = ''constant.numeric.integer.mncs''"
| "expected_scope Plus = ''keyword.operator.arithmetic.mncs''"
| "expected_scope Minus = ''keyword.operator.arithmetic.mncs''"
| "expected_scope Star = ''keyword.operator.arithmetic.mncs''"
| "expected_scope Slash = ''keyword.operator.arithmetic.mncs''"
| "expected_scope Percent = ''keyword.operator.arithmetic.mncs''"
| "expected_scope PlusPercent = ''keyword.operator.arithmetic.mncs''"
| "expected_scope MinusPercent = ''keyword.operator.arithmetic.mncs''"
| "expected_scope StarPercent = ''keyword.operator.arithmetic.mncs''"
| "expected_scope PlusPipe = ''keyword.operator.arithmetic.mncs''"
| "expected_scope MinusPipe = ''keyword.operator.arithmetic.mncs''"
| "expected_scope StarPipe = ''keyword.operator.arithmetic.mncs''"
| "expected_scope Ampersand = ''keyword.operator.bitwise.mncs''"
| "expected_scope Pipe = ''keyword.operator.bitwise.mncs''"
| "expected_scope Caret = ''keyword.operator.bitwise.mncs''"
| "expected_scope Shl = ''keyword.operator.bitwise.mncs''"
| "expected_scope Shr = ''keyword.operator.bitwise.mncs''"
| "expected_scope Not = ''keyword.operator.unary.mncs''"
| "expected_scope EqEq = ''keyword.operator.comparison.mncs''"
| "expected_scope NotEq = ''keyword.operator.comparison.mncs''"
| "expected_scope Lt = ''keyword.operator.comparison.mncs''"
| "expected_scope Gt = ''keyword.operator.comparison.mncs''"
| "expected_scope Le = ''keyword.operator.comparison.mncs''"
| "expected_scope Ge = ''keyword.operator.comparison.mncs''"
| "expected_scope AndAnd = ''keyword.operator.logical.mncs''"
| "expected_scope OrOr = ''keyword.operator.logical.mncs''"
| "expected_scope Equal = ''keyword.operator.assignment.mncs''"
| "expected_scope Arrow = ''keyword.operator.arrow.mncs''"
| "expected_scope FatArrow = ''keyword.operator.arrow.mncs''"
| "expected_scope Dot = ''punctuation.accessor.dot.mncs''"
| "expected_scope DotDot = ''keyword.operator.spread.mncs''"
| "expected_scope Colon = ''punctuation.separator.colon.mncs''"
| "expected_scope Semicolon = ''punctuation.terminator.statement.mncs''"
| "expected_scope Comma = ''punctuation.separator.comma.mncs''"
| "expected_scope LeftParen = ''punctuation.section.parentheses.begin.mncs''"
| "expected_scope RightParen = ''punctuation.section.parentheses.end.mncs''"
| "expected_scope LeftBrace = ''punctuation.section.block.begin.mncs''"
| "expected_scope RightBrace = ''punctuation.section.block.end.mncs''"
| "expected_scope LeftBracket = ''punctuation.section.brackets.begin.mncs''"
| "expected_scope RightBracket = ''punctuation.section.brackets.end.mncs''"
| "expected_scope Unknown = []"

definition all_token_kinds :: "token_kind list" where
  "all_token_kinds = [
     Whitespace, LineComment, BlockComment, MncsKeyword, ModuleKeyword, FunctionKeyword, TestKeyword,
     ReturnKeyword, LetKeyword, IfKeyword, ElseKeyword, FailKeyword, RequiresKeyword, EnsuresKeyword,
     AssumesKeyword, PropertyKeyword, InvariantKeyword, MetamorphicKeyword, EffectKeyword,
     CapabilityKeyword, AuthorizedKeyword, EnumKeyword, UseKeyword, RecordKeyword, MatchKeyword,
     IterateKeyword, UpToKeyword, CarryingKeyword, NextKeyword, OverKeyword, AsKeyword, WhileKeyword,
     TrueKeyword, FalseKeyword, Identifier, Version, IntegerLiteral, Plus, Minus, Star, Slash, Percent,
     PlusPercent, MinusPercent, StarPercent, PlusPipe, MinusPipe, StarPipe, Ampersand, Pipe, Caret, Shl,
     Shr, Not, EqEq, NotEq, Lt, Gt, Le, Ge, AndAnd, OrOr, Equal, Arrow, FatArrow, Dot, DotDot, Colon,
     Semicolon, Comma, LeftParen, RightParen, LeftBrace, RightBrace, LeftBracket, RightBracket, Unknown]"

end
