(* ===== verification/Completion_Props.thy ===== *)
theory Completion_Props
  imports Completion Relation_Props Service_Props Static_Scopes "HOL-Library.Multiset"
begin

text \<open>
  What completion and the workspace symbol search select. The batches never leave the envelope of the
  filter kernel; where the kernel decides names as \<^const>\<open>text_matches\<close> does, both select exactly what
  a filter over the whole pool selects. The locale \<open>text_oracle\<close> is the interface of the kernel call;
  it is interpreted on the checked call for every platform whose backend meets \<open>text_contract\<close>.
\<close>

lemma zip_take_left: "zip xs ys = zip xs (take (length xs) ys)"
proof (induction xs arbitrary: ys)
  case (Cons x xs)
  then show ?case by (cases ys) simp_all
qed simp

section \<open>The kernel as an oracle\<close>

locale text_oracle =
  fixes execute :: "string list \<Rightarrow> string \<Rightarrow> 's \<Rightarrow> (native_error + text_match) \<times> 's"
    and decides :: "string \<Rightarrow> string \<Rightarrow> bool"
    and ready :: bool
  assumes answers: "ready \<Longrightarrow> execute names needle s = (Inr m, s') \<Longrightarrow>
      length names \<le> length (tm_matched m) \<and> take (length names) (tm_matched m) = map (decides needle) names"
begin

lemma select_answered:
  assumes "ready" "execute (map f xs) needle s = (Inr m, s')"
  shows "map fst (filter snd (zip xs (tm_matched m))) = filter (\<lambda>x. decides needle (f x)) xs"
proof -
  have "zip xs (tm_matched m) = zip xs (take (length xs) (tm_matched m))" by (rule zip_take_left)
  also have "\<dots> = zip xs (map (\<lambda>x. decides needle (f x)) xs)" using answers [OF assms] by (simp add: comp_def)
  finally have "zip xs (tm_matched m) = map (\<lambda>x. (x, decides needle (f x))) xs" by (simp add: zip_map2 zip_same_conv_map)
  then show ?thesis by (simp add: filter_map comp_def)
qed

end

text \<open>What the match functions of \<open>mncs.std.text_scan.v1\<close> document: an accepted answer decides its names.\<close>

definition text_contract :: "native_platform \<Rightarrow> match_kind \<Rightarrow> bool" where
  "text_contract np kind \<longleftrightarrow>
     (\<forall>k names needle value m.
        match_envelope kind names needle = None \<longrightarrow>
        single_result (np_backend np k filter_query_module (match_function kind) (match_arguments names needle)
          text_step_budget) = Inr value \<longrightarrow>
        decode_text_match k names value = Inr m \<longrightarrow>
        take (length names) (tm_matched m) = map (text_matches kind needle) names)"

lemma decode_text_match_length:
  "decode_text_match k names value = Inr m \<Longrightarrow>
   length (tm_matched m) = max_text_match_items \<and> tm_count m = length names \<and> tm_valid m"
  by (auto simp: decode_text_match_def bind_result_eq_Inr split: if_splits option.splits dest: boolean_sequence_length)

interpretation kernel_oracle: text_oracle "execute_text_matches env px tc np kind" "text_matches kind" "text_contract np kind"
  for env px tc np kind
proof unfold_locales
  fix names needle s m s'
  assume c: "text_contract np kind" and run: "execute_text_matches env px tc np kind names needle s = (Inr m, s')"
  then obtain k out where v: "match_envelope kind names needle = None"
      "single_result (np_backend np k filter_query_module (match_function kind) (match_arguments names needle)
        text_step_budget) = Inr out" "decode_text_match k names out = Inr m"
    by (auto simp: execute_text_matches_def bind_result_eq_Inr split: option.splits prod.splits sum.splits)
  moreover have "length names \<le> max_text_match_items"
    using v(1) by (auto simp: match_envelope_def split: if_splits)
  ultimately show "length names \<le> length (tm_matched m) \<and>
      take (length names) (tm_matched m) = map (text_matches kind needle) names"
    using c [unfolded text_contract_def, rule_format, OF v] decode_text_match_length [OF v(3)] by simp
qed

section \<open>The collector\<close>

text \<open>The first candidate of every label.\<close>

fun first_labels :: "string set \<Rightarrow> completion_candidate list \<Rightarrow> completion_candidate list" where
  "first_labels seen [] = []"
| "first_labels seen (c # cs) =
     (if cc_label c \<in> seen then first_labels seen cs else c # first_labels (insert (cc_label c) seen) cs)"

definition select_prefix :: "bool \<Rightarrow> string \<Rightarrow> completion_candidate list \<Rightarrow> completion_candidate list" where
  "select_prefix filtered prefix = filter (\<lambda>c. filtered \<longrightarrow> starts_with (cc_label c) prefix)"

definition settled :: "collector \<Rightarrow> collector" where
  "settled cl = fold collector_push (select_prefix True (cl_prefix cl) (cl_pending cl)) (cl\<lparr>cl_pending := []\<rparr>)"

lemma collector_new_fields [simp]:
  "cl_prefix (collector_new prefix filtered deduplicate) = prefix"
  "cl_filter (collector_new prefix filtered deduplicate) = filtered"
  "cl_dedup (collector_new prefix filtered deduplicate) = deduplicate"
  "cl_seen (collector_new prefix filtered deduplicate) = {}"
  "cl_pending (collector_new prefix filtered deduplicate) = []"
  "cl_items (collector_new prefix filtered deduplicate) = []"
  by (simp_all add: collector_new_def)

lemma collector_push_fields [simp]:
  "cl_prefix (collector_push c cl) = cl_prefix cl" "cl_filter (collector_push c cl) = cl_filter cl"
  "cl_dedup (collector_push c cl) = cl_dedup cl" "cl_pending (collector_push c cl) = cl_pending cl"
  by (simp_all add: collector_push_def)

lemma fold_push_fields [simp]:
  "cl_prefix (fold collector_push cs cl) = cl_prefix cl" "cl_filter (fold collector_push cs cl) = cl_filter cl"
  "cl_dedup (fold collector_push cs cl) = cl_dedup cl" "cl_pending (fold collector_push cs cl) = cl_pending cl"
  by (induction cs arbitrary: cl) simp_all

lemma fold_push_items:
  "cl_items (fold collector_push cs cl) =
     cl_items cl @ (if cl_dedup cl then first_labels (cl_seen cl) cs else cs)"
proof (induction cs arbitrary: cl)
  case (Cons c cs)
  show ?case unfolding fold_simps comp_def Cons.IH by (auto simp: collector_push_def)
qed simp

text \<open>A matcher that answers as the comparison, or not at all.\<close>

definition exact_matcher :: "'s prefix_matcher \<Rightarrow> bool" where
  "exact_matcher matcher \<longleftrightarrow>
     (\<forall>labels prefix s flags s'. matcher labels prefix s = (Some flags, s') \<longrightarrow>
        flags = map (\<lambda>l. starts_with l prefix) labels)"

lemma fold_enumerate_select:
  assumes "\<And>i c. (i, c) \<in> set (enumerate n cs) \<Longrightarrow> P i c \<longleftrightarrow> Q c"
  shows "fold (\<lambda>(i, c) cl. if P i c then f c cl else cl) (enumerate n cs) x = fold f (filter Q cs) x"
  using assms by (induction cs arbitrary: n x) auto

lemma prefix_flush_exact:
  assumes "exact_matcher matcher"
  shows "fst (flush_prefix_batch matcher (cl, s)) = settled cl"
proof (cases "cl_pending cl = []")
  case True
  then show ?thesis by (simp add: flush_prefix_batch_def settled_def select_prefix_def)
next
  case False
  obtain flags s' where m: "native_mask matcher cl s = (flags, s')" by (metis prod.exhaust)
  have flags: "flags = Some (map (\<lambda>c. starts_with (cc_label c) (cl_prefix cl)) (cl_pending cl))" if "flags \<noteq> None"
    using assms m that
    by (fastforce simp: native_mask_def exact_matcher_def Let_def comp_def split: if_splits prod.splits option.splits)
  have "fst (flush_prefix_batch matcher (cl, s)) =
      fold (\<lambda>(i, c) cl'. if (case flags of Some m \<Rightarrow> m ! i | None \<Rightarrow> starts_with (cc_label c) (cl_prefix cl))
        then collector_push c cl' else cl') (enumerate 0 (cl_pending cl)) (cl\<lparr>cl_pending := []\<rparr>)"
  proof -
    have keep: "fold (\<lambda>(i, c) cl'. if (case flags of Some m \<Rightarrow> m ! i | None \<Rightarrow> starts_with (cc_label c) (cl_prefix cl'))
          then collector_push c cl' else cl') ics cl2 =
        fold (\<lambda>(i, c) cl'. if (case flags of Some m \<Rightarrow> m ! i | None \<Rightarrow> starts_with (cc_label c) (cl_prefix cl))
          then collector_push c cl' else cl') ics cl2"
      if "cl_prefix cl2 = cl_prefix cl" for ics cl2
      using that by (induction ics arbitrary: cl2) (auto split: option.splits)
    show ?thesis using False m by (simp add: flush_prefix_batch_def keep)
  qed
  also have "\<dots> = settled cl"
    unfolding settled_def select_prefix_def
    by (rule fold_enumerate_select) (use flags in \<open>auto simp: in_set_enumerate_eq split: option.splits\<close>)
  finally show ?thesis .
qed

lemma settled_none [simp]: "cl_pending cl = [] \<Longrightarrow> settled cl = cl"
  by (simp add: settled_def select_prefix_def)

lemma settled_settled [simp]: "settled (settled cl) = settled cl"
  by (rule settled_none) (simp add: settled_def)

lemma settled_append:
  "settled (cl\<lparr>cl_pending := cl_pending cl @ [c]\<rparr>) =
     (if starts_with (cc_label c) (cl_prefix cl) then collector_push c (settled cl) else settled cl)"
  by (simp add: settled_def select_prefix_def)

lemma settled_prefix [simp]: "cl_prefix (settled cl) = cl_prefix cl" "cl_filter (settled cl) = cl_filter cl"
  by (simp_all add: settled_def)

lemma settled_pending [simp]: "cl_pending (settled cl) = []"
  by (simp add: settled_def)

lemma consider_exact:
  assumes "exact_matcher matcher" "cl_filter cl \<or> cl_pending cl = []"
  shows "settled (fst (consider_candidate matcher c (cl, s))) =
      (if cl_filter cl \<longrightarrow> starts_with (cc_label c) (cl_prefix cl) then collector_push c (settled cl) else settled cl)"
  using assms(2) prefix_flush_exact [OF assms(1), of "cl\<lparr>cl_pending := cl_pending cl @ [c]\<rparr>" s]
  by (auto simp: consider_candidate_def settled_append Let_def)

lemma consider_all:
  assumes "exact_matcher matcher" "cl_filter cl \<or> cl_pending cl = []"
  shows "settled (fst (fold (consider_candidate matcher) cs (cl, s))) =
      fold collector_push (select_prefix (cl_filter cl) (cl_prefix cl) cs) (settled cl) \<and>
    cl_filter (fst (fold (consider_candidate matcher) cs (cl, s))) = cl_filter cl \<and>
    (cl_filter cl \<or> cl_pending (fst (fold (consider_candidate matcher) cs (cl, s))) = [])"
  using assms(2)
proof (induction cs arbitrary: cl s)
  case Nil
  then show ?case by (simp add: select_prefix_def)
next
  case (Cons c cs)
  obtain cl1 s1 where one: "consider_candidate matcher c (cl, s) = (cl1, s1)" by (metis prod.exhaust)
  have st: "settled cl1 = (if cl_filter cl \<longrightarrow> starts_with (cc_label c) (cl_prefix cl) then collector_push c (settled cl) else settled cl)"
    using consider_exact [OF assms(1) Cons.prems, of c s] one by simp
  have "cl_filter (settled cl1) = cl_filter cl" "cl_prefix (settled cl1) = cl_prefix cl" by (simp_all add: st)
  then have f: "cl_filter cl1 = cl_filter cl" "cl_prefix cl1 = cl_prefix cl" by simp_all
  have p: "cl_filter cl1 \<or> cl_pending cl1 = []"
    using one Cons.prems f by (auto simp: consider_candidate_def)
  show ?case using Cons.IH [OF p, of s1] one f by (simp add: st select_prefix_def)
qed

lemma collector_reference:
  assumes "exact_matcher matcher"
  shows "fst (collector_finish matcher limited (fold (consider_candidate matcher) cs (collector_new prefix filtered deduplicate, s))) =
    (let selected = select_prefix filtered prefix cs;
         kept = (if deduplicate then first_labels {} selected else selected)
     in if limited then take max_completion_items (sort_key cc_label kept) else kept)"
proof -
  let ?new = "collector_new prefix filtered deduplicate"
  obtain cl s' where run: "fold (consider_candidate matcher) cs (?new, s) = (cl, s')" by (metis prod.exhaust)
  have all: "settled cl = fold collector_push (select_prefix filtered prefix cs) ?new" "cl_filter cl = filtered"
    "filtered \<or> cl_pending cl = []"
    using consider_all [OF assms, of ?new cs s] run by simp_all
  have final: "fst (if filtered then flush_prefix_batch matcher (cl, s') else (cl, s')) = settled cl"
    using all prefix_flush_exact [OF assms, of cl s'] by auto
  have items: "cl_items (settled cl) =
      (if deduplicate then first_labels {} (select_prefix filtered prefix cs) else select_prefix filtered prefix cs)"
    by (simp add: all(1) fold_push_items)
  have "fst (collector_finish matcher limited (cl, s')) =
      (if limited then take max_completion_items (sort_key cc_label (cl_items (settled cl))) else cl_items (settled cl))"
    unfolding collector_finish_def fst_conv all(2) final [symmetric] by (auto split: prod.split)
  then show ?thesis unfolding run items by (simp add: Let_def)
qed

lemma service_matcher_exact:
  assumes "text_contract np PrefixMatch"
  shows "exact_matcher (service_prefix_matcher env px tc np)"
  unfolding exact_matcher_def
proof (intro allI impI)
  fix labels prefix s flags s'
  assume run: "service_prefix_matcher env px tc np labels prefix s = (Some flags, s')"
  then obtain m where m: "execute_text_matches env px tc np PrefixMatch labels prefix s = (Inr m, s')"
      "flags = take (length labels) (tm_matched m)"
    by (auto simp: service_prefix_matcher_def execute_prefix_matches_def split: prod.splits sum.splits if_splits)
  then show "flags = map (\<lambda>l. starts_with l prefix) labels"
    using kernel_oracle.answers [OF assms m(1)] by simp
qed

section \<open>A backend that meets the contract\<close>

fun bytes_of_value :: "exec_value \<Rightarrow> string" where
  "bytes_of_value (EvSequence vs) = map (\<lambda>v. case v of EvByte b \<Rightarrow> char_of (nat b) | _ \<Rightarrow> CHR 0x00) vs"
| "bytes_of_value v = []"

text \<open>It decodes the arguments and compares the names itself.\<close>

definition match_answer :: "bool list \<Rightarrow> exec_value" where
  "match_answer flags =
     EvRecord ''t'' ''TextMatchResult''
       [(''matched'', EvSequence (map EvBoolean flags)),
        (''matched_count'', EvInteger (int (length (filter id flags))) 64 True), (''valid'', EvBoolean True)]"

definition text_backend :: backend where
  "text_backend k module function arguments budget =
     (case arguments of
        [EvSequence ns, needle, EvByte len] \<Rightarrow>
          \<lparr>ex_returned_ok = True,
           ex_returned = [match_answer
             (map (\<lambda>n. text_matches (if function = match_function Contains then Contains else PrefixMatch)
                 (take (nat len) (bytes_of_value needle)) (bytes_of_value n)) ns @
              replicate (max_text_match_items - length ns) False)],
           ex_failure = None\<rparr>
      | _ \<Rightarrow> \<lparr>ex_returned_ok = False, ex_returned = [], ex_failure = None\<rparr>)"

definition text_native :: native_platform where
  "text_native = walk_native\<lparr>np_backend := text_backend\<rparr>"

lemma collect_booleans: "collect_results (\<lambda>v. boolean_field v n) (map EvBoolean bs) = Inr bs"
  by (induction bs) (simp_all add: boolean_field_def)

lemma bytes_of_view [simp]: "bytes_of_value (byte_view_argument bs) = bs"
  by (simp add: byte_view_argument_def byte_of_def comp_def)

lemma bytes_of_fixed [simp]: "take (length bs) (bytes_of_value (fixed_byte_argument bs w)) = bs"
  by (simp add: fixed_byte_argument_def byte_of_def comp_def)

lemma decode_match_answer:
  "decode_text_match k names (match_answer flags) = Inr m \<Longrightarrow> tm_matched m = flags"
  by (auto simp: decode_text_match_def match_answer_def record_fields_def record_field_def boolean_sequence_field_def
      collect_booleans bind_result_eq_Inr split: if_splits option.splits)

lemma text_native_contract: "text_contract text_native kind"
proof -
  have "match_function kind = ''match_names'' \<longleftrightarrow> kind = Contains" by (cases kind) simp_all
  then have kind: "(if match_function kind = ''match_names'' then Contains else PrefixMatch) = kind"
    by (cases kind) simp_all
  show ?thesis
    unfolding text_contract_def
    by (auto simp: text_native_def text_backend_def match_arguments_def single_result_def kind comp_def
        dest!: decode_match_answer split del: if_split)
qed

text \<open>C7: Where the kernel decides prefixes as documented, scoped completion is the first 200 labels, in
  label order, of the candidates in scope whose label starts with the prefix, each label once: batching,
  the kernel and the fallback are not observable.\<close>

theorem scoped_completion_exact:
  assumes "text_contract np PrefixMatch"
  shows "fst (scoped_candidates (service_prefix_matcher env px tc np) pf uri a byte prefix filtered s) =
    take max_completion_items (sort_key cc_label
      (first_labels {} (select_prefix filtered prefix (scoped_pool pf uri a byte filtered))))"
  unfolding scoped_candidates_def
  using collector_reference [OF service_matcher_exact [OF assms], where limited = True and deduplicate = True]
  by (simp add: Let_def)

lemma scoped_completion_exact_witness:
  "map cc_label (fst (scoped_candidates
     (service_prefix_matcher (pf_env walk_platform) (pf_process walk_platform) (pf_tools walk_platform) text_native)
     walk_platform ''u'' early_analysis 0 ''u'' True (fst call_state, sy_store (snd call_state)))) =
   [''u16'', ''u32'', ''u64'', ''u8'', ''up_to'', ''use'']"
proof -
  have pool: "scoped_pool walk_platform ''u'' early_analysis 0 True =
      map (\<lambda>b. \<lparr>cc_label = b, cc_class = BuiltinTypeClass, cc_detail = Some ''builtin scalar type''\<rparr>) builtin_type_names @
      map (\<lambda>k. \<lparr>cc_label = k, cc_class = KeywordClass, cc_detail = None\<rparr>) completion_keywords"
    unfolding scoped_pool_def early_no_symbols
    by (simp add: early_analysis_def analyze_def Let_def sample_tools_def sample_front_def function_at_def)
  have "map cc_label (take max_completion_items (sort_key cc_label (first_labels {} (select_prefix True ''u''
      (map (\<lambda>b. \<lparr>cc_label = b, cc_class = BuiltinTypeClass, cc_detail = Some ''builtin scalar type''\<rparr>) builtin_type_names @
       map (\<lambda>k. \<lparr>cc_label = k, cc_class = KeywordClass, cc_detail = None\<rparr>) completion_keywords))))) =
    [''u16'', ''u32'', ''u64'', ''u8'', ''up_to'', ''use'']"
    by code_simp
  then show ?thesis unfolding scoped_completion_exact [OF text_native_contract] pool .
qed

section \<open>The batches of the symbol search\<close>

text \<open>The batches the loop hands to the kernel, in order.\<close>

definition name_batches :: "(symbol_hit \<times> string) list \<Rightarrow> (symbol_hit \<times> string) list list" where
  "name_batches cs = batch_loop (\<lambda>b bs. bs @ [b]) cs [] 0 []"

lemma batch_loop_snoc:
  "batch_loop (\<lambda>b bs. bs @ [b]) cs batch w bs = bs @ batch_loop (\<lambda>b bs. bs @ [b]) cs batch w []"
proof (induction cs arbitrary: batch w bs)
  case (Cons c cs)
  show ?case
    by (simp, subst (1 2) Cons.IH) (simp, metis Cons.IH)
qed simp

lemma batch_loop_fold:
  "batch_loop process cs batch w x = fold process (batch_loop (\<lambda>b bs. bs @ [b]) cs batch w []) x"
proof (induction cs arbitrary: batch w x)
  case (Cons c cs)
  have "batch_loop (\<lambda>b bs. bs @ [b]) cs b v [batch] = batch # batch_loop (\<lambda>b bs. bs @ [b]) cs b v []" for b v
    using batch_loop_snoc [of cs b v "[batch]"] by simp
  then show ?case using Cons.IH by simp
qed simp

lemma concat_batches: "concat (batch_loop (\<lambda>b bs. bs @ [b]) cs batch w bs) = concat bs @ batch @ cs"
  by (induction cs arbitrary: batch w bs) auto

definition batch_work :: "(symbol_hit \<times> string) list \<Rightarrow> nat" where
  "batch_work b = fold (\<lambda>n w. sat_add64 w (scan_work Contains n)) (map snd b) 0"

lemma batch_work_snoc [simp]: "batch_work (b @ [c]) = sat_add64 (batch_work b) (candidate_work c)"
  by (simp add: batch_work_def candidate_work_def)

lemma batch_work_simps [simp]: "batch_work [] = 0" "batch_work [c] = sat_add64 0 (candidate_work c)"
  by (simp_all add: batch_work_def candidate_work_def)

definition batch_fits :: "string \<Rightarrow> (symbol_hit \<times> string) list \<Rightarrow> bool" where
  "batch_fits needle b \<longleftrightarrow> b \<noteq> [] \<and> match_envelope Contains (map snd b) needle = None"

lemma candidate_work_bound:
  assumes "match_in_kernel needle (snd c)"
  shows "sat_add64 0 (candidate_work c) \<le> max_symbol_scan_work"
proof -
  have "min (Suc (length (snd c))) u64_max * 64 \<le> 65 * 64"
    using assms by (intro mult_le_mono) (auto simp: match_in_kernel_def filter_consts)
  then have "min (min (Suc (length (snd c))) u64_max * 64) u64_max \<le> 33280" by linarith
  then show ?thesis by (simp add: candidate_work_def sat_mul64_def sat_add64_def filter_consts)
qed

lemma batch_fitsI:
  assumes "b \<noteq> []" "list_all (\<lambda>c. match_in_kernel needle (snd c)) b"
    "length b \<le> max_text_match_items" "batch_work b \<le> max_symbol_scan_work"
  shows "batch_fits needle b"
  using assms unfolding batch_fits_def match_envelope_def batch_work_def match_max_work.simps
  by (cases b) (auto simp: match_in_kernel_def list_all_iff list_ex_iff not_less simp del: scan_work.simps fold_simps list.map)

lemma batches_fit_from:
  assumes "list_all (\<lambda>c. match_in_kernel needle (snd c)) (batch @ cs)"
    and "length batch \<le> max_text_match_items" "batch_work batch \<le> max_symbol_scan_work"
    and "list_all (batch_fits needle) bs"
  shows "list_all (batch_fits needle) (batch_loop (\<lambda>b bs. bs @ [b]) cs batch (batch_work batch) bs)"
  using assms
proof (induction cs arbitrary: batch bs)
  case Nil
  then show ?case using batch_fitsI [of batch needle] by (simp add: list_all_append)
next
  case (Cons c cs)
  show ?case
  proof (cases "batch \<noteq> [] \<and> (length batch = max_text_match_items \<or> sat_add64 (batch_work batch) (candidate_work c) > max_symbol_scan_work)")
    case True
    have "batch_fits needle batch"
      using True Cons.prems by (intro batch_fitsI) simp_all
    then show ?thesis
      using Cons.IH [of "[c]" "bs @ [batch]"] Cons.prems True candidate_work_bound [of needle c] by (auto simp: max_text_match_items_def)
  next
    case False
    then show ?thesis
      using Cons.IH [of "batch @ [c]" bs] Cons.prems candidate_work_bound [of needle c]
      by (cases "batch = []") (auto simp: max_text_match_items_def)
  qed
qed

text \<open>Whatever the names, the symbol search hands the kernel nonempty batches within its envelope
  (at most 64 names, 64 bytes each and the work bound), and the batches are the names in order: no call is
  refused for its size and no candidate is lost.\<close>

theorem symbol_batches_fit:
  "list_all (\<lambda>b. b \<noteq> [] \<and> match_envelope Contains (map snd b) needle = None)
     (name_batches (filter (\<lambda>c. match_in_kernel needle (snd c)) cs)) \<and>
   concat (name_batches (filter (\<lambda>c. match_in_kernel needle (snd c)) cs)) =
     filter (\<lambda>c. match_in_kernel needle (snd c)) cs"
  using batches_fit_from [of needle "[]" "filter (\<lambda>c. match_in_kernel needle (snd c)) cs" "[]"]
  by (simp add: name_batches_def concat_batches batch_fits_def [abs_def] batch_work_def filter_consts list_all_iff)

lemma process_batch_exact:
  assumes "text_contract np Contains"
  shows "fst (process_batch env px tc np needle batch (hits, s)) =
      hits @ map fst (filter (\<lambda>c. contains_str (snd c) needle) batch)"
proof -
  obtain r s' where run: "execute_symbol_matches env px tc np (map snd batch) needle s = (r, s')" by (metis prod.exhaust)
  show ?thesis
  proof (cases r)
    case (Inr m)
    have "execute_text_matches env px tc np Contains (map snd batch) needle s = (Inr m, s')"
      using run Inr by (simp add: execute_symbol_matches_def)
    then have "map fst (filter snd (zip batch (tm_matched m))) = filter (\<lambda>c. contains_str (snd c) needle) batch"
      using kernel_oracle.select_answered [OF assms, of _ _ _ snd batch needle s m s'] by simp
    then show ?thesis using run Inr by (simp add: process_batch_def flip: map_map)
  qed (use run in \<open>simp add: process_batch_def\<close>)
qed

lemma process_batches_exact:
  assumes "text_contract np Contains"
  shows "fst (fold (process_batch env px tc np needle) batches (hits, s)) =
      hits @ map fst (filter (\<lambda>c. contains_str (snd c) needle) (concat batches))"
proof (induction batches arbitrary: hits s)
  case (Cons b batches)
  obtain hits' s' where p: "process_batch env px tc np needle b (hits, s) = (hits', s')" by (metis prod.exhaust)
  then show ?case using Cons.IH [of hits' s'] process_batch_exact [OF assms, of env px tc needle b hits s] by simp
qed simp

lemma mset_filter_split:
  "filter_mset (\<lambda>c. \<not> P c \<and> Q c) m + filter_mset Q (filter_mset P m) = filter_mset Q m"
  by (induction m) auto

lemma contains_str_Nil: "contains_str s []"
  by (cases s) simp_all

definition symbol_rank :: "symbol_hit \<Rightarrow> string \<times> string" where
  "symbol_rank h = (ss_name (wh_summary h), wh_uri h)"

text \<open>C8: Where the kernel decides containment as documented, the symbol search answers the first 500,
  by name and then document, of exactly the indexed symbols whose lowercase name contains the lowercase
  query: a symbol is found whether the kernel or the service compared its name.\<close>

theorem workspace_symbols_exact:
  assumes "text_contract np Contains"
  shows "\<exists>hits. wr_symbols (fst (workspace_symbols pf np query q)) = take max_workspace_symbols hits \<and>
      sorted (map symbol_rank hits) \<and>
      mset hits = mset (map fst (filter (\<lambda>c. contains_str (snd c) (tl_lowercase (pf_tools pf) query))
        (indexed_hits (sy_index (snd (snd (on_service (ensure_workspace_entries pf) q)))))))"
proof -
  let ?needle = "tl_lowercase (pf_tools pf) query"
  let ?q = "snd (on_service (ensure_workspace_entries pf) q)"
  let ?pool = "indexed_hits (sy_index (snd ?q))"
  let ?in = "filter (\<lambda>c. match_in_kernel ?needle (snd c)) ?pool"
  let ?direct = "if ?needle = [] then map fst ?pool
    else map fst (filter (\<lambda>c. \<not> match_in_kernel ?needle (snd c) \<and> contains_str (snd c) ?needle) ?pool)"
  let ?bounded = "if ?needle = [] then [] else ?in"
  let ?hits = "?direct @ map fst (filter (\<lambda>c. contains_str (snd c) ?needle) ?bounded)"
  have loop: "fst (batch_loop (process_batch env px tc np ?needle) ?bounded [] 0 (?direct, s)) = ?hits" for env px tc s
    unfolding batch_loop_fold [of "process_batch env px tc np ?needle"] process_batches_exact [OF assms]
    by (simp add: concat_batches)
  have "wr_symbols (fst (workspace_symbols pf np query q)) = take max_workspace_symbols (sort_key symbol_rank ?hits)"
    unfolding workspace_symbols_def Let_def
    by (simp add: on_relation_def symbol_rank_def [abs_def] loop split_def)
  moreover have "mset ?hits = mset (map fst (filter (\<lambda>c. contains_str (snd c) ?needle) ?pool))"
    using contains_str_Nil by (simp add: mset_filter_split flip: image_mset_union)
  ultimately show ?thesis by (intro exI [of _ "sort_key symbol_rank ?hits"]) simp
qed

lemma workspace_symbols_exact_witness:
  "map (ss_name \<circ> wh_summary) (wr_symbols (fst (workspace_symbols walk_platform text_native ''g'' call_state))) = [''g'']"
proof -
  have lower: "tl_lowercase (pf_tools walk_platform) ''g'' = ''g''" by (simp add: walk_platform_def sample_tools_def)
  have pool: "indexed_hits (sy_index (snd call_state)) =
      [(\<lparr>wh_uri = ''u'', wh_summary = call_summary ''f'' ''m.f''\<rparr>, ''f''),
       (\<lparr>wh_uri = ''u'', wh_summary = call_summary ''g'' ''m.g''\<rparr>, ''g'')]"
    by (simp add: indexed_hits_def call_index_eval call_entry_def)
  obtain hits where "wr_symbols (fst (workspace_symbols walk_platform text_native ''g'' call_state)) =
      take max_workspace_symbols hits"
    "mset hits = mset (map fst (filter (\<lambda>c. contains_str (snd c) ''g'') (indexed_hits (sy_index (snd call_state)))))"
    using workspace_symbols_exact [OF text_native_contract, of walk_platform "''g''" call_state]
    unfolding lower call_state_ensured by auto
  then show ?thesis by (simp add: pool max_workspace_symbols_def call_summary_def)
qed

section \<open>The keyword tables\<close>

text \<open>The language service knows every keyword of the static grammar's manifest except \<open>test\<close>: completion
  offers exactly the other spellings, and semantic tokens class exactly the other keyword kinds as
  keywords.\<close>

theorem keyword_tables_miss_test:
  "set completion_keywords = set (map fst keyword_spellings) - {''test''} \<and>
   is_keyword_token k = (is_keyword_kind k \<and> k \<noteq> TestKeyword)"
proof
  show "set completion_keywords = set (map fst keyword_spellings) - {''test''}" by code_simp
  show "is_keyword_token k = (is_keyword_kind k \<and> k \<noteq> TestKeyword)"
    by (cases k) (simp_all add: is_keyword_token_def keyword_tokens_def is_keyword_kind_def)
qed

end
