(* ===== verification/Document_Queries.thy ===== *)
theory Document_Queries
  imports Completion
begin

text \<open>
  The remaining document queries of \<open>queries.rs\<close>: the symbol tree, hover, descriptions, obligations
  with their native cross-checks, folding, the debug binding and the context packet.
\<close>

section \<open>Symbol tree\<close>

datatype symbol_node = SymbolNode symbol_summary "symbol_node list"

text \<open>\<open>children\<close> of the build: the symbols that name a parent, in index order.\<close>

definition children_of :: "document_analysis \<Rightarrow> nat \<Rightarrow> nat list" where
  "children_of a i =
     map fst (filter (\<lambda>(j, e). se_parent e = Some i) (enumerate 0 (si_symbols (da_symbols a))))"

definition tree_roots :: "document_analysis \<Rightarrow> nat list" where
  "tree_roots a = map fst (filter (\<lambda>(j, e). se_parent e = None) (enumerate 0 (si_symbols (da_symbols a))))"

text \<open>
  \<open>assemble\<close> recurses over the parent links; the fuel bounds its depth and the number of symbols is
  enough of it, see \<open>Document_Queries_Props\<close>.
\<close>

fun collect_some :: "'a option list \<Rightarrow> 'a list option" where
  "collect_some [] = Some []"
| "collect_some (None # xs) = None"
| "collect_some (Some x # xs) = map_option (Cons x) (collect_some xs)"

fun assemble :: "nat \<Rightarrow> platform \<Rightarrow> string \<Rightarrow> document_analysis \<Rightarrow> nat \<Rightarrow> symbol_node option" where
  "assemble 0 pf uri a i = None"
| "assemble (Suc fuel) pf uri a i =
     map_option (SymbolNode (summary_at pf uri a i)) (collect_some (map (assemble fuel pf uri a) (children_of a i)))"

definition build_symbol_tree :: "platform \<Rightarrow> string \<Rightarrow> document_analysis \<Rightarrow> symbol_node list option" where
  "build_symbol_tree pf uri a =
     collect_some (map (assemble (length (si_symbols (da_symbols a))) pf uri a) (tree_roots a))"

definition document_symbols ::
  "platform \<Rightarrow> string \<Rightarrow> service \<Rightarrow> (service_error + symbol_node list option response) \<times> service" where
  "document_symbols pf uri =
     with_snapshot pf uri (\<lambda>a sv.
       (Inr (if fe_ast (da_front_end a) = None
             then respond uri a (StUnsupported ''the document has no AST because parsing produced errors'') (Some [])
             else respond uri a Answered (build_symbol_tree pf uri a)), sv))"

section \<open>Hover\<close>

record hover =
  hv_subject :: "symbol_summary option"
  hv_markdown :: "string option"

text \<open>The declaration a reference without a local target leads to, in its own snapshot.\<close>

definition summary_entry :: "document_analysis \<Rightarrow> symbol_summary \<Rightarrow> nat option" where
  "summary_entry a s =
     position (\<lambda>e. se_name e = ss_name s \<and> sp_start (se_name_span e) = ri_start_byte (ss_name_range s) \<and>
                   se_kind e = ss_kind s) (si_symbols (da_symbols a))"

definition imported_target ::
  "platform \<Rightarrow> symbol_summary option \<Rightarrow> service \<Rightarrow> (document_analysis \<times> nat \<times> symbol_summary) option \<times> service" where
  "imported_target pf summary sv =
     (case summary of
        None \<Rightarrow> (None, sv)
      | Some s \<Rightarrow>
          (case ss_uri s of
             None \<Rightarrow> (None, sv)
           | Some u \<Rightarrow>
               (case snapshot pf u sv of
                  (Inl _, sv) \<Rightarrow> (None, sv)
                | (Inr b, sv) \<Rightarrow> (map_option (\<lambda>i. (b, i, s)) (summary_entry b s), sv))))"

definition hover_query ::
  "platform \<Rightarrow> string \<Rightarrow> nat \<Rightarrow> nat \<Rightarrow> service \<Rightarrow> (service_error + hover response) \<times> service" where
  "hover_query pf uri line character =
     with_snapshot pf uri (\<lambda>a sv.
       let byte = offset_at pf a line character;
           (resolved, sv) =
             (case primary_symbol_index a byte of
                Some target \<Rightarrow> (Some (a, target, summary_at pf uri a target), sv)
              | None \<Rightarrow>
                  (case references_at (da_symbols a) byte of
                     [] \<Rightarrow> (None, sv)
                   | r # _ \<Rightarrow>
                       (case targets_for_reference pf uri a r sv of
                          (targets, sv) \<Rightarrow> imported_target pf (case targets of [] \<Rightarrow> None | s # _ \<Rightarrow> Some s) sv)))
       in (Inr (case resolved of
                  None \<Rightarrow> respond uri a (StUnresolved ''no resolvable subject under the cursor'')
                            \<lparr>hv_subject = None, hv_markdown = None\<rparr>
                | Some (b, target, s) \<Rightarrow>
                    respond uri a Answered \<lparr>hv_subject = Some s, hv_markdown = Some (render_hover_markdown b target)\<rparr>), sv))"

section \<open>Obligations\<close>

record obligation_info =
  oi_identity :: string
  oi_subject :: string
  oi_requirement :: string
  oi_status :: string
  oi_method :: string
  oi_freshness :: string
  oi_fallback :: "string option"

record status_counts =
  sx_pass :: nat
  sx_fail :: nat
  sx_unknown :: nat

record obligations =
  ox_items :: "obligation_info list"
  ox_counts :: status_counts

definition obligation_info_of :: "platform \<Rightarrow> model_obligation \<Rightarrow> obligation_info" where
  "obligation_info_of pf ob =
     \<lparr>oi_identity = ob_identity ob, oi_subject = ob_subject ob, oi_requirement = ob_requirement ob,
      oi_status = status_label (ob_status ob), oi_method = ob_method ob,
      oi_freshness = tl_lowercase (pf_tools pf) (ob_freshness ob), oi_fallback = ob_fallback ob\<rparr>"

definition wanted_obligation :: "string option \<Rightarrow> model_obligation \<Rightarrow> bool" where
  "wanted_obligation subject ob \<longleftrightarrow>
     (case subject of
        None \<Rightarrow> True
      | Some wanted \<Rightarrow> ob_subject ob = wanted \<or> ob_identity ob = wanted \<or> wanted \<in> set (ob_dependencies ob))"

definition count_status :: "obligation_status \<Rightarrow> status_counts \<Rightarrow> status_counts" where
  "count_status st c =
     (case st of
        ObPass \<Rightarrow> c\<lparr>sx_pass := sx_pass c + 1\<rparr>
      | ObFail \<Rightarrow> c\<lparr>sx_fail := sx_fail c + 1\<rparr>
      | ObUnknown \<Rightarrow> c\<lparr>sx_unknown := sx_unknown c + 1\<rparr>)"

definition no_counts :: status_counts where
  "no_counts = \<lparr>sx_pass = 0, sx_fail = 0, sx_unknown = 0\<rparr>"

definition obligations_response ::
  "platform \<Rightarrow> string \<Rightarrow> string option \<Rightarrow> service \<Rightarrow> (service_error + obligations response) \<times> service" where
  "obligations_response pf uri subject =
     with_snapshot pf uri (\<lambda>a sv.
       (Inr (case fe_program (da_front_end a) of
               None \<Rightarrow> respond uri a (StUnsupported ''obligations require a successfully elaborated program'')
                         \<lparr>ox_items = [], ox_counts = no_counts\<rparr>
             | Some p \<Rightarrow>
                 let obs = filter (wanted_obligation subject) (pr_obligations p)
                 in respond uri a Answered
                      \<lparr>ox_items = map (obligation_info_of pf) obs,
                       ox_counts = fold (\<lambda>ob. count_status (ob_status ob)) obs no_counts\<rparr>), sv))"

definition dominant_status :: "status_counts \<Rightarrow> string" where
  "dominant_status c =
     (if sx_fail c > 0 then ''fail'' else if sx_unknown c > 0 then ''unknown''
      else if sx_pass c > 0 then ''pass'' else ''unknown'')"

datatype status_disagreement = CountsDiffer | ObservedDiffers | EnvelopeRejected | DominantDiffers

definition status_disagreements :: "status_counts \<Rightarrow> nat \<Rightarrow> status_summary \<Rightarrow> status_disagreement list" where
  "status_disagreements reference n native =
     (if \<lparr>sx_pass = su_pass native, sx_fail = su_fail native, sx_unknown = su_unknown native\<rparr> \<noteq> reference
      then [CountsDiffer] else []) @
     (if su_observed native \<noteq> n then [ObservedDiffers] else []) @
     (if \<not> su_valid native then [EnvelopeRejected] else []) @
     (if su_dominant native \<noteq> dominant_status reference then [DominantDiffers] else [])"

datatype unresolved_reason = NotAttempted | NativeUnavailable native_error | Disagreement status_disagreement

record native_obligations =
  no_items :: "obligation_info list"
  no_reference :: status_counts
  no_counts_used :: status_counts
  no_native :: "status_summary option"
  no_unresolved :: "unresolved_reason list"

definition query_native_obligations ::
  "platform \<Rightarrow> native_platform \<Rightarrow> string \<Rightarrow> string option \<Rightarrow> query_state
     \<Rightarrow> (service_error + native_obligations response) \<times> query_state" where
  "query_native_obligations pf np uri subject q =
     (case on_service (obligations_response pf uri subject) q of
        (Inl e, q) \<Rightarrow> (Inl e, q)
      | (Inr r, q) \<Rightarrow>
          let items = ox_items (rs_payload r); counts = ox_counts (rs_payload r);
              answer = (\<lambda>status used native reasons.
                Inr \<lparr>rs_status = status, rs_snapshot = rs_snapshot r,
                     rs_payload = \<lparr>no_items = items, no_reference = counts, no_counts_used = used,
                       no_native = native, no_unresolved = reasons\<rparr>\<rparr>)
          in if rs_status r \<noteq> Answered then (answer (rs_status r) counts None [NotAttempted], q)
             else
               (case on_relation (execute_status_summary (pf_env pf) (pf_process pf) (pf_tools pf) np
                      (map oi_status items)) q of
                  (Inl e, q) \<Rightarrow>
                    (answer (StUnsupported ''MNCS-native status query unavailable'') counts None [NativeUnavailable e], q)
                | (Inr native, q) \<Rightarrow>
                    let wrong = status_disagreements counts (length items) native
                    in (answer (if wrong = [] then Answered
                                else StUnsupported ''MNCS-native status query did not agree with the authoritative Rust control result'')
                          \<lparr>sx_pass = su_pass native, sx_fail = su_fail native, sx_unknown = su_unknown native\<rparr>
                          (Some native) (map Disagreement wrong), q)))"

section \<open>Kind counts\<close>

record kind_count =
  kc_kind :: symbol_kind
  kc_tag :: int
  kc_input :: "int list"
  kc_reference :: nat
  kc_native_count :: nat
  kc_native :: "filter_summary option"
  kc_unresolved :: "unresolved_reason list"

definition native_kind_count ::
  "platform \<Rightarrow> native_platform \<Rightarrow> string \<Rightarrow> symbol_kind \<Rightarrow> query_state
     \<Rightarrow> (service_error + kind_count response) \<times> query_state" where
  "native_kind_count pf np uri wanted q =
     (case on_service (snapshot pf uri) q of
        (Inl e, q) \<Rightarrow> (Inl e, q)
      | (Inr a, q) \<Rightarrow>
          let tags = map (symbol_kind_tag \<circ> se_kind) (take max_filter_tags (si_symbols (da_symbols a)));
              tag = symbol_kind_tag wanted; reference = length (filter (\<lambda>t. t = tag) tags);
              answer = (\<lambda>status count native reasons.
                Inr (respond uri a status
                  \<lparr>kc_kind = wanted, kc_tag = tag, kc_input = tags, kc_reference = reference, kc_native_count = count,
                   kc_native = native, kc_unresolved = reasons\<rparr>))
          in case on_relation (execute_count_matching (pf_env pf) (pf_process pf) (pf_tools pf) np tags tag) q of
               (Inl e, q) \<Rightarrow>
                 (answer (StUnsupported ''MNCS-native kind filter unavailable'') reference None [NativeUnavailable e], q)
             | (Inr native, q) \<Rightarrow>
                 let wrong =
                       (if fi_native native \<noteq> reference \<or> fi_reference native \<noteq> reference then [CountsDiffer] else []) @
                       (if \<not> fi_valid native then [EnvelopeRejected] else [])
                 in (answer (if wrong = [] then Answered
                             else StUnsupported ''MNCS-native kind filter did not agree with the authoritative Rust control result'')
                       (fi_native native) (Some native) (map Disagreement wrong), q))"

section \<open>Descriptions\<close>

record contract_info =
  ci_id :: string
  ci_kind :: string
  ci_expression :: string
  ci_identity :: string

record member_info =
  mi_name :: string
  mi_kind :: symbol_kind
  mi_type :: "string option"
  mi_identity :: "string option"

record evidence_info =
  ei_property :: string
  ei_verifier :: string
  ei_status :: string

record subject_description =
  sb_summary :: symbol_summary
  sb_module :: string
  sb_contracts :: "contract_info list"
  sb_effects :: "(string \<times> string) list"
  sb_capabilities :: "string list"
  sb_evidence :: "evidence_info list"
  sb_obligations :: "obligation_info list"
  sb_outgoing :: nat
  sb_incoming :: nat
  sb_members :: "member_info list"

fun evidence_status_label :: "evidence_status \<Rightarrow> string" where
  "evidence_status_label EsClaimed = ''claimed''"
| "evidence_status_label EsTested = ''tested''"
| "evidence_status_label EsAnalyzed = ''analyzed''"
| "evidence_status_label EsVerified = ''verified''"
| "evidence_status_label EsExternallyVerified = ''externally_verified''"

definition owning_function :: "program \<Rightarrow> symbol_entry \<Rightarrow> model_function option" where
  "owning_function p e =
     Option.bind (if se_kind e = Function then Some (se_name e) else se_container e)
       (\<lambda>owner. find (\<lambda>f. mo_name f = owner) (pr_functions p))"

definition obligation_subject_matches :: "model_obligation \<Rightarrow> symbol_entry \<Rightarrow> bool" where
  "obligation_subject_matches ob e \<longleftrightarrow>
     (case se_identity e of
        None \<Rightarrow> False
      | Some identity \<Rightarrow>
          identity = ob_subject ob \<or> (se_kind e = Function \<and> identity \<in> set (ob_dependencies ob)))"

definition members_of :: "program \<Rightarrow> symbol_entry \<Rightarrow> member_info list" where
  "members_of p e =
     (if se_kind e = FiniteType then
        (case find (\<lambda>c. mf_name c = se_name e) (pr_finite_types p) of
           None \<Rightarrow> []
         | Some c \<Rightarrow> map (\<lambda>(n, i). \<lparr>mi_name = n, mi_kind = FiniteVariant, mi_type = None, mi_identity = Some i\<rparr>)
                       (mf_variants c))
      else if se_kind e = RecordType then
        (case find (\<lambda>c. mk_name c = se_name e) (pr_record_types p) of
           None \<Rightarrow> []
         | Some c \<Rightarrow> map (\<lambda>(n, t). \<lparr>mi_name = n, mi_kind = RecordField, mi_type = Some t, mi_identity = None\<rparr>)
                       (mk_fields c))
      else [])"

definition describe_index :: "platform \<Rightarrow> string \<Rightarrow> document_analysis \<Rightarrow> nat \<Rightarrow> subject_description" where
  "describe_index pf uri a target =
     (let e = si_symbols (da_symbols a) ! target; api = tl_model (pf_tools pf);
          empty = \<lparr>sb_summary = summary_at pf uri a target,
            sb_module = (case fe_ast (da_front_end a) of None \<Rightarrow> [] | Some t \<Rightarrow> an_text (ast_module t)),
            sb_contracts = [], sb_effects = [], sb_capabilities = [], sb_evidence = [], sb_obligations = [],
            sb_outgoing = 0, sb_incoming = 0, sb_members = []\<rparr>
      in case fe_program (da_front_end a) of
           None \<Rightarrow> empty
         | Some p \<Rightarrow>
             let described =
                   (case owning_function p e of
                      None \<Rightarrow> empty
                    | Some f \<Rightarrow> empty\<lparr>sb_capabilities := mo_capabilities f,
                        sb_effects := map (\<lambda>x. (me_kind x, me_capability x)) (mo_effects f),
                        sb_contracts := map (\<lambda>c. \<lparr>ci_id = mc_id c, ci_kind = contract_kind_text (mc_kind c),
                          ci_expression = mc_expression c,
                          ci_identity = api_contract_id api (pr_module p) (mo_name f) (mc_id c)\<rparr>) (mo_contracts f),
                        sb_evidence := map (\<lambda>v. \<lparr>ei_property = mv_property v, ei_verifier = mv_verifier v,
                          ei_status = evidence_status_label (mv_status v)\<rparr>) (mo_evidence f)\<rparr>);
                 edges = function_call_edges api p;
                 calls = (\<lambda>side. case se_identity e of None \<Rightarrow> 0 | Some i \<Rightarrow> length (filter (\<lambda>x. side x = i) edges))
             in described\<lparr>sb_members := members_of p e,
                  sb_obligations := map (obligation_info_of pf)
                    (filter (\<lambda>ob. obligation_subject_matches ob e) (pr_obligations p)),
                  sb_outgoing := calls fst, sb_incoming := calls snd\<rparr>)"

definition describe_identity ::
  "platform \<Rightarrow> string \<Rightarrow> string \<Rightarrow> service \<Rightarrow> (service_error + subject_description option response) \<times> service" where
  "describe_identity pf uri identity =
     with_snapshot pf uri (\<lambda>a sv.
       (case position (\<lambda>e. se_identity e = Some identity) (si_symbols (da_symbols a)) of
          None \<Rightarrow> Inl (Unresolved (''identity '' @ identity @ '' does not belong to this snapshot''))
        | Some target \<Rightarrow> Inr (respond uri a Answered (Some (describe_index pf uri a target))), sv))"

definition describe_position ::
  "platform \<Rightarrow> string \<Rightarrow> nat \<Rightarrow> nat \<Rightarrow> service \<Rightarrow> (service_error + subject_description option response) \<times> service" where
  "describe_position pf uri line character =
     with_snapshot pf uri (\<lambda>a sv.
       (case primary_symbol_index a (offset_at pf a line character) of
          None \<Rightarrow> Inl (Unresolved ''no resolvable subject at position'')
        | Some target \<Rightarrow> Inr (respond uri a Answered (Some (describe_index pf uri a target))), sv))"

section \<open>Tokens and folding\<close>

definition semantic_tokens ::
  "platform \<Rightarrow> string \<Rightarrow> service \<Rightarrow> (service_error + token_annotation list response) \<times> service" where
  "semantic_tokens pf uri =
     with_snapshot pf uri (\<lambda>a sv. (Inr (respond uri a Answered (compute_semantic_tokens pf a)), sv))"

definition foldable :: "cst_kind \<Rightarrow> bool" where
  "foldable k \<longleftrightarrow>
     k \<in> {FunctionDeclaration, FiniteTypeDeclaration, RecordTypeDeclaration, BlockNode, BoundedIterationNode}"

text \<open>A range is a pair of lines; the line of the closing brace stays visible.\<close>

definition fold_range :: "(nat \<Rightarrow> nat) \<Rightarrow> cst_kind \<Rightarrow> source_span \<Rightarrow> (nat \<times> nat) list" where
  "fold_range line_at k span =
     (let first = line_at (sp_start span); final = line_at (max (sp_end span) (sp_start span))
      in if foldable k \<and> final > first then [(first, final - 1)] else [])"

fun collect_fold_ranges :: "(nat \<Rightarrow> nat) \<Rightarrow> cst_node \<Rightarrow> (nat \<times> nat) list" where
  "collect_fold_ranges line_at (CstNode k span children) =
     fold_range line_at k span @ concat (map (collect_fold_ranges line_at) children)"

definition folding_ranges ::
  "platform \<Rightarrow> string \<Rightarrow> service \<Rightarrow> (service_error + (nat \<times> nat) list response) \<times> service" where
  "folding_ranges pf uri =
     with_snapshot pf uri (\<lambda>a sv.
       (Inr (respond uri a Answered
          (sort_key fst (collect_fold_ranges (\<lambda>b. pi_line (tl_position (pf_tools pf) (analysis_text a) b))
             (fe_cst (da_front_end a))))), sv))"

section \<open>Context packets\<close>

record context_excerpt =
  cx_label :: string
  cx_range :: range_info
  cx_text :: string

record context_packet =
  cq_subject :: "subject_description option"
  cq_excerpts :: "context_excerpt list"
  cq_complete :: bool
  cq_notes :: "string option"

definition max_packet_excerpts :: nat where "max_packet_excerpts = 12"

text \<open>\<^const>\<open>None\<close> is the panic of a slice that cuts a character.\<close>

definition safe_slice :: "string \<Rightarrow> nat \<Rightarrow> nat \<Rightarrow> string option" where
  "safe_slice t first final =
     (let first = min first (length t); final = max (min final (length t)) first
      in map_option trim (slice t first final))"

definition callee_excerpt ::
  "platform \<Rightarrow> document_analysis \<Rightarrow> graph_edge_target \<Rightarrow> context_excerpt option list" where
  "callee_excerpt pf a target =
     (case position (\<lambda>e. se_identity e = Some (gt_identity target)) (si_symbols (da_symbols a)) of
        None \<Rightarrow> []
      | Some i \<Rightarrow>
          let span = se_full_span (si_symbols (da_symbols a) ! i)
          in [map_option (\<lambda>t. \<lparr>cx_label = ''callee '' @ (case gt_name target of None \<Rightarrow> [] | Some n \<Rightarrow> n),
                               cx_range = range_at pf a span, cx_text = t\<rparr>)
                (safe_slice (analysis_text a) (sp_start span) (sp_end span))])"

definition packet_completeness ::
  "(query_error + graph_response) \<Rightarrow> context_excerpt list \<Rightarrow> bool \<times> string option" where
  "packet_completeness deps excerpts =
     (case deps of
        Inl _ \<Rightarrow> (False, Some ''dependency closure unavailable; packet may be incomplete'')
      | Inr d \<Rightarrow>
          if length (gr_outgoing d) < length excerpts then (True, None)
          else (False, Some (show_nat (length (gr_outgoing d) - (length excerpts - 1)) @
                             '' outgoing call(s) were not included within the excerpt budget'')))"

definition query_context_packet ::
  "platform \<Rightarrow> native_platform \<Rightarrow> string \<Rightarrow> string \<Rightarrow> nat \<Rightarrow> query_state
     \<Rightarrow> ((service_error + context_packet response) \<times> query_state) option" where
  "query_context_packet pf np uri identity max_excerpts q =
     (case on_service (describe_identity pf uri identity) q of
        (Inl e, q) \<Rightarrow> Some (Inl e, q)
      | (Inr described, q) \<Rightarrow>
          (case rs_payload described of
             None \<Rightarrow>
               Some (Inr \<lparr>rs_status = StUnresolved ''subject not found'', rs_snapshot = rs_snapshot described,
                 rs_payload = \<lparr>cq_subject = None, cq_excerpts = [], cq_complete = False,
                   cq_notes = Some ''cannot build a packet around an unknown subject''\<rparr>\<rparr>, q)
           | Some subject \<Rightarrow>
               (case on_service (snapshot pf uri) q of
                  (Inl e, q) \<Rightarrow> Some (Inl e, q)
                | (Inr a, q) \<Rightarrow>
                    let budget = min (max max_excerpts 1) max_packet_excerpts;
                        span = ss_range (sb_summary subject);
                        head = map_option (\<lambda>t. \<lparr>cx_label = ''declaration '' @ ss_name (sb_summary subject),
                                 cx_range = span, cx_text = t\<rparr>)
                                 (safe_slice (analysis_text a) (ri_start_byte span) (ri_end_byte span));
                        (first, q) = dependencies pf np uri identity q;
                        callees = (case first of Inl _ \<Rightarrow> []
                                   | Inr d \<Rightarrow> concat (map (callee_excerpt pf a) (take (budget - 1) (gr_outgoing d))));
                        (second, q) = dependencies pf np uri identity q
                    in map_option (\<lambda>excerpts.
                         case packet_completeness second excerpts of
                           (complete, notes) \<Rightarrow>
                             (Inr \<lparr>rs_status = Answered, rs_snapshot = rs_snapshot described,
                                   rs_payload = \<lparr>cq_subject = Some subject, cq_excerpts = excerpts,
                                     cq_complete = complete, cq_notes = notes\<rparr>\<rparr>, q))
                       (collect_some (head # callees)))))"

end
