(* ===== verification/Debug_Binding.thy ===== *)
theory Debug_Binding
  imports Document_Queries
begin

text \<open>
  \<open>debug_binding.rs\<close> and the query that fills it: one source subject, named by an identity or a
  position, in the vocabulary of the debugger.
\<close>

datatype capability_status = Supported | PartiallySupported | UnsupportedCapability | Emulated | BootstrapBoundary

record capability_state =
  cb_status :: capability_status
  cb_reason :: string

datatype binding_resolution = Exact | Derived | Unavailable

record source_binding =
  db_schema :: string
  db_identity :: string
  db_uri :: string
  db_profile :: string
  db_module :: string
  db_module_identity :: string
  db_function :: "string option"
  db_function_identity :: "string option"
  db_declaration :: "string option"
  db_case :: "string option"
  db_span :: range_info
  db_resolution :: binding_resolution
  db_failure :: "range_info option"
  db_operation :: "string option"
  db_operation_span :: "range_info option"
  db_operation_resolution :: capability_state
  db_failure_resolution :: capability_state
  db_breakpoint :: capability_state

definition debug_schema :: string where "debug_schema = ''mncs.debug-source-binding/1''"

definition analysis_module_name :: "document_analysis \<Rightarrow> string" where
  "analysis_module_name a =
     (case fe_ast (da_front_end a) of
        Some t \<Rightarrow> an_text (ast_module t)
      | None \<Rightarrow> (case fe_program (da_front_end a) of None \<Rightarrow> [] | Some p \<Rightarrow> pr_module p))"

text \<open>\<open>Option::or\<close>.\<close>

fun or_else :: "'a option \<Rightarrow> 'a option \<Rightarrow> 'a option" where
  "or_else (Some x) y = Some x"
| "or_else None y = y"

text \<open>What an identity or a position selects: an operation, a test and a symbol.\<close>

record debug_subject =
  du_operation :: "mapped_operation option"
  du_test :: "test_entry option"
  du_target :: "nat option"

definition tests_of :: "document_analysis \<Rightarrow> test_entry list" where
  "tests_of a = (case fe_tests (da_front_end a) of None \<Rightarrow> [] | Some ts \<Rightarrow> ts)"

definition source_map_of :: "document_analysis \<Rightarrow> source_map" where
  "source_map_of a =
     (case fe_source_map (da_front_end a) of None \<Rightarrow> \<lparr>sm_operations = [], sm_functions = []\<rparr> | Some m \<Rightarrow> m)"

definition subject_of_identity :: "model_api \<Rightarrow> document_analysis \<Rightarrow> string \<Rightarrow> debug_subject" where
  "subject_of_identity api a identity =
     (let symbols = si_symbols (da_symbols a);
          operation = find (\<lambda>op. op_identity op = identity) (sm_operations (source_map_of a));
          by_module = (if identity = api_module_id api (analysis_module_name a)
                       then position (\<lambda>e. se_kind e = Module) symbols else None);
          by_operation = Option.bind operation (\<lambda>op. position (\<lambda>e. se_identity e = Some (op_function op)) symbols)
      in \<lparr>du_operation = operation,
          du_test = find (\<lambda>t. te_case t = identity \<or> te_declaration t = identity \<or> te_function t = identity) (tests_of a),
          du_target = or_else (position (\<lambda>e. se_identity e = Some identity) symbols) (or_else by_module by_operation)\<rparr>)"

definition subject_of_offset :: "document_analysis \<Rightarrow> nat \<Rightarrow> debug_subject" where
  "subject_of_offset a byte =
     \<lparr>du_operation = None, du_test = find (\<lambda>t. span_contains (te_span t) byte) (tests_of a),
      du_target = primary_symbol_index a byte\<rparr>"

definition target_entry :: "document_analysis \<Rightarrow> debug_subject \<Rightarrow> symbol_entry option" where
  "target_entry a u = map_option (\<lambda>i. si_symbols (da_symbols a) ! i) (du_target u)"

definition binding_function :: "document_analysis \<Rightarrow> debug_subject \<Rightarrow> string option" where
  "binding_function a u =
     or_else (Option.bind (du_operation u) (\<lambda>op.
                map_option mp_name (find (\<lambda>f. mp_identity f = op_function op) (sm_functions (source_map_of a)))))
       (or_else (map_option te_name (du_test u))
          (Option.bind (target_entry a u) (\<lambda>e. if se_kind e = Function then Some (se_name e) else None)))"

definition binding_function_identity :: "document_analysis \<Rightarrow> debug_subject \<Rightarrow> string option" where
  "binding_function_identity a u =
     or_else (map_option op_function (du_operation u))
       (or_else (map_option te_function (du_test u)) (Option.bind (target_entry a u) se_identity))"

text \<open>The span of the subject; none is the panic of \<open>expect\<close>.\<close>

definition binding_span :: "document_analysis \<Rightarrow> debug_subject \<Rightarrow> source_span option" where
  "binding_span a u =
     or_else (Option.bind (du_operation u) op_span)
       (or_else (map_option te_span (du_test u))
         (or_else (map_option se_full_span (target_entry a u))
           (Option.bind (du_operation u) (\<lambda>op. Option.bind (binding_function_identity a u) (\<lambda>identity.
              map_option mp_span (find (\<lambda>f. mp_identity f = identity) (sm_functions (source_map_of a))))))))"

definition operation_state :: "mapped_operation option \<Rightarrow> capability_state" where
  "operation_state operation =
     (case operation of
        None \<Rightarrow> \<lparr>cb_status = UnsupportedCapability, cb_reason = ''declaration query has no runtime operation identity''\<rparr>
      | Some op \<Rightarrow>
          if op_span op \<noteq> None then
            \<lparr>cb_status = Supported,
             cb_reason = ''operation identity and exact source span resolved from mncs.execution-source-map/1''\<rparr>
          else
            \<lparr>cb_status = PartiallySupported,
             cb_reason = ''operation identity resolved, but the compiler marked this operation synthetic without a source span''\<rparr>)"

definition breakpoint_state :: "mapped_operation option \<Rightarrow> capability_state" where
  "breakpoint_state operation =
     (if operation \<noteq> None then
        \<lparr>cb_status = PartiallySupported,
         cb_reason = ''source operation resolution is available, but live suspension/stop control is not implemented''\<rparr>
      else
        \<lparr>cb_status = UnsupportedCapability,
         cb_reason = ''live breakpoint resolution is not implemented; clients may use the exact source_span as a navigation anchor''\<rparr>)"

definition make_binding :: "platform \<Rightarrow> string \<Rightarrow> document_analysis \<Rightarrow> debug_subject \<Rightarrow> source_span \<Rightarrow> source_binding" where
  "make_binding pf uri a u span =
     \<lparr>db_schema = debug_schema, db_identity = da_identity a, db_uri = uri, db_profile = da_profile a,
      db_module = analysis_module_name a, db_module_identity = api_module_id (tl_model (pf_tools pf)) (analysis_module_name a),
      db_function = binding_function a u, db_function_identity = binding_function_identity a u,
      db_declaration = map_option te_declaration (du_test u), db_case = map_option te_case (du_test u),
      db_span = range_at pf a span, db_resolution = Exact, db_failure = None,
      db_operation = map_option op_identity (du_operation u),
      db_operation_span = map_option (range_at pf a) (Option.bind (du_operation u) op_span),
      db_operation_resolution = operation_state (du_operation u),
      db_failure_resolution =
        \<lparr>cb_status = UnsupportedCapability,
         cb_reason = ''failure locations remain debugger/runtime evidence, not declaration-span guesses''\<rparr>,
      db_breakpoint = breakpoint_state (du_operation u)\<rparr>"

definition debug_source_binding ::
  "platform \<Rightarrow> string \<Rightarrow> string option \<Rightarrow> nat option \<Rightarrow> nat option \<Rightarrow> service
     \<Rightarrow> ((service_error + source_binding response) \<times> service) option" where
  "debug_source_binding pf uri identity line character sv =
     (let by_position = line \<noteq> None \<or> character \<noteq> None
      in if (identity \<noteq> None) = by_position \<or> (by_position \<and> (line = None \<or> character = None))
         then Some (Inl (InvalidRequest ''debug_source_binding requires exactly one identity or line+character''), sv)
         else
           case snapshot pf uri sv of
             (Inl e, sv) \<Rightarrow> Some (Inl e, sv)
           | (Inr a, sv) \<Rightarrow>
               let u = (case identity of
                          Some i \<Rightarrow> subject_of_identity (tl_model (pf_tools pf)) a i
                        | None \<Rightarrow> subject_of_offset a (offset_at pf a (the line) (the character)))
               in if du_target u = None \<and> du_test u = None \<and> du_operation u = None
                  then Some (Inl (Unresolved ''identity or position does not resolve to a compiler-owned source subject''), sv)
                  else map_option (\<lambda>span. (Inr (respond uri a Answered (make_binding pf uri a u span)), sv))
                         (binding_span a u))"

end
