(* ===== verification/Intel.thy ===== *)
theory Intel
  imports Document_Queries
begin

text \<open>
  \<open>intel.rs\<close>: signature help, type definitions, selection chains, the call hierarchy and inlay
  hints.
\<close>

section \<open>Signatures\<close>

record signature_parameter =
  sp_name :: string
  sp_type :: string

record function_signature =
  fs_label :: string
  fs_parameters :: "signature_parameter list"
  fs_generics :: "string list"
  fs_return :: "string option"

definition render_signature_label :: "string \<Rightarrow> string list \<Rightarrow> ast_field list \<Rightarrow> ast_field list \<Rightarrow> string" where
  "render_signature_label n generics inputs outputs =
     ''fn '' @ n @ (if generics = [] then [] else ''<'' @ join_str '', '' generics @ ''>'') @
     ''('' @ parameters_text inputs @ '') -> ('' @ parameters_text outputs @ '')''"

definition signature_of :: "document_analysis \<Rightarrow> nat \<Rightarrow> function_signature" where
  "signature_of a i =
     (let e = si_symbols (da_symbols a) ! i;
          found = ast_function_named a (se_name e);
          inputs = (case found of None \<Rightarrow> [] | Some f \<Rightarrow> fn_inputs f);
          outputs = (case found of None \<Rightarrow> [] | Some f \<Rightarrow> fn_outputs f);
          generics = (case found of None \<Rightarrow> [] | Some f \<Rightarrow> map an_text (fn_generics f))
      in \<lparr>fs_label = render_signature_label (se_name e) generics inputs outputs,
          fs_parameters = map (\<lambda>p. \<lparr>sp_name = an_text (af_name p), sp_type = af_type p\<rparr>) inputs,
          fs_generics = generics,
          fs_return = (case outputs of [] \<Rightarrow> None | out # _ \<Rightarrow> Some (af_type out))\<rparr>)"

section \<open>The call around the cursor\<close>

text \<open>
  Each left parenthesis with its mate: the stack holds the open ones, the innermost first. The
  result maps a position to the position of its mate.
\<close>

fun match_parens :: "(nat \<times> source_token) list \<Rightarrow> nat list \<Rightarrow> (nat \<rightharpoonup> nat) \<Rightarrow> (nat \<rightharpoonup> nat)" where
  "match_parens [] stack mates = mates"
| "match_parens ((i, t) # ts) stack mates =
     (if tk_kind t = LeftParen then match_parens ts (i # stack) mates
      else if tk_kind t = RightParen then
        (case stack of [] \<Rightarrow> match_parens ts [] mates | opened # stack \<Rightarrow> match_parens ts stack (mates(opened \<mapsto> i)))
      else match_parens ts stack mates)"

definition paren_mates :: "source_token list \<Rightarrow> nat \<rightharpoonup> nat" where
  "paren_mates tokens = match_parens (enumerate 0 tokens) [] Map.empty"

definition covers :: "source_token list \<Rightarrow> nat \<Rightarrow> nat \<Rightarrow> bool" where
  "covers tokens byte i \<longleftrightarrow>
     tk_kind (tokens ! i) = LeftParen \<and> sp_start (tk_span (tokens ! i)) \<le> byte \<and>
     (case paren_mates tokens i of None \<Rightarrow> True | Some j \<Rightarrow> byte \<le> sp_end (tk_span (tokens ! j)))"

text \<open>The scan keeps the group that starts last; of equal starts the first.\<close>

definition innermost_group :: "source_token list \<Rightarrow> nat \<Rightarrow> nat option" where
  "innermost_group tokens byte =
     fold (\<lambda>i best.
       if covers tokens byte i \<and>
          (case best of None \<Rightarrow> True
           | Some j \<Rightarrow> sp_start (tk_span (tokens ! j)) < sp_start (tk_span (tokens ! i)))
       then Some i else best) [0 ..< length tokens] None"

definition opens :: "token_kind \<Rightarrow> bool" where
  "opens k \<longleftrightarrow> k = LeftParen \<or> k = LeftBracket \<or> k = LeftBrace"

definition closes :: "token_kind \<Rightarrow> bool" where
  "closes k \<longleftrightarrow> k = RightParen \<or> k = RightBracket \<or> k = RightBrace"

text \<open>The commas at depth zero before the cursor.\<close>

fun count_commas :: "nat \<Rightarrow> source_token list \<Rightarrow> nat \<Rightarrow> nat \<Rightarrow> nat" where
  "count_commas byte [] depth active = active"
| "count_commas byte (t # ts) depth active =
     (if sp_end (tk_span t) > byte then active
      else if opens (tk_kind t) then count_commas byte ts (depth + 1) active
      else if closes (tk_kind t) then count_commas byte ts (depth - 1) active
      else if tk_kind t = Comma \<and> depth = 0 then count_commas byte ts depth (active + 1)
      else count_commas byte ts depth active)"

definition enclosing_call :: "document_analysis \<Rightarrow> nat \<Rightarrow> (string \<times> nat) option" where
  "enclosing_call a byte =
     (let tokens = significant_tokens a
      in Option.bind (innermost_group tokens byte) (\<lambda>opened.
           if opened = 0 then None
           else
             let callee = tokens ! (opened - 1);
                 close = (case paren_mates tokens opened of None \<Rightarrow> length tokens | Some j \<Rightarrow> j)
             in if tk_kind callee \<noteq> Identifier \<or> sp_end (tk_span callee) > sp_start (tk_span (tokens ! opened)) then None
                else Some (tk_text callee, count_commas byte (drop (opened + 1) (take close tokens)) 0 0)))"

section \<open>Signature help\<close>

record signature_help =
  sh_callee :: "symbol_summary option"
  sh_label :: "string option"
  sh_parameters :: "signature_parameter list"
  sh_active :: nat
  sh_generics :: "string list"
  sh_return :: "string option"

definition no_signature :: signature_help where
  "no_signature = \<lparr>sh_callee = None, sh_label = None, sh_parameters = [], sh_active = 0, sh_generics = [], sh_return = None\<rparr>"

definition function_position :: "document_analysis \<Rightarrow> string \<Rightarrow> nat option" where
  "function_position a n = position (\<lambda>e. se_kind e = Function \<and> se_name e = n) (si_symbols (da_symbols a))"

definition resolve_function ::
  "platform \<Rightarrow> document_analysis \<Rightarrow> string \<Rightarrow> string \<Rightarrow> service
     \<Rightarrow> (string \<times> document_analysis \<times> nat) option \<times> service" where
  "resolve_function pf a uri n sv =
     (case function_position a n of
        Some i \<Rightarrow>
          (case snapshot pf uri sv of
             (Inl _, sv) \<Rightarrow> (None, sv) | (Inr owned, sv) \<Rightarrow> (Some (uri, owned, i), sv))
      | None \<Rightarrow>
          let (_, sv) = ensure_workspace_entries pf sv
          in case find (\<lambda>(u, i). u \<noteq> uri) (lookup_function n (sy_index sv)) of
               None \<Rightarrow> (None, sv)
             | Some (u, _) \<Rightarrow>
                 (case snapshot pf u sv of
                    (Inl _, sv) \<Rightarrow> (None, sv)
                  | (Inr owned, sv) \<Rightarrow> (map_option (\<lambda>i. (u, owned, i)) (function_position owned n), sv)))"

definition query_signature_help ::
  "platform \<Rightarrow> string \<Rightarrow> nat \<Rightarrow> nat \<Rightarrow> service \<Rightarrow> (service_error + signature_help response) \<times> service" where
  "query_signature_help pf uri line character =
     with_snapshot pf uri (\<lambda>a sv.
       case enclosing_call a (offset_at pf a line character) of
         None \<Rightarrow> (Inr (respond uri a (StUnresolved ''the cursor is not inside a call argument list'') no_signature), sv)
       | Some (callee, active) \<Rightarrow>
           (case resolve_function pf a uri callee sv of
              (None, sv) \<Rightarrow>
                (Inr (respond uri a (StUnresolved (''call target '' @ quoted callee @ '' does not resolve to a known function''))
                   no_signature), sv)
            | (Some (owner, owned, i), sv) \<Rightarrow>
                let signature = signature_of owned i
                in (Inr (respond uri a Answered
                     \<lparr>sh_callee = Some (summary_at pf owner owned i), sh_label = Some (fs_label signature),
                      sh_parameters = fs_parameters signature,
                      sh_active = (if fs_parameters signature = [] then 0 else min active (length (fs_parameters signature) - 1)),
                      sh_generics = fs_generics signature, sh_return = fs_return signature\<rparr>), sv)))"

section \<open>Type definitions\<close>

text \<open>The declaration site is the definition site.\<close>

definition declaration_query ::
  "platform \<Rightarrow> string \<Rightarrow> nat \<Rightarrow> nat \<Rightarrow> service \<Rightarrow> (service_error + symbol_summary list response) \<times> service" where
  "declaration_query pf uri line character = definition_query pf uri line character"

definition symbol_type_name :: "document_analysis \<Rightarrow> nat \<Rightarrow> string option" where
  "symbol_type_name a i =
     (let e = si_symbols (da_symbols a) ! i
      in case se_kind e of
           Parameter \<Rightarrow> se_type_name e
         | Binding \<Rightarrow> se_type_name e
         | IterationState \<Rightarrow> se_type_name e
         | RecordField \<Rightarrow> se_type_name e
         | Function \<Rightarrow> Option.bind (ast_function_named a (se_name e)) (\<lambda>f.
             (case fn_outputs f of [] \<Rightarrow> None | out # _ \<Rightarrow> Some (af_type out)))
         | FiniteType \<Rightarrow> Some (se_name e)
         | RecordType \<Rightarrow> Some (se_name e)
         | FiniteVariant \<Rightarrow> Option.bind (se_container e) (\<lambda>parent.
             Option.bind (fe_ast (da_front_end a)) (\<lambda>t.
               map_option (\<lambda>_. parent) (find (\<lambda>d. an_text (ae_name d) = parent) (ast_finite_types t))))
         | Module \<Rightarrow> None)"

text \<open>The branch for a reference whose target the primary lookup did not take.\<close>

definition reference_type_name ::
  "platform \<Rightarrow> string \<Rightarrow> document_analysis \<Rightarrow> nat \<Rightarrow> service \<Rightarrow> string option \<times> service" where
  "reference_type_name pf uri a byte sv =
     (case references_at (da_symbols a) byte of
        [] \<Rightarrow> (None, sv)
      | r # _ \<Rightarrow>
          (case imported_target pf (map_option (summary_at pf uri a) (re_target r)) sv of
             (found, sv) \<Rightarrow> (Option.bind found (\<lambda>(b, i, s). symbol_type_name b i), sv)))"

definition type_definition ::
  "platform \<Rightarrow> string \<Rightarrow> nat \<Rightarrow> nat \<Rightarrow> service \<Rightarrow> (service_error + symbol_summary list response) \<times> service" where
  "type_definition pf uri line character =
     with_snapshot pf uri (\<lambda>a sv.
       let byte = offset_at pf a line character;
           (type_name, sv) =
             (case primary_symbol_index a byte of
                Some i \<Rightarrow> (symbol_type_name a i, sv) | None \<Rightarrow> reference_type_name pf uri a byte sv)
       in case type_name of
            None \<Rightarrow> (Inr (respond uri a (StUnresolved ''no typed symbol resolves at this position'') []), sv)
          | Some ty \<Rightarrow>
              if is_builtin_type ty then
                (Inr (respond uri a (StUnresolved (''builtin scalar type '' @ quoted ty @ '' has no declaration site'')) []), sv)
              else
                let (_, sv) = ensure_workspace_entries pf sv;
                    found = dedup (sort_key ss_uri (List.map_filter (symbol_at (sy_index sv)) (lookup_type ty (sy_index sv))))
                in (Inr (respond uri a
                     (if found = [] then StUnresolved (''no declaration of type '' @ quoted ty @ '' is visible'') else Answered)
                     found), sv))"

section \<open>Selection ranges\<close>

definition node_contains :: "cst_node \<Rightarrow> nat \<Rightarrow> bool" where
  "node_contains node byte \<longleftrightarrow> span_contains (cn_span node) byte"

definition node_width :: "cst_node \<Rightarrow> nat" where
  "node_width node = sp_end (cn_span node) - sp_start (cn_span node)"

text \<open>The first of the tightest children that contain the offset.\<close>

definition tightest_child :: "nat \<Rightarrow> cst_node list \<Rightarrow> cst_node option" where
  "tightest_child byte children = min_by_key node_width (filter (\<lambda>c. node_contains c byte) children)"

lemma tightest_child_mem: "tightest_child byte children = Some c \<Longrightarrow> c \<in> set children"
  by (auto simp: tightest_child_def dest: min_by_key_Some)

function collect_cst_chain :: "nat \<Rightarrow> cst_node \<Rightarrow> cst_node list" where
  "collect_cst_chain byte node =
     (if \<not> node_contains node byte then []
      else node # (case tightest_child byte (cn_children node) of
                     None \<Rightarrow> [] | Some child \<Rightarrow> collect_cst_chain byte child))"
  by pat_completeness auto
termination
proof (relation "measure (size \<circ> snd)", goal_cases)
  case (2 byte node child)
  then have "child \<in> set (cn_children node)" by (intro tightest_child_mem) simp
  moreover have "c \<in> set cs \<Longrightarrow> size c < size (CstNode k s cs)" for c k s cs
    by (induction cs) (auto simp: less_Suc_eq)
  ultimately show ?case by (cases node) simp
qed simp

declare collect_cst_chain.simps [simp del]

definition selection_chain :: "platform \<Rightarrow> document_analysis \<Rightarrow> nat \<times> nat \<Rightarrow> range_info list" where
  "selection_chain pf a pos =
     dedup (map (range_at pf a \<circ> cn_span)
       (rev (collect_cst_chain (offset_at pf a (fst pos) (snd pos)) (fe_cst (da_front_end a)))))"

definition selection_ranges ::
  "platform \<Rightarrow> string \<Rightarrow> (nat \<times> nat) list \<Rightarrow> service \<Rightarrow> (service_error + range_info list list response) \<times> service" where
  "selection_ranges pf uri positions =
     with_snapshot pf uri (\<lambda>a sv. (Inr (respond uri a Answered (map (selection_chain pf a) positions)), sv))"

section \<open>Call hierarchy\<close>

record hierarchy_item =
  hi_name :: string
  hi_kind :: symbol_kind
  hi_identity :: "string option"
  hi_uri :: string
  hi_range :: range_info
  hi_name_range :: range_info
  hi_detail :: "string option"

record hierarchy_edge =
  he_item :: hierarchy_item
  he_ranges :: "range_info list"

definition hierarchy_item_of :: "symbol_summary \<Rightarrow> string \<Rightarrow> hierarchy_item" where
  "hierarchy_item_of s fallback =
     \<lparr>hi_name = ss_name s, hi_kind = ss_kind s, hi_identity = ss_identity s,
      hi_uri = (case ss_uri s of None \<Rightarrow> fallback | Some u \<Rightarrow> u), hi_range = ss_range s,
      hi_name_range = ss_name_range s, hi_detail = ss_detail s\<rparr>"

definition prepare_call_hierarchy ::
  "platform \<Rightarrow> string \<Rightarrow> nat \<Rightarrow> nat \<Rightarrow> service \<Rightarrow> (service_error + hierarchy_item list response) \<times> service" where
  "prepare_call_hierarchy pf uri line character =
     with_snapshot pf uri (\<lambda>a sv.
       let byte = offset_at pf a line character;
           at = Option.bind (primary_symbol_index a byte) (\<lambda>i.
             if se_kind (si_symbols (da_symbols a) ! i) = Function then Some i else enclosing_function a byte)
       in (Inr (case at of
                  None \<Rightarrow> respond uri a (StUnresolved ''the cursor is not on or inside a function'') []
                | Some i \<Rightarrow> respond uri a Answered [hierarchy_item_of (summary_at pf uri a i) uri]), sv))"

definition identity_position :: "document_analysis \<Rightarrow> string \<Rightarrow> nat option" where
  "identity_position a identity = position (\<lambda>e. se_identity e = Some identity) (si_symbols (da_symbols a))"

definition symbol_by_identity ::
  "platform \<Rightarrow> string \<Rightarrow> service \<Rightarrow> (string \<times> document_analysis \<times> nat) option \<times> service" where
  "symbol_by_identity pf identity sv =
     (let (_, sv) = ensure_workspace_entries pf sv
      in case lookup_identity identity (sy_index sv) of
           None \<Rightarrow> (None, sv)
         | Some (u, _) \<Rightarrow>
             (case snapshot pf u sv of
                (Inl _, sv) \<Rightarrow> (None, sv)
              | (Inr b, sv) \<Rightarrow> (map_option (\<lambda>i. (u, b, i)) (identity_position b identity), sv)))"

text \<open>The call sites of one caller, by document and symbol.\<close>

definition group_callers :: "indexed_occurrence list \<Rightarrow> (string \<times> nat, range_info list) btree" where
  "group_callers ios =
     fold (\<lambda>io m. case io_function io of None \<Rightarrow> m
             | Some caller \<Rightarrow> bt_update_default [] (io_uri io, caller) (\<lambda>rs. rs @ [io_range io]) m) ios bt_empty"

definition incoming_edges :: "workspace_index \<Rightarrow> (string \<times> nat, range_info list) btree \<Rightarrow> hierarchy_edge list" where
  "incoming_edges ix groups =
     List.map_filter (\<lambda>(caller, ranges). map_option
         (\<lambda>s. \<lparr>he_item = hierarchy_item_of s (fst caller), he_ranges = ranges\<rparr>) (symbol_at ix caller))
       (bt_entries groups)"

definition sort_edges :: "hierarchy_edge list \<Rightarrow> hierarchy_edge list" where
  "sort_edges = sort_key (\<lambda>e. (hi_uri (he_item e), hi_name (he_item e)))"

text \<open>Both directions reject an identity that is unknown or not a function.\<close>

definition with_function ::
  "platform \<Rightarrow> string \<Rightarrow> string
     \<Rightarrow> (string \<Rightarrow> document_analysis \<Rightarrow> nat \<Rightarrow> service \<Rightarrow> hierarchy_edge list \<times> service)
     \<Rightarrow> service \<Rightarrow> (service_error + hierarchy_edge list response) \<times> service" where
  "with_function pf uri identity f =
     with_snapshot pf uri (\<lambda>a sv.
       case symbol_by_identity pf identity sv of
         (None, sv) \<Rightarrow>
           (Inr (respond uri a (StUnresolved (''identity '' @ identity @ '' names no workspace symbol'')) []), sv)
       | (Some (u, b, i), sv) \<Rightarrow>
           if se_kind (si_symbols (da_symbols b) ! i) \<noteq> Function
           then (Inr (respond uri a (StUnresolved ''only functions participate in the call hierarchy'') []), sv)
           else (case f u b i sv of (edges, sv) \<Rightarrow> (Inr (respond uri a Answered (sort_edges edges)), sv)))"

definition incoming_calls ::
  "platform \<Rightarrow> string \<Rightarrow> string \<Rightarrow> service \<Rightarrow> (service_error + hierarchy_edge list response) \<times> service" where
  "incoming_calls pf uri identity =
     with_function pf uri identity (\<lambda>u b i sv.
       let (_, sv) = ensure_workspace_entries pf sv;
           sites = occurrences_for_declaration (se_name_span (si_symbols (da_symbols b) ! i)) Function (sy_index sv)
       in (incoming_edges (sy_index sv) (group_callers sites), sv))"

text \<open>The references of a function's body, its own name left out.\<close>

definition body_references :: "document_analysis \<Rightarrow> nat \<Rightarrow> reference_entry list" where
  "body_references b i =
     (let e = si_symbols (da_symbols b) ! i
      in filter (\<lambda>r. re_kind r = Function \<and> span_contains (se_full_span e) (sp_start (re_occurrence r)) \<and>
                     re_occurrence r \<noteq> se_name_span e) (si_references (da_symbols b)))"

definition target_key :: "symbol_summary \<Rightarrow> string" where
  "target_key s =
     (case ss_identity s of
        Some i \<Rightarrow> i | None \<Rightarrow> (case ss_uri s of None \<Rightarrow> [] | Some u \<Rightarrow> u) @ '':'' @ ss_name s)"

definition add_target ::
  "range_info \<Rightarrow> symbol_summary \<Rightarrow> (string, symbol_summary \<times> range_info list) btree
     \<Rightarrow> (string, symbol_summary \<times> range_info list) btree" where
  "add_target rng s m = bt_update_default (s, []) (target_key s) (\<lambda>(t, rs). (t, rs @ [rng])) m"

fun group_targets ::
  "platform \<Rightarrow> string \<Rightarrow> document_analysis \<Rightarrow> reference_entry list \<Rightarrow> (string, symbol_summary \<times> range_info list) btree
     \<Rightarrow> service \<Rightarrow> (string, symbol_summary \<times> range_info list) btree \<times> service" where
  "group_targets pf u b [] m sv = (m, sv)"
| "group_targets pf u b (r # rs) m sv =
     (case targets_for_reference pf u b r sv of
        (targets, sv) \<Rightarrow> group_targets pf u b rs (fold (add_target (range_at pf b (re_occurrence r))) targets m) sv)"

definition outgoing_calls ::
  "platform \<Rightarrow> string \<Rightarrow> string \<Rightarrow> service \<Rightarrow> (service_error + hierarchy_edge list response) \<times> service" where
  "outgoing_calls pf uri identity =
     with_function pf uri identity (\<lambda>u b i sv.
       case group_targets pf u b (body_references b i) bt_empty sv of
         (groups, sv) \<Rightarrow>
           (map (\<lambda>(_, s, ranges). \<lparr>he_item = hierarchy_item_of s u, he_ranges = dedup (sort_key ri_start_byte ranges)\<rparr>)
              (bt_entries groups), sv))"

section \<open>Inlay hints\<close>

record inlay_hint =
  ih_line :: nat
  ih_character :: nat
  ih_label :: string

definition max_inlay_hints :: nat where "max_inlay_hints = 200"

text \<open>The first token of every argument after an opening parenthesis.\<close>

fun argument_starts :: "source_token list \<Rightarrow> nat \<Rightarrow> bool \<Rightarrow> nat list" where
  "argument_starts [] depth expect = []"
| "argument_starts (t # ts) depth expect =
     (if opens (tk_kind t) then
        (if expect \<and> depth = 0 then sp_start (tk_span t) # argument_starts ts (depth + 1) False
         else argument_starts ts (depth + 1) expect)
      else if closes (tk_kind t) then (if depth = 0 then [] else argument_starts ts (depth - 1) expect)
      else if tk_kind t = Comma \<and> depth = 0 then argument_starts ts depth True
      else if expect \<and> depth = 0 then sp_start (tk_span t) # argument_starts ts depth False
      else argument_starts ts depth expect)"

text \<open>The position after the parenthesis that follows the name token starting at an offset.\<close>

definition call_open :: "source_token list \<Rightarrow> nat \<Rightarrow> nat option" where
  "call_open tokens at =
     Option.bind (position (\<lambda>t. sp_start (tk_span t) = at) tokens) (\<lambda>i.
       if i + 1 < length tokens \<and> tk_kind (tokens ! (i + 1)) = LeftParen then Some (i + 2) else None)"

type_synonym signature_cache = "(string, signature_parameter list) btree"

definition reference_parameters ::
  "platform \<Rightarrow> string \<Rightarrow> document_analysis \<Rightarrow> reference_entry \<Rightarrow> signature_cache \<Rightarrow> service
     \<Rightarrow> signature_parameter list option \<times> signature_cache \<times> service" where
  "reference_parameters pf uri a r cache sv =
     (case re_target r of
        Some target \<Rightarrow>
          (if se_kind (si_symbols (da_symbols a) ! target) \<noteq> Function then None
           else Some (fs_parameters (signature_of a target)), cache, sv)
      | None \<Rightarrow>
          (case bt_lookup cache (re_target_name r) of
             Some ps \<Rightarrow> (Some ps, cache, sv)
           | None \<Rightarrow>
               (case resolve_function pf a uri (re_target_name r) sv of
                  (None, sv) \<Rightarrow> (None, cache, sv)
                | (Some (owner, owned, i), sv) \<Rightarrow>
                    let ps = fs_parameters (signature_of owned i)
                    in (Some ps, bt_insert (re_target_name r) ps cache, sv))))"

definition call_hints ::
  "platform \<Rightarrow> document_analysis \<Rightarrow> nat \<Rightarrow> nat \<Rightarrow> nat \<Rightarrow> signature_parameter list \<Rightarrow> inlay_hint list" where
  "call_hints pf a first final at ps =
     (let tokens = significant_tokens a
      in case call_open tokens at of
           None \<Rightarrow> []
         | Some i \<Rightarrow>
             let starts = argument_starts (drop i tokens) 0 True
             in if length starts \<noteq> length ps then []
                else map (\<lambda>(b, p). let pos = tl_position (pf_tools pf) (analysis_text a) b
                     in \<lparr>ih_line = pi_line pos, ih_character = pi_character pos, ih_label = sp_name p @ '':''\<rparr>)
                   (filter (\<lambda>(b, p). first \<le> b \<and> b \<le> final) (zip starts ps)))"

text \<open>The loop over the references; it stops at the bound.\<close>

fun hint_loop ::
  "platform \<Rightarrow> string \<Rightarrow> document_analysis \<Rightarrow> nat \<Rightarrow> nat \<Rightarrow> reference_entry list \<Rightarrow> signature_cache \<Rightarrow> inlay_hint list
     \<Rightarrow> service \<Rightarrow> inlay_hint list \<times> service" where
  "hint_loop pf uri a first final [] cache hints sv = (hints, sv)"
| "hint_loop pf uri a first final (r # rs) cache hints sv =
     (if re_kind r \<noteq> Function \<or> sp_start (re_occurrence r) < first \<or> sp_start (re_occurrence r) > final
      then hint_loop pf uri a first final rs cache hints sv
      else
        case reference_parameters pf uri a r cache sv of
          (None, cache, sv) \<Rightarrow> hint_loop pf uri a first final rs cache hints sv
        | (Some ps, cache, sv) \<Rightarrow>
            let hints = take max_inlay_hints (hints @ call_hints pf a first final (sp_start (re_occurrence r)) ps)
            in if length hints \<ge> max_inlay_hints then (hints, sv)
               else hint_loop pf uri a first final rs cache hints sv)"

definition inlay_hints ::
  "platform \<Rightarrow> string \<Rightarrow> nat \<Rightarrow> nat \<Rightarrow> nat \<Rightarrow> nat \<Rightarrow> service \<Rightarrow> (service_error + inlay_hint list response) \<times> service" where
  "inlay_hints pf uri start_line start_character end_line end_character =
     with_snapshot pf uri (\<lambda>a sv.
       let first = offset_at pf a start_line start_character; final = offset_at pf a end_line end_character
       in case hint_loop pf uri a (min first final) (max first final) (si_references (da_symbols a)) bt_empty [] sv of
            (hints, sv) \<Rightarrow> (Inr (respond uri a Answered (sort_key (\<lambda>h. (ih_line h, ih_character h)) hints)), sv))"

end
