(* ===== verification/Document_Queries_Props.thy ===== *)
theory Document_Queries_Props
  imports Document_Queries Intel Debug_Binding Completion_Props "HOL-Library.Multiset"
begin

text \<open>
  What the document queries promise: the symbol tree holds every symbol once (with the number of
  symbols as fuel), an answer that used a kernel agrees with the control computation, and the answers
  of the cursor queries are nested, bounded and ordered.
\<close>

section \<open>Forests of parent links\<close>

locale parent_forest =
  fixes size :: nat and parent :: "nat \<Rightarrow> nat option"
  assumes parent_before: "j < size \<Longrightarrow> parent j = Some q \<Longrightarrow> q < j"
begin

definition children :: "nat option \<Rightarrow> nat list" where
  "children q = filter (\<lambda>j. parent j = q) [0..<size]"

fun descend :: "nat \<Rightarrow> nat \<Rightarrow> nat list" where
  "descend 0 i = []"
| "descend (Suc fuel) i = i # concat (map (descend fuel) (children (Some i)))"

lemma children_iff [simp]: "j \<in> set (children q) \<longleftrightarrow> j < size \<and> parent j = q"
  by (auto simp: children_def)

lemma distinct_children [simp]: "distinct (children q)"
  by (simp add: children_def)

lemma descend_ge: "j \<in> set (descend fuel i) \<Longrightarrow> i < size \<Longrightarrow> i \<le> j \<and> j < size"
proof (induction fuel arbitrary: i)
  case (Suc fuel)
  then consider "j = i" | c where "c < size" "parent c = Some i" "j \<in> set (descend fuel c)" by auto
  then show ?case
  proof cases
    case 2
    then show ?thesis using Suc.IH [OF 2(3,1)] parent_before [OF 2(1,2)] by simp
  qed (use Suc.prems in simp)
qed simp

lemma descend_self: "j < size \<Longrightarrow> 0 < fuel \<Longrightarrow> j \<in> set (descend fuel j)"
  by (cases fuel) simp_all

lemma parent_not_below:
  assumes "d < size" "parent d = Some q"
  shows "q \<notin> set (descend f d)"
  using parent_before [OF assms] descend_ge [of q f d] assms(1) by auto

lemma descend_up:
  "j \<in> set (descend fuel i) \<Longrightarrow> i < size \<Longrightarrow> j = i \<or> (\<exists>q. parent j = Some q \<and> q \<in> set (descend fuel i))"
proof (induction fuel arbitrary: i)
  case (Suc fuel)
  then consider "j = i" | c where "c < size" "parent c = Some i" "j \<in> set (descend fuel c)" by auto
  then show ?case
  proof cases
    case 2
    then show ?thesis using Suc.IH [OF 2(3,1)] by auto
  qed simp
qed simp

lemma descend_down:
  "q \<in> set (descend fuel i) \<Longrightarrow> i < size \<Longrightarrow> size \<le> fuel + i \<Longrightarrow> j < size \<Longrightarrow> parent j = Some q
     \<Longrightarrow> j \<in> set (descend fuel i)"
proof (induction fuel arbitrary: i)
  case (Suc fuel)
  have self: "c \<in> set (descend fuel c)" if "c < size" "parent c = Some i" for c
    using parent_before [OF that] Suc.prems that by (intro descend_self) auto
  from Suc.prems(1) consider "q = i" | c where "c < size" "parent c = Some i" "q \<in> set (descend fuel c)" by auto
  then show ?case
  proof cases
    case 1
    then show ?thesis using Suc.prems self [of j] by auto
  next
    case 2
    have "size \<le> fuel + c" using parent_before [OF 2(1,2)] Suc.prems by simp
    then have "j \<in> set (descend fuel c)" using Suc.IH [OF 2(3,1)] Suc.prems by blast
    then show ?thesis using 2 by auto
  qed
qed simp

lemma siblings_apart:
  assumes "c < size" "d < size" "c \<noteq> d" "parent c = parent d"
  shows "j \<in> set (descend f c) \<Longrightarrow> j \<in> set (descend f d) \<Longrightarrow> False"
proof (induction j rule: less_induct)
  case (less j)
  show False
  proof (cases "j = c \<or> j = d")
    case True
    then show False
      using descend_up [OF less.prems(1) assms(1)] descend_up [OF less.prems(2) assms(2)] parent_not_below assms by metis
  next
    case False
    then obtain q where q: "parent j = Some q" "q \<in> set (descend f c)" "q \<in> set (descend f d)"
      using descend_up [OF less.prems(1) assms(1)] descend_up [OF less.prems(2) assms(2)] by auto
    have "q < j" using q(1) descend_ge [OF less.prems(1) assms(1)] parent_before by blast
    then show False using less.IH q by blast
  qed
qed

lemma distinct_concat_children:
  assumes "\<And>c. c \<in> set (children q) \<Longrightarrow> distinct (descend f c)"
  shows "distinct (concat (map (descend f) (children q)))"
proof -
  have "distinct (concat (map (descend f) cs))" if "distinct cs" "set cs \<subseteq> set (children q)" for cs
    using that
  proof (induction cs)
    case (Cons c cs)
    have "set (descend f c) \<inter> set (descend f d) = {}" if "d \<in> set cs" for d
      using siblings_apart [of c d _ f] Cons.prems that by fastforce
    then show ?case using Cons assms by auto
  qed simp
  then show ?thesis by simp
qed

lemma distinct_descend: "i < size \<Longrightarrow> distinct (descend fuel i)"
proof (induction fuel arbitrary: i)
  case (Suc fuel)
  have "i \<notin> set (descend fuel c)" if "c < size" "parent c = Some i" for c
    using descend_ge [of i fuel c] parent_before that by fastforce
  then show ?case using distinct_concat_children [of "Some i" fuel] Suc.IH by auto
qed simp

lemma forest_complete: "mset (concat (map (descend size) (children None))) = mset [0..<size]"
proof -
  have "j \<in> set (concat (map (descend size) (children None)))" if "j < size" for j
    using that
  proof (induction j rule: less_induct)
    case (less j)
    show ?case
    proof (cases "parent j")
      case None
      moreover have "j \<in> set (descend size j)" using less.prems by (intro descend_self) auto
      ultimately show ?thesis using less.prems by auto
    next
      case (Some q)
      then have "q < j" using parent_before less.prems by blast
      then obtain r where r: "r \<in> set (children None)" "q \<in> set (descend size r)"
        using less by (auto simp del: children_iff)
      then have "j \<in> set (descend size r)" using descend_down [of q size r j] Some less.prems by auto
      then show ?thesis using r by auto
    qed
  qed
  moreover have "set (concat (map (descend size) (children None))) \<subseteq> {..<size}"
    using descend_ge by fastforce
  moreover have "distinct (concat (map (descend size) (children None)))"
    by (rule distinct_concat_children) (simp add: distinct_descend)
  ultimately show ?thesis by (subst set_eq_iff_mset_eq_distinct [symmetric]) auto
qed

end

interpretation symbol_forest: parent_forest "length (si_symbols (si_build api fe))"
    "\<lambda>i. se_parent (si_symbols (si_build api fe) ! i)" for api fe
  by unfold_locales (use si_build_wf [of api fe] in \<open>auto simp: si_wf_def\<close>)

section \<open>The symbol tree\<close>

fun tree_summaries :: "symbol_node \<Rightarrow> symbol_summary list" where
  "tree_summaries (SymbolNode s ns) = s # concat (map tree_summaries ns)"

lemma collect_some_map:
  "(\<And>x. x \<in> set xs \<Longrightarrow> \<exists>y. f x = Some y \<and> g y = h x) \<Longrightarrow>
     \<exists>ys. collect_some (map f xs) = Some ys \<and> map g ys = map h xs"
proof (induction xs)
  case (Cons x xs)
  obtain y where "f x = Some y" "g y = h x" using Cons.prems [of x] by auto
  moreover obtain ys where "collect_some (map f xs) = Some ys" "map g ys = map h xs" using Cons by auto
  ultimately show ?case by (intro exI [of _ "y # ys"]) simp
qed simp

lemma children_of_forest:
  assumes "da_symbols a = si_build api fe"
  shows "children_of a i = symbol_forest.children api fe (Some i)" "tree_roots a = symbol_forest.children api fe None"
proof -
  have *: "map fst (filter (\<lambda>(j, e). P e) (enumerate 0 xs)) = filter (\<lambda>j. P (xs ! j)) [0..<length xs]"
    for P and xs :: "symbol_entry list"
    by (induction xs rule: rev_induct)
      (auto simp: enumerate_append_eq nth_append intro!: filter_cong)
  show "children_of a i = symbol_forest.children api fe (Some i)" "tree_roots a = symbol_forest.children api fe None"
    by (simp_all add: children_of_def tree_roots_def symbol_forest.children_def assms *)
qed

lemma assemble_descend:
  assumes "da_symbols a = si_build api fe"
  shows "i < length (si_symbols (da_symbols a)) \<Longrightarrow> length (si_symbols (da_symbols a)) \<le> fuel + i \<Longrightarrow>
    \<exists>t. assemble fuel pf uri a i = Some t \<and>
      tree_summaries t = map (summary_at pf uri a) (symbol_forest.descend api fe fuel i)"
proof (induction fuel arbitrary: i)
  case (Suc fuel)
  have "\<exists>t. assemble fuel pf uri a c = Some t \<and>
      tree_summaries t = map (summary_at pf uri a) (symbol_forest.descend api fe fuel c)"
    if "c \<in> set (children_of a i)" for c
  proof (rule Suc.IH)
    have "c < length (si_symbols (si_build api fe))" "i < c"
      using that symbol_forest.parent_before [of c api fe i] by (simp_all add: children_of_forest [OF assms])
    then show "c < length (si_symbols (da_symbols a))" "length (si_symbols (da_symbols a)) \<le> fuel + c"
      using Suc.prems by (simp_all add: assms)
  qed
  then obtain ts where "collect_some (map (assemble fuel pf uri a) (children_of a i)) = Some ts"
    "map tree_summaries ts =
      map (\<lambda>c. map (summary_at pf uri a) (symbol_forest.descend api fe fuel c)) (children_of a i)"
    using collect_some_map [of "children_of a i" "assemble fuel pf uri a" tree_summaries
      "\<lambda>c. map (summary_at pf uri a) (symbol_forest.descend api fe fuel c)"] by auto
  then show ?case
    by (simp add: children_of_forest [OF assms] map_concat comp_def)
qed simp

lemma symbol_tree_of_build:
  assumes "da_symbols a = si_build api fe"
  shows "\<exists>nodes. build_symbol_tree pf uri a = Some nodes \<and>
    mset (concat (map tree_summaries nodes)) = mset (map (summary_at pf uri a) [0..<length (si_symbols (da_symbols a))])"
proof -
  let ?n = "length (si_symbols (da_symbols a))"
  have "\<exists>t. assemble ?n pf uri a c = Some t \<and>
      tree_summaries t = map (summary_at pf uri a) (symbol_forest.descend api fe ?n c)"
    if "c \<in> set (tree_roots a)" for c
    using assemble_descend [OF assms, of c ?n pf uri] that by (simp add: children_of_forest [OF assms]) (simp add: assms)
  then obtain ts where ts: "collect_some (map (assemble ?n pf uri a) (tree_roots a)) = Some ts"
    "map tree_summaries ts = map (\<lambda>c. map (summary_at pf uri a) (symbol_forest.descend api fe ?n c)) (tree_roots a)"
    using collect_some_map [of "tree_roots a" "assemble ?n pf uri a" tree_summaries
      "\<lambda>c. map (summary_at pf uri a) (symbol_forest.descend api fe ?n c)"] by auto
  have "mset (map (summary_at pf uri a) (concat (map (symbol_forest.descend api fe ?n) (tree_roots a)))) =
      mset (map (summary_at pf uri a) [0..<?n])"
    using symbol_forest.forest_complete [of api fe] by (simp add: children_of_forest [OF assms]) (simp add: assms)
  then show ?thesis using ts by (simp add: build_symbol_tree_def map_concat comp_def)
qed

text \<open>The symbol tree of an analysed document always exists, with the number of symbols as fuel, and
  holds every symbol of the document exactly once: none is lost under its parent and none repeats.\<close>

theorem symbol_tree_complete:
  "\<exists>nodes. build_symbol_tree pf uri (fst (analyze_with_resolver env px tc uri e generation st)) = Some nodes \<and>
    mset (concat (map tree_summaries nodes)) =
      mset (map (summary_at pf uri (fst (analyze_with_resolver env px tc uri e generation st)))
        [0..<length (si_symbols (da_symbols (fst (analyze_with_resolver env px tc uri e generation st))))])"
proof -
  have "\<exists>fe. da_symbols (fst (analyze_with_resolver env px tc uri e generation st)) = si_build (tl_model tc) fe"
    by (auto simp: analyze_with_resolver_def split: prod.split)
  then show ?thesis using symbol_tree_of_build by blast
qed

section \<open>Answers that used a kernel\<close>

definition label_counts :: "string list \<Rightarrow> status_counts" where
  "label_counts labels =
     \<lparr>sx_pass = length (filter (\<lambda>l. l = ''pass'') labels), sx_fail = length (filter (\<lambda>l. l = ''fail'') labels),
      sx_unknown = length (filter (\<lambda>l. l = ''unknown'') labels)\<rparr>"

lemma fold_count_status:
  "fold (\<lambda>ob. count_status (ob_status ob)) obs c =
     \<lparr>sx_pass = sx_pass c + sx_pass (label_counts (map (\<lambda>ob. status_label (ob_status ob)) obs)),
      sx_fail = sx_fail c + sx_fail (label_counts (map (\<lambda>ob. status_label (ob_status ob)) obs)),
      sx_unknown = sx_unknown c + sx_unknown (label_counts (map (\<lambda>ob. status_label (ob_status ob)) obs))\<rparr>"
  by (induction obs arbitrary: c) (auto simp: label_counts_def count_status_def split: obligation_status.split)

lemma obligations_response_counts:
  "obligations_response pf uri subject sv = (Inr r, sv') \<Longrightarrow> ox_counts (rs_payload r) = label_counts (map oi_status (ox_items (rs_payload r)))"
  by (auto simp: obligations_response_def with_snapshot_def respond_def fold_count_status obligation_info_of_def
      no_counts_def label_counts_def comp_def split: prod.splits sum.splits option.splits)

text \<open>The native obligation query fails closed: when it answers, the counts it reports are the numbers
  of listed obligations with each status, the kernel observed every one of them in a valid envelope, and the
  dominant status it computed is the one of those counts. Otherwise the answer is marked unsupported.\<close>

theorem native_obligations_fail_closed:
  "case fst (query_native_obligations pf np uri subject q) of
     Inl _ \<Rightarrow> True
   | Inr r \<Rightarrow>
       (case rs_status r of
          Answered \<Rightarrow>
            no_counts_used (rs_payload r) = label_counts (map oi_status (no_items (rs_payload r))) \<and>
            (\<exists>native. no_native (rs_payload r) = Some native \<and> su_valid native \<and>
               su_observed native = length (no_items (rs_payload r)) \<and>
               su_dominant native = dominant_status (label_counts (map oi_status (no_items (rs_payload r)))))
        | _ \<Rightarrow> True)"
proof -
  obtain x q1 where o: "on_service (obligations_response pf uri subject) q = (x, q1)" by (metis prod.exhaust)
  show ?thesis
  proof (cases x)
    case (Inr r)
    then have counts: "ox_counts (rs_payload r) = label_counts (map oi_status (ox_items (rs_payload r)))"
      using o obligations_response_counts [of pf uri subject "snd q" r] by (auto simp: on_service_def split: prod.splits)
    show ?thesis
      using o Inr counts
      by (auto simp: query_native_obligations_def Let_def status_disagreements_def
          split: prod.split sum.split response_status.split if_split)
  qed (use o in \<open>simp add: query_native_obligations_def\<close>)
qed

lemma symbol_kind_tag_inj: "symbol_kind_tag j = symbol_kind_tag k \<longleftrightarrow> j = k"
  by (cases j; cases k) simp_all

text \<open>The native kind count fails closed: when it answers, the count is the number of symbols of the
  wanted kind among the first eight of the snapshot, and the summary of the kernel is attached.\<close>

theorem native_kind_count_fail_closed:
  "case fst (on_service (snapshot pf uri) q) of
     Inl e \<Rightarrow> fst (native_kind_count pf np uri wanted q) = Inl e
   | Inr a \<Rightarrow>
       (case fst (native_kind_count pf np uri wanted q) of
          Inl _ \<Rightarrow> False
        | Inr r \<Rightarrow>
            (case rs_status r of
               Answered \<Rightarrow>
                 kc_native_count (rs_payload r) =
                   length (filter (\<lambda>e. se_kind e = wanted) (take max_filter_tags (si_symbols (da_symbols a)))) \<and>
                 kc_native (rs_payload r) \<noteq> None
             | _ \<Rightarrow> True))"
  by (auto simp: native_kind_count_def Let_def respond_def filter_map comp_def symbol_kind_tag_inj
      split: prod.split sum.split response_status.split if_split)

section \<open>Bounds of the context packet\<close>

lemma collect_some_length: "collect_some xs = Some ys \<Longrightarrow> length ys = length xs"
  by (induction xs arbitrary: ys rule: collect_some.induct) auto

lemma callee_excerpts_bound: "length (concat (map (callee_excerpt pf a) ts)) \<le> length ts"
proof (induction ts)
  case (Cons t ts)
  have "length (callee_excerpt pf a t) \<le> 1" by (simp add: callee_excerpt_def Let_def split: option.split)
  with Cons show ?case by simp
qed simp

text \<open>A context packet never exceeds the caller's budget, which is clamped to between one and twelve
  excerpts, whatever the call graph holds.\<close>

theorem context_packet_bounded:
  "case query_context_packet pf np uri identity k q of
     Some (Inr r, _) \<Rightarrow> length (cq_excerpts (rs_payload r)) \<le> min (max k 1) max_packet_excerpts
   | _ \<Rightarrow> True"
proof -
  have fit: "length xs \<le> min (max k 1) max_packet_excerpts"
    if "collect_some (h # concat (map (callee_excerpt pf a) (take (min (max k 1) max_packet_excerpts - 1) ts))) = Some xs"
    for h a ts and xs :: "context_excerpt list"
  proof -
    define b where "b = min (max k 1) max_packet_excerpts"
    have "length xs = Suc (length (concat (map (callee_excerpt pf a) (take (b - 1) ts))))"
      using collect_some_length [OF that] by (simp add: b_def)
    also have "\<dots> \<le> Suc (b - 1)"
      using callee_excerpts_bound [of pf a "take (b - 1) ts"] by simp
    also have "\<dots> = b" by (simp add: b_def max_packet_excerpts_def)
    finally show ?thesis by (simp add: b_def)
  qed
  have one: "length xs \<le> min (max k 1) max_packet_excerpts" if "collect_some [h] = Some xs"
    for h and xs :: "context_excerpt list"
    using collect_some_length [OF that] by (simp add: max_packet_excerpts_def)
  show ?thesis
    unfolding query_context_packet_def Let_def
    by (auto simp: split_def split: sum.split option.split dest!: fit [simplified] one [simplified] simp del: collect_some.simps)
qed

section \<open>The debug binding\<close>

text \<open>A debug binding query always returns, except for one shape of compiler output: a mapped operation
  without a span of its own whose function the source map does not list. Every other subject has a span, so
  the panic of the code is confined to that shape.\<close>

theorem debug_binding_returns:
  "case debug_source_binding pf uri identity line character sv of
     Some _ \<Rightarrow> True
   | None \<Rightarrow>
       (case fst (snapshot pf uri sv) of
          Inl _ \<Rightarrow> False
        | Inr a \<Rightarrow>
            list_ex (\<lambda>op. op_span op = None \<and>
                find (\<lambda>f. mp_identity f = op_function op) (sm_functions (source_map_of a)) = None)
              (sm_operations (source_map_of a)))"
proof -
  have or_None: "or_else x y = None \<longleftrightarrow> x = None \<and> y = None" for x y :: "'x option"
    by (cases x) simp_all
  have key: "op_span op = None \<and> find (\<lambda>f. mp_identity f = op_function op) (sm_functions (source_map_of a)) = None"
    if "binding_span a u = None" "du_operation u = Some op" for a u op
    using that by (simp add: binding_span_def binding_function_identity_def or_None)
  have only: "\<exists>op. du_operation u = Some op"
    if "binding_span a u = None" "\<not> (du_target u = None \<and> du_test u = None \<and> du_operation u = None)" for a u
    using that by (auto simp: binding_span_def or_None target_entry_def)
  have found: "op \<in> set (sm_operations (source_map_of a))"
    if "du_operation (subject_of_identity api a i) = Some op" for api a i op
    using that by (auto simp: subject_of_identity_def Let_def find_Some_iff)
  show ?thesis
  proof (cases "debug_source_binding pf uri identity line character sv")
    case None
    obtain x sv' where snap: "snapshot pf uri sv = (x, sv')" by (metis prod.exhaust)
    obtain a where x: "x = Inr a" using None snap by (cases x) (auto simp: debug_source_binding_def Let_def split: if_splits)
    obtain u where u: "u = (case identity of Some i \<Rightarrow> subject_of_identity (tl_model (pf_tools pf)) a i
          | None \<Rightarrow> subject_of_offset a (offset_at pf a (the line) (the character)))"
      "binding_span a u = None" "\<not> (du_target u = None \<and> du_test u = None \<and> du_operation u = None)"
      using None snap x by (auto simp: debug_source_binding_def Let_def split: if_splits option.splits)
    obtain op where op: "du_operation u = Some op" using only [OF u(2,3)] by blast
    obtain i where "identity = Some i" using u(1) op by (cases identity) (auto simp: subject_of_offset_def)
    then have "op \<in> set (sm_operations (source_map_of a))" using found [of _ a i op] u(1) op by simp
    then show ?thesis using None snap x key [OF u(2) op] by (auto simp: list_ex_iff)
  qed simp
qed

section \<open>Selection chains\<close>

text \<open>The selection chain of an offset is a path down the syntax tree: it starts at the root, every node
  is a child of the one before and contains the offset, and no child of the last node does. It is empty only
  when the root does not contain the offset.\<close>

theorem selection_chain_path:
  "case collect_cst_chain byte root of
     [] \<Rightarrow> \<not> node_contains root byte
   | n # ns \<Rightarrow>
       n = root \<and> list_all (\<lambda>c. node_contains c byte) (n # ns) \<and>
       successively (\<lambda>p c. c \<in> set (cn_children p)) (n # ns) \<and>
       \<not> list_ex (\<lambda>c. node_contains c byte) (cn_children (last (n # ns)))"
proof (induction byte root rule: collect_cst_chain.induct)
  case (1 byte node)
  show ?case
  proof (cases "node_contains node byte")
    case True
    show ?thesis
    proof (cases "tightest_child byte (cn_children node)")
      case None
      then have "\<not> list_ex (\<lambda>c. node_contains c byte) (cn_children node)"
        by (auto simp: tightest_child_def min_by_key_None list_ex_iff filter_empty_conv)
      then show ?thesis using True None by (subst collect_cst_chain.simps) simp
    next
      case (Some child)
      have child: "child \<in> set (cn_children node)" "node_contains child byte"
        using Some by (auto simp: tightest_child_def dest: min_by_key_Some)
      then obtain cs where cs: "collect_cst_chain byte child = child # cs"
        by (simp add: collect_cst_chain.simps [of byte child])
      show ?thesis using 1 [of child] True Some child
        by (subst collect_cst_chain.simps) (simp add: cs successively_Cons)
    qed
  qed (simp add: collect_cst_chain.simps [of byte node])
qed

section \<open>Parentheses\<close>

text \<open>The first closing parenthesis at depth zero.\<close>

fun mate_scan :: "source_token list \<Rightarrow> nat \<Rightarrow> nat \<Rightarrow> nat option" where
  "mate_scan [] i depth = None"
| "mate_scan (t # ts) i depth =
     (if tk_kind t = LeftParen then mate_scan ts (i + 1) (depth + 1)
      else if tk_kind t = RightParen then (if depth = 0 then Some i else mate_scan ts (i + 1) (depth - 1))
      else mate_scan ts (i + 1) depth)"

lemma match_parens_other:
  "i \<notin> set stack \<Longrightarrow> i < k \<Longrightarrow> match_parens (enumerate k ts) stack mates i = mates i"
  by (induction ts arbitrary: k stack mates) (auto split: list.split)

lemma match_parens_beyond:
  "i \<notin> set stack \<Longrightarrow> k + length ts \<le> i \<Longrightarrow> match_parens (enumerate k ts) stack mates i = mates i"
  by (induction ts arbitrary: k stack mates) (auto split: list.split)

lemma match_parens_open:
  assumes "i \<notin> set pre" "i \<notin> set post" "i < k"
  shows "match_parens (enumerate k ts) (pre @ i # post) mates i =
    (case mate_scan ts k (length pre) of None \<Rightarrow> mates i | Some j \<Rightarrow> Some j)"
  using assms
proof (induction ts arbitrary: k pre mates)
  case (Cons t ts)
  show ?case
  proof (cases "tk_kind t = LeftParen")
    case True
    then show ?thesis using Cons.IH [of "k # pre" "Suc k" mates] Cons.prems by simp
  next
    case False
    show ?thesis
    proof (cases pre)
      case Nil
      then show ?thesis using False Cons.IH [of "[]" "Suc k" mates] Cons.prems by (simp add: match_parens_other)
    next
      case (Cons p ps)
      then show ?thesis
        using False Cons.IH [of pre "Suc k" mates] Cons.IH [of ps "Suc k" "mates(p \<mapsto> k)"] Cons.prems
        by (simp add: fun_upd_def cong: option.case_cong)
    qed
  qed
qed simp

lemma match_parens_at:
  assumes "p < length ts" "\<And>j. j \<in> set stack \<Longrightarrow> j < k"
  shows "match_parens (enumerate k ts) stack mates (k + p) =
    (if tk_kind (ts ! p) = LeftParen then
       (case mate_scan (drop (Suc p) ts) (Suc (k + p)) 0 of None \<Rightarrow> mates (k + p) | Some j \<Rightarrow> Some j)
     else mates (k + p))"
  using assms
proof (induction p arbitrary: ts k stack mates)
  case 0
  then obtain t ts' where ts: "ts = t # ts'" by (cases ts) auto
  have "k \<notin> set stack" using 0 by blast
  then show ?case using match_parens_open [of k "[]" stack "Suc k" ts' mates]
    by (auto simp: ts match_parens_other split: list.split cong: option.case_cong)
next
  case (Suc p)
  then obtain t ts' where ts: "ts = t # ts'" "p < length ts'" by (cases ts) auto
  have step: "match_parens (enumerate (Suc k) ts') st ms (Suc k + p) =
      (if tk_kind (ts' ! p) = LeftParen then
         (case mate_scan (drop (Suc p) ts') (Suc (Suc k + p)) 0 of None \<Rightarrow> ms (Suc k + p) | Some j \<Rightarrow> Some j)
       else ms (Suc k + p))" if "\<And>j. j \<in> set st \<Longrightarrow> j < Suc k" for st ms
    using Suc.IH [of ts' st "Suc k" ms] ts that by simp
  have below: "j < Suc k" if "j \<in> set stack" for j using Suc.prems(2) [OF that] by simp
  consider "tk_kind t = LeftParen" | opened ps where "tk_kind t \<noteq> LeftParen" "tk_kind t = RightParen" "stack = opened # ps"
    | "tk_kind t \<noteq> LeftParen" "tk_kind t = RightParen \<Longrightarrow> stack = []"
    by (cases "tk_kind t = RightParen"; cases stack) auto
  then show ?case
  proof cases
    case 1
    have "\<And>j. j \<in> set (k # stack) \<Longrightarrow> j < Suc k" using below by auto
    from step [of "k # stack" mates, OF this] 1 show ?thesis by (simp add: ts cong: option.case_cong)
  next
    case 2
    have "opened < Suc k" by (rule below) (simp add: 2)
    moreover have "\<And>j. j \<in> set ps \<Longrightarrow> j < Suc k" by (rule below) (simp add: 2)
    ultimately show ?thesis
      using step [of ps "mates(opened \<mapsto> k)"] 2 by (auto simp: ts fun_upd_def cong: option.case_cong)
  next
    case 3
    then show ?thesis using step [of stack mates, OF below]
      by (cases "tk_kind t = RightParen") (simp_all add: ts cong: option.case_cong)
  qed
qed

text \<open>The stack pass of signature help finds for every left parenthesis the first right parenthesis that
  closes it, as a scan counting the depth from that parenthesis finds it, and nothing for any other token.\<close>

theorem paren_mates_scan:
  "paren_mates tokens i =
     (if i < length tokens \<and> tk_kind (tokens ! i) = LeftParen then mate_scan (drop (i + 1) tokens) (i + 1) 0 else None)"
proof (cases "i < length tokens")
  case True
  then show ?thesis using match_parens_at [of i tokens "[]" 0 Map.empty] by (simp add: paren_mates_def split: option.split)
next
  case False
  then show ?thesis by (simp add: paren_mates_def match_parens_beyond)
qed

section \<open>Inlay hints\<close>

lemma hint_loop_bound:
  "length hints \<le> max_inlay_hints \<Longrightarrow>
     length (fst (hint_loop pf uri a first final rs cache hints sv)) \<le> max_inlay_hints"
  by (induction rs arbitrary: cache hints sv)
    (auto simp: Let_def split: prod.split option.split)

text \<open>An inlay hint request answers at most 200 hints, in the order of their positions.\<close>

theorem inlay_hints_bounded:
  "case fst (inlay_hints pf uri sl sc el ec sv) of
     Inl _ \<Rightarrow> True
   | Inr r \<Rightarrow>
       length (rs_payload r) \<le> max_inlay_hints \<and>
       sorted (map (\<lambda>h. (ih_line h, ih_character h)) (rs_payload r))"
  using hint_loop_bound [of "[]"]
  by (auto simp: inlay_hints_def with_snapshot_def respond_def Let_def split: prod.split sum.split)
     (metis fst_conv)

end
