(* ===== verification/Rename.thy ===== *)
theory Rename
  imports Document_Queries
begin

text \<open>
  \<open>rename.rs\<close>: the semantic rename of the symbol at a position. The target is resolved to its owning
  document, the new name is checked, and the edits are the declaration and the occurrences the workspace
  index joins to its key. Nothing is applied. The Unicode classes of characters outside ASCII are the
  standard library's tables, a parameter; a character is given by its UTF-8 bytes.
\<close>

section \<open>The new name\<close>

record unicode_classes =
  uc_alphabetic :: "string \<Rightarrow> bool"
  uc_alphanumeric :: "string \<Rightarrow> bool"

text \<open>\<open>name.chars()\<close>: a character with its continuation bytes.\<close>

function str_chars :: "string \<Rightarrow> string list" where
  "str_chars [] = []"
| "str_chars (c # cs) = (c # takeWhile is_continuation cs) # str_chars (dropWhile is_continuation cs)"
  by pat_completeness auto
termination
  by (relation "measure length") (auto simp: le_imp_less_Suc length_dropWhile_le)

definition ascii_alphabetic :: "char \<Rightarrow> bool" where
  "ascii_alphabetic c \<longleftrightarrow>
     (byte_of CHR ''a'' \<le> byte_of c \<and> byte_of c \<le> byte_of CHR ''z'') \<or>
     (byte_of CHR ''A'' \<le> byte_of c \<and> byte_of c \<le> byte_of CHR ''Z'')"

definition ascii_digit :: "char \<Rightarrow> bool" where
  "ascii_digit c \<longleftrightarrow> byte_of CHR ''0'' \<le> byte_of c \<and> byte_of c \<le> byte_of CHR ''9''"

definition char_alphabetic :: "unicode_classes \<Rightarrow> string \<Rightarrow> bool" where
  "char_alphabetic uc ch = (case ch of [c] \<Rightarrow> ascii_alphabetic c | _ \<Rightarrow> uc_alphabetic uc ch)"

definition char_alphanumeric :: "unicode_classes \<Rightarrow> string \<Rightarrow> bool" where
  "char_alphanumeric uc ch = (case ch of [c] \<Rightarrow> ascii_alphabetic c \<or> ascii_digit c | _ \<Rightarrow> uc_alphanumeric uc ch)"

definition quoted :: "string \<Rightarrow> string" where
  "quoted n = ''`'' @ n @ ''`''"

definition invalid_rename_name :: "unicode_classes \<Rightarrow> string \<Rightarrow> string option" where
  "invalid_rename_name uc n =
     (case str_chars n of
        [] \<Rightarrow> Some ''the new name is empty''
      | c # cs \<Rightarrow>
          if \<not> (c = ''_'' \<or> char_alphabetic uc c) \<or> \<not> list_all (\<lambda>c. c = ''_'' \<or> char_alphanumeric uc c) cs
          then Some (quoted n @ '' is not a valid MNCS identifier'')
          else if n \<in> set completion_keywords then Some (quoted n @ '' is a reserved MNCS keyword'')
          else if is_builtin_type n then Some (quoted n @ '' is a builtin scalar type name'')
          else None)"

section \<open>The target and its scope\<close>

definition own_target ::
  "platform \<Rightarrow> string \<Rightarrow> nat \<Rightarrow> service \<Rightarrow> (string \<times> document_analysis \<times> nat) option \<times> service" where
  "own_target pf uri i sv =
     (case snapshot pf uri sv of (Inl _, sv) \<Rightarrow> (None, sv) | (Inr a, sv) \<Rightarrow> (Some (uri, a, i), sv))"

definition rename_target ::
  "platform \<Rightarrow> string \<Rightarrow> document_analysis \<Rightarrow> nat \<Rightarrow> service
     \<Rightarrow> (string \<times> document_analysis \<times> nat) option \<times> service" where
  "rename_target pf uri a byte sv =
     (case declaration_at (da_symbols a) byte of
        Some i \<Rightarrow> own_target pf uri i sv
      | None \<Rightarrow>
          (case references_at (da_symbols a) byte of
             [] \<Rightarrow> (None, sv)
           | r # _ \<Rightarrow>
               (case re_target r of
                  Some i \<Rightarrow> own_target pf uri i sv
                | None \<Rightarrow>
                    (case targets_for_reference pf uri a r sv of
                       ([], sv) \<Rightarrow> (None, sv)
                     | (s # _, sv) \<Rightarrow>
                         (case imported_target pf (Some s) sv of
                            (found, sv) \<Rightarrow> (map_option (\<lambda>(b, i, s). (the (ss_uri s), b, i)) found, sv))))))"

definition same_scope :: "symbol_entry \<Rightarrow> symbol_entry \<Rightarrow> bool" where
  "same_scope e c =
     (case se_kind e of
        Function \<Rightarrow> se_container c = None
      | FiniteType \<Rightarrow> se_container c = None
      | RecordType \<Rightarrow> se_container c = None
      | RecordField \<Rightarrow> se_container c = se_container e \<and> se_kind c = se_kind e
      | FiniteVariant \<Rightarrow> se_container c = se_container e \<and> se_kind c = se_kind e
      | Module \<Rightarrow> True
      | _ \<Rightarrow> se_container c = se_container e \<or>
             (se_container c = None \<and> se_kind c \<noteq> RecordField \<and> se_kind c \<noteq> FiniteVariant))"

definition rename_collision :: "document_analysis \<Rightarrow> nat \<Rightarrow> string \<Rightarrow> string option" where
  "rename_collision a target n =
     (let es = si_symbols (da_symbols a); e = es ! target
      in if list_ex (\<lambda>(i, c). i \<noteq> target \<and> se_name c = n \<and> same_scope e c) (enumerate 0 es)
         then Some (quoted n @ '' already names a declaration visible from '' @ quoted (se_name e) @ ''; refusing'')
         else None)"

section \<open>The edits\<close>

record rename_edits =
  rn_changes :: "file_edit list"
  rn_unresolved :: "string list"

definition rename_key :: "symbol_entry \<Rightarrow> occurrence_key" where
  "rename_key e =
     OccurrenceKey (sp_start (se_name_span e)) (sp_end (se_name_span e)) (sp_line (se_name_span e))
       (sp_column (se_name_span e)) (se_kind e) (Some (se_name e))"

definition push_range :: "string \<Rightarrow> range_info \<Rightarrow> (string, range_info list) btree \<Rightarrow> (string, range_info list) btree" where
  "push_range uri r = bt_update_default [] uri (\<lambda>rs. rs @ [r])"

definition edits_of :: "string \<Rightarrow> range_info list \<Rightarrow> single_edit list" where
  "edits_of n ranges =
     map (\<lambda>r. \<lparr>sed_range = r, sed_new_text = n\<rparr>) (dedup (sort_key (\<lambda>r. (ri_start_byte r, ri_end_byte r)) ranges))"

definition rename_changes ::
  "workspace_index \<Rightarrow> string \<Rightarrow> range_info \<Rightarrow> occurrence_key \<Rightarrow> string \<Rightarrow> file_edit list" where
  "rename_changes ix owner declaration key n =
     (let per_file = fold (\<lambda>o'. push_range (io_uri o') (io_range o')) (lookup_occurrences key ix)
            (push_range owner declaration bt_empty)
      in sort_key fed_uri
           (map (\<lambda>(uri, ranges). \<lparr>fed_uri = uri, fed_edits = edits_of n ranges\<rparr>) (bt_entries per_file)))"

section \<open>The query\<close>

definition rename_refusal ::
  "document_analysis \<Rightarrow> nat \<Rightarrow> string \<Rightarrow> string option" where
  "rename_refusal b target n =
     (let e = si_symbols (da_symbols b) ! target
      in if se_kind e = Module then Some ''renaming a module renames its file and import graph; refusing''
         else if se_name e = n then Some ''the new name is identical to the current name''
         else rename_collision b target n)"

definition rename ::
  "platform \<Rightarrow> unicode_classes \<Rightarrow> string \<Rightarrow> nat \<Rightarrow> nat \<Rightarrow> string \<Rightarrow> service
     \<Rightarrow> (service_error + rename_edits response) \<times> service" where
  "rename pf uc uri line character n =
     with_snapshot pf uri (\<lambda>a sv.
       let fail = (\<lambda>reason. Inr (respond uri a (StUnresolved reason) \<lparr>rn_changes = [], rn_unresolved = []\<rparr>))
       in case invalid_rename_name uc n of
            Some reason \<Rightarrow> (fail reason, sv)
          | None \<Rightarrow>
              (case rename_target pf uri a (offset_at pf a line character) sv of
                 (None, sv) \<Rightarrow> (fail ''no renamable symbol resolves at this position'', sv)
               | (Some (owner, b, target), sv) \<Rightarrow>
                   (case rename_refusal b target n of
                      Some reason \<Rightarrow> (fail reason, sv)
                    | None \<Rightarrow>
                        let e = si_symbols (da_symbols b) ! target;
                            declaration = range_at pf b (se_name_span e);
                            (failed, sv) = ensure_workspace_entries pf sv
                        in (Inr (respond uri a Answered
                              \<lparr>rn_changes = rename_changes (sy_index sv) owner declaration (rename_key e) n,
                               rn_unresolved = map (\<lambda>u. ''skipped unreachable document '' @ u) failed\<rparr>), sv))))"

end
