(* ===== verification/Rename_Props.thy ===== *)
theory Rename_Props
  imports Rename Workspace_Index_Spec
begin

text \<open>
  What a rename edits. The changes are exactly the declaration and the occurrences the index joins to its
  key, one entry per file; the key carries no document, so namesakes of other documents are joined too.
\<close>

definition edit_sites :: "file_edit list \<Rightarrow> (string \<times> range_info) set" where
  "edit_sites fs = (\<Union>f \<in> set fs. (\<lambda>e. (fed_uri f, sed_range e)) ` set (fed_edits f))"

definition occurrence_site :: "indexed_occurrence \<Rightarrow> string \<times> range_info" where
  "occurrence_site o' = (io_uri o', io_range o')"

definition ranges_of :: "(string, range_info list) btree \<Rightarrow> (string \<times> range_info) set" where
  "ranges_of m = {(uri, r). \<exists>rs. bt_lookup m uri = Some rs \<and> r \<in> set rs}"

lemma ranges_of_push [simp]: "ranges_of (push_range uri r m) = insert (uri, r) (ranges_of m)"
  by (auto simp: ranges_of_def push_range_def split: if_splits option.splits)

lemma ranges_of_empty [simp]: "ranges_of bt_empty = {}"
  by (simp add: ranges_of_def)

lemma ranges_of_fold:
  "ranges_of (fold (\<lambda>o'. push_range (io_uri o') (io_range o')) os m) = occurrence_site ` set os \<union> ranges_of m"
  by (induction os arbitrary: m) (auto simp: occurrence_site_def)

lemma sites_of_entries:
  "edit_sites (map (\<lambda>(uri, ranges). \<lparr>fed_uri = uri, fed_edits = edits_of n ranges\<rparr>) (bt_entries m)) = ranges_of m"
  by (force simp: edit_sites_def ranges_of_def edits_of_def bt_lookup_eq_Some)

lemma edit_sites_sort [simp]: "edit_sites (sort_key f fs) = edit_sites fs"
  by (simp add: edit_sites_def)

lemma rename_changes_sites:
  "edit_sites (rename_changes ix owner d key n) = insert (owner, d) (occurrence_site ` set (lookup_occurrences key ix))"
  by (simp add: rename_changes_def Let_def sites_of_entries ranges_of_fold)

lemma rename_changes_shape:
  "sorted_wrt (<) (map fed_uri (rename_changes ix owner d key n)) \<and>
   list_all (\<lambda>f. list_all (\<lambda>e. sed_new_text e = n) (fed_edits f)) (rename_changes ix owner d key n)"
proof -
  let ?edit = "\<lambda>(uri, ranges). \<lparr>fed_uri = uri, fed_edits = edits_of n ranges\<rparr>"
  have keys: "map fed_uri (map ?edit (bt_entries m)) = bt_keys m" for m
    by (simp add: bt_keys_def comp_def split_def)
  have "sorted_wrt (<) (map fed_uri (sort_key fed_uri (map ?edit (bt_entries m))))" for m
  proof -
    have "sort_key fed_uri (map ?edit (bt_entries m)) = map ?edit (bt_entries m)"
      using bt_keys_sorted [of m] by (intro sort_key_id_if_sorted) (simp add: keys strict_sorted_iff del: map_map)
    then show ?thesis using bt_keys_sorted [of m] by (simp only: keys)
  qed
  then show ?thesis
    by (auto simp: rename_changes_def Let_def list_all_iff edits_of_def)
qed

lemma no_collision:
  assumes "rename_refusal b target n = None"
  shows "se_kind (si_symbols (da_symbols b) ! target) \<noteq> Module \<and> se_name (si_symbols (da_symbols b) ! target) \<noteq> n \<and>
     filter (\<lambda>c. se_name c = n \<and> same_scope (si_symbols (da_symbols b) ! target) c) (si_symbols (da_symbols b)) = []"
proof -
  let ?es = "si_symbols (da_symbols b)"
  have none: "\<not> list_ex (\<lambda>(i, c). i \<noteq> target \<and> se_name c = n \<and> same_scope (?es ! target) c) (enumerate 0 ?es)"
    and named: "se_name (?es ! target) \<noteq> n" and kind: "se_kind (?es ! target) \<noteq> Module"
    using assms by (simp_all add: rename_refusal_def rename_collision_def Let_def split: if_splits)
  have "\<not> (se_name c = n \<and> same_scope (?es ! target) c)" if "c \<in> set ?es" for c
  proof -
    from that obtain i where "i < length ?es" "c = ?es ! i" by (auto simp: in_set_conv_nth)
    then have "(i, c) \<in> set (enumerate 0 ?es)" by (simp add: in_set_enumerate_eq)
    then show ?thesis using none named \<open>c = ?es ! i\<close> by (auto simp: list_ex_iff)
  qed
  with named kind show ?thesis by (simp add: filter_empty_conv)
qed

text \<open>C31: A rename that answers has a well-formed new name that differs from the old one and that no
  declaration of the target's scope bears, its target is no module, and its edits are exactly the
  declaration and the occurrences indexed under the declaration's key, grouped into one entry per
  document in order, each replacing a range by the new name. A rename that is refused edits nothing.\<close>

theorem rename_edits_exact:
  "case snapshot pf uri sv of
     (Inl e, _) \<Rightarrow> fst (rename pf uc uri line character n sv) = Inl e
   | (Inr a, sv1) \<Rightarrow>
       (case rename pf uc uri line character n sv of
          (Inl _, _) \<Rightarrow> False
        | (Inr r, sv') \<Rightarrow>
            (case rs_status r of
               Answered \<Rightarrow>
                 invalid_rename_name uc n = None \<and>
                 (\<exists>owner b target.
                    fst (rename_target pf uri a (offset_at pf a line character) sv1) = Some (owner, b, target) \<and>
                    (let e = si_symbols (da_symbols b) ! target
                     in se_kind e \<noteq> Module \<and> se_name e \<noteq> n \<and>
                        filter (\<lambda>c. se_name c = n \<and> same_scope e c) (si_symbols (da_symbols b)) = [] \<and>
                        edit_sites (rn_changes (rs_payload r)) =
                          insert (owner, range_at pf b (se_name_span e))
                            (occurrence_site ` set (lookup_occurrences (rename_key e) (sy_index sv'))) \<and>
                        sorted_wrt (<) (map fed_uri (rn_changes (rs_payload r))) \<and>
                        list_all (\<lambda>f. list_all (\<lambda>x. sed_new_text x = n) (fed_edits f)) (rn_changes (rs_payload r))))
             | _ \<Rightarrow> rn_changes (rs_payload r) = []))"
  using no_collision [of _ _ n] rename_changes_shape rename_changes_sites
  by (auto simp: rename_def with_snapshot_def respond_def Let_def split: prod.split sum.split option.split)

section \<open>Namesakes\<close>




end
