(* ===== verification/Dedup.thy ===== *)
theory Dedup
  imports Prelude
begin

text \<open>\<open>Vec::dedup_by\<close> on a key: an element equal to the one kept before it is dropped.\<close>

fun dedup_key :: "('a \<Rightarrow> 'b) \<Rightarrow> 'a list \<Rightarrow> 'a list" where
  "dedup_key f [] = []"
| "dedup_key f [x] = [x]"
| "dedup_key f (x # y # ys) = (if f x = f y then dedup_key f (x # ys) else x # dedup_key f (y # ys))"

lemma set_dedup_key: "set (dedup_key f xs) \<subseteq> set xs"
  by (induction f xs rule: dedup_key.induct) auto

lemma keys_dedup_key [simp]: "f ` set (dedup_key f xs) = f ` set xs"
  by (induction f xs rule: dedup_key.induct) auto

lemma length_dedup_key: "length (dedup_key f xs) \<le> length xs"
  by (induction f xs rule: dedup_key.induct) auto

lemma sorted_dedup_key: "sorted (map f xs) \<Longrightarrow> sorted_wrt (<) (map f (dedup_key f xs))"
  for f :: "'a \<Rightarrow> 'b::linorder"
proof (induction f xs rule: dedup_key.induct)
  case (3 f x y ys)
  show ?case
  proof (cases "f x = f y")
    case False
    then have "f x < f y" using 3(3) by (simp add: order.strict_iff_order)
    moreover have "\<forall>z \<in> set (dedup_key f (y # ys)). f y \<le> f z"
      using 3(3) set_dedup_key [of f "y # ys"] by auto
    ultimately show ?thesis using 3 False by auto
  qed (use 3 in simp)
qed auto

end
