(* ===== verification/Code_Actions.thy ===== *)
theory Code_Actions
  imports Symbol_Queries Dedup
begin

text \<open>
  \<open>actions.rs\<close>: for a call target that does not resolve, offer the imports of the modules that export a
  subject of its name. An action is one inserted line; nothing else of the file is touched.
\<close>

record code_action =
  ca_title :: string
  ca_kind :: string
  ca_diagnostics :: "string list"
  ca_edit :: "file_edit option"

definition unresolved_call_code :: string where "unresolved_call_code = ''MNE131''"

definition max_import_actions :: nat where "max_import_actions = 3"

text \<open>The name a diagnostic in the range complains about.\<close>

definition unresolved_name :: "document_analysis \<Rightarrow> nat \<Rightarrow> nat \<Rightarrow> source_diagnostic \<Rightarrow> string option" where
  "unresolved_name a start stop d =
     (if dg_code d \<noteq> unresolved_call_code then None
      else if sp_end (dg_span d) < start \<or> sp_start (dg_span d) > stop then None
      else Option.bind (slice (analysis_text a) (sp_start (dg_span d)) (sp_end (dg_span d)))
             (\<lambda>t. if trim t = [] then None else Some (trim t)))"

definition export_candidates ::
  "platform \<Rightarrow> string \<Rightarrow> string \<Rightarrow> service \<Rightarrow> (string \<times> string) list \<times> service" where
  "export_candidates pf n except_uri sv =
     (case ensure_workspace_entries pf sv of
        (_, sv) \<Rightarrow>
          (take max_import_actions (dedup_key fst (sort_key id
             (filter (\<lambda>(m, u). u \<noteq> except_uri) (exporters_of n (sy_index sv))))), sv))"

definition missing_import_edit :: "platform \<Rightarrow> string \<Rightarrow> document_analysis \<Rightarrow> string \<Rightarrow> file_edit option" where
  "missing_import_edit pf uri a m =
     (case fe_ast (da_front_end a) of
        None \<Rightarrow> None
      | Some t \<Rightarrow>
          if m \<in> set (map an_text (ast_uses t)) then None
          else
            let insert_line = pi_line (tl_position (pf_tools pf) (analysis_text a) (sp_end (an_span (ast_module t)))) + 1;
                insert_byte = offset_at pf a insert_line 0
            in Some \<lparr>fed_uri = uri, fed_edits = [\<lparr>
                 sed_range = \<lparr>ri_start_line = insert_line, ri_start_character = 0, ri_end_line = insert_line,
                   ri_end_character = 0, ri_start_byte = insert_byte, ri_end_byte = insert_byte\<rparr>,
                 sed_new_text = ''use '' @ m @ '';'' @ [CHR 0x0A]\<rparr>]\<rparr>)"

definition import_action :: "string \<Rightarrow> string \<Rightarrow> file_edit \<Rightarrow> code_action" where
  "import_action n m edit =
     \<lparr>ca_title = ''Add `use '' @ m @ '';` for `'' @ n @ ''`'', ca_kind = ''quickfix'',
      ca_diagnostics = [unresolved_call_code], ca_edit = Some edit\<rparr>"

text \<open>The loop over the candidates; it breaks when the limit is reached.\<close>

fun offer_imports ::
  "platform \<Rightarrow> string \<Rightarrow> document_analysis \<Rightarrow> string \<Rightarrow> (string \<times> string) list \<Rightarrow> code_action list \<Rightarrow> code_action list" where
  "offer_imports pf uri a n [] actions = actions"
| "offer_imports pf uri a n ((m, u) # cs) actions =
     (if length actions \<ge> max_import_actions then actions
      else case missing_import_edit pf uri a m of
             None \<Rightarrow> offer_imports pf uri a n cs actions
           | Some edit \<Rightarrow> offer_imports pf uri a n cs (actions @ [import_action n m edit]))"

text \<open>The loop over the diagnostics.\<close>

fun seed_actions ::
  "platform \<Rightarrow> string \<Rightarrow> document_analysis \<Rightarrow> nat \<Rightarrow> nat \<Rightarrow> source_diagnostic list \<Rightarrow> code_action list \<Rightarrow> service
     \<Rightarrow> code_action list \<times> service" where
  "seed_actions pf uri a start stop [] actions sv = (actions, sv)"
| "seed_actions pf uri a start stop (d # ds) actions sv =
     (case unresolved_name a start stop d of
        None \<Rightarrow> seed_actions pf uri a start stop ds actions sv
      | Some n \<Rightarrow>
          (case export_candidates pf n uri sv of
             (candidates, sv) \<Rightarrow>
               seed_actions pf uri a start stop ds (offer_imports pf uri a n candidates actions) sv))"

definition code_actions ::
  "platform \<Rightarrow> string \<Rightarrow> nat \<Rightarrow> nat \<Rightarrow> nat \<Rightarrow> nat \<Rightarrow> service
     \<Rightarrow> (service_error + code_action list response) \<times> service" where
  "code_actions pf uri start_line start_character end_line end_character =
     with_snapshot pf uri (\<lambda>a sv.
       let p = offset_at pf a start_line start_character; q = offset_at pf a end_line end_character
       in case seed_actions pf uri a (min p q) (max p q) (fe_diagnostics (da_front_end a)) [] sv of
            (actions, sv) \<Rightarrow>
              (Inr (respond uri a Answered (dedup_key ca_title (sort_key ca_title actions))), sv))"

section \<open>What an action is\<close>

definition inserts_import :: "string \<Rightarrow> document_analysis \<Rightarrow> code_action \<Rightarrow> bool" where
  "inserts_import uri a act \<longleftrightarrow>
     (\<exists>t m r. fe_ast (da_front_end a) = Some t \<and> m \<notin> an_text ` set (ast_uses t) \<and>
        ri_start_byte r = ri_end_byte r \<and> ri_start_line r = ri_end_line r \<and>
        ca_edit act = Some \<lparr>fed_uri = uri, fed_edits = [\<lparr>sed_range = r, sed_new_text = ''use '' @ m @ '';'' @ [CHR 0x0A]\<rparr>]\<rparr>)"

lemma missing_import_inserts: "missing_import_edit pf uri a m = Some e \<Longrightarrow> inserts_import uri a (import_action n m e)"
  by (auto simp: missing_import_edit_def inserts_import_def import_action_def Let_def split: option.splits if_splits)

lemma offer_imports_ok:
  "length actions \<le> max_import_actions \<Longrightarrow> list_all (inserts_import uri a) actions \<Longrightarrow>
     length (offer_imports pf uri a n cs actions) \<le> max_import_actions \<and>
     list_all (inserts_import uri a) (offer_imports pf uri a n cs actions)"
  by (induction cs arbitrary: actions) (auto simp: missing_import_inserts split: option.split)

lemma seed_actions_ok:
  "length actions \<le> max_import_actions \<Longrightarrow> list_all (inserts_import uri a) actions \<Longrightarrow>
     length (fst (seed_actions pf uri a p q ds actions sv)) \<le> max_import_actions \<and>
     list_all (inserts_import uri a) (fst (seed_actions pf uri a p q ds actions sv))"
  by (induction ds arbitrary: actions sv) (auto simp: offer_imports_ok split: option.split prod.split)

text \<open>A code action request offers at most three actions with increasing titles; each inserts one line
  \<open>use m;\<close> at a point of the document for a module it does not import yet, and edits nothing else.\<close>

theorem code_actions_insert_imports:
  "case snapshot pf uri sv of
     (Inl e, _) \<Rightarrow> fst (code_actions pf uri l c l' c' sv) = Inl e
   | (Inr a, _) \<Rightarrow>
       (case fst (code_actions pf uri l c l' c' sv) of
          Inl _ \<Rightarrow> False
        | Inr r \<Rightarrow>
            length (rs_payload r) \<le> max_import_actions \<and> sorted_wrt (<) (map ca_title (rs_payload r)) \<and>
            list_all (inserts_import uri a) (rs_payload r))"
proof -
  have ok: "length (dedup_key ca_title (sort_key ca_title xs)) \<le> max_import_actions \<and>
      sorted_wrt (<) (map ca_title (dedup_key ca_title (sort_key ca_title xs))) \<and>
      list_all (inserts_import uri a) (dedup_key ca_title (sort_key ca_title xs))"
    if "length xs \<le> max_import_actions" "list_all (inserts_import uri a) xs" for xs a
    using that length_dedup_key [of ca_title "sort_key ca_title xs"] set_dedup_key [of ca_title "sort_key ca_title xs"]
    by (auto simp: sorted_dedup_key list_all_iff)
  have "length (fst (seed_actions pf uri a p q ds [] sv)) \<le> max_import_actions \<and>
      list_all (inserts_import uri a) (fst (seed_actions pf uri a p q ds [] sv))" for a p q ds sv
    by (rule seed_actions_ok) simp_all
  then show ?thesis
    by (simp add: code_actions_def with_snapshot_def respond_def Let_def ok split: prod.split sum.split)
       (metis fst_conv ok)
qed

end
