(* ===== verification/Candidate.thy ===== *)
theory Candidate
  imports Document_Queries
begin

text \<open>
  \<open>candidate.rs\<close>: a proposed text is analysed as an isolated candidate and compared with the resident
  snapshot. The comparison of programs is the model crate's (\<open>api_diff\<close>, and the parameter \<open>invalidation\<close>
  for \<open>invalidation_from\<close>); \<open>valid\<close> is \<open>is_valid\<close> of a front end result.
\<close>

section \<open>Obligations\<close>

record candidate_obligation =
  co_identity :: string
  co_subject :: string
  co_requirement :: string
  co_status :: string

definition candidate_obligation_of :: "model_obligation \<Rightarrow> candidate_obligation" where
  "candidate_obligation_of ob =
     \<lparr>co_identity = ob_identity ob, co_subject = ob_subject ob, co_requirement = ob_requirement ob,
      co_status = status_label (ob_status ob)\<rparr>"

text \<open>\<open>collect\<close> into a \<open>BTreeMap\<close>: a later obligation of the same identity replaces an earlier one.\<close>

definition obligation_map_of :: "document_analysis \<Rightarrow> (string, candidate_obligation) btree option" where
  "obligation_map_of a =
     map_option (\<lambda>p. bt_of_list (map (\<lambda>ob. (ob_identity ob, candidate_obligation_of ob)) (pr_obligations p)))
       (fe_program (da_front_end a))"

definition bt_values :: "('k::linorder, 'v) btree \<Rightarrow> 'v list" where
  "bt_values m = map snd (bt_entries m)"

definition candidate_statuses :: "(string, candidate_obligation) btree \<Rightarrow> string list" where
  "candidate_statuses m = map co_status (bt_values m)"

record status_change =
  sg_identity :: string
  sg_before :: string
  sg_after :: string

record candidate_delta =
  oy_added :: "candidate_obligation list"
  oy_removed :: "string list"
  oy_changed :: "status_change list"

definition obligation_difference ::
  "(string, candidate_obligation) btree \<Rightarrow> (string, candidate_obligation) btree \<Rightarrow> candidate_delta" where
  "obligation_difference before after =
     \<lparr>oy_added = filter (\<lambda>item. bt_lookup before (co_identity item) = None) (bt_values after),
      oy_removed = filter (\<lambda>i. bt_lookup after i = None) (bt_keys before),
      oy_changed = List.map_filter (\<lambda>item.
        Option.bind (bt_lookup before (co_identity item)) (\<lambda>previous.
          if co_status previous = co_status item then None
          else Some \<lparr>sg_identity = co_identity item, sg_before = co_status previous, sg_after = co_status item\<rparr>))
        (bt_values after)\<rparr>"

section \<open>Counts\<close>

text \<open>The failures of the candidate analysis; the texts of the code's messages are dropped.\<close>

datatype candidate_error =
    CandidateService service_error
  | CountsUnavailable native_error
  | WindowInvalid
  | WindowMismatch
  | CountOverflow
  | ObservedMismatch nat nat

definition checked_add64 :: "nat \<Rightarrow> nat \<Rightarrow> nat option" where
  "checked_add64 a b = (if a + b \<le> u64_max then Some (a + b) else None)"

definition window_sum :: "status_summary \<Rightarrow> nat option" where
  "window_sum w = Option.bind (checked_add64 (su_pass w) (su_fail w)) (\<lambda>n. checked_add64 n (su_unknown w))"

definition overflow_check :: "nat option \<Rightarrow> candidate_error + nat" where
  "overflow_check x = (case x of None \<Rightarrow> Inl CountOverflow | Some n \<Rightarrow> Inr n)"

fun sum_windows :: "status_summary list \<Rightarrow> status_counts \<Rightarrow> nat \<Rightarrow> candidate_error + status_counts \<times> nat" where
  "sum_windows [] counts observed = Inr (counts, observed)"
| "sum_windows (w # ws) counts observed =
     (if \<not> su_valid w \<or> su_observed w \<noteq> su_input w then Inl WindowInvalid
      else if window_sum w \<noteq> Some (su_observed w) then Inl WindowMismatch
      else
        bind_result (overflow_check (checked_add64 (sx_pass counts) (su_pass w))) (\<lambda>pass.
        bind_result (overflow_check (checked_add64 (sx_fail counts) (su_fail w))) (\<lambda>fail.
        bind_result (overflow_check (checked_add64 (sx_unknown counts) (su_unknown w))) (\<lambda>unknown.
        bind_result (overflow_check (checked_add64 observed (su_observed w))) (\<lambda>observed.
          sum_windows ws \<lparr>sx_pass = pass, sx_fail = fail, sx_unknown = unknown\<rparr> observed)))))"

definition native_candidate_counts ::
  "environment \<Rightarrow> process_env \<Rightarrow> toolchain \<Rightarrow> native_platform \<Rightarrow> (string, candidate_obligation) btree \<Rightarrow> relation_state
     \<Rightarrow> (candidate_error + status_counts \<times> status_summary list) \<times> relation_state" where
  "native_candidate_counts env px tc np obligations s =
     (case execute_status_summaries env px tc np (candidate_statuses obligations) s of
        (Inl e, s) \<Rightarrow> (Inl (CountsUnavailable e), s)
      | (Inr windows, s) \<Rightarrow>
          (bind_result (sum_windows windows no_counts 0) (\<lambda>(counts, observed).
             if observed \<noteq> length (bt_entries obligations)
             then Inl (ObservedMismatch observed (length (bt_entries obligations)))
             else Inr (counts, windows)), s))"

section \<open>Diagnostics and semantics\<close>

definition sorted_codes :: "document_analysis \<Rightarrow> string list" where
  "sorted_codes a = dedup (sort (map dg_code (fe_diagnostics (da_front_end a))))"

definition code_delta :: "string list \<Rightarrow> string list \<Rightarrow> string list \<times> string list" where
  "code_delta before after =
     (filter (\<lambda>c. c \<notin> set before) after, filter (\<lambda>c. c \<notin> set after) before)"

record changed_identity =
  ch_identity :: string
  ch_before :: string
  ch_after :: string

record semantic_delta =
  se_added :: "string list"
  se_removed :: "string list"
  se_changed :: "changed_identity list"

definition semantic_delta_of :: "semantic_diff \<Rightarrow> semantic_delta" where
  "semantic_delta_of d =
     \<lparr>se_added = map fst (sd_added d), se_removed = map fst (sd_removed d),
      se_changed = map (\<lambda>(i, before, after). \<lparr>ch_identity = i, ch_before = before, ch_after = after\<rparr>) (sd_changed d)\<rparr>"

record candidate_counts =
  cd_delta :: candidate_delta
  cd_before :: status_counts
  cd_after :: status_counts
  cd_windows_before :: "status_summary list"
  cd_windows_after :: "status_summary list"

text \<open>Both sides are counted, the baseline first, before the delta is built.\<close>

definition obligation_comparison ::
  "environment \<Rightarrow> process_env \<Rightarrow> toolchain \<Rightarrow> native_platform \<Rightarrow> (string, candidate_obligation) btree
     \<Rightarrow> (string, candidate_obligation) btree \<Rightarrow> relation_state
     \<Rightarrow> (candidate_error + candidate_counts) \<times> relation_state" where
  "obligation_comparison env px tc np before after s =
     (case native_candidate_counts env px tc np before s of
        (Inl e, s) \<Rightarrow> (Inl e, s)
      | (Inr (counts_before, windows_before), s) \<Rightarrow>
          (case native_candidate_counts env px tc np after s of
             (Inl e, s) \<Rightarrow> (Inl e, s)
           | (Inr (counts_after, windows_after), s) \<Rightarrow>
               (Inr \<lparr>cd_delta = obligation_difference before after, cd_before = counts_before, cd_after = counts_after,
                  cd_windows_before = windows_before, cd_windows_after = windows_after\<rparr>, s)))"

section \<open>The analysis\<close>

datatype candidate_note = IdenticalText | DoesNotElaborate | NoInvalidation | NoObligations

record candidate_response =
  cx_snapshot :: snapshot_info
  cx_baseline_identity :: string
  cx_identity :: string
  cx_changed :: bool
  cx_elaborates :: bool
  cx_semantic :: "semantic_delta option"
  cx_obligations :: "candidate_counts option"
  cx_baseline_count :: nat
  cx_candidate_count :: nat
  cx_codes_added :: "string list"
  cx_codes_removed :: "string list"
  cx_stale :: "string list"
  cx_unresolved :: "candidate_note list"

definition candidate_answer ::
  "string \<Rightarrow> document_analysis \<Rightarrow> document_analysis \<Rightarrow> string \<Rightarrow> candidate_response" where
  "candidate_answer uri baseline candidate identity =
     \<lparr>cx_snapshot = make_snapshot_info uri baseline, cx_baseline_identity = da_identity baseline, cx_identity = identity,
      cx_changed = True, cx_elaborates = False, cx_semantic = None, cx_obligations = None,
      cx_baseline_count = length (fe_diagnostics (da_front_end baseline)),
      cx_candidate_count = length (fe_diagnostics (da_front_end candidate)),
      cx_codes_added = fst (code_delta (sorted_codes baseline) (sorted_codes candidate)),
      cx_codes_removed = snd (code_delta (sorted_codes baseline) (sorted_codes candidate)),
      cx_stale = [], cx_unresolved = []\<rparr>"

text \<open>The candidate is compiled against the resident documents and never enters the store.\<close>

definition candidate_analysis ::
  "platform \<Rightarrow> string \<Rightarrow> source_envelope \<Rightarrow> service \<Rightarrow> document_analysis \<times> service" where
  "candidate_analysis pf uri e sv =
     on_store (analyze_with_resolver (pf_env pf) (pf_process pf) (pf_tools pf) uri e (ds_generation (sy_store sv))) sv"

definition analyze_candidate ::
  "platform \<Rightarrow> native_platform \<Rightarrow> (front_end \<Rightarrow> bool) \<Rightarrow> (program \<Rightarrow> program \<Rightarrow> string list option) \<Rightarrow> string \<Rightarrow> string
     \<Rightarrow> query_state \<Rightarrow> (candidate_error + candidate_response) \<times> query_state" where
  "analyze_candidate pf np valid invalidation uri text' q =
     (case on_service (on_store (ensure_loaded (pf_env pf) uri)) q of
        (Inl e, q) \<Rightarrow> (Inl (CandidateService e), q)
      | (Inr _, q) \<Rightarrow>
          (case on_service (snapshot pf uri) q of
             (Inl e, q) \<Rightarrow> (Inl (CandidateService e), q)
           | (Inr baseline, q) \<Rightarrow>
               let e = envelope (pf_env pf) (pf_tools pf) uri text';
                   (candidate, q) = on_service (candidate_analysis pf uri e) q;
                   answer = candidate_answer uri baseline candidate (en_identity e);
                   elaborates = valid (da_front_end candidate)
               in if en_identity e = da_identity baseline
                  then (Inr (answer\<lparr>cx_changed := False, cx_elaborates := elaborates, cx_codes_added := [],
                               cx_codes_removed := [], cx_unresolved := [IdenticalText]\<rparr>), q)
                  else
                    (case (fe_program (da_front_end baseline), fe_program (da_front_end candidate)) of
                       (Some before, Some after) \<Rightarrow>
                         let (stale, notes) =
                               (case invalidation before after of None \<Rightarrow> ([], [NoInvalidation]) | Some ids \<Rightarrow> (ids, []));
                             answer = answer\<lparr>cx_elaborates := elaborates,
                               cx_semantic := Some (semantic_delta_of (api_diff (tl_model (pf_tools pf)) before after)),
                               cx_stale := stale, cx_unresolved := notes\<rparr>
                         in (case (obligation_map_of baseline, obligation_map_of candidate) of
                               (Some b, Some c) \<Rightarrow>
                                 (case on_relation (obligation_comparison (pf_env pf) (pf_process pf) (pf_tools pf) np b c) q of
                                    (Inl e, q) \<Rightarrow> (Inl e, q)
                                  | (Inr counts, q) \<Rightarrow> (Inr (answer\<lparr>cx_obligations := Some counts\<rparr>), q))
                             | _ \<Rightarrow> (Inr (answer\<lparr>cx_unresolved := notes @ [NoObligations]\<rparr>), q))
                     | _ \<Rightarrow>
                         if \<not> valid (da_front_end baseline)
                         then (Inl (CandidateService (Unsupported ''baseline does not elaborate; fix it before analyzing candidates'')), q)
                         else (Inr (answer\<lparr>cx_unresolved := [DoesNotElaborate]\<rparr>), q))))"

end
