(* ===== verification/Candidate_Props.thy ===== *)
theory Candidate_Props
  imports Candidate Modules_Spec
begin

text \<open>
  What a candidate analysis promises: it only loads documents lazily beyond what the baseline snapshot
  does, its obligation delta turns the statuses of the baseline into those of the candidate, and the counts
  it takes from the kernel cover every obligation.
\<close>

section \<open>Isolation\<close>








text \<open>Only the store differs, and only by lazy loading.\<close>

definition store_grew :: "environment \<Rightarrow> service \<Rightarrow> service \<Rightarrow> bool" where
  "store_grew env sv sv' \<longleftrightarrow> (\<exists>st. sv' = sv\<lparr>sy_store := st\<rparr> \<and> lazy_load env (sy_store sv) st)"

lemma store_grew_refl [simp]: "store_grew env sv sv"
  unfolding store_grew_def by (rule exI [of _ "sy_store sv"]) (simp add: lazy_refl)






section \<open>The obligation delta\<close>

definition status_map :: "(string, candidate_obligation) btree \<Rightarrow> string \<rightharpoonup> string" where
  "status_map m i = map_option co_status (bt_lookup m i)"

text \<open>A delta applied to statuses.\<close>

definition patch_statuses :: "candidate_delta \<Rightarrow> (string \<rightharpoonup> string) \<Rightarrow> (string \<rightharpoonup> string)" where
  "patch_statuses d m =
     m |` (- set (oy_removed d)) ++ map_of (map (\<lambda>g. (sg_identity g, sg_after g)) (oy_changed d)) ++
       map_of (map (\<lambda>c. (co_identity c, co_status c)) (oy_added d))"

definition keyed :: "(string, candidate_obligation) btree \<Rightarrow> bool" where
  "keyed m \<longleftrightarrow> (\<forall>k v. bt_lookup m k = Some v \<longrightarrow> co_identity v = k)"

lemma map_of_pairs:
  assumes "\<And>x. x \<in> set xs \<Longrightarrow> f x = i \<Longrightarrow> g x = v"
  shows "map_of (map (\<lambda>x. (f x, g x)) xs) i = (if i \<in> f ` set xs then Some v else None)"
  using assms by (induction xs) auto

lemma keyedD: "keyed m \<Longrightarrow> bt_lookup m k = Some v \<Longrightarrow> co_identity v = k"
  by (simp add: keyed_def)

lemma set_bt_values:
  assumes "keyed m"
  shows "v \<in> set (bt_values m) \<longleftrightarrow> bt_lookup m (co_identity v) = Some v"
proof
  assume "v \<in> set (bt_values m)"
  then obtain k where "bt_lookup m k = Some v" by (auto simp: bt_values_def bt_lookup_eq_Some)
  with keyedD [OF assms this] show "bt_lookup m (co_identity v) = Some v" by simp
next
  assume "bt_lookup m (co_identity v) = Some v"
  then show "v \<in> set (bt_values m)" by (force simp: bt_values_def bt_lookup_eq_Some)
qed

lemma keyed_obligation_map: "obligation_map_of a = Some m \<Longrightarrow> keyed m"
  by (auto simp: obligation_map_of_def keyed_def bt_lookup_of_list candidate_obligation_of_def
      dest!: map_of_SomeD)

text \<open>The change a delta lists for an identity.\<close>

definition status_step :: "(string, candidate_obligation) btree \<Rightarrow> candidate_obligation \<Rightarrow> status_change option" where
  "status_step b w =
     Option.bind (bt_lookup b (co_identity w)) (\<lambda>v.
       if co_status v = co_status w then None
       else Some \<lparr>sg_identity = co_identity w, sg_before = co_status v, sg_after = co_status w\<rparr>)"

lemma status_step_Some:
  "status_step b w = Some g \<longleftrightarrow>
     (\<exists>v. bt_lookup b (co_identity w) = Some v \<and> co_status v \<noteq> co_status w \<and>
       g = \<lparr>sg_identity = co_identity w, sg_before = co_status v, sg_after = co_status w\<rparr>)"
  by (auto simp: status_step_def bind_eq_Some_conv split: if_splits)

lemma changed_statuses:
  assumes "keyed a"
  shows "g \<in> set (oy_changed (obligation_difference b a)) \<longleftrightarrow>
    (\<exists>w. bt_lookup a (co_identity w) = Some w \<and> status_step b w = Some g)"
proof -
  have "set (oy_changed (obligation_difference b a)) = {g. \<exists>w \<in> set (bt_values a). status_step b w = Some g}"
    by (simp add: obligation_difference_def List.map_filter_def flip: status_step_def) force
  then show ?thesis by (auto simp: set_bt_values [OF assms])
qed

lemma patch_difference:
  assumes b: "keyed b" and a: "keyed a"
  shows "patch_statuses (obligation_difference b a) (status_map b) = status_map a"
proof
  fix i
  let ?d = "obligation_difference b a"
  have removed: "i \<in> set (oy_removed ?d) \<longleftrightarrow> bt_lookup b i \<noteq> None \<and> bt_lookup a i = None"
    by (auto simp: obligation_difference_def set_bt_keys)
  have added: "c \<in> set (oy_added ?d) \<longleftrightarrow> bt_lookup a (co_identity c) = Some c \<and> bt_lookup b (co_identity c) = None" for c
    using set_bt_values [OF a] by (auto simp: obligation_difference_def)
  have "map_of (map (\<lambda>c. (co_identity c, co_status c)) (oy_added ?d)) i =
      (if bt_lookup b i = None then status_map a i else None)"
  proof (cases "bt_lookup a i")
    case None
    then have "i \<notin> co_identity ` set (oy_added ?d)" by (auto simp: added)
    then show ?thesis
      using None map_of_pairs [of "oy_added ?d" co_identity i co_status "[]"] by (auto simp: status_map_def)
  next
    case (Some w)
    have i: "co_identity w = i" by (rule keyedD [OF a Some])
    have "i \<in> co_identity ` set (oy_added ?d) \<longleftrightarrow> bt_lookup b i = None"
      using Some i by (force simp: added image_iff)
    then show ?thesis
      using Some map_of_pairs [of "oy_added ?d" co_identity i co_status "co_status w"]
      by (auto simp: status_map_def added)
  qed
  moreover have "map_of (map (\<lambda>g. (sg_identity g, sg_after g)) (oy_changed ?d)) i =
      (if bt_lookup b i \<noteq> None \<and> bt_lookup a i \<noteq> None \<and> status_map b i \<noteq> status_map a i then status_map a i else None)"
  proof (cases "bt_lookup b i \<noteq> None \<and> bt_lookup a i \<noteq> None \<and> status_map b i \<noteq> status_map a i")
    case True
    then obtain v w where vw: "bt_lookup b i = Some v" "bt_lookup a i = Some w" "co_status v \<noteq> co_status w"
      by (auto simp: status_map_def)
    have i: "co_identity w = i" by (rule keyedD [OF a vw(2)])
    then have "\<lparr>sg_identity = i, sg_before = co_status v, sg_after = co_status w\<rparr> \<in> set (oy_changed ?d)"
      using vw unfolding changed_statuses [OF a] by (intro exI [of _ w]) (simp add: status_step_Some)
    then have "i \<in> sg_identity ` set (oy_changed ?d)" by force
    moreover have "sg_after g = co_status w" if "g \<in> set (oy_changed ?d)" "sg_identity g = i" for g
      using that vw unfolding changed_statuses [OF a] by (auto simp: status_step_Some)
    ultimately show ?thesis
      using True vw map_of_pairs [of "oy_changed ?d" sg_identity i sg_after "co_status w"] by (simp add: status_map_def)
  next
    case False
    then have "i \<notin> sg_identity ` set (oy_changed ?d)"
      unfolding image_iff Bex_def changed_statuses [OF a] by (auto simp: status_step_Some status_map_def)
    then show ?thesis using False map_of_pairs [of "oy_changed ?d" sg_identity i sg_after "[]"] by (auto simp: image_iff)
  qed
  ultimately show "patch_statuses ?d (status_map b) i = status_map a i"
    using removed
    by (auto simp: patch_statuses_def map_add_def restrict_map_def status_map_def split: option.split if_splits)
qed

section \<open>Counts\<close>

definition counts_total :: "status_counts \<Rightarrow> nat" where
  "counts_total c = sx_pass c + sx_fail c + sx_unknown c"

lemma overflow_check_sum: "overflow_check (checked_add64 a b) = Inr n \<longleftrightarrow> n = a + b \<and> a + b \<le> u64_max"
  by (auto simp: overflow_check_def checked_add64_def)

lemma window_sum_total: "window_sum w = Some n \<Longrightarrow> n = su_pass w + su_fail w + su_unknown w"
  by (auto simp: window_sum_def checked_add64_def bind_eq_Some_conv split: if_splits)

lemma sum_windows_exact:
  "sum_windows ws c n = Inr (c', n') \<Longrightarrow>
     list_all su_valid ws \<and> counts_total c' + n = counts_total c + n' \<and>
     sx_pass c' = sx_pass c + sum_list (map su_pass ws) \<and> sx_fail c' = sx_fail c + sum_list (map su_fail ws) \<and>
     sx_unknown c' = sx_unknown c + sum_list (map su_unknown ws)"
proof (induction ws arbitrary: c n)
  case (Cons w ws)
  note step = Cons.prems [unfolded sum_windows.simps]
  from step have w: "su_valid w" "window_sum w = Some (su_observed w)" by (auto split: if_splits)
  from step obtain c1 n1 where c1: "c1 = \<lparr>sx_pass = sx_pass c + su_pass w, sx_fail = sx_fail c + su_fail w,
      sx_unknown = sx_unknown c + su_unknown w\<rparr>" "n1 = n + su_observed w"
    and rest: "sum_windows ws c1 n1 = Inr (c', n')"
    by (auto simp: overflow_check_sum bind_result_eq_Inr split: if_splits)
  from Cons.IH [OF rest] show ?case using w window_sum_total [OF w(2)] by (simp add: c1 counts_total_def)
qed simp

lemma candidate_counts_cover:
  assumes "native_candidate_counts env px tc np m s = (Inr (c, ws), s')"
  shows "counts_total c = card (dom (status_map m)) \<and> list_all su_valid ws \<and>
    sx_pass c = sum_list (map su_pass ws) \<and> sx_fail c = sum_list (map su_fail ws) \<and>
    sx_unknown c = sum_list (map su_unknown ws)"
proof -
  from assms have w: "sum_windows ws no_counts 0 = Inr (c, length (bt_entries m))"
    by (auto simp: native_candidate_counts_def bind_result_eq_Inr split: prod.splits sum.splits if_splits)
  have "dom (status_map m) = set (bt_keys m)" by (auto simp: status_map_def [abs_def] set_bt_keys)
  then have "card (dom (status_map m)) = length (bt_entries m)"
    using distinct_card [OF bt_keys_distinct [of m]] by (simp add: bt_keys_def)
  then show ?thesis using sum_windows_exact [OF w] by (simp add: no_counts_def counts_total_def)
qed

text \<open>The statuses an analysis elaborates to.\<close>

definition analysis_statuses :: "document_analysis \<Rightarrow> string \<rightharpoonup> string" where
  "analysis_statuses a = (case obligation_map_of a of None \<Rightarrow> Map.empty | Some m \<Rightarrow> status_map m)"

definition comparison_exact :: "document_analysis \<Rightarrow> document_analysis \<Rightarrow> candidate_counts \<Rightarrow> bool" where
  "comparison_exact before after o' \<longleftrightarrow>
     patch_statuses (cd_delta o') (analysis_statuses before) = analysis_statuses after \<and>
     counts_total (cd_before o') = card (dom (analysis_statuses before)) \<and>
     counts_total (cd_after o') = card (dom (analysis_statuses after)) \<and>
     list_all su_valid (cd_windows_before o') \<and> list_all su_valid (cd_windows_after o')"

lemma comparison_is_exact:
  assumes "obligation_map_of before = Some b" "obligation_map_of after = Some c"
    and "obligation_comparison env px tc np b c s = (Inr o', s')"
  shows "comparison_exact before after o'"
proof -
  from assms(3) obtain cb wb s1 ca wa where
    "native_candidate_counts env px tc np b s = (Inr (cb, wb), s1)"
    "native_candidate_counts env px tc np c s1 = (Inr (ca, wa), s')"
    "o' = \<lparr>cd_delta = obligation_difference b c, cd_before = cb, cd_after = ca, cd_windows_before = wb, cd_windows_after = wa\<rparr>"
    by (auto simp: obligation_comparison_def split: prod.splits sum.splits)
  then show ?thesis
    using candidate_counts_cover patch_difference keyed_obligation_map assms(1,2)
    by (simp add: comparison_exact_def analysis_statuses_def)
qed

text \<open>C34: When a candidate analysis reports obligations, applying the reported delta to the statuses of the
  baseline yields exactly the statuses of the candidate, and the counts the kernel returned for the two sides
  cover every obligation of their side once, in windows the kernel accepted. Only an unchanged text or a side
  without a program reports none.\<close>

theorem candidate_delta_exact:
  "case snapshot pf uri (snd (on_store (ensure_loaded (pf_env pf) uri) (snd q))) of
     (Inl _, _) \<Rightarrow> True
   | (Inr baseline, sv) \<Rightarrow>
       (case fst (analyze_candidate pf np valid invalidation uri t q) of
          Inl _ \<Rightarrow> True
        | Inr r \<Rightarrow>
            (case cx_obligations r of
               None \<Rightarrow>
                 cx_identity r = cx_baseline_identity r \<or> fe_program (da_front_end baseline) = None \<or>
                 fe_program (da_front_end (fst (candidate_analysis pf uri (envelope (pf_env pf) (pf_tools pf) uri t) sv))) = None
             | Some o' \<Rightarrow>
                 comparison_exact baseline
                   (fst (candidate_analysis pf uri (envelope (pf_env pf) (pf_tools pf) uri t) sv)) o'))"
proof -
  obtain x sv0 where l: "on_store (ensure_loaded (pf_env pf) uri) (snd q) = (x, sv0)" by (metis prod.exhaust)
  obtain y sv1 where s: "snapshot pf uri sv0 = (y, sv1)" by (metis prod.exhaust)
  obtain candidate sv2 where c: "candidate_analysis pf uri (envelope (pf_env pf) (pf_tools pf) uri t) sv1 = (candidate, sv2)"
    by (metis prod.exhaust)
  have exact: "comparison_exact a b o'"
    if "obligation_map_of a = Some m" "obligation_map_of b = Some n"
      "on_relation (obligation_comparison env px tc np m n) q' = (Inr o', q'')" for a b m n env px tc q' q'' o'
    using comparison_is_exact [OF that(1,2)] that(3) by (auto simp: on_relation_def split: prod.splits)
  show ?thesis
    by (cases x; cases y)
       (auto simp: analyze_candidate_def on_service_def l s c Let_def candidate_answer_def obligation_map_of_def
          split: sum.split prod.split option.split intro: exact)
qed

end
