(* ===== verification/Language_Knowledge.thy ===== *)
theory Language_Knowledge
  imports Json Modules
begin

text \<open>
  \<open>language_knowledge.rs\<close>: bounded queries over the capability index the language publishes. Reading a
  file is the environment; decoding its text into the index or the delta history is derived code of
  \<open>serde\<close>, a field of \<open>knowledge_env\<close>, as are the environment variables and the display of a JSON value.
\<close>

section \<open>The index\<close>

record language_module =
  lm_module :: "string option"
  lm_profile :: "string option"
  lm_path :: string
  lm_identity :: string
  lm_symbols :: "(string \<times> string) list"
  lm_exports :: "string list"
  lm_imports :: "string list"
  lm_capabilities :: "string list"
  lm_effects :: "(string \<times> string \<times> string) list"

record language_topic =
  lt_id :: string
  lt_description :: string
  lt_profiles :: "string list"
  lt_modules :: "string list"
  lt_guidance :: "string list"

record language_provenance =
  lv_path :: string
  lv_kind :: string
  lv_identity :: string

record capability_index =
  cp_schema :: string
  cp_language :: string
  cp_profile :: string
  cp_registry :: string
  cp_inventory :: "string option"
  cp_profiles :: "json list"
  cp_modules :: "language_module list"
  cp_intrinsics :: "json list"
  cp_topics :: "language_topic list"
  cp_examples :: "json list"
  cp_provenance :: "language_provenance list"
  cp_capsule :: json
  cp_identity :: string

text \<open>\<open>LanguageChangeSet\<close> and \<open>RawChangeSet\<close>.\<close>

record 'a changes =
  lc_added :: "'a list"
  lc_changed :: "'a list"
  lc_removed :: "'a list"

definition no_changes :: "'a changes" where
  "no_changes = \<lparr>lc_added = [], lc_changed = [], lc_removed = []\<rparr>"

record language_delta =
  ld_mode :: string
  ld_from_identity :: "string option"
  ld_to_identity :: "string option"
  ld_from_profile :: string
  ld_to_profile :: string
  ld_profiles :: "json list"
  ld_profile_changes :: "string changes"
  ld_modules :: "string changes"
  ld_exports :: "string changes"
  ld_intrinsics :: "string changes"
  ld_effects :: "string changes"
  ld_capabilities :: "string changes"
  ld_examples :: "string changes"

record delta_entry =
  lx_previous :: string
  lx_current :: string
  lx_from_profile :: "string option"
  lx_to_profile :: "string option"
  lx_profiles :: "json changes"
  lx_modules :: "string changes"
  lx_exports :: "string changes"
  lx_intrinsics :: "string changes"
  lx_effects :: "string changes"
  lx_capabilities :: "string changes"
  lx_examples :: "string changes"

record delta_history =
  lh_schema :: string
  lh_retention :: nat
  lh_identity :: string
  lh_deltas :: "delta_entry list"

record knowledge_env =
  kx_files :: environment
  kx_var :: "string \<Rightarrow> string option"
  kx_cwd :: "string option"
  kx_decode_index :: "string \<Rightarrow> string + capability_index"
  kx_decode_history :: "string \<Rightarrow> delta_history option"
  kx_json_text :: "json \<Rightarrow> string"

section \<open>Discovery\<close>

definition index_schema :: string where "index_schema = ''mncs.language-capabilities/1''"
definition delta_schema :: string where "delta_schema = ''mncs.language-capability-deltas/1''"

definition load_index :: "knowledge_env \<Rightarrow> string \<Rightarrow> string + capability_index" where
  "load_index kx path =
     (case env_read (kx_files kx) path of
        ReadOk t \<Rightarrow>
          bind_result (kx_decode_index kx t) (\<lambda>index.
            if cp_schema index \<noteq> index_schema
            then Inl (''expected '' @ index_schema @ '', found '' @ cp_schema index)
            else if cp_language index \<noteq> ''MNCS'' \<or> cp_profile index = [] \<or> cp_identity index = [] \<or>
                    cp_registry index = []
            then Inl ''index envelope is incomplete''
            else Inr index)
      | ReadNotFound e \<Rightarrow> Inl e
      | ReadFailed e \<Rightarrow> Inl e)"

text \<open>At most \<open>n\<close> ancestors, the nearest first.\<close>

fun ancestors :: "nat \<Rightarrow> string \<Rightarrow> string list" where
  "ancestors 0 p = []"
| "ancestors (Suc n) p = (case path_parent p of None \<Rightarrow> [] | Some q \<Rightarrow> q # ancestors n q)"

definition docs_index :: string where "docs_index = ''docs/language-capabilities.json''"
definition sibling_index :: string where "sibling_index = ''mncs-language/docs/language-capabilities.json''"

definition index_candidates :: "knowledge_env \<Rightarrow> string option \<Rightarrow> string list" where
  "index_candidates kx root =
     (case root of
        None \<Rightarrow> []
      | Some r \<Rightarrow> path_join r docs_index # path_join r sibling_index #
                  map (\<lambda>p. path_join p sibling_index) (ancestors 4 r)) @
     (case kx_var kx ''MNCS_LANGUAGE_CAPABILITY_INDEX'' of None \<Rightarrow> [] | Some p \<Rightarrow> [p]) @
     (case kx_var kx ''MNCS_LANGUAGE_ROOT'' of None \<Rightarrow> [] | Some p \<Rightarrow> [path_join p docs_index]) @
     (case kx_cwd kx of
        None \<Rightarrow> []
      | Some c \<Rightarrow> path_join c docs_index # map (\<lambda>p. path_join p sibling_index) (ancestors 6 c))"

text \<open>The loop over the candidates, with the paths already tried and the errors collected.\<close>

fun first_index ::
  "knowledge_env \<Rightarrow> string list \<Rightarrow> (bool \<times> string list) set \<Rightarrow> string list
     \<Rightarrow> string list + string \<times> capability_index" where
  "first_index kx [] seen errors = Inl errors"
| "first_index kx (p # ps) seen errors =
     (if path_components p \<in> seen \<or> \<not> env_is_file (kx_files kx) p
      then first_index kx ps (insert (path_components p) seen) errors
      else case load_index kx p of
             Inr index \<Rightarrow> Inr (p, index)
           | Inl e \<Rightarrow> first_index kx ps (insert (path_components p) seen) (errors @ [p @ '': '' @ e]))"

definition discover_index :: "knowledge_env \<Rightarrow> string option \<Rightarrow> service_error + string \<times> capability_index" where
  "discover_index kx root =
     (case first_index kx (index_candidates kx root) {} [] of
        Inr found \<Rightarrow> Inr found
      | Inl errors \<Rightarrow>
          Inl (Unsupported (if errors = [] then ''authoritative language capability index was not found''
            else ''authoritative language capability index is invalid ('' @ join_str ''; '' errors @ '')'')))"

definition with_file_name :: "string \<Rightarrow> string \<Rightarrow> string" where
  "with_file_name p n = (case path_parent p of None \<Rightarrow> path_join p n | Some d \<Rightarrow> path_join d n)"

definition load_delta_history :: "knowledge_env \<Rightarrow> string \<Rightarrow> delta_history option" where
  "load_delta_history kx path =
     (case env_read (kx_files kx) (with_file_name path ''language-capability-deltas.json'') of
        ReadOk t \<Rightarrow>
          Option.bind (kx_decode_history kx t) (\<lambda>h.
            if lh_schema h \<noteq> delta_schema \<or> lh_identity h = [] \<or> lh_retention h = 0 \<or>
               length (lh_deltas h) > lh_retention h
            then None else Some h)
      | _ \<Rightarrow> None)"

section \<open>Identity deltas\<close>

definition merge_strings :: "string list \<Rightarrow> string list \<Rightarrow> string list" where
  "merge_strings target vs = dedup (sort (target @ vs))"

definition merge_change_set :: "string changes \<Rightarrow> string changes \<Rightarrow> string changes" where
  "merge_change_set target source =
     \<lparr>lc_added = merge_strings (lc_added target) (lc_added source),
      lc_changed = merge_strings (lc_changed target) (lc_changed source),
      lc_removed = merge_strings (lc_removed target) (lc_removed source)\<rparr>"

definition profile_name :: "knowledge_env \<Rightarrow> json \<Rightarrow> string" where
  "profile_name kx v = (case get_str ''version'' v of None \<Rightarrow> kx_json_text kx v | Some n \<Rightarrow> n)"

definition merge_profile_changes :: "knowledge_env \<Rightarrow> string changes \<Rightarrow> json changes \<Rightarrow> string changes" where
  "merge_profile_changes kx target source =
     merge_change_set target
       \<lparr>lc_added = map (profile_name kx) (lc_added source), lc_changed = map (profile_name kx) (lc_changed source),
        lc_removed = map (profile_name kx) (lc_removed source)\<rparr>"

text \<open>
  The walk from the current identity back to the known one, the newest entry first; the retention bounds
  it, so a cyclic history ends it too.
\<close>

function delta_chain ::
  "delta_entry list \<Rightarrow> nat \<Rightarrow> string \<Rightarrow> string \<Rightarrow> delta_entry list \<Rightarrow> delta_entry list option" where
  "delta_chain deltas retention start cursor walked =
     (if cursor = start then Some walked
      else case find (\<lambda>d. lx_current d = cursor) (rev deltas) of
             None \<Rightarrow> None
           | Some d \<Rightarrow>
               if length walked + 1 > retention then None
               else delta_chain deltas retention start (lx_previous d) (walked @ [d]))"
  by pat_completeness auto
termination
  by (relation "measure (\<lambda>(ds, retention, start, cursor, walked). retention - length walked)") auto

declare delta_chain.simps [simp del]

definition empty_delta :: "capability_index \<Rightarrow> string \<Rightarrow> language_delta" where
  "empty_delta index start =
     \<lparr>ld_mode = ''identity'', ld_from_identity = Some start, ld_to_identity = Some (cp_identity index),
      ld_from_profile = [], ld_to_profile = cp_profile index, ld_profiles = [], ld_profile_changes = no_changes,
      ld_modules = no_changes, ld_exports = no_changes, ld_intrinsics = no_changes, ld_effects = no_changes,
      ld_capabilities = no_changes, ld_examples = no_changes\<rparr>"

definition apply_entry :: "knowledge_env \<Rightarrow> capability_index \<Rightarrow> delta_entry \<Rightarrow> language_delta \<Rightarrow> language_delta" where
  "apply_entry kx index d delta =
     \<lparr>ld_mode = ld_mode delta, ld_from_identity = ld_from_identity delta, ld_to_identity = ld_to_identity delta,
      ld_from_profile =
        (if ld_from_profile delta = [] then (case lx_from_profile d of None \<Rightarrow> cp_profile index | Some p \<Rightarrow> p)
         else ld_from_profile delta),
      ld_to_profile = (case lx_to_profile d of None \<Rightarrow> ld_to_profile delta | Some p \<Rightarrow> p),
      ld_profiles = ld_profiles delta @ lc_added (lx_profiles d),
      ld_profile_changes = merge_profile_changes kx (ld_profile_changes delta) (lx_profiles d),
      ld_modules = merge_change_set (ld_modules delta) (lx_modules d),
      ld_exports = merge_change_set (ld_exports delta) (lx_exports d),
      ld_intrinsics = merge_change_set (ld_intrinsics delta) (lx_intrinsics d),
      ld_effects = merge_change_set (ld_effects delta) (lx_effects d),
      ld_capabilities = merge_change_set (ld_capabilities delta) (lx_capabilities d),
      ld_examples = merge_change_set (ld_examples delta) (lx_examples d)\<rparr>"

definition bound_changes :: "nat \<Rightarrow> 'a changes \<Rightarrow> 'a changes" where
  "bound_changes n c =
     \<lparr>lc_added = take n (lc_added c), lc_changed = take n (lc_changed c), lc_removed = take n (lc_removed c)\<rparr>"

definition bound_delta :: "nat \<Rightarrow> language_delta \<Rightarrow> language_delta" where
  "bound_delta n d =
     d\<lparr>ld_profiles := take n (ld_profiles d), ld_profile_changes := bound_changes n (ld_profile_changes d),
       ld_modules := bound_changes n (ld_modules d), ld_exports := bound_changes n (ld_exports d),
       ld_intrinsics := bound_changes n (ld_intrinsics d), ld_effects := bound_changes n (ld_effects d),
       ld_capabilities := bound_changes n (ld_capabilities d), ld_examples := bound_changes n (ld_examples d)\<rparr>"

definition identity_delta ::
  "knowledge_env \<Rightarrow> string \<Rightarrow> capability_index \<Rightarrow> string \<Rightarrow> nat \<Rightarrow> language_delta option" where
  "identity_delta kx path index start max_items =
     Option.bind (load_delta_history kx path) (\<lambda>h.
     Option.bind (delta_chain (lh_deltas h) (lh_retention h) start (cp_identity index) []) (\<lambda>walked.
       if walked = [] then None
       else
         let delta = fold (apply_entry kx index) (rev walked) (empty_delta index start);
             delta = (if ld_from_profile delta = [] then delta\<lparr>ld_from_profile := cp_profile index\<rparr> else delta)
         in Some (bound_delta max_items delta)))"

section \<open>The query\<close>

record language_projection =
  lp_mode :: string
  lp_layers :: "string list"
  lp_counts :: "(string, nat) btree"
  lp_complete :: bool
  lp_limitations :: "string list"

record language_response =
  lr_path :: string
  lr_identity :: string
  lr_profile :: string
  lr_inventory :: "string option"
  lr_capsule :: json
  lr_topics :: "language_topic list"
  lr_modules :: "language_module list"
  lr_examples :: "json list"
  lr_intrinsics :: "json list"
  lr_provenance :: "language_provenance list"
  lr_projection :: language_projection
  lr_delta :: "language_delta option"

definition change_count :: "'a changes \<Rightarrow> nat" where
  "change_count c = length (lc_added c) + length (lc_changed c) + length (lc_removed c)"

text \<open>The answer without rows, for an unchanged identity and for an identity delta.\<close>

definition identity_response ::
  "string \<Rightarrow> capability_index \<Rightarrow> language_projection \<Rightarrow> language_delta option \<Rightarrow> language_response" where
  "identity_response path index projection delta =
     \<lparr>lr_path = path, lr_identity = cp_identity index, lr_profile = cp_profile index, lr_inventory = cp_inventory index,
      lr_capsule = JObject [], lr_topics = [], lr_modules = [], lr_examples = [], lr_intrinsics = [],
      lr_provenance = [], lr_projection = projection, lr_delta = delta\<rparr>"

definition unchanged_projection :: language_projection where
  "unchanged_projection =
     \<lparr>lp_mode = ''unchanged'', lp_layers = [''identity''],
      lp_counts = bt_of_list (map (\<lambda>k. (k, 0)) [''topics'', ''modules'', ''symbols'', ''effects'', ''examples'',
        ''intrinsics'', ''provenance'', ''profiles'']),
      lp_complete = True, lp_limitations = []\<rparr>"

definition delta_projection :: "language_delta \<Rightarrow> language_projection" where
  "delta_projection d =
     \<lparr>lp_mode = ''delta'', lp_layers = [''identity'', ''delta''],
      lp_counts = bt_of_list [(''profiles'', length (ld_profiles d)), (''modules'', change_count (ld_modules d)),
        (''exports'', change_count (ld_exports d)), (''intrinsics'', change_count (ld_intrinsics d)),
        (''effects'', change_count (ld_effects d)), (''capabilities'', change_count (ld_capabilities d)),
        (''canonical_examples'', change_count (ld_examples d))],
      lp_complete = True, lp_limitations = []\<rparr>"

definition matches_topic :: "string option \<Rightarrow> language_topic \<Rightarrow> bool" where
  "matches_topic topic t =
     (case topic of
        None \<Rightarrow> True
      | Some needle \<Rightarrow> contains_str (to_ascii_lowercase (lt_id t)) (to_ascii_lowercase needle))"

definition matches_module :: "string option \<Rightarrow> string option \<Rightarrow> language_module \<Rightarrow> bool" where
  "matches_module symbol profile m \<longleftrightarrow>
     (case symbol of
        None \<Rightarrow> True
      | Some needle \<Rightarrow>
          (case lm_module m of
             None \<Rightarrow> False
           | Some n \<Rightarrow> contains_str (to_ascii_lowercase n) (to_ascii_lowercase needle)) \<or>
          list_ex (\<lambda>(kind, n). contains_str (to_ascii_lowercase n) (to_ascii_lowercase needle)) (lm_symbols m)) \<and>
     (case profile of None \<Rightarrow> True | Some wanted \<Rightarrow> lm_profile m = Some wanted)"

definition version_parts :: "string \<Rightarrow> nat \<times> nat" where
  "version_parts v =
     (case map (\<lambda>p. unwrap_or 0 (parse_unsigned 32 p)) (split_char (CHR ''.'') v) of
        a # b # _ \<Rightarrow> (a, b) | [a] \<Rightarrow> (a, 0) | [] \<Rightarrow> (0, 0))"

definition version_gt :: "string \<Rightarrow> string \<Rightarrow> bool" where
  "version_gt left right \<longleftrightarrow>
     (case (version_parts left, version_parts right) of
        ((a, b), (c, d)) \<Rightarrow> a > c \<or> (a = c \<and> b > d))"

definition newer_profiles :: "capability_index \<Rightarrow> string \<Rightarrow> json list" where
  "newer_profiles index start =
     filter (\<lambda>p. case get_str ''version'' p of None \<Rightarrow> False | Some v \<Rightarrow> version_gt v start) (cp_profiles index)"

definition profile_delta :: "capability_index \<Rightarrow> string \<Rightarrow> nat \<Rightarrow> language_delta" where
  "profile_delta index start n =
     \<lparr>ld_mode = ''profile'', ld_from_identity = None, ld_to_identity = None, ld_from_profile = start,
      ld_to_profile = cp_profile index, ld_profiles = take n (newer_profiles index start),
      ld_profile_changes = no_changes, ld_modules = no_changes, ld_exports = no_changes, ld_intrinsics = no_changes,
      ld_effects = no_changes, ld_capabilities = no_changes, ld_examples = no_changes\<rparr>"

definition full_response ::
  "string \<Rightarrow> capability_index \<Rightarrow> string option \<Rightarrow> string option \<Rightarrow> string option \<Rightarrow> string option \<Rightarrow> nat
     \<Rightarrow> language_response" where
  "full_response path index topic symbol profile delta_from n =
     (let topics = filter (matches_topic topic) (cp_topics index);
          modules = filter (matches_module symbol profile) (cp_modules index);
          shown = take n modules;
          delta = map_option (\<lambda>start. profile_delta index start n) delta_from;
          truncated = length topics > n \<or> length modules > n \<or> length (cp_examples index) > n \<or>
            length (cp_intrinsics index) > n \<or> length (cp_provenance index) > n \<or>
            (case delta_from of None \<Rightarrow> False | Some start \<Rightarrow> length (newer_profiles index start) > n)
      in \<lparr>lr_path = path, lr_identity = cp_identity index, lr_profile = cp_profile index,
          lr_inventory = cp_inventory index, lr_capsule = cp_capsule index, lr_topics = take n topics,
          lr_modules = shown, lr_examples = take n (cp_examples index), lr_intrinsics = take n (cp_intrinsics index),
          lr_provenance = take n (cp_provenance index),
          lr_projection =
            \<lparr>lp_mode = (if delta_from \<noteq> None then ''delta'' else ''full''),
             lp_layers = [''identity'', ''implementation'', ''evidence''] @ (if delta_from \<noteq> None then [''delta''] else []),
             lp_counts = bt_of_list [(''topics'', length (take n topics)), (''modules'', length shown),
               (''symbols'', sum_list (map (\<lambda>m. length (lm_symbols m)) shown)),
               (''effects'', sum_list (map (\<lambda>m. length (lm_effects m)) shown)),
               (''examples'', length (take n (cp_examples index))), (''intrinsics'', length (take n (cp_intrinsics index))),
               (''provenance'', length (take n (cp_provenance index))),
               (''profiles'', (case delta of None \<Rightarrow> 0 | Some d \<Rightarrow> length (ld_profiles d)))],
             lp_complete = \<not> truncated,
             lp_limitations = (if truncated then [''one or more collections are bounded by max_items''] else [])\<rparr>,
          lr_delta = delta\<rparr>)"

definition language_query ::
  "knowledge_env \<Rightarrow> string option \<Rightarrow> string option \<Rightarrow> string option \<Rightarrow> string option \<Rightarrow> string option \<Rightarrow> string option
     \<Rightarrow> nat \<Rightarrow> service_error + language_response" where
  "language_query kx root topic symbol profile delta_from known max_items =
     (if max_items = 0 then Inl (InvalidRequest ''max_items must be greater than zero'')
      else bind_result (discover_index kx root) (\<lambda>(path, index).
        if known = Some (cp_identity index) then Inr (identity_response path index unchanged_projection None)
        else
          case Option.bind known (\<lambda>start. identity_delta kx path index start max_items) of
            Some delta \<Rightarrow> Inr (identity_response path index (delta_projection delta) (Some delta))
          | None \<Rightarrow> Inr (full_response path index topic symbol profile delta_from max_items)))"

end
