(* ===== verification/Family_Context.thy ===== *)
theory Family_Context
  imports Language_Knowledge Protocol
begin

text \<open>
  \<open>family_context.rs\<close>: one bounded packet composed of the projections of several authorities: the
  repository manifest with its validation, the language, Commons (architecture and pressures), the
  verification inventory and the atlas. Reading a file, parsing JSON text, hashing and running a command
  are fields of \<open>family_env\<close>.
\<close>

section \<open>The environment\<close>

text \<open>What a spawned command comes to before the deadline of twelve seconds.\<close>

datatype process_outcome =
    NotStarted string
  | WaitFailed string
  | OutputFailed string
  | TimedOut
  | Exited bool string string

record family_env =
  fx_knowledge :: knowledge_env
  fx_read :: "string \<Rightarrow> string + string"
  fx_canonical :: "string \<Rightarrow> string option"
  fx_parse :: "string \<Rightarrow> string + json"
  fx_sha256 :: "string \<Rightarrow> string"
  fx_spawn :: "string \<Rightarrow> string list \<Rightarrow> string \<Rightarrow> string option \<Rightarrow> process_outcome"

definition fx_file :: "family_env \<Rightarrow> string \<Rightarrow> bool" where
  "fx_file fx = env_is_file (kx_files (fx_knowledge fx))"

definition fx_var :: "family_env \<Rightarrow> string \<Rightarrow> string option" where
  "fx_var fx = kx_var (fx_knowledge fx)"

definition family_context_schema :: string where "family_context_schema = ''mncs.family-agent-context/2''"
definition commons_schema :: string where "commons_schema = ''commons.mncs.family-agent-projection/1''"
definition validation_schema :: string where "validation_schema = ''mncs.standard.repository-manifest-validation/1''"
definition inventory_schema :: string where "inventory_schema = ''mncs-family.verification-obligation-inventory/v1''"
definition max_context_items :: nat where "max_context_items = 32"
definition language_authority_items :: nat where "language_authority_items = 256"
definition max_authority_output :: nat where "max_authority_output = 2 * 1024 * 1024"

section \<open>Parts of the packet\<close>

record context_source =
  xs_authority :: string
  xs_path :: string
  xs_identity :: "string option"
  xs_state :: string

record repository_context =
  rp_repository :: "string option"
  rp_revision :: "nat option"
  rp_path :: string
  rp_identity :: string
  rp_conformance :: string
  rp_validation :: "string option"
  rp_authority :: "json option"
  rp_organization :: "json option"
  rp_contracts :: "json option"
  rp_verification :: "json option"

record verification_obligation =
  vo_identity :: string
  vo_title :: string
  vo_domain :: string
  vo_role :: string
  vo_lifecycle :: string
  vo_scope :: string
  vo_provider :: string
  vo_kind :: string
  vo_ordinary :: bool

record verification_context =
  vc_state :: string
  vc_path :: "string option"
  vc_identity :: "string option"
  vc_repository :: "string option"
  vc_revision :: "nat option"
  vc_obligations :: "verification_obligation list"
  vc_complete :: bool
  vc_limitations :: "string list"

record negative_knowledge =
  nk_identity :: string
  nk_disposition :: string
  nk_source :: string
  nk_reason :: string

record language_context =
  lg_path :: "string option"
  lg_profile :: "string option"
  lg_identity :: "string option"
  lg_inventory :: "string option"
  lg_mode :: string
  lg_state :: string
  lg_topics :: "language_topic list"
  lg_modules :: "language_module list"
  lg_delta :: "language_delta option"
  lg_complete :: bool
  lg_limitations :: "string list"

record architecture_context =
  ah_path :: "string option"
  ah_schema :: "string option"
  ah_content :: "string option"
  ah_validation :: "string option"
  ah_validation_state :: string
  ah_freshness :: string
  ah_projection :: "string option"
  ah_mode :: string
  ah_capabilities :: "json list"
  ah_generators :: "json list"
  ah_delta :: "json option"
  ah_complete :: bool
  ah_limitations :: "string list"

record pressure_summary =
  ps_id :: string
  ps_title :: "string option"
  ps_target :: "string option"
  ps_domain :: "string option"
  ps_severity :: "string option"
  ps_status :: "string option"
  ps_verification :: "string option"
  ps_unresolved :: "bool option"
  ps_affected :: "string list"
  ps_required :: "string option"
  ps_source :: string

record atlas_context =
  at_path :: string
  at_identity :: "string option"
  at_revision :: "string option"
  at_project :: "json option"

record commons_projection =
  cj_architecture :: architecture_context
  cj_pressures :: "pressure_summary list"
  cj_limitations :: "string list"
  cj_sources :: "context_source list"
  cj_architecture_state :: string
  cj_pressure_state :: string
  cj_registry :: "string option"
  cj_view :: "string option"

section \<open>Commands\<close>

definition run_json_command ::
  "family_env \<Rightarrow> string \<Rightarrow> string list \<Rightarrow> string \<Rightarrow> string option \<Rightarrow> bool \<Rightarrow> string + json" where
  "run_json_command fx command args dir pythonpath allow_nonzero =
     (let joined = map_option (\<lambda>p. case fx_var fx ''PYTHONPATH'' of
            None \<Rightarrow> p | Some e \<Rightarrow> if e = [] then p else p @ '':'' @ e) pythonpath
      in case fx_spawn fx command args dir joined of
           NotStarted e \<Rightarrow> Inl (''authority query could not start: '' @ e)
         | WaitFailed e \<Rightarrow> Inl (''authority query wait failed: '' @ e)
         | OutputFailed e \<Rightarrow> Inl (''authority query output failed: '' @ e)
         | TimedOut \<Rightarrow> Inl ''authority query exceeded its time bound''
         | Exited success out err \<Rightarrow>
             if length out > max_authority_output then Inl ''authority query output exceeded its bound''
             else if \<not> success \<and> \<not> allow_nonzero
             then Inl (''authority query exited unsuccessfully: '' @ trim err)
             else (case fx_parse fx out of
                     Inl e \<Rightarrow> Inl (''authority query returned invalid JSON: '' @ e) | Inr v \<Rightarrow> Inr v))"

definition read_json :: "family_env \<Rightarrow> string \<Rightarrow> string \<Rightarrow> string + json" where
  "read_json fx what p =
     (case fx_read fx p of
        Inl e \<Rightarrow> Inl (what @ '' read failed: '' @ e)
      | Inr bytes \<Rightarrow>
          (case fx_parse fx bytes of Inl e \<Rightarrow> Inl (what @ '' JSON is invalid: '' @ e) | Inr v \<Rightarrow> Inr v))"

definition is_hexdigit :: "char \<Rightarrow> bool" where
  "is_hexdigit c \<longleftrightarrow> (48 \<le> byte_of c \<and> byte_of c \<le> 57) \<or> (65 \<le> byte_of c \<and> byte_of c \<le> 70) \<or>
     (97 \<le> byte_of c \<and> byte_of c \<le> 102)"

definition is_content_identity :: "string \<Rightarrow> bool" where
  "is_content_identity v \<longleftrightarrow>
     (case strip_prefix v ''sha256:'' of None \<Rightarrow> False | Some hex \<Rightarrow> length hex = 64 \<and> list_all is_hexdigit hex)"

text \<open>\<open>is_some_and\<close>.\<close>

definition some_and :: "'a option \<Rightarrow> ('a \<Rightarrow> bool) \<Rightarrow> bool" where
  "some_and x P \<longleftrightarrow> (case x of None \<Rightarrow> False | Some y \<Rightarrow> P y)"

definition default_command :: "family_env \<Rightarrow> string \<Rightarrow> string" where
  "default_command fx var = unwrap_or ''python3'' (fx_var fx var)"

definition var_list :: "family_env \<Rightarrow> string \<Rightarrow> string list" where
  "var_list fx var = (case fx_var fx var of None \<Rightarrow> [] | Some p \<Rightarrow> [p])"

section \<open>The repository manifest\<close>

definition standard_root :: "family_env \<Rightarrow> string \<Rightarrow> string option" where
  "standard_root fx workspace =
     find (\<lambda>p. fx_file fx (path_join p ''scripts/validate-family-manifest.py''))
       (var_list fx ''MNCS_STANDARD_ROOT'' @ [workspace] @
        map (\<lambda>p. path_join p ''machine-native-complexity-standard'') (ancestors 5 workspace))"

definition bound_report :: "string \<Rightarrow> string \<Rightarrow> json \<Rightarrow> string + json" where
  "bound_report message identity v =
     (if get_str ''schema_version'' v \<noteq> Some validation_schema \<or> get_str ''manifest_identity'' v \<noteq> Some identity
      then Inl message else Inr v)"

definition load_manifest_validation ::
  "family_env \<Rightarrow> string \<Rightarrow> string \<Rightarrow> string \<Rightarrow> string option \<Rightarrow> string + json" where
  "load_manifest_validation fx root manifest identity repository =
     (case fx_var fx ''MNCS_STANDARD_VALIDATION_PATH'' of
        Some p \<Rightarrow>
          bind_result (read_json fx ''validation projection'' p)
            (bound_report ''validation projection is not bound to this manifest'' identity)
      | None \<Rightarrow>
          (case standard_root fx root of
             None \<Rightarrow> Inl ''Standard checkout was not found''
           | Some standard \<Rightarrow>
               bind_result
                 (run_json_command fx (default_command fx ''MNCS_STANDARD_COMMAND'')
                   [''scripts/validate-family-manifest.py'', ''--manifest'', manifest, ''--repository-root'', root,
                    ''--repository'', unwrap_or [] repository] standard None True)
                 (bound_report ''Standard validation projection is not bound to this manifest'' identity)))"

text \<open>The conformance state, the validation identity and the limitations of a validation.\<close>

definition conformance_of :: "string + json \<Rightarrow> string \<times> string option \<times> string list" where
  "conformance_of validation =
     (case validation of
        Inl e \<Rightarrow> (''unavailable'', None, [''Standard repository-manifest validation unavailable: '' @ e])
      | Inr report \<Rightarrow>
          let identity = get_str ''validation_identity'' report
          in if get_bool ''valid'' report = Some True
             then if some_and identity is_content_identity then (''verified'', identity, [])
                  else (''invalid'', identity, [''Standard validation projection omitted a content identity''])
             else (''invalid'', identity, [''Standard repository-manifest validation failed'']))"

definition load_repository_manifest ::
  "family_env \<Rightarrow> string option \<Rightarrow> repository_context option \<times> string list \<times> context_source option \<times> string" where
  "load_repository_manifest fx workspace =
     (case workspace of
        None \<Rightarrow> (None, [''workspace root is unavailable''], None, ''unavailable'')
      | Some root \<Rightarrow>
          let path = path_join root ''.mncs/project.json''
          in case fx_read fx path of
               Inl _ \<Rightarrow> (None, [], None, ''unavailable'')
             | Inr bytes \<Rightarrow>
                 let identity = fx_sha256 fx bytes;
                     source = (\<lambda>state. \<lparr>xs_authority = ''repository'', xs_path = path, xs_identity = Some identity,
                       xs_state = state\<rparr>)
                 in case fx_parse fx bytes of
                      Inl e \<Rightarrow> (None, [''local manifest is invalid JSON: '' @ e], Some (source ''invalid''), ''invalid'')
                    | Inr v \<Rightarrow>
                        let repository = get_str ''repository'' v; revision = get_u64 ''revision'' v;
                            contracts = json_get ''contracts'' v;
                            (state, validation, limitations) =
                              conformance_of (load_manifest_validation fx root path identity repository);
                            limitations = limitations @
                              (if repository = None \<or> revision = None \<or> contracts = None
                               then [''local manifest did not expose repository, revision, and contracts''] else [])
                        in (Some \<lparr>rp_repository = repository, rp_revision = revision, rp_path = path,
                              rp_identity = identity, rp_conformance = state, rp_validation = validation,
                              rp_authority = json_get ''authority'' v, rp_organization = json_get ''organization'' v,
                              rp_contracts = contracts, rp_verification = json_get ''verification'' v\<rparr>,
                            limitations, Some (source state), state))"

section \<open>The verification inventory\<close>

text \<open>Absolute paths and parent components are refused.\<close>

definition safe_relative :: "string \<Rightarrow> bool" where
  "safe_relative p \<longleftrightarrow> \<not> starts_with p ''/'' \<and> ''..'' \<notin> set (snd (path_components p))"

definition field_or_unknown :: "string \<Rightarrow> json \<Rightarrow> string" where
  "field_or_unknown k v = unwrap_or ''unknown'' (get_str k v)"

definition executor_field :: "string \<Rightarrow> json \<Rightarrow> string" where
  "executor_field k item =
     unwrap_or ''unknown'' (Option.bind (Option.bind (json_get ''executor'' item) as_object)
       (\<lambda>ms. Option.bind (map_of ms k) as_str))"

definition is_ordinary :: "string \<Rightarrow> bool" where
  "is_ordinary lifecycle \<longleftrightarrow> lifecycle = ''permanent'' \<or> lifecycle = ''transitional''"

definition obligation_summary :: "string \<Rightarrow> json \<Rightarrow> verification_obligation" where
  "obligation_summary identity item =
     (let lifecycle = field_or_unknown ''lifecycle'' item
      in \<lparr>vo_identity = identity, vo_title = unwrap_or identity (get_str ''title'' item),
          vo_domain = field_or_unknown ''guarantee_domain'' item, vo_role = field_or_unknown ''evidence_role'' item,
          vo_lifecycle = lifecycle, vo_scope = field_or_unknown ''scope'' item,
          vo_provider = executor_field ''provider'' item, vo_kind = executor_field ''kind'' item,
          vo_ordinary = is_ordinary lifecycle\<rparr>)"

definition lifecycle_disposition :: "string \<Rightarrow> string" where
  "lifecycle_disposition l =
     (if l = ''reference_only'' then ''historical_reference'' else if l = ''scheduled'' then ''scheduled_only''
      else if l = ''retired'' then ''retired'' else ''not_ordinary_verification'')"

definition obligation_negative :: "string \<Rightarrow> verification_obligation \<Rightarrow> negative_knowledge list" where
  "obligation_negative path vo =
     (if vo_ordinary vo then []
      else [\<lparr>nk_identity = vo_identity vo, nk_disposition = lifecycle_disposition (vo_lifecycle vo), nk_source = path,
             nk_reason = ''obligation lifecycle '' @ vo_lifecycle vo @ '' is not part of ordinary verification''\<rparr>])"

text \<open>The rows; one without an identity invalidates the inventory.\<close>

fun inventory_rows :: "json list \<Rightarrow> verification_obligation list option" where
  "inventory_rows [] = Some []"
| "inventory_rows (item # items) =
     Option.bind (get_str ''identity'' item) (\<lambda>i.
       map_option (\<lambda>rows. obligation_summary i item # rows) (inventory_rows items))"

type_synonym verification_result = "verification_context \<times> negative_knowledge list \<times> context_source option"

definition no_verification :: "repository_context option \<Rightarrow> string \<Rightarrow> string \<Rightarrow> verification_result" where
  "no_verification repository state limitation =
     (\<lparr>vc_state = state, vc_path = None, vc_identity = None,
       vc_repository = Option.bind repository rp_repository, vc_revision = None, vc_obligations = [],
       vc_complete = False, vc_limitations = [limitation]\<rparr>, [], None)"

definition verification_source :: "string \<Rightarrow> string \<Rightarrow> string \<Rightarrow> context_source" where
  "verification_source path identity state =
     \<lparr>xs_authority = ''repository.verification-obligations'', xs_path = path, xs_identity = Some identity,
      xs_state = state\<rparr>"

definition invalid_inventory ::
  "repository_context \<Rightarrow> string \<Rightarrow> string \<Rightarrow> nat option \<Rightarrow> string \<Rightarrow> verification_result" where
  "invalid_inventory repository path identity revision limitation =
     (\<lparr>vc_state = ''invalid'', vc_path = Some path, vc_identity = Some identity,
       vc_repository = rp_repository repository, vc_revision = revision, vc_obligations = [], vc_complete = False,
       vc_limitations = [limitation]\<rparr>, [], Some (verification_source path identity ''invalid''))"

text \<open>An inventory that was read and parsed.\<close>

definition inventory_context ::
  "repository_context \<Rightarrow> string \<Rightarrow> string \<Rightarrow> nat \<Rightarrow> json \<Rightarrow> verification_result" where
  "inventory_context repository path identity max_items v =
     (if get_str ''schema_version'' v \<noteq> Some inventory_schema
      then invalid_inventory repository path identity None
             (''verification obligation inventory must be '' @ inventory_schema)
      else case (get_u64 ''revision'' v, get_array ''obligations'' v) of
             (Some revision, Some raw) \<Rightarrow>
               if get_str ''repository'' v \<noteq> rp_repository repository
               then invalid_inventory repository path identity (Some revision)
                      ''verification obligation inventory is not bound to the local repository''
               else (case inventory_rows (take max_items raw) of
                       None \<Rightarrow> no_verification (Some repository) ''invalid''
                         ''verification obligation inventory contains an obligation without identity''
                     | Some rows \<Rightarrow>
                         let truncated = length raw > max_items;
                             state = (if truncated then ''truncated'' else ''current'')
                         in (\<lparr>vc_state = state, vc_path = Some path, vc_identity = Some identity,
                               vc_repository = rp_repository repository, vc_revision = Some revision,
                               vc_obligations = rows, vc_complete = \<not> truncated,
                               vc_limitations = (if truncated
                                 then [''verification obligation rows are bounded by the family context limit'']
                                 else [])\<rparr>,
                             concat (map (obligation_negative path) rows), Some (verification_source path identity state)))
           | (revision, _) \<Rightarrow>
               invalid_inventory repository path identity revision
                 ''verification obligation inventory is not bound to the local repository'')"

text \<open>The path of the inventory a declaration names, or why there is none.\<close>

definition inventory_path :: "json \<Rightarrow> string + string" where
  "inventory_path declaration =
     (if get_str ''schema_version'' declaration \<noteq> Some inventory_schema
      then Inl (''verification declaration must use '' @ inventory_schema)
      else case get_str ''obligation_inventory'' declaration of
             None \<Rightarrow> Inl ''verification declaration does not name obligation_inventory''
           | Some p \<Rightarrow>
               if \<not> safe_relative p
               then Inl ''verification obligation inventory path is not a safe repository-relative path''
               else Inr p)"

definition load_verification_context ::
  "family_env \<Rightarrow> string option \<Rightarrow> repository_context option \<Rightarrow> nat \<Rightarrow> verification_result" where
  "load_verification_context fx workspace repository max_items =
     (case workspace of
        None \<Rightarrow> no_verification repository ''unavailable'' ''workspace root is unavailable''
      | Some root \<Rightarrow>
          (case repository of
             None \<Rightarrow> no_verification None ''unavailable''
               ''repository manifest is unavailable; verification obligation ownership is UNKNOWN''
           | Some rp \<Rightarrow>
               (case rp_verification rp of
                  None \<Rightarrow> no_verification repository ''not_declared''
                    ''repository does not declare a verification obligation inventory''
                | Some declaration \<Rightarrow>
                    (case inventory_path declaration of
                       Inl reason \<Rightarrow> no_verification repository ''invalid'' reason
                     | Inr relative \<Rightarrow>
                         let path = path_join root relative
                         in case fx_read fx path of
                              Inl e \<Rightarrow> no_verification repository ''unavailable''
                                (''verification obligation inventory cannot be read: '' @ e)
                            | Inr bytes \<Rightarrow>
                                (case fx_parse fx bytes of
                                   Inl e \<Rightarrow> invalid_inventory rp path (fx_sha256 fx bytes) None
                                     (''verification obligation inventory is invalid JSON: '' @ e)
                                 | Inr v \<Rightarrow> inventory_context rp path (fx_sha256 fx bytes) max_items v)))))"

section \<open>Negative knowledge\<close>

definition surface_negative :: "string \<Rightarrow> json \<Rightarrow> negative_knowledge option" where
  "surface_negative manifest surface =
     Option.bind (get_str ''path'' surface) (\<lambda>path.
       let cls = unwrap_or [] (get_str ''class'' surface);
           lifecycle = unwrap_or [] (Option.bind (Option.bind (json_get ''classification'' surface) as_object)
             (\<lambda>ms. Option.bind (map_of ms ''lifecycle'') as_str));
           migration = (cls = ''migration-shadow'' \<or> lifecycle = ''temporary'');
           retired = (cls = ''retired'' \<or> lifecycle = ''retired'' \<or> lifecycle = ''historical'')
       in if \<not> migration \<and> \<not> retired then None
          else Some \<lparr>nk_identity = ''repository-surface:'' @ path,
            nk_disposition = (if retired then ''retired'' else ''migration_only''), nk_source = manifest,
            nk_reason = (if retired
              then ''repository surface is historical or retired and is not a canonical implementation path''
              else ''repository surface is temporary migration machinery and is not canonical authority'')\<rparr>)"

definition negative_knowledge_from_manifest :: "repository_context option \<Rightarrow> nat \<Rightarrow> negative_knowledge list" where
  "negative_knowledge_from_manifest repository max_items =
     (case repository of
        None \<Rightarrow> []
      | Some rp \<Rightarrow>
          (case Option.bind (rp_organization rp) (get_array ''surfaces'') of
             None \<Rightarrow> []
           | Some surfaces \<Rightarrow> take max_items (List.map_filter (surface_negative (rp_path rp)) surfaces)))"

end
