(* ===== verification/Family_Query.thy ===== *)
theory Family_Query
  imports Family_Context Dedup
begin

text \<open>
  The second half of \<open>family_context.rs\<close>: the Commons projection, the atlas, the language part and the
  composition of the packet with its completeness verdict.
\<close>

section \<open>The Commons projection\<close>

definition string_items :: "string \<Rightarrow> json \<Rightarrow> string list" where
  "string_items k v = List.map_filter as_str (unwrap_or [] (get_array k v))"

definition blocking_markers :: "string list" where
  "blocking_markers = [''truncated'', ''stale'', ''unavailable'', ''validation failed'', ''not current'', ''invalid'']"

definition is_blocking_limitation :: "string \<Rightarrow> bool" where
  "is_blocking_limitation v \<longleftrightarrow> list_ex (\<lambda>m. contains_str (to_ascii_lowercase v) m) blocking_markers"

definition json_or_null :: "string \<Rightarrow> json \<Rightarrow> json" where
  "json_or_null k v = unwrap_or JNull (json_get k v)"

text \<open>The verdicts on the two projections. \<open>verified\<close> is the status and identity of the whole answer.\<close>

definition projection_verified :: "json \<Rightarrow> bool" where
  "projection_verified v \<longleftrightarrow>
     unwrap_or ''invalid'' (get_str ''status'' v) = ''verified'' \<and>
     some_and (get_str ''projection_identity'' v) is_content_identity"

definition architecture_state_of :: "bool \<Rightarrow> json \<Rightarrow> string \<Rightarrow> string" where
  "architecture_state_of verified architecture freshness =
     (if \<not> verified \<or> get_str ''validation_state'' architecture \<noteq> Some ''verified'' then ''invalid''
      else if freshness = ''current'' then ''current''
      else if freshness = ''truncated'' then ''truncated''
      else if freshness = ''stale'' then ''stale''
      else ''unavailable'')"

definition pressure_state_of :: "bool \<Rightarrow> json \<Rightarrow> string \<Rightarrow> bool \<Rightarrow> string" where
  "pressure_state_of verified pressures freshness truncated =
     (if \<not> verified \<or> get_str ''validation_state'' pressures \<noteq> Some ''verified'' \<or>
         get_str ''registry_identity'' pressures = None \<or> get_str ''view_identity'' pressures = None
      then ''invalid''
      else if truncated then ''truncated''
      else if freshness = ''current'' then ''current''
      else if freshness = ''truncated'' then ''truncated''
      else if freshness = ''stale'' then ''stale''
      else if freshness = ''unavailable'' then ''unavailable''
      else ''invalid'')"

definition pressure_row :: "string \<Rightarrow> json \<Rightarrow> pressure_summary option" where
  "pressure_row source item =
     map_option (\<lambda>i.
       \<lparr>ps_id = i, ps_title = get_str ''title'' item, ps_target = get_str ''target'' item,
        ps_domain = get_str ''domain'' item, ps_severity = get_str ''severity'' item,
        ps_status = get_str ''status'' item, ps_verification = get_str ''verificationState'' item,
        ps_unresolved = get_bool ''unresolved'' item, ps_affected = string_items ''affectedRepositories'' item,
        ps_required = get_str ''requiredBehavior'' item, ps_source = source\<rparr>) (get_str ''id'' item)"

definition architecture_of :: "json \<Rightarrow> string \<Rightarrow> nat \<Rightarrow> architecture_context" where
  "architecture_of v source max_items =
     (let architecture = json_or_null ''architecture'' v; qry = json_or_null ''query'' architecture;
          projection = json_or_null ''projection'' qry;
          scoped = unwrap_or [] (get_array ''scoped_capabilities'' qry);
          limitations = string_items ''limitations'' v @ string_items ''limitations'' projection @
            (if length scoped > max_items then [''architecture projection truncated at max_items''] else []);
          freshness = unwrap_or (unwrap_or ''invalid'' (get_str ''freshness'' v)) (get_str ''freshness'' architecture);
          state = architecture_state_of (projection_verified v) architecture freshness
      in \<lparr>ah_path = Some source, ah_schema = get_str ''schema_identity'' architecture,
          ah_content = get_str ''content_identity'' architecture,
          ah_validation = get_str ''validation_identity'' architecture,
          ah_validation_state = unwrap_or ''invalid'' (get_str ''validation_state'' architecture),
          ah_freshness = freshness, ah_projection = get_str ''projection_identity'' v,
          ah_mode = unwrap_or ''unknown'' (get_str ''mode'' projection), ah_capabilities = take max_items scoped,
          ah_generators = take max_items (unwrap_or [] (get_array ''generators'' qry)),
          ah_delta = json_get ''delta'' qry,
          ah_complete =
            (state = ''current'' \<and> get_str ''schema_identity'' architecture \<noteq> None \<and>
             get_str ''content_identity'' architecture \<noteq> None \<and> get_str ''validation_identity'' architecture \<noteq> None \<and>
             get_bool ''complete'' projection = Some True \<and> \<not> list_ex is_blocking_limitation limitations),
          ah_limitations = limitations\<rparr>)"

definition architecture_verdict :: "json \<Rightarrow> string" where
  "architecture_verdict v =
     (let architecture = json_or_null ''architecture'' v
      in architecture_state_of (projection_verified v) architecture
           (unwrap_or (unwrap_or ''invalid'' (get_str ''freshness'' v)) (get_str ''freshness'' architecture)))"

definition pressure_verdict :: "json \<Rightarrow> nat \<Rightarrow> string" where
  "pressure_verdict v max_items =
     (let pressures = json_or_null ''pressures'' v
      in pressure_state_of (projection_verified v) pressures
           (unwrap_or (unwrap_or ''invalid'' (get_str ''freshness'' v)) (get_str ''freshness'' pressures))
           (length (unwrap_or [] (get_array ''rows'' pressures)) > max_items))"

definition parse_commons_projection :: "json \<Rightarrow> string \<Rightarrow> nat \<Rightarrow> string + commons_projection" where
  "parse_commons_projection v root max_items =
     (if get_str ''schema_version'' v \<noteq> Some commons_schema then Inl ''Commons projection schema is unsupported''
      else
        let source = root @ '':family-agent-context''; pressures = json_or_null ''pressures'' v;
            architecture_state = architecture_verdict v; pressure_state = pressure_verdict v max_items
        in Inr \<lparr>cj_architecture = architecture_of v source max_items,
             cj_pressures = List.map_filter (pressure_row source)
               (take max_items (unwrap_or [] (get_array ''rows'' pressures))),
             cj_limitations = string_items ''limitations'' v @
               (if pressure_state \<noteq> ''current'' then [''Commons pressure projection is not current and verified''] else []) @
               (if architecture_state \<noteq> ''current''
                then [''Commons architecture projection is not current and verified''] else []),
             cj_sources =
               [\<lparr>xs_authority = ''MNCS-Commons.architecture'', xs_path = source,
                 xs_identity = get_str ''content_identity'' (json_or_null ''architecture'' v), xs_state = architecture_state\<rparr>,
                \<lparr>xs_authority = ''MNCS-Commons.pressures'', xs_path = source,
                 xs_identity = get_str ''view_identity'' pressures, xs_state = pressure_state\<rparr>],
             cj_architecture_state = architecture_state, cj_pressure_state = pressure_state,
             cj_registry = get_str ''registry_identity'' pressures, cj_view = get_str ''view_identity'' pressures\<rparr>)"

definition commons_arguments :: "string \<Rightarrow> string \<Rightarrow> string option \<Rightarrow> nat \<Rightarrow> string list" where
  "commons_arguments root repository known max_items =
     [''-m'', ''mncs_commons.cli'', ''family'', ''agent-context'', ''--root'', root, ''--repository'', repository,
      ''--max-items'', show_nat max_items] @
     (case known of None \<Rightarrow> [] | Some i \<Rightarrow> [''--since-architecture'', i])"

definition load_commons_projection ::
  "family_env \<Rightarrow> string \<Rightarrow> string \<Rightarrow> string option \<Rightarrow> nat \<Rightarrow> string + commons_projection" where
  "load_commons_projection fx root repository known max_items =
     bind_result
       (case fx_var fx ''MNCS_COMMONS_PROJECTION_PATH'' of
          Some p \<Rightarrow> read_json fx ''Commons projection'' p
        | None \<Rightarrow> run_json_command fx (default_command fx ''MNCS_COMMONS_COMMAND'')
                    (commons_arguments root repository known max_items) root (Some (path_join root ''src'')) False)
       (\<lambda>v. parse_commons_projection v root max_items)"

definition commons_root :: "family_env \<Rightarrow> string option \<Rightarrow> string option" where
  "commons_root fx workspace =
     find (\<lambda>p. fx_file fx (path_join p ''family/architecture-model-v1.json'') \<and>
               fx_file fx (path_join p ''src/mncs_commons/family_projection.py''))
       (var_list fx ''MNCS_COMMONS_ROOT'' @
        (case workspace of
           None \<Rightarrow> []
         | Some root \<Rightarrow> root # path_join root ''MNCS-Commons'' #
                        map (\<lambda>p. path_join p ''MNCS-Commons'') (ancestors 5 root)))"

definition unknown_architecture :: "string \<Rightarrow> architecture_context" where
  "unknown_architecture reason =
     \<lparr>ah_path = None, ah_schema = None, ah_content = None, ah_validation = None, ah_validation_state = ''unavailable'',
      ah_freshness = ''unavailable'', ah_projection = None, ah_mode = ''unknown'', ah_capabilities = [],
      ah_generators = [], ah_delta = None, ah_complete = False, ah_limitations = [reason]\<rparr>"

section \<open>The atlas\<close>

definition atlas_keys :: "string list" where
  "atlas_keys = [''id'', ''role'', ''category'', ''lifecycle'', ''authority_class'', ''responsibility'',
     ''dependencies'', ''language_profile_status'']"

text \<open>The members of a \<open>serde_json\<close> map are kept in key order.\<close>

definition compact_project :: "json \<Rightarrow> json" where
  "compact_project item =
     JObject (bt_entries (bt_of_list (List.map_filter (\<lambda>k. map_option (\<lambda>v. (k, v)) (json_get k item)) atlas_keys)))"

definition atlas_project :: "json \<Rightarrow> string option \<Rightarrow> json option" where
  "atlas_project v repository =
     Option.bind repository (\<lambda>wanted.
       Option.bind (get_array ''projects'' v) (\<lambda>projects.
         map_option compact_project (find (\<lambda>item. get_str ''id'' item = Some wanted) projects)))"

definition load_atlas ::
  "family_env \<Rightarrow> string option \<Rightarrow> string option \<Rightarrow> atlas_context option \<times> context_source option" where
  "load_atlas fx workspace repository =
     (case find (fx_file fx)
             (map (\<lambda>p. path_join p ''registry/compiled.json'') (var_list fx ''MNCS_ATLAS_ROOT'') @
              (case workspace of
                 None \<Rightarrow> []
               | Some root \<Rightarrow> path_join root ''registry/compiled.json'' # path_join root ''mncs-atlas/registry/compiled.json'' #
                              map (\<lambda>p. path_join p ''mncs-atlas/registry/compiled.json'') (ancestors 5 root))) of
        None \<Rightarrow> (None, None)
      | Some path \<Rightarrow>
          (case fx_read fx path of
             Inl _ \<Rightarrow> (None, None)
           | Inr bytes \<Rightarrow>
               (case fx_parse fx bytes of
                  Inl _ \<Rightarrow> (None, None)
                | Inr v \<Rightarrow>
                    (Some \<lparr>at_path = path, at_identity = map_option (\<lambda>h. ''sha256:'' @ h) (get_str ''registry_hash'' v),
                       at_revision = get_str ''registry_revision'' v, at_project = atlas_project v repository\<rparr>,
                     Some \<lparr>xs_authority = ''mncs-atlas (non-normative orientation)'', xs_path = path,
                       xs_identity = Some (fx_sha256 fx bytes), xs_state = ''orientation''\<rparr>))))"

section \<open>The language part\<close>

definition change_set_has_more :: "nat \<Rightarrow> 'a changes \<Rightarrow> bool" where
  "change_set_has_more n c \<longleftrightarrow> length (lc_added c) > n \<or> length (lc_changed c) > n \<or> length (lc_removed c) > n"

definition language_delta_has_more :: "nat \<Rightarrow> language_delta \<Rightarrow> bool" where
  "language_delta_has_more n d \<longleftrightarrow>
     length (ld_profiles d) > n \<or> change_set_has_more n (ld_profile_changes d) \<or> change_set_has_more n (ld_modules d) \<or>
     change_set_has_more n (ld_exports d) \<or> change_set_has_more n (ld_intrinsics d) \<or>
     change_set_has_more n (ld_effects d) \<or> change_set_has_more n (ld_capabilities d) \<or>
     change_set_has_more n (ld_examples d)"

text \<open>The part, the limitations it adds to the packet and its source.\<close>

definition language_part ::
  "family_env \<Rightarrow> string option \<Rightarrow> string option \<Rightarrow> string option \<Rightarrow> string option \<Rightarrow> nat
     \<Rightarrow> language_context \<times> string list \<times> context_source list" where
  "language_part fx workspace topic symbol known max_items =
     (case language_query (fx_knowledge fx) workspace topic symbol None None known language_authority_items of
        Inr r \<Rightarrow>
          let projection = lr_projection r;
              truncated = length (lr_topics r) > max_items \<or> length (lr_modules r) > max_items \<or>
                some_and (lr_delta r) (language_delta_has_more max_items);
              complete = (lp_complete projection \<and> lr_inventory r \<noteq> None);
              state = (if complete then ''verified'' else ''partial'')
          in (\<lparr>lg_path = Some (lr_path r), lg_profile = Some (lr_profile r), lg_identity = Some (lr_identity r),
                lg_inventory = lr_inventory r, lg_mode = lp_mode projection, lg_state = state,
                lg_topics = take max_items (lr_topics r), lg_modules = take max_items (lr_modules r),
                lg_delta = map_option (bound_delta max_items) (lr_delta r), lg_complete = complete,
                lg_limitations = lp_limitations projection @
                  (if truncated then [''language capability rows are bounded by the family context limit''] else []) @
                  (if lr_inventory r = None then [''compiler inventory identity is unavailable''] else [])\<rparr>,
              lp_limitations projection,
              [\<lparr>xs_authority = ''mncs-language'', xs_path = lr_path r, xs_identity = Some (lr_identity r), xs_state = state\<rparr>])
      | Inl e \<Rightarrow>
          let detail = ''language capability projection unavailable: '' @ service_error_display e
          in (\<lparr>lg_path = None, lg_profile = None, lg_identity = None, lg_inventory = None, lg_mode = ''unknown'',
                lg_state = ''unavailable'', lg_topics = [], lg_modules = [], lg_delta = None, lg_complete = False,
                lg_limitations = [detail]\<rparr>, [detail], []))"

section \<open>The Commons part\<close>

record commons_part =
  cq_architecture :: architecture_context
  cq_pressures :: "pressure_summary list"
  cq_architecture_state :: string
  cq_pressure_state :: string
  cq_registry :: "string option"
  cq_view :: "string option"
  cq_limitations :: "string list"
  cq_sources :: "context_source list"

definition commons_query ::
  "family_env \<Rightarrow> string option \<Rightarrow> string option \<Rightarrow> string option \<Rightarrow> nat \<Rightarrow> string + commons_projection" where
  "commons_query fx workspace repository known max_items =
     (case (commons_root fx workspace, repository) of
        (Some root, Some r) \<Rightarrow> load_commons_projection fx root r known max_items
      | (None, _) \<Rightarrow> Inl ''Commons checkout was not found''
      | (Some _, None) \<Rightarrow> Inl ''repository identity is unavailable for Commons query'')"

definition commons_part_of :: "string + commons_projection \<Rightarrow> commons_part" where
  "commons_part_of commons =
     (case commons of
        Inr p \<Rightarrow>
          \<lparr>cq_architecture = cj_architecture p, cq_pressures = cj_pressures p,
           cq_architecture_state = cj_architecture_state p, cq_pressure_state = cj_pressure_state p,
           cq_registry = cj_registry p, cq_view = cj_view p,
           cq_limitations = filter is_blocking_limitation (cj_limitations p), cq_sources = cj_sources p\<rparr>
      | Inl e \<Rightarrow>
          let detail = ''Commons bounded family projection unavailable: '' @ e
          in \<lparr>cq_architecture = unknown_architecture detail, cq_pressures = [], cq_architecture_state = ''unavailable'',
              cq_pressure_state = ''unavailable'', cq_registry = None, cq_view = None, cq_limitations = [detail],
              cq_sources = []\<rparr>)"

section \<open>The packet\<close>

record authority_state =
  au_authority :: string
  au_state :: string
  au_identity :: "string option"
  au_registry :: "string option"

record family_packet =
  fp_repository :: "repository_context option"
  fp_language :: language_context
  fp_architecture :: architecture_context
  fp_verification :: verification_context
  fp_atlas :: "atlas_context option"
  fp_pressures :: "pressure_summary list"
  fp_negative :: "negative_knowledge list"
  fp_complete :: bool
  fp_state :: string
  fp_limitations :: "string list"
  fp_authorities :: "authority_state list"
  fp_provenance :: "context_source list"

definition opt_list :: "'a option \<Rightarrow> 'a list" where
  "opt_list x = (case x of None \<Rightarrow> [] | Some y \<Rightarrow> [y])"

definition mismatch_limitation :: "string option \<Rightarrow> repository_context option \<Rightarrow> string list" where
  "mismatch_limitation repository manifest =
     (case (repository, Option.bind manifest rp_repository) of
        (Some requested, Some actual) \<Rightarrow>
          if requested \<noteq> actual
          then [''requested repository '' @ requested @ '' does not match local manifest '' @ actual] else []
      | _ \<Rightarrow> [])"

definition packet_complete ::
  "repository_context option \<Rightarrow> string \<Rightarrow> language_context \<Rightarrow> commons_part \<Rightarrow> string list \<Rightarrow> bool" where
  "packet_complete manifest manifest_state language commons limitations \<longleftrightarrow>
     some_and manifest (\<lambda>m. rp_conformance m = ''verified'') \<and> lg_complete language \<and>
     ah_complete (cq_architecture commons) \<and> manifest_state = ''verified'' \<and>
     cq_architecture_state commons = ''current'' \<and> cq_pressure_state commons = ''current'' \<and> limitations = []"

definition packet_state :: "bool \<Rightarrow> string \<Rightarrow> string \<Rightarrow> string \<Rightarrow> string" where
  "packet_state complete language_state architecture_state manifest_state =
     (if complete then ''complete''
      else if language_state \<noteq> ''unavailable'' \<and> architecture_state \<noteq> ''unavailable'' \<and> manifest_state \<noteq> ''unavailable''
      then ''partial'' else ''unknown'')"

definition family_authorities ::
  "repository_context option \<Rightarrow> string \<Rightarrow> language_context \<Rightarrow> commons_part \<Rightarrow> verification_context
     \<Rightarrow> authority_state list" where
  "family_authorities manifest manifest_state language commons verification =
     [\<lparr>au_authority = ''machine-native-complexity-standard'', au_state = manifest_state,
       au_identity = Option.bind manifest rp_validation, au_registry = None\<rparr>,
      \<lparr>au_authority = ''mncs-language'', au_state = lg_state language, au_identity = lg_identity language, au_registry = None\<rparr>,
      \<lparr>au_authority = ''MNCS-Commons.architecture'', au_state = cq_architecture_state commons,
       au_identity = ah_content (cq_architecture commons), au_registry = None\<rparr>,
      \<lparr>au_authority = ''MNCS-Commons.pressures'', au_state = cq_pressure_state commons, au_identity = cq_view commons,
       au_registry = cq_registry commons\<rparr>,
      \<lparr>au_authority = ''repository.verification-obligations'', au_state = vc_state verification,
       au_identity = vc_identity verification, au_registry = None\<rparr>]"

definition family_query ::
  "family_env \<Rightarrow> string option \<Rightarrow> string option \<Rightarrow> string option \<Rightarrow> string option \<Rightarrow> string option \<Rightarrow> string option
     \<Rightarrow> nat \<Rightarrow> service_error + family_packet" where
  "family_query fx root repository topic symbol known_language known_architecture max_items =
     (if max_items = 0 then Inl (InvalidRequest ''max_items must be greater than zero'')
      else
        let max_items = min max_items max_context_items;
            workspace = (case root of
              Some p \<Rightarrow> Some (unwrap_or p (fx_canonical fx p)) | None \<Rightarrow> kx_cwd (fx_knowledge fx));
            (manifest, manifest_limitations, manifest_source, manifest_state) = load_repository_manifest fx workspace;
            (verification, negative, verification_source) = load_verification_context fx workspace manifest max_items;
            repository_id = (case Option.bind manifest rp_repository of Some r \<Rightarrow> Some r | None \<Rightarrow> repository);
            (language, language_limitations, language_source) =
              language_part fx workspace topic symbol known_language max_items;
            commons = commons_part_of (commons_query fx workspace repository_id known_architecture max_items);
            (atlas, atlas_source) = load_atlas fx workspace repository_id;
            limitations = manifest_limitations @
              (if vc_state verification = ''invalid'' \<or> vc_state verification = ''unavailable''
               then vc_limitations verification else []) @
              mismatch_limitation repository manifest @ language_limitations @ cq_limitations commons @
              (if manifest = None
               then [''local .mncs/project.json is absent; repository ownership and contracts are UNKNOWN''] else []);
            complete = packet_complete manifest manifest_state language commons limitations
        in Inr \<lparr>fp_repository = manifest, fp_language = language, fp_architecture = cq_architecture commons,
             fp_verification = verification, fp_atlas = atlas, fp_pressures = cq_pressures commons,
             fp_negative = dedup_key nk_identity (sort_key nk_identity
               (negative @ negative_knowledge_from_manifest manifest max_items)),
             fp_complete = complete,
             fp_state = packet_state complete (lg_state language) (cq_architecture_state commons) manifest_state,
             fp_limitations = limitations,
             fp_authorities = family_authorities manifest manifest_state language commons verification,
             fp_provenance = opt_list manifest_source @ opt_list verification_source @ language_source @
               cq_sources commons @ opt_list atlas_source\<rparr>)"

end
