(* ===== verification/Family_Props.thy ===== *)
theory Family_Props
  imports Family_Query
begin

text \<open>
  What the language answers and the family packet guarantee: identity deltas follow the published history,
  full answers tell whether something was cut, a packet is complete only when every required authority is
  verified and current, and its rows are bounded.
\<close>

section \<open>Identity deltas\<close>






section \<open>Full answers\<close>

lemma take_whole: "take n xs = xs \<longleftrightarrow> \<not> length xs > n"
  by (metis leI le_antisym length_take linorder_not_less min.absorb2 min.cobounded2 take_all_iff)

text \<open>A full language answer holds at most the requested number of rows of each collection, and it calls itself
  complete exactly when no collection was cut: topics, modules, examples, intrinsics, provenance and the
  profiles newer than the requested one are all there.\<close>

theorem language_full_exact:
  "let r = full_response path index topic symbol profile delta_from n in
   (lp_complete (lr_projection r) \<longleftrightarrow>
      lr_topics r = filter (matches_topic topic) (cp_topics index) \<and>
      lr_modules r = filter (matches_module symbol profile) (cp_modules index) \<and>
      lr_examples r = cp_examples index \<and> lr_intrinsics r = cp_intrinsics index \<and>
      lr_provenance r = cp_provenance index \<and>
      map_option ld_profiles (lr_delta r) = map_option (newer_profiles index) delta_from) \<and>
   (lp_complete (lr_projection r) \<longleftrightarrow> lp_limitations (lr_projection r) = []) \<and>
   list_all (\<lambda>k. k \<le> n) [length (lr_topics r), length (lr_modules r), length (lr_examples r), length (lr_intrinsics r),
     length (lr_provenance r), (case lr_delta r of None \<Rightarrow> 0 | Some d \<Rightarrow> length (ld_profiles d))]"
  by (cases delta_from) (auto simp: full_response_def Let_def take_whole profile_delta_def)

text \<open>An index whose history has one entry that added two modules.\<close>

definition delta_index :: capability_index where
  "delta_index = \<lparr>cp_schema = index_schema, cp_language = ''MNCS'', cp_profile = ''p'', cp_registry = ''r'',
     cp_inventory = Some ''c'', cp_profiles = [], cp_modules = [], cp_intrinsics = [], cp_topics = [],
     cp_examples = [], cp_provenance = [], cp_capsule = JNull, cp_identity = ''new''\<rparr>"

definition delta_sample_entry :: delta_entry where
  "delta_sample_entry = \<lparr>lx_previous = ''old'', lx_current = ''new'', lx_from_profile = None, lx_to_profile = None,
     lx_profiles = no_changes, lx_modules = no_changes\<lparr>lc_added := [''a'', ''b'']\<rparr>, lx_exports = no_changes,
     lx_intrinsics = no_changes, lx_effects = no_changes, lx_capabilities = no_changes, lx_examples = no_changes\<rparr>"

definition delta_sample_history :: delta_history where
  "delta_sample_history = \<lparr>lh_schema = delta_schema, lh_retention = 1, lh_identity = ''h'', lh_deltas = [delta_sample_entry]\<rparr>"

text \<open>The answer to a caller that knows an earlier identity bounds every change list of the delta by the
  requested number of rows and yet declares itself complete and without limitation: with one row allowed, the
  second of two added modules is dropped unsaid.\<close>

theorem truncated_delta_complete:
  "case language_query
      \<lparr>kx_files = e\<lparr>env_read := (\<lambda>p. ReadOk []), env_is_file := (\<lambda>p. True)\<rparr>, kx_var = (\<lambda>v. None), kx_cwd = Some ''/w'',
       kx_decode_index = (\<lambda>t. Inr delta_index), kx_decode_history = (\<lambda>t. Some delta_sample_history),
       kx_json_text = (\<lambda>j. [])\<rparr> None topic symbol profile delta_from (Some ''old'') 1 of
      Inl _ \<Rightarrow> False
    | Inr r \<Rightarrow> lp_complete (lr_projection r) \<and> lp_limitations (lr_projection r) = [] \<and>
        map_option (\<lambda>d. lc_added (ld_modules d)) (lr_delta r) = Some [''a''] \<and>
        lc_added (lx_modules delta_sample_entry) = [''a'', ''b'']"
    (is "case language_query ?kx _ _ _ _ _ _ _ of Inl _ \<Rightarrow> _ | Inr r \<Rightarrow> ?P r")
proof -
  have "load_index ?kx p = Inr delta_index" for p
    by (simp add: load_index_def delta_index_def)
  then obtain path where found: "discover_index ?kx None = Inr (path, delta_index)"
    by (simp add: discover_index_def index_candidates_def)
  have history: "load_delta_history ?kx path = Some delta_sample_history"
    by (simp add: load_delta_history_def delta_sample_history_def)
  have sample: "lh_deltas delta_sample_history = [delta_sample_entry]" "lh_retention delta_sample_history = 1"
    "lx_modules delta_sample_entry = \<lparr>lc_added = [''a'', ''b''], lc_changed = [], lc_removed = []\<rparr>"
    "lx_current delta_sample_entry = ''new''" "lx_previous delta_sample_entry = ''old''" "cp_identity delta_index = ''new''"
    by (simp_all add: delta_sample_history_def delta_sample_entry_def no_changes_def delta_index_def)
  have walk: "delta_chain [delta_sample_entry] 1 ''old'' ''new'' [] = Some [delta_sample_entry]"
    by (simp add: delta_chain.simps sample)
  have "lc_added (ld_modules (apply_entry ?kx delta_index delta_sample_entry (empty_delta delta_index ''old''))) = [''a'', ''b'']"
    by (simp add: apply_entry_def empty_delta_def no_changes_def merge_change_set_def merge_strings_def sample)
  then obtain d where delta: "identity_delta ?kx path delta_index ''old'' 1 = Some d" "lc_added (ld_modules d) = [''a'']"
    by (simp add: identity_delta_def history sample walk [unfolded One_nat_def] Let_def bound_delta_def bound_changes_def)
  have "language_query ?kx None topic symbol profile delta_from (Some ''old'') 1 =
      Inr (identity_response path delta_index (delta_projection d) (Some d))"
    by (simp add: language_query_def found sample delta(1) [unfolded One_nat_def])
  then show ?thesis using delta(2) by (simp add: identity_response_def delta_projection_def sample)
qed

section \<open>The packet\<close>

definition authority_states :: "family_packet \<Rightarrow> (string \<times> string) list" where
  "authority_states p = map (\<lambda>a. (au_authority a, au_state a)) (fp_authorities p)"

lemma conformance_states:
  "conformance_of v = (state, i, ls) \<Longrightarrow> state = ''verified'' \<longrightarrow> some_and i is_content_identity"
  by (cases v) (auto simp: conformance_of_def Let_def split: if_splits)

lemma manifest_states:
  "load_repository_manifest fx w = (Some m, ls, src, state) \<Longrightarrow> rp_conformance m = state \<and>
     (state = ''verified'' \<longrightarrow> some_and (rp_validation m) is_content_identity)"
proof -
  assume load: "load_repository_manifest fx w = (Some m, ls, src, state)"
  obtain root where root: "w = Some root" using load by (cases w) (simp_all add: load_repository_manifest_def)
  let ?path = "path_join root ''.mncs/project.json''"
  obtain bytes where bytes: "fx_read fx ?path = Inr bytes"
    using load root by (cases "fx_read fx ?path") (simp_all add: load_repository_manifest_def Let_def)
  obtain v where v: "fx_parse fx bytes = Inr v"
    using load root bytes by (cases "fx_parse fx bytes") (simp_all add: load_repository_manifest_def Let_def)
  let ?c = "conformance_of (load_manifest_validation fx root ?path (fx_sha256 fx bytes) (get_str ''repository'' v))"
  obtain st i l where c: "?c = (st, i, l)" by (metis prod_cases3)
  have "state = st" "rp_conformance m = st" "rp_validation m = i"
    using load by (auto simp: load_repository_manifest_def root bytes v c Let_def)
  then show ?thesis using conformance_states [OF c] by simp
qed

lemma parse_commons_fields:
  assumes "parse_commons_projection v root n = Inr p"
  shows "cj_architecture p = architecture_of v (root @ '':family-agent-context'') n"
    "cj_architecture_state p = architecture_verdict v" "cj_pressure_state p = pressure_verdict v n"
    "cj_pressures p = List.map_filter (pressure_row (root @ '':family-agent-context''))
       (take n (unwrap_or [] (get_array ''rows'' (json_or_null ''pressures'' v))))"
    "cj_registry p = get_str ''registry_identity'' (json_or_null ''pressures'' v)"
    "cj_view p = get_str ''view_identity'' (json_or_null ''pressures'' v)"
proof -
  have ok: "(get_str ''schema_version'' v \<noteq> Some commons_schema) = False"
    using assms by (cases "get_str ''schema_version'' v \<noteq> Some commons_schema") (simp_all only: parse_commons_projection_def if_True not_False_eq_True sum.distinct)
  note p = assms [unfolded parse_commons_projection_def ok if_False Let_def sum.inject, symmetric]
  show "cj_architecture p = architecture_of v (root @ '':family-agent-context'') n"
    "cj_architecture_state p = architecture_verdict v" "cj_pressure_state p = pressure_verdict v n"
    "cj_pressures p = List.map_filter (pressure_row (root @ '':family-agent-context''))
       (take n (unwrap_or [] (get_array ''rows'' (json_or_null ''pressures'' v))))"
    "cj_registry p = get_str ''registry_identity'' (json_or_null ''pressures'' v)"
    "cj_view p = get_str ''view_identity'' (json_or_null ''pressures'' v)"
    by (simp_all only: p commons_projection.select_convs)
qed

lemma architecture_current:
  assumes "architecture_verdict v = ''current''"
  shows "projection_verified v \<and> ah_freshness (architecture_of v source n) = ''current'' \<and>
    ah_validation_state (architecture_of v source n) = ''verified''"
proof -
  have state: "verified \<and> get_str ''validation_state'' a = Some ''verified'' \<and> f = ''current''"
    if "architecture_state_of verified a f = ''current''" for verified a f
    using that by (simp add: architecture_state_of_def split: if_splits)
  note state [OF assms [unfolded architecture_verdict_def Let_def]]
  then show ?thesis by (simp add: architecture_of_def Let_def)
qed

lemma pressure_current:
  assumes "pressure_verdict v n = ''current''"
  shows "length (unwrap_or [] (get_array ''rows'' (json_or_null ''pressures'' v))) \<le> n"
proof -
  have "\<not> truncated" if "pressure_state_of verified q f truncated = ''current''" for verified q f truncated
    using that by (simp add: pressure_state_of_def split: if_splits)
  from this [OF assms [unfolded pressure_verdict_def Let_def]] show ?thesis by simp
qed

text \<open>How a packet is composed of its parts, \<open>n\<close> rows at most.\<close>

definition packet_composed ::
  "family_env \<Rightarrow> string option \<Rightarrow> string option \<Rightarrow> string option \<Rightarrow> nat \<Rightarrow> string list \<Rightarrow> string \<Rightarrow> string list
     \<Rightarrow> family_packet \<Rightarrow> bool" where
  "packet_composed fx workspace repository ka n ml mstate ll p \<longleftrightarrow>
    (let commons = commons_part_of (commons_query fx workspace
         (case Option.bind (fp_repository p) rp_repository of Some r \<Rightarrow> Some r | None \<Rightarrow> repository) ka n)
     in fp_architecture p = cq_architecture commons \<and> fp_pressures p = cq_pressures commons \<and>
        fp_limitations p = ml @
          (if vc_state (fp_verification p) = ''invalid'' \<or> vc_state (fp_verification p) = ''unavailable''
           then vc_limitations (fp_verification p) else []) @
          mismatch_limitation repository (fp_repository p) @ ll @ cq_limitations commons @
          (if fp_repository p = None
           then [''local .mncs/project.json is absent; repository ownership and contracts are UNKNOWN''] else []) \<and>
        fp_complete p = packet_complete (fp_repository p) mstate (fp_language p) commons (fp_limitations p) \<and>
        fp_state p = packet_state (fp_complete p) (lg_state (fp_language p)) (cq_architecture_state commons) mstate \<and>
        fp_authorities p = family_authorities (fp_repository p) mstate (fp_language p) commons (fp_verification p))"

text \<open>The parts of a packet, and where each of its fields comes from.\<close>

lemma family_parts:
  assumes "family_query fx root repository topic symbol kl ka max_items = Inr p"
  obtains workspace ml ms mstate negative vs ll ls atlas_source n where
    "max_items \<noteq> 0" "n = min max_items max_context_items"
    "load_repository_manifest fx workspace = (fp_repository p, ml, ms, mstate)"
    "load_verification_context fx workspace (fp_repository p) n = (fp_verification p, negative, vs)"
    "language_part fx workspace topic symbol kl n = (fp_language p, ll, ls)"
    "packet_composed fx workspace repository ka n ml mstate ll p"
    "fp_negative p = dedup_key nk_identity (sort_key nk_identity
       (negative @ negative_knowledge_from_manifest (fp_repository p) n))"
proof -
  have pos: "(max_items = 0) = False"
    using assms by (cases "max_items = 0") (simp_all add: family_query_def)
  let ?n = "min max_items max_context_items"
  let ?workspace = "case root of Some p \<Rightarrow> Some (unwrap_or p (fx_canonical fx p)) | None \<Rightarrow> kx_cwd (fx_knowledge fx)"
  obtain manifest ml ms mstate where m: "load_repository_manifest fx ?workspace = (manifest, ml, ms, mstate)"
    by (metis prod_cases4)
  obtain verification negative vs where v: "load_verification_context fx ?workspace manifest ?n = (verification, negative, vs)"
    by (metis prod_cases3)
  obtain language ll ls where l: "language_part fx ?workspace topic symbol kl ?n = (language, ll, ls)"
    by (metis prod_cases3)
  obtain atlas atlas_source where a: "load_atlas fx ?workspace
      (case Option.bind manifest rp_repository of Some r \<Rightarrow> Some r | None \<Rightarrow> repository) = (atlas, atlas_source)"
    by (metis prod.exhaust)
  note p = assms [unfolded family_query_def pos if_False Let_def m v l a prod.case sum.inject, symmetric]
  have fields: "fp_repository p = manifest" "fp_verification p = verification" "fp_language p = language"
    by (simp_all only: p family_packet.select_convs)
  show ?thesis
    by (rule that [OF _ refl, of ?workspace ml ms mstate negative vs ll ls])
      (use pos in \<open>simp_all only: fields m v l packet_composed_def Let_def\<close>, simp_all only: p family_packet.select_convs simp_thms)
qed

lemma language_verified:
  "language_part fx w topic symbol kl n = (l, ll, ls) \<Longrightarrow> lg_complete l \<Longrightarrow> lg_state l = ''verified'' \<and> lg_inventory l \<noteq> None"
  by (cases "language_query (fx_knowledge fx) w topic symbol None None kl language_authority_items")
    (auto simp: language_part_def Let_def)

lemma commons_current:
  assumes query: "r = commons_query fx w repository ka n" and current: "cq_architecture_state (commons_part_of r) = ''current''"
  shows "ah_freshness (cq_architecture (commons_part_of r)) = ''current'' \<and>
    ah_validation_state (cq_architecture (commons_part_of r)) = ''verified''"
proof (cases r)
  case (Inl e)
  then show ?thesis using current by (simp add: commons_part_of_def Let_def)
next
  case (Inr c)
  then obtain v rt where parse: "parse_commons_projection v rt n = Inr c"
    using query by (auto simp: commons_query_def load_commons_projection_def bind_result_eq_Inr split: option.splits)
  have "architecture_verdict v = ''current''" using current Inr parse_commons_fields [OF parse] by (simp add: commons_part_of_def)
  from architecture_current [OF this] show ?thesis using Inr parse_commons_fields [OF parse] by (simp add: commons_part_of_def)
qed

text \<open>C18: A family packet declares itself complete only when every required authority stands behind it: the local
  manifest exists, its validation is bound to it and verified with a content identity, and it is the requested
  repository; the language answer is complete and verified; the architecture projection is complete, current
  and verified and the pressures current; the verification inventory is not invalid or unavailable, and
  nothing was left to say. Only then is its state complete.\<close>

theorem family_complete_sound:
  "case family_query fx root repository topic symbol known_language known_architecture max_items of
     Inl _ \<Rightarrow> max_items = 0
   | Inr p \<Rightarrow>
       (if fp_complete p
        then fp_state p = ''complete'' \<and> fp_limitations p = [] \<and>
          (\<exists>m. fp_repository p = Some m \<and> rp_conformance m = ''verified'' \<and> some_and (rp_validation m) is_content_identity \<and>
             mismatch_limitation repository (Some m) = []) \<and>
          lg_complete (fp_language p) \<and> lg_inventory (fp_language p) \<noteq> None \<and>
          ah_complete (fp_architecture p) \<and> ah_freshness (fp_architecture p) = ''current'' \<and>
          ah_validation_state (fp_architecture p) = ''verified'' \<and>
          map au_state (take 4 (fp_authorities p)) = [''verified'', ''verified'', ''current'', ''current'']
        else fp_state p = ''partial'' \<or> fp_state p = ''unknown'')"
proof (cases "family_query fx root repository topic symbol known_language known_architecture max_items")
  case (Inl e)
  then show ?thesis by (cases "max_items = 0") (auto simp: family_query_def Let_def split: prod.splits)
next
  case (Inr p)
  obtain workspace ml ms mstate negative vs ll ls atlas_source n where
      load: "load_repository_manifest fx workspace = (fp_repository p, ml, ms, mstate)"
    and lang: "language_part fx workspace topic symbol known_language n = (fp_language p, ll, ls)"
    and rest: "packet_composed fx workspace repository known_architecture n ml mstate ll p"
    by (rule family_parts [OF Inr])
  let ?q = "commons_query fx workspace
    (case Option.bind (fp_repository p) rp_repository of Some r \<Rightarrow> Some r | None \<Rightarrow> repository) known_architecture n"
  let ?c = "commons_part_of ?q"
  note r = rest [unfolded packet_composed_def Let_def]
  show ?thesis
  proof (cases "fp_complete p")
    case False
    then have "fp_state p = ''partial'' \<or> fp_state p = ''unknown''" using r by (auto simp: packet_state_def)
    then show ?thesis using False Inr by simp
  next
    case True
    then have pc: "packet_complete (fp_repository p) mstate (fp_language p) ?c (fp_limitations p)" using r by simp
    then obtain m where m: "fp_repository p = Some m" "rp_conformance m = ''verified''" "mstate = ''verified''"
      by (auto simp: packet_complete_def some_and_def split: option.splits)
    have "some_and (rp_validation m) is_content_identity" using manifest_states [of fx workspace m ml ms mstate] load m by simp
    moreover have "fp_limitations p = []" using pc by (simp add: packet_complete_def)
    moreover from this have "mismatch_limitation repository (Some m) = []" using r m(1) by simp
    moreover have "lg_complete (fp_language p)" using pc by (simp add: packet_complete_def)
    moreover note language_verified [OF lang this]
    moreover have "cq_architecture_state ?c = ''current''" "cq_pressure_state ?c = ''current''" "ah_complete (fp_architecture p)"
      using pc r by (simp_all add: packet_complete_def)
    moreover note commons_current [OF refl this(1)]
    moreover have "fp_state p = ''complete''" using r True by (simp add: packet_state_def)
    ultimately show ?thesis using True Inr m r by (simp add: family_authorities_def)
  qed
qed

section \<open>Bounds and confinement\<close>












text \<open>C39: The verification part reads nothing but files of the repository: whatever the other files hold, and whatever
  path the manifest declares, the result depends only on what is read at the root joined with a relative path
  that has no parent component.\<close>

theorem inventory_confined:
  "load_verification_context
     (fx\<lparr>fx_read := \<lambda>p. if p \<in> {path_join root r |r. safe_relative r} then fx_read fx p else other p\<rparr>) (Some root) repository n =
   load_verification_context fx (Some root) repository n"
proof -
  let ?fx = "fx\<lparr>fx_read := \<lambda>p. if p \<in> {path_join root r |r. safe_relative r} then fx_read fx p else other p\<rparr>"
  have "safe_relative r" if "inventory_path d = Inr r" for d r
    using that by (auto simp: inventory_path_def split: option.splits if_splits)
  then have "fx_read ?fx (path_join root r) = fx_read fx (path_join root r)" if "inventory_path d = Inr r" for d r
    using that by auto
  then show ?thesis
    by (auto simp: load_verification_context_def Let_def split: option.split sum.split)
qed

section \<open>Generators are cut without a word\<close>

definition generators_answer :: json where
  "generators_answer =
     JObject [(''projection_identity'', JString (''sha256:'' @ replicate 64 (CHR ''0''))), (''status'', JString ''verified''),
       (''freshness'', JString ''current''),
       (''architecture'', JObject [(''validation_state'', JString ''verified''), (''schema_identity'', JString ''s''),
          (''content_identity'', JString ''c''), (''validation_identity'', JString ''v''),
          (''query'', JObject [(''generators'', JArray [JString ''a'', JString ''b'']),
             (''projection'', JObject [(''complete'', JBool True)])])])]"

text \<open>The architecture part is declared complete, without a limitation, although only the first of two generators
  is in it: unlike the capabilities, generators beyond the bound are dropped without being reported.\<close>

theorem generators_cut_silently:
  "ah_complete (architecture_of generators_answer source 1) \<and>
   ah_limitations (architecture_of generators_answer source 1) = [] \<and>
   ah_generators (architecture_of generators_answer source 1) = [JString ''a''] \<and>
   length (unwrap_or [] (get_array ''generators'' (json_or_null ''query'' (json_or_null ''architecture'' generators_answer)))) = 2"
proof -
  have architecture: "json_or_null ''architecture'' generators_answer =
      JObject [(''validation_state'', JString ''verified''), (''schema_identity'', JString ''s''),
          (''content_identity'', JString ''c''), (''validation_identity'', JString ''v''),
          (''query'', JObject [(''generators'', JArray [JString ''a'', JString ''b'']),
             (''projection'', JObject [(''complete'', JBool True)])])]"
    by (simp add: json_or_null_def generators_answer_def json_get_def)
  have "is_content_identity (''sha256:'' @ replicate 64 (CHR ''0''))"
    by (simp add: is_content_identity_def strip_prefix_def is_hexdigit_def byte_of_def list_all_iff)
  then have verified: "projection_verified generators_answer"
    by (simp add: projection_verified_def generators_answer_def get_str_def json_get_def some_and_def)
  have "string_items ''limitations'' generators_answer = []" "get_str ''freshness'' generators_answer = Some ''current''"
    by (simp_all add: string_items_def get_array_def get_str_def json_get_def generators_answer_def map_filter_simps)
  then show ?thesis
    by (simp add: architecture_of_def architecture [unfolded json_or_null_def json_get_def] architecture_state_of_def verified Let_def json_or_null_def json_get_def
        get_str_def get_array_def get_bool_def string_items_def map_filter_simps)
qed

end
