(* ===== verification/Capsule_Kernel.thy ===== *)
theory Capsule_Kernel
  imports Relation_Kernel
begin

text \<open>
  The kernel half of \<open>ambient.rs\<close>: preparing and caching the capsule kernel, and the two calls that order
  a window of findings and select the admitted ones. Findings go to the kernel as pairs of a severity and
  a kind rank. Hashing is the argument \<open>sha\<close>. The walk over the imports of the kernel follows whatever the
  resolver finds, so it may not end: then its value is \<^const>\<open>None\<close>.
\<close>

section \<open>The kernel\<close>

definition capsule_module :: string where "capsule_module = ''mncs.language_service.semantic_capsule.v1''"
definition capsule_function :: string where "capsule_function = ''select_capsule''"
definition capsule_order_function :: string where "capsule_order_function = ''order_capsule_window''"
definition capsule_uri :: string where "capsule_uri = ''mncs://language-service/semantic-capsule.mncs''"
definition capsule_step_budget :: nat where "capsule_step_budget = 100000"
definition capsule_capacity :: nat where "capsule_capacity = 32"
definition capsule_window :: nat where "capsule_window = capsule_capacity * 2"

record capsule_kernel =
  ck_cache :: string
  ck_kernel :: kernel

type_synonym capsule_state = "capsule_kernel option \<times> document_store"

text \<open>One source: its imports that are not known yet are resolved; the last one found is looked at first.\<close>

definition visit_use ::
  "environment \<Rightarrow> process_env \<Rightarrow> toolchain \<Rightarrow> string
     \<Rightarrow> (native_error + string list \<times> (string, string) btree) \<times> document_store
     \<Rightarrow> (native_error + string list \<times> (string, string) btree) \<times> document_store" where
  "visit_use env px tc m s =
     (case s of
        (Inl e, st) \<Rightarrow> (Inl e, st)
      | (Inr (pending, deps), st) \<Rightarrow>
          if bt_lookup deps m \<noteq> None then (Inr (pending, deps), st)
          else (case store_resolve env px tc m st of
                  (None, st) \<Rightarrow> (Inl (KernelUnavailable (''capsule dependency '' @ m @ '' is unavailable'')), st)
                | (Some e, st) \<Rightarrow> (Inr (en_text e # pending, bt_insert m (en_identity e) deps), st)))"

partial_function (option) dependency_walk ::
  "environment \<Rightarrow> process_env \<Rightarrow> toolchain \<Rightarrow> string list \<Rightarrow> (string, string) btree \<Rightarrow> document_store
     \<Rightarrow> ((native_error + (string, string) btree) \<times> document_store) option" where
  "dependency_walk env px tc pending deps st =
     (case pending of
        [] \<Rightarrow> Some (Inr deps, st)
      | source # pending \<Rightarrow>
          (case fold (visit_use env px tc) (use_names source) (Inr (pending, deps), st) of
             (Inl e, st) \<Rightarrow> Some (Inl e, st)
           | (Inr (pending, deps), st) \<Rightarrow> dependency_walk env px tc pending deps st))"

definition nul :: string where "nul = [CHR 0x00]"

definition capsule_cache_identity :: "(string \<Rightarrow> string) \<Rightarrow> string \<Rightarrow> (string, string) btree \<Rightarrow> string" where
  "capsule_cache_identity sha source deps =
     ''sha256:'' @ sha (''mncs-language-service.semantic-capsule-kernel/2'' @ nul @ source @ nul @
       concat (map (\<lambda>(m, i). m @ nul @ i @ nul) (bt_entries deps)))"

definition prepare_capsule_kernel ::
  "environment \<Rightarrow> process_env \<Rightarrow> toolchain \<Rightarrow> native_platform \<Rightarrow> (string \<Rightarrow> string) \<Rightarrow> string \<Rightarrow> document_store
     \<Rightarrow> (native_error + capsule_kernel) \<times> document_store" where
  "prepare_capsule_kernel env px tc np sha source st =
     (case run_compilation (store_resolve env px tc) (tl_compile tc (envelope env tc capsule_uri (np_source np))) st of
        (fe, st) \<Rightarrow>
          (if \<not> np_valid np fe then Inl (KernelUnavailable ''capsule policy kernel source is unsupported'')
           else case fe_program fe of
             None \<Rightarrow> Inl (KernelUnavailable ''capsule policy kernel did not produce a valid authoritative program'')
           | Some program \<Rightarrow>
               (let deps = bt_of_list (map (\<lambda>r. (mr_requested r, mr_identity r)) (fe_module_resolutions fe))
                in case np_emit np program of
                     Inl reason \<Rightarrow> Inl (KernelUnavailable reason)
                   | Inr em \<Rightarrow>
                       if em_backend em \<noteq> np_backend_name np \<or> \<not> em_identity_valid em \<or> \<not> em_passed em
                       then Inl (KernelUnavailable ''capsule policy kernel backend artifact failed identity/status validation'')
                       else Inr \<lparr>ck_cache = capsule_cache_identity sha source deps,
                         ck_kernel = \<lparr>k_source_identity = source, k_dependencies = deps,
                           k_record_types = em_record_types em, k_finite_types = em_finite_types em,
                           k_backend_name = em_backend em, k_artifact_identity = em_identity em\<rparr>\<rparr>), st))"

definition fetch_capsule_kernel ::
  "environment \<Rightarrow> process_env \<Rightarrow> toolchain \<Rightarrow> native_platform \<Rightarrow> (string \<Rightarrow> string) \<Rightarrow> capsule_state
     \<Rightarrow> ((native_error + kernel) \<times> capsule_state) option" where
  "fetch_capsule_kernel env px tc np sha s =
     (case s of (cache, st) \<Rightarrow>
        let source = en_identity (envelope env tc capsule_uri (np_source np))
        in map_option (\<lambda>(walked, st).
             case walked of
               Inl e \<Rightarrow> (Inl e, cache, st)
             | Inr deps \<Rightarrow>
                 let wanted = capsule_cache_identity sha source deps
                 in (case find (\<lambda>k. ck_cache k = wanted) (case cache of None \<Rightarrow> [] | Some k \<Rightarrow> [k]) of
                       Some k \<Rightarrow> (Inr (ck_kernel k), cache, st)
                     | None \<Rightarrow>
                         (case prepare_capsule_kernel env px tc np sha source st of
                            (Inl e, st) \<Rightarrow> (Inl e, cache, st)
                          | (Inr prepared, st) \<Rightarrow>
                              (case find (\<lambda>k. ck_cache k = ck_cache prepared) (case cache of None \<Rightarrow> [] | Some k \<Rightarrow> [k]) of
                                 Some k \<Rightarrow> (Inr (ck_kernel k), cache, st)
                               | None \<Rightarrow> (Inr (ck_kernel prepared), Some prepared, st)))))
             (dependency_walk env px tc [np_source np] bt_empty st))"

section \<open>Values\<close>

definition signed_argument :: "nat \<Rightarrow> exec_value" where
  "signed_argument n = EvInteger (int n) 64 True"

definition finding_argument :: "kernel \<Rightarrow> nat \<times> nat \<Rightarrow> native_error + exec_value" where
  "finding_argument k rank =
     (case find (\<lambda>r. rt_name r = ''CapsuleFinding'') (k_record_types k) of
        None \<Rightarrow> Inl UnknownRecord
      | Some r \<Rightarrow> Inr (EvRecord (rt_identity r) (rt_name r)
          [(''severity'', signed_argument (fst rank)), (''kind'', signed_argument (snd rank))]))"

definition finding_arguments :: "kernel \<Rightarrow> (nat \<times> nat) list \<Rightarrow> nat \<Rightarrow> native_error + exec_value list" where
  "finding_arguments k ranks width =
     bind_result (collect_results (finding_argument k) (ranks @ replicate (width - length ranks) (0, 0)))
       (\<lambda>vs. Inr [EvSequence vs, EvByte (int (length ranks))])"

definition signed_field :: "exec_value \<Rightarrow> string \<Rightarrow> native_error + nat" where
  "signed_field value name =
     (case value of
        EvInteger v bits sgd \<Rightarrow>
          if \<not> (bits = 64 \<and> sgd) \<or> v < 0 then Inl (WrongIntegerType name)
          else if v < 2 ^ 63 then Inr (nat v) else Inl (OutOfRange name)
      | _ \<Rightarrow> Inl (NotAnInteger name))"

definition signed_sequence_field :: "exec_value \<Rightarrow> string \<Rightarrow> nat \<Rightarrow> native_error + nat list" where
  "signed_sequence_field value name len =
     (case value of
        EvSequence values \<Rightarrow>
          if length values \<noteq> len then Inl (WrongLength name)
          else collect_results (\<lambda>v. signed_field v name) values
      | _ \<Rightarrow> Inl (NotASequence name))"

section \<open>Ordering a window\<close>

text \<open>The indices must be a permutation of the window.\<close>

fun accept_indices :: "nat \<Rightarrow> nat list \<Rightarrow> nat list \<Rightarrow> native_error + nat list" where
  "accept_indices count [] ordered = Inr ordered"
| "accept_indices count (i # is) ordered =
     (if i \<ge> count \<or> i \<in> set ordered then Inl InvalidResult else accept_indices count is (ordered @ [i]))"

definition decode_order :: "kernel \<Rightarrow> nat \<Rightarrow> exec_value \<Rightarrow> native_error + nat list" where
  "decode_order k count value =
     bind_result (record_fields k value ''CapsuleOrder'') (\<lambda>fds.
     bind_result (bind_result (record_field fds ''indices'')
       (\<lambda>v. signed_sequence_field v ''indices'' capsule_window)) (\<lambda>indices.
     bind_result (bind_result (record_field fds ''valid'') (\<lambda>v. boolean_field v ''valid'')) (\<lambda>valid.
       if \<not> valid then Inl KernelRejected
       else bind_result (accept_indices count (take count indices) []) (\<lambda>ordered.
         if length ordered \<noteq> count \<or> \<not> list_all (\<lambda>i. i \<in> set ordered) [0..<count] then Inl InvalidResult
         else Inr ordered))))"

definition execute_capsule_order ::
  "environment \<Rightarrow> process_env \<Rightarrow> toolchain \<Rightarrow> native_platform \<Rightarrow> (string \<Rightarrow> string) \<Rightarrow> (nat \<times> nat) list \<Rightarrow> capsule_state
     \<Rightarrow> ((native_error + nat list) \<times> capsule_state) option" where
  "execute_capsule_order env px tc np sha ranks s =
     (if length ranks > capsule_window then Some (Inl InputTooLarge, s)
      else map_option (\<lambda>(fetched, s).
             (bind_result fetched (\<lambda>k.
              bind_result (finding_arguments k ranks capsule_window) (\<lambda>arguments.
              bind_result (single_result (np_backend np k capsule_module capsule_order_function arguments capsule_step_budget))
                (decode_order k (length ranks)))), s))
             (fetch_capsule_kernel env px tc np sha s))"

section \<open>Selecting findings\<close>

record capsule_selection =
  cl_admitted :: "bool list"
  cl_relevance :: "nat list"
  cl_admitted_count :: nat
  cl_actionable_count :: nat
  cl_watch_count :: nat
  cl_dropped_count :: nat
  cl_complete :: bool
  cl_valid :: bool
  cl_source :: string
  cl_artifact :: string
  cl_backend :: string

definition decode_selection :: "kernel \<Rightarrow> exec_value \<Rightarrow> native_error + capsule_selection" where
  "decode_selection k value =
     bind_result (record_fields k value ''CapsuleSelection'') (\<lambda>fds.
     let field = record_field fds;
         count = (\<lambda>name. bind_result (field name) (\<lambda>v. signed_field v name));
         flag = (\<lambda>name. bind_result (field name) (\<lambda>v. boolean_field v name)) in
     bind_result (bind_result (field ''admitted'') (\<lambda>v. boolean_sequence_field v ''admitted'' capsule_capacity)) (\<lambda>admitted.
     bind_result (bind_result (field ''relevance'') (\<lambda>v. signed_sequence_field v ''relevance'' capsule_capacity)) (\<lambda>relevance.
     bind_result (count ''admitted_count'') (\<lambda>admitted_count.
     bind_result (count ''actionable_count'') (\<lambda>actionable_count.
     bind_result (count ''watch_count'') (\<lambda>watch_count.
     bind_result (count ''dropped_count'') (\<lambda>dropped_count.
     bind_result (flag ''complete'') (\<lambda>complete.
     bind_result (flag ''valid'') (\<lambda>valid.
       Inr \<lparr>cl_admitted = admitted, cl_relevance = relevance, cl_admitted_count = admitted_count,
         cl_actionable_count = actionable_count, cl_watch_count = watch_count, cl_dropped_count = dropped_count,
         cl_complete = complete, cl_valid = valid, cl_source = k_source_identity k,
         cl_artifact = k_artifact_identity k, cl_backend = k_backend_name k\<rparr>)))))))))"

definition execute_capsule_selection ::
  "environment \<Rightarrow> process_env \<Rightarrow> toolchain \<Rightarrow> native_platform \<Rightarrow> (string \<Rightarrow> string) \<Rightarrow> (nat \<times> nat) list \<Rightarrow> capsule_state
     \<Rightarrow> ((native_error + capsule_selection) \<times> capsule_state) option" where
  "execute_capsule_selection env px tc np sha ranks s =
     (if length ranks > capsule_capacity then Some (Inl InputTooLarge, s)
      else map_option (\<lambda>(fetched, s).
             (bind_result fetched (\<lambda>k.
              bind_result (finding_arguments k ranks capsule_capacity) (\<lambda>arguments.
              bind_result (single_result (np_backend np k capsule_module capsule_function arguments capsule_step_budget))
                (decode_selection k))), s))
             (fetch_capsule_kernel env px tc np sha s))"

end
