(* ===== verification/Capsule.thy ===== *)
theory Capsule
  imports Capsule_Kernel Document_Queries Json
begin

text \<open>
  The resident queries of \<open>ambient.rs\<close>: the status, the bounded semantic capsule and the semantic impact of
  one identity. A capsule measures findings from the analyses that are already current and from an event
  window, keeps the best of them in a fixed envelope by the kernel's order, and publishes those the
  kernel admits. A call has no value when the walk over the imports of the kernel does not end. What the
  process knows of itself (version, process id, executable) and the hash are arguments.
\<close>

section \<open>Ranks and labels\<close>

definition severity_rank :: "string \<Rightarrow> nat" where
  "severity_rank severity = (if severity = ''error'' then 2 else if severity = ''warning'' then 1 else 0)"

definition severity_label :: "nat \<Rightarrow> string" where
  "severity_label rank = (if rank = 2 then ''error'' else if rank = 1 then ''warning'' else ''info'')"

definition kind_rank_label :: "nat \<Rightarrow> string" where
  "kind_rank_label rank =
     (if rank = 0 then ''diagnostic'' else if rank = 1 then ''changed_subject''
      else if rank = 2 then ''obligation'' else ''affected_module'')"

definition relevance_label :: "nat \<Rightarrow> string" where
  "relevance_label rank = (if rank = 2 then ''actionable'' else if rank = 1 then ''watch'' else ''informational'')"

definition module_name_for_uri :: "string \<Rightarrow> string" where
  "module_name_for_uri uri = unwrap_or uri (strip_suffix (last (split_char (CHR ''/'') uri)) ''.mncs'')"

section \<open>The resident status\<close>

record service_identity =
  id_name :: string
  id_version :: string
  id_pid :: nat
  id_instance :: string
  id_executable :: "string option"
  id_build :: string

record toolchain_identity =
  ti_language_root :: "string option"
  ti_library_path :: "string option"
  ti_pinned :: "string option"

definition toolchain_digest :: "(string \<Rightarrow> string) \<Rightarrow> toolchain_identity \<Rightarrow> string" where
  "toolchain_digest sha t =
     ''sha256:'' @ sha (''mncs.language-service.toolchain/1'' @ newline @
       concat (map (\<lambda>f. unwrap_or [] f @ nul) [ti_language_root t, ti_library_path t, ti_pinned t]))"

record diagnostic_totals =
  dt_error :: nat
  dt_warning :: nat

record checkpoint_observation =
  ckp_stream :: string
  ckp_generation :: nat
  ckp_cursor :: nat
  ckp_matches :: bool

definition observe_checkpoint :: "platform \<Rightarrow> service \<Rightarrow> checkpoint_observation option" where
  "observe_checkpoint pf sv =
     map_option (\<lambda>c. \<lparr>ckp_stream = wc_stream c, ckp_generation = wc_generation c, ckp_cursor = wc_cursor c,
        ckp_matches = (case wc_toolchain c of None \<Rightarrow> True | Some bound \<Rightarrow> bound = pf_toolchain pf)\<rparr>)
       (sy_checkpoint sv)"

record service_status =
  sst_service :: service_identity
  sst_root :: "string option"
  sst_roots :: "string list"
  sst_toolchain :: toolchain_identity
  sst_digest :: string
  sst_generation :: nat
  sst_stream :: string
  sst_cursor :: nat
  sst_documents :: nat
  sst_pending :: nat
  sst_diagnostics :: diagnostic_totals
  sst_obligations :: status_counts
  sst_ready :: bool
  sst_reasons :: "string list"
  sst_features :: "string list"
  sst_checkpoint :: "checkpoint_observation option"

definition ambient_features :: "string list" where
  "ambient_features =
     [''event-stream/2'', ''semantic-capsule/1'', ''candidate-analysis'', ''debug-source-binding/1'',
      ''language-capabilities'', ''dependency-graph'']"

definition count_severity :: "nat \<Rightarrow> diagnostic_totals \<Rightarrow> diagnostic_totals" where
  "count_severity rank t =
     (if rank = 2 then t\<lparr>dt_error := dt_error t + 1\<rparr>
      else if rank = 1 then t\<lparr>dt_warning := dt_warning t + 1\<rparr> else t)"

definition resident_obligations :: "document_analysis \<Rightarrow> model_obligation list" where
  "resident_obligations a = (case fe_program (da_front_end a) of None \<Rightarrow> [] | Some p \<Rightarrow> pr_obligations p)"

text \<open>One document: its cached analysis is counted when it is current, nothing is compiled.\<close>

definition tally_document ::
  "platform \<Rightarrow> string \<Rightarrow> (nat \<times> diagnostic_totals \<times> status_counts) \<times> service
     \<Rightarrow> (nat \<times> diagnostic_totals \<times> status_counts) \<times> service" where
  "tally_document pf uri s =
     (case s of ((pending, diagnostics, obligations), sv) \<Rightarrow>
        case cached_snapshot_if_current pf uri sv of
          (None, sv) \<Rightarrow> ((pending + 1, diagnostics, obligations), sv)
        | (Some a, sv) \<Rightarrow>
            ((pending,
              fold (\<lambda>d. count_severity (severity_rank (tl_lowercase (pf_tools pf) (dg_severity d))))
                (fe_diagnostics (da_front_end a)) diagnostics,
              fold (\<lambda>ob. count_status (ob_status ob)) (resident_obligations a) obligations), sv))"

definition service_status ::
  "platform \<Rightarrow> (string \<Rightarrow> string) \<Rightarrow> service_identity \<Rightarrow> toolchain_identity \<Rightarrow> service \<Rightarrow> service_status \<times> service" where
  "service_status pf sha who tools sv =
     (let root = ds_root (sy_store sv); uris = document_uris (sy_store sv)
      in case fold (tally_document pf) uris ((0, \<lparr>dt_error = 0, dt_warning = 0\<rparr>, no_counts), sv) of
           ((pending, diagnostics, obligations), sv) \<Rightarrow>
             (\<lparr>sst_service = who, sst_root = root, sst_roots = discovery_roots (sy_store sv),
               sst_toolchain = tools, sst_digest = toolchain_digest sha tools,
               sst_generation = ds_generation (sy_store sv), sst_stream = hub_stream (sy_hub sv),
               sst_cursor = hub_next (sy_hub sv), sst_documents = length uris, sst_pending = pending,
               sst_diagnostics = diagnostics, sst_obligations = obligations,
               sst_ready = (root \<noteq> None),
               sst_reasons = (if root = None then [''workspace root is not configured''] else []),
               sst_features = ambient_features, sst_checkpoint = observe_checkpoint pf sv\<rparr>, sv))"

section \<open>Measuring\<close>

record measured_finding =
  mz_severity :: nat
  mz_kind :: nat
  mz_key :: string
  mz_summary :: string
  mz_uri :: "string option"
  mz_identity :: "string option"
  mz_code :: "string option"

definition diagnostic_row :: "string \<Rightarrow> diagnostic_item \<Rightarrow> measured_finding" where
  "diagnostic_row uri item =
     \<lparr>mz_severity = severity_rank (di_severity item), mz_kind = 0,
      mz_key = di_code item @ ''|'' @ uri @ ''|'' @ di_message item,
      mz_summary = di_severity item @ '' '' @ di_code item @ '': '' @ di_message item,
      mz_uri = Some uri, mz_identity = None, mz_code = Some (di_code item)\<rparr>"

text \<open>All diagnostics of the current analyses, and how many documents have none.\<close>

fun measure_diagnostics ::
  "platform \<Rightarrow> string list \<Rightarrow> service \<Rightarrow> (nat \<times> measured_finding list) \<times> service" where
  "measure_diagnostics pf [] sv = ((0, []), sv)"
| "measure_diagnostics pf (uri # uris) sv =
     (case cached_snapshot_if_current pf uri sv of
        (None, sv) \<Rightarrow>
          (case measure_diagnostics pf uris sv of ((pending, rows), sv) \<Rightarrow> ((pending + 1, rows), sv))
      | (Some a, sv) \<Rightarrow>
          (case on_store (render_diagnostics pf a (fe_diagnostics (da_front_end a))) sv of
             (items, sv) \<Rightarrow>
               (case measure_diagnostics pf uris sv of
                  ((pending, rows), sv) \<Rightarrow> ((pending, map (diagnostic_row uri) items @ rows), sv))))"

text \<open>A row already there keeps its first text and takes the larger severity.\<close>

definition raise_row :: "measured_finding \<Rightarrow> (string, measured_finding) btree \<Rightarrow> (string, measured_finding) btree" where
  "raise_row row rows =
     (case bt_lookup rows (mz_key row) of
        Some existing \<Rightarrow>
          bt_insert (mz_key row) (existing\<lparr>mz_severity := max (mz_severity existing) (mz_severity row)\<rparr>) rows
      | None \<Rightarrow> bt_insert (mz_key row) row rows)"

definition subject_row :: "change_event \<Rightarrow> subject_change \<Rightarrow> measured_finding" where
  "subject_row e s =
     \<lparr>mz_severity = (if sc_change s = ''removed'' then 2 else if sc_change s = ''changed'' then 1 else 0),
      mz_kind = 1, mz_key = sc_identity s,
      mz_summary = ''subject '' @ sc_identity s @ '' '' @ sc_change s,
      mz_uri = Some (sid_uri (ev_current e)), mz_identity = Some (sc_identity s), mz_code = None\<rparr>"

definition module_row :: "change_event \<Rightarrow> source_identity \<Rightarrow> measured_finding" where
  "module_row e d =
     \<lparr>mz_severity = (if dd_added (ev_diagnostics e) = [] then 0 else 1), mz_kind = 3, mz_key = sid_uri d,
      mz_summary = ''module '' @ module_name_for_uri (sid_uri d) @ '' affected by generation '' @
        show_nat (ev_current_generation e),
      mz_uri = Some (sid_uri d), mz_identity = Some (sid_identity d), mz_code = None\<rparr>"

definition subject_rows :: "change_event list \<Rightarrow> (string, measured_finding) btree" where
  "subject_rows events = fold raise_row (concat (map (\<lambda>e. map (subject_row e) (ev_subjects e)) events)) bt_empty"

definition module_rows :: "change_event list \<Rightarrow> (string, measured_finding) btree" where
  "module_rows events = fold raise_row (concat (map (\<lambda>e. map (module_row e) (ev_affected e)) events)) bt_empty"

definition obligation_row :: "string \<Rightarrow> model_obligation \<Rightarrow> measured_finding option" where
  "obligation_row uri ob =
     map_option (\<lambda>rank. \<lparr>mz_severity = rank, mz_kind = 2, mz_key = ob_identity ob,
         mz_summary = ''obligation '' @ ob_identity ob @ '' is '' @ status_label (ob_status ob),
         mz_uri = Some uri, mz_identity = Some (ob_identity ob), mz_code = None\<rparr>)
       (case ob_status ob of ObFail \<Rightarrow> Some 2 | ObUnknown \<Rightarrow> Some 1 | ObPass \<Rightarrow> None)"

fun measure_obligations :: "platform \<Rightarrow> string list \<Rightarrow> service \<Rightarrow> measured_finding list \<times> service" where
  "measure_obligations pf [] sv = ([], sv)"
| "measure_obligations pf (uri # uris) sv =
     (case cached_snapshot_if_current pf uri sv of
        (None, sv) \<Rightarrow> measure_obligations pf uris sv
      | (Some a, sv) \<Rightarrow>
          (case measure_obligations pf uris sv of
             (rows, sv) \<Rightarrow> (List.map_filter (obligation_row uri) (resident_obligations a) @ rows, sv)))"

section \<open>The envelope\<close>

text \<open>\<open>chunks\<close> of a slice, for a positive width.\<close>

function chunks :: "nat \<Rightarrow> 'a list \<Rightarrow> 'a list list" where
  "chunks n xs = (if xs = [] \<or> n = 0 then [] else take n xs # chunks n (drop n xs))"
  by pat_completeness auto
termination by (relation "measure (\<lambda>(n, xs). length xs)") auto

declare chunks.simps [simp del]

type_synonym capsule_service = "capsule_kernel option \<times> service"

definition on_capsule ::
  "(capsule_state \<Rightarrow> ('a \<times> capsule_state) option) \<Rightarrow> capsule_service \<Rightarrow> ('a \<times> capsule_service) option" where
  "on_capsule f s =
     map_option (\<lambda>(r, cache, st). (r, cache, (snd s)\<lparr>sy_store := st\<rparr>)) (f (fst s, sy_store (snd s)))"

definition finding_ranks :: "measured_finding list \<Rightarrow> (nat \<times> nat) list" where
  "finding_ranks fs = map (\<lambda>f. (mz_severity f, mz_kind f)) fs"

text \<open>The retained envelope and one batch: identity order, then the kernel's order, then the cut.\<close>

definition merge_batch ::
  "platform \<Rightarrow> native_platform \<Rightarrow> (string \<Rightarrow> string) \<Rightarrow> measured_finding list \<Rightarrow> measured_finding list
     \<Rightarrow> capsule_service \<Rightarrow> ((native_error + measured_finding list) \<times> capsule_service) option" where
  "merge_batch pf np sha incoming retained s =
     (let envelope = sort_key mz_key (retained @ incoming)
      in map_option (\<lambda>(ordering, s).
             (bind_result ordering (\<lambda>indices. Inr (map ((!) envelope) (take capsule_capacity indices))), s))
           (on_capsule (execute_capsule_order (pf_env pf) (pf_process pf) (pf_tools pf) np sha
             (finding_ranks envelope)) s))"

fun fill_envelope ::
  "platform \<Rightarrow> native_platform \<Rightarrow> (string \<Rightarrow> string) \<Rightarrow> measured_finding list list \<Rightarrow> measured_finding list
     \<Rightarrow> capsule_service \<Rightarrow> ((native_error + measured_finding list) \<times> capsule_service) option" where
  "fill_envelope pf np sha [] retained s = Some (Inr retained, s)"
| "fill_envelope pf np sha (incoming # batches) retained s =
     Option.bind (merge_batch pf np sha incoming retained s) (\<lambda>(merged, s).
       case merged of
         Inl e \<Rightarrow> Some (Inl e, s)
       | Inr retained \<Rightarrow> fill_envelope pf np sha batches retained s)"

section \<open>The capsule\<close>

record capsule_totals =
  ct_diagnostics :: nat
  ct_subjects :: nat
  ct_obligations :: nat
  ct_modules :: nat
  ct_pending :: nat
  ct_truncated :: nat

record capsule_finding =
  cfi_kind :: string
  cfi_relevance :: string
  cfi_severity :: string
  cfi_summary :: string
  cfi_uri :: "string option"
  cfi_identity :: "string option"
  cfi_code :: "string option"
  cfi_method :: string
  cfi_params :: json

text \<open>Why a capsule was withheld; an error of the kernel is kept as such.\<close>

datatype capsule_issue = IncompleteSemantics | PolicyUnavailable native_error | IncompleteVerdict

record capsule_response =
  cap_status :: response_status
  cap_root :: "string option"
  cap_generation :: nat
  cap_stream :: string
  cap_after :: nat
  cap_current :: nat
  cap_matched :: bool
  cap_measured :: capsule_totals
  cap_policy :: "capsule_selection option"
  cap_findings :: "capsule_finding list"
  cap_unresolved :: "capsule_issue list"
  cap_limitations :: "string list"

definition json_option :: "string option \<Rightarrow> json" where
  "json_option v = (case v of None \<Rightarrow> JNull | Some s \<Rightarrow> JString s)"

definition expansion_handle :: "measured_finding \<Rightarrow> string \<times> json" where
  "expansion_handle f =
     (if mz_kind f = 1 then
        (''describe_identity'', JObject [(''identity'', json_option (mz_identity f)), (''uri'', json_option (mz_uri f))])
      else if mz_kind f = 2 then
        (''obligations'', JObject [(''subject_identity'', json_option (mz_identity f)), (''uri'', json_option (mz_uri f))])
      else (''document_diagnostics'', JObject [(''uri'', json_option (mz_uri f))]))"

definition publish_finding :: "nat \<Rightarrow> measured_finding \<Rightarrow> capsule_finding" where
  "publish_finding relevance f =
     \<lparr>cfi_kind = kind_rank_label (mz_kind f), cfi_relevance = relevance_label relevance,
      cfi_severity = severity_label (mz_severity f), cfi_summary = mz_summary f, cfi_uri = mz_uri f,
      cfi_identity = mz_identity f, cfi_code = mz_code f,
      cfi_method = fst (expansion_handle f), cfi_params = snd (expansion_handle f)\<rparr>"

definition admitted_findings :: "capsule_selection \<Rightarrow> measured_finding list \<Rightarrow> capsule_finding list" where
  "admitted_findings selection kept =
     List.map_filter (\<lambda>(i, f).
         if unwrap_or False (nth_opt (cl_admitted selection) i)
         then Some (publish_finding (unwrap_or 0 (nth_opt (cl_relevance selection) i)) f) else None)
       (enumerate 0 kept)"

text \<open>Everything after the measuring: the envelope, the selection, the verdict.\<close>

definition capsule_verdict ::
  "platform \<Rightarrow> native_platform \<Rightarrow> (string \<Rightarrow> string) \<Rightarrow> capsule_response \<Rightarrow> measured_finding list
     \<Rightarrow> capsule_service \<Rightarrow> (capsule_response \<times> capsule_service) option" where
  "capsule_verdict pf np sha blank candidates s =
     Option.bind (fill_envelope pf np sha (chunks capsule_capacity candidates) [] s) (\<lambda>(filled, s).
       case filled of
         Inl e \<Rightarrow> Some (blank\<lparr>cap_status := StUnsupported ''capsule ordering unavailable'',
                         cap_unresolved := [PolicyUnavailable e]\<rparr>, s)
       | Inr retained \<Rightarrow>
           let truncated = length candidates - capsule_capacity;
               envelope = (if truncated > 0 then take capsule_capacity retained else retained);
               blank = (if truncated > 0
                        then blank\<lparr>cap_measured := (cap_measured blank)\<lparr>ct_truncated := truncated\<rparr>,
                               cap_limitations := cap_limitations blank @
                                 [show_nat truncated @
                                  '' measured findings exceed the fixed policy envelope and are counted, not admitted'']\<rparr>
                        else blank)
           in map_option (\<lambda>(selected, s).
                (case selected of
                   Inl e \<Rightarrow> blank\<lparr>cap_status := StUnsupported ''capsule admission policy unavailable'',
                              cap_unresolved := [PolicyUnavailable e]\<rparr>
                 | Inr selection \<Rightarrow>
                     if \<not> cl_valid selection \<or> \<not> cl_complete selection
                     then blank\<lparr>cap_status := StUnsupported ''capsule admission policy rejected its envelope'',
                            cap_policy := Some selection, cap_unresolved := [IncompleteVerdict]\<rparr>
                     else blank\<lparr>cap_status := Answered, cap_policy := Some selection,
                            cap_findings := admitted_findings selection envelope\<rparr>, s))
              (on_capsule (execute_capsule_selection (pf_env pf) (pf_process pf) (pf_tools pf) np sha
                (finding_ranks envelope)) s))"

text \<open>Subjects and modules of the events the window returned, when it resumed the caller's stream.\<close>

definition window_events :: "event_cursor \<Rightarrow> string \<Rightarrow> string option \<Rightarrow> change_event list" where
  "window_events w live known =
     (if \<not> ec_reset_required w \<and> ec_stream w = live \<and> known = Some live then ec_events w else [])"

record capsule_measurement =
  ms_pending :: nat
  ms_diagnostics :: "measured_finding list"
  ms_subjects :: "measured_finding list"
  ms_obligations :: "measured_finding list"
  ms_modules :: "measured_finding list"

definition measure_capsule :: "platform \<Rightarrow> event_cursor \<Rightarrow> string option \<Rightarrow> service \<Rightarrow> capsule_measurement \<times> service" where
  "measure_capsule pf window known sv =
     (let events = window_events window (hub_stream (sy_hub sv)) known
      in case measure_diagnostics pf (document_uris (sy_store sv)) sv of
           ((pending, diagnostics), sv) \<Rightarrow>
             (case measure_obligations pf (document_uris (sy_store sv)) sv of
                (obligations, sv) \<Rightarrow>
                  (\<lparr>ms_pending = pending, ms_diagnostics = diagnostics,
                    ms_subjects = map snd (bt_entries (subject_rows events)), ms_obligations = obligations,
                    ms_modules = map snd (bt_entries (module_rows events))\<rparr>, sv)))"

definition capsule_candidates :: "capsule_measurement \<Rightarrow> measured_finding list" where
  "capsule_candidates m = ms_diagnostics m @ ms_subjects m @ ms_obligations m @ ms_modules m"

text \<open>The answer before the verdict.\<close>

definition blank_capsule :: "event_cursor \<Rightarrow> string option \<Rightarrow> nat \<Rightarrow> capsule_measurement \<Rightarrow> service \<Rightarrow> capsule_response" where
  "blank_capsule window known after m sv =
     \<lparr>cap_status = Answered, cap_root = ds_root (sy_store sv), cap_generation = ds_generation (sy_store sv),
      cap_stream = hub_stream (sy_hub sv), cap_after = after, cap_current = hub_next (sy_hub sv),
      cap_matched = (\<not> ec_reset_required window \<and> ec_stream window = hub_stream (sy_hub sv) \<and>
        known = Some (hub_stream (sy_hub sv))),
      cap_measured = \<lparr>ct_diagnostics = length (ms_diagnostics m), ct_subjects = length (ms_subjects m),
        ct_obligations = length (ms_obligations m), ct_modules = length (ms_modules m), ct_pending = ms_pending m,
        ct_truncated = 0\<rparr>,
      cap_policy = None, cap_findings = [], cap_unresolved = [],
      cap_limitations = (if ec_reset_required window
        then [''event window did not resume from the supplied cursor; capsule measures current state''] else [])\<rparr>"

definition semantic_capsule ::
  "platform \<Rightarrow> native_platform \<Rightarrow> (string \<Rightarrow> string) \<Rightarrow> string option \<Rightarrow> nat \<Rightarrow> capsule_service
     \<Rightarrow> (capsule_response \<times> capsule_service) option" where
  "semantic_capsule pf np sha known after s =
     (let window = poll_for known after 64 (sy_hub (snd s))
      in case measure_capsule pf window known (snd s) of
           (m, sv) \<Rightarrow>
             if ms_pending m > 0
             then Some ((blank_capsule window known after m sv)\<lparr>
                      cap_status := StUnsupported (''semantic capsule is incomplete: '' @ show_nat (ms_pending m) @
                        '' resident documents lack current cached analysis''),
                      cap_unresolved := [IncompleteSemantics]\<rparr>, fst s, sv)
             else capsule_verdict pf np sha (blank_capsule window known after m sv) (capsule_candidates m) (fst s, sv))"

section \<open>The impact of one identity\<close>

text \<open>
  \<open>semantic_graph\<close> and \<open>impact_neighborhood\<close> of \<open>mncs_model\<close>, which the queries call with depth 2 and 256
  nodes, are the argument \<open>neighborhood\<close>: the nodes, the edges and whether it is complete.
\<close>

record impact_view =
  iv_nodes :: "string list"
  iv_edges :: "(string \<times> string) list"
  iv_complete :: bool

record impact_response =
  ir_snapshot :: snapshot_info
  ir_subject :: string
  ir_dependencies :: graph_response
  ir_dependents :: graph_response
  ir_impact :: "impact_view option"
  ir_impact_complete :: bool
  ir_obligations :: "obligation_info list"
  ir_limitations :: "string list"

definition affected_identities :: "string \<Rightarrow> impact_view option \<Rightarrow> string list" where
  "affected_identities identity projected =
     identity # (case projected of
                   None \<Rightarrow> []
                 | Some v \<Rightarrow> iv_nodes v @ concat (map (\<lambda>(first, second). [first, second]) (iv_edges v)))"

definition affected_obligations :: "string list \<Rightarrow> obligation_info list \<Rightarrow> obligation_info list" where
  "affected_obligations affected obs =
     sort_key oi_identity (filter (\<lambda>ob. oi_subject ob \<in> set affected \<or> oi_identity ob \<in> set affected) obs)"

definition semantic_impact ::
  "platform \<Rightarrow> native_platform \<Rightarrow> (program \<Rightarrow> string list \<Rightarrow> nat \<Rightarrow> nat \<Rightarrow> impact_view option)
     \<Rightarrow> string \<Rightarrow> string \<Rightarrow> query_state \<Rightarrow> (query_error + impact_response) \<times> query_state" where
  "semantic_impact pf np neighborhood uri identity q =
     (case on_service (snapshot pf uri) q of
        (Inl e, q) \<Rightarrow> (Inl (StoreError e), q)
      | (Inr a, q) \<Rightarrow>
     (case graph_query pf np uri identity True q of
        (Inl e, q) \<Rightarrow> (Inl e, q)
      | (Inr outgoing, q) \<Rightarrow>
     (case graph_query pf np uri identity False q of
        (Inl e, q) \<Rightarrow> (Inl e, q)
      | (Inr incoming, q) \<Rightarrow>
          let (projected, limitations) =
                (case fe_program (da_front_end a) of
                   None \<Rightarrow> (None, [''impact neighborhood requires a valid elaborated program''])
                 | Some p \<Rightarrow>
                     (case neighborhood p [identity] 2 256 of
                        None \<Rightarrow> (None, [''the current program could not produce a semantic graph''])
                      | Some v \<Rightarrow> (Some v, [])))
          in (case on_service (obligations_response pf uri None) q of
                (answer, q) \<Rightarrow>
                  (Inr \<lparr>ir_snapshot = make_snapshot_info uri a, ir_subject = identity,
                     ir_dependencies = outgoing, ir_dependents = incoming, ir_impact = projected,
                     ir_impact_complete = (case projected of None \<Rightarrow> False | Some v \<Rightarrow> iv_complete v),
                     ir_obligations =
                       (case answer of Inl _ \<Rightarrow> []
                        | Inr r \<Rightarrow> affected_obligations (affected_identities identity projected) (ox_items (rs_payload r))),
                     ir_limitations = limitations @
                       (case answer of Inl _ \<Rightarrow> [''obligations unavailable for this snapshot''] | Inr _ \<Rightarrow> [])\<rparr>, q)))))"

end
