(* ===== verification/Capsule_Policy.thy ===== *)
theory Capsule_Policy
  imports Prelude "HOL-Library.Multiset" "HOL-Library.Product_Lexorder"
begin

text \<open>
  The capsule kernel itself, \<open>semantic_capsule.mncs\<close>: the order of a window of findings and the admission
  policy. A finding is a pair of severity and kind. \<open>sort_up\<close> of the standard library is an argument that
  sorts a prefix (\<open>sort_law\<close>). All codes stay far below the width of a \<open>u64\<close>.
\<close>

type_synonym finding_rank = "nat \<times> nat"

section \<open>The order of a window\<close>

definition severity_band :: "nat \<Rightarrow> nat" where
  "severity_band severity =
     (if severity = 2 then 0 else if severity = 1 then 1 else if severity = 0 then 2 else 3)"

definition kind_band :: "nat \<Rightarrow> nat" where
  "kind_band kind =
     (if kind = 0 then 0 else if kind = 1 then 1 else if kind = 2 then 2 else if kind = 3 then 3 else 4)"

definition window_code :: "finding_rank list \<Rightarrow> nat \<Rightarrow> nat" where
  "window_code findings i =
     (severity_band (fst (findings ! i)) * 4 + kind_band (snd (findings ! i))) * 64 + i"

text \<open>One output of the merge of the two sorted halves.\<close>

definition merge_output ::
  "nat \<Rightarrow> nat list \<Rightarrow> nat \<Rightarrow> nat list \<Rightarrow> nat \<Rightarrow> nat \<Rightarrow> nat list \<times> nat \<times> nat \<Rightarrow> nat list \<times> nat \<times> nat" where
  "merge_output amount left_order left_count right_order right_count output s =
     (case s of (indices, left, right) \<Rightarrow>
        let active = output < amount;
            left_active = left < left_count;
            right_active = right < right_count;
            left_code = left_order ! (if left_active then left else 0);
            right_code = right_order ! (if right_active then right else 0);
            take_left = left_active \<and> (\<not> right_active \<or> left_code \<le> right_code);
            source = (if take_left then left_code else right_code) mod 64
        in (indices[output := if active then source else 0],
            left + (if take_left then 1 else 0),
            right + (if active \<and> \<not> take_left then 1 else 0)))"

definition rank_valid :: "finding_rank \<Rightarrow> bool" where
  "rank_valid r \<longleftrightarrow> fst r \<le> 2 \<and> snd r \<le> 3"

definition order_capsule_window ::
  "(nat list \<Rightarrow> nat \<Rightarrow> nat list) \<Rightarrow> finding_rank list \<Rightarrow> nat \<Rightarrow> nat list \<times> bool" where
  "order_capsule_window sort_up findings amount =
     (let left_count = (if amount < 32 then amount else 32);
          right_count = (if amount > 32 then amount - 32 else 0);
          left_order = sort_up (map (window_code findings) [0 ..< 32]) left_count;
          right_order = sort_up (map (window_code findings) [32 ..< 64]) right_count
      in (fst (fold (merge_output amount left_order left_count right_order right_count) [0 ..< 64] (replicate 64 0, 0, 0)),
          list_all (\<lambda>i. \<not> i < amount \<or> rank_valid (findings ! i)) [0 ..< 64]))"

section \<open>Admission\<close>

definition classify :: "nat \<Rightarrow> nat \<Rightarrow> nat" where
  "classify severity kind =
     (if kind = 0 then (if severity = 2 then 2 else if severity = 1 then 2 else 0)
      else if kind = 1 then (if severity = 2 then 2 else 1)
      else if kind = 2 then (if severity = 2 then 2 else if severity = 1 then 1 else 0)
      else if severity = 2 then 1 else if severity = 1 then 1 else 0)"

definition max_actionable :: nat where "max_actionable = 16"
definition max_watch :: nat where "max_watch = 8"
definition max_total :: nat where "max_total = 20"

record capsule_scan =
  sn_admitted_flags :: "bool list"
  sn_relevance :: "nat list"
  sn_actionable :: nat
  sn_watch :: nat
  sn_total :: nat
  sn_dropped :: nat

definition scan_start :: capsule_scan where
  "scan_start = \<lparr>sn_admitted_flags = replicate 32 False, sn_relevance = replicate 32 0, sn_actionable = 0,
     sn_watch = 0, sn_total = 0, sn_dropped = 0\<rparr>"

definition scan_finding :: "finding_rank list \<Rightarrow> nat \<Rightarrow> nat \<Rightarrow> capsule_scan \<Rightarrow> capsule_scan" where
  "scan_finding findings used i scan =
     (let active = i < used;
          relevance = (if active then classify (fst (findings ! i)) (snd (findings ! i)) else 0);
          actionable_open = (relevance = 2 \<and> sn_actionable scan < max_actionable \<and> sn_total scan < max_total);
          watch_open = (relevance = 1 \<and> sn_watch scan < max_watch \<and> sn_total scan < max_total);
          admit = (active \<and> (actionable_open \<or> watch_open))
      in \<lparr>sn_admitted_flags = (sn_admitted_flags scan)[i := admit],
          sn_relevance = (sn_relevance scan)[i := if active then relevance else 0],
          sn_actionable = sn_actionable scan + (if admit \<and> relevance = 2 then 1 else 0),
          sn_watch = sn_watch scan + (if admit \<and> relevance = 1 then 1 else 0),
          sn_total = sn_total scan + (if admit then 1 else 0),
          sn_dropped = sn_dropped scan + (if active \<and> \<not> admit then 1 else 0)\<rparr>)"

definition select_scan :: "finding_rank list \<Rightarrow> nat \<Rightarrow> capsule_scan" where
  "select_scan findings used = fold (scan_finding findings used) [0 ..< 32] scan_start"

text \<open>The verdict the kernel returns with the scan.\<close>

definition select_complete :: "finding_rank list \<Rightarrow> nat \<Rightarrow> bool" where
  "select_complete findings used \<longleftrightarrow>
     sn_total (select_scan findings used) + sn_dropped (select_scan findings used) = used"

section \<open>The order is the stable sort by severity and kind\<close>

definition sort_law :: "(nat list \<Rightarrow> nat \<Rightarrow> nat list) \<Rightarrow> bool" where
  "sort_law sort_up \<longleftrightarrow>
     (\<forall>xs n. n \<le> length xs \<longrightarrow> length (sort_up xs n) = length xs \<and> take n (sort_up xs n) = sort (take n xs))"

definition prefix_sort :: "nat list \<Rightarrow> nat \<Rightarrow> nat list" where
  "prefix_sort xs n = sort (take n xs) @ drop n xs"

lemma prefix_sort_law: "sort_law prefix_sort"
  by (simp add: sort_law_def prefix_sort_def)

fun merge_lists :: "nat list \<Rightarrow> nat list \<Rightarrow> nat list" where
  "merge_lists [] ys = ys"
| "merge_lists xs [] = xs"
| "merge_lists (x # xs) (y # ys) = (if x \<le> y then x # merge_lists xs (y # ys) else y # merge_lists (x # xs) ys)"

lemma mset_merge_lists [simp]: "mset (merge_lists xs ys) = mset xs + mset ys"
  by (induction xs ys rule: merge_lists.induct) auto

lemma length_merge_lists [simp]: "length (merge_lists xs ys) = length xs + length ys"
  by (metis mset_merge_lists size_mset size_union)

lemma set_merge_lists [simp]: "set (merge_lists xs ys) = set xs \<union> set ys"
  by (metis mset_merge_lists set_mset_mset set_mset_union)

lemma sorted_merge_lists: "sorted xs \<Longrightarrow> sorted ys \<Longrightarrow> sorted (merge_lists xs ys)"
  by (induction xs ys rule: merge_lists.induct) auto

lemma merge_lists_sort: "merge_lists (sort xs) (sort ys) = sort (xs @ ys)"
  by (rule properties_for_sort [symmetric]) (simp_all add: sorted_merge_lists)

lemma merge_lists_empty [simp]: "merge_lists xs [] = xs"
  by (cases xs) auto

text \<open>The state of the loop after some outputs: what is left of both halves merges to the rest.\<close>

definition merging :: "nat list \<Rightarrow> nat list \<Rightarrow> nat \<Rightarrow> nat list \<times> nat \<times> nat \<Rightarrow> bool" where
  "merging xs ys k s \<longleftrightarrow>
     (case s of (indices, left, right) \<Rightarrow>
        length indices = 64 \<and> left \<le> length xs \<and> right \<le> length ys \<and>
        (let done = min k (length xs + length ys)
         in left + right = done \<and>
            merge_lists (drop left xs) (drop right ys) = drop done (merge_lists xs ys) \<and>
            take done indices = map (\<lambda>c. c mod 64) (take done (merge_lists xs ys))))"

lemma take_list_update_Suc: "k < length xs \<Longrightarrow> take (Suc k) (xs[k := v]) = take k xs @ [v]"
  by (simp add: take_Suc_conv_app_nth)

lemma merging_step:
  assumes "merging (take lc lo) (take rc ro) k s" "k < 64" "lc \<le> length lo" "rc \<le> length ro" "lc + rc \<le> 64"
  shows "merging (take lc lo) (take rc ro) (Suc k) (merge_output (lc + rc) lo lc ro rc k s)"
proof -
  obtain indices left right where s: "s = (indices, left, right)" by (cases s)
  let ?xs = "take lc lo" and ?ys = "take rc ro"
  have lens: "length ?xs = lc" "length ?ys = rc" "min (length lo) lc = lc" "min (length ro) rc = rc"
    using assms by auto
  note inv = assms(1) [unfolded merging_def s lens, simplified Let_def]
  show ?thesis
  proof (cases "k < lc + rc")
    case False
    then have "min k (lc + rc) = lc + rc" "min (Suc k) (lc + rc) = lc + rc" by auto
    moreover have "left = lc" "right = rc" using inv False by auto
    moreover have "take (lc + rc) (indices[k := v]) = take (lc + rc) indices" for v using False by simp
    ultimately show ?thesis using inv False
      by (simp add: merging_def merge_output_def s Let_def lens)
  next
    case True
    have d: "left + right = k" and rest: "merge_lists (drop left ?xs) (drop right ?ys) = drop k (merge_lists ?xs ?ys)"
      and tk: "take k indices = map (\<lambda>c. c mod 64) (take k (merge_lists ?xs ?ys))" and li: "length indices = 64"
      and le: "left \<le> lc" "right \<le> rc"
      using inv True by auto
    have mk: "min (Suc k) (lc + rc) = Suc k" using True by simp
    let ?m = "merge_lists ?xs ?ys"
    have km: "k < length ?m" using True lens by simp
    have split: "drop k ?m = ?m ! k # drop (Suc k) ?m" by (rule Cons_nth_drop_Suc [OF km, symmetric])
    have take_m: "take (Suc k) ?m = take k ?m @ [?m ! k]" by (rule take_Suc_conv_app_nth [OF km])
    have dl: "left < lc \<Longrightarrow> drop left ?xs = lo ! left # drop (Suc left) ?xs"
      using Cons_nth_drop_Suc [of left ?xs] lens by simp
    have dr: "right < rc \<Longrightarrow> drop right ?ys = ro ! right # drop (Suc right) ?ys"
      using Cons_nth_drop_Suc [of right ?ys] lens by simp
    let ?tl = "left < lc \<and> (\<not> right < rc \<or> lo ! left \<le> ro ! right)"
    have some: "left < lc \<or> right < rc" using d True le by linarith
    have key: "(if ?tl then lo ! left else ro ! right) = ?m ! k \<and>
      merge_lists (drop (if ?tl then Suc left else left) ?xs) (drop (if ?tl then right else Suc right) ?ys) = drop (Suc k) ?m"
      using rest some le unfolding split
      by (cases "left < lc"; cases "right < rc") (auto simp: dl dr lens split: if_splits)
    show ?thesis using key li le d True some
      by (auto simp: merging_def merge_output_def s Let_def lens mk take_list_update_Suc tk take_m assms(2) li)
  qed
qed

lemma merging_fold:
  assumes "lc \<le> length lo" "rc \<le> length ro" "lc + rc \<le> 64" "n \<le> 64"
  shows "merging (take lc lo) (take rc ro) n
    (fold (merge_output (lc + rc) lo lc ro rc) [0 ..< n] (replicate 64 0, 0, 0))"
  using assms(4)
proof (induction n)
  case 0
  then show ?case by (simp add: merging_def)
next
  case (Suc n)
  then show ?case using merging_step [of lc lo rc ro n] assms by simp
qed

lemma window_code_mod: "i < 64 \<Longrightarrow> window_code findings i mod 64 = i"
  by (simp only: window_code_def mod_mult_self3) simp

text \<open>The priority of a finding of the window: severity first, then kind.\<close>

definition window_priority :: "finding_rank list \<Rightarrow> nat \<Rightarrow> nat \<times> nat" where
  "window_priority findings i = (severity_band (fst (findings ! i)), kind_band (snd (findings ! i)))"

definition priority_order :: "finding_rank list \<Rightarrow> nat list" where
  "priority_order findings = sort_key (window_priority findings) [0 ..< length findings]"

lemma sorted_lexicographic:
  fixes f :: "'a \<Rightarrow> 'b::linorder" and g :: "'a \<Rightarrow> 'c::linorder"
  assumes "sorted (map f xs)" "\<And>r. sorted (map g (filter (\<lambda>x. f x = r) xs))"
  shows "sorted (map (\<lambda>x. (f x, g x)) xs)"
  using assms
proof (induction xs)
  case (Cons x xs)
  have "sorted (map g (filter (\<lambda>x. f x = r) xs))" for r
    using Cons.prems(2) [of r] by (auto split: if_splits)
  then have "sorted (map (\<lambda>x. (f x, g x)) xs)" using Cons by simp
  moreover have "(f x, g x) \<le> (f y, g y)" if "y \<in> set xs" for y
    using Cons.prems(1) Cons.prems(2) [of "f x"] that by (cases "f x = f y") (auto simp: less_le)
  ultimately show ?case by auto
qed simp

lemma sort_key_stable_pair:
  fixes f :: "'a \<Rightarrow> 'b::linorder" and g :: "'a \<Rightarrow> 'c::linorder"
  shows "map (\<lambda>x. (f x, g x)) (sort_key f (sort_key g xs)) = sort (map (\<lambda>x. (f x, g x)) xs)"
proof -
  have "sorted (map g (filter (\<lambda>x. f x = r) (sort_key f (sort_key g xs))))" for r
    by (simp add: sort_key_stable sorted_filter)
  then have "sorted (map (\<lambda>x. (f x, g x)) (sort_key f (sort_key g xs)))"
    by (intro sorted_lexicographic) auto
  then show ?thesis by (intro properties_for_sort [symmetric]) simp_all
qed

lemma priority_order_codes:
  assumes "length findings \<le> n" "n \<le> 64" "list_all rank_valid findings"
  shows "map (window_code findings) (priority_order findings) = sort (map (window_code findings) [0 ..< length findings])"
proof -
  let ?p = "window_priority findings" and ?n = "length findings"
  have "sort_key (\<lambda>i. i) [0 ..< ?n] = [0 ..< ?n]" by (simp add: sort_key_id_if_sorted)
  then have "map (\<lambda>i. (?p i, i)) (priority_order findings) = sort (map (\<lambda>i. (?p i, i)) [0 ..< ?n])"
    using sort_key_stable_pair [of ?p "\<lambda>i. i" "[0 ..< ?n]"] by (simp add: priority_order_def)
  then have "sorted (map (\<lambda>i. (?p i, i)) (priority_order findings))" by (simp only: sorted_sort)
  then have lex: "sorted_wrt (\<lambda>i j. (?p i, i) \<le> (?p j, j)) (priority_order findings)"
    by (simp only: sorted_map)
  have code_le: "window_code findings i \<le> window_code findings j"
    if "(?p i, i) \<le> (?p j, j)" "i < ?n" "j < ?n" for i j
  proof -
    have "kind_band n \<le> 3" if "n \<le> 3" for n using that by (auto simp: kind_band_def)
    then have "kind_band (snd (findings ! k)) \<le> 3" if "k < ?n" for k
      using assms(3) that by (simp add: list_all_length rank_valid_def)
    note k = this [OF \<open>i < ?n\<close>] this [OF \<open>j < ?n\<close>]
    show ?thesis using that assms k by (auto simp: window_priority_def window_code_def)
  qed
  have "sorted (map (window_code findings) (priority_order findings))"
    unfolding sorted_map by (rule sorted_wrt_mono_rel [OF _ lex]) (auto simp: priority_order_def intro: code_le)
  then show ?thesis by (intro properties_for_sort [symmetric]) (simp_all add: priority_order_def)
qed

lemma window_priority_append: "i < length findings \<Longrightarrow> window_priority (findings @ ys) i = window_priority findings i"
  by (simp add: window_priority_def nth_append)

lemma sort_law_half:
  assumes "sort_law sort_up" "n \<le> m"
  shows "length (sort_up (map f [a ..< a + m]) n) = m \<and> take n (sort_up (map f [a ..< a + m]) n) = sort (map f [a ..< a + n])"
  using assms by (simp add: sort_law_def take_map)

lemma upt_halves: "[0 ..< min n m] @ [m ..< m + (n - m)] = [0 ..< n]"
  using upt_add_eq_append [of 0 m "n - m"] by (cases "n \<le> m") (simp_all add: min_def)

text \<open>The kernel's order of a padded window, for valid ranks, is the stable sort by severity and kind.\<close>

lemma order_window_sorts:
  assumes "sort_law sort_up" "length findings \<le> 64" "list_all rank_valid findings"
  shows "take (length findings)
      (fst (order_capsule_window sort_up (findings @ replicate (64 - length findings) (0, 0)) (length findings))) =
    priority_order findings"
proof -
  let ?n = "length findings" and ?w = "findings @ replicate (64 - length findings) (0, 0)"
  let ?lc = "min ?n 32" and ?rc = "?n - 32"
  let ?code = "window_code ?w"
  let ?lo = "sort_up (map ?code [0 ..< 32]) ?lc" and ?ro = "sort_up (map ?code [32 ..< 64]) ?rc"
  have halves: "?lc \<le> 32" "?rc \<le> 32" "(32::nat) + 32 = 64" using assms(2) by simp_all
  note left = sort_law_half [OF assms(1) halves(1), of ?code 0, unfolded add_0]
  note right = sort_law_half [OF assms(1) halves(2), of ?code 32, unfolded halves(3)]
  have counts: "(if ?n < 32 then ?n else 32) = ?lc" "(if ?n > 32 then ?n - 32 else 0) = ?rc" "?lc + ?rc = ?n" by auto
  have fold: "merging (take ?lc ?lo) (take ?rc ?ro) 64
      (fold (merge_output ?n ?lo ?lc ?ro ?rc) [0 ..< 64] (replicate 64 0, 0, 0))"
    using merging_fold [of ?lc ?lo ?rc ?ro 64, unfolded counts] left right halves assms(2)
    by (simp only: left right order_refl)
  have merged: "merge_lists (take ?lc ?lo) (take ?rc ?ro) = sort (map ?code [0 ..< ?n])"
    by (simp only: left right merge_lists_sort map_append [symmetric] upt_halves)
  have "map ?code [0 ..< ?n] = map (window_code findings) [0 ..< ?n]"
    by (simp add: window_code_def nth_append)
  also have "sort \<dots> = map (window_code findings) (priority_order findings)"
    using priority_order_codes [of findings 64] assms by simp
  finally have codes: "merge_lists (take ?lc ?lo) (take ?rc ?ro) = map (window_code findings) (priority_order findings)"
    unfolding merged .
  have decoded: "map (\<lambda>c. c mod 64) (map (window_code findings) (priority_order findings)) = priority_order findings"
    unfolding map_map by (rule map_idI) (use assms(2) in \<open>auto simp: priority_order_def window_code_mod\<close>)
  have lens: "length (take ?lc ?lo) + length (take ?rc ?ro) = ?n" "min 64 ?n = ?n"
    using left right counts(3) halves assms(2) by (simp_all only: length_take) auto
  obtain indices l r where out: "fold (merge_output ?n ?lo ?lc ?ro ?rc) [0 ..< 64] (replicate 64 0, 0, 0) = (indices, l, r)"
    by (metis prod_cases3)
  have "take ?n indices = map (\<lambda>c. c mod 64) (take ?n (map (window_code findings) (priority_order findings)))"
    using fold unfolding out merging_def codes lens prod.case Let_def by simp
  then have "take ?n indices = priority_order findings"
    using decoded by (simp add: priority_order_def)
  then show ?thesis by (simp only: order_capsule_window_def Let_def counts out fst_conv)
qed

section \<open>The policy stays in its budgets and accounts for every finding\<close>

definition scan_ok :: "finding_rank list \<Rightarrow> nat \<Rightarrow> nat \<Rightarrow> capsule_scan \<Rightarrow> bool" where
  "scan_ok findings used n s \<longleftrightarrow>
     length (sn_admitted_flags s) = 32 \<and> length (sn_relevance s) = 32 \<and>
     sn_actionable s \<le> max_actionable \<and> sn_watch s \<le> max_watch \<and> sn_total s \<le> max_total \<and>
     sn_total s = sn_actionable s + sn_watch s \<and> sn_total s + sn_dropped s = min n used \<and>
     sn_total s = card {i. i < n \<and> sn_admitted_flags s ! i} \<and>
     (\<forall>i<n. sn_relevance s ! i = (if i < used then classify (fst (findings ! i)) (snd (findings ! i)) else 0) \<and>
        (sn_admitted_flags s ! i \<longrightarrow> i < used \<and> 0 < sn_relevance s ! i))"

lemma card_below_Suc: "card {i. i < Suc n \<and> P i} = card {i. i < n \<and> P i} + (if P n then 1 else 0)"
proof -
  have "{i. i < Suc n \<and> P i} = (if P n then insert n {i. i < n \<and> P i} else {i. i < n \<and> P i})"
    by (auto simp: less_Suc_eq)
  then show ?thesis by simp
qed

lemma card_below_cong: "(\<And>i. i < n \<Longrightarrow> P i = Q i) \<Longrightarrow> card {i. i < n \<and> P i} = card {i. i < n \<and> Q i}"
  by (rule arg_cong [of _ _ card]) auto

lemma scan_finding_fields:
  obtains a r where "r = (if n < used then classify (fst (findings ! n)) (snd (findings ! n)) else 0)"
    "a \<longrightarrow> n < used \<and> sn_total s < max_total \<and> (r = 2 \<and> sn_actionable s < max_actionable \<or> r = 1 \<and> sn_watch s < max_watch)"
    "scan_finding findings used n s = \<lparr>sn_admitted_flags = (sn_admitted_flags s)[n := a], sn_relevance = (sn_relevance s)[n := r],
       sn_actionable = sn_actionable s + (if a \<and> r = 2 then 1 else 0), sn_watch = sn_watch s + (if a \<and> r = 1 then 1 else 0),
       sn_total = sn_total s + (if a then 1 else 0), sn_dropped = sn_dropped s + (if n < used \<and> \<not> a then 1 else 0)\<rparr>"
proof -
  let ?r = "if n < used then classify (fst (findings ! n)) (snd (findings ! n)) else 0"
  let ?a = "n < used \<and> ((?r = 2 \<and> sn_actionable s < max_actionable \<and> sn_total s < max_total) \<or>
    (?r = 1 \<and> sn_watch s < max_watch \<and> sn_total s < max_total))"
  have "(if n < used then ?r else 0) = ?r" by simp
  then show ?thesis by (intro that [of ?r ?a]) (auto simp only: scan_finding_def Let_def)
qed

lemma scan_ok_step:
  assumes "scan_ok findings used n s" "n < 32"
  shows "scan_ok findings used (Suc n) (scan_finding findings used n s)"
proof -
  obtain a r where r: "r = (if n < used then classify (fst (findings ! n)) (snd (findings ! n)) else 0)"
    and a: "a \<longrightarrow> n < used \<and> sn_total s < max_total \<and> (r = 2 \<and> sn_actionable s < max_actionable \<or> r = 1 \<and> sn_watch s < max_watch)"
    and f: "scan_finding findings used n s = \<lparr>sn_admitted_flags = (sn_admitted_flags s)[n := a], sn_relevance = (sn_relevance s)[n := r],
       sn_actionable = sn_actionable s + (if a \<and> r = 2 then 1 else 0), sn_watch = sn_watch s + (if a \<and> r = 1 then 1 else 0),
       sn_total = sn_total s + (if a then 1 else 0), sn_dropped = sn_dropped s + (if n < used \<and> \<not> a then 1 else 0)\<rparr>"
    by (rule scan_finding_fields [where findings = findings and used = used and n = n and s = s])
  note inv = assms(1) [unfolded scan_ok_def]
  have "card {i. i < n \<and> (sn_admitted_flags s)[n := a] ! i} = card {i. i < n \<and> sn_admitted_flags s ! i}"
    by (rule card_below_cong) simp
  then have cards: "card {i. i < Suc n \<and> (sn_admitted_flags s)[n := a] ! i} = sn_total s + (if a then 1 else 0)"
    using inv assms(2) by (simp add: card_below_Suc)
  have row: "(sn_relevance s)[n := r] ! i = (if i < used then classify (fst (findings ! i)) (snd (findings ! i)) else 0) \<and>
      ((sn_admitted_flags s)[n := a] ! i \<longrightarrow> i < used \<and> 0 < (sn_relevance s)[n := r] ! i)" if "i < Suc n" for i
  proof (cases "i = n")
    case True
    then show ?thesis using a inv assms(2) by (auto simp: r)
  next
    case False
    then have "i < n" using that by simp
    then show ?thesis using inv False by (metis nth_list_update_neq)
  qed
  have rows: "\<forall>i<Suc n. (sn_relevance s)[n := r] ! i = (if i < used then classify (fst (findings ! i)) (snd (findings ! i)) else 0) \<and>
      ((sn_admitted_flags s)[n := a] ! i \<longrightarrow> i < used \<and> 0 < (sn_relevance s)[n := r] ! i)" using row by blast
  have counts: "sn_total s + (if a then 1 else 0) + (sn_dropped s + (if n < used \<and> \<not> a then 1 else 0)) = min (Suc n) used"
    using inv a by (cases "n < used") auto
  have budgets: "sn_actionable s + (if a \<and> r = 2 then 1 else 0) \<le> max_actionable"
    "sn_watch s + (if a \<and> r = 1 then 1 else 0) \<le> max_watch" "sn_total s + (if a then 1 else 0) \<le> max_total"
    "sn_total s + (if a then 1 else 0) =
       sn_actionable s + (if a \<and> r = 2 then 1 else 0) + (sn_watch s + (if a \<and> r = 1 then 1 else 0))"
    using inv a by auto
  show ?thesis
    unfolding scan_ok_def f capsule_scan.simps length_list_update
    using inv cards [symmetric] rows counts budgets by (intro conjI) (simp_all only: if_True if_False)
qed

lemma select_scan_ok: "scan_ok findings used 32 (select_scan findings used)"
proof -
  have "n \<le> 32 \<Longrightarrow> scan_ok findings used n (fold (scan_finding findings used) [0 ..< n] scan_start)" for n
  proof (induction n)
    case 0
    then show ?case by (simp add: scan_ok_def scan_start_def)
  next
    case (Suc n)
    then show ?case using scan_ok_step [of findings used n] by simp
  qed
  then show ?thesis by (simp only: select_scan_def order_refl)
qed

text \<open>C37: The admission policy of the capsule kernel, on every window: it admits at most 16 actionable, 8 watch
  and 20 findings in all, only active findings it classifies as watch or actionable, its counters are the
  numbers of admitted and remaining findings, and its completeness verdict holds for every count the window
  can hold, whatever was dropped.\<close>

theorem capsule_policy_bounded:
  "let s = select_scan findings used; admitted = {i. i < 32 \<and> sn_admitted_flags s ! i}
   in sn_actionable s \<le> 16 \<and> sn_watch s \<le> 8 \<and> sn_total s \<le> 20 \<and> card admitted = sn_total s \<and>
      sn_actionable s + sn_watch s = sn_total s \<and> sn_total s + sn_dropped s = min 32 used \<and>
      admitted \<subseteq> {i. i < used \<and> 0 < classify (fst (findings ! i)) (snd (findings ! i))} \<and>
      (select_complete findings used \<longleftrightarrow> used \<le> 32)"
  using select_scan_ok [of findings used]
  by (auto simp: scan_ok_def Let_def select_complete_def max_actionable_def max_watch_def max_total_def)

end
