(* ===== verification/Capsule_Props.thy ===== *)
theory Capsule_Props
  imports Capsule Capsule_Policy
begin

text \<open>
  What the capsule of \<open>ambient.rs\<close> guarantees: the merged envelope holds the best findings by the order of
  the capsule kernel, which is stated over the kernel as modelled in \<open>Capsule_Policy\<close> run by the backend.
\<close>

section \<open>The smallest elements of a list\<close>

lemma take_insort:
  "sorted zs \<Longrightarrow> k \<le> length zs \<Longrightarrow> \<forall>x \<in> set (take k zs). x \<le> y \<Longrightarrow> take k (insort y zs) = take k zs"
proof (induction zs arbitrary: k)
  case (Cons z zs)
  show ?case
  proof (cases k)
    case (Suc j)
    have prems: "sorted zs" "j \<le> length zs" "\<forall>x \<in> set (take j zs). x \<le> y" "z \<le> y" using Cons.prems Suc by auto
    note ih = Cons.IH [OF prems(1-3)]
    show ?thesis
    proof (cases "y \<le> z")
      case True
      then have "y = z" using prems(4) by simp
      moreover have "insort z zs = z # zs" using Cons.prems(1) by (simp add: insort_is_Cons)
      ultimately show ?thesis using ih Suc by simp
    next
      case False
      then show ?thesis using ih Suc by simp
    qed
  qed simp
qed simp

lemma take_below: "sorted zs \<Longrightarrow> k \<le> length (filter (\<lambda>x. x \<le> d) zs) \<Longrightarrow> \<forall>x \<in> set (take k zs). x \<le> d"
  for d :: "'a::linorder"
proof (induction zs arbitrary: k)
  case (Cons z zs)
  show ?case
  proof (cases "z \<le> d")
    case True
    have rest: "\<forall>x \<in> set (take j zs). x \<le> d" if "k = Suc j" for j
    proof (rule Cons.IH)
      show "sorted zs" using Cons.prems(1) by (simp only: sorted_wrt.simps)
      show "j \<le> length (filter (\<lambda>x. x \<le> d) zs)" using Cons.prems(2) True that by (simp only: filter.simps if_True list.size)
    qed
    show ?thesis
    proof (cases k)
      case (Suc j)
      then show ?thesis using True rest [OF Suc] by (simp only: take_Suc_Cons list.set ball_simps simp_thms)
    qed (simp only: take_0 list.set ball_simps)
  next
    case False
    then have "filter (\<lambda>x. x \<le> d) (z # zs) = []" using Cons.prems(1) by (auto simp: filter_empty_conv)
    then show ?thesis using Cons.prems(2) by simp
  qed
qed simp

lemma take_sort_extra:
  assumes "k \<le> length (filter (\<lambda>x. x \<le> d) zs)"
  shows "take k (sort (d # zs)) = take k (sort zs)"
proof -
  have few: "k \<le> length (filter (\<lambda>x. x \<le> d) (sort zs))" using assms by (simp only: filter_sort length_sort)
  have "take k (insort d (sort zs)) = take k (sort zs)"
  proof (rule take_insort)
    show "sorted (sort zs)" by (rule sorted_sort)
    show "k \<le> length (sort zs)" using few by (rule le_trans [OF _ length_filter_le])
    show "\<forall>x \<in> set (take k (sort zs)). x \<le> d" by (rule take_below [OF sorted_sort few])
  qed
  then show ?thesis by (simp only: sort_key_simps)
qed

lemma take_sort_many:
  "\<forall>d \<in> set ds. k \<le> length (filter (\<lambda>x. x \<le> d) zs) \<Longrightarrow> take k (sort (ds @ zs)) = take k (sort zs)"
proof (induction ds)
  case (Cons d ds)
  then have "k \<le> length (filter (\<lambda>x. x \<le> d) (ds @ zs))" by simp
  from take_sort_extra [OF this] show ?case using Cons by simp
qed simp

lemma sort_mset_cong: "mset xs = mset ys \<Longrightarrow> sort xs = sort ys"
  by (metis mset_sort properties_for_sort sorted_sort)

lemma take_sort_take: "take k (sort (take k (sort xs) @ ys)) = take k (sort (xs @ ys))"
proof -
  let ?t = "take k (sort xs)" and ?d = "drop k (sort xs)"
  have "mset (xs @ ys) = mset (sort xs) + mset ys" by simp
  also have "sort xs = ?t @ ?d" by simp
  finally have "sort (xs @ ys) = sort (?d @ ?t @ ys)" by (intro sort_mset_cong) (simp only: mset_append ac_simps)
  moreover have "k \<le> length (filter (\<lambda>x. x \<le> d) (?t @ ys))" if "d \<in> set ?d" for d
  proof -
    have "sorted (?t @ ?d)" by simp
    then have "\<forall>x \<in> set ?t. x \<le> d" using that by (simp only: sorted_append) blast
    then have "filter (\<lambda>x. x \<le> d) ?t = ?t" by (simp add: filter_id_conv)
    moreover have "length ?t = k" using that by (cases "k \<le> length (sort xs)") auto
    ultimately show ?thesis by simp
  qed
  ultimately show ?thesis using take_sort_many [of ?d k "?t @ ys"] by simp
qed

lemma sort_key_cong': "(\<And>x. x \<in> set xs \<Longrightarrow> f x = g x) \<Longrightarrow> sort_key f xs = sort_key g xs"
proof (induction xs)
  case (Cons x xs)
  have "insort_key f x ys = insort_key g x ys" if "\<forall>y \<in> set (x # ys). f y = g y" for ys
    using that by (induction ys) auto
  then show ?case using Cons by simp
qed simp

lemma sort_key_map: "sort_key f (map g xs) = map g (sort_key (\<lambda>x. f (g x)) xs)"
proof (induction xs)
  case (Cons x xs)
  have "insort_key f (g x) (map g ys) = map g (insort_key (\<lambda>x. f (g x)) x ys)" for ys by (induction ys) auto
  then show ?case using Cons by simp
qed simp

lemma sort_key_nth: "map ((!) xs) (sort_key (\<lambda>i. f (xs ! i)) [0 ..< length xs]) = sort_key f xs"
  using sort_key_map [of f "(!) xs" "[0 ..< length xs]"] by (simp add: map_nth)

section \<open>Batches\<close>

lemma concat_chunks: "0 < n \<Longrightarrow> concat (chunks n xs) = xs"
proof (induction n xs rule: chunks.induct)
  case (1 n xs)
  then show ?case by (subst chunks.simps) auto
qed

lemma length_chunks: "b \<in> set (chunks n xs) \<Longrightarrow> length b \<le> n"
proof (induction n xs rule: chunks.induct)
  case (1 n xs)
  then show ?case by (subst (asm) (2) chunks.simps) (auto split: if_splits)
qed

section \<open>The kernel run by the backend\<close>

definition padded_window :: "(nat \<times> nat) list \<Rightarrow> (nat \<times> nat) list" where
  "padded_window ranks = ranks @ replicate (64 - length ranks) (0, 0)"

definition runs_order_kernel :: "native_platform \<Rightarrow> kernel \<Rightarrow> (nat list \<Rightarrow> nat \<Rightarrow> nat list) \<Rightarrow> bool" where
  "runs_order_kernel np k sort_up \<longleftrightarrow>
     (\<forall>ranks. length ranks \<le> capsule_window \<longrightarrow>
        (\<exists>arguments v fds.
           finding_arguments k ranks capsule_window = Inr arguments \<and>
           single_result (np_backend np k capsule_module capsule_order_function arguments capsule_step_budget) = Inr v \<and>
           record_fields k v ''CapsuleOrder'' = Inr fds \<and>
           record_field fds ''indices'' =
             Inr (EvSequence (map signed_argument (fst (order_capsule_window sort_up (padded_window ranks) (length ranks))))) \<and>
           record_field fds ''valid'' =
             Inr (EvBoolean (snd (order_capsule_window sort_up (padded_window ranks) (length ranks))))))"

lemma merge_output_indices:
  "length (fst s) = 64 \<and> (\<forall>i \<in> set (fst s). i < 64) \<Longrightarrow>
   length (fst (merge_output t lo lc ro rc n s)) = 64 \<and> (\<forall>i \<in> set (fst (merge_output t lo lc ro rc n s)). i < 64)"
  by (cases s) (auto simp: merge_output_def Let_def dest!: set_update_subset_insert [THEN subsetD])

lemma order_indices:
  "length (fst (order_capsule_window su w n)) = 64 \<and> (\<forall>i \<in> set (fst (order_capsule_window su w n)). i < 64)"
proof -
  have "length (fst (fold (merge_output t lo lc ro rc) ns s)) = 64 \<and>
      (\<forall>i \<in> set (fst (fold (merge_output t lo lc ro rc) ns s)). i < 64)"
    if "length (fst s) = 64 \<and> (\<forall>i \<in> set (fst s). i < 64)" for t lo lc ro rc ns s
    using that
  proof (induction ns arbitrary: s)
    case (Cons n ns)
    show ?case using Cons.IH [OF merge_output_indices [OF Cons.prems]] by simp
  qed simp
  then show ?thesis unfolding order_capsule_window_def Let_def fst_conv by this simp
qed

lemma signed_argument_field: "n < 2 ^ 63 \<Longrightarrow> signed_field (signed_argument n) name = Inr n"
  by (simp add: signed_field_def signed_argument_def)

lemma accept_all: "distinct (ordered @ is') \<Longrightarrow> \<forall>i \<in> set is'. i < n \<Longrightarrow> accept_indices n is' ordered = Inr (ordered @ is')"
  by (induction is' arbitrary: ordered) auto

lemma collect_signed: "\<forall>i \<in> set is'. i < 64 \<Longrightarrow>
   collect_results (\<lambda>v. signed_field v name) (map signed_argument is') = Inr is'"
  by (induction is') (auto simp: signed_argument_field)

lemma order_valid:
  "list_all rank_valid ranks \<Longrightarrow> snd (order_capsule_window su (padded_window ranks) (length ranks))"
  by (simp add: order_capsule_window_def Let_def padded_window_def list_all_length nth_append)

text \<open>For valid ranks a checked call returns the priority order.\<close>

lemma order_call:
  assumes "runs_order_kernel np k su" "sort_law su" "length ranks \<le> 64" "list_all rank_valid ranks"
  shows "bind_result (finding_arguments k ranks capsule_window) (\<lambda>arguments.
     bind_result (single_result (np_backend np k capsule_module capsule_order_function arguments capsule_step_budget))
       (decode_order k (length ranks))) = Inr (priority_order ranks)"
proof -
  let ?o = "order_capsule_window su (padded_window ranks) (length ranks)"
  have w: "capsule_window = 64" by (simp add: capsule_window_def capsule_capacity_def)
  obtain arguments v fds where run: "finding_arguments k ranks capsule_window = Inr arguments"
      "single_result (np_backend np k capsule_module capsule_order_function arguments capsule_step_budget) = Inr v"
      "record_fields k v ''CapsuleOrder'' = Inr fds"
      "record_field fds ''indices'' = Inr (EvSequence (map signed_argument (fst ?o)))"
      "record_field fds ''valid'' = Inr (EvBoolean (snd ?o))"
    using assms(1,3) unfolding runs_order_kernel_def w by blast
  have first: "take (length ranks) (fst ?o) = priority_order ranks"
    using order_window_sorts [OF assms(2-4)] by (simp only: padded_window_def)
  have "signed_sequence_field (EvSequence (map signed_argument (fst ?o))) ''indices'' capsule_window = Inr (fst ?o)"
    using order_indices [of su "padded_window ranks" "length ranks"] by (simp add: signed_sequence_field_def w collect_signed)
  moreover have "accept_indices (length ranks) (priority_order ranks) [] = Inr (priority_order ranks)"
    using accept_all [of "[]" "priority_order ranks" "length ranks"] by (simp add: priority_order_def)
  moreover have "length (priority_order ranks) = length ranks" "list_all (\<lambda>i. i \<in> set (priority_order ranks)) [0 ..< length ranks]"
    by (simp_all add: priority_order_def list_all_iff)
  ultimately show ?thesis using order_valid [OF assms(4)]
    by (simp add: run decode_order_def boolean_field_def first)
qed

section \<open>The envelope\<close>

definition finding_rank :: "measured_finding \<Rightarrow> nat \<times> nat" where
  "finding_rank f = (severity_band (mz_severity f), kind_band (mz_kind f))"

text \<open>Severity, then kind, then identity: the smallest come first.\<close>

definition finding_priority :: "measured_finding \<Rightarrow> (nat \<times> nat) \<times> string" where
  "finding_priority f = (finding_rank f, mz_key f)"

definition ranks_valid :: "measured_finding list \<Rightarrow> bool" where
  "ranks_valid fs \<longleftrightarrow> list_all rank_valid (finding_ranks fs)"

lemma ranks_valid_iff: "ranks_valid fs \<longleftrightarrow> (\<forall>f \<in> set fs. rank_valid (mz_severity f, mz_kind f))"
  by (auto simp: ranks_valid_def finding_ranks_def list_all_iff)

text \<open>A cached kernel that is current, and a backend that runs the order function.\<close>

definition capsule_ready ::
  "platform \<Rightarrow> native_platform \<Rightarrow> (string \<Rightarrow> string) \<Rightarrow> (nat list \<Rightarrow> nat \<Rightarrow> nat list) \<Rightarrow> capsule_service \<Rightarrow> bool" where
  "capsule_ready pf np sha su s \<longleftrightarrow> sort_law su \<and>
     (\<exists>k. runs_order_kernel np k su \<and>
        fetch_capsule_kernel (pf_env pf) (pf_process pf) (pf_tools pf) np sha (fst s, sy_store (snd s)) =
          Some (Inr k, fst s, sy_store (snd s)))"

lemma order_selects: "map ((!) env) (priority_order (finding_ranks env)) = sort_key finding_rank env"
proof -
  have "priority_order (finding_ranks env) = sort_key (\<lambda>i. finding_rank (env ! i)) [0 ..< length env]"
    unfolding priority_order_def
    by (simp only: finding_ranks_def length_map, rule sort_key_cong')
      (simp add: window_priority_def finding_rank_def)
  then show ?thesis using sort_key_nth [of env finding_rank] by simp
qed

lemma merge_batch_best:
  assumes "capsule_ready pf np sha su s" "length retained \<le> 32" "length incoming \<le> 32" "ranks_valid (retained @ incoming)"
  shows "merge_batch pf np sha incoming retained s =
    Some (Inr (take 32 (sort_key finding_rank (sort_key mz_key (retained @ incoming)))), s)"
proof -
  let ?env = "sort_key mz_key (retained @ incoming)"
  obtain k where law: "sort_law su" and run: "runs_order_kernel np k su"
    and fetch: "fetch_capsule_kernel (pf_env pf) (pf_process pf) (pf_tools pf) np sha (fst s, sy_store (snd s)) =
      Some (Inr k, fst s, sy_store (snd s))"
    using assms(1) by (auto simp: capsule_ready_def)
  have len: "length (finding_ranks ?env) \<le> 64" using assms(2,3) by (simp add: finding_ranks_def)
  have valid: "list_all rank_valid (finding_ranks ?env)"
    using assms(4) unfolding ranks_valid_def [symmetric] by (simp add: ranks_valid_iff)
  note call = order_call [OF run law len valid]
  have w: "capsule_window = 64" "capsule_capacity = 32" by (simp_all add: capsule_window_def capsule_capacity_def)
  have "execute_capsule_order (pf_env pf) (pf_process pf) (pf_tools pf) np sha (finding_ranks ?env) (fst s, sy_store (snd s)) =
      Some (Inr (priority_order (finding_ranks ?env)), fst s, sy_store (snd s))"
    using len call by (simp add: execute_capsule_order_def w fetch)
  then show ?thesis
    by (simp add: merge_batch_def on_capsule_def Let_def w take_map [symmetric] order_selects)
qed

lemma fill_envelope_best:
  assumes "capsule_ready pf np sha su s"
  shows "\<lbrakk>\<forall>b \<in> set batches. length b \<le> 32 \<and> ranks_valid b; length retained \<le> 32; ranks_valid retained;
     mset retained \<subseteq># mset seen; map finding_priority retained = take 32 (sort (map finding_priority seen))\<rbrakk> \<Longrightarrow>
   \<exists>kept. fill_envelope pf np sha batches retained s = Some (Inr kept, s) \<and> mset kept \<subseteq># mset (seen @ concat batches) \<and>
     map finding_priority kept = take 32 (sort (map finding_priority (seen @ concat batches)))"
proof (induction batches arbitrary: retained seen)
  case (Cons b batches)
  let ?all = "retained @ b" and ?next = "take 32 (sort_key finding_rank (sort_key mz_key (retained @ b)))"
  have valid: "ranks_valid ?all" using Cons.prems by (auto simp: ranks_valid_iff)
  have step: "merge_batch pf np sha b retained s = Some (Inr ?next, s)"
    using merge_batch_best [OF assms, of retained b] Cons.prems valid by simp
  have sub: "mset ?next \<subseteq># mset ?all"
    by (metis append_take_drop_id mset_append mset_sort mset_subset_eq_add_left)
  have "map finding_priority ?next = take 32 (sort (map finding_priority ?all))"
    using sort_key_stable_pair [of finding_rank mz_key ?all]
    by (simp add: take_map [symmetric] finding_priority_def [abs_def])
  also have "\<dots> = take 32 (sort (map finding_priority (seen @ b)))"
    using Cons.prems(5) take_sort_take [of 32 "map finding_priority seen" "map finding_priority b"] by simp
  finally have best: "map finding_priority ?next = take 32 (sort (map finding_priority (seen @ b)))" .
  have mono: "mset ?next \<subseteq># mset (seen @ b)"
    using sub Cons.prems(4) by (metis mset_append mset_subset_eq_mono_add_right_cancel subset_mset.trans)
  have "set ?next \<subseteq> set ?all" using set_mset_mono [OF sub] by simp
  then have "ranks_valid ?next" using valid by (auto simp: ranks_valid_iff)
  from Cons.IH [OF _ _ this mono best] Cons.prems(1) show ?case by (simp add: step)
qed simp

text \<open>C13: Where the backend runs the order function of the capsule kernel, the envelope that is filled batch by
  batch holds the best 32 of all measured findings, in order: the most severe first, then by kind, then by
  identity, each one of the findings, and neither the batching nor the order of measuring makes a
  difference.\<close>

theorem capsule_retains_best:
  assumes "capsule_ready pf np sha su s" "ranks_valid candidates"
  shows "\<exists>kept. fill_envelope pf np sha (chunks capsule_capacity candidates) [] s = Some (Inr kept, s) \<and>
    mset kept \<subseteq># mset candidates \<and>
    map finding_priority kept = take 32 (sort (map finding_priority candidates))"
proof -
  have all: "concat (chunks 32 candidates) = candidates" by (rule concat_chunks) simp
  have "\<forall>b \<in> set (chunks 32 candidates). length b \<le> 32 \<and> ranks_valid b"
  proof
    fix b assume b: "b \<in> set (chunks 32 candidates)"
    then have "set b \<subseteq> set candidates" using all by (metis UN_upper set_concat)
    then have "ranks_valid b" using assms(2) by (auto simp: ranks_valid_iff)
    then show "length b \<le> 32 \<and> ranks_valid b" using length_chunks [OF b] by simp
  qed
  from fill_envelope_best [OF assms(1) this, of "[]" "[]"] show ?thesis
    by (simp add: all capsule_capacity_def ranks_valid_iff)
qed

end
