(* ===== verification/Capsule_Answers.thy ===== *)
theory Capsule_Answers
  imports Capsule_Props Service_Spec Relation_Props
begin

text \<open>
  The answers of \<open>semantic_capsule\<close>: what they publish, what they measure and what they leave alone, and a
  concrete kernel that meets the assumption on the backend.
\<close>

section \<open>Nothing but the store changes\<close>

definition store_only :: "service \<Rightarrow> service \<Rightarrow> bool" where
  "store_only sv sv' \<longleftrightarrow> sv' = sv\<lparr>sy_store := sy_store sv'\<rparr>"

lemma store_only_refl [simp]: "store_only sv sv"
  by (simp add: store_only_def)

lemma store_only_trans: "store_only a b \<Longrightarrow> store_only b c \<Longrightarrow> store_only a c"
proof -
  assume "store_only a b" "store_only b c"
  then have "b = a\<lparr>sy_store := sy_store b\<rparr>" "c = b\<lparr>sy_store := sy_store c\<rparr>" by (simp_all only: store_only_def)
  then have "c = a\<lparr>sy_store := sy_store b\<rparr>\<lparr>sy_store := sy_store c\<rparr>" by metis
  then show "store_only a c" by (simp add: store_only_def)
qed

lemma store_only_update [simp]: "store_only sv (sv\<lparr>sy_store := st\<rparr>)"
  by (simp add: store_only_def)

lemma on_store_only: "store_only sv (snd (on_store f sv))"
  by (simp add: on_store_def split: prod.splits)

lemma on_storeD: "on_store f sv = (r, sv') \<Longrightarrow> store_only sv sv'"
  using on_store_only [of sv f] by simp

lemma cached_only: "store_only sv (snd (cached_snapshot_if_current pf uri sv))"
  by (auto simp: cached_snapshot_if_current_def content_fingerprint_def cached_snapshot_def
      split: option.splits sum.splits prod.splits dest!: on_storeD intro: store_only_trans)

lemma cached_onlyD: "cached_snapshot_if_current pf uri sv = (r, sv') \<Longrightarrow> store_only sv sv'"
  using cached_only [of sv pf uri] by simp

lemma measure_diagnostics_only: "measure_diagnostics pf uris sv = (r, sv') \<Longrightarrow> store_only sv sv'"
  by (induction uris arbitrary: sv r sv')
    (auto split: prod.splits option.splits dest!: cached_onlyD on_storeD intro: store_only_trans)

lemma measure_obligations_only: "measure_obligations pf uris sv = (r, sv') \<Longrightarrow> store_only sv sv'"
  by (induction uris arbitrary: sv r sv')
    (auto split: prod.splits option.splits dest!: cached_onlyD intro: store_only_trans)

lemma measure_only: "measure_capsule pf window known sv = (m, sv') \<Longrightarrow> store_only sv sv'"
  by (auto simp: measure_capsule_def Let_def split: prod.splits
      dest!: measure_diagnostics_only measure_obligations_only intro: store_only_trans)

lemma on_capsule_only: "on_capsule f s = Some (r, s') \<Longrightarrow> store_only (snd s) (snd s')"
  by (auto simp: on_capsule_def)

lemma merge_batch_only: "merge_batch pf np sha b retained s = Some (r, s') \<Longrightarrow> store_only (snd s) (snd s')"
  by (auto simp: merge_batch_def Let_def dest!: on_capsule_only)

lemma fill_envelope_only: "fill_envelope pf np sha bs retained s = Some (r, s') \<Longrightarrow> store_only (snd s) (snd s')"
proof (induction bs arbitrary: retained s)
  case (Cons b bs)
  obtain m t where step: "merge_batch pf np sha b retained s = Some (m, t)" using Cons.prems by (auto simp: bind_eq_Some_conv)
  note first = merge_batch_only [OF step]
  show ?case
  proof (cases m)
    case (Inl e)
    then show ?thesis using Cons.prems step first by auto
  next
    case (Inr kept)
    then have "fill_envelope pf np sha bs kept t = Some (r, s')" using Cons.prems step by simp
    from Cons.IH [OF this] show ?thesis using first by (rule store_only_trans [rotated])
  qed
qed simp

section \<open>The envelope holds measured findings, whatever the backend answers\<close>

lemma accept_indicesD:
  "accept_indices n is' ordered = Inr out \<Longrightarrow> distinct ordered \<Longrightarrow> \<forall>i \<in> set ordered. i < n \<Longrightarrow>
   distinct out \<and> (\<forall>i \<in> set out. i < n)"
proof (induction is' arbitrary: ordered)
  case (Cons i is')
  have ok: "i < n" "i \<notin> set ordered" and rest: "accept_indices n is' (ordered @ [i]) = Inr out"
    using Cons.prems(1) by (simp_all split: if_splits)
  show ?case using Cons.IH [OF rest] Cons.prems(2,3) ok by simp
qed simp

lemma decode_orderD:
  "decode_order k n v = Inr ordered \<Longrightarrow> distinct ordered \<and> set ordered = {..<n} \<and> length ordered = n"
proof -
  assume "decode_order k n v = Inr ordered"
  then obtain indices where acc: "accept_indices n (take n indices) [] = Inr ordered"
    and len: "length ordered = n" "list_all (\<lambda>i. i \<in> set ordered) [0 ..< n]"
    by (auto simp: decode_order_def bind_result_eq_Inr split: if_splits)
  have "distinct ordered \<and> (\<forall>i \<in> set ordered. i < n)" by (rule accept_indicesD [OF acc]) simp_all
  then show ?thesis using len by (auto simp: list_all_iff)
qed

lemma execute_orderD:
  assumes "execute_capsule_order env px tc np sha ranks s = Some (Inr ordered, s')"
  shows "distinct ordered \<and> set ordered = {..<length ranks} \<and> length ordered = length ranks"
  using assms by (auto simp: execute_capsule_order_def bind_result_eq_Inr split: if_splits dest!: decode_orderD)

lemma mset_selection: "distinct is' \<Longrightarrow> set is' \<subseteq> {..<length xs} \<Longrightarrow> mset (map ((!) xs) is') \<subseteq># mset xs"
proof -
  assume "distinct is'" "set is' \<subseteq> {..<length xs}"
  then have "mset is' \<subseteq># mset_set {..<length xs}"
    by (metis finite_lessThan mset_set_set subset_imp_msubset_mset_set)
  then have "image_mset ((!) xs) (mset is') \<subseteq># image_mset ((!) xs) (mset_set {..<length xs})" by (rule image_mset_subseteq_mono)
  moreover have "image_mset ((!) xs) (mset_set {..<length xs}) = mset xs"
  proof -
    have "mset_set {..<length xs} = mset [0 ..< length xs]" by (metis atLeast_upt distinct_upt mset_set_set)
    then show ?thesis by (metis map_nth mset_map)
  qed
  ultimately show ?thesis by simp
qed

lemma merge_batch_sound:
  assumes "merge_batch pf np sha b retained s = Some (Inr kept, s')"
  shows "mset kept \<subseteq># mset (retained @ b) \<and> length kept = min 32 (length retained + length b)"
proof -
  let ?env = "sort_key mz_key (retained @ b)"
  obtain ordered c st where run: "execute_capsule_order (pf_env pf) (pf_process pf) (pf_tools pf) np sha (finding_ranks ?env)
      (fst s, sy_store (snd s)) = Some (Inr ordered, c, st)" and kept: "kept = map ((!) ?env) (take capsule_capacity ordered)"
    using assms by (auto simp: merge_batch_def on_capsule_def Let_def bind_result_eq_Inr)
  note o = execute_orderD [OF run]
  have len: "length (finding_ranks ?env) = length ?env" by (simp add: finding_ranks_def)
  have "mset (map ((!) ?env) (take capsule_capacity ordered)) \<subseteq># mset ?env"
    using o by (intro mset_selection) (auto simp: len dest: in_set_takeD)
  then show ?thesis using o by (simp add: kept len capsule_capacity_def min.commute)
qed

lemma fill_envelope_sound:
  "fill_envelope pf np sha bs retained s = Some (Inr kept, s') \<Longrightarrow>
   mset kept \<subseteq># mset (retained @ concat bs) \<and> length kept \<le> max 32 (length retained)"
proof (induction bs arbitrary: retained s)
  case (Cons b bs)
  obtain m t where call: "merge_batch pf np sha b retained s = Some (m, t)" using Cons.prems by (auto simp: bind_eq_Some_conv)
  then obtain more where step: "merge_batch pf np sha b retained s = Some (Inr more, t)"
    and rest: "fill_envelope pf np sha bs more t = Some (Inr kept, s')"
    using Cons.prems by (cases m) auto
  note one = merge_batch_sound [OF step] and ih = Cons.IH [OF rest]
  have "mset kept \<subseteq># mset more + mset (concat bs)" using ih by simp
  also have "\<dots> \<subseteq># mset (retained @ b) + mset (concat bs)" using one by simp
  finally have "mset kept \<subseteq># mset (retained @ concat (b # bs))" by (simp add: ac_simps)
  moreover have "length kept \<le> max 32 (length retained)" using ih one by linarith
  ultimately show ?case ..
qed simp

section \<open>The verdict\<close>

definition same_frame :: "capsule_response \<Rightarrow> capsule_response \<Rightarrow> bool" where
  "same_frame a b \<longleftrightarrow>
     cap_stream a = cap_stream b \<and> cap_after a = cap_after b \<and> cap_current a = cap_current b \<and>
     cap_matched a = cap_matched b \<and> ct_diagnostics (cap_measured a) = ct_diagnostics (cap_measured b) \<and>
     ct_subjects (cap_measured a) = ct_subjects (cap_measured b) \<and>
     ct_obligations (cap_measured a) = ct_obligations (cap_measured b) \<and>
     ct_modules (cap_measured a) = ct_modules (cap_measured b) \<and> ct_pending (cap_measured a) = ct_pending (cap_measured b)"

text \<open>What an answer may be, over the findings it could have used.\<close>

definition closed_verdict :: "measured_finding list \<Rightarrow> capsule_response \<Rightarrow> bool" where
  "closed_verdict candidates r \<longleftrightarrow>
     (if cap_status r = Answered
      then cap_unresolved r = [] \<and>
        (\<exists>selection kept. cap_policy r = Some selection \<and> cl_valid selection \<and> cl_complete selection \<and>
           mset kept \<subseteq># mset candidates \<and> length kept \<le> 32 \<and> cap_findings r = admitted_findings selection kept)
      else cap_findings r = [] \<and> cap_unresolved r \<noteq> [])"

lemma capsule_verdict_closed:
  assumes "capsule_verdict pf np sha blank candidates s = Some (r, s')"
    "cap_findings blank = []" "cap_unresolved blank = []"
  shows "closed_verdict candidates r \<and> same_frame r blank \<and> store_only (snd s) (snd s')"
proof -
  obtain filled t where fill: "fill_envelope pf np sha (chunks capsule_capacity candidates) [] s = Some (filled, t)"
    using assms(1) by (auto simp: capsule_verdict_def bind_eq_Some_conv)
  note only = fill_envelope_only [OF fill]
  show ?thesis
  proof (cases filled)
    case (Inl e)
    then have "r = blank\<lparr>cap_status := StUnsupported ''capsule ordering unavailable'', cap_unresolved := [PolicyUnavailable e]\<rparr>"
      "s' = t" using assms(1) fill by (simp_all add: capsule_verdict_def)
    then show ?thesis using only assms(2) by (simp add: closed_verdict_def same_frame_def)
  next
    case (Inr retained)
    let ?more = "length candidates - capsule_capacity"
    let ?kept = "if ?more > 0 then take capsule_capacity retained else retained"
    let ?blank = "if ?more > 0
      then blank\<lparr>cap_measured := (cap_measured blank)\<lparr>ct_truncated := ?more\<rparr>,
             cap_limitations := cap_limitations blank @
               [show_nat ?more @ '' measured findings exceed the fixed policy envelope and are counted, not admitted'']\<rparr>
      else blank"
    have sound: "mset retained \<subseteq># mset candidates" "length retained \<le> 32"
      using fill_envelope_sound [OF fill [unfolded Inr]] concat_chunks [of 32 candidates] by (simp_all add: capsule_capacity_def)
    have "mset (take capsule_capacity retained) \<subseteq># mset retained"
      by (metis append_take_drop_id mset_append mset_subset_eq_add_left)
    then have kept: "mset ?kept \<subseteq># mset candidates" "length ?kept \<le> 32" using sound by (auto intro: subset_mset.trans)
    obtain selected where select: "on_capsule (execute_capsule_selection (pf_env pf) (pf_process pf) (pf_tools pf) np sha
        (finding_ranks ?kept)) t = Some (selected, s')" and r: "r = (case selected of
           Inl e \<Rightarrow> ?blank\<lparr>cap_status := StUnsupported ''capsule admission policy unavailable'',
                      cap_unresolved := [PolicyUnavailable e]\<rparr>
         | Inr selection \<Rightarrow>
             if \<not> cl_valid selection \<or> \<not> cl_complete selection
             then ?blank\<lparr>cap_status := StUnsupported ''capsule admission policy rejected its envelope'',
                    cap_policy := Some selection, cap_unresolved := [IncompleteVerdict]\<rparr>
             else ?blank\<lparr>cap_status := Answered, cap_policy := Some selection,
                    cap_findings := admitted_findings selection ?kept\<rparr>)"
      using assms(1) by (auto simp: capsule_verdict_def fill Inr Let_def)
    have frame: "same_frame ?blank blank" "cap_findings ?blank = []" "cap_unresolved ?blank = []"
      using assms(2,3) by (auto simp: same_frame_def)
    have "same_frame r ?blank" unfolding r by (auto simp: same_frame_def split: sum.splits)
    then have "same_frame r blank" using frame(1) by (auto simp: same_frame_def)
    moreover have "closed_verdict candidates r"
      using kept frame(2,3) unfolding r closed_verdict_def by (cases selected) auto
    ultimately show ?thesis using store_only_trans [OF only on_capsule_only [OF select]] by blast
  qed
qed


section \<open>The window a capsule measures\<close>

lemma raise_row_keys: "set (bt_keys (raise_row row rows)) = insert (mz_key row) (set (bt_keys rows))"
  by (auto simp: raise_row_def bt_keys_insert_set split: option.splits)

lemma raise_rows_keys: "set (bt_keys (fold raise_row rs m)) = mz_key ` set rs \<union> set (bt_keys m)"
  by (induction rs arbitrary: m) (auto simp: raise_row_keys)

lemma raise_rows_count: "length (bt_entries (fold raise_row rs bt_empty)) = card (mz_key ` set rs)"
proof -
  have "length (bt_entries m) = card (set (bt_keys m))" for m :: "(string, measured_finding) btree"
    using distinct_card [OF bt_keys_distinct [of m]] by (simp add: bt_keys_def)
  from this [of "fold raise_row rs bt_empty"]
  have "length (bt_entries (fold raise_row rs bt_empty)) = card (mz_key ` set rs \<union> set (bt_keys (bt_empty :: (string, measured_finding) btree)))"
    by (simp only: raise_rows_keys)
  then show ?thesis by (simp add: bt_keys_def)
qed

lemma subject_rows_count: "length (bt_entries (subject_rows es)) = card (sc_identity ` (\<Union>e \<in> set es. set (ev_subjects e)))"
  unfolding subject_rows_def raise_rows_count
  by (rule arg_cong [of _ _ card]) (auto simp: subject_row_def image_iff, blast+)

lemma module_rows_count: "length (bt_entries (module_rows es)) = card (sid_uri ` (\<Union>e \<in> set es. set (ev_affected e)))"
  unfolding module_rows_def raise_rows_count
  by (rule arg_cong [of _ _ card]) (auto simp: module_row_def image_iff, blast+)

lemma measure_rows:
  "measure_capsule pf w known sv = (m, sv') \<Longrightarrow>
   length (ms_subjects m) = length (bt_entries (subject_rows (window_events w (hub_stream (sy_hub sv)) known))) \<and>
   length (ms_modules m) = length (bt_entries (module_rows (window_events w (hub_stream (sy_hub sv)) known)))"
  by (auto simp: measure_capsule_def Let_def split: prod.splits)

text \<open>C36: A capsule asked with the live stream reports the stream's newest cursor as current, while the changed
  subjects and affected modules it measures are those of at most the first 64 events after the caller's cursor:
  a consumer that resumes from the reported cursor never sees what the other events changed.\<close>

theorem capsule_measures_first_events:
  "let hub = sy_hub sv; live = Some (hub_stream hub); reset = reset_required live after hub;
       events = (if reset then [] else take 64 (filter (\<lambda>e. ev_cursor e > after) (hub_events hub)))
   in case semantic_capsule pf np sha live after (c, sv) of
        None \<Rightarrow> True
      | Some (r, _) \<Rightarrow>
          cap_current r = hub_next hub \<and> cap_matched r = (\<not> reset) \<and>
          ct_subjects (cap_measured r) = card (sc_identity ` (\<Union>e \<in> set events. set (ev_subjects e))) \<and>
          ct_modules (cap_measured r) = card (sid_uri ` (\<Union>e \<in> set events. set (ev_affected e)))"
proof -
  let ?hub = "sy_hub sv"
  let ?live = "Some (hub_stream ?hub)"
  let ?w = "poll_for ?live after 64 ?hub"
  let ?events = "if reset_required ?live after ?hub then [] else take 64 (filter (\<lambda>e. ev_cursor e > after) (hub_events ?hub))"
  obtain m sv1 where ms: "measure_capsule pf ?w ?live sv = (m, sv1)" by (metis prod.exhaust)
  have hub: "sy_hub sv1 = ?hub" using measure_only [OF ms] by (metis service.select_convs(2) service.surjective service.update_convs(1) store_only_def)
  have window: "window_events ?w (hub_stream ?hub) ?live = ?events"
    by (simp add: window_events_def poll_for_def Let_def)
  have rows: "length (ms_subjects m) = card (sc_identity ` (\<Union>e \<in> set ?events. set (ev_subjects e)))"
    "length (ms_modules m) = card (sid_uri ` (\<Union>e \<in> set ?events. set (ev_affected e)))"
    using measure_rows [OF ms] by (simp_all only: window subject_rows_count module_rows_count)
  let ?blank = "blank_capsule ?w ?live after m sv1"
  have blank: "cap_current ?blank = hub_next ?hub" "cap_matched ?blank = (\<not> reset_required ?live after ?hub)"
    "ct_subjects (cap_measured ?blank) = length (ms_subjects m)" "ct_modules (cap_measured ?blank) = length (ms_modules m)"
    "cap_findings ?blank = []" "cap_unresolved ?blank = []"
    by (simp_all add: blank_capsule_def hub poll_for_def Let_def)
  have "cap_current r = hub_next ?hub \<and> cap_matched r = (\<not> reset_required ?live after ?hub) \<and>
      ct_subjects (cap_measured r) = length (ms_subjects m) \<and> ct_modules (cap_measured r) = length (ms_modules m)"
    if "semantic_capsule pf np sha ?live after (c, sv) = Some (r, s')" for r s'
  proof (cases "ms_pending m = 0")
    case True
    then have "capsule_verdict pf np sha ?blank (capsule_candidates m) (c, sv1) = Some (r, s')"
      using that by (simp add: semantic_capsule_def ms Let_def)
    from capsule_verdict_closed [OF this blank(5,6)] show ?thesis using blank by (simp add: same_frame_def)
  next
    case False
    then show ?thesis using that blank by (auto simp: semantic_capsule_def ms Let_def)
  qed
  then show ?thesis unfolding Let_def rows [symmetric] by (auto split: option.splits)
qed

section \<open>A backend that runs the kernel\<close>

definition finding_value_rank :: "exec_value \<Rightarrow> nat \<times> nat" where
  "finding_value_rank v =
     (case v of EvRecord i n [(_, EvInteger s _ _), (_, EvInteger k _ _)] \<Rightarrow> (nat s, nat k) | _ \<Rightarrow> (0, 0))"

definition order_backend :: backend where
  "order_backend k m f arguments budget =
     (let ranks = (case arguments of [EvSequence vs, EvByte n] \<Rightarrow> map finding_value_rank (take (nat n) vs) | _ \<Rightarrow> []);
          ordered = order_capsule_window prefix_sort (padded_window ranks) (length ranks)
      in \<lparr>ex_returned_ok = True,
          ex_returned = [EvRecord ''O'' ''CapsuleOrder''
            [(''indices'', EvSequence (map signed_argument (fst ordered))), (''valid'', EvBoolean (snd ordered))]],
          ex_failure = None\<rparr>)"

definition capsule_native :: native_platform where
  "capsule_native = \<lparr>np_source = [], np_valid = (\<lambda>fe. True), np_emit = (\<lambda>p. Inl []), np_backend_name = ''r'',
     np_backend = order_backend\<rparr>"

definition capsule_sample_kernel :: kernel where
  "capsule_sample_kernel = \<lparr>k_source_identity = ''x'', k_dependencies = bt_empty,
     k_record_types = [\<lparr>rt_name = ''CapsuleFinding'', rt_identity = ''F'', rt_fields = [''severity'', ''kind'']\<rparr>,
       \<lparr>rt_name = ''CapsuleOrder'', rt_identity = ''O'', rt_fields = [''indices'', ''valid'']\<rparr>],
     k_finite_types = [], k_backend_name = ''r'', k_artifact_identity = ''a''\<rparr>"

definition capsule_sample_state :: capsule_service where
  "capsule_sample_state =
     (Some \<lparr>ck_cache = capsule_cache_identity id ''x'' bt_empty, ck_kernel = capsule_sample_kernel\<rparr>, service_new ''s'' None)"

lemma collect_results_map: "(\<And>x. f x = Inr (g x)) \<Longrightarrow> collect_results f xs = Inr (map g xs)"
  by (induction xs) auto

lemma order_backend_runs: "runs_order_kernel capsule_native capsule_sample_kernel prefix_sort"
proof -
  let ?arg = "\<lambda>r. EvRecord ''F'' ''CapsuleFinding'' [(''severity'', signed_argument (fst r)), (''kind'', signed_argument (snd r))]"
  have arg: "finding_argument capsule_sample_kernel r = Inr (?arg r)" for r
    by (simp add: finding_argument_def capsule_sample_kernel_def)
  have rank: "finding_value_rank (?arg r) = r" for r
    by (simp add: finding_value_rank_def signed_argument_def)
  have "\<exists>arguments v fds.
      finding_arguments capsule_sample_kernel ranks capsule_window = Inr arguments \<and>
      single_result (np_backend capsule_native capsule_sample_kernel capsule_module capsule_order_function arguments
        capsule_step_budget) = Inr v \<and>
      record_fields capsule_sample_kernel v ''CapsuleOrder'' = Inr fds \<and>
      record_field fds ''indices'' =
        Inr (EvSequence (map signed_argument (fst (order_capsule_window prefix_sort (padded_window ranks) (length ranks))))) \<and>
      record_field fds ''valid'' = Inr (EvBoolean (snd (order_capsule_window prefix_sort (padded_window ranks) (length ranks))))"
    (is "\<exists>a v f. ?P a v f") for ranks
  proof -
    let ?o = "order_capsule_window prefix_sort (padded_window ranks) (length ranks)"
    let ?fds = "[(''indices'', EvSequence (map signed_argument (fst ?o))), (''valid'', EvBoolean (snd ?o))]"
    let ?args = "[EvSequence (map ?arg (ranks @ replicate (capsule_window - length ranks) (0, 0))), EvByte (int (length ranks))]"
    have args: "finding_arguments capsule_sample_kernel ranks capsule_window = Inr ?args"
      by (simp add: finding_arguments_def collect_results_map [of _ ?arg, OF arg] del: map_append)
    have "map finding_value_rank (take (length ranks) (map ?arg (ranks @ replicate (capsule_window - length ranks) (0, 0)))) = ranks"
      by (simp add: comp_def rank)
    then have "?P ?args (EvRecord ''O'' ''CapsuleOrder'' ?fds) ?fds"
      using args by (simp add: capsule_native_def order_backend_def Let_def single_result_def record_fields_def
        capsule_sample_kernel_def record_field_def del: map_append)
    then show ?thesis by blast
  qed
  then show ?thesis unfolding runs_order_kernel_def by blast
qed

lemma capsule_sample_ready: "capsule_ready walk_platform capsule_native id prefix_sort capsule_sample_state"
proof -
  have "use_names [] = []" by (simp add: use_names_def lines_def)
  then have "dependency_walk e px tc [[]] deps st = Some (Inr deps, st)" for e px tc deps st
    by (simp add: dependency_walk.simps)
  moreover have "en_identity (envelope (pf_env walk_platform) (pf_tools walk_platform) capsule_uri []) = ''x''"
    by (simp add: envelope_def walk_platform_def)
  ultimately have "fetch_capsule_kernel (pf_env walk_platform) (pf_process walk_platform) (pf_tools walk_platform) capsule_native id
      (fst capsule_sample_state, sy_store (snd capsule_sample_state)) =
      Some (Inr capsule_sample_kernel, fst capsule_sample_state, sy_store (snd capsule_sample_state))"
    by (simp add: fetch_capsule_kernel_def capsule_native_def capsule_sample_state_def Let_def)
  then show ?thesis using order_backend_runs prefix_sort_law by (auto simp: capsule_ready_def)
qed

definition sample_findings :: "measured_finding list" where
  "sample_findings =
     map (\<lambda>(s, k, key). \<lparr>mz_severity = s, mz_kind = k, mz_key = key, mz_summary = [], mz_uri = None, mz_identity = None,
       mz_code = None\<rparr>) [(0, 1, ''a''), (2, 0, ''c''), (2, 0, ''b'')]"

theorem capsule_retains_best_witness:
  "\<exists>kept. fill_envelope walk_platform capsule_native id (chunks capsule_capacity sample_findings) [] capsule_sample_state =
     Some (Inr kept, capsule_sample_state) \<and> mset kept \<subseteq># mset sample_findings \<and>
     map finding_priority kept = take 32 (sort (map finding_priority sample_findings))"
  using capsule_retains_best [OF capsule_sample_ready, of sample_findings]
  by (simp add: ranks_valid_iff sample_findings_def rank_valid_def)

end
