(* ===== verification/Capsule_Walk.thy ===== *)
theory Capsule_Walk
  imports Capsule_Answers Candidate_Props
begin

text \<open>
  The walk over the imports of the capsule kernel and the calls behind it: they load lazily and nothing else,
  and they return as soon as the files that can be read hold finitely many texts.
\<close>

section \<open>Everything the kernel calls do to the store is lazy loading\<close>

lemma lazy_visit_use: "lazy_load env (snd s) (snd (visit_use env px tc m s))"
  using lazy_store_resolve [of env "snd s" px tc m]
  by (cases s) (auto simp: visit_use_def lazy_refl split: sum.split option.split prod.split)

lemma lazy_visit_uses: "lazy_load env (snd s) (snd (fold (visit_use env px tc) ms s))"
proof (induction ms arbitrary: s)
  case (Cons m ms)
  show ?case using lazy_trans [OF Cons.IH lazy_visit_use] by simp
qed (simp add: lazy_refl)

lemma lazy_dependency_walk:
  assumes w: "dependency_walk env px tc pending deps st = Some r"
  shows "lazy_load env st (snd r)"
proof (rule dependency_walk.raw_induct [OF _ w, where P = "\<lambda>env px tc pending deps st r. lazy_load env st (snd r)"])
  fix walk env px tc pending and deps :: "(string, string) btree" and st r
  assume ih: "\<And>px tc pending deps st b y. walk px tc pending deps st b = Some y \<Longrightarrow> lazy_load px b (snd y)"
    and body: "(case pending of [] \<Rightarrow> Some (Inr deps, st)
      | source # pending \<Rightarrow>
          case fold (visit_use env px tc) (use_names source) (Inr (pending, deps), st) of
            (Inl e, st) \<Rightarrow> Some (Inl e, st)
          | (Inr (pending, deps), st) \<Rightarrow> walk env px tc pending deps st) = Some r"
  show "lazy_load env st (snd r)"
  proof (cases pending)
    case Nil
    then show ?thesis using body by (auto simp: lazy_refl)
  next
    case (Cons source rest)
    obtain x s where f: "fold (visit_use env px tc) (use_names source) (Inr (rest, deps), st) = (x, s)" by (metis prod.exhaust)
    have l: "lazy_load env st s" using lazy_visit_uses [of env "(Inr (rest, deps), st)" px tc "use_names source"] f by simp
    show ?thesis
    proof (cases x)
      case (Inl e)
      then show ?thesis using body Cons f l by auto
    next
      case (Inr y)
      then have "walk env px tc (fst y) (snd y) s = Some r" using body Cons f by (cases y) simp
      from lazy_trans [OF ih [OF this] l] show ?thesis .
    qed
  qed
qed

lemma lazy_prepare_capsule: "lazy_load env st (snd (prepare_capsule_kernel env px tc np sha i st))"
  using lazy_compilation [of env st px tc "tl_compile tc (envelope env tc capsule_uri (np_source np))"]
  by (auto simp: prepare_capsule_kernel_def split: prod.split)

lemma lazy_fetch_capsule:
  assumes "fetch_capsule_kernel env px tc np sha s = Some (r, s')"
  shows "lazy_load env (snd s) (snd s')"
proof -
  obtain cache st where s: "s = (cache, st)" by (cases s)
  let ?source = "en_identity (envelope env tc capsule_uri (np_source np))"
  obtain walked st1 where w: "dependency_walk env px tc [np_source np] bt_empty st = Some (walked, st1)"
    using assms by (auto simp: fetch_capsule_kernel_def s Let_def)
  have l: "lazy_load env st st1" using lazy_dependency_walk [OF w] by simp
  obtain p st2 where p: "prepare_capsule_kernel env px tc np sha ?source st1 = (p, st2)" by (metis prod.exhaust)
  have "lazy_load env st st2" using lazy_trans [OF lazy_prepare_capsule l, of px tc np sha ?source] p by simp
  then show ?thesis using assms l
    by (auto simp: fetch_capsule_kernel_def s w p Let_def split: sum.splits option.splits)
qed

lemma lazy_capsule_order: "execute_capsule_order env px tc np sha ranks s = Some (r, s') \<Longrightarrow> lazy_load env (snd s) (snd s')"
  by (auto simp: execute_capsule_order_def lazy_refl split: if_splits dest!: lazy_fetch_capsule)

lemma lazy_capsule_selection:
  "execute_capsule_selection env px tc np sha ranks s = Some (r, s') \<Longrightarrow> lazy_load env (snd s) (snd s')"
  by (auto simp: execute_capsule_selection_def lazy_refl split: if_splits dest!: lazy_fetch_capsule)

section \<open>The texts a walk can meet\<close>

definition readable_texts :: "environment \<Rightarrow> string set" where
  "readable_texts env = {t. \<exists>p. env_read env p = ReadOk t}"

definition resident_texts :: "document_store \<Rightarrow> string set" where
  "resident_texts st = {t. \<exists>uri d. lookup_document st uri = Some d \<and> document_content d = Some t}"

lemma finite_resident: "finite (resident_texts st)"
proof -
  have "finite (dom (lookup_document st))" by (simp add: set_bt_keys [symmetric])
  then have "finite (ran (lookup_document st))" by (rule finite_ran)
  moreover have "resident_texts st \<subseteq> (\<lambda>d. the (document_content d)) ` ran (lookup_document st)"
    by (force simp: resident_texts_def ran_def)
  ultimately show ?thesis using finite_surj by blast
qed

definition texts_in :: "string set \<Rightarrow> environment \<Rightarrow> document_store \<Rightarrow> bool" where
  "texts_in T env st \<longleftrightarrow> readable_texts env \<subseteq> T \<and> resident_texts st \<subseteq> T"

lemma lazy_texts: "lazy_load env st st' \<Longrightarrow> texts_in T env st \<Longrightarrow> texts_in T env st'"
proof (induction rule: lazy_load.induct)
  case (lazy_register st st' uri path)
  then show ?case by (auto simp: texts_in_def resident_texts_def ensure_document_def store_simps document_content_def stored_def)
next
  case (lazy_commit st st' uri d p t)
  then have "t \<in> T" by (auto simp: texts_in_def readable_texts_def read_bounded_def split: read_result.splits if_splits)
  moreover have "dc_buffer d = None" using lazy_commit by (simp add: stored_def split: option.splits)
  ultimately show ?case using lazy_commit
    by (auto simp: texts_in_def resident_texts_def commit_disk_def Let_def store_simps document_content_def stored_def seal_content_def
      split: if_splits)
qed simp

lemma stored_text: "query_stored env uri st = (Inr x, st') \<Longrightarrow> ct_text x \<in> resident_texts st'"
  by (auto simp: query_stored_def resident_texts_def document_content_def bind_eq_Some_conv split: prod.splits sum.splits option.splits)

lemma content_text: "content env uri st = (Inr t, st') \<Longrightarrow> t \<in> resident_texts st'"
  using stored_text [of env uri st] by (cases "query_stored env uri st"; cases "fst (query_stored env uri st)") (auto simp: content_def)

lemma library_file_text: "library_file env tc m p = Some t \<Longrightarrow> t \<in> readable_texts env"
  by (auto simp: library_file_def readable_texts_def split: read_result.splits option.splits if_splits)

lemma library_text: "library_resolve env px tc m = Some e \<Longrightarrow> en_text e \<in> readable_texts env"
proof -
  let ?found = "List.map_filter (\<lambda>p. map_option (Pair p) (library_file env tc m p)) (library_candidates env px m)"
  assume e: "library_resolve env px tc m = Some e"
  then obtain p t more where f: "?found = (p, t) # more" and t: "en_text e = t"
    by (auto simp: library_resolve_def envelope_def split: list.splits)
  have "(p, t) \<in> set ?found" by (simp add: f)
  then show ?thesis using library_file_text t by (auto simp: map_filter_def)
qed

lemma resolved_text:
  assumes "store_resolve env px tc m st = (Some e, st')" "texts_in T env st"
  shows "en_text e \<in> T"
proof -
  have T: "texts_in T env st'" using lazy_texts [OF lazy_store_resolve [of env st px tc m] assms(2)] assms(1) by simp
  have "en_text e \<in> resident_texts st' \<or> en_text e \<in> readable_texts env"
    using assms(1)
    by (auto simp: store_resolve_def envelope_def split: if_splits option.splits prod.splits sum.splits
        dest: content_text library_text)
  then show ?thesis using T by (auto simp: texts_in_def)
qed

section \<open>The walk ends\<close>

text \<open>A state of the walk: the pending texts are known ones.\<close>

definition walk_sound :: "string set \<Rightarrow> string set \<Rightarrow> environment \<Rightarrow> string list \<Rightarrow> document_store \<Rightarrow> bool" where
  "walk_sound T sources env pending st \<longleftrightarrow> texts_in T env st \<and> T \<subseteq> sources \<and> set pending \<subseteq> sources"

text \<open>A visit that resolves a name takes one of the finitely many names from those still to be resolved.\<close>

definition walk_progress :: "string set \<Rightarrow> (string, string) btree \<Rightarrow> (string, string) btree \<Rightarrow> string list \<Rightarrow> string list \<Rightarrow> bool" where
  "walk_progress names deps deps' pending pending' \<longleftrightarrow>
     deps' = deps \<and> pending' = pending \<or>
     card (names - dom (bt_lookup deps')) < card (names - dom (bt_lookup deps))"

lemma visit_use_progress:
  assumes "finite names" "m \<in> names" "walk_sound T sources env pending st"
    "visit_use env px tc m (Inr (pending, deps), st) = (Inr (pending', deps'), st')"
  shows "walk_sound T sources env pending' st' \<and> walk_progress names deps deps' pending pending'"
proof (cases "bt_lookup deps m")
  case (Some i)
  then show ?thesis using assms by (auto simp: visit_use_def walk_progress_def)
next
  case None
  obtain e where r: "store_resolve env px tc m st = (Some e, st')" and
      p: "pending' = en_text e # pending" "deps' = bt_insert m (en_identity e) deps"
    using assms(4) None by (auto simp: visit_use_def split: prod.splits option.splits)
  have "texts_in T env st'" using lazy_texts [OF lazy_store_resolve [of env st px tc m]] assms(3) r by (simp add: walk_sound_def)
  moreover have "en_text e \<in> T" using resolved_text [OF r] assms(3) by (simp add: walk_sound_def)
  moreover have "dom (bt_lookup deps') = insert m (dom (bt_lookup deps))" by (auto simp: p split: if_splits)
  then have "names - dom (bt_lookup deps') \<subset> names - dom (bt_lookup deps)" using None assms(2) by auto
  then have "card (names - dom (bt_lookup deps')) < card (names - dom (bt_lookup deps))"
    using assms(1) by (intro psubset_card_mono) auto
  ultimately show ?thesis using assms(3) p(1) by (auto simp: walk_sound_def walk_progress_def)
qed

lemma visit_error: "fold (visit_use env px tc) ms (Inl e, st) = (Inl e, st)"
  by (induction ms) (simp_all add: visit_use_def)

lemma visit_uses_progress:
  assumes "finite names" "set ms \<subseteq> names" "walk_sound T sources env pending st"
    "fold (visit_use env px tc) ms (Inr (pending, deps), st) = (Inr (pending', deps'), st')"
  shows "walk_sound T sources env pending' st' \<and> walk_progress names deps deps' pending pending'"
  using assms(2-)
proof (induction ms arbitrary: pending deps st)
  case Nil
  then show ?case by (simp add: walk_progress_def)
next
  case (Cons m ms)
  obtain x s where v: "visit_use env px tc m (Inr (pending, deps), st) = (x, s)" by (metis prod.exhaust)
  show ?case
  proof (cases x)
    case (Inl e)
    then show ?thesis using Cons.prems(3) v by (simp add: visit_error)
  next
    case (Inr y)
    obtain p d where y: "y = (p, d)" by (cases y)
    have one: "walk_sound T sources env p s \<and> walk_progress names deps d pending p"
      by (rule visit_use_progress [OF assms(1) _ Cons.prems(2), of m px tc]) (use Cons.prems(1) v Inr y in auto)
    have "fold (visit_use env px tc) ms (Inr (p, d), s) = (Inr (pending', deps'), st')" using Cons.prems(3) v Inr y by simp
    from Cons.IH [OF _ _ this] one Cons.prems(1) show ?thesis by (auto simp: walk_progress_def)
  qed
qed

lemma dependency_walk_returns:
  assumes fin: "finite names" and names: "\<And>t. t \<in> sources \<Longrightarrow> set (use_names t) \<subseteq> names"
  shows "walk_sound T sources env pending st \<Longrightarrow> dependency_walk env px tc pending deps st \<noteq> None"
proof (induction "card (names - dom (bt_lookup deps))" arbitrary: pending deps st rule: less_induct)
  case less
  note outer = less.hyps
  show ?case
    using less.prems
  proof (induction pending arbitrary: st)
    case Nil
    then show ?case by (simp add: dependency_walk.simps)
  next
    case (Cons source rest)
    obtain x s where f: "fold (visit_use env px tc) (use_names source) (Inr (rest, deps), st) = (x, s)" by (metis prod.exhaust)
    show ?case
    proof (cases x)
      case (Inl e)
      then show ?thesis using f by (simp add: dependency_walk.simps)
    next
      case (Inr y)
      obtain p d where y: "y = (p, d)" by (cases y)
      have "set (use_names source) \<subseteq> names" "walk_sound T sources env rest st"
        using Cons.prems names by (auto simp: walk_sound_def)
      then have w: "walk_sound T sources env p s" "walk_progress names deps d rest p"
        using visit_uses_progress [OF fin _ _ f [unfolded Inr y]] by auto
      have "dependency_walk env px tc p d s \<noteq> None"
        using w(2) Cons.IH [of s] outer [OF _ w(1)] w(1) unfolding walk_progress_def by blast
      then show ?thesis using f Inr y by (simp add: dependency_walk.simps)
    qed
  qed
qed

lemma walk_ends:
  assumes "finite (readable_texts env)"
  shows "dependency_walk env px tc [source] bt_empty st \<noteq> None"
proof -
  let ?T = "readable_texts env \<union> resident_texts st"
  show ?thesis
    by (rule dependency_walk_returns [of "\<Union>t \<in> insert source ?T. set (use_names t)" "insert source ?T" ?T])
      (auto simp: walk_sound_def texts_in_def finite_resident assms)
qed

section \<open>The capsule is answered\<close>

text \<open>A call that returns, and leaves the file system as it was.\<close>

lemma fetch_returns:
  assumes "finite (readable_texts env)"
  shows "fetch_capsule_kernel env px tc np sha s \<noteq> None"
  using walk_ends [OF assms] by (cases s) (simp add: fetch_capsule_kernel_def Let_def del: not_None_eq)

lemma order_returns: "finite (readable_texts env) \<Longrightarrow> execute_capsule_order env px tc np sha ranks s \<noteq> None"
  using fetch_returns [of env] by (simp add: execute_capsule_order_def del: not_None_eq)

lemma selection_returns: "finite (readable_texts env) \<Longrightarrow> execute_capsule_selection env px tc np sha ranks s \<noteq> None"
  using fetch_returns [of env] by (simp add: execute_capsule_selection_def del: not_None_eq)

lemma merge_returns: "finite (readable_texts (pf_env pf)) \<Longrightarrow> merge_batch pf np sha incoming retained s \<noteq> None"
  using order_returns [of "pf_env pf"] by (simp add: merge_batch_def on_capsule_def Let_def del: not_None_eq)

lemma fill_returns:
  assumes "finite (readable_texts (pf_env pf))"
  shows "fill_envelope pf np sha batches retained s \<noteq> None"
proof (induction batches arbitrary: retained s)
  case (Cons b bs)
  obtain x s' where m: "merge_batch pf np sha b retained s = Some (x, s')"
    using merge_returns [OF assms, of np sha b retained s] by (cases "merge_batch pf np sha b retained s") auto
  show ?case using Cons.IH by (cases x) (simp_all add: m)
qed simp

lemma verdict_returns:
  assumes "finite (readable_texts (pf_env pf))"
  shows "capsule_verdict pf np sha blank candidates s \<noteq> None"
proof -
  obtain x s' where m: "fill_envelope pf np sha (chunks capsule_capacity candidates) [] s = Some (x, s')"
    using fill_returns [OF assms, of np sha "chunks capsule_capacity candidates" "[]" s] by fastforce
  show ?thesis
    using selection_returns [OF assms]
    by (cases x) (simp_all add: capsule_verdict_def m on_capsule_def Let_def del: not_None_eq)
qed

text \<open>C14: The semantic capsule is answered: where the files that can be read hold finitely many texts, the walk
  over the imports of its kernel ends, cyclic imports and files that change the documents on the way included,
  and so do the calls behind every batch and the verdict.\<close>

theorem capsule_returns:
  assumes "finite {t. \<exists>p. env_read (pf_env pf) p = ReadOk t}"
  shows "\<exists>r s'. semantic_capsule pf np sha known after s = Some (r, s')"
proof -
  have "semantic_capsule pf np sha known after s \<noteq> None"
    using verdict_returns [OF assms [folded readable_texts_def]]
    by (simp add: semantic_capsule_def Let_def del: not_None_eq split: prod.split)
  then show ?thesis by auto
qed

theorem capsule_returns_witness:
  "\<exists>r s'. semantic_capsule walk_platform capsule_native id None 0 capsule_sample_state = Some (r, s')"
  by (rule capsule_returns) (simp add: walk_platform_def)

end
