(* ===== verification/Service_Calls.thy ===== *)
theory Service_Calls
  imports Capsule Rename Code_Actions Candidate Intel Debug_Binding Completion Document_Queries Family_Query Format
begin

text \<open>
  The client boundary of \<open>client.rs\<close>: the operations of the trait \<open>LanguageServiceClient\<close> as data, their
  answers, and what the resident core does for each of them. A core that panics, or does not return, is
  \<^term>\<open>None\<close>.
\<close>

section \<open>Calls\<close>

text \<open>The trait's operations in its order, in four groups.\<close>

datatype edit_call =
    CallConfigureRoot "string option"
  | CallDidOpen string int string
  | CallDidChange string int "text_change list"
  | CallDidSave string "string option"
  | CallDidClose string
  | CallContent string
  | CallBufferVersion string
  | CallRefresh

datatype overview_call =
    CallWorkspaceStatus
  | CallServiceStatus
  | CallServiceStats
  | CallCapsule "string option" nat
  | CallPollEvents "string option" nat nat
  | CallLanguage "string option" "string option" "string option" "string option" "string option" nat
  | CallFamily "string option" "string option" "string option" "string option" "string option" nat

datatype subject_call =
    CallDiagnostics string
  | CallSubjectsAt string nat nat
  | CallDebugBinding string "string option" "nat option" "nat option"
  | CallDescribeIdentity string string
  | CallDescribePosition string nat nat
  | CallDefinition string nat nat
  | CallReferences string nat nat bool
  | CallDocumentSymbols string
  | CallWorkspaceSymbols string
  | CallDependencies string string
  | CallDependents string string
  | CallTransitiveDependents string nat
  | CallTransitiveDependencies string nat
  | CallTransitiveCallers string nat
  | CallImpact string string
  | CallObligations string "string option"
  | CallNativeObligations string "string option"
  | CallKindCount string symbol_kind
  | CallContextPacket string string nat
  | CallCandidate string string

datatype editor_call =
    CallHover string nat nat
  | CallHighlights string nat nat
  | CallSignatureHelp string nat nat
  | CallDeclaration string nat nat
  | CallTypeDefinition string nat nat
  | CallPrepareHierarchy string nat nat
  | CallIncoming string string
  | CallOutgoing string string
  | CallTokens string
  | CallFolding string
  | CallRename string nat nat string
  | CallFormatting string
  | CallRangeFormatting string nat nat
  | CallSelectionRanges string "(nat \<times> nat) list"
  | CallInlayHints string nat nat nat nat
  | CallCodeActions string nat nat nat nat
  | CallCompletion string nat nat

datatype client_call =
    EditCall edit_call
  | OverviewCall overview_call
  | SubjectCall subject_call
  | EditorCall editor_call

section \<open>Answers\<close>

datatype edit_answer =
    AnUris "string list"
  | AnGeneration nat
  | AnClosed "string option"
  | AnContent string
  | AnVersion "int option"
  | AnRefreshed "nat list"

datatype overview_answer =
    AnWorkspaceStatus workspace_status
  | AnServiceStatus service_status
  | AnStats service_stats nat nat
  | AnCapsule capsule_response
  | AnEvents event_cursor
  | AnLanguage language_response
  | AnFamily family_packet

datatype subject_answer =
    AnDiagnostics "diagnostic_item list response"
  | AnSubjects "occurrence list response"
  | AnDebugBinding "source_binding response"
  | AnDescription "subject_description option response"
  | AnDefinitions "symbol_summary list response"
  | AnReferences "reference_hit list response"
  | AnSymbolTree "symbol_node list option response"
  | AnWorkspaceSymbols workspace_symbols_response
  | AnGraph graph_response
  | AnModules deps_response
  | AnCallers callers_response
  | AnImpact impact_response
  | AnObligations "obligations response"
  | AnNativeObligations "native_obligations response"
  | AnKindCount "kind_count response"
  | AnPacket "context_packet response"
  | AnCandidate candidate_response

datatype editor_answer =
    AnHover "hover response"
  | AnHighlights "range_info list response"
  | AnSignature "signature_help response"
  | AnDeclarations "symbol_summary list response"
  | AnHierarchy "hierarchy_item list response"
  | AnEdges "hierarchy_edge list response"
  | AnTokens "token_annotation list response"
  | AnFolding "(nat \<times> nat) list response"
  | AnRename "rename_edits response"
  | AnFormatting snapshot_info formatting_response
  | AnRangeFormatting snapshot_info range_formatting_response
  | AnSelection "range_info list list response"
  | AnHints "inlay_hint list response"
  | AnActions "code_action list response"
  | AnCompletion completion_response

datatype client_answer =
    EditAnswer edit_answer
  | OverviewAnswer overview_answer
  | SubjectAnswer subject_answer
  | EditorAnswer editor_answer

section \<open>The resident core\<close>

text \<open>What the core runs on: the platform, the four kernels, and the other arguments of the queries. The texts
  of the errors a walk or a count reports are arguments too.\<close>

record host =
  ho_platform :: platform
  ho_relation :: native_platform
  ho_filter :: native_platform
  ho_status :: native_platform
  ho_capsule :: native_platform
  ho_chunks :: "string \<Rightarrow> nat \<Rightarrow> native_error + coordinate_chunk"
  ho_windows :: "string \<Rightarrow> native_error + coordinate_window"
  ho_valid :: "front_end \<Rightarrow> bool"
  ho_invalidation :: "program \<Rightarrow> program \<Rightarrow> string list option"
  ho_neighborhood :: "program \<Rightarrow> string list \<Rightarrow> nat \<Rightarrow> nat \<Rightarrow> impact_view option"
  ho_manifest :: "(string \<times> string) list"
  ho_classes :: unicode_classes
  ho_knowledge :: knowledge_env
  ho_family :: family_env
  ho_sha :: "string \<Rightarrow> string"
  ho_identity :: service_identity
  ho_tools :: toolchain_identity
  ho_walk_reason :: "walk_error \<Rightarrow> service_error"
  ho_candidate_reason :: "candidate_error \<Rightarrow> service_error"

text \<open>The service with the memory of the kernels it has prepared.\<close>

record host_state =
  hs_relation :: "kernel option"
  hs_filter :: "kernel option"
  hs_status :: "kernel option"
  hs_capsule :: "capsule_kernel option"
  hs_service :: service

definition host_new :: "string \<Rightarrow> string option \<Rightarrow> host_state" where
  "host_new stream root =
     \<lparr>hs_relation = None, hs_filter = None, hs_status = None, hs_capsule = None, hs_service = service_new stream root\<rparr>"

text \<open>Calls that may panic, calls that may not, and calls that use a kernel.\<close>

definition may_panic ::
  "(service \<Rightarrow> ('a \<times> service) option) \<Rightarrow> host_state \<Rightarrow> ('a \<times> host_state) option" where
  "may_panic f hs = map_option (\<lambda>(r, sv). (r, hs\<lparr>hs_service := sv\<rparr>)) (f (hs_service hs))"

definition plainly :: "(service \<Rightarrow> 'a \<times> service) \<Rightarrow> host_state \<Rightarrow> ('a \<times> host_state) option" where
  "plainly f hs = may_panic (\<lambda>sv. Some (f sv)) hs"

definition using_relation ::
  "(query_state \<Rightarrow> ('a \<times> query_state) option) \<Rightarrow> host_state \<Rightarrow> ('a \<times> host_state) option" where
  "using_relation f hs =
     map_option (\<lambda>(r, k, sv). (r, hs\<lparr>hs_relation := k, hs_service := sv\<rparr>)) (f (hs_relation hs, hs_service hs))"

definition using_filter ::
  "(query_state \<Rightarrow> ('a \<times> query_state) option) \<Rightarrow> host_state \<Rightarrow> ('a \<times> host_state) option" where
  "using_filter f hs =
     map_option (\<lambda>(r, k, sv). (r, hs\<lparr>hs_filter := k, hs_service := sv\<rparr>)) (f (hs_filter hs, hs_service hs))"

definition using_status ::
  "(query_state \<Rightarrow> ('a \<times> query_state) option) \<Rightarrow> host_state \<Rightarrow> ('a \<times> host_state) option" where
  "using_status f hs =
     map_option (\<lambda>(r, k, sv). (r, hs\<lparr>hs_status := k, hs_service := sv\<rparr>)) (f (hs_status hs, hs_service hs))"

definition using_capsule ::
  "(capsule_service \<Rightarrow> ('a \<times> capsule_service) option) \<Rightarrow> host_state \<Rightarrow> ('a \<times> host_state) option" where
  "using_capsule f hs =
     map_option (\<lambda>(r, k, sv). (r, hs\<lparr>hs_capsule := k, hs_service := sv\<rparr>)) (f (hs_capsule hs, hs_service hs))"

text \<open>The answer of a call, and the error of a query that uses a kernel.\<close>

definition answer_with ::
  "('a \<Rightarrow> 'b) \<Rightarrow> (('e + 'a) \<times> 's) option \<Rightarrow> (('e + 'b) \<times> 's) option" where
  "answer_with f = map_option (map_prod (map_sum id f) id)"

definition failing_with ::
  "('e \<Rightarrow> 'f) \<Rightarrow> (('e + 'a) \<times> 's) option \<Rightarrow> (('f + 'a) \<times> 's) option" where
  "failing_with f = map_option (map_prod (map_sum f id) id)"

fun query_failure :: "host \<Rightarrow> query_error \<Rightarrow> service_error" where
  "query_failure ho (StoreError e) = e"
| "query_failure ho (WalkError w) = ho_walk_reason ho w"

definition candidate_failure :: "host \<Rightarrow> candidate_error \<Rightarrow> service_error" where
  "candidate_failure ho e = (case e of CandidateService e \<Rightarrow> e | _ \<Rightarrow> ho_candidate_reason ho e)"

definition succeeding :: "('s \<Rightarrow> 'a \<times> 's) \<Rightarrow> 's \<Rightarrow> ('e + 'a) \<times> 's" where
  "succeeding f s = map_prod Inr id (f s)"

section \<open>Two wrappers of the formatter\<close>

definition service_formatting ::
  "platform \<Rightarrow> string \<Rightarrow> service \<Rightarrow> ((service_error + snapshot_info \<times> formatting_response) \<times> service) option" where
  "service_formatting pf uri sv =
     (case snapshot pf uri sv of
        (Inl e, sv) \<Rightarrow> Some (Inl e, sv)
      | (Inr a, sv) \<Rightarrow>
          map_option (\<lambda>r. (Inr (make_snapshot_info uri a, r), sv)) (formatting_of (analysis_text a)))"

definition service_range_formatting ::
  "host \<Rightarrow> string \<Rightarrow> nat \<Rightarrow> nat \<Rightarrow> service
     \<Rightarrow> ((service_error + snapshot_info \<times> range_formatting_response) \<times> service) option" where
  "service_range_formatting ho uri start_line end_line sv =
     (case snapshot (ho_platform ho) uri sv of
        (Inl e, sv) \<Rightarrow> Some (Inl e, sv)
      | (Inr a, sv) \<Rightarrow>
          (case range_formatting_of (ho_chunks ho) (ho_windows ho) uri (analysis_text a) start_line end_line of
             Inl p \<Rightarrow> None
           | Inr r \<Rightarrow> Some (Inr (make_snapshot_info uri a, r), sv)))"

section \<open>The local client\<close>

fun perform_edit ::
  "host \<Rightarrow> edit_call \<Rightarrow> host_state \<Rightarrow> ((service_error + edit_answer) \<times> host_state) option" where
  "perform_edit ho (CallConfigureRoot root) =
     answer_with AnUris \<circ> may_panic (configure_root (ho_platform ho) root None)"
| "perform_edit ho (CallDidOpen uri version t) =
     answer_with AnGeneration \<circ> plainly (service_did_open (ho_platform ho) uri version t)"
| "perform_edit ho (CallDidChange uri version changes) =
     answer_with AnGeneration \<circ> may_panic (\<lambda>sv.
       case service_did_change_incremental (ho_platform ho) (ho_chunks ho) (ho_windows ho) uri version changes sv of
         Inl p \<Rightarrow> None
       | Inr r \<Rightarrow> Some r)"
| "perform_edit ho (CallDidSave uri t) = answer_with AnGeneration \<circ> plainly (service_did_save (ho_platform ho) uri t)"
| "perform_edit ho (CallDidClose uri) = answer_with AnClosed \<circ> plainly (service_did_close (ho_platform ho) uri)"
| "perform_edit ho (CallContent uri) = answer_with AnContent \<circ> plainly (\<lambda>sv.
     map_prod id (\<lambda>st. sv\<lparr>sy_store := st\<rparr>) (content (pf_env (ho_platform ho)) uri (sy_store sv)))"
| "perform_edit ho (CallBufferVersion uri) =
     answer_with AnVersion \<circ> plainly (\<lambda>sv. (buffer_version uri (sy_store sv), sv))"
| "perform_edit ho CallRefresh = answer_with AnRefreshed \<circ> may_panic (refresh_workspace (ho_platform ho))"

fun perform_overview ::
  "host \<Rightarrow> overview_call \<Rightarrow> host_state \<Rightarrow> ((service_error + overview_answer) \<times> host_state) option" where
  "perform_overview ho CallWorkspaceStatus = answer_with AnWorkspaceStatus \<circ>
     plainly (succeeding (query_workspace_status (ho_platform ho) (ho_valid ho)))"
| "perform_overview ho CallServiceStatus = answer_with AnServiceStatus \<circ>
     plainly (succeeding (service_status (ho_platform ho) (ho_sha ho) (ho_identity ho) (ho_tools ho)))"
| "perform_overview ho CallServiceStats = plainly (\<lambda>sv.
     (Inr (AnStats (sy_stats sv) (length (bt_entries (wx_entries (sy_index sv)))) (occurrence_count (sy_index sv))), sv))"
| "perform_overview ho (CallCapsule known after) = using_capsule (\<lambda>c.
     map_option (map_prod (Inr \<circ> AnCapsule) id)
       (semantic_capsule (ho_platform ho) (ho_capsule ho) (ho_sha ho) known after c))"
| "perform_overview ho (CallPollEvents stream after max_events) =
     plainly (\<lambda>sv. (Inr (AnEvents (poll_for stream after max_events (sy_hub sv))), sv))"
| "perform_overview ho (CallLanguage topic symbol profile delta_from known max_items) =
     answer_with AnLanguage \<circ> plainly (\<lambda>sv.
       (language_query (ho_knowledge ho) (ds_root (sy_store sv)) topic symbol profile delta_from known max_items, sv))"
| "perform_overview ho (CallFamily repository topic symbol known_language known_architecture max_items) =
     answer_with AnFamily \<circ> plainly (\<lambda>sv.
       (family_query (ho_family ho) (ds_root (sy_store sv)) repository topic symbol known_language known_architecture
          max_items, sv))"

fun perform_subject ::
  "host \<Rightarrow> subject_call \<Rightarrow> host_state \<Rightarrow> ((service_error + subject_answer) \<times> host_state) option" where
  "perform_subject ho (CallDiagnostics uri) =
     answer_with AnDiagnostics \<circ> plainly (document_diagnostics (ho_platform ho) uri)"
| "perform_subject ho (CallSubjectsAt uri line character) =
     answer_with AnSubjects \<circ> plainly (subjects_at (ho_platform ho) uri line character)"
| "perform_subject ho (CallDebugBinding uri identity line character) =
     answer_with AnDebugBinding \<circ> may_panic (debug_source_binding (ho_platform ho) uri identity line character)"
| "perform_subject ho (CallDescribeIdentity uri identity) =
     answer_with AnDescription \<circ> plainly (describe_identity (ho_platform ho) uri identity)"
| "perform_subject ho (CallDescribePosition uri line character) =
     answer_with AnDescription \<circ> plainly (describe_position (ho_platform ho) uri line character)"
| "perform_subject ho (CallDefinition uri line character) =
     answer_with AnDefinitions \<circ> plainly (definition_query (ho_platform ho) uri line character)"
| "perform_subject ho (CallReferences uri line character declaration) =
     answer_with AnReferences \<circ> plainly (references (ho_platform ho) uri line character declaration)"
| "perform_subject ho (CallDocumentSymbols uri) =
     answer_with AnSymbolTree \<circ> plainly (document_symbols (ho_platform ho) uri)"
| "perform_subject ho (CallWorkspaceSymbols query) = answer_with AnWorkspaceSymbols \<circ>
     using_filter (Some \<circ> succeeding (workspace_symbols (ho_platform ho) (ho_filter ho) query))"
| "perform_subject ho (CallDependencies uri identity) = answer_with AnGraph \<circ> failing_with (query_failure ho) \<circ>
     using_relation (Some \<circ> dependencies (ho_platform ho) (ho_relation ho) uri identity)"
| "perform_subject ho (CallDependents uri identity) = answer_with AnGraph \<circ> failing_with (query_failure ho) \<circ>
     using_relation (Some \<circ> dependents (ho_platform ho) (ho_relation ho) uri identity)"
| "perform_subject ho (CallTransitiveDependents uri depth) = answer_with AnModules \<circ> failing_with (query_failure ho) \<circ>
     using_relation (Some \<circ> transitive_dependents (ho_platform ho) (ho_relation ho) uri depth)"
| "perform_subject ho (CallTransitiveDependencies uri depth) = answer_with AnModules \<circ> failing_with (query_failure ho) \<circ>
     using_relation (Some \<circ> transitive_dependencies (ho_platform ho) (ho_relation ho) uri depth)"
| "perform_subject ho (CallTransitiveCallers identity depth) = answer_with AnCallers \<circ> failing_with (query_failure ho) \<circ>
     using_relation (Some \<circ> transitive_callers (ho_platform ho) (ho_relation ho) identity depth)"
| "perform_subject ho (CallImpact uri identity) = answer_with AnImpact \<circ> failing_with (query_failure ho) \<circ>
     using_relation (Some \<circ> semantic_impact (ho_platform ho) (ho_relation ho) (ho_neighborhood ho) uri identity)"
| "perform_subject ho (CallObligations uri subject) =
     answer_with AnObligations \<circ> plainly (obligations_response (ho_platform ho) uri subject)"
| "perform_subject ho (CallNativeObligations uri subject) = answer_with AnNativeObligations \<circ>
     using_status (Some \<circ> query_native_obligations (ho_platform ho) (ho_status ho) uri subject)"
| "perform_subject ho (CallKindCount uri wanted) = answer_with AnKindCount \<circ>
     using_filter (Some \<circ> native_kind_count (ho_platform ho) (ho_filter ho) uri wanted)"
| "perform_subject ho (CallContextPacket uri identity excerpts) = answer_with AnPacket \<circ>
     using_relation (query_context_packet (ho_platform ho) (ho_relation ho) uri identity excerpts)"
| "perform_subject ho (CallCandidate uri t) = answer_with AnCandidate \<circ> failing_with (candidate_failure ho) \<circ>
     using_status (Some \<circ> analyze_candidate (ho_platform ho) (ho_status ho) (ho_valid ho) (ho_invalidation ho) uri t)"

fun perform_editor ::
  "host \<Rightarrow> editor_call \<Rightarrow> host_state \<Rightarrow> ((service_error + editor_answer) \<times> host_state) option" where
  "perform_editor ho (CallHover uri line character) =
     answer_with AnHover \<circ> plainly (hover_query (ho_platform ho) uri line character)"
| "perform_editor ho (CallHighlights uri line character) =
     answer_with AnHighlights \<circ> plainly (highlights (ho_platform ho) uri line character)"
| "perform_editor ho (CallSignatureHelp uri line character) =
     answer_with AnSignature \<circ> plainly (query_signature_help (ho_platform ho) uri line character)"
| "perform_editor ho (CallDeclaration uri line character) =
     answer_with AnDeclarations \<circ> plainly (declaration_query (ho_platform ho) uri line character)"
| "perform_editor ho (CallTypeDefinition uri line character) =
     answer_with AnDeclarations \<circ> plainly (type_definition (ho_platform ho) uri line character)"
| "perform_editor ho (CallPrepareHierarchy uri line character) =
     answer_with AnHierarchy \<circ> plainly (prepare_call_hierarchy (ho_platform ho) uri line character)"
| "perform_editor ho (CallIncoming uri identity) =
     answer_with AnEdges \<circ> plainly (incoming_calls (ho_platform ho) uri identity)"
| "perform_editor ho (CallOutgoing uri identity) =
     answer_with AnEdges \<circ> plainly (outgoing_calls (ho_platform ho) uri identity)"
| "perform_editor ho (CallTokens uri) = answer_with AnTokens \<circ> plainly (semantic_tokens (ho_platform ho) uri)"
| "perform_editor ho (CallFolding uri) = answer_with AnFolding \<circ> plainly (folding_ranges (ho_platform ho) uri)"
| "perform_editor ho (CallRename uri line character new_name) =
     answer_with AnRename \<circ> plainly (rename (ho_platform ho) (ho_classes ho) uri line character new_name)"
| "perform_editor ho (CallFormatting uri) =
     answer_with (\<lambda>(i, r). AnFormatting i r) \<circ> may_panic (service_formatting (ho_platform ho) uri)"
| "perform_editor ho (CallRangeFormatting uri start_line end_line) =
     answer_with (\<lambda>(i, r). AnRangeFormatting i r) \<circ> may_panic (service_range_formatting ho uri start_line end_line)"
| "perform_editor ho (CallSelectionRanges uri positions) =
     answer_with AnSelection \<circ> plainly (selection_ranges (ho_platform ho) uri positions)"
| "perform_editor ho (CallInlayHints uri l c l' c') =
     answer_with AnHints \<circ> plainly (inlay_hints (ho_platform ho) uri l c l' c')"
| "perform_editor ho (CallCodeActions uri l c l' c') =
     answer_with AnActions \<circ> plainly (code_actions (ho_platform ho) uri l c l' c')"
| "perform_editor ho (CallCompletion uri line character) = answer_with AnCompletion \<circ>
     using_filter (completion (ho_platform ho) (ho_filter ho) (ho_manifest ho) uri line character)"

definition perform :: "host \<Rightarrow> client_call \<Rightarrow> host_state \<Rightarrow> ((service_error + client_answer) \<times> host_state) option" where
  "perform ho c hs =
     (case c of
        EditCall c \<Rightarrow> answer_with EditAnswer (perform_edit ho c hs)
      | OverviewCall c \<Rightarrow> answer_with OverviewAnswer (perform_overview ho c hs)
      | SubjectCall c \<Rightarrow> answer_with SubjectAnswer (perform_subject ho c hs)
      | EditorCall c \<Rightarrow> answer_with EditorAnswer (perform_editor ho c hs))"

end
