(* ===== verification/Wire.thy ===== *)
theory Wire
  imports Service_Calls Json
begin

text \<open>
  The wire form of a call (\<open>client.rs\<close>): the method and the parameters the remote client sends, and how
  \<open>dispatch\<close> reads them back. The texts of \<open>serde_json\<close>'s errors, its reading of a line and its writing of
  an answer are the arguments \<open>serde\<close>; what \<open>from_value\<close> accepts for each type is modelled.
\<close>

record rpc_request =
  rq_id :: nat
  rq_method :: string
  rq_params :: json

record rpc_response =
  rp_id :: nat
  rp_ok :: bool
  rp_result :: "json option"
  rp_error :: "string option"

record serde =
  sx_mismatch :: "string \<Rightarrow> json \<Rightarrow> string"
  sx_value :: "client_answer \<Rightarrow> string + json"
  sx_read_request :: "string \<Rightarrow> string + rpc_request"
  sx_write_request :: "rpc_request \<Rightarrow> string"
  sx_read_response :: "string \<Rightarrow> string + rpc_response"
  sx_write_response :: "rpc_response \<Rightarrow> string + string"

section \<open>What \<open>from_value\<close> accepts\<close>

fun from_text :: "serde \<Rightarrow> json \<Rightarrow> string + string" where
  "from_text sx (JString s) = Inr s"
| "from_text sx j = Inl (sx_mismatch sx ''a string'' j)"

fun from_bool :: "serde \<Rightarrow> json \<Rightarrow> string + bool" where
  "from_bool sx (JBool b) = Inr b"
| "from_bool sx j = Inl (sx_mismatch sx ''a boolean'' j)"

definition from_unsigned :: "serde \<Rightarrow> nat \<Rightarrow> json \<Rightarrow> string + nat" where
  "from_unsigned sx w j =
     (case as_u64 j of
        Some n \<Rightarrow> if n < 2 ^ w then Inr n else Inl (sx_mismatch sx ''u'' j)
      | None \<Rightarrow> Inl (sx_mismatch sx ''u'' j))"

text \<open>A negative integer is displayed with a minus sign.\<close>

fun integer_text :: "string \<Rightarrow> int option" where
  "integer_text [] = None"
| "integer_text (c # cs) =
     (if c = CHR ''-'' then (if cs = [] then None else map_option (\<lambda>n. - int n) (digits_value 0 cs))
      else map_option int (digits_value 0 (c # cs)))"

fun from_i32 :: "serde \<Rightarrow> json \<Rightarrow> string + int" where
  "from_i32 sx (JNumber s) =
     (case integer_text s of
        Some n \<Rightarrow> if - (2 ^ 31) \<le> n \<and> n < 2 ^ 31 then Inr n else Inl (sx_mismatch sx ''i32'' (JNumber s))
      | None \<Rightarrow> Inl (sx_mismatch sx ''i32'' (JNumber s)))"
| "from_i32 sx j = Inl (sx_mismatch sx ''i32'' j)"

definition from_seq :: "serde \<Rightarrow> (json \<Rightarrow> string + 'a) \<Rightarrow> json \<Rightarrow> string + 'a list" where
  "from_seq sx f j =
     (case j of JArray items \<Rightarrow> collect_results f items | _ \<Rightarrow> Inl (sx_mismatch sx ''a sequence'' j))"

fun from_option :: "(json \<Rightarrow> string + 'a) \<Rightarrow> json \<Rightarrow> string + 'a option" where
  "from_option f JNull = Inr None"
| "from_option f j = map_sum id Some (f j)"

text \<open>The members of a derived struct, by name in an object or by position in an array, where the members after
  the first \<open>required\<close> have a default.\<close>

definition struct_members :: "nat \<Rightarrow> string list \<Rightarrow> json \<Rightarrow> json option list option" where
  "struct_members required names j =
     (case j of
        JObject ms \<Rightarrow> Some (map (map_of ms) names)
      | JArray items \<Rightarrow>
          if required \<le> length items \<and> length items \<le> length names
          then Some (map Some items @ replicate (length names - length items) None) else None
      | _ \<Rightarrow> None)"

definition from_range :: "serde \<Rightarrow> json \<Rightarrow> string + text_range" where
  "from_range sx j =
     (case struct_members 4 [''start_line'', ''start_character'', ''end_line'', ''end_character''] j of
        Some [Some a, Some b, Some c, Some d] \<Rightarrow>
          bind_result (from_unsigned sx 32 a) (\<lambda>a. bind_result (from_unsigned sx 32 b) (\<lambda>b.
          bind_result (from_unsigned sx 32 c) (\<lambda>c. bind_result (from_unsigned sx 32 d) (\<lambda>d.
            Inr \<lparr>tr_start_line = a, tr_start_character = b, tr_end_line = c, tr_end_character = d\<rparr>))))
      | _ \<Rightarrow> Inl (sx_mismatch sx ''struct TextRange'' j))"

definition from_change :: "serde \<Rightarrow> json \<Rightarrow> string + text_change" where
  "from_change sx j =
     (case struct_members 2 [''range'', ''text''] j of
        Some [r, Some t] \<Rightarrow>
          bind_result (case r of None \<Rightarrow> Inr None | Some r \<Rightarrow> from_option (from_range sx) r) (\<lambda>r.
          bind_result (from_text sx t) (\<lambda>t. Inr \<lparr>tc_range = r, tc_text = t\<rparr>))
      | _ \<Rightarrow> Inl (sx_mismatch sx ''struct TextChange'' j))"

definition from_pair :: "serde \<Rightarrow> json \<Rightarrow> string + nat \<times> nat" where
  "from_pair sx j =
     (case j of
        JArray [a, b] \<Rightarrow>
          bind_result (from_unsigned sx 32 a) (\<lambda>a. bind_result (from_unsigned sx 32 b) (\<lambda>b. Inr (a, b)))
      | _ \<Rightarrow> Inl (sx_mismatch sx ''a tuple of size 2'' j))"

text \<open>The names of the symbol kinds, which serialise in snake case.\<close>

fun kind_name :: "symbol_kind \<Rightarrow> string" where
  "kind_name Module = ''module''"
| "kind_name Function = ''function''"
| "kind_name Parameter = ''parameter''"
| "kind_name Binding = ''binding''"
| "kind_name IterationState = ''iteration_state''"
| "kind_name FiniteType = ''finite_type''"
| "kind_name FiniteVariant = ''finite_variant''"
| "kind_name RecordType = ''record_type''"
| "kind_name RecordField = ''record_field''"

definition all_kinds :: "symbol_kind list" where
  "all_kinds = [Module, Function, Parameter, Binding, IterationState, FiniteType, FiniteVariant, RecordType, RecordField]"

definition kind_named :: "string \<Rightarrow> symbol_kind option" where
  "kind_named s = map_of (map (\<lambda>k. (kind_name k, k)) all_kinds) s"

definition from_kind :: "serde \<Rightarrow> json \<Rightarrow> string + symbol_kind" where
  "from_kind sx j =
     (case (case j of JString s \<Rightarrow> kind_named s | JObject [(s, JNull)] \<Rightarrow> kind_named s | _ \<Rightarrow> None) of
        Some k \<Rightarrow> Inr k
      | None \<Rightarrow> Inl (sx_mismatch sx ''enum SymbolKind'' j))"

section \<open>Parameters\<close>

definition parse_param :: "(json \<Rightarrow> string + 'a) \<Rightarrow> json \<Rightarrow> string \<Rightarrow> service_error + 'a" where
  "parse_param from ps key =
     (case json_get key ps of
        None \<Rightarrow> Inl (InvalidRequest (''missing parameter '' @ key))
      | Some j \<Rightarrow> map_sum (\<lambda>e. InvalidRequest (''invalid parameter '' @ key @ '': '' @ e)) id (from j))"

definition text_param :: "serde \<Rightarrow> json \<Rightarrow> string \<Rightarrow> service_error + string" where
  "text_param sx = parse_param (from_text sx)"

definition optional_param :: "(json \<Rightarrow> string + 'a) \<Rightarrow> json \<Rightarrow> string \<Rightarrow> service_error + 'a option" where
  "optional_param from ps key =
     (case json_get key ps of
        None \<Rightarrow> Inr None
      | Some j \<Rightarrow> map_sum (\<lambda>e. InvalidRequest (''invalid parameter '' @ key @ '': '' @ e)) Some (from j))"

definition number_param :: "serde \<Rightarrow> nat \<Rightarrow> json \<Rightarrow> string \<Rightarrow> service_error + nat" where
  "number_param sx w = parse_param (from_unsigned sx w)"

section \<open>Reading a call\<close>

text \<open>The shapes of parameter lists that many methods share.\<close>

definition with_uri :: "serde \<Rightarrow> (string \<Rightarrow> 'c) \<Rightarrow> json \<Rightarrow> service_error + 'c" where
  "with_uri sx f ps = bind_result (text_param sx ps ''uri'') (\<lambda>uri. Inr (f uri))"

definition with_position :: "serde \<Rightarrow> (string \<Rightarrow> nat \<Rightarrow> nat \<Rightarrow> 'c) \<Rightarrow> json \<Rightarrow> service_error + 'c" where
  "with_position sx f ps =
     bind_result (text_param sx ps ''uri'') (\<lambda>uri. bind_result (number_param sx 32 ps ''line'') (\<lambda>line.
     bind_result (number_param sx 32 ps ''character'') (\<lambda>character. Inr (f uri line character))))"

definition with_identity :: "serde \<Rightarrow> (string \<Rightarrow> string \<Rightarrow> 'c) \<Rightarrow> json \<Rightarrow> service_error + 'c" where
  "with_identity sx f ps =
     bind_result (text_param sx ps ''uri'') (\<lambda>uri. bind_result (text_param sx ps ''identity'') (\<lambda>identity.
       Inr (f uri identity)))"

definition with_depth :: "serde \<Rightarrow> string \<Rightarrow> (string \<Rightarrow> nat \<Rightarrow> 'c) \<Rightarrow> json \<Rightarrow> service_error + 'c" where
  "with_depth sx key f ps =
     bind_result (text_param sx ps key) (\<lambda>t. bind_result (number_param sx 64 ps ''max_depth'') (\<lambda>depth. Inr (f t depth)))"

definition with_subject :: "serde \<Rightarrow> (string \<Rightarrow> string option \<Rightarrow> 'c) \<Rightarrow> json \<Rightarrow> service_error + 'c" where
  "with_subject sx f ps =
     bind_result (text_param sx ps ''uri'') (\<lambda>uri.
     bind_result (optional_param (from_text sx) ps ''subject_identity'') (\<lambda>subject. Inr (f uri subject)))"

definition with_span :: "serde \<Rightarrow> (string \<Rightarrow> nat \<Rightarrow> nat \<Rightarrow> nat \<Rightarrow> nat \<Rightarrow> 'c) \<Rightarrow> json \<Rightarrow> service_error + 'c" where
  "with_span sx f ps =
     bind_result (text_param sx ps ''uri'') (\<lambda>uri. bind_result (number_param sx 32 ps ''start_line'') (\<lambda>l.
     bind_result (number_param sx 32 ps ''start_character'') (\<lambda>c. bind_result (number_param sx 32 ps ''end_line'') (\<lambda>l'.
     bind_result (number_param sx 32 ps ''end_character'') (\<lambda>c'. Inr (f uri l c l' c'))))))"

definition edit_methods :: "serde \<Rightarrow> (string \<times> (json \<Rightarrow> service_error + edit_call)) list" where
  "edit_methods sx =
     [(''configure_root'', \<lambda>ps. bind_result (optional_param (from_text sx) ps ''root'') (\<lambda>root. Inr (CallConfigureRoot root))),
      (''did_open'', \<lambda>ps. bind_result (text_param sx ps ''uri'') (\<lambda>uri.
         bind_result (parse_param (from_i32 sx) ps ''version'') (\<lambda>version.
         bind_result (text_param sx ps ''text'') (\<lambda>t. Inr (CallDidOpen uri version t))))),
      (''did_change_incremental'', \<lambda>ps. bind_result (text_param sx ps ''uri'') (\<lambda>uri.
         bind_result (parse_param (from_i32 sx) ps ''version'') (\<lambda>version.
         bind_result (parse_param (from_seq sx (from_change sx)) ps ''changes'') (\<lambda>changes.
           Inr (CallDidChange uri version changes))))),
      (''did_save'', \<lambda>ps. bind_result (text_param sx ps ''uri'') (\<lambda>uri.
         bind_result (optional_param (from_text sx) ps ''text'') (\<lambda>t. Inr (CallDidSave uri t)))),
      (''did_close'', with_uri sx CallDidClose),
      (''content'', with_uri sx CallContent),
      (''buffer_version'', with_uri sx CallBufferVersion),
      (''refresh_workspace'', \<lambda>ps. Inr CallRefresh)]"

definition overview_methods :: "serde \<Rightarrow> (string \<times> (json \<Rightarrow> service_error + overview_call)) list" where
  "overview_methods sx =
     (let optional = optional_param (from_text sx) in
     [(''workspace_status'', \<lambda>ps. Inr CallWorkspaceStatus),
      (''service_status'', \<lambda>ps. Inr CallServiceStatus),
      (''service_stats'', \<lambda>ps. Inr CallServiceStats),
      (''semantic_capsule'', \<lambda>ps. bind_result (optional ps ''known_stream_identity'') (\<lambda>known.
         Inr (CallCapsule known (unwrap_or 0 (get_u64 ''known_cursor'' ps))))),
      (''poll_events'', \<lambda>ps. bind_result (optional ps ''stream_identity'') (\<lambda>stream.
         bind_result (number_param sx 64 ps ''after_cursor'') (\<lambda>after.
         bind_result (number_param sx 64 ps ''max_events'') (\<lambda>max_events. Inr (CallPollEvents stream after max_events))))),
      (''language_capabilities'', \<lambda>ps. bind_result (optional ps ''topic'') (\<lambda>topic.
         bind_result (optional ps ''symbol'') (\<lambda>symbol. bind_result (optional ps ''profile'') (\<lambda>profile.
         bind_result (optional ps ''delta_from'') (\<lambda>delta_from. bind_result (optional ps ''known_identity'') (\<lambda>known.
         bind_result (number_param sx 64 ps ''max_items'') (\<lambda>max_items.
           Inr (CallLanguage topic symbol profile delta_from known max_items)))))))),
      (''family_agent_context'', \<lambda>ps. bind_result (optional ps ''repository'') (\<lambda>repository.
         bind_result (optional ps ''topic'') (\<lambda>topic. bind_result (optional ps ''symbol'') (\<lambda>symbol.
         bind_result (optional ps ''known_language_identity'') (\<lambda>language.
         bind_result (optional ps ''known_architecture_identity'') (\<lambda>architecture.
         bind_result (number_param sx 64 ps ''max_items'') (\<lambda>max_items.
           Inr (CallFamily repository topic symbol language architecture max_items))))))))])"

definition subject_methods :: "serde \<Rightarrow> (string \<times> (json \<Rightarrow> service_error + subject_call)) list" where
  "subject_methods sx =
     [(''document_diagnostics'', with_uri sx CallDiagnostics),
      (''subjects_at'', with_position sx CallSubjectsAt),
      (''debug_source_binding'', \<lambda>ps. bind_result (text_param sx ps ''uri'') (\<lambda>uri.
         bind_result (optional_param (from_text sx) ps ''identity'') (\<lambda>identity.
         bind_result (optional_param (from_unsigned sx 32) ps ''line'') (\<lambda>line.
         bind_result (optional_param (from_unsigned sx 32) ps ''character'') (\<lambda>character.
           Inr (CallDebugBinding uri identity line character)))))),
      (''describe_identity'', with_identity sx CallDescribeIdentity),
      (''describe_position'', with_position sx CallDescribePosition),
      (''definition'', with_position sx CallDefinition),
      (''references'', \<lambda>ps. bind_result (with_position sx CallReferences ps) (\<lambda>f.
         bind_result (parse_param (from_bool sx) ps ''include_declaration'') (\<lambda>declaration. Inr (f declaration)))),
      (''document_symbols'', with_uri sx CallDocumentSymbols),
      (''workspace_symbols'', \<lambda>ps. bind_result (text_param sx ps ''query'') (\<lambda>query. Inr (CallWorkspaceSymbols query))),
      (''dependencies'', with_identity sx CallDependencies),
      (''dependents'', with_identity sx CallDependents),
      (''transitive_dependents'', with_depth sx ''uri'' CallTransitiveDependents),
      (''transitive_dependencies'', with_depth sx ''uri'' CallTransitiveDependencies),
      (''transitive_callers'', with_depth sx ''identity'' CallTransitiveCallers),
      (''semantic_impact'', with_identity sx CallImpact),
      (''obligations'', with_subject sx CallObligations),
      (''native_obligations'', with_subject sx CallNativeObligations),
      (''native_kind_count'', \<lambda>ps. bind_result (text_param sx ps ''uri'') (\<lambda>uri.
         bind_result (parse_param (from_kind sx) ps ''wanted'') (\<lambda>wanted. Inr (CallKindCount uri wanted)))),
      (''context_packet'', \<lambda>ps. bind_result (with_identity sx CallContextPacket ps) (\<lambda>f.
         bind_result (number_param sx 64 ps ''max_excerpts'') (\<lambda>excerpts. Inr (f excerpts)))),
      (''analyze_candidate'', \<lambda>ps. bind_result (text_param sx ps ''uri'') (\<lambda>uri.
         bind_result (text_param sx ps ''candidate_text'') (\<lambda>t. Inr (CallCandidate uri t))))]"

definition editor_methods :: "serde \<Rightarrow> (string \<times> (json \<Rightarrow> service_error + editor_call)) list" where
  "editor_methods sx =
     [(''hover'', with_position sx CallHover),
      (''highlights'', with_position sx CallHighlights),
      (''signature_help'', with_position sx CallSignatureHelp),
      (''declaration'', with_position sx CallDeclaration),
      (''type_definition'', with_position sx CallTypeDefinition),
      (''prepare_call_hierarchy'', with_position sx CallPrepareHierarchy),
      (''incoming_calls'', with_identity sx CallIncoming),
      (''outgoing_calls'', with_identity sx CallOutgoing),
      (''semantic_tokens'', with_uri sx CallTokens),
      (''folding_ranges'', with_uri sx CallFolding),
      (''rename'', \<lambda>ps. bind_result (with_position sx CallRename ps) (\<lambda>f.
         bind_result (text_param sx ps ''new_name'') (\<lambda>new_name. Inr (f new_name)))),
      (''formatting'', with_uri sx CallFormatting),
      (''range_formatting'', \<lambda>ps. bind_result (text_param sx ps ''uri'') (\<lambda>uri.
         bind_result (number_param sx 32 ps ''start_line'') (\<lambda>l.
         bind_result (number_param sx 32 ps ''end_line'') (\<lambda>l'. Inr (CallRangeFormatting uri l l'))))),
      (''selection_ranges'', \<lambda>ps. bind_result (text_param sx ps ''uri'') (\<lambda>uri.
         bind_result (parse_param (from_seq sx (from_pair sx)) ps ''positions'') (\<lambda>positions.
           Inr (CallSelectionRanges uri positions)))),
      (''inlay_hints'', with_span sx CallInlayHints),
      (''code_actions'', with_span sx CallCodeActions),
      (''completion'', with_position sx CallCompletion)]"

text \<open>The methods of \<open>dispatch\<close> but \<open>batch\<close>.\<close>

definition decode_call :: "serde \<Rightarrow> string \<Rightarrow> json \<Rightarrow> service_error + client_call" where
  "decode_call sx method ps =
     (case map_of (edit_methods sx) method of
        Some d \<Rightarrow> map_sum id EditCall (d ps)
      | None \<Rightarrow> (case map_of (overview_methods sx) method of
        Some d \<Rightarrow> map_sum id OverviewCall (d ps)
      | None \<Rightarrow> (case map_of (subject_methods sx) method of
        Some d \<Rightarrow> map_sum id SubjectCall (d ps)
      | None \<Rightarrow> (case map_of (editor_methods sx) method of
        Some d \<Rightarrow> map_sum id EditorCall (d ps)
      | None \<Rightarrow> Inl (Unsupported (''unknown resident method '' @ method))))))"

section \<open>Writing a call\<close>

definition json_nat :: "nat \<Rightarrow> json" where "json_nat n = JNumber (show_nat n)"

definition json_int :: "int \<Rightarrow> json" where
  "json_int n = JNumber (if n < 0 then CHR ''-'' # show_nat (nat (- n)) else show_nat (nat n))"

fun json_opt :: "('a \<Rightarrow> json) \<Rightarrow> 'a option \<Rightarrow> json" where
  "json_opt f None = JNull"
| "json_opt f (Some x) = f x"

definition range_json :: "text_range \<Rightarrow> json" where
  "range_json r = JObject [(''start_line'', json_nat (tr_start_line r)), (''start_character'', json_nat (tr_start_character r)),
     (''end_line'', json_nat (tr_end_line r)), (''end_character'', json_nat (tr_end_character r))]"

definition change_json :: "text_change \<Rightarrow> json" where
  "change_json c = JObject [(''range'', json_opt range_json (tc_range c)), (''text'', JString (tc_text c))]"

definition uri_params :: "string \<Rightarrow> json" where "uri_params uri = JObject [(''uri'', JString uri)]"

definition position_params :: "string \<Rightarrow> nat \<Rightarrow> nat \<Rightarrow> json" where
  "position_params uri line character =
     JObject [(''uri'', JString uri), (''line'', json_nat line), (''character'', json_nat character)]"

definition identity_params :: "string \<Rightarrow> string \<Rightarrow> json" where
  "identity_params uri identity = JObject [(''uri'', JString uri), (''identity'', JString identity)]"

definition span_params :: "string \<Rightarrow> nat \<Rightarrow> nat \<Rightarrow> nat \<Rightarrow> nat \<Rightarrow> json" where
  "span_params uri l c l' c' =
     JObject [(''uri'', JString uri), (''start_line'', json_nat l), (''start_character'', json_nat c),
       (''end_line'', json_nat l'), (''end_character'', json_nat c')]"

definition depth_params :: "string \<Rightarrow> string \<Rightarrow> nat \<Rightarrow> json" where
  "depth_params key t depth = JObject [(key, JString t), (''max_depth'', json_nat depth)]"

definition subject_params :: "string \<Rightarrow> string option \<Rightarrow> json" where
  "subject_params uri subject = JObject [(''uri'', JString uri), (''subject_identity'', json_opt JString subject)]"

fun edit_request :: "edit_call \<Rightarrow> string \<times> json" where
  "edit_request (CallConfigureRoot root) = (''configure_root'', JObject [(''root'', json_opt JString root)])"
| "edit_request (CallDidOpen uri version t) =
     (''did_open'', JObject [(''uri'', JString uri), (''version'', json_int version), (''text'', JString t)])"
| "edit_request (CallDidChange uri version changes) =
     (''did_change_incremental'',
      JObject [(''uri'', JString uri), (''version'', json_int version), (''changes'', JArray (map change_json changes))])"
| "edit_request (CallDidSave uri t) = (''did_save'', JObject [(''uri'', JString uri), (''text'', json_opt JString t)])"
| "edit_request (CallDidClose uri) = (''did_close'', uri_params uri)"
| "edit_request (CallContent uri) = (''content'', uri_params uri)"
| "edit_request (CallBufferVersion uri) = (''buffer_version'', uri_params uri)"
| "edit_request CallRefresh = (''refresh_workspace'', JObject [])"

text \<open>The trait polls without a stream identity, so the client never sends one.\<close>

fun overview_request :: "overview_call \<Rightarrow> string \<times> json" where
  "overview_request CallWorkspaceStatus = (''workspace_status'', JObject [])"
| "overview_request CallServiceStatus = (''service_status'', JObject [])"
| "overview_request CallServiceStats = (''service_stats'', JObject [])"
| "overview_request (CallCapsule known after) =
     (''semantic_capsule'', JObject [(''known_stream_identity'', json_opt JString known), (''known_cursor'', json_nat after)])"
| "overview_request (CallPollEvents stream after max_events) =
     (''poll_events'', JObject [(''after_cursor'', json_nat after), (''max_events'', json_nat max_events)])"
| "overview_request (CallLanguage topic symbol profile delta_from known max_items) =
     (''language_capabilities'',
      JObject [(''topic'', json_opt JString topic), (''symbol'', json_opt JString symbol), (''profile'', json_opt JString profile),
        (''delta_from'', json_opt JString delta_from), (''known_identity'', json_opt JString known),
        (''max_items'', json_nat max_items)])"
| "overview_request (CallFamily repository topic symbol language architecture max_items) =
     (''family_agent_context'',
      JObject [(''repository'', json_opt JString repository), (''topic'', json_opt JString topic),
        (''symbol'', json_opt JString symbol), (''known_language_identity'', json_opt JString language),
        (''known_architecture_identity'', json_opt JString architecture), (''max_items'', json_nat max_items)])"

fun subject_request :: "subject_call \<Rightarrow> string \<times> json" where
  "subject_request (CallDiagnostics uri) = (''document_diagnostics'', uri_params uri)"
| "subject_request (CallSubjectsAt uri line character) = (''subjects_at'', position_params uri line character)"
| "subject_request (CallDebugBinding uri identity line character) =
     (''debug_source_binding'',
      JObject [(''uri'', JString uri), (''identity'', json_opt JString identity), (''line'', json_opt json_nat line),
        (''character'', json_opt json_nat character)])"
| "subject_request (CallDescribeIdentity uri identity) = (''describe_identity'', identity_params uri identity)"
| "subject_request (CallDescribePosition uri line character) = (''describe_position'', position_params uri line character)"
| "subject_request (CallDefinition uri line character) = (''definition'', position_params uri line character)"
| "subject_request (CallReferences uri line character declaration) =
     (''references'', JObject [(''uri'', JString uri), (''line'', json_nat line), (''character'', json_nat character),
        (''include_declaration'', JBool declaration)])"
| "subject_request (CallDocumentSymbols uri) = (''document_symbols'', uri_params uri)"
| "subject_request (CallWorkspaceSymbols query) = (''workspace_symbols'', JObject [(''query'', JString query)])"
| "subject_request (CallDependencies uri identity) = (''dependencies'', identity_params uri identity)"
| "subject_request (CallDependents uri identity) = (''dependents'', identity_params uri identity)"
| "subject_request (CallTransitiveDependents uri depth) = (''transitive_dependents'', depth_params ''uri'' uri depth)"
| "subject_request (CallTransitiveDependencies uri depth) = (''transitive_dependencies'', depth_params ''uri'' uri depth)"
| "subject_request (CallTransitiveCallers identity depth) = (''transitive_callers'', depth_params ''identity'' identity depth)"
| "subject_request (CallImpact uri identity) = (''semantic_impact'', identity_params uri identity)"
| "subject_request (CallObligations uri subject) = (''obligations'', subject_params uri subject)"
| "subject_request (CallNativeObligations uri subject) = (''native_obligations'', subject_params uri subject)"
| "subject_request (CallKindCount uri wanted) =
     (''native_kind_count'', JObject [(''uri'', JString uri), (''wanted'', JString (kind_name wanted))])"
| "subject_request (CallContextPacket uri identity excerpts) =
     (''context_packet'',
      JObject [(''uri'', JString uri), (''identity'', JString identity), (''max_excerpts'', json_nat excerpts)])"
| "subject_request (CallCandidate uri t) =
     (''analyze_candidate'', JObject [(''uri'', JString uri), (''candidate_text'', JString t)])"

fun editor_request :: "editor_call \<Rightarrow> string \<times> json" where
  "editor_request (CallHover uri line character) = (''hover'', position_params uri line character)"
| "editor_request (CallHighlights uri line character) = (''highlights'', position_params uri line character)"
| "editor_request (CallSignatureHelp uri line character) = (''signature_help'', position_params uri line character)"
| "editor_request (CallDeclaration uri line character) = (''declaration'', position_params uri line character)"
| "editor_request (CallTypeDefinition uri line character) = (''type_definition'', position_params uri line character)"
| "editor_request (CallPrepareHierarchy uri line character) = (''prepare_call_hierarchy'', position_params uri line character)"
| "editor_request (CallIncoming uri identity) = (''incoming_calls'', identity_params uri identity)"
| "editor_request (CallOutgoing uri identity) = (''outgoing_calls'', identity_params uri identity)"
| "editor_request (CallTokens uri) = (''semantic_tokens'', uri_params uri)"
| "editor_request (CallFolding uri) = (''folding_ranges'', uri_params uri)"
| "editor_request (CallRename uri line character new_name) =
     (''rename'', JObject [(''uri'', JString uri), (''line'', json_nat line), (''character'', json_nat character),
        (''new_name'', JString new_name)])"
| "editor_request (CallFormatting uri) = (''formatting'', uri_params uri)"
| "editor_request (CallRangeFormatting uri l l') =
     (''range_formatting'', JObject [(''uri'', JString uri), (''start_line'', json_nat l), (''end_line'', json_nat l')])"
| "editor_request (CallSelectionRanges uri positions) =
     (''selection_ranges'', JObject [(''uri'', JString uri),
        (''positions'', JArray (map (\<lambda>(l, c). JArray [json_nat l, json_nat c]) positions))])"
| "editor_request (CallInlayHints uri l c l' c') = (''inlay_hints'', span_params uri l c l' c')"
| "editor_request (CallCodeActions uri l c l' c') = (''code_actions'', span_params uri l c l' c')"
| "editor_request (CallCompletion uri line character) = (''completion'', position_params uri line character)"

fun remote_request :: "client_call \<Rightarrow> string \<times> json" where
  "remote_request (EditCall c) = edit_request c"
| "remote_request (OverviewCall c) = overview_request c"
| "remote_request (SubjectCall c) = subject_request c"
| "remote_request (EditorCall c) = editor_request c"

end
