(* ===== verification/Wire_Props.thy ===== *)
theory Wire_Props
  imports Wire
begin

text \<open>What the remote client writes, \<open>dispatch\<close> reads back.\<close>

section \<open>Numbers\<close>

lemma digit_value_char: "d < 10 \<Longrightarrow> digit_value (char_of (48 + d)) = Some d"
  by (simp add: digit_value_def byte_of_def)

lemma digits_value_append:
  "digits_value n (xs @ ys) = Option.bind (digits_value n xs) (\<lambda>m. digits_value m ys)"
  by (induction xs arbitrary: n) (simp_all split: bind_splits)

lemma digits_value_show: "digits_value 0 (show_nat n) = Some n"
proof (induction n rule: show_nat.induct)
  case (1 n)
  show ?case
  proof (cases "n < 10")
    case True
    then show ?thesis by (simp add: show_nat.simps [of n] digit_value_char)
  next
    case False
    then have "digits_value 0 (show_nat (n div 10)) = Some (n div 10)" using 1 by simp
    moreover have "10 * (n div 10) + n mod 10 = n" by simp
    ultimately show ?thesis using False
      by (simp add: show_nat.simps [of n] digits_value_append digit_value_char [of "n mod 10"])
  qed
qed

lemma show_nat_not_empty [simp]: "show_nat n \<noteq> []"
  by (subst show_nat.simps) simp

lemma show_nat_head: "hd (show_nat n) \<noteq> CHR ''-''"
proof (induction n rule: show_nat.induct)
  case (1 n)
  have "char_of (48 + n) \<noteq> CHR ''-''" if "n < 10"
  proof
    assume "char_of (48 + n) = CHR ''-''"
    then have "of_char (char_of (48 + n)) = (of_char (CHR ''-'') :: nat)" by simp
    then show False using that by simp
  qed
  then show ?case using 1 by (subst show_nat.simps) (simp add: hd_append)
qed

lemma as_u64_nat: "n < 2 ^ 64 \<Longrightarrow> as_u64 (json_nat n) = Some n"
  by (simp add: json_nat_def digits_value_show)

lemma unsigned_nat:
  assumes "n < 2 ^ w" "w \<le> 64"
  shows "from_unsigned sx w (json_nat n) = Inr n"
proof -
  have "(2::nat) ^ w \<le> 2 ^ 64" using assms(2) by (intro power_increasing) auto
  then have "n < 2 ^ 64" using assms(1) by (rule less_le_trans [rotated])
  then show ?thesis using assms(1) by (simp add: from_unsigned_def as_u64_nat)
qed

lemmas unsigned_64 = unsigned_nat [of _ 64, simplified]
lemmas unsigned_32 = unsigned_nat [of _ 32, simplified]

lemma integer_text_nat: "integer_text (show_nat n) = Some (int n)"
  using show_nat_head [of n] digits_value_show [of n] by (cases "show_nat n") auto

lemma i32_int:
  assumes "- (2 ^ 31) \<le> v" "v < 2 ^ 31"
  shows "from_i32 sx (json_int v) = Inr v"
proof (cases "v < 0")
  case True
  then have "integer_text (CHR ''-'' # show_nat (nat (- v))) = Some v" by (simp add: digits_value_show)
  then show ?thesis using True assms by (simp add: json_int_def del: integer_text.simps)
next
  case False
  then have "integer_text (show_nat (nat v)) = Some v" by (simp add: integer_text_nat)
  then show ?thesis using False assms by (simp add: json_int_def)
qed

section \<open>Values\<close>

lemma from_seq_inverse:
  "(\<And>x. x \<in> set xs \<Longrightarrow> f (g x) = Inr x) \<Longrightarrow> from_seq sx f (JArray (map g xs)) = Inr xs"
proof -
  assume "\<And>x. x \<in> set xs \<Longrightarrow> f (g x) = Inr x"
  then have "collect_results f (map g xs) = Inr xs" by (induction xs) auto
  then show ?thesis by (simp add: from_seq_def)
qed

text \<open>The numbers of a call are machine integers.\<close>

definition small :: "nat \<Rightarrow> bool" where "small n \<longleftrightarrow> n < 2 ^ 32"

definition wide :: "nat \<Rightarrow> bool" where "wide n \<longleftrightarrow> n < 2 ^ 64"

definition signed_small :: "int \<Rightarrow> bool" where "signed_small v \<longleftrightarrow> - (2 ^ 31) \<le> v \<and> v < 2 ^ 31"

definition change_fits :: "text_change \<Rightarrow> bool" where
  "change_fits c \<longleftrightarrow>
     (case tc_range c of
        None \<Rightarrow> True
      | Some r \<Rightarrow> small (tr_start_line r) \<and> small (tr_start_character r) \<and> small (tr_end_line r) \<and> small (tr_end_character r))"

lemma small_read: "small n \<Longrightarrow> from_unsigned sx 32 (json_nat n) = Inr n"
  by (rule unsigned_nat) (simp_all add: small_def)

lemma wide_read: "wide n \<Longrightarrow> from_unsigned sx 64 (json_nat n) = Inr n"
  by (rule unsigned_nat) (simp_all add: wide_def)

lemma wide_as: "wide n \<Longrightarrow> as_u64 (json_nat n) = Some n"
  by (rule as_u64_nat) (simp add: wide_def)

lemma signed_read: "signed_small v \<Longrightarrow> from_i32 sx (json_int v) = Inr v"
  by (rule i32_int) (simp_all add: signed_small_def)

lemma from_range_read:
  assumes "small (tr_start_line r)" "small (tr_start_character r)" "small (tr_end_line r)" "small (tr_end_character r)"
  shows "from_range sx (range_json r) = Inr r"
  using assms by (simp add: from_range_def range_json_def struct_members_def small_read)

lemma option_range_read:
  assumes "from_range sx (range_json r) = Inr r"
  shows "from_option (from_range sx) (range_json r) = Inr (Some r)"
  using assms by (simp add: range_json_def)

lemma from_change_read: "change_fits c \<Longrightarrow> from_change sx (change_json c) = Inr c"
  by (cases "tc_range c")
    (simp_all add: from_change_def change_json_def struct_members_def change_fits_def option_range_read from_range_read)

lemma kind_named_name: "kind_named (kind_name k) = Some k"
  by (cases k) (simp_all add: kind_named_def all_kinds_def)

lemma from_kind_read: "from_kind sx (JString (kind_name k)) = Inr k"
  by (simp add: from_kind_def kind_named_name)

lemma from_pair_read: "small a \<Longrightarrow> small b \<Longrightarrow> from_pair sx (JArray [json_nat a, json_nat b]) = Inr (a, b)"
  by (simp add: from_pair_def small_read)

section \<open>Parameters\<close>

lemmas param_defs = json_get_def parse_param_def text_param_def optional_param_def number_param_def get_u64_def

lemma text_null: "from_text sx JNull = Inl (sx_mismatch sx ''a string'' JNull)" by simp

lemma unsigned_null: "from_unsigned sx w JNull = Inl (sx_mismatch sx ''u'' JNull)"
  by (simp add: from_unsigned_def)

section \<open>Calls\<close>

text \<open>The integers of a call have the width of their types, and a poll names no stream, as in the trait.\<close>

fun edit_fits :: "edit_call \<Rightarrow> bool" where
  "edit_fits (CallDidOpen uri version t) = signed_small version"
| "edit_fits (CallDidChange uri version changes) = (signed_small version \<and> list_all change_fits changes)"
| "edit_fits _ = True"

fun overview_fits :: "overview_call \<Rightarrow> bool" where
  "overview_fits (CallCapsule known after) = wide after"
| "overview_fits (CallPollEvents stream after max_events) = (stream = None \<and> wide after \<and> wide max_events)"
| "overview_fits (CallLanguage topic symbol profile delta_from known max_items) = wide max_items"
| "overview_fits (CallFamily repository topic symbol language architecture max_items) = wide max_items"
| "overview_fits _ = True"

fun subject_fits :: "subject_call \<Rightarrow> bool" where
  "subject_fits (CallSubjectsAt uri line character) = (small line \<and> small character)"
| "subject_fits (CallDebugBinding uri identity line character) =
     (pred_option small line \<and> pred_option small character)"
| "subject_fits (CallDescribePosition uri line character) = (small line \<and> small character)"
| "subject_fits (CallDefinition uri line character) = (small line \<and> small character)"
| "subject_fits (CallReferences uri line character declaration) = (small line \<and> small character)"
| "subject_fits (CallTransitiveDependents uri depth) = wide depth"
| "subject_fits (CallTransitiveDependencies uri depth) = wide depth"
| "subject_fits (CallTransitiveCallers uri depth) = wide depth"
| "subject_fits (CallContextPacket uri identity excerpts) = wide excerpts"
| "subject_fits _ = True"

fun editor_fits :: "editor_call \<Rightarrow> bool" where
  "editor_fits (CallHover uri line character) = (small line \<and> small character)"
| "editor_fits (CallHighlights uri line character) = (small line \<and> small character)"
| "editor_fits (CallSignatureHelp uri line character) = (small line \<and> small character)"
| "editor_fits (CallDeclaration uri line character) = (small line \<and> small character)"
| "editor_fits (CallTypeDefinition uri line character) = (small line \<and> small character)"
| "editor_fits (CallPrepareHierarchy uri line character) = (small line \<and> small character)"
| "editor_fits (CallRename uri line character new_name) = (small line \<and> small character)"
| "editor_fits (CallRangeFormatting uri l l') = (small l \<and> small l')"
| "editor_fits (CallSelectionRanges uri positions) = list_all (\<lambda>(l, c). small l \<and> small c) positions"
| "editor_fits (CallInlayHints uri l c l' c') = (small l \<and> small c \<and> small l' \<and> small c')"
| "editor_fits (CallCodeActions uri l c l' c') = (small l \<and> small c \<and> small l' \<and> small c')"
| "editor_fits (CallCompletion uri line character) = (small line \<and> small character)"
| "editor_fits _ = True"

fun call_fits :: "client_call \<Rightarrow> bool" where
  "call_fits (EditCall c) = edit_fits c"
| "call_fits (OverviewCall c) = overview_fits c"
| "call_fits (SubjectCall c) = subject_fits c"
| "call_fits (EditorCall c) = editor_fits c"

text \<open>A call one of whose optional arguments is absent.\<close>

fun argument_absent :: "client_call \<Rightarrow> bool" where
  "argument_absent (EditCall (CallConfigureRoot root)) = (root = None)"
| "argument_absent (EditCall (CallDidSave uri t)) = (t = None)"
| "argument_absent (OverviewCall (CallCapsule known after)) = (known = None)"
| "argument_absent (OverviewCall (CallLanguage topic symbol profile delta_from known max_items)) =
     (None \<in> {topic, symbol, profile, delta_from, known})"
| "argument_absent (OverviewCall (CallFamily repository topic symbol language architecture max_items)) =
     (None \<in> {repository, topic, symbol, language, architecture})"
| "argument_absent (SubjectCall (CallDebugBinding uri identity line character)) =
     (identity = None \<or> line = None \<or> character = None)"
| "argument_absent (SubjectCall (CallObligations uri subject)) = (subject = None)"
| "argument_absent (SubjectCall (CallNativeObligations uri subject)) = (subject = None)"
| "argument_absent _ = False"

lemma optional_text_opt:
  "optional_param (from_text sx) (JObject ms) key =
     (case map_of ms key of None \<Rightarrow> Inr None
      | Some j \<Rightarrow> map_sum (\<lambda>e. InvalidRequest (''invalid parameter '' @ key @ '': '' @ e)) Some (from_text sx j))"
  by (simp add: param_defs)


text \<open>What each of the shared shapes reads.\<close>

lemma read_uri: "with_uri sx f (uri_params uri) = Inr (f uri)"
  by (simp add: with_uri_def uri_params_def param_defs)

lemma read_position:
  assumes "map_of ms ''uri'' = Some (JString uri)" "map_of ms ''line'' = Some (json_nat l)"
    "map_of ms ''character'' = Some (json_nat c)" "small l \<and> small c"
  shows "with_position sx f (JObject ms) = Inr (f uri l c)"
  using assms by (simp add: with_position_def param_defs small_read)

lemma read_identity:
  assumes "map_of ms ''uri'' = Some (JString uri)" "map_of ms ''identity'' = Some (JString i)"
  shows "with_identity sx f (JObject ms) = Inr (f uri i)"
  using assms by (simp add: with_identity_def param_defs)

lemma read_span:
  "small l \<Longrightarrow> small c \<Longrightarrow> small l' \<Longrightarrow> small c' \<Longrightarrow> with_span sx f (span_params uri l c l' c') = Inr (f uri l c l' c')"
  by (simp add: with_span_def span_params_def param_defs small_read)

lemma read_depth: "wide d \<Longrightarrow> with_depth sx key f (depth_params key t d) = Inr (f t d)" if "key \<noteq> ''max_depth''"
  using that by (simp add: with_depth_def depth_params_def param_defs wide_read)

lemma read_subject:
  "with_subject sx f (subject_params uri subject) =
     (case subject of
        None \<Rightarrow> Inl (InvalidRequest (''invalid parameter subject_identity: '' @ sx_mismatch sx ''a string'' JNull))
      | Some s \<Rightarrow> Inr (f uri (Some s)))"
  by (cases subject) (simp_all add: with_subject_def subject_params_def param_defs)

lemmas read_shapes = read_uri read_position read_identity read_span read_depth read_subject

lemma changes_read: "list_all change_fits cs \<Longrightarrow> from_seq sx (from_change sx) (JArray (map change_json cs)) = Inr cs"
  by (rule from_seq_inverse) (auto simp: list_all_iff from_change_read)

lemma positions_read:
  "list_all (\<lambda>(l, c). small l \<and> small c) ps \<Longrightarrow>
     from_seq sx (from_pair sx) (JArray (map (\<lambda>(l, c). JArray [json_nat l, json_nat c]) ps)) = Inr ps"
  by (rule from_seq_inverse) (auto simp: list_all_iff from_pair_read)

text \<open>A call is read back, unless an optional argument is absent: the client sends \<open>null\<close> for it.\<close>

definition reads_back :: "serde \<Rightarrow> client_call \<Rightarrow> bool" where
  "reads_back sx c \<longleftrightarrow>
     (case decode_call sx (fst (remote_request c)) (snd (remote_request c)) of
        Inl e \<Rightarrow> argument_absent c \<and> (\<exists>reason. e = InvalidRequest reason)
      | Inr c' \<Rightarrow> \<not> argument_absent c \<and> c' = c)"

lemma text_opt_read:
  "from_text sx (json_opt JString x) = (case x of None \<Rightarrow> Inl (sx_mismatch sx ''a string'' JNull) | Some t \<Rightarrow> Inr t)"
  by (cases x) simp_all

text \<open>The tables of the groups before one do not hold its methods.\<close>

lemma edit_names:
  "m \<notin> {''configure_root'', ''did_open'', ''did_change_incremental'', ''did_save'', ''did_close'', ''content'', 
    ''buffer_version'', ''refresh_workspace''} \<Longrightarrow> map_of (edit_methods sx) m = None"
  by (simp add: edit_methods_def Let_def)

lemma overview_names:
  "m \<notin> {''workspace_status'', ''service_status'', ''service_stats'', ''semantic_capsule'', ''poll_events'', ''language_capabilities'', 
    ''family_agent_context''} \<Longrightarrow> map_of (overview_methods sx) m = None"
  by (simp add: overview_methods_def Let_def)

lemma subject_names:
  "m \<notin> {''document_diagnostics'', ''subjects_at'', ''debug_source_binding'', ''describe_identity'', ''describe_position'', ''definition'', 
    ''references'', ''document_symbols'', ''workspace_symbols'', ''dependencies'', ''dependents'', ''transitive_dependents'', 
    ''transitive_dependencies'', ''transitive_callers'', ''semantic_impact'', ''obligations'', ''native_obligations'', ''native_kind_count'', 
    ''context_packet'', ''analyze_candidate''} \<Longrightarrow> map_of (subject_methods sx) m = None"
  by (simp add: subject_methods_def Let_def)

text \<open>Looking a method up, before its parameters are read.\<close>

lemmas lookup_edit = reads_back_def decode_call_def edit_methods_def
lemmas lookup_overview = reads_back_def decode_call_def edit_names overview_methods_def Let_def
lemmas lookup_subject = reads_back_def decode_call_def edit_names overview_names subject_methods_def
lemmas lookup_editor = reads_back_def decode_call_def edit_names overview_names subject_names editor_methods_def

lemma edit_reads: "edit_fits c \<Longrightarrow> reads_back sx (EditCall c)"
  by (cases c; simp add: lookup_edit; auto simp: read_shapes param_defs signed_read changes_read text_opt_read
      split: option.split)

lemma overview_reads: "overview_fits c \<Longrightarrow> reads_back sx (OverviewCall c)"
  by (cases c; simp add: lookup_overview; auto simp: param_defs wide_read wide_as text_opt_read split: option.split)

lemma subject_reads: "subject_fits c \<Longrightarrow> reads_back sx (SubjectCall c)"
proof (cases c)
  case (CallDebugBinding uri identity line character)
  then show "subject_fits c \<Longrightarrow> ?thesis"
    by (simp add: lookup_subject)
      (cases identity; cases line; cases character; simp add: param_defs small_read unsigned_null)
qed (simp add: lookup_subject;
    auto simp: read_shapes param_defs small_read wide_read from_kind_read position_params_def identity_params_def
      split: option.split)+

lemma editor_reads: "editor_fits c \<Longrightarrow> reads_back sx (EditorCall c)"
  by (cases c; simp add: lookup_editor;
      simp add: read_shapes param_defs small_read positions_read position_params_def identity_params_def)

text \<open>C11: What the remote client writes for a call is read back by the resident host as that very call, for every
  operation of the client interface and every value of its arguments, except that a call with an absent optional
  argument is refused as an invalid request: the client writes null for it, and the host reads the argument's
  type, not an option of it.\<close>

theorem remote_call_decodes:
  assumes "call_fits c"
  shows "case decode_call sx (fst (remote_request c)) (snd (remote_request c)) of
      Inr c' \<Rightarrow> \<not> argument_absent c \<and> c' = c
    | Inl e \<Rightarrow> argument_absent c \<and> (\<exists>reason. e = InvalidRequest reason)"
  using assms edit_reads overview_reads subject_reads editor_reads unfolding reads_back_def [symmetric]
  by (cases c) auto

text \<open>A strict reader: every mismatch is a text, and no answer is written.\<close>

definition strict_serde :: serde where
  "strict_serde = \<lparr>sx_mismatch = (\<lambda>expected j. expected), sx_value = (\<lambda>a. Inl ''value''),
     sx_read_request = (\<lambda>t. Inl ''request''), sx_write_request = (\<lambda>q. ''q''),
     sx_read_response = (\<lambda>t. Inl ''response''), sx_write_response = (\<lambda>r. Inl ''response'')\<rparr>"

theorem remote_call_decodes_witness:
  "case decode_call strict_serde (fst (remote_request (SubjectCall (CallDefinition ''u'' 3 7))))
       (snd (remote_request (SubjectCall (CallDefinition ''u'' 3 7)))) of
      Inr c' \<Rightarrow> \<not> argument_absent (SubjectCall (CallDefinition ''u'' 3 7)) \<and> c' = SubjectCall (CallDefinition ''u'' 3 7)
    | Inl e \<Rightarrow> argument_absent (SubjectCall (CallDefinition ''u'' 3 7)) \<and> (\<exists>reason. e = InvalidRequest reason)"
  by (rule remote_call_decodes) (simp add: small_def)

end
