(* ===== verification/Rpc.thy ===== *)
theory Rpc
  imports Wire
begin

text \<open>
  The resident host and its remote client (\<open>client.rs\<close>): dispatch with batches, the loop over the request
  lines of a connection, and the client's call with its single reconnect.
\<close>

section \<open>Dispatch\<close>

record batch_call =
  bc_id :: nat
  bc_method :: string
  bc_params :: json

record batch_result =
  br_id :: nat
  br_ok :: bool
  br_result :: "json option"
  br_error :: "string option"

definition max_batch_calls :: nat where "max_batch_calls = 256"

definition max_request_line :: nat where "max_request_line = 64 * 1024 * 1024"

text \<open>The parameters of a batch item have a default.\<close>

definition from_batch_call :: "serde \<Rightarrow> json \<Rightarrow> string + batch_call" where
  "from_batch_call sx j =
     (case struct_members 2 [''id'', ''method'', ''params''] j of
        Some [Some i, Some m, ps] \<Rightarrow>
          bind_result (from_unsigned sx 64 i) (\<lambda>i. bind_result (from_text sx m) (\<lambda>m.
            Inr \<lparr>bc_id = i, bc_method = m, bc_params = (case ps of None \<Rightarrow> JNull | Some ps \<Rightarrow> ps)\<rparr>))
      | _ \<Rightarrow> Inl (sx_mismatch sx ''struct BatchCall'' j))"

definition batch_result_json :: "batch_result \<Rightarrow> json" where
  "batch_result_json r =
     JObject [(''id'', json_nat (br_id r)), (''ok'', JBool (br_ok r)), (''result'', json_opt id (br_result r)),
       (''error'', json_opt JString (br_error r))]"

text \<open>The methods but \<open>batch\<close>.\<close>

definition dispatch_call ::
  "host \<Rightarrow> serde \<Rightarrow> string \<Rightarrow> json \<Rightarrow> host_state \<Rightarrow> ((service_error + json) \<times> host_state) option" where
  "dispatch_call ho sx method ps hs =
     (case decode_call sx method ps of
        Inl e \<Rightarrow> Some (Inl e, hs)
      | Inr c \<Rightarrow>
          map_option (\<lambda>(r, hs). (bind_result r (\<lambda>a. map_sum InvalidRequest id (sx_value sx a)), hs)) (perform ho c hs))"

definition item_result :: "nat \<Rightarrow> service_error + json \<Rightarrow> batch_result" where
  "item_result i r =
     (case r of
        Inr v \<Rightarrow> \<lparr>br_id = i, br_ok = True, br_result = Some v, br_error = None\<rparr>
      | Inl e \<Rightarrow> \<lparr>br_id = i, br_ok = False, br_result = None, br_error = Some (service_error_display e)\<rparr>)"

definition nested_refusal :: "nat \<Rightarrow> batch_result" where
  "nested_refusal i =
     \<lparr>br_id = i, br_ok = False, br_result = None, br_error = Some ''nested batch calls are not supported''\<rparr>"

fun run_batch ::
  "host \<Rightarrow> serde \<Rightarrow> batch_call list \<Rightarrow> host_state \<Rightarrow> (batch_result list \<times> host_state) option" where
  "run_batch ho sx [] hs = Some ([], hs)"
| "run_batch ho sx (c # cs) hs =
     (if bc_method c = ''batch''
      then map_option (\<lambda>(rs, hs). (nested_refusal (bc_id c) # rs, hs)) (run_batch ho sx cs hs)
      else Option.bind (dispatch_call ho sx (bc_method c) (bc_params c) hs) (\<lambda>(r, hs).
             map_option (\<lambda>(rs, hs). (item_result (bc_id c) r # rs, hs)) (run_batch ho sx cs hs)))"

definition dispatch ::
  "host \<Rightarrow> serde \<Rightarrow> string \<Rightarrow> json \<Rightarrow> host_state \<Rightarrow> ((service_error + json) \<times> host_state) option" where
  "dispatch ho sx method ps hs =
     (if method = ''batch'' then
        (case parse_param (from_seq sx (from_batch_call sx)) ps ''calls'' of
           Inl e \<Rightarrow> Some (Inl e, hs)
         | Inr calls \<Rightarrow>
             if length calls > max_batch_calls
             then Some (Inl (InvalidRequest (''batch of '' @ show_nat (length calls) @ '' calls exceeds the limit of '' @
                    show_nat max_batch_calls)), hs)
             else map_option (\<lambda>(rs, hs). (Inr (JArray (map batch_result_json rs)), hs)) (run_batch ho sx calls hs))
      else dispatch_call ho sx method ps hs)"

section \<open>A connection\<close>

text \<open>\<open>String::from_utf8_lossy\<close>: whether a character starts here, and how many bytes it or the longest prefix of
  one takes; a broken prefix becomes the replacement character.\<close>

definition in_range :: "nat \<Rightarrow> nat \<Rightarrow> string \<Rightarrow> nat \<Rightarrow> bool" where
  "in_range low high s i \<longleftrightarrow> i < length s \<and> low \<le> byte_of (s ! i) \<and> byte_of (s ! i) \<le> high"

definition utf8_step :: "string \<Rightarrow> bool \<times> nat" where
  "utf8_step s =
     (let b = byte_of (hd s);
          second = (if b = 0xE0 then in_range 0xA0 0xBF s 1 else if b = 0xED then in_range 0x80 0x9F s 1
                    else if b = 0xF0 then in_range 0x90 0xBF s 1 else if b = 0xF4 then in_range 0x80 0x8F s 1
                    else in_range 0x80 0xBF s 1)
      in if b < 0x80 then (True, 1)
         else if b < 0xC2 \<or> 0xF4 < b \<or> \<not> second then (False, 1)
         else if b < 0xE0 then (True, 2)
         else if \<not> in_range 0x80 0xBF s 2 then (False, 2)
         else if b < 0xF0 then (True, 3)
         else if \<not> in_range 0x80 0xBF s 3 then (False, 3)
         else (True, 4))"

definition replacement_character :: string where
  "replacement_character = [CHR 0xEF, CHR 0xBF, CHR 0xBD]"

function lossy_text :: "string \<Rightarrow> string" where
  "lossy_text s =
     (if s = [] then []
      else case utf8_step s of
             (valid, n) \<Rightarrow> (if valid then take n s else replacement_character) @ lossy_text (drop n s))"
  by pat_completeness auto
termination
  by (relation "measure length") (auto simp: utf8_step_def Let_def split: if_splits)

declare lossy_text.simps [simp del]

text \<open>One line: at most one byte more than the limit is read, up to and with the line break.\<close>

definition read_request_line :: "string \<Rightarrow> string" where
  "read_request_line input =
     (let window = take (max_request_line + 1) input;
          before = takeWhile (\<lambda>c. c \<noteq> CHR 0x0A) window
      in take (length before + 1) window)"

text \<open>The reply to one line that is not blank.\<close>

definition reply_of :: "nat \<Rightarrow> service_error + json \<Rightarrow> rpc_response" where
  "reply_of i r =
     (case r of
        Inr v \<Rightarrow> \<lparr>rp_id = i, rp_ok = True, rp_result = Some v, rp_error = None\<rparr>
      | Inl e \<Rightarrow> \<lparr>rp_id = i, rp_ok = False, rp_result = None, rp_error = Some (service_error_display e)\<rparr>)"

definition reply_line :: "serde \<Rightarrow> rpc_response \<Rightarrow> string" where
  "reply_line sx r =
     (case sx_write_response sx r of
        Inr t \<Rightarrow> t
      | Inl e \<Rightarrow> ''{\"id\":0,\"ok\":false,\"error\":\"response encoding failed\"}'') @ [CHR 0x0A]"

definition handle_line :: "host \<Rightarrow> serde \<Rightarrow> string \<Rightarrow> host_state \<Rightarrow> (rpc_response \<times> host_state) option" where
  "handle_line ho sx line hs =
     (case sx_read_request sx line of
        Inl e \<Rightarrow> Some (reply_of 0 (Inl (InvalidRequest e)), hs)
      | Inr q \<Rightarrow> map_option (\<lambda>(r, hs). (reply_of (rq_id q) r, hs)) (dispatch ho sx (rq_method q) (rq_params q) hs))"

text \<open>The loop over all bytes a client sends: the lines written back and the state at the end, none when the
  handler panicked. The client accepts every line.\<close>

function serve_connection ::
  "host \<Rightarrow> serde \<Rightarrow> string \<Rightarrow> host_state \<Rightarrow> string list \<times> host_state option" where
  "serve_connection ho sx input hs =
     (let raw = read_request_line input
      in if raw = [] \<or> length raw > max_request_line then ([], Some hs)
         else let line = lossy_text raw; rest = drop (length raw) input
              in if trim line = [] then serve_connection ho sx rest hs
                 else (case handle_line ho sx line hs of
                         None \<Rightarrow> ([], None)
                       | Some (r, hs) \<Rightarrow>
                           (case serve_connection ho sx rest hs of (rs, hs) \<Rightarrow> (reply_line sx r # rs, hs))))"
  by pat_completeness auto
termination
proof (relation "measure (length \<circ> fst \<circ> snd \<circ> snd)", goal_cases)
  case (2 ho sx input hs)
  then have "input \<noteq> []" by (auto simp: read_request_line_def Let_def)
  then show ?case using 2 by (simp add: Let_def)
next
  case (3 ho sx input hs)
  then have "input \<noteq> []" by (auto simp: read_request_line_def Let_def)
  then show ?case using 3 by (simp add: Let_def)
qed simp

declare serve_connection.simps [simp del]

section \<open>The remote client\<close>

text \<open>The network under a client: connecting, and writing a line on the connection and reading one back.\<close>

record 'w network =
  nw_connect :: "'w \<Rightarrow> (service_error + unit) \<times> 'w"
  nw_exchange :: "string \<Rightarrow> 'w \<Rightarrow> (string + string) \<times> 'w"

record remote =
  rm_root :: "string option"
  rm_connected :: bool
  rm_next :: nat
  rm_connections :: nat

definition connect_path :: remote where
  "connect_path = \<lparr>rm_root = None, rm_connected = False, rm_next = 1, rm_connections = 0\<rparr>"

datatype call_failure = Transport service_error | Logical service_error

fun failure_error :: "call_failure \<Rightarrow> service_error" where
  "failure_error (Transport e) = e"
| "failure_error (Logical e) = e"

definition call_once ::
  "'w network \<Rightarrow> serde \<Rightarrow> (json \<Rightarrow> string + 'a) \<Rightarrow> string \<Rightarrow> nat \<Rightarrow> string \<Rightarrow> 'w \<Rightarrow> (call_failure + 'a) \<times> 'w" where
  "call_once nw sx from request i method w =
     (case nw_exchange nw request w of
        (Inl e, w) \<Rightarrow> (Inl (Transport (WorkspaceUnavailable e)), w)
      | (Inr line, w) \<Rightarrow>
          (if line = [] then Inl (Transport (WorkspaceUnavailable ''resident service closed the connection''))
           else case sx_read_response sx line of
             Inl e \<Rightarrow> Inl (Logical (InvalidRequest (''invalid resident response: '' @ e)))
           | Inr r \<Rightarrow>
               if rp_id r \<noteq> i
               then Inl (Transport (WorkspaceUnavailable (''resident response id mismatch: expected '' @ show_nat i @
                      '', got '' @ show_nat (rp_id r))))
               else if \<not> rp_ok r
               then Inl (Logical (InvalidRequest (unwrap_or ''resident service request failed'' (rp_error r))))
               else map_sum (\<lambda>e. Logical (InvalidRequest (''invalid resident result for '' @ method @ '': '' @ e))) id
                      (from (unwrap_or JNull (rp_result r))), w))"

definition reconnect :: "'w network \<Rightarrow> remote \<times> 'w \<Rightarrow> (service_error + unit) \<times> remote \<times> 'w" where
  "reconnect nw s =
     (case s of (rm, w) \<Rightarrow>
        (case nw_connect nw w of
           (Inl e, w) \<Rightarrow> (Inl e, rm, w)
         | (Inr _, w) \<Rightarrow> (Inr (), rm\<lparr>rm_connected := True, rm_connections := (rm_connections rm + 1) mod 2 ^ 64\<rparr>, w)))"

definition remote_call ::
  "'w network \<Rightarrow> serde \<Rightarrow> (json \<Rightarrow> string + 'a) \<Rightarrow> string \<Rightarrow> json \<Rightarrow> remote \<times> 'w
     \<Rightarrow> (service_error + 'a) \<times> remote \<times> 'w" where
  "remote_call nw sx from method ps s =
     (case s of (rm, w) \<Rightarrow>
        let i = rm_next rm;
            request = sx_write_request sx \<lparr>rq_id = i, rq_method = method, rq_params = ps\<rparr> @ [CHR 0x0A];
            rm = rm\<lparr>rm_next := (i + 1) mod 2 ^ 64\<rparr>
        in case (if rm_connected rm then (Inr (), rm, w) else reconnect nw (rm, w)) of
             (Inl e, rm, w) \<Rightarrow> (Inl e, rm, w)
           | (Inr _, rm, w) \<Rightarrow>
               (case call_once nw sx from request i method w of
                  (Inr v, w) \<Rightarrow> (Inr v, rm, w)
                | (Inl (Logical e), w) \<Rightarrow> (Inl e, rm, w)
                | (Inl (Transport _), w) \<Rightarrow>
                    (case reconnect nw (rm, w) of
                       (Inl e, rm, w) \<Rightarrow> (Inl e, rm, w)
                     | (Inr _, rm, w) \<Rightarrow>
                         (case call_once nw sx from request i method w of
                            (r, w) \<Rightarrow> (map_sum failure_error id r, rm, w)))))"

text \<open>The root a client remembers follows the answers of the service.\<close>

definition remote_configure_root ::
  "'w network \<Rightarrow> serde \<Rightarrow> string option \<Rightarrow> remote \<times> 'w \<Rightarrow> (service_error + string list) \<times> remote \<times> 'w" where
  "remote_configure_root nw sx root s =
     (case remote_call nw sx (from_seq sx (from_text sx)) ''configure_root'' (JObject [(''root'', json_opt JString root)]) s of
        (r, rm, w) \<Rightarrow> (r, case r of Inl e \<Rightarrow> rm | Inr _ \<Rightarrow> rm\<lparr>rm_root := root\<rparr>, w))"

text \<open>A poll that fails asks the consumer to start over.\<close>

definition remote_poll_events ::
  "'w network \<Rightarrow> serde \<Rightarrow> (json \<Rightarrow> string + event_cursor) \<Rightarrow> nat \<Rightarrow> nat \<Rightarrow> remote \<times> 'w \<Rightarrow> event_cursor \<times> remote \<times> 'w" where
  "remote_poll_events nw sx from after max_events s =
     (case remote_call nw sx from ''poll_events''
             (JObject [(''after_cursor'', json_nat after), (''max_events'', json_nat max_events)]) s of
        (r, s) \<Rightarrow>
          (case r of
             Inr c \<Rightarrow> c
           | Inl e \<Rightarrow> \<lparr>ec_schema = event_cursor_schema, ec_stream = [], ec_after = after, ec_current = after, ec_oldest = min (after + 1) u64_max,
               ec_reset_required = True, ec_events = [], ec_limitations = [service_error_display e]\<rparr>, s))"

end
