(* ===== verification/Rpc_Props.thy ===== *)
theory Rpc_Props
  imports Rpc Wire_Props
begin

text \<open>Batches, connections and the remote client against the resident core.\<close>

section \<open>Batches\<close>

text \<open>What one item of a batch does.\<close>

definition batch_item ::
  "host \<Rightarrow> serde \<Rightarrow> batch_call \<Rightarrow> host_state \<Rightarrow> (batch_result \<times> host_state) option" where
  "batch_item ho sx c hs =
     (if bc_method c = ''batch'' then Some (nested_refusal (bc_id c), hs)
      else map_option (\<lambda>(r, hs). (item_result (bc_id c) r, hs)) (dispatch_call ho sx (bc_method c) (bc_params c) hs))"

lemma run_batch_Cons:
  "run_batch ho sx (c # cs) hs = Some (rs, hs') \<longleftrightarrow>
     (\<exists>r hs1 rest. batch_item ho sx c hs = Some (r, hs1) \<and> run_batch ho sx cs hs1 = Some (rest, hs') \<and> rs = r # rest)"
  by (auto simp: batch_item_def bind_eq_Some_conv)

declare run_batch.simps(2) [simp del]

lemma item_result_id [simp]: "br_id (item_result i r) = i" "br_id (nested_refusal i) = i"
  by (simp_all add: item_result_def nested_refusal_def split: sum.split)

lemma batch_item_id: "batch_item ho sx c hs = Some (r, hs') \<Longrightarrow> br_id r = bc_id c"
  by (auto simp: batch_item_def split: if_splits)

lemma run_batch_ids: "run_batch ho sx cs hs = Some (rs, hs') \<Longrightarrow> map br_id rs = map bc_id cs"
  by (induction cs arbitrary: rs hs) (auto simp: run_batch_Cons dest: batch_item_id)

lemma run_batch_nth:
  "run_batch ho sx cs hs = Some (rs, hs') \<Longrightarrow> i < length cs \<Longrightarrow>
     \<exists>hs1 hs2. run_batch ho sx (take i cs) hs = Some (take i rs, hs1) \<and> batch_item ho sx (cs ! i) hs1 = Some (rs ! i, hs2) \<and>
       run_batch ho sx (take (Suc i) cs) hs = Some (take (Suc i) rs, hs2)"
proof (induction cs arbitrary: i rs hs)
  case (Cons c cs)
  obtain r hs1 rest where item: "batch_item ho sx c hs = Some (r, hs1)" and rest: "run_batch ho sx cs hs1 = Some (rest, hs')"
    and rs: "rs = r # rest"
    using Cons.prems(1) by (auto simp: run_batch_Cons)
  show ?case
  proof (cases i)
    case 0
    then show ?thesis using item rs by (auto simp: run_batch_Cons)
  next
    case (Suc k)
    then obtain hs2 hs3 where k: "run_batch ho sx (take k cs) hs1 = Some (take k rest, hs2)"
        "batch_item ho sx (cs ! k) hs2 = Some (rest ! k, hs3)"
        "run_batch ho sx (take (Suc k) cs) hs1 = Some (take (Suc k) rest, hs3)"
      using Cons.IH [OF rest, of k] Cons.prems(2) by auto
    have "run_batch ho sx (c # take k cs) hs = Some (r # take k rest, hs2)"
      "run_batch ho sx (c # take (Suc k) cs) hs = Some (r # take (Suc k) rest, hs3)"
      using item k(1,3) by (auto simp: run_batch_Cons)
    then show ?thesis using k(2) Suc rs by auto
  qed
qed simp

lemma run_batch_None:
  "run_batch ho sx cs hs = None \<Longrightarrow> \<exists>c \<in> set cs. \<exists>hs1. dispatch_call ho sx (bc_method c) (bc_params c) hs1 = None"
proof (induction cs arbitrary: hs)
  case (Cons c cs)
  show ?case
  proof (cases "batch_item ho sx c hs")
    case None
    then have "dispatch_call ho sx (bc_method c) (bc_params c) hs = None" by (auto simp: batch_item_def split: if_splits)
    then show ?thesis by auto
  next
    case (Some p)
    obtain r hs1 where p: "p = (r, hs1)" by (cases p)
    have "run_batch ho sx cs hs1 = None"
    proof (rule ccontr)
      assume "run_batch ho sx cs hs1 \<noteq> None"
      then obtain rest hs' where "run_batch ho sx cs hs1 = Some (rest, hs')" by auto
      then have "run_batch ho sx (c # cs) hs = Some (r # rest, hs')" using Some p by (auto simp: run_batch_Cons)
      then show False using Cons.prems by simp
    qed
    then show ?thesis using Cons.IH by auto
  qed
qed simp

text \<open>C22: A batch runs its calls in order and each on its own: there is one result for every call, under its id; the
  state a call sees is the one its predecessors left, whether they failed or not; its result is what that call
  alone would answer there, and a nested batch is refused without touching the state. A batch is not answered
  only where one of its calls panics.\<close>

theorem batch_runs_in_order:
  "case run_batch ho sx cs hs of
      None \<Rightarrow> \<exists>c \<in> set cs. \<exists>hs1. dispatch_call ho sx (bc_method c) (bc_params c) hs1 = None
    | Some (rs, hs') \<Rightarrow>
        map br_id rs = map bc_id cs \<and>
        list_all (\<lambda>i. \<exists>hs1 hs2. run_batch ho sx (take i cs) hs = Some (take i rs, hs1) \<and>
            (if bc_method (cs ! i) = ''batch'' then rs ! i = nested_refusal (bc_id (cs ! i)) \<and> hs2 = hs1
             else \<exists>r. dispatch ho sx (bc_method (cs ! i)) (bc_params (cs ! i)) hs1 = Some (r, hs2) \<and>
                    rs ! i = item_result (bc_id (cs ! i)) r) \<and>
            run_batch ho sx (take (Suc i) cs) hs = Some (take (Suc i) rs, hs2)) [0 ..< length cs]"
proof (cases "run_batch ho sx cs hs")
  case (Some p)
  obtain rs hs' where p: "p = (rs, hs')" by (cases p)
  show ?thesis
    using run_batch_ids [OF Some [unfolded p]] run_batch_nth [OF Some [unfolded p]]
    by (fastforce simp: Some p batch_item_def dispatch_def list_all_iff split: if_splits)
qed (use run_batch_None in simp)

section \<open>Connections\<close>

text \<open>The input up to and with its last line break, in lines within the limit.\<close>

function within_limit :: "string \<Rightarrow> bool" where
  "within_limit input =
     (let raw = read_request_line input
      in if raw = [] then True
         else if length raw > max_request_line then False
         else within_limit (drop (length raw) input))"
  by pat_completeness auto
termination
  by (relation "measure length") (auto simp: read_request_line_def Let_def)

declare within_limit.simps [simp del]

definition whole_lines :: "string \<Rightarrow> bool" where
  "whole_lines input \<longleftrightarrow> (input = [] \<or> last input = CHR 0x0A) \<and> within_limit input"

lemma takeWhile_of_take: "takeWhile P (take n xs) = take n (takeWhile P xs)"
  by (induction xs arbitrary: n) (simp_all add: take_Cons split: nat.split)

lemma takeWhile_shorter: "x \<in> set xs \<Longrightarrow> \<not> P x \<Longrightarrow> length (takeWhile P xs) < length xs"
  by (induction xs) auto

lemma read_line_take:
  "read_request_line input = take (Suc (length (takeWhile (\<lambda>c. c \<noteq> CHR 0x0A) input))) (take (Suc max_request_line) input)"
  by (simp add: read_request_line_def Let_def takeWhile_of_take min.assoc)

lemma read_line_extend:
  assumes "CHR 0x0A \<in> set a" "length (read_request_line a) \<le> max_request_line"
  shows "read_request_line (a @ b) = read_request_line a"
proof -
  let ?k = "length (takeWhile (\<lambda>c. c \<noteq> CHR 0x0A) a)"
  have k: "?k < length a" using assms(1) by (rule takeWhile_shorter) simp
  then have "Suc ?k \<le> max_request_line" using assms(2) by (simp add: read_line_take)
  moreover have "takeWhile (\<lambda>c. c \<noteq> CHR 0x0A) (a @ b) = takeWhile (\<lambda>c. c \<noteq> CHR 0x0A) a"
    using assms(1) by (intro takeWhile_append1) auto
  ultimately show ?thesis using k by (simp add: read_line_take)
qed

lemma serve_step:
  assumes "read_request_line input = raw" "raw \<noteq> []" "length raw \<le> max_request_line"
  shows "serve_connection ho sx input hs =
    (if trim (lossy_text raw) = [] then serve_connection ho sx (drop (length raw) input) hs
     else case handle_line ho sx (lossy_text raw) hs of
            None \<Rightarrow> ([], None)
          | Some (r, hs) \<Rightarrow>
              (case serve_connection ho sx (drop (length raw) input) hs of (rs, hs) \<Rightarrow> (reply_line sx r # rs, hs)))"
  using assms by (simp add: serve_connection.simps [of ho sx input] Let_def)

text \<open>C24: Requests that are sent one after the other on one connection are answered as on two: where the first part
  of the input consists of whole lines within the limit, the lines written back and the state are those of the
  first part followed by those of the rest, and a panic ends the connection.\<close>

theorem connection_resumes:
  assumes "whole_lines first"
  shows "serve_connection ho sx (first @ rest) hs =
    (case serve_connection ho sx first hs of
       (rs, None) \<Rightarrow> (rs, None)
     | (rs, Some hs1) \<Rightarrow> (case serve_connection ho sx rest hs1 of (rs', hs2) \<Rightarrow> (rs @ rs', hs2)))"
  using assms
proof (induction first arbitrary: hs rule: within_limit.induct)
  case (1 input)
  show ?case
  proof (cases "input = []")
    case True
    then show ?thesis by (simp add: serve_connection.simps [of ho sx "[]"] read_request_line_def split: prod.split)
  next
    case False
    let ?raw = "read_request_line input"
    have raw: "?raw \<noteq> []" using False by (simp add: read_line_take)
    have fits: "length ?raw \<le> max_request_line" "within_limit (drop (length ?raw) input)"
      using 1(2) raw by (auto simp: whole_lines_def Let_def within_limit.simps [of input] split: if_splits)
    have "CHR 0x0A \<in> set input" using 1(2) False last_in_set [OF False] by (simp add: whole_lines_def)
    then have same: "read_request_line (input @ rest) = ?raw" using fits(1) by (rule read_line_extend)
    have len: "length ?raw \<le> length input" by (simp add: read_line_take)
    have whole: "whole_lines (drop (length ?raw) input)"
      using 1(2) fits(2) False
      by (cases "length ?raw < length input") (simp_all add: whole_lines_def)
    note ih = 1(1) [OF refl raw _ whole]
    note step = serve_step [OF refl raw fits(1)] serve_step [OF same raw fits(1)]
    show ?thesis
    proof (cases "trim (lossy_text ?raw) = []")
      case True
      then show ?thesis using step ih [of hs] fits(1) len by simp
    next
      case False
      show ?thesis
      proof (cases "handle_line ho sx (lossy_text ?raw) hs")
        case None
        then show ?thesis using False step by simp
      next
        case (Some p)
        then show ?thesis using False step ih [of "snd p"] fits(1) len
          by (cases p) (simp split: prod.split option.split)
      qed
    qed
  qed
qed

theorem connection_resumes_witness:
  "\<forall>ho sx hs. serve_connection ho sx ([CHR 0x0A] @ ''q'') hs =
    (case serve_connection ho sx [CHR 0x0A] hs of
       (rs, None) \<Rightarrow> (rs, None)
     | (rs, Some hs1) \<Rightarrow> (case serve_connection ho sx ''q'' hs1 of (rs', hs2) \<Rightarrow> (rs @ rs', hs2)))"
proof -
  have "read_request_line [CHR 0x0A] = [CHR 0x0A]" "read_request_line [] = []"
    by (simp_all add: read_line_take)
  then have "whole_lines [CHR 0x0A]"
    by (simp add: whole_lines_def within_limit.simps [of "[CHR 0x0A]"] within_limit.simps [of "[]"] max_request_line_def)
  then show ?thesis using connection_resumes [of "[CHR 0x0A]"] by blast
qed

section \<open>The remote client\<close>

text \<open>A network that remembers the lines sent on it.\<close>

definition logged :: "'w network \<Rightarrow> (string list \<times> 'w) network" where
  "logged nw =
     \<lparr>nw_connect = (\<lambda>(sent, w). case nw_connect nw w of (r, w) \<Rightarrow> (r, sent, w)),
      nw_exchange = (\<lambda>line (sent, w). case nw_exchange nw line w of (r, w) \<Rightarrow> (r, sent @ [line], w))\<rparr>"

lemma logged_call:
  "call_once (logged nw) sx from line i m (sent, w) =
     (case call_once nw sx from line i m w of (r, w) \<Rightarrow> (r, sent @ [line], w))"
  by (auto simp: call_once_def logged_def split: prod.splits sum.splits)

lemma logged_connect: "nw_connect (logged nw) (sent, w) = (case nw_connect nw w of (r, w) \<Rightarrow> (r, sent, w))"
  by (simp add: logged_def)

text \<open>C23: A remote call takes a fresh request number and sends its request at most twice: not at all where no
  connection can be made; exactly once where the first exchange brings any answer, a refusal included, and then
  the answer of the call is that one; and again only after a transport failure and a successful reconnect.\<close>

theorem remote_call_sends:
  "let i = rm_next rm; line = sx_write_request sx \<lparr>rq_id = i, rq_method = m, rq_params = ps\<rparr> @ [CHR 0x0A];
       w1 = (if rm_connected rm then w else snd (nw_connect nw w))
   in case remote_call (logged nw) sx from m ps (rm, sent, w) of (r, rm', sent', w') \<Rightarrow>
        rm_next rm' = (i + 1) mod 2 ^ 64 \<and>
        (if \<not> rm_connected rm \<and> (\<exists>e. fst (nw_connect nw w) = Inl e)
         then sent' = sent \<and> map_sum id (\<lambda>_. ()) r = fst (nw_connect nw w) \<and> \<not> rm_connected rm'
         else case fst (call_once nw sx from line i m w1) of
             Inr v \<Rightarrow> sent' = sent @ [line] \<and> r = Inr v
           | Inl (Logical e) \<Rightarrow> sent' = sent @ [line] \<and> r = Inl e
           | Inl (Transport e) \<Rightarrow>
               sent' = sent @ [line] \<and> (\<exists>e'. r = Inl e') \<or>
               sent' = sent @ [line, line] \<and> rm_connections rm' = (rm_connections rm + (if rm_connected rm then 1 else 2)) mod 2 ^ 64)"
proof -
  let ?line = "sx_write_request sx \<lparr>rq_id = rm_next rm, rq_method = m, rq_params = ps\<rparr> @ [CHR 0x0A]"
  obtain cr w0 where c: "nw_connect nw w = (cr, w0)" by (metis prod.exhaust)
  let ?w = "if rm_connected rm then w else w0"
  obtain f w2 where f: "call_once nw sx from ?line (rm_next rm) m ?w = (f, w2)" by (metis prod.exhaust)
  obtain cr2 w3 where c2: "nw_connect nw w2 = (cr2, w3)" by (metis prod.exhaust)
  obtain f2 w4 where f2: "call_once nw sx from ?line (rm_next rm) m w3 = (f2, w4)" by (metis prod.exhaust)
  note calls = remote_call_def Let_def logged_call logged_connect reconnect_def c c2 f2
  show ?thesis
  proof (cases "rm_connected rm")
    case True
    then have "call_once nw sx from ?line (rm_next rm) m w = (f, w2)" using f by simp
    then show ?thesis using True by (cases f; cases cr2) (auto simp: calls split: call_failure.split)
  next
    case False
    then have "call_once nw sx from ?line (rm_next rm) m w0 = (f, w2)" using f by simp
    then show ?thesis using False
      by (cases cr; cases f; cases cr2) (auto simp: calls mod_simps split: call_failure.split)
  qed
qed

section \<open>The remote client is the local client\<close>










end
