(* ===== verification/Static_Grammar_Props.thy ===== *)
theory Static_Grammar_Props
  imports Static_Grammar
begin

text \<open>What a grammar that passed the loader guarantees to the tokenizer.\<close>

section \<open>Flattening\<close>

definition group_edges :: "repository \<Rightarrow> (string \<times> string) set" where
  "group_edges repo = {(n, m). \<exists>r ps. bt_lookup repo n = Some r \<and> ru_body r = GroupRule ps \<and> m \<in> set ps}"

definition plain_rule :: "repository \<Rightarrow> string \<Rightarrow> bool" where
  "plain_rule repo n \<longleftrightarrow> (\<exists>r. bt_lookup repo n = Some r \<and> (\<forall>ps. ru_body r \<noteq> GroupRule ps))"

lemma plain_rule_stuck: "plain_rule repo n \<Longrightarrow> (group_edges repo)\<^sup>* `` {n} = {n}"
  by (auto simp: plain_rule_def group_edges_def elim: converse_rtranclE)

lemma group_step:
  assumes "bt_lookup repo n = Some r" "ru_body r = GroupRule ps"
  shows "(group_edges repo)\<^sup>* `` {n} = insert n ((group_edges repo)\<^sup>* `` set ps)"
proof -
  have "group_edges repo `` {n} = set ps" using assms by (auto simp: group_edges_def)
  then show ?thesis by (auto simp: elim: converse_rtranclE intro: converse_rtrancl_into_rtrancl)
qed

lemma not_plain_group: "bt_lookup repo n = Some r \<Longrightarrow> ru_body r = GroupRule ps \<Longrightarrow> \<not> plain_rule repo n"
  by (simp add: plain_rule_def)

lemma flatten_list_set:
  "flatten_list repo stack names = Inr flat \<Longrightarrow>
   set flat = {m. plain_rule repo m} \<inter> (group_edges repo)\<^sup>* `` set names"
proof (induction repo stack names arbitrary: flat rule: flatten_list.induct)
  case (2 repo stack name names)
  obtain r where r: "bt_lookup repo name = Some r" using 2(5) by (auto simp: gr_err_def split: option.splits)
  have img: "(group_edges repo)\<^sup>* `` set (name # names) =
      (group_edges repo)\<^sup>* `` {name} \<union> (group_edges repo)\<^sup>* `` set names" by auto
  show ?case
  proof (cases "ru_body r")
    case (GroupRule ps)
    then obtain a b where ab: "name \<notin> set stack" "flatten_list repo (stack @ [name]) ps = Inr a"
        "flatten_list repo stack names = Inr b" "flat = a @ b"
      using 2(5) r by (auto simp: gr_err_def bind_result_eq_Inr map_sum_eq_Inr split: if_splits)
    have "set a = {m. plain_rule repo m} \<inter> (group_edges repo)\<^sup>* `` set ps"
      using 2(1) [OF r GroupRule ab(1) ab(2)] .
    moreover have "set b = {m. plain_rule repo m} \<inter> (group_edges repo)\<^sup>* `` set names"
      using 2(2) r GroupRule ab by (auto simp: bind_result_def)
    ultimately show ?thesis using not_plain_group [OF r GroupRule]
      unfolding img group_step [OF r GroupRule] ab(4) by auto
  next
    case (MatchRule x y)
    then have p: "plain_rule repo name" using r by (simp add: plain_rule_def)
    obtain b where b: "flatten_list repo stack names = Inr b" "flat = name # b"
      using 2(5) r MatchRule by (cases "flatten_list repo stack names") auto
    have "set b = {m. plain_rule repo m} \<inter> (group_edges repo)\<^sup>* `` set names"
      using 2(3) [OF r MatchRule b(1)] .
    then show ?thesis using p unfolding img plain_rule_stuck [OF p] b(2) by auto
  next
    case (BeginEndRule d)
    then have p: "plain_rule repo name" using r by (simp add: plain_rule_def)
    obtain b where b: "flatten_list repo stack names = Inr b" "flat = name # b"
      using 2(5) r BeginEndRule by (cases "flatten_list repo stack names") auto
    have "set b = {m. plain_rule repo m} \<inter> (group_edges repo)\<^sup>* `` set names"
      using 2(4) [OF r BeginEndRule b(1)] .
    then show ?thesis using p unfolding img plain_rule_stuck [OF p] b(2) by auto
  qed
qed simp

section \<open>Loaded grammars\<close>

text \<open>What the tokenizer relies on: every name it looks up is a rule that is no group.\<close>

definition grammar_ok :: "grammar \<Rightarrow> bool" where
  "grammar_ok g \<longleftrightarrow>
     (\<forall>n \<in> set (gr_root_patterns g). grammar_rule g n \<noteq> None) \<and>
     (\<forall>k r. grammar_rule g k = Some r \<longrightarrow>
        (\<forall>ps. ru_body r \<noteq> GroupRule ps) \<and>
        (\<forall>d. ru_body r = BeginEndRule d \<longrightarrow> (\<forall>n \<in> set (bd_patterns d). grammar_rule g n \<noteq> None)))"

lemma flattened_rule_Some:
  assumes "flattened_rule repo (k, r) = Inr x"
  shows "case x of
      None \<Rightarrow> \<exists>ps. ru_body r = GroupRule ps
    | Some (k', r') \<Rightarrow> k' = k \<and> (\<forall>ps. ru_body r' \<noteq> GroupRule ps) \<and> (\<forall>ps. ru_body r \<noteq> GroupRule ps) \<and>
        (\<forall>d. ru_body r' = BeginEndRule d \<longrightarrow> (\<forall>n \<in> set (bd_patterns d). plain_rule repo n))"
  using assms flatten_list_set
  by (auto simp: flattened_rule_def map_sum_eq_Inr split: rule_body.splits)

lemma flatten_repository_lookup:
  assumes "flatten_repository repo = Inr flat"
  shows "bt_lookup flat k \<noteq> None \<longleftrightarrow> plain_rule repo k"
    and "bt_lookup flat k = Some r \<Longrightarrow> (\<forall>ps. ru_body r \<noteq> GroupRule ps) \<and>
      (\<forall>d. ru_body r = BeginEndRule d \<longrightarrow> (\<forall>n \<in> set (bd_patterns d). plain_rule repo n))"
proof -
  obtain rs where rs: "collect_results (flattened_rule repo) (bt_entries repo) = Inr rs"
    "flat = bt_of_list (List.map_filter id rs)"
    using assms by (auto simp: flatten_repository_def map_sum_eq_Inr)
  have rel: "list_all2 (\<lambda>e x. flattened_rule repo e = Inr x) (bt_entries repo) rs"
    using rs(1) by (simp add: collect_results_Inr)
  have mem: "(k, r) \<in> set (List.map_filter id rs) \<longleftrightarrow> Some (k, r) \<in> set rs" for k r
    by (force simp: List.map_filter_def)
  have from_entry: "\<exists>r0. bt_lookup repo k = Some r0 \<and> flattened_rule repo (k, r0) = Inr (Some (k, r))"
    if m: "Some (k, r) \<in> set rs" for k r
  proof -
    obtain i where i: "i < length rs" "rs ! i = Some (k, r)" using m by (auto simp: in_set_conv_nth)
    obtain k0 r0 where e: "bt_entries repo ! i = (k0, r0)" by (cases "bt_entries repo ! i")
    have len: "length (bt_entries repo) = length rs" using rel by (rule list_all2_lengthD)
    have f: "flattened_rule repo (k0, r0) = Inr (Some (k, r))" using list_all2_nthD2 [OF rel i(1)] i e by simp
    have "k = k0" using flattened_rule_Some [OF f] by simp
    moreover have "(k0, r0) \<in> set (bt_entries repo)" using e i(1) len by (metis nth_mem)
    ultimately show ?thesis using f by (auto simp: bt_lookup_eq_Some)
  qed
  have to_entry: "\<exists>r. Some (k, r) \<in> set rs" if pl: "plain_rule repo k" for k
  proof -
    obtain r0 where r0: "bt_lookup repo k = Some r0" "\<forall>ps. ru_body r0 \<noteq> GroupRule ps"
      using pl by (auto simp: plain_rule_def)
    then have "(k, r0) \<in> set (bt_entries repo)" by (simp add: bt_lookup_eq_Some)
    then obtain i where i: "i < length (bt_entries repo)" "bt_entries repo ! i = (k, r0)"
      by (auto simp: in_set_conv_nth)
    obtain x where x: "x \<in> set rs" "flattened_rule repo (k, r0) = Inr x"
      using list_all2_nthD [OF rel i(1)] list_all2_lengthD [OF rel] i by (metis nth_mem)
    then obtain k' r' where "x = Some (k', r')" using flattened_rule_Some [OF x(2)] r0(2) by (auto split: option.splits)
    then show ?thesis using flattened_rule_Some [OF x(2)] x(1) by auto
  qed
  have look: "bt_lookup flat k = Some r \<Longrightarrow> Some (k, r) \<in> set rs" for k r
    unfolding rs(2) bt_lookup_of_list by (drule map_of_SomeD) (simp add: mem)
  have "bt_lookup flat k \<noteq> None \<longleftrightarrow> k \<in> fst ` set (List.map_filter id rs)" for k
    unfolding rs(2) bt_lookup_of_list by (metis map_of_eq_None_iff set_rev)
  then have dom: "bt_lookup flat k \<noteq> None \<longleftrightarrow> (\<exists>r. Some (k, r) \<in> set rs)" for k
    unfolding image_iff mem [symmetric] by (metis fst_conv prod.collapse)
  show "bt_lookup flat k \<noteq> None \<longleftrightarrow> plain_rule repo k"
  proof
    assume "bt_lookup flat k \<noteq> None"
    then obtain r where "Some (k, r) \<in> set rs" using dom by blast
    from from_entry [OF this] flattened_rule_Some show "plain_rule repo k" by (fastforce simp: plain_rule_def)
  next
    assume "plain_rule repo k"
    then show "bt_lookup flat k \<noteq> None" using dom to_entry by blast
  qed
  show "(\<forall>ps. ru_body r \<noteq> GroupRule ps) \<and>
      (\<forall>d. ru_body r = BeginEndRule d \<longrightarrow> (\<forall>n \<in> set (bd_patterns d). plain_rule repo n))"
    if "bt_lookup flat k = Some r"
    using from_entry [OF look [OF that]] flattened_rule_Some by fastforce
qed

text \<open>C30: In a grammar the loader accepts, every pattern name of the root and of every region is the
  name of a match or region rule of the repository, and no group is left: the tokenizer never
  meets a missing rule or a group.\<close>

theorem loaded_grammar_closed:
  assumes "grammar_from_value regex_error v = Inr g"
  shows "grammar_ok g"
proof -
  obtain repo roots flat root_patterns where g: "flatten_repository repo = Inr flat"
      "flatten_list repo [] roots = Inr root_patterns" "gr_root_patterns g = root_patterns" "gr_repository g = flat"
    using assms by (auto simp: grammar_from_value_def bind_result_eq_Inr)
  have "plain_rule repo n" if "n \<in> set root_patterns" for n
    using flatten_list_set [OF g(2)] that by blast
  then show ?thesis using flatten_repository_lookup [OF g(1)]
    unfolding grammar_ok_def grammar_rule_def g(3,4) by blast
qed

text \<open>A small grammar: one group that the root includes and one it does not.\<close>

definition sample_grammar :: "json \<Rightarrow> json" where
  "sample_grammar unused =
     JObject [
       (''fileTypes'', JArray [JString ''mncs'']),
       (''patterns'', JArray [JObject [(''include'', JString ''#g'')]]),
       (''repository'', JObject [
          (''b'', JObject [(''begin'', JString ''x''), (''end'', JString ''y''),
             (''patterns'', JArray [JObject [(''include'', JString ''#g'')]])]),
          (''g'', JObject [(''patterns'', JArray [JObject [(''include'', JString ''#b'')]])]),
          (''u'', JObject [(''patterns'', JArray [unused])])]),
       (''scopeName'', JString ''source.mncs'')]"

definition sample_loaded :: grammar where
  "sample_loaded =
     \<lparr>gr_scope_name = ''source.mncs'', gr_file_types = [''mncs''], gr_first_line_match = None,
      gr_root_patterns = [''b''],
      gr_repository = bt_of_list [(''b'', \<lparr>ru_name = None, ru_body = BeginEndRule
        \<lparr>bd_begin = ''x'', bd_begin_captures = [], bd_end = ''y'', bd_end_captures = [], bd_content_name = None,
         bd_patterns = [''b'']\<rparr>\<rparr>)]\<rparr>"

lemma sample_grammar_loads:
  "grammar_from_value (\<lambda>s. None) (sample_grammar (JObject [(''include'', JString ''#b'')])) = Inr sample_loaded"
  by code_simp

lemma loaded_grammar_closed_witness: "grammar_ok sample_loaded"
  by (rule loaded_grammar_closed [OF sample_grammar_loads])

text \<open>The loader does not look into a group that nothing includes: its includes need not resolve.\<close>

theorem unused_group_unchecked:
  "grammar_from_value (\<lambda>s. None) (sample_grammar (JObject [(''include'', JString ''#missing'')])) = Inr sample_loaded"
  by code_simp

end
