(* ===== verification/Static_Tokenizer.thy ===== *)
theory Static_Tokenizer
  imports Static_Grammar
begin

text \<open>
  The TextMate subset engine of \<open>tokenizer.rs\<close>. Matching is the regular expression crate's:
  \<open>find_at source line pos\<close> is \<open>captures_from_pos\<close>, the spans of the groups of the first match
  at or after \<open>pos\<close>. Positions are byte offsets, and a line is valid UTF-8. The top of the
  region stack is its last element, as in the code.
\<close>

type_synonym matcher = "string \<Rightarrow> string \<Rightarrow> nat \<Rightarrow> (nat \<times> nat) option list option"

record token =
  tk_start :: nat
  tk_length :: nat
  tk_scopes :: "string list"

definition leaf_scope :: "token \<Rightarrow> string option" where
  "leaf_scope t = (if tk_scopes t = [] then None else Some (last (tk_scopes t)))"

definition has_scope_prefix :: "string \<Rightarrow> token \<Rightarrow> bool" where
  "has_scope_prefix prefix t \<longleftrightarrow> list_ex (\<lambda>s. starts_with s prefix) (tk_scopes t)"

definition max_region_depth :: nat where
  "max_region_depth = 10000"

record region_frame =
  rf_end :: string
  rf_end_captures :: captures
  rf_patterns :: "string list"
  rf_scope_prefixes :: "string list"

definition region_frame_new :: "string option \<Rightarrow> begin_end_data \<Rightarrow> region_frame" where
  "region_frame_new name data =
     \<lparr>rf_end = bd_end data, rf_end_captures = bd_end_captures data, rf_patterns = bd_patterns data,
      rf_scope_prefixes = List.map_filter id [name, bd_content_name data]\<rparr>"

text \<open>\<open>captures_at\<close>: a match must start exactly at \<open>pos\<close>.\<close>

definition captures_at :: "matcher \<Rightarrow> string \<Rightarrow> string \<Rightarrow> nat \<Rightarrow> (nat \<times> nat) option list option" where
  "captures_at find_at source line pos =
     (case find_at source line pos of
        Some (Some (start, stop) # spans) \<Rightarrow> if start = pos then Some (Some (start, stop) # spans) else None
      | _ \<Rightarrow> None)"

section \<open>Scopes and emission\<close>

definition base_scopes :: "region_frame list \<Rightarrow> string list" where
  "base_scopes stack = concat (map rf_scope_prefixes stack)"

definition base_scopes_excluding_top :: "region_frame list \<Rightarrow> string list" where
  "base_scopes_excluding_top stack = concat (map rf_scope_prefixes (butlast stack))"

definition capture_token ::
  "string \<Rightarrow> string list \<Rightarrow> (nat \<times> nat) option list \<Rightarrow> nat \<times> string option \<Rightarrow> token option" where
  "capture_token line scopes spans capture =
     (case capture of (index, name) \<Rightarrow>
        (case (name, nth_opt spans index) of
           (Some name, Some (Some (start, stop))) \<Rightarrow>
             if start \<ge> stop \<or> \<not> is_char_boundary line start \<or> \<not> is_char_boundary line stop then None
             else Some \<lparr>tk_start = start, tk_length = stop - start, tk_scopes = scopes @ [name]\<rparr>
         | _ \<Rightarrow> None))"

definition emit_match ::
  "string \<Rightarrow> nat \<Rightarrow> nat \<Rightarrow> string list \<Rightarrow> string option \<Rightarrow> captures \<Rightarrow> (nat \<times> nat) option list \<Rightarrow> token list" where
  "emit_match line start stop base rule_name captures spans =
     (let scopes = (case rule_name of None \<Rightarrow> base | Some name \<Rightarrow> base @ [name])
      in (if rule_name = None then []
          else [\<lparr>tk_start = start, tk_length = stop - start, tk_scopes = scopes\<rparr>]) @
         List.map_filter (capture_token line scopes spans) captures)"

text \<open>A pending run is emitted only inside a region.\<close>

definition flush_run :: "region_frame list \<Rightarrow> nat option \<Rightarrow> nat \<Rightarrow> token list" where
  "flush_run stack run_start stop =
     (case run_start of
        None \<Rightarrow> []
      | Some start \<Rightarrow>
          if stop > start \<and> stack \<noteq> []
          then [\<lparr>tk_start = start, tk_length = stop - start, tk_scopes = base_scopes stack\<rparr>] else [])"

section \<open>One position\<close>

text \<open>The end of the innermost region at \<open>pos\<close>: what is consumed, emitted, and the popped stack.\<close>

definition try_region_end ::
  "matcher \<Rightarrow> string \<Rightarrow> nat \<Rightarrow> region_frame list \<Rightarrow> (nat \<times> token list \<times> region_frame list) option" where
  "try_region_end find_at line pos stack =
     (if stack = [] then None
      else
        let frame = last stack
        in (case captures_at find_at (rf_end frame) line pos of
              Some (Some (start, stop) # spans) \<Rightarrow>
                Some (stop - start,
                  emit_match line start stop (base_scopes_excluding_top stack)
                    (case rf_scope_prefixes frame of [] \<Rightarrow> None | name # _ \<Rightarrow> Some name)
                    (rf_end_captures frame) (Some (start, stop) # spans),
                  butlast stack)
            | _ \<Rightarrow> None))"

text \<open>
  One rule at \<open>pos\<close>; \<^const>\<open>None\<close> goes on with the next. A match never ends before it starts, so
  skipping \<open>stop \<le> start\<close> skips the zero-width matches.
\<close>

definition apply_rule ::
  "matcher \<Rightarrow> string \<Rightarrow> nat \<Rightarrow> region_frame list \<Rightarrow> rule \<Rightarrow> (nat \<times> token list \<times> region_frame list) option" where
  "apply_rule find_at line pos stack r =
     (case ru_body r of
        GroupRule _ \<Rightarrow> None
      | MatchRule regex captures \<Rightarrow>
          (case captures_at find_at regex line pos of
             Some (Some (start, stop) # spans) \<Rightarrow>
               if stop \<le> start then None
               else Some (stop - start,
                 emit_match line start stop (base_scopes stack) (ru_name r) captures (Some (start, stop) # spans),
                 stack)
           | _ \<Rightarrow> None)
      | BeginEndRule data \<Rightarrow>
          (case captures_at find_at (bd_begin data) line pos of
             Some (Some (start, stop) # spans) \<Rightarrow>
               if stop \<le> start \<or> length stack \<ge> max_region_depth then None
               else Some (stop - start,
                 emit_match line start stop (base_scopes stack) (ru_name r) (bd_begin_captures data)
                   (Some (start, stop) # spans),
                 stack @ [region_frame_new (ru_name r) data])
           | _ \<Rightarrow> None))"

text \<open>The rules of the active context in order; an unknown name ends the search.\<close>

fun try_rules ::
  "grammar \<Rightarrow> matcher \<Rightarrow> string \<Rightarrow> nat \<Rightarrow> region_frame list \<Rightarrow> string list
     \<Rightarrow> (nat \<times> token list \<times> region_frame list) option" where
  "try_rules g find_at line pos stack [] = None"
| "try_rules g find_at line pos stack (name # names) =
     (case grammar_rule g name of
        None \<Rightarrow> None
      | Some r \<Rightarrow>
          (case apply_rule find_at line pos stack r of
             Some x \<Rightarrow> Some x
           | None \<Rightarrow> try_rules g find_at line pos stack names))"

lemma try_rules_Some:
  "try_rules g find_at line pos stack names = Some x \<Longrightarrow> \<exists>r. apply_rule find_at line pos stack r = Some x"
  by (induction names) (auto split: option.splits)

definition active_patterns :: "grammar \<Rightarrow> region_frame list \<Rightarrow> string list" where
  "active_patterns g stack = (if stack = [] then gr_root_patterns g else rf_patterns (last stack))"

definition next_char_len :: "string \<Rightarrow> nat \<Rightarrow> nat" where
  "next_char_len line pos =
     (let lead = byte_of (line ! pos)
      in if lead < 128 then 1 else if lead < 192 then 1 else if lead < 224 then 2 else if lead < 240 then 3 else 4)"

lemma next_char_len_pos: "0 < next_char_len line pos"
  by (simp add: next_char_len_def Let_def)

lemma next_char_progress:
  "\<not> length line \<le> pos \<Longrightarrow> length line - (pos + next_char_len line pos) < length line - pos"
  using next_char_len_pos [of line pos] by simp

lemma try_region_end_pops:
  "try_region_end find_at line pos stack = Some (consumed, emitted, stack') \<Longrightarrow> stack \<noteq> [] \<and> stack' = butlast stack"
  by (auto simp: try_region_end_def Let_def split: if_splits option.splits list.splits)

lemma apply_rule_consumes:
  "apply_rule find_at line pos stack r = Some (consumed, emitted, stack') \<Longrightarrow> 0 < consumed"
  by (auto simp: apply_rule_def split: option.splits rule_body.splits list.splits if_splits)

lemma try_rules_consumes:
  "try_rules g find_at line pos stack names = Some (consumed, emitted, stack') \<Longrightarrow> 0 < consumed"
  using try_rules_Some apply_rule_consumes by blast

section \<open>Lines and documents\<close>

function tokenize_from ::
  "grammar \<Rightarrow> matcher \<Rightarrow> string \<Rightarrow> region_frame list \<Rightarrow> nat \<Rightarrow> nat option \<Rightarrow> token list
     \<Rightarrow> token list \<times> region_frame list" where
  "tokenize_from g find_at line stack pos run_start tokens =
     (if length line \<le> pos then (tokens @ flush_run stack run_start (length line), stack)
      else
        (case try_region_end find_at line pos stack of
           Some (consumed, emitted, stack') \<Rightarrow>
             tokenize_from g find_at line stack' (pos + consumed) None
               (tokens @ flush_run stack run_start pos @ emitted)
         | None \<Rightarrow>
             (case try_rules g find_at line pos stack (active_patterns g stack) of
                Some (consumed, emitted, stack') \<Rightarrow>
                  tokenize_from g find_at line stack' (pos + consumed) None
                    (tokens @ flush_run stack run_start pos @ emitted)
              | None \<Rightarrow>
                  tokenize_from g find_at line stack (pos + next_char_len line pos)
                    (Some (case run_start of Some s \<Rightarrow> s | None \<Rightarrow> pos)) tokens)))"
  by pat_completeness auto
termination
  by (relation "measures [\<lambda>(g, f, line, stack, pos, r, ts). length line - pos, \<lambda>(g, f, line, stack, pos, r, ts). length stack]")
    (auto dest!: try_region_end_pops try_rules_consumes intro!: next_char_progress)

declare tokenize_from.simps [simp del]

definition tokenize_line ::
  "grammar \<Rightarrow> matcher \<Rightarrow> region_frame list \<Rightarrow> string \<Rightarrow> token list \<times> region_frame list" where
  "tokenize_line g find_at stack line = tokenize_from g find_at line stack 0 None []"

text \<open>\<open>split_lines\<close>: the separators are line feeds, and a final one ends the last line.\<close>

definition split_lines :: "string \<Rightarrow> string list" where
  "split_lines text =
     (let ps = split_char (CHR 0x0A) text
      in if last ps = [] \<and> text \<noteq> [] then butlast ps else ps)"

fun tokenize_lines ::
  "grammar \<Rightarrow> matcher \<Rightarrow> region_frame list \<Rightarrow> string list \<Rightarrow> token list list \<times> region_frame list" where
  "tokenize_lines g find_at stack [] = ([], stack)"
| "tokenize_lines g find_at stack (line # rest) =
     (case tokenize_line g find_at stack line of
        (tokens, stack) \<Rightarrow>
          (case tokenize_lines g find_at stack rest of (all, stack) \<Rightarrow> (tokens # all, stack)))"

definition tokenize_document :: "grammar \<Rightarrow> matcher \<Rightarrow> string \<Rightarrow> token list list" where
  "tokenize_document g find_at text = fst (tokenize_lines g find_at [] (split_lines text))"

end
