(* ===== verification/Static_Tokenizer_Props.thy ===== *)
theory Static_Tokenizer_Props
  imports Static_Tokenizer Static_Grammar_Props
begin

text \<open>The properties of the static tokenizer, for every grammar and every matching engine whose
  spans lie inside the line.\<close>

definition matcher_ok :: "matcher \<Rightarrow> bool" where
  "matcher_ok find_at \<longleftrightarrow>
     (\<forall>source line pos spans start stop. find_at source line pos = Some spans \<longrightarrow> Some (start, stop) \<in> set spans \<longrightarrow>
        start \<le> stop \<and> stop \<le> length line)"

definition inside :: "string \<Rightarrow> token list \<Rightarrow> bool" where
  "inside line ts \<longleftrightarrow> (\<forall>t \<in> set ts. tk_start t + tk_length t \<le> length line)"

lemma inside_simps [simp]:
  "inside line []" "inside line (ts @ us) \<longleftrightarrow> inside line ts \<and> inside line us"
  by (auto simp: inside_def)

lemma captures_at_eq:
  "captures_at find_at source line pos = Some (Some (start, stop) # spans) \<Longrightarrow>
   start = pos \<and> find_at source line pos = Some (Some (start, stop) # spans)"
  by (auto simp: captures_at_def split: option.splits list.splits if_splits)

lemma emit_inside:
  assumes "matcher_ok find_at" "captures_at find_at source line pos = Some (Some (start, stop) # spans)"
  shows "inside line (emit_match line start stop base name captures (Some (start, stop) # spans))"
proof -
  have spans: "a \<le> b \<and> b \<le> length line" if "Some (a, b) \<in> set (Some (start, stop) # spans)" for a b
    using assms captures_at_eq [OF assms(2)] that unfolding matcher_ok_def by blast
  have "tk_start t + tk_length t \<le> length line"
    if ct: "capture_token line scopes (Some (start, stop) # spans) c = Some t" for scopes c t
  proof -
    obtain i n a b where "c = (i, n)" "nth_opt (Some (start, stop) # spans) i = Some (Some (a, b))"
      and t: "tk_start t = a" "tk_length t = b - a"
      using ct by (auto simp: capture_token_def split: prod.splits option.splits if_splits)
    then have "Some (a, b) \<in> set (Some (start, stop) # spans)" by (metis nth_opt_Some nth_mem)
    with spans t show ?thesis by fastforce
  qed
  moreover have "start \<le> stop \<and> stop \<le> length line" using spans [of start stop] by simp
  ultimately show ?thesis by (auto simp: inside_def emit_match_def Let_def List.map_filter_def split: if_splits)
qed

lemma flush_inside: "upto \<le> length line \<Longrightarrow> inside line (flush_run stack r upto)" for upto
  by (auto simp: flush_run_def inside_def split: option.splits)

lemma end_inside:
  assumes "matcher_ok find_at" "try_region_end find_at line pos stack = Some (consumed, emitted, stack')"
  shows "inside line emitted" "length stack' \<le> length stack"
  using assms emit_inside [OF assms(1)]
  by (auto simp: try_region_end_def Let_def split: if_splits option.splits list.splits)

lemma rules_inside:
  assumes "matcher_ok find_at" "try_rules g find_at line pos stack names = Some (consumed, emitted, stack')"
  shows "inside line emitted \<and> (length stack' \<le> length stack \<or> length stack' \<le> max_region_depth)"
proof -
  obtain r where "apply_rule find_at line pos stack r = Some (consumed, emitted, stack')"
    using try_rules_Some [OF assms(2)] by blast
  then show ?thesis
    by (auto simp: apply_rule_def intro: emit_inside [OF assms(1)] split: option.splits rule_body.splits list.splits if_splits)
qed

lemma tokenize_from_inside:
  assumes "matcher_ok find_at"
  shows "tokenize_from g find_at line stack pos run tokens = (ts, stack') \<Longrightarrow> inside line tokens \<Longrightarrow>
    inside line ts \<and> (length stack \<le> max_region_depth \<longrightarrow> length stack' \<le> max_region_depth)"
  using assms
proof (induction g find_at line stack pos run tokens rule: tokenize_from.induct)
  case (1 g find_at line stack pos run tokens)
  show ?case
  proof (cases "length line \<le> pos")
    case True
    then show ?thesis using 1(4,5) flush_inside [of "length line" line stack run]
      by (auto simp: tokenize_from.simps [of g find_at line stack pos])
  next
    case False
    then have fl: "inside line (flush_run stack run pos)" by (intro flush_inside) simp
    show ?thesis
    proof (cases "try_region_end find_at line pos stack")
      case (Some x)
      obtain consumed emitted st where x: "x = (consumed, emitted, st)" by (cases x)
      note e = end_inside [OF 1(6) Some [unfolded x]]
      have "tokenize_from g find_at line st (pos + consumed) None (tokens @ flush_run stack run pos @ emitted) = (ts, stack')"
        using 1(4) False Some x by (simp add: tokenize_from.simps [of g find_at line stack pos])
      with 1(3) [OF False Some x [symmetric] refl _ _ 1(6)] 1(5) fl e show ?thesis by auto
    next
      case None
      show ?thesis
      proof (cases "try_rules g find_at line pos stack (active_patterns g stack)")
        case (Some x)
        obtain consumed emitted st where x: "x = (consumed, emitted, st)" by (cases x)
        note e = rules_inside [OF 1(6) Some [unfolded x]]
        have "tokenize_from g find_at line st (pos + consumed) None (tokens @ flush_run stack run pos @ emitted) = (ts, stack')"
          using 1(4) False None Some x by (simp add: tokenize_from.simps [of g find_at line stack pos])
        with 1(2) [OF False None Some x [symmetric] refl _ _ 1(6)] 1(5) fl e show ?thesis by auto
      next
        case none: None
        have "tokenize_from g find_at line stack (pos + next_char_len line pos)
            (Some (case run of Some s \<Rightarrow> s | None \<Rightarrow> pos)) tokens = (ts, stack')"
          using 1(4) False None none by (simp add: tokenize_from.simps [of g find_at line stack pos])
        with 1(1) [OF False None none _ _ 1(6)] 1(5) show ?thesis by auto
      qed
    qed
  qed
qed

text \<open>Every token of a line lies inside the line, and the region stack never grows past its
  bound, whatever the grammar matches.\<close>

theorem tokens_inside_line:
  assumes "matcher_ok find_at" "tokenize_line g find_at stack line = (ts, stack')"
  shows "(\<forall>t \<in> set ts. tk_start t + tk_length t \<le> length line) \<and>
    (length stack \<le> max_region_depth \<longrightarrow> length stack' \<le> max_region_depth)"
  using tokenize_from_inside [OF assms(1) assms(2) [unfolded tokenize_line_def]] by (simp add: inside_def)

definition sample_matcher :: matcher where
  "sample_matcher source line pos =
     (if source = ''x'' then
        (if starts_with (drop pos line) ''x'' then Some [Some (pos, Suc pos)] else None)
      else if source = [] then (if pos \<le> length line then Some [Some (pos, pos)] else None)
      else None)"

lemma sample_matcher_ok: "matcher_ok sample_matcher"
proof -
  have "starts_with (drop pos line) ''x'' \<Longrightarrow> Suc pos \<le> length line" for pos line
    by (cases "pos < length line") (auto dest: starts_with_length)
  then show ?thesis by (auto simp: matcher_ok_def sample_matcher_def split: if_splits)
qed

definition region_grammar :: "string \<Rightarrow> grammar" where
  "region_grammar stop = \<lparr>gr_scope_name = ''source.x'', gr_file_types = [], gr_first_line_match = None,
     gr_root_patterns = [''r''],
     gr_repository = bt_of_list [(''r'', \<lparr>ru_name = Some ''block'', ru_body = BeginEndRule
       \<lparr>bd_begin = ''x'', bd_begin_captures = [], bd_end = stop, bd_end_captures = [],
        bd_content_name = None, bd_patterns = []\<rparr>\<rparr>)]\<rparr>"

lemma tokens_inside_line_witness:
  "list_all (\<lambda>t. tk_start t + tk_length t \<le> length ''axb'')
      (fst (tokenize_line (region_grammar []) sample_matcher [] ''axb'')) \<and>
    length (snd (tokenize_line (region_grammar []) sample_matcher [] ''axb'')) \<le> max_region_depth"
  using tokens_inside_line [OF sample_matcher_ok prod.collapse [symmetric], of "region_grammar []" "[]" "''axb''"]
  by (simp add: list_all_iff)

text \<open>The frame that the rule of the sample grammar opens.\<close>

definition sample_frame :: "string \<Rightarrow> region_frame" where
  "sample_frame stop = \<lparr>rf_end = stop, rf_end_captures = [], rf_patterns = [], rf_scope_prefixes = [''block'']\<rparr>"

text \<open>A zero-width match of an \<open>end\<close> pattern is accepted: it emits an empty token and closes the
  region, where a zero-width match of any other pattern is skipped.\<close>

theorem zero_width_end_accepted:
  "tokenize_line (region_grammar []) sample_matcher [] ''xx'' =
     ([\<lparr>tk_start = 0, tk_length = 1, tk_scopes = [''block'']\<rparr>,
       \<lparr>tk_start = 1, tk_length = 0, tk_scopes = [''block'']\<rparr>,
       \<lparr>tk_start = 1, tk_length = 1, tk_scopes = [''block'']\<rparr>],
      [sample_frame []])"
  by code_simp

section \<open>Lines without a match\<close>

text \<open>
  A position is dead when neither the end of the region nor a rule of the context matches there.
  Over dead positions the run grows until the end of the line.
\<close>

definition dead :: "grammar \<Rightarrow> matcher \<Rightarrow> string \<Rightarrow> region_frame list \<Rightarrow> nat \<Rightarrow> bool" where
  "dead g find_at line stack pos \<longleftrightarrow>
     try_region_end find_at line pos stack = None \<and>
     try_rules g find_at line pos stack (active_patterns g stack) = None"

lemma tokenize_from_dead:
  assumes "\<forall>p. pos \<le> p \<longrightarrow> p < length line \<longrightarrow> dead g find_at line stack p"
  shows "tokenize_from g find_at line stack pos run tokens =
    (tokens @ flush_run stack
       (case run of Some s \<Rightarrow> Some s | None \<Rightarrow> if pos < length line then Some pos else None) (length line), stack)"
  using assms
proof (induction "length line - pos" arbitrary: pos run rule: less_induct)
  case less
  show ?case
  proof (cases "length line \<le> pos")
    case True
    then show ?thesis by (cases run) (simp_all add: tokenize_from.simps [of g find_at line stack pos])
  next
    case False
    then have d: "try_region_end find_at line pos stack = None"
        "try_rules g find_at line pos stack (active_patterns g stack) = None"
      using less.prems by (auto simp: dead_def)
    have "tokenize_from g find_at line stack (pos + next_char_len line pos)
        (Some (case run of Some s \<Rightarrow> s | None \<Rightarrow> pos)) tokens =
      (tokens @ flush_run stack (Some (case run of Some s \<Rightarrow> s | None \<Rightarrow> pos)) (length line), stack)"
      using less.hyps [OF next_char_progress [OF False]] less.prems by simp
    with False d show ?thesis
      by (cases run) (simp_all add: tokenize_from.simps [of g find_at line stack pos])
  qed
qed

text \<open>A line on which nothing matches is one token with the scopes of the regions it lies in, no
  token at all outside regions, and the regions stay open for the next line.\<close>

theorem unmatched_line_is_one_token:
  assumes "\<forall>p < length line. dead g find_at line stack p"
  shows "tokenize_line g find_at stack line =
    (if stack = [] \<or> line = [] then []
     else [\<lparr>tk_start = 0, tk_length = length line, tk_scopes = base_scopes stack\<rparr>], stack)"
  using assms tokenize_from_dead [of 0 line g find_at stack None "[]"]
  by (simp add: tokenize_line_def flush_run_def)

lemma unmatched_line_witness:
  "tokenize_line (region_grammar ''y'') sample_matcher [sample_frame ''y''] ''ab'' =
    ([\<lparr>tk_start = 0, tk_length = 2, tk_scopes = [''block'']\<rparr>], [sample_frame ''y''])"
proof -
  have "dead (region_grammar ''y'') sample_matcher ''ab'' [sample_frame ''y''] 0"
       "dead (region_grammar ''y'') sample_matcher ''ab'' [sample_frame ''y''] 1"
    by code_simp+
  then have "\<forall>p < length ''ab''. dead (region_grammar ''y'') sample_matcher ''ab'' [sample_frame ''y''] p"
    by (auto simp: less_Suc_eq)
  from unmatched_line_is_one_token [OF this] show ?thesis by (simp add: base_scopes_def sample_frame_def)
qed

section \<open>Splitting into lines\<close>

lemma join_str_snoc_empty: "xs \<noteq> [] \<Longrightarrow> join_str sep (xs @ [[]]) = join_str sep xs @ sep"
  by (induction xs rule: induct_list012) simp_all

lemma join_str_snoc: "\<exists>p. join_str sep (xs @ [x]) = p @ x"
  by (induction xs rule: induct_list012) (simp_all, metis append.assoc)

lemma ends_with_char: "ends_with (p @ x) [d] \<longleftrightarrow> (if x = [] then ends_with p [d] else last x = d)"
  by (cases x rule: rev_cases) (auto simp: ends_with_iff)

text \<open>The lines are the text cut at its line feeds: joined with line feeds they give it back, less
  a final line feed, and no line holds one.\<close>

theorem split_lines_join:
  "join_str [CHR 0x0A] (split_lines s) = (if ends_with s [CHR 0x0A] then butlast s else s) \<and>
    (\<forall>l \<in> set (split_lines s). CHR 0x0A \<notin> set l)"
proof -
  let ?nl = "[CHR 0x0A]" and ?ps = "split_char (CHR 0x0A) s"
  have ps: "?ps = butlast ?ps @ [last ?ps]" by (simp del: append_butlast_last_id add: append_butlast_last_id [OF split_char_nonempty])
  have no: "\<forall>l \<in> set ?ps. CHR 0x0A \<notin> set l" by (auto dest: split_char_pieces)
  have "join_str ?nl (split_lines s) = (if ends_with s ?nl then butlast s else s)"
  proof (cases "last ?ps = [] \<and> s \<noteq> []")
    case True
    have ne: "butlast ?ps \<noteq> []"
    proof
      assume "butlast ?ps = []"
      with ps True have "?ps = [[]]" by simp
      with join_split_char [of "CHR 0x0A" s] True show False by simp
    qed
    have "s = join_str ?nl (butlast ?ps) @ ?nl"
      using join_str_snoc_empty [OF ne, of ?nl] ps True join_split_char [of "CHR 0x0A" s] by simp
    moreover have "split_lines s = butlast ?ps" using True by (simp add: split_lines_def Let_def)
    ultimately show ?thesis by (metis ends_with_iff butlast_snoc)
  next
    case False
    then have same: "join_str ?nl (split_lines s) = s" by (auto simp: split_lines_def Let_def join_split_char)
    obtain p where p: "s = p @ last ?ps" using join_str_snoc [of ?nl "butlast ?ps" "last ?ps"] ps join_split_char [of "CHR 0x0A" s] by metis
    have "\<not> ends_with s ?nl"
    proof (cases "s = []")
      case False
      then have l: "last ?ps \<noteq> []" using \<open>\<not> (last ?ps = [] \<and> s \<noteq> [])\<close> by simp
      have "last (last ?ps) \<noteq> CHR 0x0A" using no last_in_set [OF split_char_nonempty] last_in_set [OF l] by metis
      then show ?thesis using p l ends_with_char [of p "last ?ps"] by simp
    qed (simp add: ends_with_iff)
    with same show ?thesis by simp
  qed
  moreover have "\<forall>l \<in> set (split_lines s). CHR 0x0A \<notin> set l"
    using no by (auto simp: split_lines_def Let_def dest: in_set_butlastD)
  ultimately show ?thesis by blast
qed

end
