(* ===== verification/Static_Scopes_Props.thy ===== *)
theory Static_Scopes_Props
  imports Static_Scopes
begin

text \<open>The keyword manifest against the kinds of the lexer.\<close>

lemma keywords_of_manifest: "is_keyword_kind kind \<longleftrightarrow> kind \<in> set (map snd keyword_spellings)"
  by (cases kind) (simp_all add: is_keyword_kind_def keyword_spellings_def)

text \<open>The manifest lists exactly the kinds that count as reserved words, each once and with a
  spelling of its own, and no reserved word is trivia or an identifier to the grammar.\<close>

theorem keyword_manifest_exact:
  "set (map snd keyword_spellings) = {kind. is_keyword_kind kind} \<and>
   distinct (map fst keyword_spellings) \<and> distinct (map snd keyword_spellings) \<and>
   list_all (\<lambda>(spelling, kind). expected_scope kind \<noteq> [] \<and> expected_scope kind \<noteq> ''identifier'') keyword_spellings"
proof (intro conjI)
  show "set (map snd keyword_spellings) = {kind. is_keyword_kind kind}" by (auto simp: keywords_of_manifest)
  show "distinct (map fst keyword_spellings)" "distinct (map snd keyword_spellings)"
    "list_all (\<lambda>(spelling, kind). expected_scope kind \<noteq> [] \<and> expected_scope kind \<noteq> ''identifier'') keyword_spellings"
    by code_simp+
qed

end
