(* ===== verification/Spec2Isabelle.thy ===== *)
theory Spec2Isabelle
  imports Prelude Ordered_Map Rust_Str Compiler_View Symbols Native Coords Coords_Spec Edits
    Event_Hub Document_Store Document_Spec Document_Props Protocol Format Format_Spec
    Modules Modules_Spec Modules_Props Event_Projection Workspace_Index Workspace_Index_Spec
    Service Service_Spec Service_Reach Service_Props
    Relation_Kernel Relation_Walk Relation_Spec Relation_Contract Relation_Queries Relation_Props
    Symbol_Queries Native_Filter Render Completion Completion_Props
    Document_Queries Debug_Binding Intel Document_Queries_Props
    Rename Rename_Props Dedup Code_Actions Candidate Candidate_Props Json Language_Knowledge
    Family_Context Family_Query Family_Props
    Capsule_Kernel Capsule Capsule_Policy Capsule_Props Capsule_Answers Capsule_Walk
    Service_Calls Wire Wire_Props Rpc Rpc_Props
    Static_Grammar Static_Grammar_Props Static_Tokenizer Static_Tokenizer_Props Static_Scopes Static_Scopes_Props
begin

text \<open>
  \<^bold>\<open>The language service of MNCS.\<close> The repository is a resident language service: a Rust core
  (\<open>crates/service-core\<close>) that keeps documents, analyses and indexes and answers queries, a host that
  serves it to remote clients, two thin adapters that speak LSP and MCP over it, and a static syntax crate
  (\<open>crates/static-syntax\<close>) that loads a TextMate grammar and tokenizes with it. This development models the
  core, the host with its client and the static syntax crate as HOL functions on explicit states, and proves what they promise.

  \<^bold>\<open>How the parts interact.\<close> An editor notification or a file system event changes one document of the
  \<^emph>\<open>store\<close>, which takes a generation from a shared counter. The \<^emph>\<open>service\<close> wraps each change: it captures
  the analysis before, drops the analyses and index entries of the document and of its transitive
  importers, analyses the new text, projects the two snapshots into a \<^emph>\<open>change event\<close> and pushes it into
  the \<^emph>\<open>event hub\<close>, from which consumers poll with a cursor. Queries take a \<^emph>\<open>snapshot\<close> (the cached
  analysis if its generation, its content and its dependencies are still current), maintain the
  \<^emph>\<open>workspace index\<close> incrementally and answer with a status. The counts, walks, matches and positions
  that a query reports are computed by kernels written in the analysed language and executed by its
  reference backend; the service checks every answer of a kernel and fails closed when it is malformed.

  \<^bold>\<open>The theories and the code they model.\<close>
  \<^item> Shared: \<open>Prelude\<close> (machine integers, errors, list lemmas), \<open>Ordered_Map\<close> (Rust's \<open>BTreeMap\<close> and
    \<open>BTreeSet\<close> as sorted association lists, with the locale \<open>btree_laws\<close>), \<open>Rust_Str\<close> (the operations of
    \<open>str\<close> on UTF-8 byte lists; a slice off a character boundary is \<^term>\<open>None\<close>, the panic of the code),
    \<open>Compiler_View\<close> (the artifacts of the front end that the service reads, as records).
  \<^item> \<open>Symbols\<close>: \<open>indexes.rs\<close>, \<open>si_build\<close> and the queries of the symbol index.
  \<^item> \<open>Native\<close>: \<open>native_coords.rs\<close>, the values the backend exchanges and the decoding of its answers.
  \<^item> \<open>Coords\<close>, \<open>Coords_Spec\<close>: \<open>coords.rs\<close>, the chunked line index and its equality with a plain scan.
  \<^item> \<open>Edits\<close>: \<open>edits.rs\<close>, content changes applied in order.
  \<^item> \<open>Document_Store\<close>, \<open>Document_Spec\<close>, \<open>Document_Props\<close>: \<open>document.rs\<close>, documents, module directory,
    notifications, discovery, refresh and checkpoint reconciliation. The fields of \<open>document_store\<close> and
    \<open>document\<close> are those of \<open>DocumentStore\<close> and \<open>Document\<close>; the file system is the record \<open>environment\<close>.
  \<^item> \<open>Event_Hub\<close>, \<open>Event_Projection\<close>: \<open>events.rs\<close>, the bounded history with its cursors and checkpoints,
    and the projection of two snapshots to a change event.
  \<^item> \<open>Format\<close>, \<open>Format_Spec\<close>: \<open>format.rs\<close>; \<open>Protocol\<close>: the shared answer records of \<open>queries.rs\<close> and \<open>rename.rs\<close>.
  \<^item> \<open>Modules\<close>, \<open>Modules_Spec\<close>, \<open>Modules_Props\<close>: \<open>modules.rs\<close> and \<open>analysis.rs\<close>, the resolver with its library
    candidates, dependency fingerprints and the analysis of a document. Lazy loading (\<open>lazy_load\<close>) is the
    only effect a resolution has on the store.
  \<^item> \<open>Workspace_Index\<close>, \<open>Workspace_Index_Spec\<close>: \<open>workspace_index.rs\<close>, entries, global maps and counters.
  \<^item> \<open>Service\<close>, \<open>Service_Spec\<close>, \<open>Service_Reach\<close>, \<open>Service_Props\<close>: the stateful half of \<open>queries.rs\<close>
    (\<open>LanguageService\<close>), the record \<open>service\<close>: life cycle calls, snapshots, invalidation, index
    maintenance, refresh, checkpoints, root configuration; reachability and its invariant.
  \<^item> \<open>Relation_Kernel\<close>, \<open>Relation_Walk\<close>: \<open>native_relation.rs\<close> and \<open>NativeRelationWalk\<close>, the code table, the
    batches and the levels of a breadth first walk. \<open>Relation_Spec\<close> and \<open>Relation_Contract\<close> refine it to the
    abstract walk \<open>bfs_levels\<close>; \<open>Relation_Queries\<close>, \<open>Relation_Props\<close> are the transitive queries and the call
    graph of \<open>queries.rs\<close>.
  \<^item> \<open>Symbol_Queries\<close>: status, diagnostics, subjects, definitions, references and highlights of \<open>queries.rs\<close>.
  \<^item> \<open>Native_Filter\<close>: \<open>native_filter.rs\<close> and \<open>native_query.rs\<close>, counts, text matches and status summaries.
  \<^item> \<open>Render\<close>, \<open>Completion\<close>, \<open>Completion_Props\<close>: \<open>render.rs\<close> (hover, token classes, completion) and the
    workspace symbol search of \<open>queries.rs\<close>.
  \<^item> \<open>Document_Queries\<close>, \<open>Debug_Binding\<close>, \<open>Intel\<close>, \<open>Document_Queries_Props\<close>: the other document queries of
    \<open>queries.rs\<close>, \<open>debug_binding.rs\<close> and \<open>intel.rs\<close>.
  \<^item> \<open>Rename\<close>, \<open>Rename_Props\<close>: \<open>rename.rs\<close>; \<open>Code_Actions\<close>: \<open>actions.rs\<close>; \<open>Dedup\<close>: the sort and dedup step both share.
  \<^item> \<open>Candidate\<close>, \<open>Candidate_Props\<close>: \<open>candidate.rs\<close>, the analysis of a proposed text beside the resident one, its
    deltas and the counts the filter kernel computes in windows.
  \<^item> \<open>Json\<close>, \<open>Language_Knowledge\<close>: \<open>language_knowledge.rs\<close>, the discovery of the capability index, the walk back
    through its delta history and the bounded answers.
  \<^item> \<open>Family_Context\<close>, \<open>Family_Query\<close>, \<open>Family_Props\<close>: \<open>family_context.rs\<close>, the packet that joins the repository
    manifest, the verification inventory, the language answer, the architecture projection and the atlas; every
    authority is read through the record \<open>family_env\<close> and \<open>family_query\<close> composes them.
  \<^item> \<open>Capsule_Kernel\<close>, \<open>Capsule\<close>, \<open>Capsule_Answers\<close>, \<open>Capsule_Walk\<close>: \<open>ambient.rs\<close>, the status answer, the
    semantic capsule (\<open>measure_capsule\<close>, \<open>capsule_candidates\<close>, \<open>fill_envelope\<close>, \<open>capsule_verdict\<close>) and its
    impact query, with the preparation and the cache of the capsule kernel; the walk over the kernel's imports ends.
  \<^item> \<open>Capsule_Policy\<close>, \<open>Capsule_Props\<close>: \<open>mncs/semantic_capsule.mncs\<close>, the kernel's own order and admission
    functions, and what the envelope holds when the backend runs them.
  \<^item> \<open>Service_Calls\<close>, \<open>Wire\<close>, \<open>Wire_Props\<close>, \<open>Rpc\<close>, \<open>Rpc_Props\<close>: \<open>client.rs\<close>. The methods of
    \<open>LanguageServiceClient\<close> are the datatype \<open>client_call\<close> in four groups and \<open>perform\<close> is the implementation of the
    resident service; \<open>remote_request\<close> is what the remote client writes, \<open>decode_call\<close> and \<open>dispatch\<close> what the host
    reads and runs, \<open>serve_connection\<close> the loop over the lines of a connection, \<open>remote_call\<close> the remote call.
  \<^item> \<open>Static_Grammar\<close>, \<open>Static_Tokenizer\<close>, \<open>Static_Scopes\<close> and their \<open>_Props\<close>: \<open>grammar.rs\<close>, \<open>tokenizer.rs\<close>
    and \<open>scopes.rs\<close> of the static syntax crate.

  \<^bold>\<open>Interfaces.\<close> A locale states what one part relies on, and an interpretation discharges it on the
  model: \<open>btree_laws\<close> (a sorted map), \<open>posting\<close> (a global map of the index is determined by the entries;
  four interpretations), \<open>refresh_hook\<close> and \<open>refresh_owner\<close> (the store's refresh with the service's
  callback), \<open>relation_walker\<close> and \<open>first_visit_walker\<close> (the advance operation of a walk kernel),
  \<open>text_oracle\<close> (a matcher that decides names), \<open>parent_forest\<close> (the parent links of a symbol index).

  \<^bold>\<open>What the lemmas show.\<close> Invariants: the store, its directory, the hub, the caches and the index stay
  consistent over every sequence of calls. Equivalence and refinement: the chunked coordinates equal a
  scan, the incremental index equals a rebuild, the batched walk equals breadth first search, the batched
  completion and symbol search select exactly the matching names, the bracket matcher equals a stack scan.
  Error behaviour: malformed kernel answers, foreign cursors, oversized documents and refused root
  configurations leave a defined answer and a defined state; a family packet and a capsule are declared
  complete only when every authority and every verdict behind them is. Several theorems state where the code does
  not do what its comments say; they are listed as findings of the manifest.

  \<^bold>\<open>Parameters.\<close> The compiler (\<open>toolchain\<close>, \<open>model_api\<close>), the backend that executes kernels
  (\<open>native_platform\<close>), the file system, URL handling and content hashing (\<open>environment\<close>), the regular
  expression engine (\<open>matcher\<close>), the editor adapter's checkpoint file (\<open>platform\<close>), the Unicode classes outside
  ASCII (\<open>unicode_classes\<close>), the decoding of JSON text (\<open>knowledge_env\<close>), the files and child processes of a
  family query (\<open>family_env\<close>), the texts \<open>serde_json\<close> reads and writes (\<open>serde\<close>), the connection of a remote client
  (\<open>network\<close>), what a host runs on (\<open>host\<close>), SHA-256, the comparison of two programs (\<open>neighborhood\<close>) and the identity of the
  running build (\<open>service_identity\<close>) are arguments of the model. The fields \<open>tl_offset\<close>, \<open>tl_position\<close> and \<open>tl_range\<close> stand for the position map inside a query;
  the map itself is modelled in \<open>Coords\<close>. What is assumed of a parameter is a named predicate
  (\<open>text_contract\<close>, \<open>walk_contract\<close>, \<open>runs_order_kernel\<close>, \<open>sort_law\<close>, the chunk and window contracts of the coordinate kernel), and a witness
  shows that a concrete function satisfies it.

  \<^bold>\<open>Bounds and fuel.\<close> Every loop of the model is structural or has a measure. The only fuel is that of
  \<open>assemble\<close> (the number of symbols, which bounds the depth of the parent links; \<open>symbol_tree_complete\<close>
  shows that it is enough). The bounds are those of the code: 16 levels and 1024 identities of a walk, 64
  codes of a batch, 500 workspace symbols, 200 completions, 200 inlay hints, 12 excerpts of a packet.
  Counters wrap or saturate at 64 bits where the code's do.

  \<^bold>\<open>Not modelled.\<close> The adapters (\<open>lsp\<close>, \<open>mcp\<close>, the binaries) map JSON-RPC to the calls above; the sockets of
  \<open>client.rs\<close>, their addresses and time-outs, and the threads that serve several connections at once; \<open>startup_profile.rs\<close> measures time; \<open>lib.rs\<close> re-exports. The
  caches that memoise position maps and prepared kernels are recomputed, which changes no answer.
\<close>

end
